(* ===== verification/W11_Prelude.thy ===== *)
theory W11_Prelude
  imports Main "HOL-Library.Word"
begin

text \<open>
  Shared vocabulary of the development: the machine types of the C++ sources, exceptions as
  values of a sum type, unsigned \<open>size_t\<close> subtraction, the packing of 16 bit words into bytes,
  and generic lemmas on words and lists that the component theories use.
\<close>

unbundle bit_operations_syntax

section \<open>Machine types, exceptions, collections\<close>

type_synonym u8 = "8 word"
type_synonym u16 = "16 word"
type_synonym u32 = "32 word"

text \<open>An \<open>Rexception\<close> carries the method name and the message text; a call that may throw
  returns a value of \<open>rexception + 'a\<close>, where \<open>Inl\<close> is the exception. \<open>MemFault\<close> marks an
  access outside of a buffer, which is undefined behaviour in C++.\<close>

datatype rexception = Rexception string string | MemFault string

type_synonym 'a result = "rexception + 'a"

definition ebind :: "'a result \<Rightarrow> ('a \<Rightarrow> 'b result) \<Rightarrow> 'b result" where
  "ebind r f = (case r of Inl e \<Rightarrow> Inl e | Inr x \<Rightarrow> f x)"

named_theorems rl_defs "definitions of the model that the component proofs unfold"
named_theorems rl_inv "facts on the preservation of the component invariants"

lemma ebind_Inl [simp]: "ebind (Inl e) f = Inl e"
  by (simp add: ebind_def)

lemma ebind_Inr [simp]: "ebind (Inr x) f = f x"
  by (simp add: ebind_def)

lemma ebind_eq_Inr: "ebind r f = Inr y \<longleftrightarrow> (\<exists>x. r = Inr x \<and> f x = Inr y)"
  by (cases r) auto

lemma ebind_eq_Inl: "ebind r f = Inl e \<longleftrightarrow> r = Inl e \<or> (\<exists>x. r = Inr x \<and> f x = Inl e)"
  by (cases r) auto

section \<open>Unsigned sizes\<close>

text \<open>Subtraction of two \<open>size_t\<close> values wraps around at \<open>2 ^ 64\<close>.\<close>

definition size_sub :: "nat \<Rightarrow> nat \<Rightarrow> nat" where
  "size_sub a b = (if b \<le> a then a - b else 2 ^ 64 + a - b)"

lemma size_sub_le [simp]: "b \<le> a \<Longrightarrow> size_sub a b = a - b"
  by (simp add: size_sub_def)

section \<open>Words as byte pairs\<close>

lemma unat_u8_less: "unat (x :: u8) < 256"
  using unsigned_less [of x] by simp

lemma u8_lt8_cases:
  assumes "(ec :: u8) < 8"
  obtains "ec = 0" | "ec = 1" | "ec = 2" | "ec = 3" | "ec = 4" | "ec = 5" | "ec = 6" | "ec = 7"
proof -
  from assms have "unat ec < 8" by (simp add: word_less_nat_alt)
  then have "unat ec \<in> {0, 1, 2, 3, 4, 5, 6, 7}" by auto
  then show ?thesis
    using that by (auto dest!: arg_cong [where f = "of_nat :: nat \<Rightarrow> u8"])
qed

lemma funpow8: "(f ^^ 8) x = f (f (f (f (f (f (f (f x)))))))"
  by (simp add: numeral_eq_Suc)

definition lo8 :: "u16 \<Rightarrow> u8" where
  "lo8 w = ucast (w AND 0xff)"

definition hi8 :: "u16 \<Rightarrow> u8" where
  "hi8 w = ucast (drop_bit 8 w AND 0xff)"

definition mk16 :: "u8 \<Rightarrow> u8 \<Rightarrow> u16" where
  "mk16 l h = ucast l OR push_bit 8 (ucast h)"

lemma mask8_u16: "(0xff :: u16) = mask 8"
  by (simp add: mask_eq_exp_minus_1)

lemma bit_lo8: "bit (lo8 w) n \<longleftrightarrow> n < 8 \<and> bit w n"
  by (auto simp: lo8_def mask8_u16 bit_simps)

lemma bit_hi8: "bit (hi8 w) n \<longleftrightarrow> n < 8 \<and> bit w (n + 8)"
  by (auto simp: hi8_def mask8_u16 bit_simps ac_simps)

lemma bit_mk16: "bit (mk16 l h) n \<longleftrightarrow> (if n < 8 then bit l n else n < 16 \<and> bit h (n - 8))"
  using bit_imp_le_length [of l n] by (auto simp: mk16_def bit_simps)

lemma mk16_lo8_hi8 [simp]: "mk16 (lo8 w) (hi8 w) = w"
  by (rule bit_word_eqI) (auto simp: bit_mk16 bit_lo8 bit_hi8)

lemma lo8_mk16 [simp]: "lo8 (mk16 l h) = l"
  by (rule bit_word_eqI) (auto simp: bit_mk16 bit_lo8)

lemma hi8_mk16 [simp]: "hi8 (mk16 l h) = h"
  by (rule bit_word_eqI) (auto simp: bit_mk16 bit_hi8)

definition bytes16 :: "u16 list \<Rightarrow> u8 list" where
  "bytes16 ws = concat (map (\<lambda>w. [lo8 w, hi8 w]) ws)"

lemma bytes16_Nil [simp]: "bytes16 [] = []"
  by (simp add: bytes16_def)

lemma bytes16_Cons [simp]: "bytes16 (w # ws) = lo8 w # hi8 w # bytes16 ws"
  by (simp add: bytes16_def)

lemma bytes16_append [simp]: "bytes16 (vs @ ws) = bytes16 vs @ bytes16 ws"
  by (simp add: bytes16_def)

lemma length_bytes16 [simp]: "length (bytes16 ws) = 2 * length ws"
  by (induction ws) auto

text \<open>A byte buffer seen as an array of words.\<close>

fun pairs :: "u8 list \<Rightarrow> u16 list" where
  "pairs (a # b # r) = mk16 a b # pairs r"
| "pairs _ = []"

lemma length_pairs: "length (pairs ys) = length ys div 2"
  by (induction ys rule: pairs.induct) auto

lemma bytes16_pairs: "bytes16 (pairs ys) = take (2 * (length ys div 2)) ys"
  by (induction ys rule: pairs.induct) auto

lemma pairs_bytes16 [simp]: "pairs (bytes16 ws) = ws"
  by (induction ws) auto

end
