(* ===== verification/ReventLoop.thy ===== *)
theory ReventLoop
  imports W11_Prelude
begin

text \<open>
  Class \<open>ReventLoop\<close> of \<open>librlink\<close>: the table of poll handlers and one turn of the event loop. A
  handler is known by a number; what it does is the parameter \<open>hdl\<close> of the operations that call
  handlers, a function on the whole state, of which \<open>el_world\<close> is the part that belongs to the
  clients. The \<open>poll\<close> system call is a script: each entry has the calls that other threads make
  while \<open>poll\<close> waits, and its outcome. When the script is used up \<open>poll\<close> waits for ever. The mutex
  and the trace output are left out.
\<close>

section \<open>State\<close>

type_synonym hid = nat

record poll_dsc =
  pd_fHandler :: hid
  pd_fFd :: int
  pd_fEvents :: u16

record pollfd =
  pf_fd :: int
  pf_events :: u16
  pf_revents :: u16

record 'w eloop =
  el_fStopPending :: bool
  el_fUpdatePoll :: bool
  el_fPollDsc :: "poll_dsc list"
  el_fPollFd :: "pollfd list"
  el_fPollHdl :: "hid list"
  el_fTraceLevel :: u32
  el_world :: 'w

type_synonym 'w pollhdl = "hid \<Rightarrow> pollfd \<Rightarrow> 'w eloop \<Rightarrow> (int \<times> 'w eloop) result"

definition eloop_new :: "'w \<Rightarrow> 'w eloop" where
  "eloop_new w = \<lparr>el_fStopPending = False, el_fUpdatePoll = False, el_fPollDsc = [], el_fPollFd = [],
     el_fPollHdl = [], el_fTraceLevel = 0, el_world = w\<rparr>"

section \<open>The handler table\<close>

definition pd_match :: "int \<Rightarrow> u16 \<Rightarrow> poll_dsc \<Rightarrow> bool" where
  "pd_match fd events d = (pd_fFd d = fd \<and> pd_fEvents d = events)"

definition TestPollHandler :: "int \<Rightarrow> u16 \<Rightarrow> 'w eloop \<Rightarrow> bool" where
  "TestPollHandler fd events s = list_ex (pd_match fd events) (el_fPollDsc s)"

definition AddPollHandler :: "hid \<Rightarrow> int \<Rightarrow> u16 \<Rightarrow> 'w eloop \<Rightarrow> 'w eloop result" where
  "AddPollHandler h fd events s =
     (if list_ex (pd_match fd events) (el_fPollDsc s)
      then Inl (Rexception ''ReventLoop::AddPollHandler()'' ''Bad args: duplicate handler'')
      else Inr (s\<lparr>el_fPollDsc := el_fPollDsc s @ [\<lparr>pd_fHandler = h, pd_fFd = fd, pd_fEvents = events\<rparr>],
                  el_fUpdatePoll := True\<rparr>))"

fun erase_first :: "('a \<Rightarrow> bool) \<Rightarrow> 'a list \<Rightarrow> 'a list" where
  "erase_first P [] = []"
| "erase_first P (x # xs) = (if P x then xs else x # erase_first P xs)"

definition RemovePollHandler :: "int \<Rightarrow> u16 \<Rightarrow> bool \<Rightarrow> 'w eloop \<Rightarrow> 'w eloop result" where
  "RemovePollHandler fd events nothrow s =
     (if list_ex (pd_match fd events) (el_fPollDsc s)
      then Inr (s\<lparr>el_fPollDsc := erase_first (pd_match fd events) (el_fPollDsc s), el_fUpdatePoll := True\<rparr>)
      else if \<not> nothrow then Inl (Rexception ''ReventLoop::RemovePollHandler()'' ''Bad args: unknown handler'')
      else Inr s)"

text \<open>The variant for all handlers of a file descriptor; the loop erases at the index and probes it again.\<close>

fun remove_fd_loop :: "int \<Rightarrow> poll_dsc list \<Rightarrow> poll_dsc list \<times> bool" where
  "remove_fd_loop fd [] = ([], False)"
| "remove_fd_loop fd (d # ds) =
     (let (ds', upd) = remove_fd_loop fd ds in if pd_fFd d = fd then (ds', True) else (d # ds', upd))"

definition RemovePollHandlerFd :: "int \<Rightarrow> 'w eloop \<Rightarrow> 'w eloop" where
  "RemovePollHandlerFd fd s =
     (let (ds, upd) = remove_fd_loop fd (el_fPollDsc s)
      in s\<lparr>el_fPollDsc := ds, el_fUpdatePoll := (el_fUpdatePoll s \<or> upd)\<rparr>)"

definition el_Stop :: "'w eloop \<Rightarrow> 'w eloop" where
  "el_Stop s = s\<lparr>el_fStopPending := True\<rparr>"

definition el_UnStop :: "'w eloop \<Rightarrow> 'w eloop" where
  "el_UnStop s = s\<lparr>el_fStopPending := False\<rparr>"

definition el_SetTraceLevel :: "u32 \<Rightarrow> 'w eloop \<Rightarrow> 'w eloop" where
  "el_SetTraceLevel level s = s\<lparr>el_fTraceLevel := level\<rparr>"

section \<open>Poll and call\<close>

text \<open>What another thread may do while \<open>poll\<close> waits. A call that throws there has no effect here.\<close>

datatype envop = EnvAdd hid int u16 | EnvRemove int u16 | EnvRemoveFd int | EnvStop

fun env_step :: "envop \<Rightarrow> 'w eloop \<Rightarrow> 'w eloop" where
  "env_step (EnvAdd h fd ev) s = (case AddPollHandler h fd ev s of Inl _ \<Rightarrow> s | Inr s' \<Rightarrow> s')"
| "env_step (EnvRemove fd ev) s = (case RemovePollHandler fd ev False s of Inl _ \<Rightarrow> s | Inr s' \<Rightarrow> s')"
| "env_step (EnvRemoveFd fd) s = RemovePollHandlerFd fd s"
| "env_step EnvStop s = el_Stop s"

datatype pollres = PollInterrupted | PollFailed | PollEvents "u16 list"

type_synonym pollscript = "(envop list \<times> pollres) list"

definition redo_poll :: "'w eloop \<Rightarrow> 'w eloop" where
  "redo_poll s =
     s\<lparr>el_fPollFd := map (\<lambda>d. \<lparr>pf_fd = pd_fFd d, pf_events = pd_fEvents d, pf_revents = 0\<rparr>) (el_fPollDsc s),
       el_fPollHdl := map pd_fHandler (el_fPollDsc s), el_fUpdatePoll := False\<rparr>"

fun put_revents :: "u16 list \<Rightarrow> pollfd list \<Rightarrow> pollfd list" where
  "put_revents revs [] = []"
| "put_revents [] (p # ps) = p\<lparr>pf_revents := 0\<rparr> # put_revents [] ps"
| "put_revents (r # revs) (p # ps) = p\<lparr>pf_revents := r\<rparr> # put_revents revs ps"

text \<open>The result of \<open>DoPoll\<close> is the return code of \<open>poll\<close>, the rest of the script and the state;
  \<open>None\<close> when \<open>poll\<close> does not return.\<close>

fun DoPoll :: "pollscript \<Rightarrow> 'w eloop \<Rightarrow> (int \<times> pollscript \<times> 'w eloop) option result" where
  "DoPoll [] s =
     (let s1 = (if el_fUpdatePoll s then redo_poll s else s)
      in Inr (if el_fPollFd s1 = [] then Some (0, [], s1) else None))"
| "DoPoll ((env, res) # script) s =
     (let s1 = (if el_fUpdatePoll s then redo_poll s else s)
      in if el_fPollFd s1 = [] then Inr (Some (0, (env, res) # script, s1))
         else let s2 = fold env_step env s1
         in case res of
              PollInterrupted \<Rightarrow> Inr (Some (0, script, s2))
            | PollFailed \<Rightarrow> Inl (Rexception ''ReventLoop::EventLoop()'' ''poll() failed: '')
            | PollEvents revs \<Rightarrow>
                let s3 = s2\<lparr>el_fPollFd := put_revents revs (el_fPollFd s2)\<rparr>
                in if el_fUpdatePoll s3 then DoPoll script s3
                   else Inr (Some (int (length (filter (\<lambda>p. pf_revents p \<noteq> 0) (el_fPollFd s3))), script, s3)))"

text \<open>The vectors \<open>fPollFd\<close> and \<open>fPollHdl\<close> are only changed by \<open>DoPoll\<close>, so the loop runs over
  their contents at its start.\<close>

fun call_loop :: "'w pollhdl \<Rightarrow> (pollfd \<times> hid) list \<Rightarrow> 'w eloop \<Rightarrow> 'w eloop result" where
  "call_loop hdl [] s = Inr s"
| "call_loop hdl ((pfd, h) # phs) s =
     (if el_fUpdatePoll s then Inr s
      else if pf_revents pfd \<noteq> 0 then
        ebind (hdl h pfd s) (\<lambda>(irc, s1).
          if irc < 0 then ebind (RemovePollHandler (pf_fd pfd) (pf_events pfd) True s1) (call_loop hdl phs)
          else call_loop hdl phs s1)
      else call_loop hdl phs s)"

definition DoCall :: "'w pollhdl \<Rightarrow> 'w eloop \<Rightarrow> 'w eloop result" where
  "DoCall hdl s = call_loop hdl (zip (el_fPollFd s) (el_fPollHdl s)) s"

text \<open>How the event loop ends: it was stopped or ran out of handlers, an exception ended it, or it waits
  in \<open>poll\<close>.\<close>

datatype 'w eloop_end = EndStopped "'w eloop" | EndEmpty "'w eloop" | EndCrashed rexception | EndWaiting

lemma DoPoll_shrinks:
  "DoPoll script s = Inr (Some (irc, script', s')) \<Longrightarrow> el_fPollFd s' \<noteq> [] \<Longrightarrow> length script' < length script"
proof (induction script s rule: DoPoll.induct)
  case (2 env res script s)
  then show ?case by (fastforce simp: Let_def split: if_splits pollres.splits intro: less_SucI)
qed (auto simp: Let_def split: if_splits)

function event_loop :: "'w pollhdl \<Rightarrow> pollscript \<Rightarrow> 'w eloop \<Rightarrow> 'w eloop_end" where
  "event_loop hdl script s =
     (if el_fStopPending s then EndStopped s
      else case DoPoll script s of
             Inl e \<Rightarrow> EndCrashed e
           | Inr None \<Rightarrow> EndWaiting
           | Inr (Some (irc, script', s1)) \<Rightarrow>
               if el_fPollFd s1 = [] then EndEmpty s1
               else (case (if irc > 0 then DoCall hdl s1 else Inr s1) of
                       Inl e \<Rightarrow> EndCrashed e
                     | Inr s2 \<Rightarrow> event_loop hdl script' s2))"
  by pat_completeness auto
termination
  by (relation "measure (\<lambda>(hdl, script, s). length script)") (auto dest: DoPoll_shrinks)

declare event_loop.simps [simp del]

definition EventLoop :: "'w pollhdl \<Rightarrow> pollscript \<Rightarrow> 'w eloop \<Rightarrow> 'w eloop_end" where
  "EventLoop hdl script s = event_loop hdl script (s\<lparr>el_fUpdatePoll := True\<rparr>)"

section \<open>The invariant of the table\<close>

definition pd_key :: "poll_dsc \<Rightarrow> int \<times> u16" where
  "pd_key d = (pd_fFd d, pd_fEvents d)"

definition pf_key :: "pollfd \<Rightarrow> int \<times> u16" where
  "pf_key p = (pf_fd p, pf_events p)"

text \<open>No two handlers have the same descriptor and events, and unless an update is pending the
  vectors for \<open>poll\<close> are the image of the table.\<close>

definition el_inv :: "'w eloop \<Rightarrow> bool" where
  "el_inv s \<longleftrightarrow> distinct (map pd_key (el_fPollDsc s)) \<and>
     (\<not> el_fUpdatePoll s \<longrightarrow> map pf_key (el_fPollFd s) = map pd_key (el_fPollDsc s) \<and>
        el_fPollHdl s = map pd_fHandler (el_fPollDsc s))"

lemma pd_match_key: "pd_match fd ev d \<longleftrightarrow> pd_key d = (fd, ev)"
  by (simp add: pd_match_def pd_key_def)

lemma list_ex_key: "list_ex (pd_match fd ev) ds \<longleftrightarrow> (fd, ev) \<in> set (map pd_key ds)"
  by (induction ds) (auto simp: pd_match_key)

lemma erase_first_key:
  "distinct (map pd_key ds) \<Longrightarrow> erase_first (pd_match fd ev) ds = filter (\<lambda>d. pd_key d \<noteq> (fd, ev)) ds"
proof (induction ds)
  case (Cons d ds)
  then show ?case by (cases "pd_match fd ev d") (force simp: pd_match_key intro!: filter_True [symmetric])+
qed simp

lemma remove_fd_loop_filter:
  "remove_fd_loop fd ds = (filter (\<lambda>d. pd_fFd d \<noteq> fd) ds, list_ex (\<lambda>d. pd_fFd d = fd) ds)"
  by (induction ds) (auto simp: Let_def)

lemma put_revents_key [simp]: "map pf_key (put_revents revs ps) = map pf_key ps"
  by (induction revs ps rule: put_revents.induct) (auto simp: pf_key_def)

lemma el_inv_new: "el_inv (eloop_new w)"
  by (simp add: el_inv_def eloop_new_def)

lemma AddPollHandler_inv [rl_inv]: "AddPollHandler h fd ev s = Inr s' \<Longrightarrow> el_inv s \<Longrightarrow> el_inv s'"
  by (auto simp: AddPollHandler_def el_inv_def list_ex_key pd_key_def split: if_splits)

lemma RemovePollHandler_inv [rl_inv]: "RemovePollHandler fd ev nt s = Inr s' \<Longrightarrow> el_inv s \<Longrightarrow> el_inv s'"
  by (auto simp: RemovePollHandler_def el_inv_def erase_first_key distinct_map_filter split: if_splits)

lemma RemovePollHandlerFd_inv [rl_inv]: "el_inv s \<Longrightarrow> el_inv (RemovePollHandlerFd fd s)"
proof (cases "list_ex (\<lambda>d. pd_fFd d = fd) (el_fPollDsc s)")
  case False
  then have "filter (\<lambda>d. pd_fFd d \<noteq> fd) (el_fPollDsc s) = el_fPollDsc s"
    by (auto simp: list_ex_iff intro!: filter_True)
  with False show "el_inv s \<Longrightarrow> ?thesis" by (simp add: RemovePollHandlerFd_def remove_fd_loop_filter el_inv_def)
qed (auto simp: RemovePollHandlerFd_def remove_fd_loop_filter el_inv_def distinct_map_filter)

lemma redo_poll_inv [rl_inv]: "el_inv s \<Longrightarrow> el_inv (redo_poll s)"
  by (auto simp: redo_poll_def el_inv_def pf_key_def pd_key_def)

lemma el_flags_inv [rl_inv]: "el_inv s \<Longrightarrow> el_inv (el_Stop s)" "el_inv s \<Longrightarrow> el_inv (el_UnStop s)"
  "el_inv s \<Longrightarrow> el_inv (s\<lparr>el_fUpdatePoll := True\<rparr>)" "el_inv (s\<lparr>el_world := w\<rparr>) = el_inv s"
  by (simp_all add: el_Stop_def el_UnStop_def el_inv_def)

text \<open>An operation that keeps the invariant, and what follows for sequences of them.\<close>

locale table_op =
  fixes op :: "'a \<Rightarrow> 'w eloop \<Rightarrow> 'w eloop"
  assumes op_inv: "el_inv s \<Longrightarrow> el_inv (op x s)"
begin

lemma fold_inv: "el_inv s \<Longrightarrow> el_inv (fold op xs s)"
  by (induction xs arbitrary: s) (auto intro: op_inv)

end

lemma env_step_inv: "el_inv s \<Longrightarrow> el_inv (env_step op s)"
  by (cases op) (auto intro: rl_inv split: sum.splits)

interpretation env: table_op env_step
  by unfold_locales (rule env_step_inv)

lemma put_revents_inv: "el_inv s \<Longrightarrow> el_inv (s\<lparr>el_fPollFd := put_revents revs (el_fPollFd s)\<rparr>)"
  by (simp add: el_inv_def)

lemma DoPoll_inv [rl_inv]: "DoPoll script s = Inr (Some (irc, script', s')) \<Longrightarrow> el_inv s \<Longrightarrow> el_inv s'"
proof (induction script s rule: DoPoll.induct)
  case (2 env res script s)
  have e: "el_inv s \<Longrightarrow> el_inv (fold env_step env (if el_fUpdatePoll s then redo_poll s else s))"
    by (auto intro: redo_poll_inv env.fold_inv)
  with 2 show ?case
    using put_revents_inv by (auto simp: Let_def intro: redo_poll_inv split: if_splits pollres.splits)
qed (auto simp: Let_def intro: redo_poll_inv split: if_splits)

section \<open>Properties\<close>

text \<open>The table as a map from descriptor and events to the handler.\<close>

definition el_map :: "'w eloop \<Rightarrow> (int \<times> u16) \<rightharpoonup> hid" where
  "el_map s = map_of (map (\<lambda>d. (pd_key d, pd_fHandler d)) (el_fPollDsc s))"

lemma map_of_filter_key:
  "map_of (map (\<lambda>d. (pd_key d, pd_fHandler d)) (filter (\<lambda>d. P (pd_key d)) ds)) =
   map_of (map (\<lambda>d. (pd_key d, pd_fHandler d)) ds) |` {k. P k}"
  by (induction ds) (auto simp: restrict_map_def fun_eq_iff)

lemma TestPollHandler_map: "TestPollHandler fd ev s \<longleftrightarrow> el_map s (fd, ev) \<noteq> None"
proof -
  have "map_of (map (\<lambda>d. (pd_key d, pd_fHandler d)) ds) k = None \<longleftrightarrow> k \<notin> set (map pd_key ds)" for ds k
    by (induction ds) auto
  then show ?thesis by (simp add: TestPollHandler_def list_ex_key el_map_def)
qed

text \<open>C26: The handler table is a map from a descriptor and its events to a handler: \<open>AddPollHandler\<close> enters a
  new pair and throws for a pair that is there, \<open>RemovePollHandler\<close> deletes exactly the pair and
  throws for an unknown one unless told not to, and the variant for a descriptor deletes exactly the
  pairs of that descriptor. All of them keep the invariant of the table.\<close>

theorem PollHandler_map:
  assumes "el_inv s"
  shows "(case AddPollHandler h fd ev s of
            Inl e \<Rightarrow> e = Rexception ''ReventLoop::AddPollHandler()'' ''Bad args: duplicate handler'' \<and> el_map s (fd, ev) \<noteq> None
          | Inr s' \<Rightarrow> el_map s (fd, ev) = None \<and> el_map s' = (el_map s)((fd, ev) \<mapsto> h) \<and> el_inv s') \<and>
    (case RemovePollHandler fd ev nothrow s of
            Inl e \<Rightarrow> e = Rexception ''ReventLoop::RemovePollHandler()'' ''Bad args: unknown handler'' \<and>
              el_map s (fd, ev) = None \<and> \<not> nothrow
          | Inr s' \<Rightarrow> (nothrow \<or> el_map s (fd, ev) \<noteq> None) \<and> el_map s' = (el_map s)((fd, ev) := None) \<and> el_inv s') \<and>
    el_map (RemovePollHandlerFd fd s) = el_map s |` {k. fst k \<noteq> fd} \<and> el_inv (RemovePollHandlerFd fd s)"
proof -
  have t: "list_ex (pd_match fd ev) (el_fPollDsc s) \<longleftrightarrow> el_map s (fd, ev) \<noteq> None"
    using TestPollHandler_map [of fd ev s] by (simp add: TestPollHandler_def)
  have d: "distinct (map pd_key (el_fPollDsc s))" using assms by (simp add: el_inv_def)
  have add: "el_map (s\<lparr>el_fPollDsc := el_fPollDsc s @ [\<lparr>pd_fHandler = h, pd_fFd = fd, pd_fEvents = ev\<rparr>], el_fUpdatePoll := True\<rparr>) =
      (el_map s)((fd, ev) \<mapsto> h)" if "el_map s (fd, ev) = None"
    using that by (auto simp: el_map_def pd_key_def map_add_def fun_eq_iff split: option.splits)
  have rem: "el_map (s\<lparr>el_fPollDsc := erase_first (pd_match fd ev) (el_fPollDsc s), el_fUpdatePoll := True\<rparr>) =
      (el_map s)((fd, ev) := None)"
    using map_of_filter_key [of "\<lambda>k. k \<noteq> (fd, ev)" "el_fPollDsc s"]
    by (simp add: el_map_def erase_first_key [OF d]) (auto simp: restrict_map_def fun_eq_iff)
  have "el_map (RemovePollHandlerFd fd s) = el_map s |` {k. fst k \<noteq> fd}"
    using map_of_filter_key [of "\<lambda>k. fst k \<noteq> fd" "el_fPollDsc s"]
    by (simp add: el_map_def RemovePollHandlerFd_def remove_fd_loop_filter pd_key_def)
  moreover have "case AddPollHandler h fd ev s of
            Inl e \<Rightarrow> e = Rexception ''ReventLoop::AddPollHandler()'' ''Bad args: duplicate handler'' \<and> el_map s (fd, ev) \<noteq> None
          | Inr s' \<Rightarrow> el_map s (fd, ev) = None \<and> el_map s' = (el_map s)((fd, ev) \<mapsto> h) \<and> el_inv s'"
    using t add AddPollHandler_inv [OF _ assms, of h fd ev] by (auto simp: AddPollHandler_def)
  moreover have "case RemovePollHandler fd ev nothrow s of
            Inl e \<Rightarrow> e = Rexception ''ReventLoop::RemovePollHandler()'' ''Bad args: unknown handler'' \<and>
              el_map s (fd, ev) = None \<and> \<not> nothrow
          | Inr s' \<Rightarrow> (nothrow \<or> el_map s (fd, ev) \<noteq> None) \<and> el_map s' = (el_map s)((fd, ev) := None) \<and> el_inv s'"
    using t rem RemovePollHandler_inv [OF _ assms, of fd ev nothrow] assms
    by (auto simp: RemovePollHandler_def fun_upd_idem)
  ultimately show ?thesis using RemovePollHandlerFd_inv [OF assms] by blast
qed

theorem PollHandler_map_witness:
  "case AddPollHandler 1 4 1 (eloop_new ()) of Inl e \<Rightarrow> False
     | Inr s \<Rightarrow> el_map s = [(4, 1) \<mapsto> 1] \<and> el_inv s"
  using PollHandler_map [of "eloop_new ()" 4 1 1 True, OF el_inv_new]
  by (auto simp: eloop_new_def AddPollHandler_def el_map_def pd_key_def)

text \<open>Two meanings of the handlers agree on registered ones.\<close>

definition registered :: "hid \<Rightarrow> pollfd \<Rightarrow> 'w eloop \<Rightarrow> bool" where
  "registered h p s \<longleftrightarrow> (\<exists>d\<in>set (el_fPollDsc s). pd_fHandler d = h \<and> pd_key d = pf_key p)"

definition well_behaved :: "'w pollhdl \<Rightarrow> bool" where
  "well_behaved hdl \<longleftrightarrow> (\<forall>h p s irc s'. hdl h p s = Inr (irc, s') \<longrightarrow> el_inv s \<longrightarrow>
     el_inv s' \<and> el_fPollFd s' = el_fPollFd s \<and> el_fPollHdl s' = el_fPollHdl s)"

lemma zip_registered:
  assumes "el_inv s" and "\<not> el_fUpdatePoll s" and "(p, h) \<in> set (zip (el_fPollFd s) (el_fPollHdl s))"
  shows "registered h p s"
proof -
  let ?n = "length (el_fPollDsc s)"
  have m: "map pf_key (el_fPollFd s) = map pd_key (el_fPollDsc s)" "el_fPollHdl s = map pd_fHandler (el_fPollDsc s)"
    using assms by (simp_all add: el_inv_def)
  from m(1) have len: "length (el_fPollFd s) = ?n" by (metis length_map)
  from assms(3) obtain i where i: "i < ?n" "p = el_fPollFd s ! i" "h = el_fPollHdl s ! i"
    using len m(2) by (auto simp: set_zip)
  have "pf_key p = pd_key (el_fPollDsc s ! i)" using arg_cong [OF m(1), of "\<lambda>xs. xs ! i"] i len by simp
  then show ?thesis using i m(2) by (auto simp: registered_def intro!: bexI [of _ "el_fPollDsc s ! i"])
qed

lemma call_loop_cong:
  assumes "well_behaved hdl" and agree: "\<And>h p s. registered h p s \<Longrightarrow> hdl h p s = hdl' h p s"
  shows "el_inv s \<Longrightarrow> set phs \<subseteq> set (zip (el_fPollFd s) (el_fPollHdl s)) \<Longrightarrow> call_loop hdl phs s = call_loop hdl' phs s"
proof (induction phs arbitrary: s)
  case (Cons ph phs)
  obtain pfd h where ph: "ph = (pfd, h)" by (cases ph)
  show ?case
  proof (cases "el_fUpdatePoll s \<or> pf_revents pfd = 0")
    case True
    with Cons ph show ?thesis by auto
  next
    case False
    then have eq: "hdl h pfd s = hdl' h pfd s" using zip_registered [of s pfd h] Cons ph agree by auto
    have rec: "call_loop hdl phs s1 = call_loop hdl' phs s1" and
      rec2: "RemovePollHandler (pf_fd pfd) (pf_events pfd) True s1 = Inr s2 \<Longrightarrow> call_loop hdl phs s2 = call_loop hdl' phs s2"
      if "hdl h pfd s = Inr (irc, s1)" for irc s1 s2
    proof -
      have k: "el_inv s1" "el_fPollFd s1 = el_fPollFd s" "el_fPollHdl s1 = el_fPollHdl s"
        using that Cons.prems(1) assms(1) by (simp_all add: well_behaved_def)
      then show 1: "call_loop hdl phs s1 = call_loop hdl' phs s1" using Cons by auto
      assume "RemovePollHandler (pf_fd pfd) (pf_events pfd) True s1 = Inr s2"
      then have "s2 = s1 \<or> el_fUpdatePoll s2" by (auto simp: RemovePollHandler_def split: if_splits)
      then show "call_loop hdl phs s2 = call_loop hdl' phs s2" using 1 by (cases phs) auto
    qed
    then show ?thesis using False eq ph by (auto simp: ebind_def split: sum.split)
  qed
qed simp

text \<open>C25: Only registered handlers are called: the effect of \<open>DoCall\<close> depends on a handler only in states in
  which the handler is in the table for the descriptor and events that it is called with. In
  particular a handler that an earlier one of the same turn removed is not called any more.\<close>

theorem DoCall_registered:
  assumes "well_behaved hdl" and "\<And>h p s. registered h p s \<Longrightarrow> hdl h p s = hdl' h p s" and "el_inv s"
  shows "DoCall hdl s = DoCall hdl' s"
  unfolding DoCall_def by (rule call_loop_cong) (use assms in auto)

definition demo_hdl :: "unit pollhdl" where
  "demo_hdl h p s = Inr (0, if h = 1 then RemovePollHandlerFd 5 s else s)"

definition demo_loop :: "unit eloop" where
  "demo_loop = (eloop_new ())\<lparr>
     el_fPollDsc := [\<lparr>pd_fHandler = 1, pd_fFd = 4, pd_fEvents = 1\<rparr>, \<lparr>pd_fHandler = 2, pd_fFd = 5, pd_fEvents = 1\<rparr>],
     el_fPollFd := [\<lparr>pf_fd = 4, pf_events = 1, pf_revents = 1\<rparr>, \<lparr>pf_fd = 5, pf_events = 1, pf_revents = 1\<rparr>],
     el_fPollHdl := [1, 2]\<rparr>"

theorem DoCall_registered_witness:
  "DoCall demo_hdl demo_loop =
     DoCall (\<lambda>h p s. if registered h p s then demo_hdl h p s else Inl (MemFault ''removed handler'')) demo_loop"
proof (rule DoCall_registered)
  show "well_behaved demo_hdl"
    by (auto simp: well_behaved_def demo_hdl_def RemovePollHandlerFd_inv)
      (simp_all add: RemovePollHandlerFd_def Let_def split: prod.split)
  show "el_inv demo_loop" by (simp add: el_inv_def demo_loop_def eloop_new_def pf_key_def pd_key_def)
qed simp

end
