(* ===== verification/RlinkCrc16.thy ===== *)
theory RlinkCrc16
  imports W11_Prelude
begin

text \<open>
  The CRC accumulator of the rlink protocol, class \<open>RlinkCrc16\<close> of \<open>librlink\<close>: the table of 256
  entries and the table driven update, shown equal to the bitwise CRC-16 with the polynomial
  \<open>0x1021\<close>. From the bitwise form follows what the protocol relies on: two messages of the same
  length that differ only in one or two neighbouring bytes never have the same CRC.
\<close>

section \<open>Model\<close>

definition fCrc16Table :: "u16 list" where
  "fCrc16Table = [
      0,  4129,  8258, 12387, 16516, 20645, 24774, 28903,
  33032, 37161, 41290, 45419, 49548, 53677, 57806, 61935,
   4657,   528, 12915,  8786, 21173, 17044, 29431, 25302,
  37689, 33560, 45947, 41818, 54205, 50076, 62463, 58334,
   9314, 13379,  1056,  5121, 25830, 29895, 17572, 21637,
  42346, 46411, 34088, 38153, 58862, 62927, 50604, 54669,
  13907,  9842,  5649,  1584, 30423, 26358, 22165, 18100,
  46939, 42874, 38681, 34616, 63455, 59390, 55197, 51132,
  18628, 22757, 26758, 30887,  2112,  6241, 10242, 14371,
  51660, 55789, 59790, 63919, 35144, 39273, 43274, 47403,
  23285, 19156, 31415, 27286,  6769,  2640, 14899, 10770,
  56317, 52188, 64447, 60318, 39801, 35672, 47931, 43802,
  27814, 31879, 19684, 23749, 11298, 15363,  3168,  7233,
  60846, 64911, 52716, 56781, 44330, 48395, 36200, 40265,
  32407, 28342, 24277, 20212, 15891, 11826,  7761,  3696,
  65439, 61374, 57309, 53244, 48923, 44858, 40793, 36728,
  37256, 33193, 45514, 41451, 53516, 49453, 61774, 57711,
   4224,   161, 12482,  8419, 20484, 16421, 28742, 24679,
  33721, 37784, 41979, 46042, 49981, 54044, 58239, 62302,
    689,  4752,  8947, 13010, 16949, 21012, 25207, 29270,
  46570, 42443, 38312, 34185, 62830, 58703, 54572, 50445,
  13538,  9411,  5280,  1153, 29798, 25671, 21540, 17413,
  42971, 47098, 34713, 38840, 59231, 63358, 50973, 55100,
   9939, 14066,  1681,  5808, 26199, 30326, 17941, 22068,
  55628, 51565, 63758, 59695, 39368, 35305, 47498, 43435,
  22596, 18533, 30726, 26663,  6336,  2273, 14466, 10403,
  52093, 56156, 60223, 64286, 35833, 39896, 43963, 48026,
  19061, 23124, 27191, 31254,  2801,  6864, 10931, 14994,
  64814, 60687, 56684, 52557, 48554, 44427, 40424, 36297,
  31782, 27655, 23652, 19525, 15522, 11395,  7392,  3265,
  61215, 65342, 53085, 57212, 44955, 49082, 36825, 40952,
  28183, 32310, 20053, 24180, 11923, 16050,  3793,  7920
  ]"

text \<open>The state is the 16 bit accumulator \<open>fCrc\<close>.\<close>

type_synonym crc16 = u16

definition Crc_Clear :: crc16 where
  "Crc_Clear = 0"

definition AddData :: "crc16 \<Rightarrow> u8 \<Rightarrow> crc16" where
  "AddData crc data =
     (let tmp = ucast (drop_bit 8 crc) XOR data
      in push_bit 8 crc XOR fCrc16Table ! unat tmp)"

section \<open>The bitwise reference\<close>

definition crc_bit :: "crc16 \<Rightarrow> crc16" where
  "crc_bit c = (if bit c 15 then push_bit 1 c XOR 0x1021 else push_bit 1 c)"

definition crc_byte :: "crc16 \<Rightarrow> u8 \<Rightarrow> crc16" where
  "crc_byte c d = (crc_bit ^^ 8) (c XOR push_bit 8 (ucast d))"

lemma crc_bit_xor: "crc_bit (a XOR b) = crc_bit a XOR crc_bit b"
  by (auto simp: crc_bit_def push_bit_xor bit_simps ac_simps intro!: bit_word_eqI)

lemma crc_bits_xor: "(crc_bit ^^ n) (a XOR b) = (crc_bit ^^ n) a XOR (crc_bit ^^ n) b"
  by (induction n) (simp_all add: crc_bit_xor)

lemma crc_bit_zero [simp]: "crc_bit 0 = 0"
  by (simp add: crc_bit_def)

text \<open>A table that is closed under exclusive or is determined by its entries at the powers of
  two, so the 256 entries are checked against the reference at eight of them.\<close>

fun xor_table :: "u16 list \<Rightarrow> u16 list" where
  "xor_table [] = [0]"
| "xor_table (b # bs) = xor_table bs @ map (\<lambda>x. b XOR x) (xor_table bs)"

lemma length_xor_table [simp]: "length (xor_table bs) = 2 ^ length bs"
  by (induction bs) auto

lemma of_nat_xor_exp:
  assumes "j < 2 ^ n"
  shows "(of_nat (2 ^ n + j) :: u16) = of_nat (2 ^ n) XOR of_nat j"
proof -
  have "2 ^ n AND j = 0"
    using assms by (auto intro!: bit_eqI simp: bit_simps) (metis bit_take_bit_iff less_not_refl take_bit_nat_eq_self)
  then have "2 ^ n + j = 2 ^ n XOR j"
    by (rule disjunctive_add_eq_xor)
  then show ?thesis
    by (metis of_nat_xor_eq)
qed

lemma xor_table_nth:
  fixes g :: "u16 \<Rightarrow> u16"
  assumes lin: "\<And>a b. g (a XOR b) = g a XOR g b"
  shows "i < 2 ^ n \<Longrightarrow> xor_table (map (\<lambda>k. g (of_nat (2 ^ k))) (rev [0..<n])) ! i = g (of_nat i)"
proof (induction n arbitrary: i)
  case 0
  have "g 0 = 0" using lin [of 0 0] by simp
  with 0 show ?case by simp
next
  case (Suc n)
  show ?case
  proof (cases "i < 2 ^ n")
    case True
    with Suc.IH [of i] show ?thesis by (simp add: nth_append)
  next
    case False
    then obtain j where i: "i = 2 ^ n + j" by (metis not_less le_Suc_ex)
    with Suc.prems have j: "j < 2 ^ n" by simp
    with Suc.IH [of j] i show ?thesis
      by (simp add: nth_append of_nat_xor_exp lin del: of_nat_add of_nat_power)
  qed
qed

lemma crc_basis:
  "map (\<lambda>k. (crc_bit ^^ 8) (push_bit 8 (of_nat (2 ^ k)))) (rev [0..<8]) =
     [37256, 18628, 9314, 4657, 33032, 16516, 8258, 4129]"
proof -
  have "rev [0..<8] = [7, 6, 5, 4, 3, 2, 1, 0 :: nat]"
    by code_simp
  then show ?thesis
    by (simp add: funpow8 crc_bit_def)
qed

lemma crc_table_xor: "fCrc16Table = xor_table [37256, 18628, 9314, 4657, 33032, 16516, 8258, 4129]"
  by (simp add: fCrc16Table_def)

lemma crc_table: "i < 256 \<Longrightarrow> fCrc16Table ! i = (crc_bit ^^ 8) (push_bit 8 (of_nat i))"
  using xor_table_nth [of "\<lambda>w. (crc_bit ^^ 8) (push_bit 8 w)" i 8]
  by (simp only: crc_basis crc_table_xor push_bit_xor crc_bits_xor) simp

lemma crc_bits_low: "n \<le> 8 \<Longrightarrow> (crc_bit ^^ n) (ucast (d :: u8)) = push_bit n (ucast d)"
proof (induction n)
  case (Suc n)
  then have "\<not> bit (push_bit n (ucast d) :: u16) 15"
    using bit_imp_le_length [of d "15 - n"] by (auto simp: bit_simps)
  with Suc show ?case by (simp add: crc_bit_def)
qed simp

lemma AddData_crc_byte: "AddData c d = crc_byte c d"
proof -
  let ?h = "ucast (drop_bit 8 c) :: u8" and ?l = "ucast c :: u8"
  have "fCrc16Table ! unat (?h XOR d) = (crc_bit ^^ 8) (push_bit 8 (ucast (?h XOR d)))"
    by (simp add: crc_table unat_u8_less)
  moreover have "push_bit 8 c = (crc_bit ^^ 8) (ucast ?l)"
    by (simp add: crc_bits_low) (rule bit_word_eqI, auto simp: bit_simps)
  ultimately have "AddData c d = (crc_bit ^^ 8) (ucast ?l XOR push_bit 8 (ucast (?h XOR d)))"
    by (simp add: AddData_def crc_bits_xor)
  also have "ucast ?l XOR push_bit 8 (ucast (?h XOR d)) = c XOR push_bit 8 (ucast d)"
    by (rule bit_word_eqI) (auto simp: bit_simps)
  finally show ?thesis by (simp add: crc_byte_def)
qed

section \<open>Injectivity of the update\<close>

lemma crc_bit_inj: "crc_bit a = crc_bit b \<longleftrightarrow> a = b"
proof
  assume "crc_bit a = crc_bit b"
  then have z: "crc_bit (a XOR b) = 0" by (simp add: crc_bit_xor)
  define x where "x = a XOR b"
  have n15: "\<not> bit x 15"
  proof
    assume "bit x 15"
    with z have "push_bit 1 x XOR 0x1021 = 0" by (simp add: crc_bit_def flip: x_def)
    moreover have "bit (push_bit 1 x XOR 0x1021) 0"
      unfolding bit_xor_iff bit_push_bit_iff by simp
    ultimately have "bit (0 :: u16) 0" by (simp only:)
    then show False by simp
  qed
  with z have "push_bit 1 x = 0" by (simp add: crc_bit_def flip: x_def)
  then have "\<not> bit (push_bit 1 x) (Suc n)" for n by (simp only: bit_0_eq) simp
  then have "n < 15 \<Longrightarrow> \<not> bit x n" for n
    unfolding bit_push_bit_iff by simp
  with n15 have "n < 16 \<Longrightarrow> \<not> bit x n" for n
    by (cases "n = 15") auto
  then have "x = 0" by (intro bit_word_eqI) simp
  then have "(a XOR b) XOR b = 0 XOR b" by (simp only: x_def)
  then show "a = b" by (simp add: xor.assoc)
qed simp

lemma crc_bits_inj: "(crc_bit ^^ n) a = (crc_bit ^^ n) b \<longleftrightarrow> a = b"
  by (induction n) (simp_all add: crc_bit_inj)

lemma crc_byte_inj: "crc_byte c d = crc_byte c' d \<longleftrightarrow> c = c'"
proof
  assume "crc_byte c d = crc_byte c' d"
  then have "c XOR push_bit 8 (ucast d) = c' XOR push_bit 8 (ucast d)"
    by (simp add: crc_byte_def crc_bits_inj)
  then have "(c XOR push_bit 8 (ucast d)) XOR push_bit 8 (ucast d)
           = (c' XOR push_bit 8 (ucast d)) XOR push_bit 8 (ucast d)" by (rule arg_cong)
  then show "c = c'" by (simp add: xor.assoc)
qed simp

lemma crc_byte_two_inj:
  assumes "crc_byte (crc_byte c a) b = crc_byte (crc_byte c a') b'"
  shows "a = a' \<and> b = b'"
proof -
  have low: "push_bit 8 (ucast d) = (crc_bit ^^ 8) (ucast (d :: u8))" for d
    by (simp add: crc_bits_low)
  from assms have "crc_byte c a XOR push_bit 8 (ucast b) = crc_byte c a' XOR push_bit 8 (ucast b')"
    by (simp add: crc_byte_def crc_bits_inj)
  then have "(crc_bit ^^ 8) (c XOR push_bit 8 (ucast a) XOR ucast b)
           = (crc_bit ^^ 8) (c XOR push_bit 8 (ucast a') XOR ucast b')"
    unfolding crc_byte_def low crc_bits_xor by (simp only: xor.assoc)
  then have "c XOR push_bit 8 (ucast a) XOR ucast b = c XOR push_bit 8 (ucast a') XOR ucast b'"
    by (simp only: crc_bits_inj)
  then have "c XOR (c XOR push_bit 8 (ucast a) XOR ucast b)
           = c XOR (c XOR push_bit 8 (ucast a') XOR ucast b')" by (rule arg_cong)
  then have eq: "push_bit 8 (ucast a) XOR ucast b = (push_bit 8 (ucast a') XOR ucast b' :: u16)"
    by (simp add: xor.assoc [symmetric])
  have "bit a n = bit a' n" if "n < 8" for n
    using arg_cong [OF eq, of "\<lambda>w. bit w (n + 8)"] that
      bit_imp_le_length [of b "n + 8"] bit_imp_le_length [of b' "n + 8"] by (auto simp: bit_simps)
  moreover have "bit b n = bit b' n" if "n < 8" for n
    using arg_cong [OF eq, of "\<lambda>w. bit w n"] that by (auto simp: bit_simps)
  ultimately show ?thesis by (auto intro: bit_word_eqI)
qed

section \<open>The CRC of a byte string\<close>

definition crc_of :: "crc16 \<Rightarrow> u8 list \<Rightarrow> crc16" where
  "crc_of c ds = foldl AddData c ds"

lemma crc_of_Nil [simp]: "crc_of c [] = c"
  by (simp add: crc_of_def)

lemma crc_of_Cons [simp]: "crc_of c (d # ds) = crc_of (AddData c d) ds"
  by (simp add: crc_of_def)

lemma crc_of_append [simp]: "crc_of c (ds @ es) = crc_of (crc_of c ds) es"
  by (simp add: crc_of_def)

lemma crc_of_inj: "crc_of c ds = crc_of c' ds \<longleftrightarrow> c = c'"
  by (induction ds arbitrary: c c') (simp_all add: crc_of_def AddData_crc_byte crc_byte_inj)

section \<open>Properties\<close>

text \<open>C29: For every message and every start value the table driven CRC of class \<open>RlinkCrc16\<close>
  equals the bitwise CRC-16 with polynomial \<open>0x1021\<close>, most significant bit first.\<close>

theorem crc16_table_correct: "crc_of c ds = foldl crc_byte c ds"
proof -
  have "AddData = crc_byte" by (intro ext AddData_crc_byte)
  then show ?thesis by (simp add: crc_of_def)
qed

text \<open>C30: The CRC detects every error burst within two neighbouring bytes: two messages that
  agree outside of two neighbouring bytes have the same CRC only if they are the same message.\<close>

theorem crc16_burst_detected:
  "crc_of c (p @ [a, b] @ q) = crc_of c (p @ [a', b'] @ q) \<longleftrightarrow> a = a' \<and> b = b'"
proof
  assume "crc_of c (p @ [a, b] @ q) = crc_of c (p @ [a', b'] @ q)"
  then have "AddData (AddData (crc_of c p) a) b = AddData (AddData (crc_of c p) a') b'"
    by (simp add: crc_of_inj)
  then show "a = a' \<and> b = b'"
    unfolding AddData_crc_byte by (rule crc_byte_two_inj)
qed simp

end
