(* ===== verification/RlinkPacketBuf.thy ===== *)
theory RlinkPacketBuf
  imports RlinkCrc16
begin

text \<open>
  Class \<open>RlinkPacketBuf\<close> of \<open>librlink\<close>, the base of the send and the receive packet buffer: the
  symbols and escape codes of the link protocol, the packet buffer with its CRC accumulator and
  its flags. Statistics counters (\<open>Rstats\<close>, doubles that only count up by whole numbers) are
  functions from the counter index to \<open>nat\<close>. The escape coding of the link (\<open>PutRawEsc\<close> and
  \<open>GetEcode\<close>) is stated here as an interface, because both sides share it.
\<close>

section \<open>Constants\<close>

definition kFlagSopSeen :: u32 where [rl_defs]: "kFlagSopSeen = push_bit 0 1"
definition kFlagEopSeen :: u32 where [rl_defs]: "kFlagEopSeen = push_bit 1 1"
definition kFlagNakSeen :: u32 where [rl_defs]: "kFlagNakSeen = push_bit 2 1"
definition kFlagAttnSeen :: u32 where [rl_defs]: "kFlagAttnSeen = push_bit 3 1"
definition kFlagErrTout :: u32 where [rl_defs]: "kFlagErrTout = push_bit 16 1"
definition kFlagErrIO :: u32 where [rl_defs]: "kFlagErrIO = push_bit 17 1"
definition kFlagErrFrame :: u32 where [rl_defs]: "kFlagErrFrame = push_bit 18 1"
definition kFlagErrClobber :: u32 where [rl_defs]: "kFlagErrClobber = push_bit 19 1"

definition kSymEsc :: u8 where [rl_defs]: "kSymEsc = 0xCA"
definition kSymFill :: u8 where [rl_defs]: "kSymFill = 0xD5"
definition kSymXon :: u8 where [rl_defs]: "kSymXon = 0x11"
definition kSymXoff :: u8 where [rl_defs]: "kSymXoff = 0x13"
definition kSymEdPref :: u8 where [rl_defs]: "kSymEdPref = 0x40"
definition kEcSop :: u8 where [rl_defs]: "kEcSop = 0"
definition kEcEop :: u8 where [rl_defs]: "kEcEop = 1"
definition kEcNak :: u8 where [rl_defs]: "kEcNak = 2"
definition kEcAttn :: u8 where [rl_defs]: "kEcAttn = 3"
definition kEcXon :: u8 where [rl_defs]: "kEcXon = 4"
definition kEcXoff :: u8 where [rl_defs]: "kEcXoff = 5"
definition kEcFill :: u8 where [rl_defs]: "kEcFill = 6"
definition kEcEsc :: u8 where [rl_defs]: "kEcEsc = 7"
definition kEcClobber :: u8 where [rl_defs]: "kEcClobber = 0xff"
definition kNcCcrc :: u8 where [rl_defs]: "kNcCcrc = 0"
definition kNcDcrc :: u8 where [rl_defs]: "kNcDcrc = 1"
definition kNcFrame :: u8 where [rl_defs]: "kNcFrame = 2"
definition kNcUnused :: u8 where [rl_defs]: "kNcUnused = 3"
definition kNcCmd :: u8 where [rl_defs]: "kNcCmd = 4"
definition kNcCnt :: u8 where [rl_defs]: "kNcCnt = 5"
definition kNcRtOvlf :: u8 where [rl_defs]: "kNcRtOvlf = 6"
definition kNcRtWblk :: u8 where [rl_defs]: "kNcRtWblk = 7"
definition kNcInval :: u8 where [rl_defs]: "kNcInval = 8"

section \<open>State and operations\<close>

record pktbuf =
  pb_fPktBuf :: "u8 list"
  pb_fCrc :: crc16
  pb_fFlags :: u32

definition PktSize :: "'a pktbuf_scheme \<Rightarrow> nat" where
  [rl_defs]: "PktSize s = length (pb_fPktBuf s)"

definition SetFlagBit :: "u32 \<Rightarrow> 'a pktbuf_scheme \<Rightarrow> 'a pktbuf_scheme" where
  [rl_defs]: "SetFlagBit m s = s\<lparr>pb_fFlags := pb_fFlags s OR m\<rparr>"

definition ClearFlagBit :: "u32 \<Rightarrow> 'a pktbuf_scheme \<Rightarrow> 'a pktbuf_scheme" where
  [rl_defs]: "ClearFlagBit m s = s\<lparr>pb_fFlags := pb_fFlags s AND NOT m\<rparr>"

definition TestFlag :: "u32 \<Rightarrow> 'a pktbuf_scheme \<Rightarrow> bool" where
  [rl_defs]: "TestFlag m s = (pb_fFlags s AND m \<noteq> 0)"

definition stat_inc :: "'s \<Rightarrow> nat \<Rightarrow> ('s \<Rightarrow> nat) \<Rightarrow> 's \<Rightarrow> nat" where
  "stat_inc k n st = st(k := st k + n)"

section \<open>Escape coding\<close>

text \<open>The second byte of an escape sequence: prefix \<open>01\<close>, the negated code, the code
  (\<open>PutRawEsc\<close>), and how the receiver reads it back (\<open>GetEcode\<close>).\<close>

definition esc_enc :: "u8 \<Rightarrow> u8" where
  "esc_enc ec = kSymEdPref OR push_bit 3 (NOT ec AND 0x7) OR ec"

definition esc_dec :: "u8 \<Rightarrow> u8" where
  "esc_dec c =
     (let ec = c AND 0x7
      in if c AND 0xC0 \<noteq> kSymEdPref \<or> drop_bit 3 (NOT c) AND 0x7 \<noteq> ec then kEcClobber else ec)"

lemma esc_enc_values:
  "esc_enc 0 = 0x78" "esc_enc 1 = 0x71" "esc_enc 2 = 0x6A" "esc_enc 3 = 0x63"
  "esc_enc 4 = 0x5C" "esc_enc 5 = 0x55" "esc_enc 6 = 0x4E" "esc_enc 7 = 0x47"
  by code_simp+

lemma esc_dec_enc: "ec < 8 \<Longrightarrow> esc_dec (esc_enc ec) = ec"
  by (erule u8_lt8_cases) (simp_all add: esc_dec_def esc_enc_values rl_defs)

lemma esc_dec_lt8: "esc_dec c \<noteq> kEcClobber \<Longrightarrow> esc_dec c < 8"
  using order.strict_trans1 [OF word_and_le1 [of c 7], of 8]
  by (auto simp: esc_dec_def Let_def split: if_splits)

lemma esc_enc_plain:
  "ec < 8 \<Longrightarrow> esc_enc ec \<noteq> kSymEsc \<and> esc_enc ec \<noteq> kSymXon \<and> esc_enc ec \<noteq> kSymXoff"
  by (erule u8_lt8_cases) (simp_all add: esc_enc_values rl_defs)

lemma ec_lt8 [simp]:
  "kEcSop < 8" "kEcEop < 8" "kEcNak < 8" "kEcAttn < 8"
  "kEcXon < 8" "kEcXoff < 8" "kEcFill < 8" "kEcEsc < 8"
  by (simp_all add: rl_defs)

lemma ec_distinct [simp]:
  "kEcEop \<noteq> kEcSop" "kEcNak \<noteq> kEcSop" "kEcAttn \<noteq> kEcSop" "kEcXon \<noteq> kEcSop"
  "kEcXoff \<noteq> kEcSop" "kEcEsc \<noteq> kEcSop" "kEcNak \<noteq> kEcEop" "kEcXon \<noteq> kEcEop"
  "kEcXoff \<noteq> kEcEop" "kEcEsc \<noteq> kEcEop" "kEcXon \<noteq> kEcNak" "kEcXoff \<noteq> kEcNak" "kEcEsc \<noteq> kEcNak"
  "kEcXoff \<noteq> kEcXon" "kEcEsc \<noteq> kEcXon" "kEcEsc \<noteq> kEcXoff" "kEcEsc \<noteq> kEcFill"
  "kEcXon \<noteq> kEcAttn" "kEcXoff \<noteq> kEcAttn" "kEcEsc \<noteq> kEcAttn" "kEcEop \<noteq> kEcAttn"
  by (simp_all add: rl_defs)

text \<open>C33: A corrupted escape is noticed: a byte that differs from a valid escape byte in
  exactly one bit is never read as one of the eight escape codes.\<close>

theorem esc_single_bit_error:
  assumes "ec < 8" and "k < 8"
  shows "esc_dec (flip_bit k (esc_enc ec)) = kEcClobber"
proof -
  from assms(2) have "k \<in> {0, 1, 2, 3, 4, 5, 6, 7}" by auto
  then show ?thesis
    using assms(1)
    by (auto elim!: u8_lt8_cases simp: esc_dec_def esc_enc_values rl_defs flip_bit_eq_xor)
qed

theorem esc_single_bit_error_witness:
  "(3 :: u8) < 8 \<and> (5 :: nat) < 8 \<and> esc_dec (flip_bit 5 (esc_enc 3)) = kEcClobber"
  using esc_single_bit_error [of 3 5] by simp

end
