(* ===== verification/RlinkPort.thy ===== *)
theory RlinkPort
  imports RlinkPacketBuf
begin

text \<open>
  Class \<open>RlinkPort\<close> of \<open>librlink\<close>, the byte stream below the packet layer. The system calls it
  issues are the environment: the outcomes of \<open>poll\<close>, \<open>read\<close> and \<open>write\<close> are scripts that the
  calls consume in order, and \<open>po_out\<close> collects what left the program. A script that is used up
  goes on with the quiet case: \<open>poll\<close> times out, \<open>read\<close> reports end of file and \<open>write\<close> takes all
  data. Times are integers in nanoseconds, the clock is a function of the number of readings.
  Error message texts, log output and the tracing of transferred bytes are left out.
\<close>

section \<open>State\<close>

datatype syspoll = PollIntr | PollFail | PollTout | PollErr | PollReady
datatype sysread = ReadIntr | ReadFail | ReadBytes "u8 list"
datatype syswrite = WriteIntr | WriteFail | WriteDone nat

datatype port_stat = kStatNPortWrite | kStatNPortRead | kStatNPortTxByt | kStatNPortRxByt
  | kStatNPortRawWrite | kStatNPortRawRead

definition kEof :: int where [rl_defs]: "kEof = 0"
definition kTout :: int where [rl_defs]: "kTout = - 1"
definition kErr :: int where [rl_defs]: "kErr = - 2"

record port =
  po_fIsOpen :: bool
  po_fXon :: bool
  po_fFdRead :: int
  po_fFdWrite :: int
  po_fUrlOpts :: "string list"
  po_stats :: "port_stat \<Rightarrow> nat"
  po_polls :: "syspoll list"
  po_reads :: "sysread list"
  po_writes :: "syswrite list"
  po_out :: "u8 list"
  po_clock :: "nat \<Rightarrow> int"
  po_tick :: nat

definition port_inc :: "port_stat \<Rightarrow> nat \<Rightarrow> port \<Rightarrow> port" where
  "port_inc k n p = p\<lparr>po_stats := stat_inc k n (po_stats p)\<rparr>"

definition GetClock :: "port \<Rightarrow> int \<times> port" where
  "GetClock p = (po_clock p (po_tick p), p\<lparr>po_tick := Suc (po_tick p)\<rparr>)"

section \<open>Operations\<close>

definition port_Close :: "port \<Rightarrow> port" where
  "port_Close p =
     (if \<not> po_fIsOpen p then p
      else p\<lparr>po_fFdWrite := - 1, po_fFdRead := - 1, po_fIsOpen := False,
          po_fUrlOpts := []\<rparr>)"

fun poll_loop :: "syspoll list \<Rightarrow> syspoll \<times> syspoll list" where
  "poll_loop [] = (PollTout, [])"
| "poll_loop (PollIntr # es) = poll_loop es"
| "poll_loop (e # es) = (e, es)"

definition PollRead :: "int \<Rightarrow> port \<Rightarrow> (bool \<times> port) result" where
  "PollRead timeout p =
     (if \<not> po_fIsOpen p then Inl (Rexception ''RlinkPort::PollRead()'' ''Bad state: port not open'')
      else if timeout < 0 then Inl (Rexception ''RlinkPort::PollRead()'' ''Bad args: timeout < 0'')
      else
        let (e, es) = poll_loop (po_polls p); p' = p\<lparr>po_polls := es\<rparr>
        in case e of
             PollTout \<Rightarrow> Inr (False, p')
           | PollErr \<Rightarrow> Inl (Rexception ''RlinkPort::PollRead()'' ''poll() failed: POLLERR'')
           | PollReady \<Rightarrow> Inr (True, p')
           | _ \<Rightarrow> Inl (Rexception ''RlinkPort::PollRead()'' ''poll() failed: rc<0: ''))"

text \<open>A \<open>read\<close> of at most \<open>size\<close> bytes: what the kernel holds beyond that stays for the next
  \<open>read\<close>.\<close>

fun read_loop :: "nat \<Rightarrow> sysread list \<Rightarrow> u8 list option \<times> sysread list" where
  "read_loop siz [] = (Some [], [])"
| "read_loop siz (ReadIntr # es) = read_loop siz es"
| "read_loop siz (ReadFail # es) = (None, es)"
| "read_loop siz (ReadBytes ds # es) =
     (Some (take siz ds), if drop siz ds = [] then es else ReadBytes (drop siz ds) # es)"

definition port_Read :: "nat \<Rightarrow> int \<Rightarrow> port \<Rightarrow> (int \<times> u8 list \<times> port) result" where
  "port_Read siz timeout p =
     (if \<not> po_fIsOpen p then Inl (Rexception ''RlinkPort::Read()'' ''Bad state: port not open'')
      else if siz = 0 then Inl (Rexception ''RlinkPort::Read()'' ''Bad args: size==0'')
      else ebind (PollRead timeout (port_inc kStatNPortRead 1 p)) (\<lambda>(rdpoll, p1).
        if \<not> rdpoll then Inr (kTout, [], p1)
        else case read_loop siz (po_reads p1) of
            (None, es) \<Rightarrow> Inr (kErr, [], p1\<lparr>po_reads := es\<rparr>)
          | (Some ds, es) \<Rightarrow>
              Inr (int (length ds), ds,
                   port_inc kStatNPortRxByt (length ds) (p1\<lparr>po_reads := es\<rparr>))))"

text \<open>The write loop: \<open>None\<close> is a failed system call, otherwise all data was written. A call
  that writes nothing is repeated.\<close>

fun write_loop :: "u8 list \<Rightarrow> u8 list \<Rightarrow> syswrite list \<Rightarrow> bool \<times> u8 list \<times> syswrite list" where
  "write_loop [] out es = (True, out, es)"
| "write_loop buf out [] = (True, out @ buf, [])"
| "write_loop buf out (WriteIntr # es) = write_loop buf out es"
| "write_loop buf out (WriteFail # es) = (False, out, es)"
| "write_loop buf out (WriteDone n # es) = write_loop (drop n buf) (out @ take n buf) es"

definition port_Write :: "u8 list \<Rightarrow> port \<Rightarrow> (int \<times> port) result" where
  "port_Write buf p =
     (if \<not> po_fIsOpen p then Inl (Rexception ''RlinkPort::Write()'' ''Bad state: port not open'')
      else if buf = [] then Inl (Rexception ''RlinkPort::Write()'' ''Bad args: size==0'')
      else
        let p1 = port_inc kStatNPortWrite 1 p;
            (ok, out, es) = write_loop buf (po_out p1) (po_writes p1);
            p2 = p1\<lparr>po_out := out, po_writes := es\<rparr>
        in if \<not> ok then Inr (kErr, p2)
           else Inr (int (length buf), port_inc kStatNPortTxByt (length buf) p2))"

definition RawWrite :: "u8 list \<Rightarrow> port \<Rightarrow> (int \<times> port) result" where
  "RawWrite buf p = port_Write buf (port_inc kStatNPortRawWrite 1 p)"

definition FindOpt :: "string \<Rightarrow> port \<Rightarrow> bool" where
  "FindOpt name p = (name \<in> set (po_fUrlOpts p))"

section \<open>Lemmas\<close>

lemma port_inc_sel [simp]:
  "po_fIsOpen (port_inc k n p) = po_fIsOpen p" "po_out (port_inc k n p) = po_out p"
  "po_writes (port_inc k n p) = po_writes p" "po_polls (port_inc k n p) = po_polls p"
  "po_reads (port_inc k n p) = po_reads p" "po_fXon (port_inc k n p) = po_fXon p"
  "po_clock (port_inc k n p) = po_clock p" "po_tick (port_inc k n p) = po_tick p"
  by (simp_all add: port_inc_def)

lemma write_loop_ok:
  "write_loop buf out es = (ok, out', es') \<Longrightarrow> \<exists>n. out' = out @ take n buf \<and> (ok \<longrightarrow> out' = out @ buf)"
proof (induction buf out es arbitrary: ok out' es' rule: write_loop.induct)
  case (2 b buf out)
  then show ?case by (auto intro!: exI [of _ "Suc (length buf)"])
next
  case (5 b buf out n es)
  from "5.IH" "5.prems" obtain m where
    m: "out' = (out @ take n (b # buf)) @ take m (drop n (b # buf))"
    and ok: "ok \<longrightarrow> out' = (out @ take n (b # buf)) @ drop n (b # buf)"
    by fastforce
  from m have "out' = out @ take (n + m) (b # buf)" by (simp add: take_add)
  moreover from ok have "ok \<longrightarrow> out' = out @ b # buf" by (metis append.assoc append_take_drop_id)
  ultimately show ?case by blast
qed auto

lemma port_Write_spec:
  assumes "port_Write buf p = Inr (irc, p')"
  shows "(irc = int (length buf) \<and> po_out p' = po_out p @ buf) \<or>
         (irc = kErr \<and> (\<exists>n. po_out p' = po_out p @ take n buf))"
proof -
  obtain ok out es where w: "write_loop buf (po_out p) (po_writes p) = (ok, out, es)"
    by (metis prod_cases3)
  from write_loop_ok [OF w] obtain n where n: "out = po_out p @ take n buf"
    and ok: "ok \<longrightarrow> out = po_out p @ buf" by blast
  from assms w show ?thesis
    by (cases ok) (use n ok in \<open>auto simp: port_Write_def Let_def split: if_splits\<close>)
qed

lemma port_Write_open: "port_Write buf p = Inr (irc, p') \<Longrightarrow> po_fIsOpen p' = po_fIsOpen p"
  by (auto simp: port_Write_def Let_def split: if_splits prod.splits)

lemma port_Write_total: "po_fIsOpen p \<Longrightarrow> buf \<noteq> [] \<Longrightarrow> \<exists>irc p'. port_Write buf p = Inr (irc, p')"
  by (auto simp: port_Write_def Let_def split: prod.splits)

lemma read_loop_length: "read_loop siz es = (Some ds, es') \<Longrightarrow> length ds \<le> siz"
  by (induction siz es arbitrary: ds es' rule: read_loop.induct) auto

lemma port_Read_spec:
  assumes "port_Read siz timeout p = Inr (irc, ds, p')"
  shows "irc = int (length ds) \<and> length ds \<le> siz \<or> (irc = kTout \<or> irc = kErr) \<and> ds = []"
  using assms read_loop_length
  by (fastforce simp: port_Read_def ebind_eq_Inr split: if_splits prod.splits option.splits)

lemma poll_loop_length: "poll_loop es = (e, es') \<Longrightarrow> length es' \<le> length es"
  by (induction es arbitrary: e es' rule: poll_loop.induct) (auto intro: le_SucI)

lemma poll_loop_shrinks: "poll_loop es = (e, es') \<Longrightarrow> e \<noteq> PollTout \<Longrightarrow> length es' < length es"
  by (induction es arbitrary: e es' rule: poll_loop.induct) auto

lemma port_Read_shrinks:
  assumes "port_Read siz timeout p = Inr (irc, ds, p')" and "irc \<noteq> kTout"
  shows "length (po_polls p') < length (po_polls p)"
  using assms poll_loop_shrinks
  by (fastforce simp: port_Read_def PollRead_def ebind_eq_Inr Let_def
      split: if_splits prod.splits option.splits syspoll.splits)

section \<open>Raw reads\<close>

text \<open>The loop of \<open>RawRead\<close>: it goes on until the time is up or all bytes are there, and with
  \<open>exactsize\<close> off it stops after the first successful read. Every read that returns data uses
  up an entry of the poll script.\<close>

function raw_read_loop ::
  "nat \<Rightarrow> bool \<Rightarrow> int \<Rightarrow> int \<Rightarrow> u8 list \<Rightarrow> port \<Rightarrow> (int \<times> u8 list \<times> port) result" where
  "raw_read_loop siz exactsize tend tnow buf p =
     (if tnow < tend \<and> length buf < siz then
        case port_Read (siz - length buf) (tend - tnow) p of
          Inl e \<Rightarrow> Inl e
        | Inr (irc, ds, p1) \<Rightarrow>
            let (tnow', p2) = GetClock p1
            in if irc \<le> 0 then Inr (irc, buf, p2)
               else if \<not> exactsize then Inr (int (length (buf @ ds)), buf @ ds, p2)
               else raw_read_loop siz exactsize tend tnow' (buf @ ds) p2
      else Inr (int (length buf), buf, p))"
  by pat_completeness auto
termination
  by (relation "measure (\<lambda>(siz, ex, tend, tnow, buf, p). length (po_polls p))")
    (auto simp: GetClock_def kTout_def dest!: port_Read_shrinks)

declare raw_read_loop.simps [simp del]

definition RawRead :: "nat \<Rightarrow> bool \<Rightarrow> int \<Rightarrow> port \<Rightarrow> (int \<times> u8 list \<times> port) result" where
  "RawRead siz exactsize timeout p =
     (if timeout \<le> 0 then Inl (Rexception ''RlinkPort::RawRead()'' ''Bad args: timeout <= 0.'')
      else if siz = 0 then Inl (Rexception ''RlinkPort::RawRead()'' ''Bad args: size <= 0'')
      else let (tnow, p1) = GetClock (port_inc kStatNPortRawRead 1 p)
           in raw_read_loop siz exactsize (tnow + timeout) tnow [] p1)"

lemma raw_read_loop_bound:
  "raw_read_loop siz ex tend tnow buf p = Inr (irc, ds, p') \<Longrightarrow> length buf \<le> siz \<Longrightarrow> length ds \<le> siz"
proof (induction siz ex tend tnow buf p rule: raw_read_loop.induct)
  case (1 siz ex tend tnow buf p)
  show ?case
  proof (cases "tnow < tend \<and> length buf < siz")
    case False
    with "1.prems" show ?thesis by (auto simp: raw_read_loop.simps [of siz ex tend tnow buf p])
  next
    case True
    with "1.prems" obtain r bs p1 where rd: "port_Read (siz - length buf) (tend - tnow) p = Inr (r, bs, p1)"
      by (auto simp: raw_read_loop.simps [of siz ex tend tnow buf p] split: sum.splits)
    from port_Read_spec [OF this] True have len: "length (buf @ bs) \<le> siz" by auto
    obtain t2 p2 where gc: "GetClock p1 = (t2, p2)" by fastforce
    show ?thesis
    proof (cases "r \<le> 0 \<or> \<not> ex")
      case True
      with \<open>tnow < tend \<and> length buf < siz\<close> rd gc len "1.prems" show ?thesis
        by (auto simp: raw_read_loop.simps [of siz ex tend tnow buf p] split: if_splits)
    next
      case False
      with True rd gc "1.prems"(1) have "raw_read_loop siz ex tend t2 (buf @ bs) p2 = Inr (irc, ds, p')"
        by (simp add: raw_read_loop.simps [of siz ex tend tnow buf p])
      with False True rd gc len show ?thesis using "1.IH" by (simp del: length_append)
    qed
  qed
qed

end
