(* ===== verification/RlinkPacketBufRcv.thy ===== *)
theory RlinkPacketBufRcv
  imports RlinkPort
begin

text \<open>
  Class \<open>RlinkPacketBufRcv\<close> of \<open>librlink\<close>: the raw buffer filled from the port, the receive state
  machine that unescapes it into the packet buffer, and the typed reads of a received packet with
  their CRC. The concrete loops over the raw buffer are shown to refine a machine that consumes
  one byte at a time, so that what is received does not depend on how the port cuts the byte
  stream into reads.
\<close>

section \<open>State\<close>

datatype rcv_state = kRcvIdle | kRcvFill | kRcvDone | kRcvError
datatype pkt_state = kPktPend | kPktResp | kPktAttn | kPktError

datatype rcv_stat = kStatNRxPktByt | kStatNRxDrop | kStatNRxSop | kStatNRxEop | kStatNRxNak
  | kStatNRxAttn | kStatNRxEsc | kStatNRxClobber | kStatNRxNakCcrc | kStatNRxNakDcrc
  | kStatNRxNakFrame | kStatNRxNakUnused | kStatNRxNakCmd | kStatNRxNakCnt | kStatNRxNakRtOvlf
  | kStatNRxNakRtWblk | kStatNRxNakInval

record rcvbuf = pktbuf +
  rcv_fRawBuf :: "u8 list"
  rcv_fRawBufSize :: nat
  rcv_fRawBufDone :: nat
  rcv_fRcvState :: rcv_state
  rcv_fNDone :: nat
  rcv_fEscSeen :: bool
  rcv_fNakIndex :: int
  rcv_fNakCode :: u8
  rcv_fDropData :: "u8 list"
  rcv_stats :: "rcv_stat \<Rightarrow> nat"

definition kRawBufLen :: nat where "kRawBufLen = 4096"

text \<open>The constructor; \<open>raw\<close> is the content of the uninitialised raw buffer.\<close>

definition rcv_new :: "u8 list \<Rightarrow> rcvbuf" where
  "rcv_new raw = \<lparr>pb_fPktBuf = [], pb_fCrc = Crc_Clear, pb_fFlags = 0,
     rcv_fRawBuf = raw, rcv_fRawBufSize = 0, rcv_fRawBufDone = 0, rcv_fRcvState = kRcvIdle,
     rcv_fNDone = 0, rcv_fEscSeen = False, rcv_fNakIndex = - 1, rcv_fNakCode = 0,
     rcv_fDropData = [], rcv_stats = (\<lambda>_. 0)\<rparr>"

definition rcv_inc :: "rcv_stat \<Rightarrow> nat \<Rightarrow> rcvbuf \<Rightarrow> rcvbuf" where
  "rcv_inc k n s = s\<lparr>rcv_stats := stat_inc k n (rcv_stats s)\<rparr>"

section \<open>Reading from the port\<close>

definition ReadData :: "port \<Rightarrow> int \<Rightarrow> rcvbuf \<Rightarrow> (int \<times> port \<times> rcvbuf) result" where
  "ReadData p timeout s =
     (if rcv_fRawBufDone s \<noteq> rcv_fRawBufSize s then
        Inl (Rexception ''RlinkPacketBufRcv::ReadData()''
               ''Bad state: called while data pending in buffer'')
      else
        let s1 = s\<lparr>rcv_fRawBufDone := 0, rcv_fRawBufSize := 0\<rparr>
        in ebind (port_Read kRawBufLen timeout p) (\<lambda>(irc, ds, p').
             let s2 = s1\<lparr>rcv_fRawBuf := ds @ drop (length ds) (rcv_fRawBuf s1)\<rparr>
             in if timeout = 0 \<and> irc = kTout then Inr (0, p', s2)
                else if irc \<le> 0 then
                  Inr (irc, p', SetFlagBit (if irc = kTout then kFlagErrTout else kFlagErrIO) s2)
                else Inr (irc, p', s2\<lparr>rcv_fRawBufSize := nat irc\<rparr>)))"

section \<open>The receive state machine\<close>

definition ecode_stat :: "u8 \<Rightarrow> rcv_stat" where
  "ecode_stat ec =
     (if ec = kEcSop then kStatNRxSop else if ec = kEcEop then kStatNRxEop
      else if ec = kEcNak then kStatNRxNak else if ec = kEcAttn then kStatNRxAttn
      else if ec = kEcClobber then kStatNRxClobber else kStatNRxEsc)"

definition GetEcode :: "rcvbuf \<Rightarrow> (u8 \<times> rcvbuf) result" where
  "GetEcode s =
     (if \<not> rcv_fEscSeen s \<or> rcv_fRawBufDone s \<ge> rcv_fRawBufSize s then
        Inl (Rexception ''RlinkPacketBufRcv::GetEcode()'' ''Bad state'')
      else
        let c = rcv_fRawBuf s ! rcv_fRawBufDone s;
            s1 = s\<lparr>rcv_fEscSeen := False, rcv_fRawBufDone := rcv_fRawBufDone s + 1\<rparr>;
            ec = esc_dec c
        in Inr (ec, rcv_inc (ecode_stat ec) 1 s1))"

text \<open>The inner loops, which handle plain data up to the next escape.\<close>

function idle_plain :: "rcvbuf \<Rightarrow> rcvbuf" where
  "idle_plain s =
     (if rcv_fRawBufDone s < rcv_fRawBufSize s then
        let c = rcv_fRawBuf s ! rcv_fRawBufDone s;
            s1 = s\<lparr>rcv_fRawBufDone := rcv_fRawBufDone s + 1\<rparr>
        in if c = kSymEsc then s1\<lparr>rcv_fEscSeen := True\<rparr>
           else idle_plain (rcv_inc kStatNRxDrop 1 (s1\<lparr>rcv_fDropData := rcv_fDropData s1 @ [c]\<rparr>))
      else s)"
  by pat_completeness auto
termination
  by (relation "measure (\<lambda>s. rcv_fRawBufSize s - rcv_fRawBufDone s)") (auto simp: rcv_inc_def)

function fill_plain :: "rcvbuf \<Rightarrow> rcvbuf" where
  "fill_plain s =
     (if rcv_fRawBufDone s < rcv_fRawBufSize s then
        let c = rcv_fRawBuf s ! rcv_fRawBufDone s;
            s1 = s\<lparr>rcv_fRawBufDone := rcv_fRawBufDone s + 1\<rparr>
        in if c = kSymEsc then s1\<lparr>rcv_fEscSeen := True\<rparr>
           else fill_plain (s1\<lparr>pb_fPktBuf := pb_fPktBuf s1 @ [c]\<rparr>)
      else s)"
  by pat_completeness auto
termination
  by (relation "measure (\<lambda>s. rcv_fRawBufSize s - rcv_fRawBufDone s)") auto

declare idle_plain.simps [simp del] fill_plain.simps [simp del]


definition idle_drop :: "rcvbuf \<Rightarrow> rcvbuf" where
  "idle_drop s =
     rcv_inc kStatNRxDrop 1 (s\<lparr>rcv_fRawBufDone := rcv_fRawBufDone s + 1,
       rcv_fDropData := rcv_fDropData s @ [rcv_fRawBuf s ! rcv_fRawBufDone s]\<rparr>)"

definition fill_push :: "rcvbuf \<Rightarrow> rcvbuf" where
  "fill_push s = s\<lparr>rcv_fRawBufDone := rcv_fRawBufDone s + 1,
       pb_fPktBuf := pb_fPktBuf s @ [rcv_fRawBuf s ! rcv_fRawBufDone s]\<rparr>"

definition see_esc :: "rcvbuf \<Rightarrow> rcvbuf" where
  "see_esc s = s\<lparr>rcv_fRawBufDone := rcv_fRawBufDone s + 1, rcv_fEscSeen := True\<rparr>"

lemma idle_plain_unfold:
  "idle_plain s = (if rcv_fRawBufDone s < rcv_fRawBufSize s then
     (if rcv_fRawBuf s ! rcv_fRawBufDone s = kSymEsc then see_esc s else idle_plain (idle_drop s)) else s)"
  by (subst idle_plain.simps) (simp add: Let_def see_esc_def idle_drop_def)

lemma fill_plain_unfold:
  "fill_plain s = (if rcv_fRawBufDone s < rcv_fRawBufSize s then
     (if rcv_fRawBuf s ! rcv_fRawBufDone s = kSymEsc then see_esc s else fill_plain (fill_push s)) else s)"
  by (subst fill_plain.simps) (simp add: Let_def see_esc_def fill_push_def)

lemma plain_sel [simp]:
  "rcv_fRawBufDone (idle_drop s) = Suc (rcv_fRawBufDone s)"
  "rcv_fRawBufDone (fill_push s) = Suc (rcv_fRawBufDone s)"
  "rcv_fRawBufDone (see_esc s) = Suc (rcv_fRawBufDone s)"
  "rcv_fRawBufSize (idle_drop s) = rcv_fRawBufSize s"
  "rcv_fRawBufSize (fill_push s) = rcv_fRawBufSize s"
  "rcv_fRawBufSize (see_esc s) = rcv_fRawBufSize s"
  "rcv_fRcvState (idle_drop s) = rcv_fRcvState s"
  "rcv_fRcvState (fill_push s) = rcv_fRcvState s"
  "rcv_fRcvState (see_esc s) = rcv_fRcvState s"
  "rcv_fEscSeen (idle_drop s) = rcv_fEscSeen s"
  "rcv_fEscSeen (fill_push s) = rcv_fEscSeen s"
  "rcv_fEscSeen (see_esc s)"
  "rcv_fRawBuf (idle_drop s) = rcv_fRawBuf s"
  "rcv_fRawBuf (fill_push s) = rcv_fRawBuf s"
  "rcv_fRawBuf (see_esc s) = rcv_fRawBuf s"
  by (simp_all add: idle_drop_def fill_push_def see_esc_def rcv_inc_def)

text \<open>A loop over the pending raw bytes is understood by induction over their number.\<close>

lemma rcv_pending_induct [case_names step]:
  assumes "\<And>s. (\<And>t. rcv_fRawBufSize t - rcv_fRawBufDone t < rcv_fRawBufSize s - rcv_fRawBufDone s \<Longrightarrow> P t) \<Longrightarrow> P s"
  shows "P s"
  by (rule measure_induct_rule [where f = "\<lambda>s. rcv_fRawBufSize s - rcv_fRawBufDone s"]) (rule assms)

text \<open>The two inner loops share one contract: they consume bytes with a one byte operation
  \<open>take1\<close> up to the next escape. \<open>rcv_plain\<close> states it and holds what follows from it.\<close>

locale rcv_plain =
  fixes take1 :: "rcvbuf \<Rightarrow> rcvbuf" and plain :: "rcvbuf \<Rightarrow> rcvbuf"
  assumes plain_unfold: "plain s =
      (if rcv_fRawBufDone s < rcv_fRawBufSize s then
         (if rcv_fRawBuf s ! rcv_fRawBufDone s = kSymEsc then see_esc s else plain (take1 s)) else s)"
    and take1_Done: "rcv_fRawBufDone (take1 s) = Suc (rcv_fRawBufDone s)"
    and take1_Size: "rcv_fRawBufSize (take1 s) = rcv_fRawBufSize s"
    and take1_State: "rcv_fRcvState (take1 s) = rcv_fRcvState s"
    and take1_Esc: "rcv_fEscSeen (take1 s) = rcv_fEscSeen s"
begin

lemma plain_mono:
  "rcv_fRawBufDone s \<le> rcv_fRawBufDone (plain s) \<and> rcv_fRawBufSize (plain s) = rcv_fRawBufSize s"
proof (induction s rule: rcv_pending_induct)
  case (step s)
  from step [of "take1 s"] show ?case
    by (cases "rcv_fRawBufDone s < rcv_fRawBufSize s")
      (auto simp: plain_unfold [of s] take1_Done take1_Size diff_less_mono2)
qed

lemma plain_Done:
  "rcv_fRawBufDone s < rcv_fRawBufSize s \<Longrightarrow> rcv_fRawBufDone s < rcv_fRawBufDone (plain s)"
  using plain_mono [of "take1 s"] by (auto simp: plain_unfold [of s] take1_Done)

end

interpretation ip: rcv_plain idle_drop idle_plain
  by unfold_locales (simp_all add: idle_plain_unfold [symmetric])

interpretation fp: rcv_plain fill_push fill_plain
  by unfold_locales (simp_all add: fill_plain_unfold [symmetric])

lemma GetEcode_Done:
  "GetEcode s = Inr (ec, s1) \<Longrightarrow>
     rcv_fRawBufDone s1 = Suc (rcv_fRawBufDone s) \<and> rcv_fRawBufSize s1 = rcv_fRawBufSize s \<and>
     rcv_fRawBufDone s < rcv_fRawBufSize s"
  by (auto simp: GetEcode_def Let_def rcv_inc_def split: if_splits)

text \<open>The bodies of the two \<open>switch\<close> statements on the escape code; \<open>Inl\<close> is a return out of
  the enclosing loop, \<open>Inr\<close> the \<open>break\<close> that goes on with plain data.\<close>

definition idle_esc :: "u8 \<Rightarrow> rcvbuf \<Rightarrow> rcvbuf + rcvbuf" where
  "idle_esc ec s =
     (if ec = kEcSop then Inl ((SetFlagBit kFlagSopSeen s)\<lparr>rcv_fRcvState := kRcvFill\<rparr>)
      else if ec = kEcAttn then Inl ((SetFlagBit kFlagAttnSeen s)\<lparr>rcv_fRcvState := kRcvFill\<rparr>)
      else Inr (rcv_inc kStatNRxDrop 2 (s\<lparr>rcv_fDropData :=
             rcv_fDropData s @ [kSymEsc, rcv_fRawBuf s ! (rcv_fRawBufDone s - 1)]\<rparr>)))"

definition nak_dec :: "u8 \<Rightarrow> u8" where
  "nak_dec nc =
     (let ncpre = nc AND 0xc0; ncneg = drop_bit 3 (NOT nc) AND 0x07; ncpos = nc AND 0x07
      in if ncpre = 0x80 \<and> ncneg = ncpos then ncpos else kNcInval)"

definition nak_stat :: "u8 \<Rightarrow> rcv_stat" where
  "nak_stat nc =
     (if nc = kNcCcrc then kStatNRxNakCcrc else if nc = kNcDcrc then kStatNRxNakDcrc
      else if nc = kNcFrame then kStatNRxNakFrame else if nc = kNcUnused then kStatNRxNakUnused
      else if nc = kNcCmd then kStatNRxNakCmd else if nc = kNcCnt then kStatNRxNakCnt
      else if nc = kNcRtOvlf then kStatNRxNakRtOvlf else if nc = kNcRtWblk then kStatNRxNakRtWblk
      else kStatNRxNakInval)"

definition fill_nak :: "rcvbuf \<Rightarrow> rcvbuf" where
  "fill_nak s =
     (let s1 = (SetFlagBit kFlagNakSeen s)\<lparr>rcv_fNakIndex := int (PktSize s)\<rparr>;
          nc = (if rcv_fRawBufDone s1 + 1 < rcv_fRawBufSize s1
                then nak_dec (rcv_fRawBuf s1 ! rcv_fRawBufDone s1) else kNcInval)
      in rcv_inc (nak_stat nc) 1 (s1\<lparr>rcv_fNakCode := nc\<rparr>))"

definition fill_esc :: "u8 \<Rightarrow> rcvbuf \<Rightarrow> rcvbuf + rcvbuf" where
  "fill_esc ec s =
     (if ec = kEcEop then
        Inl (rcv_inc kStatNRxPktByt (PktSize s) ((SetFlagBit kFlagEopSeen s)\<lparr>rcv_fRcvState := kRcvDone\<rparr>))
      else if ec = kEcNak then
        (if TestFlag (kFlagAttnSeen OR kFlagNakSeen) s
         then Inl ((SetFlagBit kFlagErrFrame s)\<lparr>rcv_fRcvState := kRcvError\<rparr>)
         else Inr (fill_nak s))
      else if ec = kEcXon then Inr (s\<lparr>pb_fPktBuf := pb_fPktBuf s @ [kSymXon]\<rparr>)
      else if ec = kEcXoff then Inr (s\<lparr>pb_fPktBuf := pb_fPktBuf s @ [kSymXoff]\<rparr>)
      else if ec = kEcFill then Inr (s\<lparr>pb_fPktBuf := pb_fPktBuf s @ [kSymFill]\<rparr>)
      else if ec = kEcEsc then Inr (s\<lparr>pb_fPktBuf := pb_fPktBuf s @ [kSymEsc]\<rparr>)
      else if ec = kEcClobber then
        Inl ((SetFlagBit kFlagErrClobber s)\<lparr>rcv_fRcvState := kRcvError\<rparr>)
      else Inl ((SetFlagBit kFlagErrFrame s)\<lparr>rcv_fRcvState := kRcvError\<rparr>))"

lemma esc_sel:
  "idle_esc ec s = Inr s' \<or> fill_esc ec s = Inr s' \<Longrightarrow>
     rcv_fRawBufDone s' = rcv_fRawBufDone s \<and> rcv_fRawBufSize s' = rcv_fRawBufSize s
     \<and> rcv_fRawBuf s' = rcv_fRawBuf s \<and> rcv_fRcvState s' = rcv_fRcvState s \<and> rcv_fEscSeen s' = rcv_fEscSeen s"
  by (auto simp: idle_esc_def fill_esc_def fill_nak_def rcv_inc_def SetFlagBit_def Let_def split: if_splits)

function ProcessDataIdle :: "rcvbuf \<Rightarrow> rcvbuf result" where
  "ProcessDataIdle s =
     (if rcv_fRawBufDone s < rcv_fRawBufSize s then
        if rcv_fEscSeen s then
          case GetEcode s of
            Inl e \<Rightarrow> Inl e
          | Inr (ec, s1) \<Rightarrow>
              (case idle_esc ec s1 of
                 Inl s2 \<Rightarrow> Inr s2
               | Inr s2 \<Rightarrow> ProcessDataIdle (idle_plain s2))
        else ProcessDataIdle (idle_plain s)
      else Inr s)"
  by pat_completeness auto
termination
proof (relation "measure (\<lambda>s. rcv_fRawBufSize s - rcv_fRawBufDone s)", goal_cases)
  case (2 s r ec s1 s2)
  then show ?case
    using GetEcode_Done [of s ec s1] esc_sel [of ec s1 s2] ip.plain_mono [of s2] by auto
next
  case (3 s)
  then show ?case using ip.plain_Done [of s] ip.plain_mono [of s] by auto
qed simp

function ProcessDataFill :: "rcvbuf \<Rightarrow> rcvbuf result" where
  "ProcessDataFill s =
     (if rcv_fRawBufDone s < rcv_fRawBufSize s then
        if rcv_fEscSeen s then
          case GetEcode s of
            Inl e \<Rightarrow> Inl e
          | Inr (ec, s1) \<Rightarrow>
              (case fill_esc ec s1 of
                 Inl s2 \<Rightarrow> Inr s2
               | Inr s2 \<Rightarrow> ProcessDataFill (fill_plain s2))
        else ProcessDataFill (fill_plain s)
      else Inr s)"
  by pat_completeness auto
termination
proof (relation "measure (\<lambda>s. rcv_fRawBufSize s - rcv_fRawBufDone s)", goal_cases)
  case (2 s r ec s1 s2)
  then show ?case
    using GetEcode_Done [of s ec s1] esc_sel [of ec s1 s2] fp.plain_mono [of s2] by auto
next
  case (3 s)
  then show ?case using fp.plain_Done [of s] fp.plain_mono [of s] by auto
qed simp

declare ProcessDataIdle.simps [simp del] ProcessDataFill.simps [simp del]

section \<open>The loops consume one byte at a time\<close>


text \<open>One byte at a time: what both loops do with the next raw byte.\<close>

definition state_esc :: "u8 \<Rightarrow> rcvbuf \<Rightarrow> rcvbuf + rcvbuf" where
  "state_esc ec s = (if rcv_fRcvState s = kRcvIdle then idle_esc ec s else fill_esc ec s)"

definition bstep :: "rcvbuf \<Rightarrow> rcvbuf" where
  "bstep s =
     (let c = rcv_fRawBuf s ! rcv_fRawBufDone s
      in if rcv_fEscSeen s then
           (let ec = esc_dec c;
                s1 = rcv_inc (ecode_stat ec) 1
                       (s\<lparr>rcv_fEscSeen := False, rcv_fRawBufDone := rcv_fRawBufDone s + 1\<rparr>)
            in case state_esc ec s1 of Inl t \<Rightarrow> t | Inr t \<Rightarrow> t)
         else if c = kSymEsc then see_esc s
         else if rcv_fRcvState s = kRcvIdle then idle_drop s else fill_push s)"

definition rcv_active :: "rcvbuf \<Rightarrow> bool" where
  "rcv_active s \<longleftrightarrow> rcv_fRcvState s = kRcvIdle \<or> rcv_fRcvState s = kRcvFill"

lemma esc_sel2:
  "idle_esc ec s = Inl s' \<or> fill_esc ec s = Inl s' \<Longrightarrow>
     rcv_fRawBufDone s' = rcv_fRawBufDone s \<and> rcv_fRawBufSize s' = rcv_fRawBufSize s
     \<and> rcv_fRawBuf s' = rcv_fRawBuf s \<and> rcv_fEscSeen s' = rcv_fEscSeen s"
  by (auto simp: idle_esc_def fill_esc_def rcv_inc_def SetFlagBit_def Let_def split: if_splits)

lemma state_esc_sel:
  "(case state_esc ec s of Inl t \<Rightarrow> t | Inr t \<Rightarrow> t) = s' \<Longrightarrow>
     rcv_fRawBufDone s' = rcv_fRawBufDone s \<and> rcv_fRawBufSize s' = rcv_fRawBufSize s
     \<and> rcv_fRawBuf s' = rcv_fRawBuf s"
  using esc_sel [of ec s s'] esc_sel2 [of ec s s'] by (auto simp: state_esc_def split: sum.splits if_splits)

lemma bstep_sel [simp]:
  "rcv_fRawBufDone (bstep s) = Suc (rcv_fRawBufDone s)"
  "rcv_fRawBufSize (bstep s) = rcv_fRawBufSize s"
  "rcv_fRawBuf (bstep s) = rcv_fRawBuf s"
  by (simp_all add: bstep_def Let_def state_esc_sel [OF refl] rcv_inc_def)

function brun :: "rcvbuf \<Rightarrow> rcvbuf" where
  "brun s = (if rcv_fRawBufDone s < rcv_fRawBufSize s \<and> rcv_active s then brun (bstep s) else s)"
  by pat_completeness auto
termination
  by (relation "measure (\<lambda>s. rcv_fRawBufSize s - rcv_fRawBufDone s)") auto

declare brun.simps [simp del]

lemma brun_step: "rcv_fRawBufDone s < rcv_fRawBufSize s \<Longrightarrow> rcv_active s \<Longrightarrow> brun (bstep s) = brun s"
  by (simp add: brun.simps [of s])

text \<open>What the two loop functions have in common.\<close>

definition loop_ok :: "rcvbuf \<Rightarrow> rcvbuf result \<Rightarrow> bool" where
  "loop_ok s r \<longleftrightarrow> (\<exists>s'. r = Inr s' \<and> brun s' = brun s
     \<and> rcv_fRawBufSize s' = rcv_fRawBufSize s \<and> rcv_fRawBufDone s \<le> rcv_fRawBufDone s'
     \<and> (rcv_fRawBufDone s < rcv_fRawBufSize s \<longrightarrow> rcv_fRawBufDone s < rcv_fRawBufDone s'))"

lemma GetEcode_bstep:
  assumes "rcv_fEscSeen s" and "rcv_fRawBufDone s < rcv_fRawBufSize s"
  obtains ec s1 where "GetEcode s = Inr (ec, s1)"
    and "bstep s = (case state_esc ec s1 of Inl t \<Rightarrow> t | Inr t \<Rightarrow> t)"
    and "rcv_fRcvState s1 = rcv_fRcvState s" and "\<not> rcv_fEscSeen s1"
  using assms by (auto simp: GetEcode_def bstep_def Let_def rcv_inc_def)

locale rcv_loop = rcv_plain take1 plain
  for take1 :: "rcvbuf \<Rightarrow> rcvbuf" and plain :: "rcvbuf \<Rightarrow> rcvbuf" +
  fixes st :: rcv_state and esc :: "u8 \<Rightarrow> rcvbuf \<Rightarrow> rcvbuf + rcvbuf" and loop :: "rcvbuf \<Rightarrow> rcvbuf result"
  assumes loop_unfold: "loop s =
      (if rcv_fRawBufDone s < rcv_fRawBufSize s then
         if rcv_fEscSeen s then
           case GetEcode s of
             Inl e \<Rightarrow> Inl e
           | Inr (ec, s1) \<Rightarrow> (case esc ec s1 of Inl s2 \<Rightarrow> Inr s2 | Inr s2 \<Rightarrow> loop (plain s2))
         else loop (plain s)
       else Inr s)"
    and st_active: "st = kRcvIdle \<or> st = kRcvFill"
    and st_esc: "rcv_fRcvState s = st \<Longrightarrow> state_esc ec s = esc ec s"
    and st_take1: "rcv_fRcvState s = st \<Longrightarrow> \<not> rcv_fEscSeen s \<Longrightarrow>
      rcv_fRawBuf s ! rcv_fRawBufDone s \<noteq> kSymEsc \<Longrightarrow> bstep s = take1 s"
    and esc_ret: "esc ec s = Inl s' \<Longrightarrow>
      rcv_fRawBufDone s' = rcv_fRawBufDone s \<and> rcv_fRawBufSize s' = rcv_fRawBufSize s"
    and esc_brk: "esc ec s = Inr s' \<Longrightarrow>
      rcv_fRawBufDone s' = rcv_fRawBufDone s \<and> rcv_fRawBufSize s' = rcv_fRawBufSize s \<and>
      rcv_fRcvState s' = rcv_fRcvState s \<and> rcv_fEscSeen s' = rcv_fEscSeen s"
begin

lemma brun_plain:
  "rcv_fRcvState s = st \<Longrightarrow> \<not> rcv_fEscSeen s \<Longrightarrow>
     brun (plain s) = brun s \<and> rcv_fRcvState (plain s) = st"
proof (induction s rule: rcv_pending_induct)
  case (step s)
  then have act: "rcv_active s" using st_active by (auto simp: rcv_active_def)
  show ?case
  proof (cases "rcv_fRawBufDone s < rcv_fRawBufSize s")
    case pend: True
    from pend act have b: "brun (bstep s) = brun s" by (rule brun_step)
    show ?thesis
    proof (cases "rcv_fRawBuf s ! rcv_fRawBufDone s = kSymEsc")
      case True
      with b pend step.prems show ?thesis by (auto simp: plain_unfold [of s] bstep_def)
    next
      case False
      with step.prems have d: "bstep s = take1 s" by (simp add: st_take1)
      from pend step.prems step.IH [of "take1 s"]
      have "brun (plain (take1 s)) = brun (take1 s) \<and> rcv_fRcvState (plain (take1 s)) = st"
        by (simp add: diff_less_mono2 take1_Done take1_Size take1_State take1_Esc)
      with b d False pend show ?thesis by (simp add: plain_unfold [of s])
    qed
  qed (use step.prems in \<open>simp add: plain_unfold [of s]\<close>)
qed

lemma loop_refines: "rcv_fRcvState s = st \<Longrightarrow> loop_ok s (loop s)"
proof (induction s rule: rcv_pending_induct)
  case (step s)
  then have act: "rcv_active s" using st_active by (auto simp: rcv_active_def)
  show ?case
  proof (cases "rcv_fRawBufDone s < rcv_fRawBufSize s")
    case pend: True
    from pend act have b: "brun (bstep s) = brun s" by (rule brun_step)
    show ?thesis
    proof (cases "rcv_fEscSeen s")
      case True
      from True pend obtain ec s1 where g: "GetEcode s = Inr (ec, s1)"
        and bs: "bstep s = (case state_esc ec s1 of Inl t \<Rightarrow> t | Inr t \<Rightarrow> t)"
        and st: "rcv_fRcvState s1 = rcv_fRcvState s" and ne: "\<not> rcv_fEscSeen s1"
        by (rule GetEcode_bstep)
      note d = GetEcode_Done [OF g]
      show ?thesis
      proof (cases "esc ec s1")
        case (Inl s2)
        with True pend g bs st step.prems b d esc_ret [of ec s1 s2] show ?thesis
          by (auto simp: loop_ok_def st_esc loop_unfold [of s])
      next
        case (Inr s2)
        note e = esc_brk [OF Inr]
        have p: "brun (plain s2) = brun s2 \<and> rcv_fRcvState (plain s2) = st"
          by (rule brun_plain) (use e st ne step.prems in auto)
        have "brun s2 = brun s"
          using Inr bs b st step.prems by (simp add: st_esc)
        moreover have "loop_ok (plain s2) (loop (plain s2))"
          by (rule step.IH) (use e d pend plain_mono [of s2] p in auto)
        ultimately show ?thesis
          using Inr True pend g e d p plain_mono [of s2]
          by (fastforce simp: loop_ok_def loop_unfold [of s])
      qed
    next
      case False
      have p: "brun (plain s) = brun s \<and> rcv_fRcvState (plain s) = st"
        by (rule brun_plain) (use False step.prems in auto)
      moreover have "loop_ok (plain s) (loop (plain s))"
        by (rule step.IH) (use pend plain_mono [of s] plain_Done [of s] p in auto)
      ultimately show ?thesis
        using pend False plain_mono [of s] plain_Done [of s]
        by (fastforce simp: loop_ok_def loop_unfold [of s])
    qed
  qed (simp add: loop_ok_def loop_unfold [of s])
qed

end

interpretation il: rcv_loop idle_drop idle_plain kRcvIdle idle_esc ProcessDataIdle
proof unfold_locales
  show "bstep s = idle_drop s" if "rcv_fRcvState s = kRcvIdle" "\<not> rcv_fEscSeen s"
    "rcv_fRawBuf s ! rcv_fRawBufDone s \<noteq> kSymEsc" for s
    using that by (simp add: bstep_def)
qed (auto simp: state_esc_def ProcessDataIdle.simps [symmetric]
    dest: esc_sel [OF disjI1] esc_sel2 [OF disjI1])

interpretation fl: rcv_loop fill_push fill_plain kRcvFill fill_esc ProcessDataFill
proof unfold_locales
  show "bstep s = fill_push s" if "rcv_fRcvState s = kRcvFill" "\<not> rcv_fEscSeen s"
    "rcv_fRawBuf s ! rcv_fRawBufDone s \<noteq> kSymEsc" for s
    using that by (simp add: bstep_def)
qed (auto simp: state_esc_def ProcessDataFill.simps [symmetric]
    dest: esc_sel [OF disjI2] esc_sel2 [OF disjI2])


function process_loop :: "rcvbuf \<Rightarrow> rcvbuf result" where
  "process_loop s =
     (if rcv_fRawBufDone s < rcv_fRawBufSize s then
        (case rcv_fRcvState s of
           kRcvIdle \<Rightarrow> (case ProcessDataIdle s of Inl e \<Rightarrow> Inl e | Inr s' \<Rightarrow> process_loop s')
         | kRcvFill \<Rightarrow> (case ProcessDataFill s of Inl e \<Rightarrow> Inl e | Inr s' \<Rightarrow> process_loop s')
         | _ \<Rightarrow> Inr s)
      else Inr s)"
  by pat_completeness auto
termination
proof (relation "measure (\<lambda>s. rcv_fRawBufSize s - rcv_fRawBufDone s)", goal_cases)
  case (2 s s')
  then show ?case using il.loop_refines [of s] by (auto simp: loop_ok_def)
next
  case (3 s s')
  then show ?case using fl.loop_refines [of s] by (auto simp: loop_ok_def)
qed simp

declare process_loop.simps [simp del]

definition ProcessData :: "rcvbuf \<Rightarrow> (bool \<times> rcvbuf) result" where
  "ProcessData s =
     (if rcv_fRawBufDone s = rcv_fRawBufSize s then Inr (False, s)
      else ebind (process_loop s) (\<lambda>s'. Inr (True, s')))"

lemma process_loop_brun: "process_loop s = Inr (brun s)"
proof (induction s rule: rcv_pending_induct)
  case (step s)
  show ?case
  proof (cases "rcv_fRawBufDone s < rcv_fRawBufSize s")
    case False
    then show ?thesis by (simp add: process_loop.simps [of s] brun.simps [of s])
  next
    case True
    show ?thesis
    proof (cases "rcv_fRcvState s")
      case kRcvIdle
      with True il.loop_refines [of s] step show ?thesis
        by (auto simp: loop_ok_def process_loop.simps [of s] diff_less_mono2)
    next
      case kRcvFill
      with True fl.loop_refines [of s] step show ?thesis
        by (auto simp: loop_ok_def process_loop.simps [of s] diff_less_mono2)
    qed (simp_all add: process_loop.simps [of s] brun.simps [of s] rcv_active_def)
  qed
qed

lemma ProcessData_brun:
  "ProcessData s = Inr (rcv_fRawBufDone s \<noteq> rcv_fRawBufSize s, brun s)"
  by (simp add: ProcessData_def process_loop_brun brun.simps [of s])

section \<open>Accessors of a received packet\<close>

definition AcceptPacket :: "rcvbuf \<Rightarrow> rcvbuf" where
  "AcceptPacket s = s\<lparr>pb_fPktBuf := [], pb_fCrc := Crc_Clear, pb_fFlags := 0, rcv_fRcvState := kRcvIdle,
     rcv_fNDone := 0, rcv_fNakIndex := - 1, rcv_fNakCode := 0, rcv_fDropData := []\<rparr>"

definition FlushRaw :: "rcvbuf \<Rightarrow> rcvbuf" where
  "FlushRaw s = s\<lparr>rcv_fRawBufSize := 0, rcv_fRawBufDone := 0, rcv_fEscSeen := False\<rparr>"

definition PacketState :: "rcvbuf \<Rightarrow> pkt_state" where
  "PacketState s =
     (if rcv_fRcvState s = kRcvIdle \<or> rcv_fRcvState s = kRcvFill then kPktPend
      else if rcv_fRcvState s = kRcvDone then (if TestFlag kFlagSopSeen s then kPktResp else kPktAttn)
      else kPktError)"

definition CheckNak :: "rcvbuf \<Rightarrow> bool" where
  "CheckNak s = (rcv_fNakIndex s \<ge> 0 \<and> int (rcv_fNDone s) = rcv_fNakIndex s)"

definition CheckSize :: "nat \<Rightarrow> rcvbuf \<Rightarrow> bool" where
  "CheckSize nbyte s = (size_sub (length (pb_fPktBuf s)) (rcv_fNDone s) \<ge> nbyte)"

text \<open>A read past the end of the packet buffer is undefined in C++ and a \<open>MemFault\<close> here.\<close>

definition GetWithCrc8 :: "rcvbuf \<Rightarrow> (u8 \<times> rcvbuf) result" where
  "GetWithCrc8 s =
     (if rcv_fNDone s < length (pb_fPktBuf s) then
        let data = pb_fPktBuf s ! rcv_fNDone s
        in Inr (data, s\<lparr>rcv_fNDone := rcv_fNDone s + 1, pb_fCrc := AddData (pb_fCrc s) data\<rparr>)
      else Inl (MemFault ''fPktBuf''))"

definition GetWithCrc16 :: "rcvbuf \<Rightarrow> (u16 \<times> rcvbuf) result" where
  "GetWithCrc16 s =
     (if rcv_fNDone s + 1 < length (pb_fPktBuf s) then
        let datl = pb_fPktBuf s ! rcv_fNDone s; dath = pb_fPktBuf s ! (rcv_fNDone s + 1)
        in Inr (mk16 datl dath, s\<lparr>rcv_fNDone := rcv_fNDone s + 2,
                  pb_fCrc := AddData (AddData (pb_fCrc s) datl) dath\<rparr>)
      else Inl (MemFault ''fPktBuf''))"

fun GetWithCrcBlk :: "nat \<Rightarrow> rcvbuf \<Rightarrow> (u16 list \<times> rcvbuf) result" where
  "GetWithCrcBlk 0 s = Inr ([], s)"
| "GetWithCrcBlk (Suc n) s =
     ebind (GetWithCrc16 s) (\<lambda>(d, s1). ebind (GetWithCrcBlk n s1) (\<lambda>(ds, s2). Inr (d # ds, s2)))"

definition CheckCrc :: "rcvbuf \<Rightarrow> (bool \<times> rcvbuf) result" where
  "CheckCrc s =
     (if rcv_fNDone s + 1 < length (pb_fPktBuf s) then
        let datl = pb_fPktBuf s ! rcv_fNDone s; dath = pb_fPktBuf s ! (rcv_fNDone s + 1)
        in Inr (mk16 datl dath = pb_fCrc s, s\<lparr>rcv_fNDone := rcv_fNDone s + 2\<rparr>)
      else Inl (MemFault ''fPktBuf''))"

end
