(* ===== verification/RlinkPacketBufSnd.thy ===== *)
theory RlinkPacketBufSnd
  imports RlinkPort
begin

text \<open>
  Class \<open>RlinkPacketBufSnd\<close> of \<open>librlink\<close>: filling the packet buffer with CRC, escaping it into
  the raw buffer and writing that to the port, and the out of band, keep, attention, NAK and
  unjam messages.
\<close>

section \<open>Model\<close>

datatype snd_stat = kStatNTxPktByt | kStatNTxEsc | kStatNTxXEsc

record sndbuf = pktbuf +
  snd_fXonEscape :: bool
  snd_fRawBuf :: "u8 list"
  snd_stats :: "snd_stat \<Rightarrow> nat"

definition snd_new :: sndbuf where
  "snd_new = \<lparr>pb_fPktBuf = [], pb_fCrc = Crc_Clear, pb_fFlags = 0,
     snd_fXonEscape = False, snd_fRawBuf = [], snd_stats = (\<lambda>_. 0)\<rparr>"

definition SetXonEscape :: "bool \<Rightarrow> sndbuf \<Rightarrow> sndbuf" where
  "SetXonEscape xon s = s\<lparr>snd_fXonEscape := xon\<rparr>"

definition snd_Init :: "sndbuf \<Rightarrow> sndbuf" where
  "snd_Init s = s\<lparr>pb_fPktBuf := [], snd_fRawBuf := [], pb_fCrc := Crc_Clear, pb_fFlags := 0\<rparr>"

definition PutWithCrc8 :: "u8 \<Rightarrow> sndbuf \<Rightarrow> sndbuf" where
  "PutWithCrc8 d s = s\<lparr>pb_fPktBuf := pb_fPktBuf s @ [d], pb_fCrc := AddData (pb_fCrc s) d\<rparr>"

definition PutWithCrc16 :: "u16 \<Rightarrow> sndbuf \<Rightarrow> sndbuf" where
  "PutWithCrc16 d s =
     (let datl = lo8 d; dath = hi8 d
      in s\<lparr>pb_fPktBuf := (pb_fPktBuf s @ [datl]) @ [dath],
           pb_fCrc := AddData (AddData (pb_fCrc s) datl) dath\<rparr>)"

fun PutWithCrcBlk :: "u16 list \<Rightarrow> sndbuf \<Rightarrow> sndbuf" where
  "PutWithCrcBlk [] s = s"
| "PutWithCrcBlk (d # ds) s = PutWithCrcBlk ds (PutWithCrc16 d s)"

definition PutCrc :: "sndbuf \<Rightarrow> sndbuf" where
  "PutCrc s =
     (let data = pb_fCrc s; datl = lo8 data; dath = hi8 data
      in s\<lparr>pb_fPktBuf := (pb_fPktBuf s @ [datl]) @ [dath]\<rparr>)"

definition PutRawEsc :: "u8 \<Rightarrow> sndbuf \<Rightarrow> sndbuf" where
  "PutRawEsc ec s = s\<lparr>snd_fRawBuf := snd_fRawBuf s @ [kSymEsc, esc_enc ec]\<rparr>"

definition RawSize :: "sndbuf \<Rightarrow> nat" where
  "RawSize s = length (snd_fRawBuf s)"

definition push_raw :: "u8 \<Rightarrow> sndbuf \<Rightarrow> sndbuf" where
  "push_raw c s = s\<lparr>snd_fRawBuf := snd_fRawBuf s @ [c]\<rparr>"

definition snd_inc :: "snd_stat \<Rightarrow> nat \<Rightarrow> sndbuf \<Rightarrow> sndbuf" where
  "snd_inc k n s = s\<lparr>snd_stats := stat_inc k n (snd_stats s)\<rparr>"

definition SndRaw :: "port \<Rightarrow> sndbuf \<Rightarrow> (bool \<times> port) result" where
  "SndRaw p s =
     (let rawbufsize = length (snd_fRawBuf s)
      in ebind (port_Write (snd_fRawBuf s) p) (\<lambda>(irc, p').
           if irc < 0 then Inr (False, p')
           else if nat irc \<noteq> rawbufsize then Inr (False, p')
           else Inr (True, p')))"

text \<open>The loop of \<open>SndPacket\<close> over the packet bytes, with the counters \<open>nesc\<close> and \<open>nxesc\<close>.\<close>

fun snd_escape_loop :: "u8 list \<Rightarrow> nat \<Rightarrow> nat \<Rightarrow> sndbuf \<Rightarrow> nat \<times> nat \<times> sndbuf" where
  "snd_escape_loop [] nesc nxesc s = (nesc, nxesc, s)"
| "snd_escape_loop (c # cs) nesc nxesc s =
     (if c = kSymEsc then snd_escape_loop cs (nesc + 1) nxesc (PutRawEsc kEcEsc s)
      else if snd_fXonEscape s \<and> c = kSymXon then
        snd_escape_loop cs nesc (nxesc + 1) (PutRawEsc kEcXon s)
      else if snd_fXonEscape s \<and> c = kSymXoff then
        snd_escape_loop cs nesc (nxesc + 1) (PutRawEsc kEcXoff s)
      else snd_escape_loop cs nesc nxesc (push_raw c s))"

definition SndPacket :: "port \<Rightarrow> sndbuf \<Rightarrow> (bool \<times> port \<times> sndbuf) result" where
  "SndPacket p s =
     (let s1 = PutRawEsc kEcSop (s\<lparr>snd_fRawBuf := []\<rparr>);
          (nesc, nxesc, s2) = snd_escape_loop (pb_fPktBuf s1) 0 0 s1;
          s3 = PutRawEsc kEcEop s2;
          s4 = snd_inc kStatNTxXEsc nxesc (snd_inc kStatNTxEsc nesc s3)
      in ebind (SndRaw p s4) (\<lambda>(sndok, p').
           Inr (sndok, p', if sndok then snd_inc kStatNTxPktByt (PktSize s4) s4 else s4)))"

definition nib :: "u16 \<Rightarrow> nat \<Rightarrow> u8" where
  "nib w n = ucast (drop_bit n w AND 0x000f)"

definition SndOob :: "port \<Rightarrow> u16 \<Rightarrow> u16 \<Rightarrow> sndbuf \<Rightarrow> (bool \<times> port \<times> sndbuf) result" where
  "SndOob p addr data s =
     (let s1 = (snd_Init s)\<lparr>snd_fRawBuf :=
            [kSymEsc, kSymEsc, nib addr 0, nib addr 4,
             nib data 0, nib data 4, nib data 8, nib data 12, 0, 0]\<rparr>
      in ebind (SndRaw p s1) (\<lambda>(ok, p'). Inr (ok, p', s1)))"

definition SndKeep :: "port \<Rightarrow> sndbuf \<Rightarrow> (bool \<times> port \<times> sndbuf) result" where
  "SndKeep p s =
     (let s1 = (snd_Init s)\<lparr>snd_fRawBuf := [kSymEsc, kSymEsc]\<rparr>
      in ebind (SndRaw p s1) (\<lambda>(ok, p'). Inr (ok, p', s1)))"

definition SndAttn :: "port \<Rightarrow> sndbuf \<Rightarrow> (bool \<times> port \<times> sndbuf) result" where
  "SndAttn p s =
     (let s1 = PutRawEsc kEcAttn ((snd_Init s)\<lparr>snd_fRawBuf := []\<rparr>)
      in ebind (SndRaw p s1) (\<lambda>(ok, p'). Inr (ok, p', s1)))"

definition SndNak :: "port \<Rightarrow> sndbuf \<Rightarrow> (bool \<times> port \<times> sndbuf) result" where
  "SndNak p s =
     (let s1 = PutRawEsc kEcNak ((snd_Init s)\<lparr>snd_fRawBuf := []\<rparr>)
      in ebind (SndRaw p s1) (\<lambda>(ok, p'). Inr (ok, p', s1)))"

definition SndUnJam :: "port \<Rightarrow> sndbuf \<Rightarrow> (bool \<times> port \<times> sndbuf) result" where
  "SndUnJam p s =
     (let s1 = PutRawEsc kEcEop ((snd_Init s)\<lparr>snd_fRawBuf := []\<rparr>)
      in ebind (SndRaw p s1) (\<lambda>(ok, p'). Inr (ok, p', s1)))"

section \<open>The escaping as a function of the packet\<close>

definition esc_byte :: "bool \<Rightarrow> u8 \<Rightarrow> u8 list" where
  "esc_byte xon c =
     (if c = kSymEsc then [kSymEsc, esc_enc kEcEsc]
      else if xon \<and> c = kSymXon then [kSymEsc, esc_enc kEcXon]
      else if xon \<and> c = kSymXoff then [kSymEsc, esc_enc kEcXoff]
      else [c])"

definition frame :: "bool \<Rightarrow> u8 list \<Rightarrow> u8 list" where
  "frame xon ds =
     [kSymEsc, esc_enc kEcSop] @ concat (map (esc_byte xon) ds) @ [kSymEsc, esc_enc kEcEop]"

lemma snd_escape_loop_snd:
  "snd (snd (snd_escape_loop cs n m s)) =
     s\<lparr>snd_fRawBuf := snd_fRawBuf s @ concat (map (esc_byte (snd_fXonEscape s)) cs)\<rparr>"
  by (induction cs arbitrary: n m s) (simp_all add: PutRawEsc_def push_raw_def esc_byte_def)

lemma snd_escape_loop_eq:
  "snd_escape_loop cs n m s = (n', m', s') \<Longrightarrow>
     s' = s\<lparr>snd_fRawBuf := snd_fRawBuf s @ concat (map (esc_byte (snd_fXonEscape s)) cs)\<rparr>"
  using snd_escape_loop_snd [of cs n m s] by simp

lemma SndRaw_spec:
  assumes "SndRaw p s = Inr (ok, p')"
  shows "(ok \<longrightarrow> po_out p' = po_out p @ snd_fRawBuf s) \<and>
         (\<exists>n. po_out p' = po_out p @ take n (snd_fRawBuf s))"
proof -
  from assms obtain irc where w: "port_Write (snd_fRawBuf s) p = Inr (irc, p')"
    and ok: "ok = (irc \<ge> 0 \<and> nat irc = length (snd_fRawBuf s))"
    by (auto simp: SndRaw_def ebind_eq_Inr split: if_splits)
  from port_Write_spec [OF w] show ?thesis
  proof
    assume "irc = int (length (snd_fRawBuf s)) \<and> po_out p' = po_out p @ snd_fRawBuf s"
    then show ?thesis by (metis take_all_iff order_refl)
  qed (use ok in \<open>auto simp: kErr_def\<close>)
qed

lemma SndPacket_raw:
  assumes "SndPacket p s = Inr (ok, p', s')"
  shows "snd_fRawBuf s' = frame (snd_fXonEscape s) (pb_fPktBuf s)"
    and "pb_fPktBuf s' = pb_fPktBuf s"
    and "\<exists>t. SndRaw p t = Inr (ok, p') \<and> snd_fRawBuf t = snd_fRawBuf s'"
  using assms
  by (auto simp: SndPacket_def Let_def ebind_eq_Inr frame_def snd_inc_def PutRawEsc_def
      dest!: snd_escape_loop_eq split: prod.splits if_splits)

section \<open>Properties\<close>

text \<open>An open port and a packet with an escape and an XON character, for the examples.\<close>

definition demo_port :: port where
  "demo_port = \<lparr>po_fIsOpen = True, po_fXon = False, po_fFdRead = 3, po_fFdWrite = 3, po_fUrlOpts = [],
     po_stats = (\<lambda>_. 0), po_polls = [], po_reads = [], po_writes = [], po_out = [], po_clock = int, po_tick = 0\<rparr>"

definition demo_snd :: "bool \<Rightarrow> sndbuf" where
  "demo_snd xon = snd_new\<lparr>pb_fPktBuf := [0xCA, 0x11], snd_fXonEscape := xon\<rparr>"

lemma demo_SndPacket: "\<exists>p' s'. SndPacket demo_port (demo_snd xon) = Inr (True, p', s')"
  by (simp add: SndPacket_def SndRaw_def port_Write_def demo_port_def demo_snd_def snd_new_def PutRawEsc_def
      push_raw_def snd_inc_def PktSize_def Let_def port_inc_def rl_defs)

text \<open>C31: A packet that was sent is on the wire as one frame: when \<open>SndPacket\<close> reports success
  the bytes written to the port are the start of packet escape, the escaped packet bytes and
  the end of packet escape, and the packet buffer itself is unchanged.\<close>

theorem SndPacket_frame:
  assumes "SndPacket p s = Inr (True, p', s')"
  shows "po_out p' = po_out p @ frame (snd_fXonEscape s) (pb_fPktBuf s) \<and> pb_fPktBuf s' = pb_fPktBuf s"
  using SndPacket_raw [OF assms] SndRaw_spec by fastforce

theorem SndPacket_frame_witness:
  "\<exists>p' s'. SndPacket demo_port (demo_snd False) = Inr (True, p', s') \<and>
     po_out p' = [0xCA, esc_enc kEcSop, 0xCA, esc_enc kEcEsc, 0x11, 0xCA, esc_enc kEcEop]"
proof -
  from demo_SndPacket obtain p' s' where s: "SndPacket demo_port (demo_snd False) = Inr (True, p', s')" by blast
  from SndPacket_frame [OF s] s show ?thesis
    by (auto simp: demo_port_def demo_snd_def snd_new_def frame_def esc_byte_def rl_defs)
qed

text \<open>C32: With XON escaping switched on no XON and no XOFF character ever reaches the port,
  whatever the packet holds, also when the write fails half way.\<close>

theorem SndPacket_no_flow_control:
  assumes "SndPacket p s = Inr (ok, p', s')" and "snd_fXonEscape s"
  shows "\<exists>bs. po_out p' = po_out p @ bs \<and> kSymXon \<notin> set bs \<and> kSymXoff \<notin> set bs"
proof -
  let ?f = "frame (snd_fXonEscape s) (pb_fPktBuf s)"
  from SndPacket_raw [OF assms(1)] SndRaw_spec
  obtain n where "po_out p' = po_out p @ take n ?f" by metis
  moreover have "kSymXon \<notin> set ?f \<and> kSymXoff \<notin> set ?f"
    using assms(2) esc_enc_plain
    by (auto simp: frame_def esc_byte_def kSymEsc_def kSymXon_def kSymXoff_def split: if_splits)
  ultimately show ?thesis by (meson in_set_takeD)
qed

theorem SndPacket_no_flow_control_witness:
  "\<exists>p' s'. SndPacket demo_port (demo_snd True) = Inr (True, p', s') \<and> kSymXon \<notin> set (po_out p')"
proof -
  from demo_SndPacket obtain p' s' where s: "SndPacket demo_port (demo_snd True) = Inr (True, p', s')" by blast
  from SndPacket_no_flow_control [OF s] s show ?thesis by (auto simp: demo_port_def demo_snd_def snd_new_def)
qed

end
