(* ===== verification/RlinkReceiver.thy ===== *)
theory RlinkReceiver
  imports RlinkPacketBufRcv RlinkPacketBufSnd
begin

text \<open>
  The receiver seen from the byte stream: an abstract machine that consumes one byte at a time,
  the refinement of \<open>ProcessData\<close> to it, the invariant of the receive buffer with its
  preservation by every operation, and the reception of the frames that \<open>SndPacket\<close> produces.
\<close>


section \<open>The abstract receiver\<close>

text \<open>The receiver as a machine over single bytes, without the raw buffer, the statistics and
  the NAK code (which the code takes from the byte after the NAK escape if the raw buffer holds at
  least two more bytes, so that it depends on how the stream is cut).\<close>

record rcore =
  rc_st :: rcv_state
  rc_esc :: bool
  rc_pkt :: "u8 list"
  rc_flags :: u32
  rc_nak :: int
  rc_drop :: "u8 list"

definition rcore_of :: "rcvbuf \<Rightarrow> rcore" where
  "rcore_of s = \<lparr>rc_st = rcv_fRcvState s, rc_esc = rcv_fEscSeen s, rc_pkt = pb_fPktBuf s,
     rc_flags = pb_fFlags s, rc_nak = rcv_fNakIndex s, rc_drop = rcv_fDropData s\<rparr>"

definition aflag :: "u32 \<Rightarrow> rcore \<Rightarrow> rcore" where
  "aflag m c = c\<lparr>rc_flags := rc_flags c OR m\<rparr>"

definition apush :: "u8 \<Rightarrow> rcore \<Rightarrow> rcore" where
  "apush b c = c\<lparr>rc_pkt := rc_pkt c @ [b]\<rparr>"

definition aidle :: "u8 \<Rightarrow> u8 \<Rightarrow> rcore \<Rightarrow> rcore" where
  "aidle ec b c =
     (if ec = kEcSop then (aflag kFlagSopSeen c)\<lparr>rc_st := kRcvFill\<rparr>
      else if ec = kEcAttn then (aflag kFlagAttnSeen c)\<lparr>rc_st := kRcvFill\<rparr>
      else c\<lparr>rc_drop := rc_drop c @ [kSymEsc, b]\<rparr>)"

definition afill :: "u8 \<Rightarrow> rcore \<Rightarrow> rcore" where
  "afill ec c =
     (if ec = kEcEop then (aflag kFlagEopSeen c)\<lparr>rc_st := kRcvDone\<rparr>
      else if ec = kEcNak then
        (if rc_flags c AND (kFlagAttnSeen OR kFlagNakSeen) \<noteq> 0
         then (aflag kFlagErrFrame c)\<lparr>rc_st := kRcvError\<rparr>
         else (aflag kFlagNakSeen c)\<lparr>rc_nak := int (length (rc_pkt c))\<rparr>)
      else if ec = kEcXon then apush kSymXon c
      else if ec = kEcXoff then apush kSymXoff c
      else if ec = kEcFill then apush kSymFill c
      else if ec = kEcEsc then apush kSymEsc c
      else if ec = kEcClobber then (aflag kFlagErrClobber c)\<lparr>rc_st := kRcvError\<rparr>
      else (aflag kFlagErrFrame c)\<lparr>rc_st := kRcvError\<rparr>)"

definition astep :: "rcore \<Rightarrow> u8 \<Rightarrow> rcore" where
  "astep c b =
     (if rc_esc c then
        let c1 = c\<lparr>rc_esc := False\<rparr>
        in if rc_st c = kRcvIdle then aidle (esc_dec b) b c1 else afill (esc_dec b) c1
      else if b = kSymEsc then c\<lparr>rc_esc := True\<rparr>
      else if rc_st c = kRcvIdle then c\<lparr>rc_drop := rc_drop c @ [b]\<rparr> else apush b c)"

definition aactive :: "rcore \<Rightarrow> bool" where
  "aactive c \<longleftrightarrow> rc_st c = kRcvIdle \<or> rc_st c = kRcvFill"

fun arun :: "rcore \<Rightarrow> u8 list \<Rightarrow> rcore \<times> u8 list" where
  "arun c [] = (c, [])"
| "arun c (b # bs) = (if aactive c then arun (astep c b) bs else (c, b # bs))"

definition pending :: "rcvbuf \<Rightarrow> u8 list" where
  "pending s = drop (rcv_fRawBufDone s) (take (rcv_fRawBufSize s) (rcv_fRawBuf s))"

lemma rcore_of_sel [simp]:
  "rc_st (rcore_of s) = rcv_fRcvState s" "rc_esc (rcore_of s) = rcv_fEscSeen s"
  "rc_pkt (rcore_of s) = pb_fPktBuf s" "rc_flags (rcore_of s) = pb_fFlags s"
  "rc_nak (rcore_of s) = rcv_fNakIndex s" "rc_drop (rcore_of s) = rcv_fDropData s"
  by (simp_all add: rcore_of_def)

lemma aactive_rcore [simp]: "aactive (rcore_of s) = rcv_active s"
  by (simp add: aactive_def rcv_active_def)

lemma idle_esc_abs:
  "rcv_fRawBufDone s > 0 \<Longrightarrow> rcore_of (case idle_esc ec s of Inl t \<Rightarrow> t | Inr t \<Rightarrow> t)
     = aidle ec (rcv_fRawBuf s ! (rcv_fRawBufDone s - 1)) (rcore_of s)"
  by (simp add: idle_esc_def aidle_def rcore_of_def aflag_def SetFlagBit_def rcv_inc_def)

lemma fill_esc_abs: "rcore_of (case fill_esc ec s of Inl t \<Rightarrow> t | Inr t \<Rightarrow> t) = afill ec (rcore_of s)"
  by (simp add: fill_esc_def afill_def rcore_of_def aflag_def apush_def SetFlagBit_def rcv_inc_def
      fill_nak_def Let_def TestFlag_def PktSize_def)

lemma bstep_abs: "rcore_of (bstep s) = astep (rcore_of s) (rcv_fRawBuf s ! rcv_fRawBufDone s)"
proof (cases "rcv_fEscSeen s")
  case True
  let ?ec = "esc_dec (rcv_fRawBuf s ! rcv_fRawBufDone s)"
  let ?s1 = "rcv_inc (ecode_stat ?ec) 1 (s\<lparr>rcv_fEscSeen := False, rcv_fRawBufDone := rcv_fRawBufDone s + 1\<rparr>)"
  have "rcore_of ?s1 = (rcore_of s)\<lparr>rc_esc := False\<rparr>" by (simp add: rcore_of_def rcv_inc_def)
  moreover have "rcv_fRcvState ?s1 = rcv_fRcvState s" by (simp add: rcv_inc_def)
  ultimately show ?thesis
    using True idle_esc_abs [of ?s1 ?ec] fill_esc_abs [of ?ec ?s1]
    by (simp add: bstep_def astep_def Let_def state_esc_def) (simp add: rcv_inc_def)
next
  case False
  then show ?thesis
    by (simp add: bstep_def astep_def Let_def see_esc_def idle_drop_def fill_push_def rcore_of_def
        rcv_inc_def apush_def)
qed

lemma brun_abs:
  "rcv_fRawBufSize s \<le> length (rcv_fRawBuf s) \<Longrightarrow>
     arun (rcore_of s) (pending s) = (rcore_of (brun s), pending (brun s))"
proof (induction s rule: rcv_pending_induct)
  case (step s)
  show ?case
  proof (cases "rcv_fRawBufDone s < rcv_fRawBufSize s")
    case True
    with step.prems have p: "pending s = rcv_fRawBuf s ! rcv_fRawBufDone s # pending (bstep s)"
      by (simp add: pending_def Cons_nth_drop_Suc [symmetric] drop_take)
         (metis Cons_nth_drop_Suc Suc_diff_Suc less_le_trans take_Suc_Cons)
    show ?thesis
    proof (cases "rcv_active s")
      case act: True
      with True step show ?thesis
        by (simp add: p brun.simps [of s] bstep_abs [symmetric] diff_less_mono2)
    qed (simp add: p brun.simps [of s])
  qed (simp add: pending_def brun.simps [of s])
qed

lemma brun_frame [simp]:
  "rcv_fRawBufSize (brun s) = rcv_fRawBufSize s" "rcv_fRawBuf (brun s) = rcv_fRawBuf s"
  by (induction s rule: brun.induct; simp add: brun.simps)+

lemma brun_le: "rcv_fRawBufDone s \<le> rcv_fRawBufSize s \<Longrightarrow> rcv_fRawBufDone (brun s) \<le> rcv_fRawBufSize s"
  by (induction s rule: brun.induct) (auto simp: brun.simps)

lemma arun_append:
  "arun c (xs @ ys) = (case arun c xs of (c', rest) \<Rightarrow>
     if rest = [] then arun c' ys else (c', rest @ ys))"
  by (induction xs arbitrary: c) auto

section \<open>Receiving a frame\<close>

lemma arun_plain: "aactive c \<Longrightarrow> arun c (b # bs) = arun (astep c b) bs"
  by simp

lemma astep_esc_byte:
  assumes "rc_st c = kRcvFill" and "\<not> rc_esc c"
  shows "arun c (esc_byte xon d @ bs) = arun (apush d c) bs"
  using assms esc_dec_enc [of kEcEsc] esc_dec_enc [of kEcXon] esc_dec_enc [of kEcXoff]
  by (cases c) (auto simp: esc_byte_def astep_def aactive_def Let_def afill_def apush_def)

lemma apush_sel [simp]:
  "rc_st (apush d c) = rc_st c" "rc_esc (apush d c) = rc_esc c" "rc_flags (apush d c) = rc_flags c"
  "rc_pkt (apush d c) = rc_pkt c @ [d]" "rc_nak (apush d c) = rc_nak c" "rc_drop (apush d c) = rc_drop c"
  by (simp_all add: apush_def)

lemma arun_esc_bytes:
  "rc_st c = kRcvFill \<Longrightarrow> \<not> rc_esc c \<Longrightarrow>
     arun c (concat (map (esc_byte xon) ds) @ bs) = arun (c\<lparr>rc_pkt := rc_pkt c @ ds\<rparr>) bs"
proof (induction ds arbitrary: c)
  case (Cons d ds)
  then show ?case by (simp add: astep_esc_byte) (simp add: apush_def)
qed simp

lemma arun_frame:
  assumes "rc_st c = kRcvIdle" and "\<not> rc_esc c"
  shows "arun c (frame xon ds @ bs) =
    (c\<lparr>rc_st := kRcvDone, rc_pkt := rc_pkt c @ ds, rc_flags := rc_flags c OR kFlagSopSeen OR kFlagEopSeen\<rparr>, bs)"
proof -
  let ?c1 = "c\<lparr>rc_st := kRcvFill, rc_flags := rc_flags c OR kFlagSopSeen\<rparr>"
  have "arun c (frame xon ds @ bs) = arun ?c1 (concat (map (esc_byte xon) ds) @ [kSymEsc, esc_enc kEcEop] @ bs)"
    using assms esc_dec_enc [of kEcSop]
    by (cases c) (simp add: frame_def astep_def aactive_def Let_def aidle_def aflag_def)
  also have "\<dots> = arun (?c1\<lparr>rc_pkt := rc_pkt c @ ds\<rparr>) ([kSymEsc, esc_enc kEcEop] @ bs)"
    using assms by (simp add: arun_esc_bytes)
  also have "\<dots> = arun (c\<lparr>rc_st := kRcvDone, rc_pkt := rc_pkt c @ ds,
      rc_flags := rc_flags c OR kFlagSopSeen OR kFlagEopSeen\<rparr>) bs"
    using assms esc_dec_enc [of kEcEop]
    by (cases c) (simp add: astep_def aactive_def Let_def afill_def aflag_def or.assoc)
  also have "\<dots> = (c\<lparr>rc_st := kRcvDone, rc_pkt := rc_pkt c @ ds,
      rc_flags := rc_flags c OR kFlagSopSeen OR kFlagEopSeen\<rparr>, bs)"
    by (cases bs) (simp_all add: aactive_def)
  finally show ?thesis .
qed

section \<open>Invariant\<close>

definition core_inv :: "rcore \<Rightarrow> bool" where
  "core_inv c \<longleftrightarrow>
     (rc_st c = kRcvIdle \<longrightarrow> rc_pkt c = [] \<and> rc_nak c = - 1 \<and> rc_flags c AND 0xf = 0) \<and>
     (rc_st c = kRcvFill \<longrightarrow> bit (rc_flags c) 0 \<noteq> bit (rc_flags c) 3 \<and> \<not> bit (rc_flags c) 1) \<and>
     (rc_st c = kRcvDone \<longrightarrow> bit (rc_flags c) 0 \<noteq> bit (rc_flags c) 3 \<and> bit (rc_flags c) 1) \<and>
     (rc_st c = kRcvError \<longrightarrow> bit (rc_flags c) 18 \<or> bit (rc_flags c) 19) \<and>
     - 1 \<le> rc_nak c \<and> rc_nak c \<le> int (length (rc_pkt c)) \<and>
     (0 \<le> rc_nak c \<longleftrightarrow> bit (rc_flags c) 2)"

lemma flag_bits [simp]:
  "bit kFlagSopSeen n \<longleftrightarrow> n = 0" "bit kFlagEopSeen n \<longleftrightarrow> n = 1" "bit kFlagNakSeen n \<longleftrightarrow> n = 2"
  "bit kFlagAttnSeen n \<longleftrightarrow> n = 3" "bit kFlagErrTout n \<longleftrightarrow> n = 16" "bit kFlagErrIO n \<longleftrightarrow> n = 17"
  "bit kFlagErrFrame n \<longleftrightarrow> n = 18" "bit kFlagErrClobber n \<longleftrightarrow> n = 19"
  unfolding rl_defs bit_push_bit_iff by (auto simp: bit_1_iff)

lemma low4_zero: "(w :: u32) AND 0xf = 0 \<longleftrightarrow> (\<forall>k<4. \<not> bit w k)"
proof -
  have m: "(0xf :: u32) = mask 4" by (simp add: mask_eq_exp_minus_1)
  show ?thesis
  proof (intro iffI allI impI)
    fix k :: nat assume "w AND 0xf = 0" and "k < 4"
    then have "bit (w AND mask 4) k = bit (0 :: u32) k" by (simp add: m)
    with \<open>k < 4\<close> show "\<not> bit w k" by (simp add: bit_simps)
  qed (auto simp: m bit_simps intro!: bit_word_eqI)
qed

lemma test_attn_nak:
  "(w :: u32) AND (kFlagAttnSeen OR kFlagNakSeen) = 0 \<longleftrightarrow> \<not> bit w 3 \<and> \<not> bit w 2"
proof
  assume eq: "w AND (kFlagAttnSeen OR kFlagNakSeen) = 0"
  from arg_cong [OF eq, of "\<lambda>w. bit w 3"] arg_cong [OF eq, of "\<lambda>w. bit w 2"]
  show "\<not> bit w 3 \<and> \<not> bit w 2" by (simp add: bit_simps)
qed (auto simp: bit_simps intro!: bit_word_eqI)

lemma core_inv_esc [simp]: "core_inv (c\<lparr>rc_esc := e\<rparr>) = core_inv c"
  by (simp add: core_inv_def)

lemma core_inv_drop [simp]: "core_inv (c\<lparr>rc_drop := d\<rparr>) = core_inv c"
  by (simp add: core_inv_def)

lemma apush_inv: "core_inv c \<Longrightarrow> rc_st c = kRcvFill \<Longrightarrow> core_inv (apush b c)"
  by (auto simp: core_inv_def)

lemma aidle_inv: "core_inv c \<Longrightarrow> rc_st c = kRcvIdle \<Longrightarrow> core_inv (aidle ec b c)"
  by (simp add: aidle_def) (auto simp: core_inv_def aflag_def low4_zero bit_simps)

lemma afill_inv: "core_inv c \<Longrightarrow> rc_st c = kRcvFill \<Longrightarrow> core_inv (afill ec c)"
  using test_attn_nak [of "rc_flags c"]
  by (simp add: afill_def apush_inv) (auto simp: core_inv_def aflag_def bit_simps)

lemma astep_inv: "core_inv c \<Longrightarrow> aactive c \<Longrightarrow> core_inv (astep c b)"
  by (auto simp: astep_def Let_def aactive_def intro: aidle_inv afill_inv apush_inv)

lemma arun_inv: "core_inv c \<Longrightarrow> core_inv (fst (arun c bs))"
  by (induction c bs rule: arun.induct) (auto intro: astep_inv)

definition rcv_inv :: "rcvbuf \<Rightarrow> bool" where
  "rcv_inv s \<longleftrightarrow>
     length (rcv_fRawBuf s) = kRawBufLen \<and> rcv_fRawBufSize s \<le> kRawBufLen \<and>
     rcv_fRawBufDone s \<le> rcv_fRawBufSize s \<and> rcv_fNDone s \<le> length (pb_fPktBuf s) \<and>
     core_inv (rcore_of s)"
lemma idle_esc_pkt:
  "rcv_fNDone (case idle_esc ec s of Inl t \<Rightarrow> t | Inr t \<Rightarrow> t) = rcv_fNDone s \<and>
   pb_fPktBuf (case idle_esc ec s of Inl t \<Rightarrow> t | Inr t \<Rightarrow> t) = pb_fPktBuf s"
  by (simp add: idle_esc_def rcv_inc_def SetFlagBit_def)

lemma fill_esc_pkt:
  "rcv_fNDone (case fill_esc ec s of Inl t \<Rightarrow> t | Inr t \<Rightarrow> t) = rcv_fNDone s \<and>
   length (pb_fPktBuf s) \<le> length (pb_fPktBuf (case fill_esc ec s of Inl t \<Rightarrow> t | Inr t \<Rightarrow> t))"
  by (simp add: fill_esc_def fill_nak_def Let_def rcv_inc_def SetFlagBit_def)

lemma bstep_pkt: "rcv_fNDone (bstep s) = rcv_fNDone s \<and> length (pb_fPktBuf s) \<le> length (pb_fPktBuf (bstep s))"
proof (cases "rcv_fEscSeen s")
  case True
  let ?ec = "esc_dec (rcv_fRawBuf s ! rcv_fRawBufDone s)"
  let ?s1 = "rcv_inc (ecode_stat ?ec) 1 (s\<lparr>rcv_fEscSeen := False, rcv_fRawBufDone := rcv_fRawBufDone s + 1\<rparr>)"
  have "rcv_fNDone ?s1 = rcv_fNDone s" "pb_fPktBuf ?s1 = pb_fPktBuf s" by (simp_all add: rcv_inc_def)
  with True idle_esc_pkt [of ?ec ?s1] fill_esc_pkt [of ?ec ?s1] show ?thesis
    by (simp add: bstep_def Let_def state_esc_def)
qed (simp add: bstep_def Let_def see_esc_def idle_drop_def fill_push_def rcv_inc_def)

lemma brun_pkt: "rcv_fNDone (brun s) = rcv_fNDone s \<and> length (pb_fPktBuf s) \<le> length (pb_fPktBuf (brun s))"
proof (induction s rule: rcv_pending_induct)
  case (step s)
  show ?case
    using step [of "bstep s"] bstep_pkt [of s]
    by (cases "rcv_fRawBufDone s < rcv_fRawBufSize s")
      (auto simp: brun.simps [of s] diff_less_mono2)
qed

lemma brun_inv [rl_inv]: "rcv_inv s \<Longrightarrow> rcv_inv (brun s)"
  using brun_abs [of s] arun_inv [of "rcore_of s" "pending s"] brun_pkt [of s] brun_le [of s]
  by (auto simp: rcv_inv_def)

lemma rcv_new_inv [rl_inv]: "length raw = kRawBufLen \<Longrightarrow> rcv_inv (rcv_new raw)"
  by (simp add: rcv_inv_def rcv_new_def core_inv_def rcore_of_def)

lemma AcceptPacket_inv [rl_inv]: "rcv_inv s \<Longrightarrow> rcv_inv (AcceptPacket s)"
  by (simp add: rcv_inv_def AcceptPacket_def core_inv_def rcore_of_def)

lemma FlushRaw_inv [rl_inv]: "rcv_inv s \<Longrightarrow> rcv_inv (FlushRaw s)"
  by (simp add: rcv_inv_def FlushRaw_def core_inv_def rcore_of_def)

lemma flag_err_inv:
  "rcv_inv s \<Longrightarrow> m = kFlagErrTout \<or> m = kFlagErrIO \<Longrightarrow> rcv_inv (SetFlagBit m s)"
  by (elim disjE) (simp_all add: rcv_inv_def SetFlagBit_def core_inv_def low4_zero bit_or_iff)

lemma raw_inv:
  "rcv_inv s \<Longrightarrow> length ds \<le> kRawBufLen \<Longrightarrow> n \<le> length ds \<Longrightarrow>
     rcv_inv (s\<lparr>rcv_fRawBufDone := 0, rcv_fRawBufSize := n,
       rcv_fRawBuf := ds @ drop (length ds) (rcv_fRawBuf s)\<rparr>)"
  by (simp add: rcv_inv_def core_inv_def)

lemma ReadData_inv [rl_inv]:
  assumes "ReadData p timeout s = Inr (irc, p', s')" and "rcv_inv s"
  shows "rcv_inv s'"
proof -
  from assms(1) obtain r ds p1 where rd: "port_Read kRawBufLen timeout p = Inr (r, ds, p1)"
    by (auto simp: ReadData_def ebind_eq_Inr split: if_splits)
  let ?s2 = "s\<lparr>rcv_fRawBufDone := 0, rcv_fRawBufSize := 0,
       rcv_fRawBuf := ds @ drop (length ds) (rcv_fRawBuf s)\<rparr>"
  from port_Read_spec [OF rd] have len: "length ds \<le> kRawBufLen" "r > 0 \<longrightarrow> nat r = length ds"
    by (auto simp: rl_defs)
  have i2: "rcv_inv ?s2" using raw_inv [OF assms(2) len(1), of 0] by simp
  have in2: "rcv_inv (?s2\<lparr>rcv_fRawBufSize := nat r\<rparr>)" if "0 < r"
    using raw_inv [OF assms(2) len(1), of "length ds"] len(2) that by (cases s) simp
  from assms(1) rd have "s' = ?s2 \<or> s' = SetFlagBit kFlagErrTout ?s2 \<or> s' = SetFlagBit kFlagErrIO ?s2
      \<or> (0 < r \<and> s' = ?s2\<lparr>rcv_fRawBufSize := nat r\<rparr>)"
    by (simp add: ReadData_def Let_def split: if_splits) auto
  with i2 in2 flag_err_inv [of ?s2] show ?thesis by blast
qed

lemma GetWithCrc8_inv [rl_inv]: "GetWithCrc8 s = Inr (d, s') \<Longrightarrow> rcv_inv s \<Longrightarrow> rcv_inv s'"
  by (auto simp: GetWithCrc8_def rcv_inv_def rcore_of_def Let_def split: if_splits)

lemma GetWithCrc16_inv [rl_inv]: "GetWithCrc16 s = Inr (d, s') \<Longrightarrow> rcv_inv s \<Longrightarrow> rcv_inv s'"
  by (auto simp: GetWithCrc16_def rcv_inv_def rcore_of_def Let_def split: if_splits)

lemma GetWithCrcBlk_inv [rl_inv]: "GetWithCrcBlk n s = Inr (ds, s') \<Longrightarrow> rcv_inv s \<Longrightarrow> rcv_inv s'"
  by (induction n s arbitrary: ds s' rule: GetWithCrcBlk.induct)
    (auto simp: ebind_eq_Inr dest: GetWithCrc16_inv)

lemma CheckCrc_inv [rl_inv]: "CheckCrc s = Inr (ok, s') \<Longrightarrow> rcv_inv s \<Longrightarrow> rcv_inv s'"
  by (auto simp: CheckCrc_def rcv_inv_def rcore_of_def Let_def split: if_splits)

section \<open>Properties\<close>

text \<open>C10: \<open>ProcessData\<close> implements the byte machine: on every buffer that satisfies the
  invariant it returns without an exception, says whether there was anything to do, keeps the
  invariant, and leaves the receiver state and the unprocessed bytes that the byte machine
  reaches on the pending bytes. Since the byte machine has no memory of reads, reception does not
  depend on how the stream is cut.\<close>

theorem ProcessData_refines:
  assumes "rcv_inv s"
  shows "\<exists>s'. ProcessData s = Inr (pending s \<noteq> [], s') \<and> rcv_inv s' \<and>
    arun (rcore_of s) (pending s) = (rcore_of s', pending s')"
proof -
  have "pending s \<noteq> [] \<longleftrightarrow> rcv_fRawBufDone s \<noteq> rcv_fRawBufSize s"
    using assms by (auto simp: pending_def rcv_inv_def)
  then show ?thesis
    using assms brun_inv [OF assms] brun_abs [of s] by (simp add: ProcessData_brun rcv_inv_def [of s])
qed

theorem ProcessData_refines_witness:
  "\<exists>s'. ProcessData ((rcv_new (replicate kRawBufLen 0))\<lparr>rcv_fRawBufSize := 2\<rparr>) = Inr (True, s') \<and>
     rcv_inv s' \<and> rcv_fDropData s' = [0, 0]"
proof -
  let ?s = "(rcv_new (replicate kRawBufLen 0))\<lparr>rcv_fRawBufSize := 2\<rparr>"
  have "rcv_inv ?s" by (simp add: rcv_inv_def rcv_new_def rcore_of_def core_inv_def kRawBufLen_def)
  from ProcessData_refines [OF this] obtain s' where
    s': "ProcessData ?s = Inr (pending ?s \<noteq> [], s')" "rcv_inv s'" "arun (rcore_of ?s) (pending ?s) = (rcore_of s', pending s')"
    by blast
  have p: "pending ?s = [0, 0]" by (simp add: pending_def rcv_new_def kRawBufLen_def numeral_2_eq_2)
  have "rcore_of s' = (rcore_of ?s)\<lparr>rc_drop := [0, 0]\<rparr>"
    using s'(3) unfolding p by (simp add: aactive_def astep_def rcv_new_def rl_defs)
  from arg_cong [OF this, of rc_drop] have "rcv_fDropData s' = [0, 0]" by simp
  with s' p show ?thesis by auto
qed

end
