(* ===== verification/RlinkCommand.thy ===== *)
theory RlinkCommand
  imports W11_Prelude
begin

text \<open>
  Classes \<open>RlinkCommandExpect\<close>, \<open>RlinkCommand\<close> and \<open>RlinkContext\<close> of \<open>librlink\<close>: one rlink command
  with its request, address, data or block, its status and its flags, the expected response that
  may be attached to it, and the context with the default status check and the error count.
  The external buffer that a block command may point to is held by value: \<open>cmd_fpBlockExt\<close> is
  its content, \<open>None\<close> the null pointer. Accesses beyond the end of a block are \<open>MemFault\<close>.
  The copy and move variants of the setters have the same effect and share one definition.
\<close>

section \<open>RlinkCommandExpect\<close>

record expect =
  ex_fDataVal :: u16
  ex_fDataMsk :: u16
  ex_fBlockVal :: "u16 list"
  ex_fBlockMsk :: "u16 list"

definition expect_new :: "u16 \<Rightarrow> u16 \<Rightarrow> expect" where
  "expect_new data datamsk =
     \<lparr>ex_fDataVal = data, ex_fDataMsk = datamsk, ex_fBlockVal = [], ex_fBlockMsk = []\<rparr>"

definition expect_new_block :: "u16 list \<Rightarrow> u16 list \<Rightarrow> expect" where
  "expect_new_block block blockmsk =
     \<lparr>ex_fDataVal = 0, ex_fDataMsk = 0, ex_fBlockVal = block, ex_fBlockMsk = blockmsk\<rparr>"

definition ex_SetData :: "u16 \<Rightarrow> u16 \<Rightarrow> expect \<Rightarrow> expect" where
  "ex_SetData data datamsk e = e\<lparr>ex_fDataVal := data, ex_fDataMsk := datamsk\<rparr>"

definition ex_SetDone :: "u16 \<Rightarrow> bool \<Rightarrow> expect \<Rightarrow> expect" where
  "ex_SetDone done check e = e\<lparr>ex_fDataVal := done, ex_fDataMsk := (if check then 0xffff else 0)\<rparr>"

definition ex_SetBlock :: "u16 list \<Rightarrow> u16 list \<Rightarrow> expect \<Rightarrow> expect" where
  "ex_SetBlock block blockmsk e = e\<lparr>ex_fBlockVal := block, ex_fBlockMsk := blockmsk\<rparr>"

definition DataCheck :: "u16 \<Rightarrow> expect \<Rightarrow> bool" where
  "DataCheck val e = (val AND ex_fDataMsk e = ex_fDataVal e)"

definition DataIsChecked :: "expect \<Rightarrow> bool" where
  "DataIsChecked e = (ex_fDataMsk e \<noteq> 0)"

definition DoneIsChecked :: "expect \<Rightarrow> bool" where
  "DoneIsChecked e = (ex_fDataMsk e \<noteq> 0)"

definition DoneCheck :: "u16 \<Rightarrow> expect \<Rightarrow> bool" where
  "DoneCheck val e = (\<not> DoneIsChecked e \<or> val = ex_fDataVal e)"

definition BlockCheck :: "nat \<Rightarrow> u16 \<Rightarrow> expect \<Rightarrow> bool" where
  "BlockCheck ind val e =
     (if ind \<ge> length (ex_fBlockVal e) then True
      else let eval = ex_fBlockVal e ! ind;
               emsk = (if ind < length (ex_fBlockMsk e) then ex_fBlockMsk e ! ind else 0xffff)
           in val AND emsk = eval)"

definition BlockIsChecked :: "nat \<Rightarrow> expect \<Rightarrow> bool" where
  "BlockIsChecked ind e =
     (if ind \<ge> length (ex_fBlockVal e) then False
      else if ind \<ge> length (ex_fBlockMsk e) then True
      else ex_fBlockMsk e ! ind \<noteq> 0)"

text \<open>The loop of the counting \<open>BlockCheck\<close>; \<open>n\<close> is the number of words left.\<close>

fun block_check_loop :: "nat \<Rightarrow> nat \<Rightarrow> u16 list \<Rightarrow> expect \<Rightarrow> nat \<Rightarrow> nat result" where
  "block_check_loop 0 i pval e nerr = Inr nerr"
| "block_check_loop (Suc n) i pval e nerr =
     (if i \<ge> length (ex_fBlockVal e) then Inr nerr
      else if i \<ge> length pval then Inl (MemFault ''block'')
      else let eval = ex_fBlockVal e ! i;
               emsk = (if i < length (ex_fBlockMsk e) then ex_fBlockMsk e ! i else 0xffff)
           in block_check_loop n (Suc i) pval e (if pval ! i AND emsk \<noteq> eval then nerr + 1 else nerr))"

definition BlockCheckAll :: "u16 list \<Rightarrow> nat \<Rightarrow> expect \<Rightarrow> nat result" where
  "BlockCheckAll pval siz e = block_check_loop siz 0 pval e 0"

section \<open>RlinkCommand\<close>

record command =
  cmd_fRequest :: u8
  cmd_fAddress :: u16
  cmd_fData :: u16
  cmd_fBlock :: "u16 list"
  cmd_fpBlockExt :: "u16 list option"
  cmd_fBlockExtSize :: nat
  cmd_fBlockDone :: nat
  cmd_fStatus :: u8
  cmd_fFlags :: u32
  cmd_fRcvSize :: nat
  cmd_fExpectStatusSet :: bool
  cmd_fExpectStatusVal :: u8
  cmd_fExpectStatusMsk :: u8
  cmd_fupExpect :: "expect option"

definition kCmdRreg :: u8 where [rl_defs]: "kCmdRreg = 0"
definition kCmdRblk :: u8 where [rl_defs]: "kCmdRblk = 1"
definition kCmdWreg :: u8 where [rl_defs]: "kCmdWreg = 2"
definition kCmdWblk :: u8 where [rl_defs]: "kCmdWblk = 3"
definition kCmdLabo :: u8 where [rl_defs]: "kCmdLabo = 4"
definition kCmdAttn :: u8 where [rl_defs]: "kCmdAttn = 5"
definition kCmdInit :: u8 where [rl_defs]: "kCmdInit = 6"

definition kFlagInit :: u32 where [rl_defs]: "kFlagInit = push_bit 0 1"
definition kFlagSend :: u32 where [rl_defs]: "kFlagSend = push_bit 1 1"
definition kFlagDone :: u32 where [rl_defs]: "kFlagDone = push_bit 2 1"
definition kFlagLabo :: u32 where [rl_defs]: "kFlagLabo = push_bit 3 1"
definition kFlagPktBeg :: u32 where [rl_defs]: "kFlagPktBeg = push_bit 4 1"
definition kFlagPktEnd :: u32 where [rl_defs]: "kFlagPktEnd = push_bit 5 1"
definition kFlagErrNak :: u32 where [rl_defs]: "kFlagErrNak = push_bit 8 1"
definition kFlagErrDec :: u32 where [rl_defs]: "kFlagErrDec = push_bit 9 1"
definition kFlagChkStat :: u32 where [rl_defs]: "kFlagChkStat = push_bit 12 1"
definition kFlagChkData :: u32 where [rl_defs]: "kFlagChkData = push_bit 13 1"
definition kFlagChkDone :: u32 where [rl_defs]: "kFlagChkDone = push_bit 14 1"

definition kStat_M_Stat :: u8 where [rl_defs]: "kStat_M_Stat = 0xf0"
definition kStat_M_Attn :: u8 where [rl_defs]: "kStat_M_Attn = push_bit 3 1"
definition kStat_M_RbTout :: u8 where [rl_defs]: "kStat_M_RbTout = push_bit 2 1"
definition kStat_M_RbNak :: u8 where [rl_defs]: "kStat_M_RbNak = push_bit 1 1"
definition kStat_M_RbErr :: u8 where [rl_defs]: "kStat_M_RbErr = push_bit 0 1"

definition cmd_new :: command where
  "cmd_new = \<lparr>cmd_fRequest = 0, cmd_fAddress = 0, cmd_fData = 0, cmd_fBlock = [],
     cmd_fpBlockExt = None, cmd_fBlockExtSize = 0, cmd_fBlockDone = 0, cmd_fStatus = 0,
     cmd_fFlags = 0, cmd_fRcvSize = 0, cmd_fExpectStatusSet = False, cmd_fExpectStatusVal = 0,
     cmd_fExpectStatusMsk = 0, cmd_fupExpect = None\<rparr>"

text \<open>The copy constructor and the assignment operator; both copy the expect object. \<open>self\<close> says
  that both sides of an assignment are the same object.\<close>

definition cmd_copy :: "command \<Rightarrow> command" where
  "cmd_copy rhs = \<lparr>cmd_fRequest = cmd_fRequest rhs,
     cmd_fAddress = cmd_fAddress rhs,
     cmd_fData = cmd_fData rhs,
     cmd_fBlock = cmd_fBlock rhs,
     cmd_fpBlockExt = cmd_fpBlockExt rhs,
     cmd_fBlockExtSize = cmd_fBlockExtSize rhs,
     cmd_fBlockDone = cmd_fBlockDone rhs,
     cmd_fStatus = cmd_fStatus rhs,
     cmd_fFlags = cmd_fFlags rhs,
     cmd_fRcvSize = cmd_fRcvSize rhs,
     cmd_fExpectStatusSet = cmd_fExpectStatusSet rhs,
     cmd_fExpectStatusVal = cmd_fExpectStatusVal rhs,
     cmd_fExpectStatusMsk = cmd_fExpectStatusMsk rhs,
     cmd_fupExpect = map_option (\<lambda>e. e) (cmd_fupExpect rhs)\<rparr>"

definition cmd_assign :: "bool \<Rightarrow> command \<Rightarrow> command \<Rightarrow> command" where
  "cmd_assign self rhs c =
     (if self then c
      else c\<lparr>cmd_fRequest := cmd_fRequest rhs,
          cmd_fAddress := cmd_fAddress rhs,
          cmd_fData := cmd_fData rhs,
          cmd_fBlock := cmd_fBlock rhs,
          cmd_fpBlockExt := cmd_fpBlockExt rhs,
          cmd_fBlockExtSize := cmd_fBlockExtSize rhs,
          cmd_fBlockDone := cmd_fBlockDone rhs,
          cmd_fStatus := cmd_fStatus rhs,
          cmd_fFlags := cmd_fFlags rhs,
          cmd_fRcvSize := cmd_fRcvSize rhs,
          cmd_fExpectStatusSet := cmd_fExpectStatusSet rhs,
          cmd_fExpectStatusVal := cmd_fExpectStatusVal rhs,
          cmd_fExpectStatusMsk := cmd_fExpectStatusMsk rhs,
          cmd_fupExpect := map_option (\<lambda>e. e) (cmd_fupExpect rhs)\<rparr>)"

lemma cmd_copy_id [simp]: "cmd_copy c = c"
  by (simp add: cmd_copy_def option.map_ident)

lemma cmd_assign_id [simp]: "cmd_assign False rhs c = rhs"
  by (simp add: cmd_assign_def option.map_ident)

definition SetCommand :: "u8 \<Rightarrow> u16 \<Rightarrow> u16 \<Rightarrow> command \<Rightarrow> command result" where
  "SetCommand cmd addr data c =
     (if cmd > kCmdInit then
        Inl (Rexception ''RlinkCommand::SetCommand()'' ''Bad args: invalid cmd'')
      else Inr (c\<lparr>cmd_fRequest := cmd, cmd_fAddress := addr, cmd_fData := data,
             cmd_fpBlockExt := None, cmd_fBlockExtSize := 0, cmd_fBlockDone := 0,
             cmd_fStatus := 0, cmd_fFlags := kFlagInit, cmd_fRcvSize := 0,
             cmd_fupExpect := None\<rparr>))"

definition SetBlockWrite :: "u16 list \<Rightarrow> command \<Rightarrow> command result" where
  "SetBlockWrite block c =
     (if length block = 0 \<or> length block > 65535 then
        Inl (Rexception ''RlinkCommand::SetBlockWrite()'' ''Bad args: invalid block size'')
      else Inr (c\<lparr>cmd_fBlock := block, cmd_fpBlockExt := None, cmd_fBlockExtSize := 0,
             cmd_fBlockDone := 0\<rparr>))"

definition SetBlockRead :: "nat \<Rightarrow> command \<Rightarrow> command result" where
  "SetBlockRead siz c =
     (if siz = 0 \<or> siz > 65535 then
        Inl (Rexception ''RlinkCommand::SetBlockRead()'' ''Bad args: invalid block size'')
      else Inr (c\<lparr>cmd_fBlock := replicate siz 0, cmd_fpBlockExt := None, cmd_fBlockExtSize := 0,
             cmd_fBlockDone := 0\<rparr>))"

definition SetBlockExt :: "u16 list option \<Rightarrow> nat \<Rightarrow> command \<Rightarrow> command result" where
  "SetBlockExt pblock siz c =
     (if pblock = None then
        Inl (Rexception ''RlinkCommand::SetBlockExt()'' ''Bad args: pblock is null'')
      else if siz = 0 \<or> siz > 65535 then
        Inl (Rexception ''RlinkCommand::SetBlockExt()'' ''Bad args: invalid block size'')
      else Inr (c\<lparr>cmd_fpBlockExt := pblock, cmd_fBlockExtSize := siz, cmd_fBlockDone := 0\<rparr>))"

definition CmdRreg :: "u16 \<Rightarrow> command \<Rightarrow> command result" where
  "CmdRreg addr c = SetCommand kCmdRreg addr 0 c"

definition CmdWreg :: "u16 \<Rightarrow> u16 \<Rightarrow> command \<Rightarrow> command result" where
  "CmdWreg addr data c = SetCommand kCmdWreg addr data c"

definition CmdLabo :: "command \<Rightarrow> command result" where
  "CmdLabo c = SetCommand kCmdLabo 0 0 c"

definition CmdAttn :: "command \<Rightarrow> command result" where
  "CmdAttn c = SetCommand kCmdAttn 0 0 c"

definition CmdInit :: "u16 \<Rightarrow> u16 \<Rightarrow> command \<Rightarrow> command result" where
  "CmdInit addr data c = SetCommand kCmdInit addr data c"

definition CmdRblk :: "u16 \<Rightarrow> nat \<Rightarrow> command \<Rightarrow> command result" where
  "CmdRblk addr siz c = ebind (SetCommand kCmdRblk addr 0 c) (SetBlockRead siz)"

definition CmdRblkExt :: "u16 \<Rightarrow> u16 list option \<Rightarrow> nat \<Rightarrow> command \<Rightarrow> command result" where
  "CmdRblkExt addr pblock siz c = ebind (SetCommand kCmdRblk addr 0 c) (SetBlockExt pblock siz)"

definition CmdWblk :: "u16 \<Rightarrow> u16 list \<Rightarrow> command \<Rightarrow> command result" where
  "CmdWblk addr block c = ebind (SetCommand kCmdWblk addr 0 c) (SetBlockWrite block)"

definition CmdWblkExt :: "u16 \<Rightarrow> u16 list option \<Rightarrow> nat \<Rightarrow> command \<Rightarrow> command result" where
  "CmdWblkExt addr pblock siz c = ebind (SetCommand kCmdWblk addr 0 c) (SetBlockExt pblock siz)"

definition SetSeqNumber :: "u8 \<Rightarrow> command \<Rightarrow> command" where
  "SetSeqNumber snum c = c\<lparr>cmd_fRequest := push_bit 3 snum OR (cmd_fRequest c AND 0x07)\<rparr>"

definition SetAddress :: "u16 \<Rightarrow> command \<Rightarrow> command" where
  "SetAddress addr c = c\<lparr>cmd_fAddress := addr\<rparr>"

definition SetData :: "u16 \<Rightarrow> command \<Rightarrow> command" where
  "SetData data c = c\<lparr>cmd_fData := data\<rparr>"

definition SetBlockDone :: "u16 \<Rightarrow> command \<Rightarrow> command" where
  "SetBlockDone dcnt c = c\<lparr>cmd_fBlockDone := unat dcnt\<rparr>"

definition SetStatus :: "u8 \<Rightarrow> command \<Rightarrow> command" where
  "SetStatus stat c = c\<lparr>cmd_fStatus := stat\<rparr>"

definition cmd_SetFlagBit :: "u32 \<Rightarrow> command \<Rightarrow> command" where
  "cmd_SetFlagBit m c = c\<lparr>cmd_fFlags := cmd_fFlags c OR m\<rparr>"

definition cmd_ClearFlagBit :: "u32 \<Rightarrow> command \<Rightarrow> command" where
  "cmd_ClearFlagBit m c = c\<lparr>cmd_fFlags := cmd_fFlags c AND NOT m\<rparr>"

definition SetRcvSize :: "nat \<Rightarrow> command \<Rightarrow> command" where
  "SetRcvSize rsize c = c\<lparr>cmd_fRcvSize := rsize\<rparr>"

definition SetExpect :: "expect option \<Rightarrow> command \<Rightarrow> command" where
  "SetExpect e c = c\<lparr>cmd_fupExpect := e\<rparr>"

definition EnsureExpect :: "command \<Rightarrow> expect \<times> command" where
  "EnsureExpect c =
     (let e = (case cmd_fupExpect c of None \<Rightarrow> expect_new 0 0 | Some e \<Rightarrow> e)
      in (e, c\<lparr>cmd_fupExpect := Some e\<rparr>))"

definition SetExpectStatus :: "u8 \<Rightarrow> u8 \<Rightarrow> command \<Rightarrow> command" where
  "SetExpectStatus stat statmsk c =
     c\<lparr>cmd_fExpectStatusSet := True, cmd_fExpectStatusVal := stat, cmd_fExpectStatusMsk := statmsk\<rparr>"

definition SetExpectStatusDefault :: "u8 \<Rightarrow> u8 \<Rightarrow> command \<Rightarrow> command" where
  "SetExpectStatusDefault stat statmsk c =
     c\<lparr>cmd_fExpectStatusSet := False, cmd_fExpectStatusVal := stat, cmd_fExpectStatusMsk := statmsk\<rparr>"

definition Command :: "command \<Rightarrow> u8" where
  "Command c = cmd_fRequest c AND 0x07"

definition SeqNumber :: "command \<Rightarrow> u8" where
  "SeqNumber c = drop_bit 3 (cmd_fRequest c)"

definition HasBlockExt :: "command \<Rightarrow> bool" where
  "HasBlockExt c = (cmd_fpBlockExt c \<noteq> None)"

definition BlockPointer :: "command \<Rightarrow> u16 list" where
  "BlockPointer c = (case cmd_fpBlockExt c of Some b \<Rightarrow> b | None \<Rightarrow> cmd_fBlock c)"

definition BlockSize :: "command \<Rightarrow> nat" where
  "BlockSize c = (if HasBlockExt c then cmd_fBlockExtSize c else length (cmd_fBlock c))"

definition BlockDoneAll :: "command \<Rightarrow> bool" where
  "BlockDoneAll c = (cmd_fBlockDone c = BlockSize c)"

definition TestFlagAny :: "u32 \<Rightarrow> command \<Rightarrow> bool" where
  "TestFlagAny m c = (cmd_fFlags c AND m \<noteq> 0)"

definition TestFlagAll :: "u32 \<Rightarrow> command \<Rightarrow> bool" where
  "TestFlagAll m c = (cmd_fFlags c AND m = cmd_fFlags c)"

definition HasExpect :: "command \<Rightarrow> bool" where
  "HasExpect c = (cmd_fupExpect c \<noteq> None)"

definition StatusCheck :: "command \<Rightarrow> bool" where
  "StatusCheck c = (cmd_fStatus c AND cmd_fExpectStatusMsk c = cmd_fExpectStatusVal c)"

definition StatusIsChecked :: "command \<Rightarrow> bool" where
  "StatusIsChecked c = (cmd_fExpectStatusMsk c \<noteq> 0)"

definition CommandName :: "u8 \<Rightarrow> string" where
  "CommandName cmd =
     [''rreg'', ''rblk'', ''wreg'', ''wblk'', ''labo'', ''attn'', ''init'', ''????''] ! unat (cmd AND 0x7)"

definition FlagNames :: "(u32 \<times> string) list" where
  "FlagNames =
     [(kFlagChkData, ''ChkData''), (kFlagChkDone, ''ChkDone''), (kFlagChkStat, ''ChkStat''),
      (kFlagErrDec, ''ErrDec''), (kFlagErrNak, ''ErrNak''), (kFlagPktEnd, ''PktEnd''),
      (kFlagPktBeg, ''PktBeg''), (kFlagLabo, ''Labo''), (kFlagDone, ''Done''), (kFlagSend, ''Send''),
      (kFlagInit, ''Init'')]"

section \<open>RlinkContext\<close>

record rlcontext =
  cx_fStatusVal :: u8
  cx_fStatusMsk :: u8
  cx_fErrCnt :: nat

definition context_new :: rlcontext where
  "context_new = \<lparr>cx_fStatusVal = 0, cx_fStatusMsk = 0, cx_fErrCnt = 0\<rparr>"

definition cx_SetStatus :: "u8 \<Rightarrow> u8 \<Rightarrow> rlcontext \<Rightarrow> rlcontext" where
  "cx_SetStatus stat statmsk x = x\<lparr>cx_fStatusVal := stat, cx_fStatusMsk := statmsk\<rparr>"

definition cx_SetStatusValue :: "u8 \<Rightarrow> rlcontext \<Rightarrow> rlcontext" where
  "cx_SetStatusValue stat x = x\<lparr>cx_fStatusVal := stat\<rparr>"

definition cx_SetStatusMask :: "u8 \<Rightarrow> rlcontext \<Rightarrow> rlcontext" where
  "cx_SetStatusMask statmsk x = x\<lparr>cx_fStatusMsk := statmsk\<rparr>"

definition cx_StatusIsChecked :: "rlcontext \<Rightarrow> bool" where
  "cx_StatusIsChecked x = (cx_fStatusMsk x \<noteq> 0)"

definition cx_StatusCheck :: "u8 \<Rightarrow> rlcontext \<Rightarrow> bool" where
  "cx_StatusCheck val x = (val AND cx_fStatusMsk x = cx_fStatusVal x)"

definition IncErrorCount :: "nat \<Rightarrow> rlcontext \<Rightarrow> rlcontext" where
  "IncErrorCount inc x = x\<lparr>cx_fErrCnt := cx_fErrCnt x + inc\<rparr>"

definition ClearErrorCount :: "rlcontext \<Rightarrow> rlcontext" where
  "ClearErrorCount x = x\<lparr>cx_fErrCnt := 0\<rparr>"

section \<open>Lemmas\<close>

text \<open>What every way to set up a command guarantees, and what the transport relies on.\<close>

definition wf_cmd :: "command \<Rightarrow> bool" where
  "wf_cmd c \<longleftrightarrow>
     Command c \<le> kCmdInit \<and> BlockSize c \<le> 65535 \<and> BlockSize c \<le> length (BlockPointer c) \<and>
     (Command c = kCmdRblk \<or> Command c = kCmdWblk \<longrightarrow> 0 < BlockSize c)"

lemma low3_u8: "(0x07 :: u8) = mask 3"
  by (simp add: mask_eq_exp_minus_1)

lemma Command_small: "(c :: u8) \<le> 6 \<Longrightarrow> c AND 7 = c"
proof -
  assume "c \<le> 6"
  then have "c < 8" by (rule order.strict_trans1) simp
  then show ?thesis by (cases rule: u8_lt8_cases) simp_all
qed

lemma Command_SetSeqNumber [simp]: "Command (SetSeqNumber n c) = Command c"
  by (auto simp: Command_def SetSeqNumber_def low3_u8 bit_simps intro!: bit_word_eqI)

lemma SeqNumber_SetSeqNumber: "SeqNumber (SetSeqNumber n c) = n AND 0x1f"
proof -
  have m: "(0x1f :: u8) = mask 5" by (simp add: mask_eq_exp_minus_1)
  show ?thesis
    unfolding m low3_u8 SeqNumber_def SetSeqNumber_def
    by (rule bit_word_eqI) (auto simp: bit_simps)
qed

lemmas cmd_setters = SetSeqNumber_def SetAddress_def SetData_def SetBlockDone_def SetStatus_def
  cmd_SetFlagBit_def cmd_ClearFlagBit_def SetRcvSize_def SetExpect_def SetExpectStatus_def
  SetExpectStatusDefault_def

lemmas cmd_views = Command_def BlockSize_def BlockPointer_def HasBlockExt_def

lemma setter_views [simp]:
  "Command (SetAddress a c) = Command c" "Command (SetData d c) = Command c"
  "Command (SetBlockDone n c) = Command c" "Command (SetStatus t c) = Command c"
  "Command (cmd_SetFlagBit m c) = Command c" "Command (cmd_ClearFlagBit m c) = Command c"
  "Command (SetRcvSize z c) = Command c" "Command (SetExpect x c) = Command c"
  "Command (SetExpectStatus t u c) = Command c" "Command (SetExpectStatusDefault t u c) = Command c"
  "BlockSize (SetSeqNumber q c) = BlockSize c" "BlockSize (SetAddress a c) = BlockSize c"
  "BlockSize (SetData d c) = BlockSize c" "BlockSize (SetBlockDone n c) = BlockSize c"
  "BlockSize (SetStatus t c) = BlockSize c" "BlockSize (cmd_SetFlagBit m c) = BlockSize c"
  "BlockSize (cmd_ClearFlagBit m c) = BlockSize c" "BlockSize (SetRcvSize z c) = BlockSize c"
  "BlockSize (SetExpect x c) = BlockSize c" "BlockSize (SetExpectStatus t u c) = BlockSize c"
  "BlockSize (SetExpectStatusDefault t u c) = BlockSize c"
  "BlockPointer (SetSeqNumber q c) = BlockPointer c" "BlockPointer (SetAddress a c) = BlockPointer c"
  "BlockPointer (SetData d c) = BlockPointer c" "BlockPointer (SetBlockDone n c) = BlockPointer c"
  "BlockPointer (SetStatus t c) = BlockPointer c" "BlockPointer (cmd_SetFlagBit m c) = BlockPointer c"
  "BlockPointer (cmd_ClearFlagBit m c) = BlockPointer c" "BlockPointer (SetRcvSize z c) = BlockPointer c"
  "BlockPointer (SetExpect x c) = BlockPointer c" "BlockPointer (SetExpectStatus t u c) = BlockPointer c"
  "BlockPointer (SetExpectStatusDefault t u c) = BlockPointer c"
  by (simp_all add: cmd_setters cmd_views split: option.split)

lemma wf_setters [simp]:
  "wf_cmd (SetSeqNumber q c) = wf_cmd c" "wf_cmd (SetAddress a c) = wf_cmd c"
  "wf_cmd (SetData d c) = wf_cmd c" "wf_cmd (SetBlockDone n c) = wf_cmd c"
  "wf_cmd (SetStatus t c) = wf_cmd c" "wf_cmd (cmd_SetFlagBit m c) = wf_cmd c"
  "wf_cmd (cmd_ClearFlagBit m c) = wf_cmd c" "wf_cmd (SetRcvSize z c) = wf_cmd c"
  "wf_cmd (SetExpect x c) = wf_cmd c" "wf_cmd (SetExpectStatus t u c) = wf_cmd c"
  "wf_cmd (SetExpectStatusDefault t u c) = wf_cmd c"
  by (simp_all add: wf_cmd_def)

lemma block_check_loop_count:
  "i + n \<le> length pval \<or> length (ex_fBlockVal e) \<le> length pval \<Longrightarrow>
     block_check_loop n i pval e nerr =
       Inr (nerr + card {k. i \<le> k \<and> k < i + n \<and> \<not> BlockCheck k (pval ! k) e})"
proof (induction n i pval e nerr rule: block_check_loop.induct)
  case (2 n i pval e nerr)
  show ?case
  proof (cases "i \<ge> length (ex_fBlockVal e)")
    case True
    then have "{k. i \<le> k \<and> k < i + Suc n \<and> \<not> BlockCheck k (pval ! k) e} = {}"
      by (auto simp: BlockCheck_def)
    with True show ?thesis by simp
  next
    case False
    with "2.prems" have i: "i < length pval" by auto
    let ?A = "\<lambda>i n. {k. i \<le> k \<and> k < i + n \<and> \<not> BlockCheck k (pval ! k) e}"
    have "?A i (Suc n) = (if BlockCheck i (pval ! i) e then ?A (Suc i) n else insert i (?A (Suc i) n))"
      by (auto simp: le_less Suc_le_eq)
    then have "card (?A i (Suc n)) = card (?A (Suc i) n) + (if BlockCheck i (pval ! i) e then 0 else 1)"
      by simp
    moreover have "BlockCheck i (pval ! i) e \<longleftrightarrow>
      pval ! i AND (if i < length (ex_fBlockMsk e) then ex_fBlockMsk e ! i else 0xffff) = ex_fBlockVal e ! i"
      using False by (simp add: BlockCheck_def Let_def)
    ultimately show ?thesis
      using False i "2.prems" "2.IH" by (auto simp: Let_def)
  qed
qed simp

section \<open>Reachable commands\<close>

text \<open>The command objects made by the command functions, on a new or an earlier object, and the
  setters that are used on them. For an external buffer the caller has to pass a size within the buffer.\<close>

inductive cmd_reach :: "command \<Rightarrow> bool" where
  new: "cmd_reach cmd_new"
| rreg: "cmd_reach c \<Longrightarrow> CmdRreg addr c = Inr c' \<Longrightarrow> cmd_reach c'"
| wreg: "cmd_reach c \<Longrightarrow> CmdWreg addr data c = Inr c' \<Longrightarrow> cmd_reach c'"
| labo: "cmd_reach c \<Longrightarrow> CmdLabo c = Inr c' \<Longrightarrow> cmd_reach c'"
| attn: "cmd_reach c \<Longrightarrow> CmdAttn c = Inr c' \<Longrightarrow> cmd_reach c'"
| init: "cmd_reach c \<Longrightarrow> CmdInit addr data c = Inr c' \<Longrightarrow> cmd_reach c'"
| rblk: "cmd_reach c \<Longrightarrow> CmdRblk addr siz c = Inr c' \<Longrightarrow> cmd_reach c'"
| rblk_ext: "cmd_reach c \<Longrightarrow> CmdRblkExt addr (Some b) siz c = Inr c' \<Longrightarrow> siz \<le> length b \<Longrightarrow> cmd_reach c'"
| wblk: "cmd_reach c \<Longrightarrow> CmdWblk addr block c = Inr c' \<Longrightarrow> cmd_reach c'"
| wblk_ext: "cmd_reach c \<Longrightarrow> CmdWblkExt addr (Some b) siz c = Inr c' \<Longrightarrow> siz \<le> length b \<Longrightarrow> cmd_reach c'"
| seq: "cmd_reach c \<Longrightarrow> cmd_reach (SetSeqNumber q c)"
| flag: "cmd_reach c \<Longrightarrow> cmd_reach (cmd_SetFlagBit m c)"
| unflag: "cmd_reach c \<Longrightarrow> cmd_reach (cmd_ClearFlagBit m c)"
| expect: "cmd_reach c \<Longrightarrow> cmd_reach (SetExpect x c)"
| expect_stat: "cmd_reach c \<Longrightarrow> cmd_reach (SetExpectStatus t u c)"

lemma wf_SetCommand:
  "SetCommand k addr data c = Inr c' \<Longrightarrow>
     Command c' = k \<and> k \<le> kCmdInit \<and> cmd_fBlock c' = cmd_fBlock c \<and> cmd_fpBlockExt c' = None
     \<and> cmd_fFlags c' = kFlagInit"
  by (auto simp: SetCommand_def Command_def Command_small kCmdInit_def split: if_splits)

lemma wf_simple_cmd:
  "SetCommand k addr data c = Inr c' \<Longrightarrow> k \<noteq> kCmdRblk \<and> k \<noteq> kCmdWblk \<Longrightarrow> length (cmd_fBlock c) \<le> 65535 \<Longrightarrow>
     wf_cmd c' \<and> length (cmd_fBlock c') \<le> 65535"
  by (drule wf_SetCommand) (simp add: wf_cmd_def BlockSize_def BlockPointer_def HasBlockExt_def)

lemma setter_fBlock [simp]:
  "cmd_fBlock (SetSeqNumber q c) = cmd_fBlock c" "cmd_fBlock (cmd_SetFlagBit m c) = cmd_fBlock c"
  "cmd_fBlock (cmd_ClearFlagBit m c) = cmd_fBlock c" "cmd_fBlock (SetExpect x c) = cmd_fBlock c"
  "cmd_fBlock (SetExpectStatus t u c) = cmd_fBlock c"
  by (simp_all add: cmd_setters)

lemma cmd_reach_inv: "cmd_reach c \<Longrightarrow> wf_cmd c \<and> length (cmd_fBlock c) \<le> 65535"
proof (induction rule: cmd_reach.induct)
  case new
  show ?case by (simp add: wf_cmd_def cmd_new_def cmd_views rl_defs)
next
  case (rblk c addr siz c')
  then obtain c1 where c1: "SetCommand kCmdRblk addr 0 c = Inr c1" "SetBlockRead siz c1 = Inr c'"
    by (auto simp: CmdRblk_def ebind_eq_Inr)
  with wf_SetCommand [OF c1(1)] show ?case
    by (auto simp: SetBlockRead_def wf_cmd_def cmd_views split: if_splits)
next
  case (wblk c addr block c')
  then obtain c1 where c1: "SetCommand kCmdWblk addr 0 c = Inr c1" "SetBlockWrite block c1 = Inr c'"
    by (auto simp: CmdWblk_def ebind_eq_Inr)
  with wf_SetCommand [OF c1(1)] show ?case
    by (auto simp: SetBlockWrite_def wf_cmd_def cmd_views split: if_splits)
next
  case (rblk_ext c addr b siz c')
  then obtain c1 where c1: "SetCommand kCmdRblk addr 0 c = Inr c1" "SetBlockExt (Some b) siz c1 = Inr c'"
    by (auto simp: CmdRblkExt_def ebind_eq_Inr)
  with wf_SetCommand [OF c1(1)] rblk_ext show ?case
    by (auto simp: SetBlockExt_def wf_cmd_def cmd_views split: if_splits)
next
  case (wblk_ext c addr b siz c')
  then obtain c1 where c1: "SetCommand kCmdWblk addr 0 c = Inr c1" "SetBlockExt (Some b) siz c1 = Inr c'"
    by (auto simp: CmdWblkExt_def ebind_eq_Inr)
  with wf_SetCommand [OF c1(1)] wblk_ext show ?case
    by (auto simp: SetBlockExt_def wf_cmd_def cmd_views split: if_splits)
next
  case (rreg c addr c')
  then show ?case
    using wf_simple_cmd [of kCmdRreg addr 0 c c'] by (simp add: CmdRreg_def kCmdRreg_def kCmdRblk_def kCmdWblk_def)
next
  case (wreg c addr data c')
  then show ?case
    using wf_simple_cmd [of kCmdWreg addr data c c'] by (simp add: CmdWreg_def kCmdWreg_def kCmdRblk_def kCmdWblk_def)
next
  case (labo c c')
  then show ?case
    using wf_simple_cmd [of kCmdLabo 0 0 c c'] by (simp add: CmdLabo_def kCmdLabo_def kCmdRblk_def kCmdWblk_def)
next
  case (attn c c')
  then show ?case
    using wf_simple_cmd [of kCmdAttn 0 0 c c'] by (simp add: CmdAttn_def kCmdAttn_def kCmdRblk_def kCmdWblk_def)
next
  case (init c addr data c')
  then show ?case
    using wf_simple_cmd [of kCmdInit addr data c c'] by (simp add: CmdInit_def kCmdInit_def kCmdRblk_def kCmdWblk_def)
qed simp_all

section \<open>Properties\<close>

text \<open>The counting block check counts exactly the words that fail the check of a single word,
  among the words both in the received block and in the expected block, whatever the lengths of
  value and mask vector are, and it reads nothing beyond the received words.\<close>

theorem BlockCheckAll_counts:
  assumes "siz \<le> length pval"
  shows "BlockCheckAll pval siz e = Inr (card {k. k < siz \<and> \<not> BlockCheck k (pval ! k) e})"
  using block_check_loop_count [of 0 siz pval e 0] assms by (simp add: BlockCheckAll_def)

theorem BlockCheckAll_counts_witness:
  "(3 :: nat) \<le> length [1, 2, 3 :: u16] \<and>
   BlockCheckAll [1, 2, 3] 3 (expect_new_block [1, 7, 0, 4] [0xffff, 0xffff, 0]) =
   Inr (card {k. k < 3 \<and> \<not> BlockCheck k ([1, 2, 3] ! k) (expect_new_block [1, 7, 0, 4] [0xffff, 0xffff, 0])})"
  using BlockCheckAll_counts [of 3 "[1, 2, 3]"] by simp

text \<open>A request byte carries the command code in its lower three bits and the sequence number
  modulo 32 above it: setting the number changes neither the code nor anything else that matters
  for the transport.\<close>

theorem SetSeqNumber_request:
  "SeqNumber (SetSeqNumber n c) = n AND 0x1f \<and> Command (SetSeqNumber n c) = Command c \<and>
   (Command c = Command d \<and> n AND 0x1f = m AND 0x1f \<longleftrightarrow>
      cmd_fRequest (SetSeqNumber n c) = cmd_fRequest (SetSeqNumber m d))"
proof -
  have split: "cmd_fRequest c = push_bit 3 (SeqNumber c) OR Command c" for c
    unfolding SeqNumber_def Command_def low3_u8 by (rule bit_word_eqI) (auto simp: bit_simps)
  have "cmd_fRequest c1 = cmd_fRequest c2 \<longleftrightarrow> SeqNumber c1 = SeqNumber c2 \<and> Command c1 = Command c2" for c1 c2
    using split by (metis SeqNumber_def Command_def)
  then show ?thesis by (auto simp: SeqNumber_SetSeqNumber)
qed

text \<open>\<open>TestFlagAll\<close> does not test that all flags of the mask are set: it holds when no flag
  outside of the mask is set, so it accepts a command with no flag at all and rejects one that has all
  flags of the mask and another one.\<close>

theorem TestFlagAll_inverted:
  "(TestFlagAll m c \<longleftrightarrow> cmd_fFlags c AND NOT m = 0) \<and>
   TestFlagAll kFlagDone (cmd_new\<lparr>cmd_fFlags := 0\<rparr>) \<and>
   \<not> TestFlagAll kFlagDone (cmd_new\<lparr>cmd_fFlags := kFlagInit OR kFlagDone\<rparr>)"
proof -
  have "TestFlagAll m c \<longleftrightarrow> cmd_fFlags c AND NOT m = 0"
    by (auto simp: TestFlagAll_def bit_eq_iff bit_and_iff bit_not_iff)
  moreover have "TestFlagAll kFlagDone (cmd_new\<lparr>cmd_fFlags := 0\<rparr>)" by (simp add: TestFlagAll_def)
  moreover have "\<not> TestFlagAll kFlagDone (cmd_new\<lparr>cmd_fFlags := kFlagInit OR kFlagDone\<rparr>)" by code_simp
  ultimately show ?thesis by blast
qed

end
