(* ===== verification/RlinkCommandList.thy ===== *)
theory RlinkCommandList
  imports RlinkCommand
begin

text \<open>
  Class \<open>RlinkCommandList\<close> of \<open>librlink\<close>: a list of commands that is executed as one packet, the
  functions that append a new command, the ones that attach an expected response to the last
  command, and the index of an active list abort. The pointers of the vector are unique, so a
  list of command values models it.
\<close>

section \<open>Model\<close>

record clist =
  cl_fList :: "command list"
  cl_fLaboIndex :: int

definition clist_new :: clist where
  "clist_new = \<lparr>cl_fList = [], cl_fLaboIndex = - 1\<rparr>"

definition cl_AddCommand :: "command \<Rightarrow> clist \<Rightarrow> nat \<times> clist" where
  "cl_AddCommand cmd l = (length (cl_fList l), l\<lparr>cl_fList := cl_fList l @ [cmd]\<rparr>)"

definition cl_AddCommandCopy :: "command \<Rightarrow> clist \<Rightarrow> nat \<times> clist" where
  "cl_AddCommandCopy cmd l = cl_AddCommand (cmd_copy cmd) l"

definition cl_AddCommandList :: "clist \<Rightarrow> clist \<Rightarrow> nat \<times> clist" where
  "cl_AddCommandList cl l =
     (length (cl_fList l), fold (\<lambda>c l. snd (cl_AddCommandCopy c l)) (cl_fList cl) l)"

text \<open>A new command is set up first; when that throws the list is unchanged.\<close>

definition cl_AddRreg :: "u16 \<Rightarrow> clist \<Rightarrow> (nat \<times> clist) result" where
  "cl_AddRreg addr l = ebind (CmdRreg addr cmd_new) (\<lambda>c. Inr (cl_AddCommand c l))"

definition cl_AddRblk :: "u16 \<Rightarrow> nat \<Rightarrow> clist \<Rightarrow> (nat \<times> clist) result" where
  "cl_AddRblk addr siz l = ebind (CmdRblk addr siz cmd_new) (\<lambda>c. Inr (cl_AddCommand c l))"

definition cl_AddRblkExt :: "u16 \<Rightarrow> u16 list option \<Rightarrow> nat \<Rightarrow> clist \<Rightarrow> (nat \<times> clist) result" where
  "cl_AddRblkExt addr block siz l =
     ebind (CmdRblkExt addr block siz cmd_new) (\<lambda>c. Inr (cl_AddCommand c l))"

definition cl_AddWreg :: "u16 \<Rightarrow> u16 \<Rightarrow> clist \<Rightarrow> (nat \<times> clist) result" where
  "cl_AddWreg addr data l = ebind (CmdWreg addr data cmd_new) (\<lambda>c. Inr (cl_AddCommand c l))"

definition cl_AddWblk :: "u16 \<Rightarrow> u16 list \<Rightarrow> clist \<Rightarrow> (nat \<times> clist) result" where
  "cl_AddWblk addr block l = ebind (CmdWblk addr block cmd_new) (\<lambda>c. Inr (cl_AddCommand c l))"

definition cl_AddWblkExt :: "u16 \<Rightarrow> u16 list option \<Rightarrow> nat \<Rightarrow> clist \<Rightarrow> (nat \<times> clist) result" where
  "cl_AddWblkExt addr block siz l =
     ebind (CmdWblkExt addr block siz cmd_new) (\<lambda>c. Inr (cl_AddCommand c l))"

definition cl_AddLabo :: "clist \<Rightarrow> (nat \<times> clist) result" where
  "cl_AddLabo l = ebind (CmdLabo cmd_new) (\<lambda>c. Inr (cl_AddCommand c l))"

definition cl_AddAttn :: "clist \<Rightarrow> (nat \<times> clist) result" where
  "cl_AddAttn l = ebind (CmdAttn cmd_new) (\<lambda>c. Inr (cl_AddCommand c l))"

definition cl_AddInit :: "u16 \<Rightarrow> u16 \<Rightarrow> clist \<Rightarrow> (nat \<times> clist) result" where
  "cl_AddInit addr data l = ebind (CmdInit addr data cmd_new) (\<lambda>c. Inr (cl_AddCommand c l))"

text \<open>Every \<open>SetLast\<close> function starts with the same check and then changes the last command.\<close>

definition set_last :: "string \<Rightarrow> (command \<Rightarrow> command) \<Rightarrow> clist \<Rightarrow> clist result" where
  "set_last meth f l =
     (if cl_fList l = [] then Inl (Rexception meth ''Bad state: list empty'')
      else Inr (l\<lparr>cl_fList := butlast (cl_fList l) @ [f (last (cl_fList l))]\<rparr>))"

text \<open>\<open>EnsureExpect\<close> gives a reference into the command, so an update of it is one of the command.\<close>

definition upd_expect :: "(expect \<Rightarrow> expect) \<Rightarrow> command \<Rightarrow> command" where
  "upd_expect f c = (let (e, c') = EnsureExpect c in c'\<lparr>cmd_fupExpect := Some (f e)\<rparr>)"

definition SetLastExpectStatus :: "u8 \<Rightarrow> u8 \<Rightarrow> clist \<Rightarrow> clist result" where
  "SetLastExpectStatus stat statmsk l =
     set_last ''RlinkCommandList::SetLastExpectStatus()'' (SetExpectStatus stat statmsk) l"

definition SetLastExpectData :: "u16 \<Rightarrow> u16 \<Rightarrow> clist \<Rightarrow> clist result" where
  "SetLastExpectData data datamsk l =
     set_last ''RlinkCommandList::SetLastExpectData()'' (upd_expect (ex_SetData data datamsk)) l"

definition SetLastExpectDone :: "u16 \<Rightarrow> clist \<Rightarrow> clist result" where
  "SetLastExpectDone done l =
     set_last ''RlinkCommandList::SetLastExpectDone()'' (upd_expect (ex_SetDone done True)) l"

definition SetLastExpectBlock :: "u16 list \<Rightarrow> u16 list \<Rightarrow> clist \<Rightarrow> clist result" where
  "SetLastExpectBlock block blockmsk l =
     set_last ''RlinkCommandList::SetLastExpectBlock()'' (upd_expect (ex_SetBlock block blockmsk)) l"

definition SetLastExpect :: "expect option \<Rightarrow> clist \<Rightarrow> clist result" where
  "SetLastExpect upexp l = set_last ''RlinkCommandList::SetLastExpect()'' (SetExpect upexp) l"

definition cl_Clear :: "clist \<Rightarrow> clist" where
  "cl_Clear l = l\<lparr>cl_fList := [], cl_fLaboIndex := - 1\<rparr>"

text \<open>The assignment operator; \<open>self\<close> says that both sides are the same object.\<close>

definition cl_assign :: "bool \<Rightarrow> clist \<Rightarrow> clist \<Rightarrow> clist" where
  "cl_assign self rhs l =
     (if self then l
      else (fold (\<lambda>c l. snd (cl_AddCommandCopy c l)) (cl_fList rhs) (l\<lparr>cl_fList := []\<rparr>))
             \<lparr>cl_fLaboIndex := cl_fLaboIndex rhs\<rparr>)"

text \<open>\<open>vector::at\<close> throws \<open>std::out_of_range\<close>.\<close>

definition cl_at :: "nat \<Rightarrow> clist \<Rightarrow> command result" where
  "cl_at ind l =
     (if ind < length (cl_fList l) then Inr (cl_fList l ! ind)
      else Inl (Rexception ''vector::_M_range_check'' ''out_of_range''))"

text \<open>A change made through the reference that \<open>operator[]\<close> returned.\<close>

definition cl_put :: "nat \<Rightarrow> command \<Rightarrow> clist \<Rightarrow> clist" where
  "cl_put ind c l = l\<lparr>cl_fList := (cl_fList l)[ind := c]\<rparr>"

definition SetLaboIndex :: "int \<Rightarrow> clist \<Rightarrow> clist" where
  "SetLaboIndex ind l = l\<lparr>cl_fLaboIndex := ind\<rparr>"

definition ClearLaboIndex :: "clist \<Rightarrow> clist" where
  "ClearLaboIndex l = l\<lparr>cl_fLaboIndex := - 1\<rparr>"

definition LaboActive :: "clist \<Rightarrow> bool" where
  "LaboActive l = (cl_fLaboIndex l \<ge> 0)"

definition cl_Size :: "clist \<Rightarrow> nat" where
  "cl_Size l = length (cl_fList l)"

section \<open>Lemmas\<close>

lemma fold_AddCommand:
  "fold (\<lambda>c l. snd (cl_AddCommandCopy c l)) cs l = l\<lparr>cl_fList := cl_fList l @ cs\<rparr>"
  by (induction cs arbitrary: l) (simp_all add: cl_AddCommand_def cl_AddCommandCopy_def)

lemma cl_AddCommandList_eq:
  "cl_AddCommandList cl l = (length (cl_fList l), l\<lparr>cl_fList := cl_fList l @ cl_fList cl\<rparr>)"
  by (simp add: cl_AddCommandList_def fold_AddCommand)

lemma cl_assign_eq: "cl_assign False rhs l = rhs"
  by (simp add: cl_assign_def fold_AddCommand)

lemma cl_at_put:
  "cl_at i (cl_put j c l) = (if i = j \<and> i < length (cl_fList l) then Inr c else cl_at i l)"
  by (simp add: cl_at_def cl_put_def)

text \<open>What the transport needs of every command of a list.\<close>

definition wf_clist :: "clist \<Rightarrow> bool" where
  "wf_clist l \<longleftrightarrow> list_all (\<lambda>c. wf_cmd c \<and> TestFlagAny kFlagInit c) (cl_fList l)"

text \<open>What holds of every command of a list. \<open>raw\<close> says that the client also uses commands of its own, of which less is known.\<close>

definition cmd_fit :: "bool \<Rightarrow> command \<Rightarrow> bool" where
  "cmd_fit raw c \<longleftrightarrow>
     Command c \<le> kCmdInit \<and> BlockSize c \<le> 65535 \<and> BlockSize c \<le> length (BlockPointer c) \<and> (raw \<or> wf_cmd c \<and> TestFlagAny kFlagInit c)"

definition cl_fit :: "bool \<Rightarrow> clist \<Rightarrow> bool" where
  "cl_fit raw l \<longleftrightarrow> list_all (cmd_fit raw) (cl_fList l) \<and> (raw \<or> cl_fLaboIndex l = - 1)"

lemma wf_cmd_fit: "wf_cmd c \<Longrightarrow> TestFlagAny kFlagInit c \<Longrightarrow> cmd_fit raw c"
  by (simp add: cmd_fit_def wf_cmd_def)

lemma cl_fit_wf: "cl_fit False l \<Longrightarrow> wf_clist l"
  by (auto simp: cl_fit_def cmd_fit_def wf_clist_def list_all_iff)

lemma cl_fit_add: "cmd_fit raw c \<Longrightarrow> cl_fit raw l \<Longrightarrow> cl_fit raw (snd (cl_AddCommand c l))"
  by (simp add: cl_fit_def cl_AddCommand_def)

text \<open>The contract that all the append functions share: on success the index of the new command
  is returned, it is at the end of the list and ready to be sent, and the rest of the list is as before.\<close>

locale cl_append =
  fixes add :: "clist \<Rightarrow> (nat \<times> clist) result" and cmd :: "command result"
  assumes add_eq: "add l = ebind cmd (\<lambda>c. Inr (cl_AddCommand c l))"
    and cmd_ok: "cmd = Inr c \<Longrightarrow> wf_cmd c \<and> TestFlagAny kFlagInit c"
begin

lemma add_ok:
  "add l = Inr (ind, l') \<Longrightarrow>
     ind = cl_Size l \<and> cl_Size l' = Suc (cl_Size l) \<and> cmd = cl_at ind l' \<and>
     (\<forall>i < ind. cl_at i l' = cl_at i l) \<and> cl_fLaboIndex l' = cl_fLaboIndex l"
  by (auto simp: add_eq ebind_eq_Inr cl_AddCommand_def cl_Size_def cl_at_def nth_append)

lemma add_fit: "add l = Inr (ind, l') \<Longrightarrow> cl_fit raw l \<Longrightarrow> cl_fit raw l'"
  using cmd_ok wf_cmd_fit cl_fit_add by (fastforce simp: add_eq ebind_eq_Inr)

end

lemma cmd_reach_flag:
  "SetCommand k a d c = Inr c' \<Longrightarrow> TestFlagAny kFlagInit c'"
  by (auto simp: SetCommand_def TestFlagAny_def kFlagInit_def split: if_splits)

lemma blk_keeps_flag:
  "SetBlockRead n c = Inr c' \<or> SetBlockWrite b c = Inr c' \<or> SetBlockExt p n c = Inr c' \<Longrightarrow>
     TestFlagAny kFlagInit c' = TestFlagAny kFlagInit c"
  by (auto simp: SetBlockRead_def SetBlockWrite_def SetBlockExt_def TestFlagAny_def split: if_splits)

lemmas cmd_ready = cmd_reach_inv [THEN conjunct1] cmd_reach.intros

interpretation rreg: cl_append "cl_AddRreg a" "CmdRreg a cmd_new"
  by unfold_locales (auto simp: cl_AddRreg_def CmdRreg_def intro: cmd_reach_flag
      intro!: cmd_ready(1) cmd_reach.rreg [OF cmd_reach.new])

interpretation wreg: cl_append "cl_AddWreg a d" "CmdWreg a d cmd_new"
  by unfold_locales (auto simp: cl_AddWreg_def CmdWreg_def intro: cmd_reach_flag
      intro!: cmd_ready(1) cmd_reach.wreg [OF cmd_reach.new])

interpretation labo: cl_append cl_AddLabo "CmdLabo cmd_new"
  by unfold_locales (auto simp: cl_AddLabo_def CmdLabo_def intro: cmd_reach_flag
      intro!: cmd_ready(1) cmd_reach.labo [OF cmd_reach.new])

interpretation attn: cl_append cl_AddAttn "CmdAttn cmd_new"
  by unfold_locales (auto simp: cl_AddAttn_def CmdAttn_def intro: cmd_reach_flag
      intro!: cmd_ready(1) cmd_reach.attn [OF cmd_reach.new])

interpretation init: cl_append "cl_AddInit a d" "CmdInit a d cmd_new"
  by unfold_locales (auto simp: cl_AddInit_def CmdInit_def intro: cmd_reach_flag
      intro!: cmd_ready(1) cmd_reach.init [OF cmd_reach.new])

interpretation rblk: cl_append "cl_AddRblk a n" "CmdRblk a n cmd_new"
proof unfold_locales
  fix c assume c: "CmdRblk a n cmd_new = Inr c"
  then show "wf_cmd c \<and> TestFlagAny kFlagInit c"
    using cmd_ready(1) [OF cmd_reach.rblk [OF cmd_reach.new c]]
    using blk_keeps_flag cmd_reach_flag by (force simp: CmdRblk_def ebind_eq_Inr)
qed (simp add: cl_AddRblk_def)

interpretation wblk: cl_append "cl_AddWblk a b" "CmdWblk a b cmd_new"
proof unfold_locales
  fix c assume c: "CmdWblk a b cmd_new = Inr c"
  then show "wf_cmd c \<and> TestFlagAny kFlagInit c"
    using cmd_ready(1) [OF cmd_reach.wblk [OF cmd_reach.new c]]
    using blk_keeps_flag cmd_reach_flag by (force simp: CmdWblk_def ebind_eq_Inr)
qed (simp add: cl_AddWblk_def)

text \<open>A caller that passes a pointer has to pass a size within the buffer.\<close>

lemma AddRblkExt_fit:
  assumes "cl_AddRblkExt a (Some b) n l = Inr (ind, l')" and "n \<le> length b" and "cl_fit raw l"
  shows "cl_fit raw l'"
proof -
  from assms(1) obtain c where c: "CmdRblkExt a (Some b) n cmd_new = Inr c" and l: "l' = snd (cl_AddCommand c l)"
    by (auto simp: cl_AddRblkExt_def ebind_eq_Inr)
  from cmd_ready(1) [OF cmd_reach.rblk_ext [OF cmd_reach.new c assms(2)]] have "wf_cmd c" .
  moreover have "TestFlagAny kFlagInit c"
    using c blk_keeps_flag cmd_reach_flag by (force simp: CmdRblkExt_def ebind_eq_Inr)
  ultimately show ?thesis using assms(3) by (simp add: l cl_fit_add wf_cmd_fit)
qed

lemma AddWblkExt_fit:
  assumes "cl_AddWblkExt a (Some b) n l = Inr (ind, l')" and "n \<le> length b" and "cl_fit raw l"
  shows "cl_fit raw l'"
proof -
  from assms(1) obtain c where c: "CmdWblkExt a (Some b) n cmd_new = Inr c" and l: "l' = snd (cl_AddCommand c l)"
    by (auto simp: cl_AddWblkExt_def ebind_eq_Inr)
  from cmd_ready(1) [OF cmd_reach.wblk_ext [OF cmd_reach.new c assms(2)]] have "wf_cmd c" .
  moreover have "TestFlagAny kFlagInit c"
    using c blk_keeps_flag cmd_reach_flag by (force simp: CmdWblkExt_def ebind_eq_Inr)
  ultimately show ?thesis using assms(3) by (simp add: l cl_fit_add wf_cmd_fit)
qed

lemma upd_expect_eq: "upd_expect f c = SetExpect (Some (f (fst (EnsureExpect c)))) c"
  by (simp add: upd_expect_def EnsureExpect_def SetExpect_def Let_def)

lemma expect_fit [simp]:
  "cmd_fit raw (SetExpect x c) = cmd_fit raw c" "cmd_fit raw (SetExpectStatus t u c) = cmd_fit raw c" "cmd_fit raw (upd_expect f c) = cmd_fit raw c"
  by (simp_all add: cmd_fit_def TestFlagAny_def upd_expect_eq) (simp_all add: SetExpect_def SetExpectStatus_def)

lemma set_last_fit:
  assumes "set_last m f l = Inr l'" and "cl_fit raw l" and "\<And>c. cmd_fit raw (f c) = cmd_fit raw c"
  shows "cl_fit raw l'"
proof -
  from assms(1) have ne: "cl_fList l \<noteq> []"
    and l': "l' = l\<lparr>cl_fList := butlast (cl_fList l) @ [f (last (cl_fList l))]\<rparr>"
    by (auto simp: set_last_def split: if_splits)
  from ne assms(2) have "cl_fit raw (l\<lparr>cl_fList := butlast (cl_fList l) @ [last (cl_fList l)]\<rparr>)" by simp
  then show ?thesis using assms(3) by (simp add: cl_fit_def l')
qed

lemmas set_last_defs = SetLastExpectStatus_def SetLastExpectData_def SetLastExpectDone_def
  SetLastExpectBlock_def SetLastExpect_def

section \<open>Commands of a client\<close>

text \<open>The command objects that a client can make with the public functions of \<open>RlinkCommand\<close>. The command functions are a \<open>SetCommand\<close> and for a block a
  \<open>SetBlock\<close> function; the state in between stays when the second one throws, so that both are steps here. Block data may be changed through \<open>BlockPointer\<close>, and the
  owner of an external buffer may change it at any time. The caller has to pass a size within the external buffer and keep the buffer alive.\<close>

inductive cmd_any :: "command \<Rightarrow> bool" where
  new: "cmd_any cmd_new"
| command: "cmd_any c \<Longrightarrow> SetCommand k addr data c = Inr c' \<Longrightarrow> cmd_any c'"
| block_write: "cmd_any c \<Longrightarrow> SetBlockWrite block c = Inr c' \<Longrightarrow> cmd_any c'"
| block_read: "cmd_any c \<Longrightarrow> SetBlockRead siz c = Inr c' \<Longrightarrow> cmd_any c'"
| block_ext: "cmd_any c \<Longrightarrow> SetBlockExt (Some b) siz c = Inr c' \<Longrightarrow> siz \<le> length b \<Longrightarrow> cmd_any c'"
| block_data: "cmd_any c \<Longrightarrow> length bs = length (cmd_fBlock c) \<Longrightarrow> cmd_any (c\<lparr>cmd_fBlock := bs\<rparr>)"
| ext_data: "cmd_any c \<Longrightarrow> cmd_fpBlockExt c = Some b \<Longrightarrow> length bs = length b \<Longrightarrow> cmd_any (c\<lparr>cmd_fpBlockExt := Some bs\<rparr>)"
| seq: "cmd_any c \<Longrightarrow> cmd_any (SetSeqNumber q c)"
| address: "cmd_any c \<Longrightarrow> cmd_any (SetAddress addr c)"
| data: "cmd_any c \<Longrightarrow> cmd_any (SetData d c)"
| done_count: "cmd_any c \<Longrightarrow> cmd_any (SetBlockDone n c)"
| status: "cmd_any c \<Longrightarrow> cmd_any (SetStatus st c)"
| flag: "cmd_any c \<Longrightarrow> cmd_any (cmd_SetFlagBit m c)"
| unflag: "cmd_any c \<Longrightarrow> cmd_any (cmd_ClearFlagBit m c)"
| rcv_size: "cmd_any c \<Longrightarrow> cmd_any (SetRcvSize z c)"
| expect: "cmd_any c \<Longrightarrow> cmd_any (SetExpect x c)"
| ensure: "cmd_any c \<Longrightarrow> cmd_any (upd_expect f c)"
| expect_stat: "cmd_any c \<Longrightarrow> cmd_any (SetExpectStatus t u c)"
| expect_default: "cmd_any c \<Longrightarrow> cmd_any (SetExpectStatusDefault t u c)"
| assign: "cmd_any c \<Longrightarrow> cmd_any d \<Longrightarrow> cmd_any (cmd_assign self d c)"

lemma cmd_any_fit: "cmd_any c \<Longrightarrow> cmd_fit True c \<and> length (cmd_fBlock c) \<le> 65535"
proof (induction rule: cmd_any.induct)
  case (command c k addr data c')
  then show ?case by (auto dest!: wf_SetCommand simp: cmd_fit_def BlockSize_def BlockPointer_def HasBlockExt_def)
next
  case (assign c d self)
  then show ?case by (cases self) (simp_all, simp add: cmd_assign_def)
next
  case (seq c q)
  then show ?case by (simp add: cmd_fit_def)
qed (auto simp: cmd_fit_def cmd_new_def cmd_views cmd_setters SetBlockWrite_def SetBlockRead_def SetBlockExt_def upd_expect_eq rl_defs
    split: if_splits option.splits)

section \<open>Properties\<close>

text \<open>The lists that a client can build with the functions of the list. With \<open>raw\<close> it may also append commands of its own, change or replace a command
  through \<open>operator[]\<close>, and set the index of an active list abort. These are also the changes that the transport makes when the list is executed.\<close>

inductive cl_reach :: "bool \<Rightarrow> clist \<Rightarrow> bool" for raw where
  new: "cl_reach raw clist_new"
| add_rreg: "cl_reach raw l \<Longrightarrow> cl_AddRreg a l = Inr (i, l') \<Longrightarrow> cl_reach raw l'"
| add_wreg: "cl_reach raw l \<Longrightarrow> cl_AddWreg a d l = Inr (i, l') \<Longrightarrow> cl_reach raw l'"
| add_labo: "cl_reach raw l \<Longrightarrow> cl_AddLabo l = Inr (i, l') \<Longrightarrow> cl_reach raw l'"
| add_attn: "cl_reach raw l \<Longrightarrow> cl_AddAttn l = Inr (i, l') \<Longrightarrow> cl_reach raw l'"
| add_init: "cl_reach raw l \<Longrightarrow> cl_AddInit a d l = Inr (i, l') \<Longrightarrow> cl_reach raw l'"
| add_rblk: "cl_reach raw l \<Longrightarrow> cl_AddRblk a n l = Inr (i, l') \<Longrightarrow> cl_reach raw l'"
| add_wblk: "cl_reach raw l \<Longrightarrow> cl_AddWblk a b l = Inr (i, l') \<Longrightarrow> cl_reach raw l'"
| add_rblk_ext: "cl_reach raw l \<Longrightarrow> cl_AddRblkExt a (Some b) n l = Inr (i, l') \<Longrightarrow> n \<le> length b \<Longrightarrow> cl_reach raw l'"
| add_wblk_ext: "cl_reach raw l \<Longrightarrow> cl_AddWblkExt a (Some b) n l = Inr (i, l') \<Longrightarrow> n \<le> length b \<Longrightarrow> cl_reach raw l'"
| add_list: "cl_reach raw l \<Longrightarrow> cl_reach raw k \<Longrightarrow> cl_reach raw (snd (cl_AddCommandList k l))"
| expect_status: "cl_reach raw l \<Longrightarrow> SetLastExpectStatus s m l = Inr l' \<Longrightarrow> cl_reach raw l'"
| expect_data: "cl_reach raw l \<Longrightarrow> SetLastExpectData d m l = Inr l' \<Longrightarrow> cl_reach raw l'"
| expect_done: "cl_reach raw l \<Longrightarrow> SetLastExpectDone d l = Inr l' \<Longrightarrow> cl_reach raw l'"
| expect_block: "cl_reach raw l \<Longrightarrow> SetLastExpectBlock b bm l = Inr l' \<Longrightarrow> cl_reach raw l'"
| expect: "cl_reach raw l \<Longrightarrow> SetLastExpect e l = Inr l' \<Longrightarrow> cl_reach raw l'"
| clear: "cl_reach raw l \<Longrightarrow> cl_reach raw (cl_Clear l)"
| clear_labo: "cl_reach raw l \<Longrightarrow> cl_reach raw (ClearLaboIndex l)"
| assign: "cl_reach raw l \<Longrightarrow> cl_reach raw k \<Longrightarrow> cl_reach raw (cl_assign self k l)"
| add_command: "raw \<Longrightarrow> cl_reach raw l \<Longrightarrow> cmd_any c \<Longrightarrow> cl_reach raw (snd (cl_AddCommand c l))"
| add_copy: "raw \<Longrightarrow> cl_reach raw l \<Longrightarrow> cmd_any c \<Longrightarrow> cl_reach raw (snd (cl_AddCommandCopy c l))"
| put: "raw \<Longrightarrow> cl_reach raw l \<Longrightarrow> i < cl_Size l \<Longrightarrow> cmd_any c \<Longrightarrow> cl_reach raw (cl_put i c l)"
| set_labo: "raw \<Longrightarrow> cl_reach raw l \<Longrightarrow> cl_reach raw (SetLaboIndex n l)"

lemma cl_fit_index: "cl_fit raw clist_new" "cl_fit raw (cl_Clear l)" "cl_fit raw l \<Longrightarrow> cl_fit raw (ClearLaboIndex l)" "cl_fit True (SetLaboIndex n l) = cl_fit True l"
  by (simp_all add: cl_fit_def clist_new_def cl_Clear_def ClearLaboIndex_def SetLaboIndex_def)

lemma cl_reach_fit: "cl_reach raw l \<Longrightarrow> cl_fit raw l"
proof (induction rule: cl_reach.induct)
  case (add_list l k)
  then show ?case by (simp add: cl_AddCommandList_eq cl_fit_def)
next
  case (assign l k self)
  then show ?case by (cases self) (simp_all add: cl_assign_eq, simp add: cl_assign_def)
next
  case (put l i c)
  then show ?case using cmd_any_fit [of c] by (simp add: cl_fit_def cl_put_def cl_Size_def list_all_length nth_list_update)
next
  case (add_command l c)
  then show ?case using cmd_any_fit [of c] by (simp add: cl_fit_add)
next
  case (add_copy l c)
  then show ?case using cmd_any_fit [of c] by (simp add: cl_fit_add cl_AddCommandCopy_def)
qed (auto simp: set_last_defs cl_fit_index
    intro: rreg.add_fit wreg.add_fit labo.add_fit attn.add_fit init.add_fit rblk.add_fit wblk.add_fit AddRblkExt_fit AddWblkExt_fit elim!: set_last_fit)

text \<open>C34: Whatever a client does with the public functions of a command list and of its commands, every command in the list has a valid command code and a
  block of at most 65535 words within its buffer. As long as it only uses the functions of the list (appending, expected responses, clearing, copying), a block
  command also has at least one word, every command is marked as initialised, and no list abort is pending. With its own commands or through
  \<open>operator[]\<close> (\<open>raw\<close>) a client can have a block command without a block or a command that was never set up. Pointers are not null, and an external buffer is as
  long as the caller says.\<close>

theorem clist_ready:
  assumes "cl_reach raw l" and "i < cl_Size l"
  shows "\<exists>c. cl_at i l = Inr c \<and> Command c \<le> kCmdInit \<and> BlockSize c \<le> length (BlockPointer c) \<and> BlockSize c \<le> 65535 \<and>
     (\<not> raw \<longrightarrow> TestFlagAny kFlagInit c \<and> (Command c = kCmdRblk \<or> Command c = kCmdWblk \<longrightarrow> 0 < BlockSize c) \<and> \<not> LaboActive l)"
  using cl_reach_fit [OF assms(1)] assms(2)
  by (auto simp: cl_fit_def cmd_fit_def list_all_length cl_Size_def cl_at_def wf_cmd_def LaboActive_def)

text \<open>A list with a block read, and the same list when the client replaces the command by one of its own.\<close>

theorem clist_ready_witness:
  "case cl_AddRblk 0x100 4 clist_new of Inl e \<Rightarrow> False
   | Inr (i, l) \<Rightarrow> i = 0 \<and> cl_Size l = 1 \<and> (\<exists>c. cl_at 0 l = Inr c \<and> TestFlagAny kFlagInit c \<and> BlockSize c = 4) \<and>
      (\<exists>c. cl_at 0 (cl_put 0 (SetData 7 cmd_new) l) = Inr c \<and> \<not> TestFlagAny kFlagInit c \<and> BlockSize c \<le> length (BlockPointer c))"
proof -
  obtain l where l: "cl_AddRblk 0x100 4 clist_new = Inr (0, l)" and n: "cl_Size l = 1"
    and c: "\<And>c. cl_at 0 l = Inr c \<Longrightarrow> BlockSize c = 4"
    by (simp add: cl_AddRblk_def CmdRblk_def SetCommand_def SetBlockRead_def kCmdRblk_def kCmdInit_def
        cl_AddCommand_def clist_new_def cl_Size_def cl_at_def cmd_views cmd_new_def)
  have r: "cl_reach True (cl_put 0 (SetData 7 cmd_new) l)"
    using n by (intro cl_reach.put cl_reach.add_rblk [OF cl_reach.new l] cmd_any.data cmd_any.new) simp_all
  have s: "cl_Size (cl_put 0 (SetData 7 cmd_new) l) = 1" "cl_at 0 (cl_put 0 (SetData 7 cmd_new) l) = Inr (SetData 7 cmd_new)"
    "\<not> TestFlagAny kFlagInit (SetData 7 cmd_new)"
    using n by (simp_all add: cl_at_put cl_Size_def) (simp_all add: cl_put_def TestFlagAny_def SetData_def cmd_new_def)
  show ?thesis
    using clist_ready [where raw = False and i = 0, OF cl_reach.add_rblk [OF cl_reach.new l]] clist_ready [OF r, of 0] l n c s by auto
qed

text \<open>Attaching an expected response needs a command to attach it to, and touches nothing else:
  on an empty list every \<open>SetLastExpect\<close> function throws, on any other it succeeds, keeps the size
  and all commands before the last one, and leaves the request that will be sent alone.\<close>

theorem SetLastExpect_last_only:
  "(if cl_fList l = [] then
      SetLastExpectStatus st sm l = Inl (Rexception ''RlinkCommandList::SetLastExpectStatus()'' ''Bad state: list empty'') \<and>
      SetLastExpectData d dm l = Inl (Rexception ''RlinkCommandList::SetLastExpectData()'' ''Bad state: list empty'')
    else (\<exists>l1 l2. SetLastExpectStatus st sm l = Inr l1 \<and> SetLastExpectData d dm l1 = Inr l2 \<and>
      cl_Size l2 = cl_Size l \<and> butlast (cl_fList l2) = butlast (cl_fList l) \<and>
      map cmd_fRequest (cl_fList l2) = map cmd_fRequest (cl_fList l) \<and>
      (case cmd_fupExpect (last (cl_fList l2)) of None \<Rightarrow> False
       | Some e \<Rightarrow> DataIsChecked e = (dm \<noteq> 0) \<and>
           (case cmd_fupExpect (last (cl_fList l)) of None \<Rightarrow> ex_fBlockVal e = []
            | Some e0 \<Rightarrow> ex_fBlockVal e = ex_fBlockVal e0)) \<and>
      StatusIsChecked (last (cl_fList l2)) = (sm \<noteq> 0)))"
proof (cases "cl_fList l" rule: rev_cases)
  case (snoc cs c)
  then show ?thesis
    by (simp add: set_last_defs set_last_def cl_Size_def upd_expect_def EnsureExpect_def SetExpectStatus_def
        Let_def DataIsChecked_def StatusIsChecked_def ex_SetData_def expect_new_def split: option.split)
qed (simp add: set_last_defs set_last_def)

end
