(* ===== verification/RlinkAddrMap.thy ===== *)
theory RlinkAddrMap
  imports W11_Prelude
begin

text \<open>
  Class \<open>RlinkAddrMap\<close> of \<open>librlink\<close>: the two way dictionary between register names and rbus
  addresses. A \<open>std::map\<close> is an association list with distinct keys; the order of the entries is
  not observable in what is modelled. Both \<open>Erase\<close> functions read the found value through an
  iterator whose node was just erased, which C++ leaves undefined: the parameter \<open>dangling\<close> is
  what such a read yields for a given former value. The property states what holds if it is the old value,
  and what goes wrong if it is another one.
\<close>

section \<open>Model\<close>

record addrmap =
  am_fNameMap :: "(string \<times> u16) list"
  am_fAddrMap :: "(u16 \<times> string) list"
  am_fMaxLength :: nat

definition am_new :: addrmap where
  "am_new = \<lparr>am_fNameMap = [], am_fAddrMap = [], am_fMaxLength = 0\<rparr>"

definition am_Clear :: "addrmap \<Rightarrow> addrmap" where
  "am_Clear m = m\<lparr>am_fNameMap := [], am_fAddrMap := []\<rparr>"

definition am_Insert :: "string \<Rightarrow> u16 \<Rightarrow> addrmap \<Rightarrow> bool \<times> addrmap" where
  "am_Insert name addr m =
     (if map_of (am_fNameMap m) name \<noteq> None then (False, m)
      else if map_of (am_fAddrMap m) addr \<noteq> None then (False, m)
      else (True, m\<lparr>am_fNameMap := (name, addr) # am_fNameMap m,
              am_fAddrMap := (addr, name) # am_fAddrMap m,
              am_fMaxLength := max (am_fMaxLength m) (length name)\<rparr>))"

text \<open>\<open>std::map::erase\<close> by key: the number of erased entries and the new map.\<close>

definition map_erase :: "'k \<Rightarrow> ('k \<times> 'v) list \<Rightarrow> nat \<times> ('k \<times> 'v) list" where
  "map_erase k xs =
     (length (filter (\<lambda>e. fst e = k) xs), filter (\<lambda>e. fst e \<noteq> k) xs)"

definition am_EraseName :: "(u16 \<Rightarrow> u16) \<Rightarrow> string \<Rightarrow> addrmap \<Rightarrow> (bool \<times> addrmap) result" where
  "am_EraseName dangling name m =
     (case map_of (am_fNameMap m) name of
        None \<Rightarrow> Inr (False, m)
      | Some second \<Rightarrow>
          let m1 = m\<lparr>am_fMaxLength := 0\<rparr>;
              (n, nm) = map_erase name (am_fNameMap m1);
              m2 = m1\<lparr>am_fNameMap := nm\<rparr>
          in if n = 0 then
               Inl (Rexception ''RlinkAddrMap::Erase()'' ''BugCheck: fNameMap erase failed'')
             else
               let (k, am) = map_erase (dangling second) (am_fAddrMap m2)
               in if k = 0 then
                    Inl (Rexception ''RlinkAddrMap::Erase()'' ''BugCheck: fAddrMap erase failed'')
                  else Inr (True, m2\<lparr>am_fAddrMap := am\<rparr>))"

definition am_EraseAddr :: "(string \<Rightarrow> string) \<Rightarrow> u16 \<Rightarrow> addrmap \<Rightarrow> (bool \<times> addrmap) result" where
  "am_EraseAddr dangling addr m =
     (case map_of (am_fAddrMap m) addr of
        None \<Rightarrow> Inr (False, m)
      | Some second \<Rightarrow>
          let m1 = m\<lparr>am_fMaxLength := 0\<rparr>;
              (n, am) = map_erase addr (am_fAddrMap m1);
              m2 = m1\<lparr>am_fAddrMap := am\<rparr>
          in if n = 0 then
               Inl (Rexception ''RlinkAddrMap::Erase()'' ''BugCheck: fAddrMap erase failed'')
             else
               let (k, nm) = map_erase (dangling second) (am_fNameMap m2)
               in if k = 0 then
                    Inl (Rexception ''RlinkAddrMap::Erase()'' ''BugCheck: fNameMap erase failed'')
                  else Inr (True, m2\<lparr>am_fNameMap := nm\<rparr>))"

definition am_FindName :: "string \<Rightarrow> addrmap \<Rightarrow> u16 option" where
  "am_FindName name m = map_of (am_fNameMap m) name"

definition am_FindAddr :: "u16 \<Rightarrow> addrmap \<Rightarrow> string option" where
  "am_FindAddr addr m = map_of (am_fAddrMap m) addr"

definition am_MaxNameLength :: "addrmap \<Rightarrow> nat \<times> addrmap" where
  "am_MaxNameLength m =
     (let m1 = (if am_fMaxLength m = 0
                then m\<lparr>am_fMaxLength := fold (\<lambda>e n. max n (length (snd e))) (am_fAddrMap m) 0\<rparr>
                else m)
      in (am_fMaxLength m1, m1))"

section \<open>The two maps are inverse to each other\<close>

definition am_inv :: "addrmap \<Rightarrow> bool" where
  "am_inv m \<longleftrightarrow>
     distinct (map fst (am_fNameMap m)) \<and> distinct (map fst (am_fAddrMap m)) \<and>
     set (am_fAddrMap m) = (\<lambda>(n, a). (a, n)) ` set (am_fNameMap m)"

lemma am_inv_mem: "am_inv m \<Longrightarrow> (a, n) \<in> set (am_fAddrMap m) \<longleftrightarrow> (n, a) \<in> set (am_fNameMap m)"
  by (force simp: am_inv_def)

lemma am_inv_find: "am_inv m \<Longrightarrow> am_FindName n m = Some a \<longleftrightarrow> am_FindAddr a m = Some n"
  using am_inv_mem [of m a n] by (simp add: am_FindName_def am_FindAddr_def am_inv_def)

lemma am_Insert_inv [rl_inv]:
  "am_inv m \<Longrightarrow> am_Insert n a m = (ok, m') \<Longrightarrow> am_inv m'"
  by (force simp: am_inv_def am_Insert_def map_of_eq_None_iff split: if_splits)

lemma am_Clear_inv [rl_inv]: "am_inv (am_Clear m)"
  by (simp add: am_inv_def am_Clear_def)

lemma am_MaxNameLength_inv [rl_inv]: "am_inv m \<Longrightarrow> am_inv (snd (am_MaxNameLength m))"
  by (simp add: am_inv_def am_MaxNameLength_def Let_def)

lemma distinct_map_fst_filter: "distinct (map fst xs) \<Longrightarrow> distinct (map fst (filter P xs))"
  by (induction xs) (auto simp: image_iff)

lemma map_erase_hit: "(k, v) \<in> set xs \<Longrightarrow> fst (map_erase k xs) \<noteq> 0"
  by (force simp: map_erase_def filter_empty_conv)

lemma map_of_erase: "map_of (snd (map_erase k xs)) = (map_of xs)(k := None)"
  by (induction xs) (auto simp: map_erase_def)

text \<open>Erasing the pair from both lists keeps the lists inverse to each other.\<close>

lemma am_inv_remove:
  assumes "am_inv m" and "(n, a) \<in> set (am_fNameMap m)"
  shows "am_inv (m\<lparr>am_fMaxLength := l, am_fNameMap := snd (map_erase n (am_fNameMap m)),
                  am_fAddrMap := snd (map_erase a (am_fAddrMap m))\<rparr>)"
proof -
  have dn: "distinct (map fst (am_fNameMap m))" and da: "distinct (map fst (am_fAddrMap m))"
    using assms(1) by (simp_all add: am_inv_def)
  have "n' = n \<longleftrightarrow> a' = a" if "(n', a') \<in> set (am_fNameMap m)" for n' a'
    using that assms dn da am_inv_mem [OF assms(1)] by (metis eq_key_imp_eq_value)
  then show ?thesis
    using assms(1) by (force simp: am_inv_def map_erase_def distinct_map_fst_filter)
qed

lemma am_EraseName_found:
  assumes "am_inv m" and "am_FindName n m = Some a" and "\<And>v. dangling v = v"
  shows "am_EraseName dangling n m = Inr (True, m\<lparr>am_fMaxLength := 0,
    am_fNameMap := snd (map_erase n (am_fNameMap m)), am_fAddrMap := snd (map_erase a (am_fAddrMap m))\<rparr>)"
proof -
  have mem: "(n, a) \<in> set (am_fNameMap m)" "(a, n) \<in> set (am_fAddrMap m)"
    using assms(2) am_inv_mem [OF assms(1)] by (auto simp: am_FindName_def dest: map_of_SomeD)
  show ?thesis
    using assms(2,3) map_erase_hit [OF mem(1)] map_erase_hit [OF mem(2)]
    by (simp add: am_EraseName_def am_FindName_def Let_def case_prod_beta)
qed

lemma am_EraseAddr_found:
  assumes "am_inv m" and "am_FindAddr a m = Some n" and "\<And>v. dangling v = v"
  shows "am_EraseAddr dangling a m = Inr (True, m\<lparr>am_fMaxLength := 0,
    am_fNameMap := snd (map_erase n (am_fNameMap m)), am_fAddrMap := snd (map_erase a (am_fAddrMap m))\<rparr>)"
proof -
  have mem: "(n, a) \<in> set (am_fNameMap m)" "(a, n) \<in> set (am_fAddrMap m)"
    using assms(2) am_inv_mem [OF assms(1)] by (auto simp: am_FindAddr_def dest: map_of_SomeD)
  show ?thesis
    using assms(2,3) map_erase_hit [OF mem(1)] map_erase_hit [OF mem(2)]
    by (cases m) (simp add: am_EraseAddr_def am_FindAddr_def Let_def case_prod_beta)
qed

lemma am_EraseName_inv [rl_inv]:
  assumes "am_inv m" and "am_EraseName dangling n m = Inr (ok, m')" and "\<And>v. dangling v = v"
  shows "am_inv m'"
proof (cases "am_FindName n m")
  case (Some a)
  then have "(n, a) \<in> set (am_fNameMap m)" by (simp add: am_FindName_def map_of_SomeD)
  with am_EraseName_found [OF assms(1) Some assms(3)] assms(1,2) am_inv_remove [of m n a 0]
  show ?thesis by simp
qed (use assms in \<open>auto simp: am_EraseName_def am_FindName_def\<close>)

lemma am_EraseAddr_inv [rl_inv]:
  assumes "am_inv m" and "am_EraseAddr dangling a m = Inr (ok, m')" and "\<And>v. dangling v = v"
  shows "am_inv m'"
proof (cases "am_FindAddr a m")
  case (Some n)
  then have "(n, a) \<in> set (am_fNameMap m)"
    using am_inv_mem [OF assms(1)] by (auto simp: am_FindAddr_def dest: map_of_SomeD)
  with am_EraseAddr_found [OF assms(1) Some assms(3)] assms(1,2) am_inv_remove [of m n a 0]
  show ?thesis by simp
qed (use assms in \<open>auto simp: am_EraseAddr_def am_FindAddr_def\<close>)

section \<open>The dictionary as an interface\<close>

text \<open>What the clients of the address map rely on: a partial function from names to addresses
  that stays injective, with insertion of fresh pairs and removal by name or by address.\<close>

locale name_dict =
  fixes inv :: "'m \<Rightarrow> bool" and find :: "string \<Rightarrow> 'm \<Rightarrow> u16 option"
    and rfind :: "u16 \<Rightarrow> 'm \<Rightarrow> string option" and ins :: "string \<Rightarrow> u16 \<Rightarrow> 'm \<Rightarrow> bool \<times> 'm"
  assumes rfind_find: "inv m \<Longrightarrow> find n m = Some a \<longleftrightarrow> rfind a m = Some n"
    and ins_inv: "inv m \<Longrightarrow> inv (snd (ins n a m))"
    and ins_ok: "inv m \<Longrightarrow> fst (ins n a m) \<longleftrightarrow> find n m = None \<and> rfind a m = None"
    and ins_find: "inv m \<Longrightarrow>
      find k (snd (ins n a m)) = (if k = n \<and> fst (ins n a m) then Some a else find k m)"
begin

lemma find_inj: "inv m \<Longrightarrow> find n m = Some a \<Longrightarrow> find n' m = Some a \<Longrightarrow> n = n'"
  using rfind_find by (metis option.inject)

lemma ins_rfind:
  assumes "inv m"
  shows "rfind b (snd (ins n a m)) = (if b = a \<and> fst (ins n a m) then Some n else rfind b m)"
proof -
  have "rfind b (snd (ins n a m)) = Some k \<longleftrightarrow>
      (if b = a \<and> fst (ins n a m) then Some n else rfind b m) = Some k" for k
    using assms rfind_find [OF ins_inv [OF assms], of k n a b] rfind_find [OF assms, of k b]
      rfind_find [OF assms, of n b] ins_find [OF assms, of k n a] ins_ok [OF assms, of n a]
    by (cases "fst (ins n a m)") (auto split: if_splits)
  then show ?thesis by (metis option.exhaust)
qed

lemma ins_frozen: "inv m \<Longrightarrow> find n m = Some a \<Longrightarrow> find n (snd (ins k b m)) = Some a"
  using ins_find [of m n k b] ins_ok [of m k b] by auto

end

interpretation ad: name_dict am_inv am_FindName am_FindAddr am_Insert
proof unfold_locales
  show "am_inv (snd (am_Insert n a m))" if "am_inv m" for n a m
    using that am_Insert_inv by (metis prod.collapse)
  show "am_FindName n m = Some a \<longleftrightarrow> am_FindAddr a m = Some n" if "am_inv m" for n a m
    using that by (rule am_inv_find)
qed (auto simp: am_Insert_def am_FindName_def am_FindAddr_def)

section \<open>Properties\<close>

text \<open>The histories of an address map; \<open>dn\<close> and \<open>da\<close> say what the reads of erased entries yield.\<close>

inductive am_reach :: "(u16 \<Rightarrow> u16) \<Rightarrow> (string \<Rightarrow> string) \<Rightarrow> addrmap \<Rightarrow> bool" for dn da where
  new: "am_reach dn da am_new"
| clear: "am_reach dn da m \<Longrightarrow> am_reach dn da (am_Clear m)"
| insert: "am_reach dn da m \<Longrightarrow> am_Insert n a m = (ok, m') \<Longrightarrow> am_reach dn da m'"
| erase_name: "am_reach dn da m \<Longrightarrow> am_EraseName dn n m = Inr (ok, m') \<Longrightarrow> am_reach dn da m'"
| erase_addr: "am_reach dn da m \<Longrightarrow> am_EraseAddr da a m = Inr (ok, m') \<Longrightarrow> am_reach dn da m'"
| maxlen: "am_reach dn da m \<Longrightarrow> am_reach dn da (snd (am_MaxNameLength m))"

lemma am_reach_inv:
  assumes "am_reach dn da m" and "\<And>v. dn v = v" and "\<And>v. da v = v"
  shows "am_inv m"
  using assms(1)
proof (induction rule: am_reach.induct)
  case new
  show ?case by (simp add: am_inv_def am_new_def)
qed (use assms(2,3) in \<open>auto intro: rl_inv\<close>)

text \<open>An erase whose read of the erased entry yields another value.\<close>

lemma am_EraseName_dangling:
  assumes "am_inv m" and "am_FindName n m = Some a" and "dn a \<noteq> a"
  shows "if am_FindAddr (dn a) m = None then am_EraseName dn n m = Inl (Rexception ''RlinkAddrMap::Erase()'' ''BugCheck: fAddrMap erase failed'')
    else \<exists>m'. am_EraseName dn n m = Inr (True, m') \<and> am_FindName n m' = None \<and> am_FindAddr a m' = Some n"
proof -
  have mem: "(n, a) \<in> set (am_fNameMap m)"
    using assms(2) by (auto simp: am_FindName_def dest: map_of_SomeD)
  have ad: "map_of (am_fAddrMap m) a = Some n"
    using am_inv_find [OF assms(1)] assms(2) by (simp add: am_FindAddr_def)
  let ?n = "map_erase n (am_fNameMap m)" and ?a = "map_erase (dn a) (am_fAddrMap m)"
  have e: "am_EraseName dn n m = (if fst ?a = 0 then Inl (Rexception ''RlinkAddrMap::Erase()'' ''BugCheck: fAddrMap erase failed'')
      else Inr (True, m\<lparr>am_fMaxLength := 0, am_fNameMap := snd ?n, am_fAddrMap := snd ?a\<rparr>))"
    using assms(2) map_erase_hit [OF mem] by (simp add: am_EraseName_def am_FindName_def Let_def case_prod_beta)
  have z: "fst ?a = 0 \<longleftrightarrow> am_FindAddr (dn a) m = None"
    by (force simp: map_erase_def am_FindAddr_def map_of_eq_None_iff filter_empty_conv)
  show ?thesis
  proof (cases "am_FindAddr (dn a) m = None")
    case True
    then show ?thesis
      using e z by simp
  next
    case False
    then show ?thesis
      using e z ad assms(3) by (simp add: am_FindName_def am_FindAddr_def map_of_erase)
  qed
qed

text \<open>C35: In every address map that the operations can build, names and addresses are in a
  one to one correspondence: looking a name up gives an address exactly when looking the address
  up gives the name, and the erase functions remove exactly the pair, without an exception. All this holds under an assumption that C++ does
  not give: both erase functions read an entry that they have just erased, and the read has to yield the old value (\<open>dn\<close> and \<open>da\<close>).
  If the read yields any other value then erasing a name that is in the map throws the bug check exception, or it leaves an address whose name is gone.\<close>

theorem addrmap_bijection:
  assumes "am_reach dn da m" and dn: "\<And>v. dn v = v" and da: "\<And>v. da v = v"
  shows "(am_FindName n m = Some a \<longleftrightarrow> am_FindAddr a m = Some n) \<and>
    (\<exists>m'. am_EraseName dn n m = Inr (am_FindName n m \<noteq> None, m') \<and>
          (\<forall>k. am_FindName k m' = (if k = n then None else am_FindName k m))) \<and>
    (\<exists>m'. am_EraseAddr da a m = Inr (am_FindAddr a m \<noteq> None, m') \<and>
          (\<forall>b. am_FindAddr b m' = (if b = a then None else am_FindAddr b m))) \<and>
    (\<forall>dn' b. am_FindName n m = Some b \<longrightarrow> dn' b \<noteq> b \<longrightarrow>
       (if am_FindAddr (dn' b) m = None then am_EraseName dn' n m = Inl (Rexception ''RlinkAddrMap::Erase()'' ''BugCheck: fAddrMap erase failed'')
        else \<exists>m'. am_EraseName dn' n m = Inr (True, m') \<and> am_FindName n m' = None \<and> am_FindAddr b m' = Some n))"
proof -
  note inv = am_reach_inv [OF assms]
  have "\<exists>m'. am_EraseName dn n m = Inr (am_FindName n m \<noteq> None, m') \<and>
          (\<forall>k. am_FindName k m' = (if k = n then None else am_FindName k m))"
  proof (cases "am_FindName n m")
    case (Some b)
    from am_EraseName_found [OF inv Some dn] show ?thesis
      using Some by (simp add: am_FindName_def map_of_erase)
  qed (auto simp: am_EraseName_def am_FindName_def)
  moreover have "\<exists>m'. am_EraseAddr da a m = Inr (am_FindAddr a m \<noteq> None, m') \<and>
          (\<forall>b. am_FindAddr b m' = (if b = a then None else am_FindAddr b m))"
  proof (cases "am_FindAddr a m")
    case (Some k)
    from am_EraseAddr_found [OF inv Some da] show ?thesis
      using Some by (simp add: am_FindAddr_def map_of_erase)
  qed (auto simp: am_EraseAddr_def am_FindAddr_def)
  ultimately show ?thesis
    using am_inv_find [OF inv] am_EraseName_dangling [OF inv] by simp
qed

text \<open>A map with two names; a read that yields the other address removes the wrong entry.\<close>

theorem addrmap_bijection_witness:
  "\<exists>m. m = snd (am_Insert ''b'' 9 (snd (am_Insert ''a'' 7 am_new))) \<and> am_FindName ''a'' m = Some 7 \<and> am_FindAddr 7 m = Some ''a'' \<and>
     (\<exists>m'. am_EraseName id ''a'' m = Inr (True, m') \<and> am_FindName ''b'' m' = Some 9) \<and>
     (\<exists>m'. am_EraseName (\<lambda>_. 9) ''a'' m = Inr (True, m') \<and> am_FindName ''a'' m' = None \<and> am_FindAddr 7 m' = Some ''a'')"
proof -
  let ?m = "snd (am_Insert ''b'' 9 (snd (am_Insert ''a'' 7 am_new)))"
  have r: "am_reach id id ?m"
    by (rule am_reach.insert [OF am_reach.insert [OF am_reach.new]]) (rule surjective_pairing)+
  have f: "am_FindName ''a'' ?m = Some 7" "am_FindName ''b'' ?m = Some 9" "am_FindAddr 9 ?m \<noteq> None"
    by code_simp+
  note b = addrmap_bijection [OF r, of "''a''" 7, simplified]
  have "\<exists>m'. am_EraseName id ''a'' ?m = Inr (True, m') \<and> am_FindName ''b'' m' = Some 9"
    using b f(1,2) by auto
  moreover have "\<exists>m'. am_EraseName (\<lambda>_. 9) ''a'' ?m = Inr (True, m') \<and> am_FindName ''a'' m' = None \<and> am_FindAddr 7 m' = Some ''a''"
    using b [THEN conjunct2, THEN conjunct2, THEN conjunct2, rule_format, of 7 "\<lambda>_. 9"] f(1,3) by simp
  ultimately show ?thesis
    using b f(1) by blast
qed

text \<open>The cached maximal name length goes stale: after a long name was inserted, another name
  inserted and erased (the read of the erased entry yields the old value) and a short name inserted, \<open>MaxNameLength\<close> reports the length of the last
  insertion only, although the long name is still in the map. After \<open>Clear\<close> it still reports the
  length of a name that is gone.\<close>

theorem MaxNameLength_stale:
  "(let m1 = snd (am_Insert ''longname'' 1 am_new);
        m2 = snd (am_Insert ''x'' 2 m1)
    in case am_EraseName id ''x'' m2 of
         Inr (ok, m3) \<Rightarrow>
           let m4 = snd (am_Insert ''abc'' 3 m3)
           in am_FindName ''longname'' m4 = Some 1 \<and> fst (am_MaxNameLength m4) = 3
       | Inl e \<Rightarrow> False) \<and>
   fst (am_MaxNameLength (am_Clear (snd (am_Insert ''longname'' 1 am_new)))) = 8"
  by code_simp

end
