(* ===== verification/RlinkConnect.thy ===== *)
theory RlinkConnect
  imports RlinkReceiver RlinkCommandList RlinkAddrMap
begin

text \<open>
  Class \<open>RlinkConnect\<close> of \<open>librlink\<close>: the connection that turns a command list into one request
  packet, sends it, waits for the response packet and decodes it into the commands, and that
  collects the attention notifies which arrive in between. Of the server only the part that the
  connection sees is in its state: \<open>servsig\<close>. Log and error texts, the dumps and the mutex are left
  out. When an operation throws, the model gives the exception and no state. The clock is the one
  of the port; times are in nanoseconds.
\<close>

section \<open>State\<close>

record servsig =
  sv_active :: bool
  sv_inside :: bool
  sv_fAttnNotiPatt :: u16
  sv_wakeups :: nat

datatype conn_stat = kStatNExec | kStatNExecPart | kStatNCmd | kStatNRreg | kStatNRblk
  | kStatNWreg | kStatNWblk | kStatNLabo | kStatNAttn | kStatNInit | kStatNRblkWord | kStatNWblkWord
  | kStatNExpData | kStatNExpDone | kStatNExpStat | kStatNNoExpStat | kStatNChkData | kStatNChkDone
  | kStatNChkStat | kStatNSndOob | kStatNErrMiss | kStatNErrCmd | kStatNErrLen | kStatNErrCrc
  | kStatNErrNak

type_synonym cstats = "conn_stat \<Rightarrow> nat"

record connect =
  cn_fupPort :: "port option"
  cn_fLinkInitDone :: bool
  cn_fpServ :: "servsig option"
  cn_fSeqNumber :: "u8 list"
  cn_fSndPkt :: sndbuf
  cn_fRcvPkt :: rcvbuf
  cn_fContext :: rlcontext
  cn_fAddrMap :: addrmap
  cn_fStats :: cstats
  cn_fLogBaseAddr :: u32
  cn_fLogBaseData :: u32
  cn_fLogBaseStat :: u32
  cn_fPrintLevel :: u32
  cn_fDumpLevel :: u32
  cn_fTraceLevel :: u32
  cn_fTimeout :: int
  cn_fAttnNotiPatt :: u16
  cn_fTsLastAttnNoti :: int
  cn_fSysId :: u32
  cn_fUsrAcc :: u32
  cn_fRbufSize :: nat
  cn_fHasRbmon :: bool

definition kRbaddr_RLCNTL :: u16 where "kRbaddr_RLCNTL = 0xffff"
definition kRbaddr_RLSTAT :: u16 where "kRbaddr_RLSTAT = 0xfffe"
definition kRbaddr_RLID1 :: u16 where "kRbaddr_RLID1 = 0xfffd"
definition kRbaddr_RLID0 :: u16 where "kRbaddr_RLID0 = 0xfffc"
definition kRbaddr_RLUA1 :: u16 where "kRbaddr_RLUA1 = 0xfffb"
definition kRbaddr_RLUA0 :: u16 where "kRbaddr_RLUA0 = 0xfffa"
definition kRbaddr_RMBASE :: u16 where "kRbaddr_RMBASE = 0xffe8"
definition kRLSTAT_M_RBSize :: u16 where "kRLSTAT_M_RBSize = 0x0007"
definition kRbufBlkDelta :: nat where "kRbufBlkDelta = 16"
definition kRbufPrudentDelta :: nat where "kRbufPrudentDelta = 512"

definition staterr :: u8 where
  "staterr = kStat_M_RbTout OR kStat_M_RbNak OR kStat_M_RbErr"

text \<open>The constructor; \<open>raw\<close> is the uninitialised raw receive buffer.\<close>

definition connect_new :: "u8 list \<Rightarrow> connect" where
  "connect_new raw =
     \<lparr>cn_fupPort = None, cn_fLinkInitDone = False, cn_fpServ = None, cn_fSeqNumber = replicate 8 0,
      cn_fSndPkt = snd_new, cn_fRcvPkt = rcv_new raw, cn_fContext = cx_SetStatus 0 staterr context_new,
      cn_fAddrMap = am_new, cn_fStats = (\<lambda>_. 0), cn_fLogBaseAddr = 16, cn_fLogBaseData = 16,
      cn_fLogBaseStat = 16, cn_fPrintLevel = 2, cn_fDumpLevel = 0, cn_fTraceLevel = 0,
      cn_fTimeout = 10 * 10 ^ 9, cn_fAttnNotiPatt = 0, cn_fTsLastAttnNoti = 0,
      cn_fSysId = 0xffffffff, cn_fUsrAcc = 0, cn_fRbufSize = 2048, cn_fHasRbmon = False\<rparr>"

section \<open>Simple operations\<close>

definition HasPort :: "connect \<Rightarrow> bool" where
  "HasPort c = (cn_fupPort c \<noteq> None)"

definition IsOpen :: "connect \<Rightarrow> bool" where
  "IsOpen c = (case cn_fupPort c of None \<Rightarrow> False | Some p \<Rightarrow> po_fIsOpen p)"

text \<open>Using \<open>Port()\<close> without a port dereferences a null pointer.\<close>

definition Port :: "connect \<Rightarrow> port result" where
  "Port c = (case cn_fupPort c of None \<Rightarrow> Inl (MemFault ''fupPort'') | Some p \<Rightarrow> Inr p)"

definition ServerActive :: "connect \<Rightarrow> bool" where
  "ServerActive c = (case cn_fpServ c of None \<Rightarrow> False | Some v \<Rightarrow> sv_active v)"

definition ServerActiveInside :: "connect \<Rightarrow> bool" where
  "ServerActiveInside c = (case cn_fpServ c of None \<Rightarrow> False | Some v \<Rightarrow> sv_active v \<and> sv_inside v)"

definition ServerActiveOutside :: "connect \<Rightarrow> bool" where
  "ServerActiveOutside c = (case cn_fpServ c of None \<Rightarrow> False | Some v \<Rightarrow> sv_active v \<and> \<not> sv_inside v)"

definition sv_Wakeup :: "servsig \<Rightarrow> servsig" where
  "sv_Wakeup v = v\<lparr>sv_wakeups := sv_wakeups v + 1\<rparr>"

definition SignalAttnNotify :: "u16 \<Rightarrow> servsig \<Rightarrow> servsig" where
  "SignalAttnNotify apat v = sv_Wakeup (v\<lparr>sv_fAttnNotiPatt := sv_fAttnNotiPatt v OR apat\<rparr>)"

text \<open>\<open>Stop\<close> returns when the server thread has ended.\<close>

definition sv_Stop :: "servsig \<Rightarrow> servsig" where
  "sv_Stop v = (if \<not> sv_active v then v else (sv_Wakeup v)\<lparr>sv_active := False\<rparr>)"

definition cn_SetServer :: "servsig option \<Rightarrow> connect \<Rightarrow> connect" where
  "cn_SetServer v c = c\<lparr>cn_fpServ := v\<rparr>"

definition cn_inc :: "conn_stat \<Rightarrow> nat \<Rightarrow> connect \<Rightarrow> connect" where
  "cn_inc k n c = c\<lparr>cn_fStats := stat_inc k n (cn_fStats c)\<rparr>"

definition BlockSizeMax :: "connect \<Rightarrow> nat" where
  "BlockSizeMax c = size_sub (cn_fRbufSize c) kRbufBlkDelta div 2"

definition BlockSizePrudent :: "connect \<Rightarrow> nat" where
  "BlockSizePrudent c = size_sub (cn_fRbufSize c) kRbufPrudentDelta div 2"

definition SetLogBaseAddr :: "u32 \<Rightarrow> connect \<Rightarrow> connect result" where
  "SetLogBaseAddr base c =
     (if base \<noteq> 2 \<and> base \<noteq> 8 \<and> base \<noteq> 16
      then Inl (Rexception ''RlinkConnect::SetLogBaseAddr()'' ''Bad args: base != 2,8,16'')
      else Inr (c\<lparr>cn_fLogBaseAddr := base\<rparr>))"

definition SetLogBaseData :: "u32 \<Rightarrow> connect \<Rightarrow> connect result" where
  "SetLogBaseData base c =
     (if base \<noteq> 2 \<and> base \<noteq> 8 \<and> base \<noteq> 16
      then Inl (Rexception ''RlinkConnect::SetLogBaseData()'' ''Bad args: base != 2,8,16'')
      else Inr (c\<lparr>cn_fLogBaseData := base\<rparr>))"

definition SetLogBaseStat :: "u32 \<Rightarrow> connect \<Rightarrow> connect result" where
  "SetLogBaseStat base c =
     (if base \<noteq> 2 \<and> base \<noteq> 8 \<and> base \<noteq> 16
      then Inl (Rexception ''RlinkConnect::SetLogBaseStat()'' ''Bad args: base != 2,8,16'')
      else Inr (c\<lparr>cn_fLogBaseStat := base\<rparr>))"

definition SetPrintLevel :: "u32 \<Rightarrow> connect \<Rightarrow> connect" where
  "SetPrintLevel lvl c = c\<lparr>cn_fPrintLevel := lvl\<rparr>"

definition SetDumpLevel :: "u32 \<Rightarrow> connect \<Rightarrow> connect" where
  "SetDumpLevel lvl c = c\<lparr>cn_fDumpLevel := lvl\<rparr>"

definition SetTraceLevel :: "u32 \<Rightarrow> connect \<Rightarrow> connect" where
  "SetTraceLevel lvl c = c\<lparr>cn_fTraceLevel := lvl\<rparr>"

definition SetTimeout :: "int \<Rightarrow> connect \<Rightarrow> connect result" where
  "SetTimeout timeout c =
     (if timeout \<le> 0 then Inl (Rexception ''RlinkConnect::SetTimeout()'' ''Bad args: timeout <= 0'')
      else Inr (c\<lparr>cn_fTimeout := timeout\<rparr>))"

definition AddrMapInsert :: "string \<Rightarrow> u16 \<Rightarrow> connect \<Rightarrow> bool \<times> connect" where
  "AddrMapInsert name addr c =
     (let (ok, m) = am_Insert name addr (cn_fAddrMap c) in (ok, c\<lparr>cn_fAddrMap := m\<rparr>))"

definition AddrMapEraseName :: "(u16 \<Rightarrow> u16) \<Rightarrow> string \<Rightarrow> connect \<Rightarrow> (bool \<times> connect) result" where
  "AddrMapEraseName dangling name c =
     ebind (am_EraseName dangling name (cn_fAddrMap c)) (\<lambda>(ok, m). Inr (ok, c\<lparr>cn_fAddrMap := m\<rparr>))"

definition AddrMapEraseAddr :: "(string \<Rightarrow> string) \<Rightarrow> u16 \<Rightarrow> connect \<Rightarrow> (bool \<times> connect) result" where
  "AddrMapEraseAddr dangling addr c =
     ebind (am_EraseAddr dangling addr (cn_fAddrMap c)) (\<lambda>(ok, m). Inr (ok, c\<lparr>cn_fAddrMap := m\<rparr>))"

definition AddrMapClear :: "connect \<Rightarrow> connect" where
  "AddrMapClear c = c\<lparr>cn_fAddrMap := am_Clear (cn_fAddrMap c)\<rparr>"

definition BadPort :: "string \<Rightarrow> 'a result" where
  "BadPort meth = Inl (Rexception meth ''Bad state: port not open'')"

definition cn_SndOob :: "u16 \<Rightarrow> u16 \<Rightarrow> connect \<Rightarrow> (bool \<times> connect) result" where
  "cn_SndOob addr data c =
     (if \<not> IsOpen c then BadPort ''RlinkConnect::SndOob''
      else
        let c1 = cn_inc kStatNSndOob 1 c
        in ebind (Port c1) (\<lambda>p. ebind (SndOob p addr data (cn_fSndPkt c1)) (\<lambda>(ok, p', s').
             Inr (ok, c1\<lparr>cn_fupPort := Some p', cn_fSndPkt := s'\<rparr>))))"

definition cn_SndAttn :: "connect \<Rightarrow> (bool \<times> connect) result" where
  "cn_SndAttn c =
     (if \<not> IsOpen c then BadPort ''RlinkConnect::SndAttn''
      else ebind (Port c) (\<lambda>p. ebind (SndAttn p (cn_fSndPkt c)) (\<lambda>(ok, p', s').
             Inr (ok, c\<lparr>cn_fupPort := Some p', cn_fSndPkt := s'\<rparr>))))"

section \<open>Encoding a request\<close>

text \<open>The body of the loop for one command: what is put into the packet buffer after the request
  byte, and the size of the response. A block that is larger than its buffer is read past the end.\<close>

definition encode_body :: "command \<Rightarrow> sndbuf \<Rightarrow> cstats \<Rightarrow> (command \<times> sndbuf \<times> cstats) result" where
  "encode_body cmd s st =
     (let ccode = Command cmd; ndata = BlockSize cmd; pdata = BlockPointer cmd
      in if ccode = kCmdRreg then
           Inr (SetRcvSize (1 + 2 + 1 + 2) cmd, PutWithCrc16 (cmd_fAddress cmd) s, stat_inc kStatNRreg 1 st)
         else if ccode = kCmdRblk then
           Inr (SetRcvSize (1 + 2 + 2 * ndata + 2 + 1 + 2) cmd,
                PutWithCrc16 (of_nat ndata) (PutWithCrc16 (cmd_fAddress cmd) s),
                stat_inc kStatNRblkWord ndata (stat_inc kStatNRblk 1 st))
         else if ccode = kCmdWreg then
           Inr (SetRcvSize (1 + 1 + 2) cmd,
                PutWithCrc16 (cmd_fData cmd) (PutWithCrc16 (cmd_fAddress cmd) s), stat_inc kStatNWreg 1 st)
         else if ccode = kCmdWblk then
           (if length pdata < ndata then Inl (MemFault ''pdata'')
            else Inr (SetRcvSize (1 + 2 + 1 + 2) cmd,
                PutWithCrcBlk (take ndata pdata)
                  (PutCrc (PutWithCrc16 (of_nat ndata) (PutWithCrc16 (cmd_fAddress cmd) s))),
                stat_inc kStatNWblkWord ndata (stat_inc kStatNWblk 1 st)))
         else if ccode = kCmdLabo then Inr (SetRcvSize (1 + 1 + 1 + 2) cmd, s, stat_inc kStatNLabo 1 st)
         else if ccode = kCmdAttn then Inr (SetRcvSize (1 + 2 + 1 + 2) cmd, s, stat_inc kStatNAttn 1 st)
         else if ccode = kCmdInit then
           Inr (SetRcvSize (1 + 1 + 2) cmd,
                PutWithCrc16 (cmd_fData cmd) (PutWithCrc16 (cmd_fAddress cmd) s), stat_inc kStatNInit 1 st)
         else Inl (Rexception ''RlinkConnect::Exec()'' ''BugCheck: invalid command''))"

definition encode_one ::
  "command \<Rightarrow> u8 list \<Rightarrow> sndbuf \<Rightarrow> cstats \<Rightarrow> (command \<times> u8 list \<times> sndbuf \<times> cstats) result" where
  "encode_one cmd seq s st =
     (let k = unat (Command cmd);
          st1 = stat_inc kStatNCmd 1 st;
          cmd1 = cmd_ClearFlagBit (kFlagPktBeg OR kFlagPktEnd) (SetSeqNumber (seq ! k) cmd);
          seq1 = seq[k := seq ! k + 1];
          s1 = PutWithCrc8 (cmd_fRequest cmd1) s
      in ebind (encode_body cmd1 s1 st1) (\<lambda>(cmd2, s2, st2).
           Inr (cmd_SetFlagBit kFlagSend cmd2, seq1, PutCrc s2, st2)))"

text \<open>The loop over the commands \<open>i\<close> to \<open>iend\<close>; \<open>n\<close> is the number of commands left.\<close>

fun encode_loop :: "nat \<Rightarrow> nat \<Rightarrow> clist \<Rightarrow> u8 list \<Rightarrow> sndbuf \<Rightarrow> cstats
    \<Rightarrow> (clist \<times> u8 list \<times> sndbuf \<times> cstats) result" where
  "encode_loop 0 i l seq s st = Inr (l, seq, s, st)"
| "encode_loop (Suc n) i l seq s st =
     ebind (cl_at i l) (\<lambda>cmd. ebind (encode_one cmd seq s st) (\<lambda>(cmd', seq', s', st').
       encode_loop n (Suc i) (cl_put i cmd' l) seq' s' st'))"

definition set_flag_at :: "u32 \<Rightarrow> nat \<Rightarrow> clist \<Rightarrow> clist result" where
  "set_flag_at m i l = ebind (cl_at i l) (\<lambda>cmd. Inr (cl_put i (cmd_SetFlagBit m cmd) l))"

definition EncodeRequest :: "clist \<Rightarrow> nat \<Rightarrow> nat \<Rightarrow> connect \<Rightarrow> (clist \<times> connect) result" where
  "EncodeRequest l ibeg iend c =
     ebind (encode_loop (Suc iend - ibeg) ibeg l (cn_fSeqNumber c) (snd_Init (cn_fSndPkt c)) (cn_fStats c))
       (\<lambda>(l1, seq, s, st). ebind (set_flag_at kFlagPktBeg ibeg l1) (\<lambda>l2.
          ebind (set_flag_at kFlagPktEnd iend l2) (\<lambda>l3.
            Inr (l3, c\<lparr>cn_fSeqNumber := seq, cn_fSndPkt := s, cn_fStats := st\<rparr>))))"

section \<open>Decoding a response\<close>

text \<open>Received words go to the block of the command, internal or external.\<close>

definition put_block :: "u16 list \<Rightarrow> command \<Rightarrow> command" where
  "put_block ds cmd =
     (case cmd_fpBlockExt cmd of
        Some b \<Rightarrow> cmd\<lparr>cmd_fpBlockExt := Some (ds @ drop (length ds) b)\<rparr>
      | None \<Rightarrow> cmd\<lparr>cmd_fBlock := ds @ drop (length ds) (cmd_fBlock cmd)\<rparr>)"

text \<open>The \<open>switch\<close> over the command code; \<open>None\<close> is the length mismatch of a block read.\<close>

definition decode_body :: "command \<Rightarrow> rcvbuf \<Rightarrow> (command option \<times> rcvbuf) result" where
  "decode_body cmd r =
     (let ccode = Command cmd
      in if ccode = kCmdRreg \<or> ccode = kCmdAttn then
           ebind (GetWithCrc16 r) (\<lambda>(rdata, r1). Inr (Some (SetData rdata cmd), r1))
         else if ccode = kCmdRblk then
           ebind (GetWithCrc16 r) (\<lambda>(rdata, r1).
             if rdata \<noteq> of_nat (BlockSize cmd) then Inr (None, r1)
             else ebind (GetWithCrcBlk (BlockSize cmd) r1) (\<lambda>(ds, r2).
               if length (BlockPointer cmd) < BlockSize cmd then Inl (MemFault ''BlockPointer'')
               else ebind (GetWithCrc16 r2) (\<lambda>(rdata, r3).
                 Inr (Some (SetBlockDone rdata (put_block ds cmd)), r3))))
         else if ccode = kCmdWblk then
           ebind (GetWithCrc16 r) (\<lambda>(rdata, r1). Inr (Some (SetBlockDone rdata cmd), r1))
         else if ccode = kCmdLabo then
           ebind (GetWithCrc8 r) (\<lambda>(rdata8, r1). Inr (Some (SetData (ucast rdata8) cmd), r1))
         else Inr (Some cmd, r))"

text \<open>The checks of data, block and done count against the attached expect object, and the
  check of the status.\<close>

definition expect_check :: "command \<Rightarrow> cstats \<Rightarrow> (command \<times> cstats) result" where
  "expect_check cmd st =
     (case cmd_fupExpect cmd of
        None \<Rightarrow> Inr (cmd, st)
      | Some e \<Rightarrow>
          let ccode = Command cmd;
              isblk = (ccode = kCmdRblk \<or> ccode = kCmdWblk);
              st1 = (if isblk then
                       (let sta = (if length (ex_fBlockVal e) > 0 then stat_inc kStatNExpData 1 st else st)
                        in if DoneIsChecked e then stat_inc kStatNExpDone 1 sta else sta)
                     else if DataIsChecked e then stat_inc kStatNExpData 1 st else st)
          in ebind
               (if ccode = kCmdRreg \<or> ccode = kCmdLabo \<or> ccode = kCmdAttn then
                  Inr (if \<not> DataCheck (cmd_fData cmd) e
                       then (cmd_SetFlagBit kFlagChkData cmd, stat_inc kStatNChkData 1 st1) else (cmd, st1))
                else if ccode = kCmdRblk then
                  ebind (BlockCheckAll (BlockPointer cmd) (cmd_fBlockDone cmd) e) (\<lambda>nerr.
                    Inr (if nerr \<noteq> 0
                         then (cmd_SetFlagBit kFlagChkData cmd, stat_inc kStatNChkData 1 st1) else (cmd, st1)))
                else Inr (cmd, st1))
               (\<lambda>(cmd2, st2).
                  Inr (if isblk \<and> \<not> DoneCheck (of_nat (cmd_fBlockDone cmd2)) e
                       then (cmd_SetFlagBit kFlagChkDone cmd2, stat_inc kStatNChkDone 1 st2) else (cmd2, st2))))"

definition status_check :: "command \<Rightarrow> cstats \<Rightarrow> command \<times> cstats" where
  "status_check cmd st =
     (let st1 = (if cmd_fExpectStatusSet cmd then stat_inc kStatNExpStat 1 st else st);
          st2 = (if \<not> StatusIsChecked cmd then stat_inc kStatNNoExpStat 1 st1 else st1)
      in if \<not> StatusCheck cmd then (cmd_SetFlagBit kFlagChkStat cmd, stat_inc kStatNChkStat 1 st2)
         else (cmd, st2))"

text \<open>One command of the response, up to the end of the CRC check: \<open>Inl\<close> counter is a decoding
  error with the statistics counter it increments, \<open>Inr ()\<close> a good response.\<close>

definition decode_data :: "command \<Rightarrow> rcvbuf \<Rightarrow> ((conn_stat + unit) \<times> command \<times> rcvbuf) result" where
  "decode_data cmd r =
     (if CheckNak r then Inr (Inl kStatNErrNak, cmd_SetFlagBit kFlagErrNak cmd, r)
      else if \<not> CheckSize (cmd_fRcvSize cmd) r then
        Inr (Inl kStatNErrMiss, cmd_SetFlagBit kFlagErrDec cmd, r)
      else ebind (GetWithCrc8 r) (\<lambda>(rdata8, r1).
        if rdata8 \<noteq> cmd_fRequest cmd then Inr (Inl kStatNErrCmd, cmd_SetFlagBit kFlagErrDec cmd, r1)
        else ebind (decode_body cmd r1) (\<lambda>(cmdo, r2).
          case cmdo of
            None \<Rightarrow> Inr (Inl kStatNErrLen, cmd_SetFlagBit kFlagErrDec cmd, r2)
          | Some cmd2 \<Rightarrow>
              ebind (GetWithCrc8 r2) (\<lambda>(stat, r3).
                let cmd3 = SetStatus stat cmd2
                in ebind (CheckCrc r3) (\<lambda>(ok, r4).
                     if \<not> ok then Inr (Inl kStatNErrCrc, cmd_SetFlagBit kFlagErrDec cmd3, r4)
                     else Inr (Inr (), cmd_SetFlagBit kFlagDone cmd3, r4))))))"

text \<open>The loop; the result is \<open>-1\<close> or the number of commands.\<close>

fun decode_loop :: "nat \<Rightarrow> nat \<Rightarrow> nat \<Rightarrow> clist \<Rightarrow> rcvbuf \<Rightarrow> cstats
    \<Rightarrow> (int \<times> clist \<times> rcvbuf \<times> cstats) result" where
  "decode_loop 0 i ncmd l r st = Inr (int ncmd, l, r, st)"
| "decode_loop (Suc n) i ncmd l r st =
     ebind (cl_at i l) (\<lambda>cmd.
       if LaboActive l then
         decode_loop n (Suc i) (ncmd + 1) (cl_put i (cmd_SetFlagBit (kFlagDone OR kFlagLabo) cmd) l) r st
       else ebind (decode_data cmd r) (\<lambda>(res, cmd1, r1).
         case res of
           Inl k \<Rightarrow> Inr (- 1, cl_put i cmd1 l, r1, stat_inc k 1 st)
         | Inr u \<Rightarrow>
             let l1 = (if Command cmd = kCmdLabo \<and> cmd_fData cmd1 \<noteq> 0 then SetLaboIndex (int i) l else l)
             in ebind (expect_check cmd1 st) (\<lambda>(cmd2, st2).
                  let (cmd3, st3) = status_check cmd2 st2
                  in decode_loop n (Suc i) (ncmd + 1) (cl_put i cmd3 l1) r1 st3)))"

definition DecodeResponse :: "clist \<Rightarrow> nat \<Rightarrow> nat \<Rightarrow> connect \<Rightarrow> (int \<times> clist \<times> connect) result" where
  "DecodeResponse l ibeg iend c =
     ebind (decode_loop (Suc iend - ibeg) ibeg 0 l (cn_fRcvPkt c) (cn_fStats c)) (\<lambda>(ncmd, l', r, st).
       Inr (ncmd, l', c\<lparr>cn_fRcvPkt := r, cn_fStats := st\<rparr>))"

section \<open>Attention notifies\<close>

definition DecodeAttnNotify :: "connect \<Rightarrow> (bool \<times> u16 \<times> connect) result" where
  "DecodeAttnNotify c =
     (if \<not> CheckSize (2 + 2) (cn_fRcvPkt c) then Inr (False, 0, cn_inc kStatNErrMiss 1 c)
      else ebind (GetWithCrc16 (cn_fRcvPkt c)) (\<lambda>(apat, r1).
        ebind (CheckCrc r1) (\<lambda>(ok, r2).
          let c1 = c\<lparr>cn_fRcvPkt := r2\<rparr>
          in if \<not> ok then Inr (False, apat, cn_inc kStatNErrCrc 1 c1) else Inr (True, apat, c1))))"

definition cn_GetClock :: "connect \<Rightarrow> int \<times> connect" where
  "cn_GetClock c =
     (case cn_fupPort c of
        None \<Rightarrow> (0, c)
      | Some p \<Rightarrow> (let (t, p') = GetClock p in (t, c\<lparr>cn_fupPort := Some p'\<rparr>)))"

definition note_attn :: "u16 \<Rightarrow> connect \<Rightarrow> connect" where
  "note_attn apat c =
     (if ServerActive c then c\<lparr>cn_fpServ := map_option (SignalAttnNotify apat) (cn_fpServ c)\<rparr>
      else c\<lparr>cn_fAttnNotiPatt := cn_fAttnNotiPatt c OR apat\<rparr>)"

definition ProcessAttnNotify :: "connect \<Rightarrow> connect result" where
  "ProcessAttnNotify c =
     ebind (DecodeAttnNotify c) (\<lambda>(ok, apat, c1).
       let c2 = c1\<lparr>cn_fRcvPkt := AcceptPacket (cn_fRcvPkt c1)\<rparr>;
           c3 = (if ok \<and> apat \<noteq> 0 then note_attn apat c2 else c2)
       in Inr (if ok \<and> cn_fPrintLevel c3 = 3
               then (let (tnow, c4) = cn_GetClock c3 in c4\<lparr>cn_fTsLastAttnNoti := tnow\<rparr>) else c3))"

lemma GetWithCrc16_frame:
  "GetWithCrc16 r = Inr (d, r') \<Longrightarrow> rcv_fRawBufSize r' = rcv_fRawBufSize r \<and>
     rcv_fRawBufDone r' = rcv_fRawBufDone r \<and> rcv_fRawBuf r' = rcv_fRawBuf r \<and> rcv_fEscSeen r' = rcv_fEscSeen r"
  by (auto simp: GetWithCrc16_def Let_def split: if_splits)

lemma CheckCrc_frame:
  "CheckCrc r = Inr (ok, r') \<Longrightarrow> rcv_fRawBufSize r' = rcv_fRawBufSize r \<and>
     rcv_fRawBufDone r' = rcv_fRawBufDone r \<and> rcv_fRawBuf r' = rcv_fRawBuf r \<and> rcv_fEscSeen r' = rcv_fEscSeen r"
  by (auto simp: CheckCrc_def Let_def split: if_splits)

lemma cn_inc_sel [simp]:
  "cn_fRcvPkt (cn_inc k n c) = cn_fRcvPkt c" "cn_fupPort (cn_inc k n c) = cn_fupPort c"
  "cn_fpServ (cn_inc k n c) = cn_fpServ c" "cn_fAttnNotiPatt (cn_inc k n c) = cn_fAttnNotiPatt c"
  "cn_fPrintLevel (cn_inc k n c) = cn_fPrintLevel c" "cn_fSndPkt (cn_inc k n c) = cn_fSndPkt c"
  "cn_fSeqNumber (cn_inc k n c) = cn_fSeqNumber c" "cn_fTimeout (cn_inc k n c) = cn_fTimeout c"
  by (simp_all add: cn_inc_def)

lemma note_attn_sel [simp]:
  "cn_fRcvPkt (note_attn a c) = cn_fRcvPkt c" "cn_fupPort (note_attn a c) = cn_fupPort c"
  "cn_fPrintLevel (note_attn a c) = cn_fPrintLevel c"
  by (simp_all add: note_attn_def)

lemma cn_GetClock_sel [simp]:
  "cn_fRcvPkt (snd (cn_GetClock c)) = cn_fRcvPkt c"
  "cn_fpServ (snd (cn_GetClock c)) = cn_fpServ c"
  "cn_fAttnNotiPatt (snd (cn_GetClock c)) = cn_fAttnNotiPatt c"
  "map_option po_polls (cn_fupPort (snd (cn_GetClock c))) = map_option po_polls (cn_fupPort c)"
  by (simp_all add: cn_GetClock_def GetClock_def split: option.split)

lemma DecodeAttnNotify_raw:
  "DecodeAttnNotify c = Inr (ok, apat, c') \<Longrightarrow>
     rcv_fRawBufSize (cn_fRcvPkt c') = rcv_fRawBufSize (cn_fRcvPkt c) \<and>
     rcv_fRawBufDone (cn_fRcvPkt c') = rcv_fRawBufDone (cn_fRcvPkt c) \<and> cn_fupPort c' = cn_fupPort c"
  by (auto simp: DecodeAttnNotify_def ebind_eq_Inr Let_def dest!: GetWithCrc16_frame CheckCrc_frame
      split: if_splits)

lemma ProcessAttnNotify_raw:
  assumes "ProcessAttnNotify c = Inr c'"
  shows "rcv_fRawBufSize (cn_fRcvPkt c') = rcv_fRawBufSize (cn_fRcvPkt c) \<and>
     rcv_fRawBufDone (cn_fRcvPkt c') = rcv_fRawBufDone (cn_fRcvPkt c) \<and>
     rcv_fRcvState (cn_fRcvPkt c') = kRcvIdle \<and>
     map_option po_polls (cn_fupPort c') = map_option po_polls (cn_fupPort c)"
proof -
  from assms obtain ok apat c1 where d: "DecodeAttnNotify c = Inr (ok, apat, c1)"
    by (auto simp: ProcessAttnNotify_def ebind_eq_Inr)
  let ?c2 = "c1\<lparr>cn_fRcvPkt := AcceptPacket (cn_fRcvPkt c1)\<rparr>"
  let ?c3 = "if ok \<and> apat \<noteq> 0 then note_attn apat ?c2 else ?c2"
  have c': "cn_fRcvPkt c' = cn_fRcvPkt ?c3" "map_option po_polls (cn_fupPort c') = map_option po_polls (cn_fupPort ?c3)"
    using assms d cn_GetClock_sel [of ?c3]
    by (simp_all add: ProcessAttnNotify_def Let_def case_prod_beta split: if_splits) auto
  then show ?thesis using DecodeAttnNotify_raw [OF d] by (auto simp: AcceptPacket_def)
qed

text \<open>The measure of the loops \<open>while (fRcvPkt.ProcessData())\<close>: raw bytes still to be processed, and
  whether a complete packet is waiting to be accepted.\<close>

definition todo :: "connect \<Rightarrow> nat" where
  "todo c = 2 * (rcv_fRawBufSize (cn_fRcvPkt c) - rcv_fRawBufDone (cn_fRcvPkt c))
     + (if rcv_active (cn_fRcvPkt c) then 0 else 1)"

lemma brun_Done_less:
  "rcv_fRawBufDone s < rcv_fRawBufSize s \<Longrightarrow> rcv_active s \<Longrightarrow> rcv_fRawBufDone s < rcv_fRawBufDone (brun s)"
proof (induction s rule: rcv_pending_induct)
  case (step s)
  then show ?case
    using step.IH [of "bstep s"] brun.simps [of "bstep s"] by (auto simp: brun.simps [of s] diff_less_mono2)
qed

lemma brun_not_active: "\<not> rcv_active s \<Longrightarrow> brun s = s"
  by (simp add: brun.simps)

lemma brun_raw_less:
  "\<not> rcv_active (brun r) \<Longrightarrow>
     2 * (rcv_fRawBufSize r - rcv_fRawBufDone (brun r)) < 2 * (rcv_fRawBufSize r - rcv_fRawBufDone r)
       + (if rcv_active r then 0 else 1)"
  using brun_Done_less [of r]
  by (cases "rcv_active r"; cases "rcv_fRawBufDone r < rcv_fRawBufSize r")
    (auto simp: brun_not_active brun.simps [of r] intro: diff_less_mono2)

lemma pend_active: "PacketState r = kPktPend \<longleftrightarrow> rcv_active r"
  by (auto simp: PacketState_def rcv_active_def)

lemma todo_less:
  assumes "ProcessData (cn_fRcvPkt c) = Inr (True, r1)" and "PacketState r1 \<noteq> kPktPend"
    and "rcv_fRawBufSize (cn_fRcvPkt c') = rcv_fRawBufSize r1"
    and "rcv_fRawBufDone (cn_fRcvPkt c') = rcv_fRawBufDone r1"
    and "rcv_fRcvState (cn_fRcvPkt c') = kRcvIdle"
  shows "todo c' < todo c"
  using assms brun_raw_less [of "cn_fRcvPkt c"]
  by (auto simp: todo_def ProcessData_brun pend_active rcv_active_def)

section \<open>Reading packets\<close>

text \<open>Put a processed receive buffer back.\<close>

abbreviation with_rcv :: "rcvbuf \<Rightarrow> connect \<Rightarrow> connect" where
  "with_rcv r c \<equiv> c\<lparr>cn_fRcvPkt := r\<rparr>"

lemma todo_accept:
  "ProcessData (cn_fRcvPkt c) = Inr (True, r1) \<Longrightarrow> PacketState r1 \<noteq> kPktPend \<Longrightarrow>
     todo (with_rcv (AcceptPacket r1) c) < todo c"
  by (erule todo_less) (simp_all add: AcceptPacket_def)

lemma todo_attn:
  "ProcessData (cn_fRcvPkt c) = Inr (True, r1) \<Longrightarrow> PacketState r1 \<noteq> kPktPend \<Longrightarrow>
     ProcessAttnNotify (with_rcv r1 c) = Inr c' \<Longrightarrow> todo c' < todo c"
  by (drule ProcessAttnNotify_raw) (erule todo_less; simp)

function unsolicited_loop :: "connect \<Rightarrow> connect result" where
  "unsolicited_loop c =
     (case ProcessData (cn_fRcvPkt c) of
        Inl e \<Rightarrow> Inl e
      | Inr (b, r1) \<Rightarrow>
          let c1 = with_rcv r1 c
          in if \<not> b then Inr c1
             else if PacketState r1 = kPktPend then Inr c1
             else if PacketState r1 = kPktAttn then
               (case ProcessAttnNotify c1 of Inl e \<Rightarrow> Inl e | Inr c2 \<Rightarrow> unsolicited_loop c2)
             else unsolicited_loop (with_rcv (AcceptPacket r1) c1))"
  by pat_completeness auto
termination
  by (relation "measure todo") (auto intro: todo_attn todo_accept)

definition ProcessUnsolicitedData :: "connect \<Rightarrow> connect result" where
  "ProcessUnsolicitedData c = unsolicited_loop c"

text \<open>The inner loop of \<open>ReadResponse\<close>: \<open>True\<close> when a response packet is complete.\<close>

function response_loop :: "connect \<Rightarrow> (bool \<times> connect) result" where
  "response_loop c =
     (case ProcessData (cn_fRcvPkt c) of
        Inl e \<Rightarrow> Inl e
      | Inr (b, r1) \<Rightarrow>
          let c1 = with_rcv r1 c
          in if \<not> b then Inr (False, c1)
             else if PacketState r1 = kPktPend then Inr (False, c1)
             else if PacketState r1 = kPktAttn then
               (case ProcessAttnNotify c1 of Inl e \<Rightarrow> Inl e | Inr c2 \<Rightarrow> response_loop c2)
             else if PacketState r1 = kPktResp then Inr (True, c1)
             else response_loop (with_rcv (AcceptPacket r1) c1))"
  by pat_completeness auto
termination
  by (relation "measure todo") (auto intro: todo_attn todo_accept)

text \<open>The inner loop of \<open>WaitAttn\<close>: \<open>True\<close> when there is an attention pattern.\<close>

function attn_loop :: "connect \<Rightarrow> (bool \<times> connect) result" where
  "attn_loop c =
     (case ProcessData (cn_fRcvPkt c) of
        Inl e \<Rightarrow> Inl e
      | Inr (b, r1) \<Rightarrow>
          let c1 = with_rcv r1 c
          in if \<not> b then Inr (False, c1)
             else if PacketState r1 = kPktPend then Inr (False, c1)
             else if PacketState r1 = kPktAttn then
               (case ProcessAttnNotify c1 of
                  Inl e \<Rightarrow> Inl e
                | Inr c2 \<Rightarrow> if cn_fAttnNotiPatt c2 \<noteq> 0 then Inr (True, c2) else attn_loop c2)
             else attn_loop (with_rcv (AcceptPacket r1) c1))"
  by pat_completeness auto
termination
  by (relation "measure todo") (auto intro: todo_attn todo_accept)

declare unsolicited_loop.simps [simp del] response_loop.simps [simp del] attn_loop.simps [simp del]

definition polls :: "connect \<Rightarrow> nat" where
  "polls c = (case cn_fupPort c of None \<Rightarrow> 0 | Some p \<Rightarrow> length (po_polls p))"

lemma polls_cong: "map_option po_polls (cn_fupPort c) = map_option po_polls (cn_fupPort c') \<Longrightarrow> polls c = polls c'"
  by (auto simp: polls_def map_option_case split: option.splits)

lemma polls_with_rcv [simp]: "polls (with_rcv r c) = polls c"
  by (simp add: polls_def)

lemma todo_induct [case_names step]:
  assumes "\<And>c. (\<And>d. todo d < todo c \<Longrightarrow> P d) \<Longrightarrow> P c"
  shows "P c"
  by (rule measure_induct_rule [where f = todo]) (rule assms)

text \<open>The port up to the number of clock readings.\<close>

definition port_view :: "connect \<Rightarrow> port option" where
  "port_view c = map_option (\<lambda>p. p\<lparr>po_tick := 0\<rparr>) (cn_fupPort c)"

lemma port_view_polls: "port_view c = port_view c' \<Longrightarrow> polls c = polls c'"
proof -
  assume "port_view c = port_view c'"
  then have "map_option po_polls (port_view c) = map_option po_polls (port_view c')" by simp
  then have "map_option po_polls (cn_fupPort c) = map_option po_polls (cn_fupPort c')"
    by (simp add: port_view_def option.map_comp comp_def)
  then show ?thesis by (rule polls_cong)
qed

lemma port_view_sel [simp]:
  "port_view (with_rcv r c) = port_view c" "port_view (snd (cn_GetClock c)) = port_view c"
  "port_view (cn_inc k n c) = port_view c" "port_view (note_attn a c) = port_view c"
  by (simp_all add: port_view_def cn_GetClock_def GetClock_def cn_inc_def split: option.split)

text \<open>What handling a complete packet in one of the loops does: it returns or it goes on with
  an idle receiver and the raw buffer and the port as they were.\<close>

definition pkt_next :: "connect \<Rightarrow> connect \<Rightarrow> bool" where
  "pkt_next c c' \<longleftrightarrow>
     rcv_fRawBufSize (cn_fRcvPkt c') = rcv_fRawBufSize (cn_fRcvPkt c) \<and>
     rcv_fRawBufDone (cn_fRcvPkt c') = rcv_fRawBufDone (cn_fRcvPkt c) \<and>
     rcv_fRawBuf (cn_fRcvPkt c') = rcv_fRawBuf (cn_fRcvPkt c) \<and>
     rcv_fEscSeen (cn_fRcvPkt c') = rcv_fEscSeen (cn_fRcvPkt c) \<and> port_view c' = port_view c \<and>
     (rcv_inv (cn_fRcvPkt c) \<longrightarrow> rcv_inv (cn_fRcvPkt c'))"

locale pkt_loop =
  fixes loop :: "connect \<Rightarrow> 'a result" and idle :: "connect \<Rightarrow> 'a" and out :: "'a \<Rightarrow> connect"
    and pkt :: "pkt_state \<Rightarrow> connect \<Rightarrow> ('a + connect) result"
  assumes loop_unfold: "loop c =
      (case ProcessData (cn_fRcvPkt c) of
         Inl e \<Rightarrow> Inl e
       | Inr (b, r1) \<Rightarrow>
           if \<not> b \<or> PacketState r1 = kPktPend then Inr (idle (with_rcv r1 c))
           else (case pkt (PacketState r1) (with_rcv r1 c) of
                   Inl e \<Rightarrow> Inl e
                 | Inr (Inl y) \<Rightarrow> Inr y
                 | Inr (Inr c2) \<Rightarrow> loop c2))"
    and out_idle: "out (idle c) = c"
    and pkt_return: "pkt st c = Inr (Inl y) \<Longrightarrow> pkt_next c (out y)"
    and pkt_continue: "pkt st c = Inr (Inr c2) \<Longrightarrow> pkt_next c c2 \<and> rcv_fRcvState (cn_fRcvPkt c2) = kRcvIdle"
    and pkt_total: "rcv_inv (cn_fRcvPkt c) \<Longrightarrow> PacketState (cn_fRcvPkt c) = st \<Longrightarrow> \<exists>x. pkt st c = Inr x"
begin

lemma continue_less:
  "ProcessData (cn_fRcvPkt c) = Inr (True, r1) \<Longrightarrow> PacketState r1 \<noteq> kPktPend \<Longrightarrow>
     pkt st (with_rcv r1 c) = Inr (Inr c2) \<Longrightarrow> todo c2 < todo c"
  by (drule pkt_continue) (erule todo_less; simp add: pkt_next_def)

lemma loop_port: "loop c = Inr y \<Longrightarrow> port_view (out y) = port_view c"
proof (induction c rule: todo_induct)
  case (step c)
  obtain b r1 where pd: "ProcessData (cn_fRcvPkt c) = Inr (b, r1)" by (simp add: ProcessData_brun)
  show ?case
  proof (cases "\<not> b \<or> PacketState r1 = kPktPend")
    case True
    with pd step.prems show ?thesis by (auto simp: loop_unfold [of c] out_idle)
  next
    case False
    with pd step.prems consider "pkt (PacketState r1) (with_rcv r1 c) = Inr (Inl y)"
      | c2 where "pkt (PacketState r1) (with_rcv r1 c) = Inr (Inr c2)" "loop c2 = Inr y"
      by (auto simp: loop_unfold [of c] split: sum.splits)
    then show ?thesis
    proof cases
      case 1
      from pkt_return [OF this] show ?thesis by (simp add: pkt_next_def)
    next
      case 2
      from 2(1) pd False have "todo c2 < todo c" by (auto intro: continue_less)
      from step.IH [OF this 2(2)] pkt_continue [OF 2(1)] show ?thesis by (simp add: pkt_next_def)
    qed
  qed
qed

lemma loop_polls: "loop c = Inr y \<Longrightarrow> polls (out y) = polls c"
  by (rule port_view_polls) (rule loop_port)

text \<open>On a good receive buffer the loops end without an exception and with a good buffer.\<close>

lemma loop_total:
  "rcv_inv (cn_fRcvPkt c) \<Longrightarrow> \<exists>y. loop c = Inr y \<and> rcv_inv (cn_fRcvPkt (out y))"
proof (induction c rule: todo_induct)
  case (step c)
  obtain b r1 where pd: "ProcessData (cn_fRcvPkt c) = Inr (b, r1)" and r1: "r1 = brun (cn_fRcvPkt c)"
    by (simp add: ProcessData_brun)
  from step.prems r1 have inv: "rcv_inv r1" by (simp add: brun_inv)
  show ?case
  proof (cases "\<not> b \<or> PacketState r1 = kPktPend")
    case True
    with pd inv show ?thesis by (auto simp: loop_unfold [of c] out_idle)
  next
    case False
    from pkt_total [of "with_rcv r1 c" "PacketState r1"] inv
    obtain x where x: "pkt (PacketState r1) (with_rcv r1 c) = Inr x" by auto
    show ?thesis
    proof (cases x)
      case (Inl y)
      with x pkt_return [of "PacketState r1" "with_rcv r1 c" y] inv pd False show ?thesis
        by (auto simp: loop_unfold [of c] pkt_next_def)
    next
      case (Inr c2)
      with x pd False have less: "todo c2 < todo c" by (auto intro: continue_less)
      from Inr x pkt_continue [of "PacketState r1" "with_rcv r1 c" c2] inv
      have "rcv_inv (cn_fRcvPkt c2)" by (simp add: pkt_next_def)
      from step.IH [OF less this] Inr x pd False show ?thesis by (simp add: loop_unfold [of c])
    qed
  qed
qed

end

lemma CheckSize_inv: "rcv_inv r \<Longrightarrow> CheckSize n r \<longleftrightarrow> rcv_fNDone r + n \<le> length (pb_fPktBuf r)"
  by (auto simp: CheckSize_def rcv_inv_def)

lemma DecodeAttnNotify_total:
  assumes "rcv_inv (cn_fRcvPkt c)"
  shows "\<exists>ok apat c'. DecodeAttnNotify c = Inr (ok, apat, c') \<and> rcv_inv (cn_fRcvPkt c')"
proof (cases "CheckSize 4 (cn_fRcvPkt c)")
  case False
  with assms show ?thesis by (auto simp: DecodeAttnNotify_def)
next
  case True
  with assms have n: "rcv_fNDone (cn_fRcvPkt c) + 4 \<le> length (pb_fPktBuf (cn_fRcvPkt c))"
    by (simp add: CheckSize_inv)
  then obtain d r1 where g: "GetWithCrc16 (cn_fRcvPkt c) = Inr (d, r1)"
    and r1: "rcv_fNDone r1 = rcv_fNDone (cn_fRcvPkt c) + 2" "pb_fPktBuf r1 = pb_fPktBuf (cn_fRcvPkt c)"
    by (simp add: GetWithCrc16_def Let_def)
  with n obtain ok r2 where k: "CheckCrc r1 = Inr (ok, r2)" by (simp add: CheckCrc_def Let_def)
  from GetWithCrc16_inv [OF g assms] have "rcv_inv r1" .
  from CheckCrc_inv [OF k this] True g k show ?thesis by (auto simp: DecodeAttnNotify_def Let_def)
qed

lemma DecodeAttnNotify_next:
  assumes "DecodeAttnNotify c = Inr (ok, apat, c')"
  shows "pkt_next c c'"
proof (cases "CheckSize 4 (cn_fRcvPkt c)")
  case True
  with assms obtain r1 r2 k where g: "GetWithCrc16 (cn_fRcvPkt c) = Inr (apat, r1)" and k: "CheckCrc r1 = Inr (k, r2)"
    and c': "cn_fRcvPkt c' = r2" "port_view c' = port_view c"
    by (auto simp: DecodeAttnNotify_def ebind_eq_Inr Let_def split: if_splits)
  show ?thesis
    using GetWithCrc16_frame [OF g] CheckCrc_frame [OF k] GetWithCrc16_inv [OF g] CheckCrc_inv [OF k]
    by (simp add: pkt_next_def c')
qed (use assms in \<open>auto simp: DecodeAttnNotify_def pkt_next_def\<close>)

lemma accept_next: "pkt_next c (with_rcv (AcceptPacket (cn_fRcvPkt c)) c)"
  by (simp add: pkt_next_def AcceptPacket_inv) (simp add: AcceptPacket_def)

lemma pkt_next_trans: "pkt_next a b \<Longrightarrow> pkt_next b c \<Longrightarrow> pkt_next a c"
  by (simp add: pkt_next_def)

lemma note_attn_next: "pkt_next c (note_attn a c)"
  by (simp add: pkt_next_def)

lemma clock_next: "pkt_next c ((snd (cn_GetClock c))\<lparr>cn_fTsLastAttnNoti := t\<rparr>)"
  by (simp add: pkt_next_def) (simp add: port_view_def cn_GetClock_def GetClock_def split: option.split)

lemma ProcessAttnNotify_next:
  assumes "ProcessAttnNotify c = Inr c'"
  shows "pkt_next c c' \<and> rcv_fRcvState (cn_fRcvPkt c') = kRcvIdle"
proof -
  from assms obtain ok apat c1 where d: "DecodeAttnNotify c = Inr (ok, apat, c1)"
    by (auto simp: ProcessAttnNotify_def ebind_eq_Inr)
  let ?c2 = "c1\<lparr>cn_fRcvPkt := AcceptPacket (cn_fRcvPkt c1)\<rparr>"
  let ?c3 = "if ok \<and> apat \<noteq> 0 then note_attn apat ?c2 else ?c2"
  have "pkt_next c ?c3"
    using pkt_next_trans [OF pkt_next_trans [OF DecodeAttnNotify_next [OF d] accept_next] note_attn_next]
      pkt_next_trans [OF DecodeAttnNotify_next [OF d] accept_next] by simp
  moreover have "c' = ?c3 \<or> c' = (snd (cn_GetClock ?c3))\<lparr>cn_fTsLastAttnNoti := fst (cn_GetClock ?c3)\<rparr>"
    using assms d by (auto simp: ProcessAttnNotify_def Let_def case_prod_beta split: if_splits)
  ultimately have "pkt_next c c'" using pkt_next_trans [OF _ clock_next] by blast
  with ProcessAttnNotify_raw [OF assms] show ?thesis by simp
qed

lemma ProcessAttnNotify_total: "rcv_inv (cn_fRcvPkt c) \<Longrightarrow> \<exists>c'. ProcessAttnNotify c = Inr c'"
  using DecodeAttnNotify_total [of c] by (auto simp: ProcessAttnNotify_def Let_def)

text \<open>The three loops as instances.\<close>

definition unsolicited_pkt :: "pkt_state \<Rightarrow> connect \<Rightarrow> (connect + connect) result" where
  "unsolicited_pkt st c =
     (if st = kPktAttn then ebind (ProcessAttnNotify c) (\<lambda>c2. Inr (Inr c2))
      else Inr (Inr (with_rcv (AcceptPacket (cn_fRcvPkt c)) c)))"

definition response_pkt :: "pkt_state \<Rightarrow> connect \<Rightarrow> ((bool \<times> connect) + connect) result" where
  "response_pkt st c =
     (if st = kPktAttn then ebind (ProcessAttnNotify c) (\<lambda>c2. Inr (Inr c2))
      else if st = kPktResp then Inr (Inl (True, c))
      else Inr (Inr (with_rcv (AcceptPacket (cn_fRcvPkt c)) c)))"

definition attn_pkt :: "pkt_state \<Rightarrow> connect \<Rightarrow> ((bool \<times> connect) + connect) result" where
  "attn_pkt st c =
     (if st = kPktAttn then ebind (ProcessAttnNotify c) (\<lambda>c2.
        Inr (if cn_fAttnNotiPatt c2 \<noteq> 0 then Inl (True, c2) else Inr c2))
      else Inr (Inr (with_rcv (AcceptPacket (cn_fRcvPkt c)) c)))"

lemmas pkt_defs = unsolicited_pkt_def response_pkt_def attn_pkt_def

lemma pkt_next_refl: "pkt_next c c"
  by (simp add: pkt_next_def)

lemma AcceptPacket_state [simp]: "rcv_fRcvState (AcceptPacket r) = kRcvIdle"
  by (simp add: AcceptPacket_def)

interpretation ul: pkt_loop unsolicited_loop "\<lambda>c. c" "\<lambda>c. c" unsolicited_pkt
proof (unfold_locales, goal_cases)
  case (1 c)
  show ?case by (subst unsolicited_loop.simps) (auto simp: unsolicited_pkt_def Let_def split: sum.split)
qed (auto simp: unsolicited_pkt_def ebind_eq_Inr accept_next pkt_next_refl
    dest: ProcessAttnNotify_next ProcessAttnNotify_total split: if_splits)

interpretation rl: pkt_loop response_loop "Pair False" snd response_pkt
proof (unfold_locales, goal_cases)
  case (1 c)
  show ?case by (subst response_loop.simps) (auto simp: response_pkt_def Let_def split: sum.split)
qed (auto simp: response_pkt_def ebind_eq_Inr accept_next pkt_next_refl
    dest: ProcessAttnNotify_next ProcessAttnNotify_total split: if_splits)

interpretation al: pkt_loop attn_loop "Pair False" snd attn_pkt
proof (unfold_locales, goal_cases)
  case (1 c)
  show ?case by (subst attn_loop.simps) (auto simp: attn_pkt_def Let_def split: sum.split)
qed (auto simp: attn_pkt_def ebind_eq_Inr accept_next pkt_next_refl
    dest: ProcessAttnNotify_next ProcessAttnNotify_total split: if_splits)

lemma ReadData_polls:
  assumes "ReadData p timeout r = Inr (irc, p', r')" and "irc \<noteq> kTout" and "timeout > 0"
  shows "length (po_polls p') < length (po_polls p)"
proof -
  from assms obtain irc' ds where "port_Read kRawBufLen timeout p = Inr (irc', ds, p')" and "irc' \<noteq> kTout"
    by (auto simp: ReadData_def ebind_eq_Inr Let_def split: if_splits)
  then show ?thesis by (rule port_Read_shrinks)
qed

function read_response_loop :: "int \<Rightarrow> int \<Rightarrow> connect \<Rightarrow> (bool \<times> connect) result" where
  "read_response_loop tend tnow c =
     (if tnow < tend then
        if \<not> IsOpen c then BadPort ''RlinkConnect::ReadResponse''
        else case cn_fupPort c of
            None \<Rightarrow> Inl (MemFault ''fupPort'')
          | Some p \<Rightarrow>
              (case ReadData p (tend - tnow) (cn_fRcvPkt c) of
                 Inl e \<Rightarrow> Inl e
               | Inr (irc, p', r') \<Rightarrow>
                   let c1 = c\<lparr>cn_fupPort := Some p', cn_fRcvPkt := r'\<rparr>
                   in if irc \<le> 0 then Inr (False, c1)
                      else (case response_loop c1 of
                              Inl e \<Rightarrow> Inl e
                            | Inr (found, c2) \<Rightarrow>
                                if found then Inr (True, c2)
                                else read_response_loop tend (fst (cn_GetClock c2)) (snd (cn_GetClock c2))))
      else Inr (False, with_rcv (AcceptPacket (cn_fRcvPkt c)) c))"
  by pat_completeness auto
termination
proof (relation "measure (\<lambda>(tend, tnow, c). polls c)", goal_cases)
  case (2 tend tnow c p z irc y p' r' c1 z' found c2)
  then have "polls c1 < polls c" using ReadData_polls [of p "tend - tnow" "cn_fRcvPkt c" irc p' r']
    by (simp add: polls_def kTout_def)
  moreover have "polls c2 = polls c1" using 2 rl.loop_polls [of c1 z'] by (auto simp: prod_eq_iff)
  moreover have "polls (snd (cn_GetClock c2)) = polls c2"
    by (rule polls_cong) (rule cn_GetClock_sel)
  ultimately show ?case by (simp add: case_prod_beta)
qed simp

declare read_response_loop.simps [simp del]

definition ReadResponse :: "int \<Rightarrow> connect \<Rightarrow> (bool \<times> connect) result" where
  "ReadResponse timeout c =
     (let (tnow, c1) = cn_GetClock c in read_response_loop (tnow + timeout) tnow c1)"

definition AcceptResponse :: "connect \<Rightarrow> connect result" where
  "AcceptResponse c = ProcessUnsolicitedData (with_rcv (AcceptPacket (cn_fRcvPkt c)) c)"

definition HandleUnsolicitedData :: "connect \<Rightarrow> connect result" where
  "HandleUnsolicitedData c =
     (if \<not> ServerActiveInside c
      then Inl (Rexception ''RlinkConnect::HandleUnsolicitedData()'' ''only allowed inside active server'')
      else if \<not> IsOpen c then BadPort ''RlinkConnect::HandleUnsolicitedData''
      else ebind (Port c) (\<lambda>p. ebind (ReadData p 0 (cn_fRcvPkt c)) (\<lambda>(irc, p', r').
        let c1 = c\<lparr>cn_fupPort := Some p', cn_fRcvPkt := r'\<rparr>
        in if irc = 0 then Inr c1 else ProcessUnsolicitedData c1)))"

section \<open>Waiting for attention\<close>

text \<open>The results are the return code, the wait time and the attention pattern.\<close>

function wait_attn_loop :: "int \<Rightarrow> int \<Rightarrow> int \<Rightarrow> connect \<Rightarrow> (int \<times> int \<times> u16 \<times> connect) result" where
  "wait_attn_loop tbeg tend tnow c =
     (if tnow < tend then
        if \<not> IsOpen c then BadPort ''RlinkConnect::WaitAttn''
        else case cn_fupPort c of
            None \<Rightarrow> Inl (MemFault ''fupPort'')
          | Some p \<Rightarrow>
              (case ReadData p (tend - tnow) (cn_fRcvPkt c) of
                 Inl e \<Rightarrow> Inl e
               | Inr (irc, p', r') \<Rightarrow>
                   let c1 = c\<lparr>cn_fupPort := Some p', cn_fRcvPkt := r'\<rparr>
                   in if irc = kTout then Inr (- 1, 0, 0, c1)
                      else if irc = kErr then Inr (- 2, 0, 0, c1)
                      else (case attn_loop (snd (cn_GetClock c1)) of
                              Inl e \<Rightarrow> Inl e
                            | Inr (found, c3) \<Rightarrow>
                                if found then
                                  Inr (1, fst (cn_GetClock c1) - tbeg, cn_fAttnNotiPatt c3, c3\<lparr>cn_fAttnNotiPatt := 0\<rparr>)
                                else wait_attn_loop tbeg tend (fst (cn_GetClock c1)) c3))
      else Inr (- 1, 0, 0, c))"
  by pat_completeness auto
termination
proof (relation "measure (\<lambda>(tbeg, tend, tnow, c). polls c)", goal_cases)
  case (2 tbeg tend tnow c p z irc y p' r' c1 z' found c3)
  then have "polls c1 < polls c" using ReadData_polls [of p "tend - tnow" "cn_fRcvPkt c" irc p' r']
    by (simp add: polls_def)
  moreover have "polls c3 = polls (snd (cn_GetClock c1))" using 2 al.loop_polls [of "snd (cn_GetClock c1)" z'] by (auto simp: prod_eq_iff)
  moreover have "polls (snd (cn_GetClock c1)) = polls c1"
    by (rule polls_cong) (rule cn_GetClock_sel)
  ultimately show ?case by simp
qed simp

declare wait_attn_loop.simps [simp del]

definition WaitAttn :: "int \<Rightarrow> connect \<Rightarrow> (int \<times> int \<times> u16 \<times> connect) result" where
  "WaitAttn timeout c =
     (if ServerActiveOutside c
      then Inl (Rexception ''RlinkConnect::WaitAttn()'' ''not allowed outside active server'')
      else if cn_fAttnNotiPatt c \<noteq> 0 then Inr (0, 0, cn_fAttnNotiPatt c, c\<lparr>cn_fAttnNotiPatt := 0\<rparr>)
      else if timeout \<le> 0 then Inr (0, 0, 0, c)
      else let (tnow, c1) = cn_GetClock c in wait_attn_loop tnow (tnow + timeout) tnow c1)"

section \<open>Executing a command list\<close>

text \<open>A failed \<open>ReadResponse\<close> creates an exception object but does not throw it, so the response
  is decoded anyway.\<close>

definition ExecPart :: "clist \<Rightarrow> nat \<Rightarrow> nat \<Rightarrow> connect \<Rightarrow> (bool \<times> clist \<times> connect) result" where
  "ExecPart l ibeg iend c =
     (if ibeg > iend \<or> iend \<ge> cl_Size l
      then Inl (Rexception ''RlinkConnect::ExecPart()'' ''Bad args: ibeg or iend invalid'')
      else if \<not> IsOpen c then Inl (Rexception ''RlinkConnect::ExecPart()'' ''Bad state: port not open'')
      else ebind (EncodeRequest l ibeg iend (cn_inc kStatNExecPart 1 c)) (\<lambda>(l1, c1).
        ebind (Port c1) (\<lambda>p. ebind (SndPacket p (cn_fSndPkt c1)) (\<lambda>(sndok, p', s').
          let c2 = c1\<lparr>cn_fupPort := Some p', cn_fSndPkt := s'\<rparr>
          in if \<not> sndok then Inr (False, l1, c2)
             else ebind (ReadResponse (cn_fTimeout c2) c2) (\<lambda>(ok, c3).
               ebind (DecodeResponse l1 ibeg iend c3) (\<lambda>(ncmd, l2, c4).
                 if ncmd \<noteq> int (iend - ibeg + 1)
                 then Inl (Rexception ''RlinkConnect::ExecPart()'' ''incomplete response'')
                 else ebind (AcceptResponse c4) (\<lambda>c5. Inr (True, l2, c5))))))))"

definition exec_mask :: u32 where
  "exec_mask = kFlagSend OR kFlagDone OR kFlagLabo OR kFlagPktBeg OR kFlagPktEnd OR kFlagErrNak OR kFlagErrDec"

definition exec_prep :: "bool \<Rightarrow> u8 \<Rightarrow> u8 \<Rightarrow> command \<Rightarrow> command result" where
  "exec_prep outside defstatval defstatmsk cmd =
     (if \<not> TestFlagAny kFlagInit cmd
      then Inl (Rexception ''RlinkConnect::Exec()'' ''BugCheck: command not initialized'')
      else if Command cmd > kCmdInit
      then Inl (Rexception ''RlinkConnect::Exec()'' ''BugCheck: invalid command code'')
      else if Command cmd = kCmdAttn \<and> outside
      then Inl (Rexception ''RlinkConnect::Exec()'' ''attn command not allowed outside active server'')
      else
        let cmd1 = cmd_ClearFlagBit exec_mask cmd
        in Inr (if \<not> cmd_fExpectStatusSet cmd1
                then SetExpectStatusDefault defstatval defstatmsk cmd1 else cmd1))"

fun exec_prep_loop :: "bool \<Rightarrow> u8 \<Rightarrow> u8 \<Rightarrow> command list \<Rightarrow> command list result" where
  "exec_prep_loop outside v m [] = Inr []"
| "exec_prep_loop outside v m (cmd # cmds) =
     ebind (exec_prep outside v m cmd) (\<lambda>cmd'.
       ebind (exec_prep_loop outside v m cmds) (\<lambda>cmds'. Inr (cmd' # cmds')))"

definition cmd_failed :: "command \<Rightarrow> bool" where
  "cmd_failed cmd =
     (TestFlagAny (kFlagChkStat OR kFlagChkData OR kFlagChkDone) cmd \<or>
      TestFlagAny (kFlagErrNak OR kFlagErrDec) cmd)"

definition Exec :: "clist \<Rightarrow> rlcontext \<Rightarrow> connect \<Rightarrow> (bool \<times> clist \<times> rlcontext \<times> connect) result" where
  "Exec l cntx c =
     (if cl_Size l = 0 then Inl (Rexception ''RlinkConnect::Exec()'' ''Bad state: clist empty'')
      else if \<not> IsOpen c then Inl (Rexception ''RlinkConnect::Exec()'' ''Bad state: port not open'')
      else
        let c1 = cn_inc kStatNExec 1 c;
            l1 = ClearLaboIndex l
        in ebind (exec_prep_loop (ServerActiveOutside c1) (cx_fStatusVal cntx) (cx_fStatusMsk cntx) (cl_fList l1))
             (\<lambda>cmds. ebind (ExecPart (l1\<lparr>cl_fList := cmds\<rparr>) 0 (cl_Size l1 - 1) c1) (\<lambda>(rc, l2, c2).
                if \<not> rc then Inr (False, l2, cntx, c2)
                else Inr (True, l2,
                  fold (\<lambda>cmd x. if cmd_failed cmd then IncErrorCount 1 x else x) (cl_fList l2) cntx, c2))))"

text \<open>The variant that throws, and the one that uses the context of the connection.\<close>

definition ExecThrow :: "clist \<Rightarrow> rlcontext \<Rightarrow> connect \<Rightarrow> (clist \<times> rlcontext \<times> connect) result" where
  "ExecThrow l cntx c =
     ebind (Exec l cntx c) (\<lambda>(rc, l', cntx', c').
       if \<not> rc then Inl (Rexception ''RlinkConnect::Exec'' ''Exec() failed: '') else Inr (l', cntx', c'))"

definition ExecCtx :: "clist \<Rightarrow> connect \<Rightarrow> (bool \<times> clist \<times> connect) result" where
  "ExecCtx l c =
     ebind (Exec l (cn_fContext c) c) (\<lambda>(rc, l', cntx', c'). Inr (rc, l', c'\<lparr>cn_fContext := cntx'\<rparr>))"

section \<open>Opening and closing\<close>

definition mk32 :: "u16 \<Rightarrow> u16 \<Rightarrow> u32" where
  "mk32 h l = push_bit 16 (ucast h) OR ucast l"

definition init_clist :: "clist result" where
  "init_clist =
     ebind (cl_AddRreg kRbaddr_RLSTAT clist_new) (\<lambda>(ista, l).
     ebind (cl_AddRreg kRbaddr_RLID1 l) (\<lambda>(iid1, l).
     ebind (cl_AddRreg kRbaddr_RLID0 l) (\<lambda>(iid0, l).
     ebind (cl_AddRreg kRbaddr_RLUA1 l) (\<lambda>(iua1, l).
     ebind (SetLastExpectStatus 0 0 l) (\<lambda>l.
     ebind (cl_AddRreg kRbaddr_RLUA0 l) (\<lambda>(iua0, l).
     ebind (SetLastExpectStatus 0 0 l) (\<lambda>l.
     ebind (cl_AddRreg kRbaddr_RMBASE l) (\<lambda>(irbm, l).
       SetLastExpectStatus 0 0 l))))))))"

definition LinkInit :: "connect \<Rightarrow> (bool \<times> connect) result" where
  "LinkInit c =
     (if cn_fLinkInitDone c then Inr (True, c)
      else ebind init_clist (\<lambda>l0. ebind (ExecCtx l0 c) (\<lambda>(ok, l, c1).
        if \<not> ok then Inr (False, c1)
        else
          let c2 = c1\<lparr>cn_fLinkInitDone := True\<rparr>;
              c3 = snd (AddrMapInsert ''rl.cntl'' kRbaddr_RLCNTL c2);
              c4 = snd (AddrMapInsert ''rl.stat'' kRbaddr_RLSTAT c3);
              c5 = snd (AddrMapInsert ''rl.id1'' kRbaddr_RLID1 c4);
              c6 = snd (AddrMapInsert ''rl.id0'' kRbaddr_RLID0 c5)
          in ebind (cl_at 0 l) (\<lambda>sta. ebind (cl_at 1 l) (\<lambda>id1. ebind (cl_at 2 l) (\<lambda>id0.
             ebind (cl_at 3 l) (\<lambda>ua1. ebind (cl_at 4 l) (\<lambda>ua0. ebind (cl_at 5 l) (\<lambda>rbm.
               let c7 = c6\<lparr>cn_fRbufSize := 2 ^ (10 + unat (cmd_fData sta AND kRLSTAT_M_RBSize)),
                           cn_fSysId := mk32 (cmd_fData id1) (cmd_fData id0)\<rparr>;
                   c8 = (if cmd_fStatus ua1 AND staterr = 0 \<and> cmd_fStatus ua0 AND staterr = 0
                         then (snd (AddrMapInsert ''rl.ua0'' kRbaddr_RLUA0
                                (snd (AddrMapInsert ''rl.ua1'' kRbaddr_RLUA1 c7))))
                                \<lparr>cn_fUsrAcc := mk32 (cmd_fData ua1) (cmd_fData ua0)\<rparr>
                         else c7);
                   c9 = (if cmd_fStatus rbm AND staterr = 0 then c8\<lparr>cn_fHasRbmon := True\<rparr> else c8)
               in Inr (True, c9))))))))))"

definition cn_Close :: "connect \<Rightarrow> connect result" where
  "cn_Close c =
     (if \<not> HasPort c then Inr c
      else
        let c1 = c\<lparr>cn_fpServ := map_option sv_Stop (cn_fpServ c)\<rparr>
        in ebind (Port c1) (\<lambda>p.
             if po_fIsOpen p \<and> FindOpt ''keep'' p
             then ebind (SndKeep p (cn_fSndPkt c1)) (\<lambda>(ok, p', s').
                    Inr (c1\<lparr>cn_fSndPkt := s', cn_fupPort := None\<rparr>))
             else Inr (c1\<lparr>cn_fupPort := None\<rparr>)))"

text \<open>\<open>newport\<close> is what the port factory returns for the name: \<open>None\<close> when the port could not be opened.\<close>

definition cn_Open :: "port option \<Rightarrow> connect \<Rightarrow> (bool \<times> connect) result" where
  "cn_Open newport c =
     ebind (cn_Close c) (\<lambda>c1.
       let c2 = c1\<lparr>cn_fupPort := newport\<rparr>
       in case newport of
            None \<Rightarrow> Inr (False, c2)
          | Some p \<Rightarrow>
              let c3 = c2\<lparr>cn_fSndPkt := SetXonEscape (po_fXon p) (cn_fSndPkt c2), cn_fLinkInitDone := False,
                         cn_fRbufSize := 2048, cn_fSysId := 0xffffffff, cn_fUsrAcc := 0\<rparr>
              in if \<not> FindOpt ''noinit'' p then
                   ebind (LinkInit c3) (\<lambda>(ok, c4).
                     if \<not> ok then ebind (cn_Close c4) (\<lambda>c5. Inr (False, c5)) else Inr (True, c4))
                 else Inr (True, c3))"

end
