(* ===== verification/RlinkDecode.thy ===== *)
theory RlinkDecode
  imports RlinkConnect
begin

text \<open>
  What a response packet means: the reply of the device to each command as a byte sequence with
  its running CRC, and the proof that \<open>DecodeResponse\<close> accepts exactly these byte sequences, stores
  the reply in the command, and never reads outside of the packet or writes outside of a block.
\<close>

section \<open>Reading from the rest of the packet\<close>

definition rem :: "rcvbuf \<Rightarrow> u8 list" where
  "rem r = drop (rcv_fNDone r) (pb_fPktBuf r)"

definition adv :: "u8 list \<Rightarrow> rcvbuf \<Rightarrow> rcvbuf" where
  "adv bs r = r\<lparr>rcv_fNDone := rcv_fNDone r + length bs, pb_fCrc := crc_of (pb_fCrc r) bs\<rparr>"

definition skip2 :: "rcvbuf \<Rightarrow> rcvbuf" where
  "skip2 r = r\<lparr>rcv_fNDone := rcv_fNDone r + 2\<rparr>"

lemma rem_adv [simp]: "rem (adv bs r) = drop (length bs) (rem r)"
  by (simp add: rem_def adv_def add.commute)

lemma adv_Nil [simp]: "adv [] r = r"
  by (simp add: adv_def)

lemma adv_adv [simp]: "adv cs (adv bs r) = adv (bs @ cs) r"
  by (simp add: adv_def)

lemma adv_crc [simp]: "pb_fCrc (adv bs r) = crc_of (pb_fCrc r) bs"
  by (simp add: adv_def)

lemma rem_skip2 [simp]: "rem (skip2 r) = drop 2 (rem r)" "pb_fCrc (skip2 r) = pb_fCrc r"
  by (simp_all add: rem_def skip2_def)

lemma rem_nth:
  assumes "rem r = b # bs"
  shows "rcv_fNDone r < length (pb_fPktBuf r)" and "pb_fPktBuf r ! rcv_fNDone r = b"
proof -
  from assms show n: "rcv_fNDone r < length (pb_fPktBuf r)" by (simp add: rem_def) (metis drop_all linorder_not_le list.distinct(1))
  from assms show "pb_fPktBuf r ! rcv_fNDone r = b" using Cons_nth_drop_Suc [OF n] by (simp add: rem_def)
qed

lemma rem_nth2:
  assumes "rem r = b # b' # bs"
  shows "Suc (rcv_fNDone r) < length (pb_fPktBuf r)" and "pb_fPktBuf r ! Suc (rcv_fNDone r) = b'"
proof -
  from assms have "rem (adv [b] r) = b' # bs" by simp
  from rem_nth [OF this]
  show "Suc (rcv_fNDone r) < length (pb_fPktBuf r)" and "pb_fPktBuf r ! Suc (rcv_fNDone r) = b'"
    by (simp_all add: adv_def)
qed

lemma Get8: "rem r = b # bs \<Longrightarrow> GetWithCrc8 r = Inr (b, adv [b] r)"
  using rem_nth [of r b bs] by (simp add: GetWithCrc8_def adv_def)

lemma Get16: "rem r = l # h # bs \<Longrightarrow> GetWithCrc16 r = Inr (mk16 l h, adv [l, h] r)"
  using rem_nth [of r l "h # bs"] rem_nth2 [of r l h bs] by (simp add: GetWithCrc16_def adv_def)

lemma Get16w: "rem r = lo8 w # hi8 w # bs \<Longrightarrow> GetWithCrc16 r = Inr (w, adv [lo8 w, hi8 w] r)"
  by (simp add: Get16)

lemma GetBlk: "rem r = bytes16 ds @ bs \<Longrightarrow> GetWithCrcBlk (length ds) r = Inr (ds, adv (bytes16 ds) r)"
  by (induction ds arbitrary: r) (simp_all add: Get16w)

lemma ChkCrc: "rem r = l # h # bs \<Longrightarrow> CheckCrc r = Inr (mk16 l h = pb_fCrc r, skip2 r)"
  using rem_nth [of r l "h # bs"] rem_nth2 [of r l h bs] by (simp add: CheckCrc_def skip2_def)

lemma CheckSize_rem: "rcv_fNDone r \<le> length (pb_fPktBuf r) \<Longrightarrow> CheckSize n r \<longleftrightarrow> n \<le> length (rem r)"
  by (auto simp: CheckSize_def rem_def)

lemma bytes16_ex: "2 * n \<le> length bs \<Longrightarrow> \<exists>ds rest. bs = bytes16 ds @ rest \<and> length ds = n"
proof (induction n arbitrary: bs)
  case (Suc n)
  then obtain a b cs where bs: "bs = a # b # cs" by (cases bs; cases "tl bs") auto
  with Suc.prems Suc.IH [of cs] obtain ds rest where "cs = bytes16 ds @ rest" "length ds = n" by fastforce
  with bs have "bs = bytes16 (mk16 a b # ds) @ rest \<and> length (mk16 a b # ds) = Suc n" by simp
  then show ?case by blast
qed simp

section \<open>The replies of the device\<close>

record reply =
  rp_data :: u16
  rp_cnt :: u16
  rp_block :: "u16 list"
  rp_done :: u16
  rp_stat :: u8

definition reply_body :: "command \<Rightarrow> reply \<Rightarrow> u8 list" where
  "reply_body c rp =
     (if Command c = kCmdRreg \<or> Command c = kCmdAttn then bytes16 [rp_data rp]
      else if Command c = kCmdRblk then bytes16 (rp_cnt rp # rp_block rp @ [rp_done rp])
      else if Command c = kCmdWblk then bytes16 [rp_done rp]
      else if Command c = kCmdLabo then [lo8 (rp_data rp)]
      else [])"

text \<open>The reply without its CRC, and the size that \<open>EncodeRequest\<close> stores for it.\<close>

definition reply_bytes :: "command \<Rightarrow> reply \<Rightarrow> u8 list" where
  "reply_bytes c rp = cmd_fRequest c # reply_body c rp @ [rp_stat rp]"

definition reply_size :: "command \<Rightarrow> nat" where
  "reply_size c =
     (if Command c = kCmdRreg \<or> Command c = kCmdAttn \<or> Command c = kCmdWblk then 6
      else if Command c = kCmdRblk then 8 + 2 * BlockSize c
      else if Command c = kCmdLabo then 5 else 4)"

definition reply_ok :: "command \<Rightarrow> reply \<Rightarrow> bool" where
  "reply_ok c rp \<longleftrightarrow> Command c = kCmdRblk \<longrightarrow> length (rp_block rp) = BlockSize c"

lemma reply_stat [simp]:
  "reply_body c (rp\<lparr>rp_stat := t\<rparr>) = reply_body c rp" "reply_ok c (rp\<lparr>rp_stat := t\<rparr>) = reply_ok c rp"
  by (simp_all add: reply_body_def reply_ok_def)

text \<open>The command with the reply stored.\<close>

definition store :: "command \<Rightarrow> reply \<Rightarrow> command" where
  "store c rp =
     (if Command c = kCmdRreg \<or> Command c = kCmdAttn then SetData (rp_data rp) c
      else if Command c = kCmdRblk then SetBlockDone (rp_done rp) (put_block (rp_block rp) c)
      else if Command c = kCmdWblk then SetBlockDone (rp_done rp) c
      else if Command c = kCmdLabo then SetData (ucast (lo8 (rp_data rp))) c
      else c)"

lemma decode_body_eval:
  assumes "rem r = reply_body c rp @ bs" and "reply_ok c rp" and "BlockSize c \<le> length (BlockPointer c)"
  shows "decode_body c r =
    (if Command c = kCmdRblk \<and> rp_cnt rp \<noteq> of_nat (BlockSize c) then Inr (None, adv [lo8 (rp_cnt rp), hi8 (rp_cnt rp)] r)
     else Inr (Some (store c rp), adv (reply_body c rp) r))"
proof -
  consider (data) "Command c = kCmdRreg \<or> Command c = kCmdAttn" | (rblk) "Command c = kCmdRblk" | (wblk) "Command c = kCmdWblk"
    | (labo) "Command c = kCmdLabo" | (other) "Command c \<notin> {kCmdRreg, kCmdAttn, kCmdRblk, kCmdWblk, kCmdLabo}" by auto
  then show ?thesis
  proof cases
    case data
    with assms Get16w [of r "rp_data rp" bs] show ?thesis
      by (auto simp: decode_body_def reply_body_def store_def rl_defs)
  next
    case rblk
    then have body: "reply_body c rp = bytes16 (rp_cnt rp # rp_block rp @ [rp_done rp])"
      by (simp add: reply_body_def rl_defs)
    from rblk assms(2) have len: "length (rp_block rp) = BlockSize c" by (simp add: reply_ok_def)
    let ?r1 = "adv [lo8 (rp_cnt rp), hi8 (rp_cnt rp)] r"
    have g1: "GetWithCrc16 r = Inr (rp_cnt rp, ?r1)" using assms(1) body by (simp add: Get16w)
    have rem1: "rem ?r1 = bytes16 (rp_block rp) @ lo8 (rp_done rp) # hi8 (rp_done rp) # bs"
      using assms(1) body by simp
    have g2: "GetWithCrcBlk (BlockSize c) ?r1 = Inr (rp_block rp, adv (bytes16 (rp_block rp)) ?r1)"
      using GetBlk [OF rem1] len by simp
    have g3: "GetWithCrc16 (adv (bytes16 (rp_block rp)) ?r1) = Inr (rp_done rp,
        adv [lo8 (rp_done rp), hi8 (rp_done rp)] (adv (bytes16 (rp_block rp)) ?r1))"
      by (rule Get16w [where bs = bs]) (unfold rem_adv [of "bytes16 (rp_block rp)" ?r1] rem1, simp)
    from rblk g1 g2 g3 assms(3) body show ?thesis
      by (cases "rp_cnt rp = of_nat (BlockSize c)")
        (simp_all add: decode_body_def store_def kCmdRblk_def kCmdRreg_def kCmdAttn_def)
  next
    case wblk
    with assms Get16w [of r "rp_done rp" bs] show ?thesis
      by (simp add: decode_body_def reply_body_def store_def rl_defs)
  next
    case labo
    with assms Get8 [of r "lo8 (rp_data rp)" bs] show ?thesis
      by (simp add: decode_body_def reply_body_def store_def rl_defs)
  next
    case other
    with assms show ?thesis by (simp add: decode_body_def reply_body_def store_def)
  qed
qed

lemma length_reply_bytes: "reply_ok c rp \<Longrightarrow> length (reply_bytes c rp) + 2 = reply_size c"
  by (auto simp: reply_bytes_def reply_body_def reply_size_def reply_ok_def rl_defs)

text \<open>Any long enough byte sequence is a reply, with some CRC, of some device.\<close>

lemma reply_ex:
  assumes "reply_size c \<le> length bs" and "Command c \<le> kCmdInit"
  shows "\<exists>q rp l h rest. bs = q # reply_body c rp @ rp_stat rp # l # h # rest \<and> reply_ok c rp"
proof -
  let ?n = "reply_size c - 4"
  from assms(1) have n: "4 \<le> length bs" by (simp add: reply_size_def split: if_splits)
  then obtain q bs1 where bs: "bs = q # bs1" by (cases bs) auto
  have "\<exists>rp. reply_body c rp = take ?n bs1 \<and> reply_ok c rp"
  proof -
    have len: "?n \<le> length bs1" using assms(1) n bs by simp
    consider (w) "?n = 2" "Command c = kCmdRreg \<or> Command c = kCmdAttn \<or> Command c = kCmdWblk"
      | (blk) "Command c = kCmdRblk" "?n = 2 * (2 + BlockSize c)" | (labo) "Command c = kCmdLabo" "?n = 1"
      | (none) "?n = 0" "Command c \<notin> {kCmdRreg, kCmdAttn, kCmdRblk, kCmdWblk, kCmdLabo}"
      by (auto simp: reply_size_def rl_defs)
    then show ?thesis
    proof cases
      case w
      with len obtain a b rest where "bs1 = a # b # rest" by (cases bs1; cases "tl bs1") auto
      with w show ?thesis
        by (intro exI [of _ "\<lparr>rp_data = mk16 a b, rp_cnt = 0, rp_block = [], rp_done = mk16 a b, rp_stat = 0\<rparr>"])
          (auto simp: reply_body_def reply_ok_def rl_defs)
    next
      case blk
      from len blk(2) bytes16_ex [of "2 + BlockSize c" bs1] obtain ds rest
        where ds: "bs1 = bytes16 ds @ rest" "length ds = 2 + BlockSize c" by auto
      then obtain k es d where es: "ds = k # es @ [d]" "length es = BlockSize c"
        by (cases ds; cases "tl ds" rule: rev_cases) auto
      with blk ds show ?thesis
        by (intro exI [of _ "\<lparr>rp_data = 0, rp_cnt = k, rp_block = es, rp_done = d, rp_stat = 0\<rparr>"])
          (auto simp: reply_body_def reply_ok_def rl_defs)
    next
      case labo
      with len obtain a rest where "bs1 = a # rest" by (cases bs1) auto
      with labo show ?thesis
        by (intro exI [of _ "\<lparr>rp_data = mk16 a 0, rp_cnt = 0, rp_block = [], rp_done = 0, rp_stat = 0\<rparr>"])
          (auto simp: reply_body_def reply_ok_def rl_defs)
    next
      case none
      then show ?thesis by (auto simp: reply_body_def reply_ok_def)
    qed
  qed
  then obtain rp where rp: "reply_body c rp = take ?n bs1" "reply_ok c rp" by blast
  from assms(1) bs n have "3 \<le> length (drop ?n bs1)" by simp
  then obtain t l h rest where "drop ?n bs1 = t # l # h # rest"
    by (cases "drop ?n bs1"; cases "tl (drop ?n bs1)"; cases "tl (tl (drop ?n bs1))") auto
  moreover have "bs1 = take ?n bs1 @ drop ?n bs1" by simp
  ultimately have "bs1 = reply_body c rp @ t # l # h # rest" using rp(1) by metis
  with rp(2) bs have "bs = q # reply_body c (rp\<lparr>rp_stat := t\<rparr>) @ rp_stat (rp\<lparr>rp_stat := t\<rparr>) # l # h # rest
      \<and> reply_ok c (rp\<lparr>rp_stat := t\<rparr>)"
    by simp
  then show ?thesis by blast
qed

section \<open>Decoding one command\<close>

lemma decode_data_eval:
  assumes "\<not> CheckNak r" and "rcv_fNDone r \<le> length (pb_fPktBuf r)" and "cmd_fRcvSize c = reply_size c"
    and "BlockSize c \<le> length (BlockPointer c)" and "reply_ok c rp"
    and "rem r = q # reply_body c rp @ rp_stat rp # l # h # rest"
  shows "decode_data c r =
    (if q \<noteq> cmd_fRequest c then Inr (Inl kStatNErrCmd, cmd_SetFlagBit kFlagErrDec c, adv [q] r)
     else if Command c = kCmdRblk \<and> rp_cnt rp \<noteq> of_nat (BlockSize c)
     then Inr (Inl kStatNErrLen, cmd_SetFlagBit kFlagErrDec c, adv [q, lo8 (rp_cnt rp), hi8 (rp_cnt rp)] r)
     else let r' = skip2 (adv (reply_bytes c rp) r); c' = SetStatus (rp_stat rp) (store c rp)
          in if mk16 l h \<noteq> crc_of (pb_fCrc r) (reply_bytes c rp)
             then Inr (Inl kStatNErrCrc, cmd_SetFlagBit kFlagErrDec c', r')
             else Inr (Inr (), cmd_SetFlagBit kFlagDone c', r'))"
proof -
  have size: "CheckSize (reply_size c) r"
    using assms(2,6) length_reply_bytes [OF assms(5)] by (simp add: CheckSize_rem reply_bytes_def)
  have g: "GetWithCrc8 r = Inr (q, adv [q] r)" by (rule Get8) (rule assms(6))
  let ?r1 = "adv [q] r"
  have "rem ?r1 = reply_body c rp @ rp_stat rp # l # h # rest" using assms(6) by simp
  note b = decode_body_eval [OF this assms(5,4)]
  let ?r2 = "adv (reply_body c rp) ?r1"
  have "rem ?r2 = rp_stat rp # l # h # rest" using assms(6) by simp
  then have g2: "GetWithCrc8 ?r2 = Inr (rp_stat rp, adv [rp_stat rp] ?r2)" by (rule Get8)
  let ?r3 = "adv [rp_stat rp] ?r2"
  have "rem ?r3 = l # h # rest" using assms(6) by simp
  then have k: "CheckCrc ?r3 = Inr (mk16 l h = pb_fCrc ?r3, skip2 ?r3)" by (rule ChkCrc)
  have r3: "?r3 = adv (cmd_fRequest c # reply_body c rp @ [rp_stat rp]) r" if "q = cmd_fRequest c"
    using that by simp
  show ?thesis
  proof (cases "q = cmd_fRequest c")
    case True
    show ?thesis
      using assms(1,3) size g b g2 k r3 True
      by (simp add: decode_data_def reply_bytes_def Let_def del: adv_adv) simp
  qed (use assms(1,3) size g in \<open>simp add: decode_data_def\<close>)
qed

text \<open>A command that can be decoded: as \<open>EncodeRequest\<close> left it, with a block in its buffer, and
  an expected block that is not longer than the transfer.\<close>

definition ready :: "command \<Rightarrow> bool" where
  "ready c \<longleftrightarrow> Command c \<le> kCmdInit \<and> cmd_fRcvSize c = reply_size c \<and> BlockSize c \<le> length (BlockPointer c) \<and>
     (case cmd_fupExpect c of None \<Rightarrow> True | Some e \<Rightarrow> length (ex_fBlockVal e) \<le> BlockSize c)"

definition reply_full :: "crc16 \<Rightarrow> command \<Rightarrow> reply \<Rightarrow> u8 list" where
  "reply_full crc c rp =
     (let crc' = crc_of crc (reply_bytes c rp) in reply_bytes c rp @ [lo8 crc', hi8 crc'])"

definition reply_good :: "command \<Rightarrow> reply \<Rightarrow> bool" where
  "reply_good c rp \<longleftrightarrow> reply_ok c rp \<and> (Command c = kCmdRblk \<longrightarrow> rp_cnt rp = of_nat (BlockSize c))"

definition got :: "command \<Rightarrow> reply \<Rightarrow> command" where
  "got c rp = cmd_SetFlagBit kFlagDone (SetStatus (rp_stat rp) (store c rp))"

definition after :: "command \<Rightarrow> reply \<Rightarrow> rcvbuf \<Rightarrow> rcvbuf" where
  "after c rp r = skip2 (adv (reply_bytes c rp) r)"

lemma after_sel [simp]:
  "pb_fCrc (after c rp r) = crc_of (pb_fCrc r) (reply_bytes c rp)" "pb_fPktBuf (after c rp r) = pb_fPktBuf r"
  "rem (after c rp r) = drop (length (reply_bytes c rp) + 2) (rem r)" "rcv_fNakIndex (after c rp r) = rcv_fNakIndex r"
  by (simp_all add: after_def) (simp_all add: skip2_def adv_def add.commute)

lemma decode_data_good:
  assumes "cmd_fRcvSize c = reply_size c" and "BlockSize c \<le> length (BlockPointer c)" and "\<not> CheckNak r"
    and "rcv_fNDone r \<le> length (pb_fPktBuf r)" and "reply_good c rp" and "rem r = reply_full (pb_fCrc r) c rp @ rest"
  shows "decode_data c r = Inr (Inr (), got c rp, after c rp r)"
proof -
  from assms(6) have "rem r = cmd_fRequest c # reply_body c rp @ rp_stat rp #
      lo8 (crc_of (pb_fCrc r) (reply_bytes c rp)) # hi8 (crc_of (pb_fCrc r) (reply_bytes c rp)) # rest"
    by (simp add: reply_full_def reply_bytes_def Let_def)
  from decode_data_eval [OF assms(3,4,1,2) _ this] assms(5) show ?thesis
    by (simp add: reply_good_def got_def after_def Let_def)
qed

lemma decode_data_ok:
  assumes "ready c" and "\<not> CheckNak r" and "rcv_fNDone r \<le> length (pb_fPktBuf r)" and "reply_good c rp"
    and "rem r = reply_full (pb_fCrc r) c rp @ rest"
  shows "decode_data c r = Inr (Inr (), got c rp, after c rp r)"
  using assms by (intro decode_data_good) (simp_all add: ready_def)

lemma decode_data_no_reply:
  assumes "ready c" and "rcv_fNDone r \<le> length (pb_fPktBuf r)" and "decode_data c r = Inr (Inl k, c1, r1)"
  shows "0 \<le> rcv_fNakIndex r \<or> \<not> (\<exists>rp rest. reply_good c rp \<and> rem r = reply_full (pb_fCrc r) c rp @ rest)"
proof (rule ccontr)
  assume "\<not> ?thesis"
  then obtain rp rest where "\<not> CheckNak r" "reply_good c rp" "rem r = reply_full (pb_fCrc r) c rp @ rest"
    by (auto simp: CheckNak_def)
  from decode_data_ok [OF assms(1) this(1) assms(2) this(2,3)] show False
    using assms(3) by simp
qed

text \<open>On every packet: the outcome is an error or a good reply at the front of the packet.\<close>

lemma decode_data_cases:
  assumes "ready c" and "rcv_fNDone r \<le> length (pb_fPktBuf r)"
  obtains (err) k c1 r1 where "decode_data c r = Inr (Inl k, c1, r1)"
      "cmd_fFlags c1 = cmd_fFlags c OR (if k = kStatNErrNak then kFlagErrNak else kFlagErrDec)" "k = kStatNErrNak \<Longrightarrow> 0 \<le> rcv_fNakIndex r"
      "0 \<le> rcv_fNakIndex r \<or> \<not> (\<exists>rp rest. reply_good c rp \<and> rem r = reply_full (pb_fCrc r) c rp @ rest)"
  | (ok) rp rest where "decode_data c r = Inr (Inr (), got c rp, after c rp r)" "reply_good c rp"
      "rem r = reply_full (pb_fCrc r) c rp @ rest"
proof (cases "CheckNak r \<or> \<not> CheckSize (reply_size c) r")
  case True
  note no = decode_data_no_reply [OF assms]
  show ?thesis
  proof (cases "CheckNak r")
    case True
    then show ?thesis
      using err [of kStatNErrNak "cmd_SetFlagBit kFlagErrNak c" r] by (simp add: decode_data_def cmd_SetFlagBit_def CheckNak_def)
  next
    case False
    then have "decode_data c r = Inr (Inl kStatNErrMiss, cmd_SetFlagBit kFlagErrDec c, r)"
      using True assms(1) by (simp add: decode_data_def ready_def)
    from err [OF this _ _ no [OF this]] show ?thesis
      by (simp add: cmd_SetFlagBit_def)
  qed
next
  case False
  note no = decode_data_no_reply [OF assms]
  from False assms(2) have len: "reply_size c \<le> length (rem r)" by (simp add: CheckSize_rem)
  from assms(1) have c: "Command c \<le> kCmdInit" "cmd_fRcvSize c = reply_size c" "BlockSize c \<le> length (BlockPointer c)"
    by (simp_all add: ready_def)
  from reply_ex [OF len c(1)] obtain q rp l h rest where
    rem: "rem r = q # reply_body c rp @ rp_stat rp # l # h # rest" and rp: "reply_ok c rp" by blast
  from False have nak: "\<not> CheckNak r" by simp
  note eval = decode_data_eval [OF nak assms(2) c(2,3) rp rem]
  show ?thesis
  proof (cases "q = cmd_fRequest c \<and> (Command c = kCmdRblk \<longrightarrow> rp_cnt rp = of_nat (BlockSize c))
      \<and> mk16 l h = crc_of (pb_fCrc r) (reply_bytes c rp)")
    case True
    have "rem r = reply_full (pb_fCrc r) c rp @ rest"
      using True rem by (simp add: reply_full_def Let_def True [THEN conjunct2, THEN conjunct2, symmetric])
        (simp add: reply_bytes_def)
    moreover have "reply_good c rp" using True rp by (simp add: reply_good_def)
    ultimately show ?thesis using decode_data_ok [OF assms(1) nak assms(2)] ok by blast
  next
    case False
    have "cmd_fFlags (SetStatus t (store c rp)) = cmd_fFlags c" for t
      by (simp add: SetStatus_def store_def SetData_def SetBlockDone_def put_block_def split: option.split)
    with False eval obtain k c1 r1 where "decode_data c r = Inr (Inl k, c1, r1)" "cmd_fFlags c1 = cmd_fFlags c OR kFlagErrDec" "k \<noteq> kStatNErrNak"
      by (cases "q = cmd_fRequest c"; cases "Command c = kCmdRblk \<and> rp_cnt rp \<noteq> of_nat (BlockSize c)")
        (auto simp: Let_def cmd_SetFlagBit_def)
    from err [OF this(1) _ _ no [OF this(1)]] this(2,3) show ?thesis
      by simp
  qed
qed

section \<open>Checks against the expected response\<close>

definition data_bad :: "command \<Rightarrow> bool" where
  "data_bad c =
     (case cmd_fupExpect c of
        None \<Rightarrow> False
      | Some e \<Rightarrow>
          if Command c = kCmdRreg \<or> Command c = kCmdLabo \<or> Command c = kCmdAttn then \<not> DataCheck (cmd_fData c) e
          else Command c = kCmdRblk \<and> (\<exists>k < cmd_fBlockDone c. \<not> BlockCheck k (BlockPointer c ! k) e))"

definition done_bad :: "command \<Rightarrow> bool" where
  "done_bad c =
     (case cmd_fupExpect c of
        None \<Rightarrow> False
      | Some e \<Rightarrow> (Command c = kCmdRblk \<or> Command c = kCmdWblk) \<and> \<not> DoneCheck (of_nat (cmd_fBlockDone c)) e)"

definition chk_flags :: "command \<Rightarrow> u32" where
  "chk_flags c = (if data_bad c then kFlagChkData else 0) OR (if done_bad c then kFlagChkDone else 0)
     OR (if StatusCheck c then 0 else kFlagChkStat)"

definition checked :: "command \<Rightarrow> command" where
  "checked c = cmd_SetFlagBit (chk_flags c) c"

lemma SetFlag_sel [simp]:
  "cmd_fBlockDone (cmd_SetFlagBit m c) = cmd_fBlockDone c" "cmd_fupExpect (cmd_SetFlagBit m c) = cmd_fupExpect c"
  "cmd_SetFlagBit m (cmd_SetFlagBit m' c) = cmd_SetFlagBit (m' OR m) c" "cmd_SetFlagBit 0 c = c"
  "StatusCheck (cmd_SetFlagBit m c) = StatusCheck c" "cmd_fData (cmd_SetFlagBit m c) = cmd_fData c"
  "cmd_fStatus (cmd_SetFlagBit m c) = cmd_fStatus c" "cmd_fRequest (cmd_SetFlagBit m c) = cmd_fRequest c"
  by (simp_all add: cmd_SetFlagBit_def or.assoc StatusCheck_def)

lemma BlockCheckAll_bad:
  assumes "length (ex_fBlockVal e) \<le> length pval"
  shows "\<exists>n. BlockCheckAll pval siz e = Inr n \<and> (n = 0 \<longleftrightarrow> (\<forall>k < siz. BlockCheck k (pval ! k) e))"
proof -
  have "finite {k. k < siz \<and> \<not> BlockCheck k (pval ! k) e}" by simp
  then show ?thesis
    using block_check_loop_count [of 0 siz pval e 0] assms by (auto simp: BlockCheckAll_def card_eq_0_iff)
qed

lemma expect_check_eval:
  assumes "case cmd_fupExpect c of None \<Rightarrow> True | Some e \<Rightarrow> length (ex_fBlockVal e) \<le> length (BlockPointer c)"
  shows "\<exists>st'. expect_check c st = Inr (cmd_SetFlagBit
     ((if data_bad c then kFlagChkData else 0) OR (if done_bad c then kFlagChkDone else 0)) c, st')"
proof (cases "cmd_fupExpect c")
  case None
  then show ?thesis by (simp add: expect_check_def data_bad_def done_bad_def)
next
  case (Some e)
  with assms obtain n where n: "BlockCheckAll (BlockPointer c) (cmd_fBlockDone c) e = Inr n"
    "n = 0 \<longleftrightarrow> (\<forall>k < cmd_fBlockDone c. BlockCheck k (BlockPointer c ! k) e)"
    using BlockCheckAll_bad [of e "BlockPointer c" "cmd_fBlockDone c"] by auto
  show ?thesis
  proof (cases "Command c = kCmdRblk")
    case True
    with Some n show ?thesis
      by (auto simp: expect_check_def data_bad_def done_bad_def Let_def rl_defs)
  next
    case False
    with Some show ?thesis
      by (auto simp: expect_check_def data_bad_def done_bad_def Let_def rl_defs)
  qed
qed

lemma checks_eval:
  assumes "case cmd_fupExpect c of None \<Rightarrow> True | Some e \<Rightarrow> length (ex_fBlockVal e) \<le> length (BlockPointer c)"
  shows "\<exists>c2 st2 st3. expect_check c st = Inr (c2, st2) \<and> status_check c2 st2 = (checked c, st3)"
proof -
  from expect_check_eval [OF assms, of st] obtain st' where e: "expect_check c st = Inr (cmd_SetFlagBit
     ((if data_bad c then kFlagChkData else 0) OR (if done_bad c then kFlagChkDone else 0)) c, st')" ..
  then show ?thesis
    by (simp add: status_check_def checked_def chk_flags_def Let_def or.assoc)
qed

section \<open>Decoding a command list\<close>

definition labo_hit :: "command \<Rightarrow> reply \<Rightarrow> bool" where
  "labo_hit c rp \<longleftrightarrow> Command c = kCmdLabo \<and> lo8 (rp_data rp) \<noteq> 0"

text \<open>The response of the device to a list of commands; after an active list abort the device
  answers no further command.\<close>

fun reply_stream :: "crc16 \<Rightarrow> command list \<Rightarrow> reply list \<Rightarrow> u8 list" where
  "reply_stream crc (c # cs) (rp # rps) = reply_full crc c rp @
     (if labo_hit c rp then [] else reply_stream (crc_of crc (reply_bytes c rp)) cs rps)"
| "reply_stream crc cs rps = []"

fun replies_good :: "command list \<Rightarrow> reply list \<Rightarrow> bool" where
  "replies_good [] rps = (rps = [])"
| "replies_good (c # cs) [] = False"
| "replies_good (c # cs) (rp # rps) =
     (reply_good c rp \<and> (if labo_hit c rp then rps = [] else replies_good cs rps))"

text \<open>The commands after the response: replies stored and checked, commands after an active list
  abort marked as done and aborted.\<close>

fun deliver :: "command list \<Rightarrow> reply list \<Rightarrow> command list" where
  "deliver (c # cs) (rp # rps) = checked (got c rp) #
     (if labo_hit c rp then map (cmd_SetFlagBit (kFlagDone OR kFlagLabo)) cs else deliver cs rps)"
| "deliver cs rps = []"

lemma store_sel [simp]:
  "Command (store c rp) = Command c" "cmd_fupExpect (store c rp) = cmd_fupExpect c"
  by (simp_all add: store_def) (simp_all add: cmd_setters put_block_def Command_def split: option.split)

lemma put_block_sel:
  "length ds \<le> length (BlockPointer c) \<Longrightarrow> BlockPointer (put_block ds c) = ds @ drop (length ds) (BlockPointer c)"
  by (simp add: put_block_def BlockPointer_def split: option.split)

lemma store_blk_length: "ready c \<Longrightarrow> reply_ok c rp \<Longrightarrow> length (BlockPointer (store c rp)) = length (BlockPointer c)"
  by (auto simp: store_def reply_ok_def ready_def put_block_sel)

lemma got_sel [simp]: "Command (got c rp) = Command c" "cmd_fupExpect (got c rp) = cmd_fupExpect c"
  "BlockPointer (got c rp) = BlockPointer (store c rp)"
  by (simp_all add: got_def) (simp_all add: SetStatus_def)

lemma got_checks:
  assumes "ready c" and "reply_good c rp"
  shows "\<exists>c2 st2 st3. expect_check (got c rp) st = Inr (c2, st2) \<and> status_check c2 st2 = (checked (got c rp), st3)"
proof (rule checks_eval)
  from assms have "length (BlockPointer (store c rp)) = length (BlockPointer c)"
    by (simp add: store_blk_length reply_good_def)
  with assms(1) show "case cmd_fupExpect (got c rp) of None \<Rightarrow> True
      | Some e \<Rightarrow> length (ex_fBlockVal e) \<le> length (BlockPointer (got c rp))"
    by (auto simp: ready_def split: option.splits)
qed

lemma labo_data: "Command c = kCmdLabo \<Longrightarrow> cmd_fData (got c rp) = ucast (lo8 (rp_data rp))"
  by (simp add: got_def store_def rl_defs) (simp add: SetStatus_def SetData_def)

lemma ucast_u8_zero: "(ucast (x :: u8) :: u16) = 0 \<longleftrightarrow> x = 0"
proof -
  have "lo8 (ucast x) = x" by (rule bit_word_eqI) (auto simp: bit_lo8 bit_simps)
  moreover have "lo8 0 = 0" by (simp add: lo8_def)
  ultimately show ?thesis by auto
qed

lemma labo_hit_iff: "labo_hit c rp \<longleftrightarrow> Command c = kCmdLabo \<and> cmd_fData (got c rp) \<noteq> 0"
  by (auto simp: labo_hit_def labo_data ucast_u8_zero)

lemma decode_loop_labo:
  "LaboActive l \<Longrightarrow> i + n = length (cl_fList l) \<Longrightarrow>
     decode_loop n i k l r st = Inr (int (k + n),
       l\<lparr>cl_fList := take i (cl_fList l) @ map (cmd_SetFlagBit (kFlagDone OR kFlagLabo)) (drop i (cl_fList l))\<rparr>, r, st)"
proof (induction n arbitrary: i k l)
  case (Suc n)
  then have i: "i < length (cl_fList l)" by simp
  let ?f = "cmd_SetFlagBit (kFlagDone OR kFlagLabo)"
  let ?l = "cl_put i (?f (cl_fList l ! i)) l"
  have l: "LaboActive ?l" "Suc i + n = length (cl_fList ?l)" using Suc.prems by (simp_all add: LaboActive_def cl_put_def)
  have "decode_loop (Suc n) i k l r st = decode_loop n (Suc i) (k + 1) ?l r st"
    using Suc.prems(1) i by (simp add: cl_at_def)
  also have "\<dots> = Inr (int (k + 1 + n), ?l\<lparr>cl_fList := take (Suc i) (cl_fList ?l) @ map ?f (drop (Suc i) (cl_fList ?l))\<rparr>, r, st)"
    by (rule Suc.IH [OF l])
  finally show ?case
    using i by (simp add: cl_put_def upd_conv_take_nth_drop Cons_nth_drop_Suc [symmetric] take_Suc_conv_app_nth nth_append)
qed simp

lemma decode_loop_step:
  assumes "i < length (cl_fList l)" and "\<not> LaboActive l" and "ready (cl_fList l ! i)"
    and "reply_good (cl_fList l ! i) rp"
    and "decode_data (cl_fList l ! i) r = Inr (Inr (), got (cl_fList l ! i) rp, r1)"
  shows "\<exists>st'. decode_loop (Suc n) i k l r st = decode_loop n (Suc i) (k + 1)
    (cl_put i (checked (got (cl_fList l ! i) rp))
       (if labo_hit (cl_fList l ! i) rp then SetLaboIndex (int i) l else l)) r1 st'"
proof -
  let ?c = "cl_fList l ! i"
  from got_checks [OF assms(3,4), of st] obtain c2 st2 st3 where
    e: "expect_check (got ?c rp) st = Inr (c2, st2)" "status_check c2 st2 = (checked (got ?c rp), st3)" by blast
  have "cl_at i l = Inr ?c" using assms(1) by (simp add: cl_at_def)
  with assms(2,5) e show ?thesis
    by (auto simp: labo_hit_iff Let_def)
qed

lemma cl_put_split:
  "i < length (cl_fList l) \<Longrightarrow> cl_fList (cl_put i c l) = take i (cl_fList l) @ c # drop (Suc i) (cl_fList l)"
  by (simp add: cl_put_def upd_conv_take_nth_drop)

lemma cl_put_labo [simp]:
  "LaboActive (cl_put i c l) = LaboActive l" "LaboActive (SetLaboIndex (int j) l)"
  "cl_fList (SetLaboIndex x l) = cl_fList l"
  by (simp_all add: LaboActive_def cl_put_def SetLaboIndex_def)

lemma cmd_flag_bits [simp]:
  "bit kFlagInit n \<longleftrightarrow> n = 0" "bit kFlagSend n \<longleftrightarrow> n = 1" "bit kFlagDone n \<longleftrightarrow> n = 2"
  "bit kFlagLabo n \<longleftrightarrow> n = 3" "bit kFlagPktBeg n \<longleftrightarrow> n = 4" "bit kFlagPktEnd n \<longleftrightarrow> n = 5"
  "bit kFlagErrNak n \<longleftrightarrow> n = 8" "bit kFlagErrDec n \<longleftrightarrow> n = 9" "bit kFlagChkStat n \<longleftrightarrow> n = 12"
  "bit kFlagChkData n \<longleftrightarrow> n = 13" "bit kFlagChkDone n \<longleftrightarrow> n = 14"
  unfolding rl_defs bit_push_bit_iff by (auto simp: bit_1_iff)

lemma TestFlagAny_bit: "bit (cmd_fFlags c) n \<Longrightarrow> bit m n \<Longrightarrow> TestFlagAny m c"
proof -
  assume "bit (cmd_fFlags c) n" and "bit m n"
  then have "bit (cmd_fFlags c AND m) n" by (simp add: bit_and_iff)
  then show ?thesis by (auto simp: TestFlagAny_def)
qed

text \<open>The list after one good reply, as the loop sees it.\<close>

lemma step_split:
  assumes "i < length (cl_fList l)" and "l1 = cl_put i c (if b then SetLaboIndex (int i) l else l)"
  shows "length (cl_fList l1) = length (cl_fList l)" "take (Suc i) (cl_fList l1) = take i (cl_fList l) @ [c]"
    "drop (Suc i) (cl_fList l1) = drop (Suc i) (cl_fList l)" "LaboActive l1 = (b \<or> LaboActive l)"
proof -
  have "cl_fList l1 = take i (cl_fList l) @ c # drop (Suc i) (cl_fList l)"
    using cl_put_split [of i "SetLaboIndex (int i) l" c] cl_put_split [of i l c] assms by simp
  then show "length (cl_fList l1) = length (cl_fList l)" "take (Suc i) (cl_fList l1) = take i (cl_fList l) @ [c]"
    "drop (Suc i) (cl_fList l1) = drop (Suc i) (cl_fList l)" using assms(1) by simp_all
  show "LaboActive l1 = (b \<or> LaboActive l)" by (simp add: assms(2))
qed

lemma after_done: "reply_ok c rp \<Longrightarrow> rem r = reply_full crc c rp @ rest \<Longrightarrow>
    rcv_fNDone r \<le> length (pb_fPktBuf r) \<Longrightarrow> rcv_fNDone (after c rp r) \<le> length (pb_fPktBuf r)"
proof -
  assume "reply_ok c rp" and rem: "rem r = reply_full crc c rp @ rest" and "rcv_fNDone r \<le> length (pb_fPktBuf r)"
  from arg_cong [OF rem, of length] this(3) show ?thesis
    by (simp add: rem_def reply_full_def Let_def after_def skip2_def adv_def)
qed

lemma rem_after: "rem r = reply_full crc c rp @ rest \<Longrightarrow> rem (after c rp r) = rest"
  by (simp add: reply_full_def Let_def)

text \<open>Decoding touches neither the raw buffer nor the invariant.\<close>

definition rcv_same :: "rcvbuf \<Rightarrow> rcvbuf \<Rightarrow> bool" where
  "rcv_same r r' \<longleftrightarrow> rcv_fRawBufSize r' = rcv_fRawBufSize r \<and> rcv_fRawBufDone r' = rcv_fRawBufDone r \<and>
     rcv_fRawBuf r' = rcv_fRawBuf r \<and> rcv_fEscSeen r' = rcv_fEscSeen r \<and> (rcv_inv r \<longrightarrow> rcv_inv r')"

lemma rcv_same_refl [simp]: "rcv_same r r"
  by (simp add: rcv_same_def)

lemma rcv_same_trans: "rcv_same a b \<Longrightarrow> rcv_same b c \<Longrightarrow> rcv_same a c"
  by (simp add: rcv_same_def)

lemma rcv_same_after:
  "reply_ok c rp \<Longrightarrow> rem r = reply_full crc c rp @ rest \<Longrightarrow> rcv_same r (after c rp r)"
  using after_done [of c rp r crc rest]
  by (auto simp: rcv_same_def rcv_inv_def rcore_of_def after_def skip2_def adv_def)

text \<open>A good response is decoded completely.\<close>

lemma decode_loop_ok:
  "i + n = length (cl_fList l) \<Longrightarrow> \<not> LaboActive l \<Longrightarrow> list_all ready (drop i (cl_fList l)) \<Longrightarrow>
   rcv_fNakIndex r < 0 \<Longrightarrow> rcv_fNDone r \<le> length (pb_fPktBuf r) \<Longrightarrow> replies_good (drop i (cl_fList l)) rps \<Longrightarrow>
   rem r = reply_stream (pb_fCrc r) (drop i (cl_fList l)) rps @ rest \<Longrightarrow>
   \<exists>l' r' st'. decode_loop n i k l r st = Inr (int (k + n), l', r', st') \<and>
     cl_fList l' = take i (cl_fList l) @ deliver (drop i (cl_fList l)) rps \<and> rcv_same r r'"
proof (induction n arbitrary: i k l r st rps)
  case 0
  then show ?case by simp
next
  case (Suc n)
  then have i: "i < length (cl_fList l)" by simp
  let ?c = "cl_fList l ! i" and ?cs = "drop (Suc i) (cl_fList l)"
  from i have d: "drop i (cl_fList l) = ?c # ?cs" by (simp add: Cons_nth_drop_Suc)
  from Suc.prems(6) d obtain rp rps' where rps: "rps = rp # rps'" and good: "reply_good ?c rp"
    and good': "if labo_hit ?c rp then rps' = [] else replies_good ?cs rps'" by (cases rps) auto
  from Suc.prems(3) d have ready: "ready ?c" "list_all ready ?cs" by simp_all
  from Suc.prems(4) have nak: "\<not> CheckNak r" by (simp add: CheckNak_def)
  define more where "more = (if labo_hit ?c rp then [] else reply_stream (crc_of (pb_fCrc r) (reply_bytes ?c rp)) ?cs rps') @ rest"
  from Suc.prems(7) d rps have rem: "rem r = reply_full (pb_fCrc r) ?c rp @ more" by (simp add: more_def)
  let ?r1 = "after ?c rp r" and ?l1 = "cl_put i (checked (got ?c rp)) (if labo_hit ?c rp then SetLaboIndex (int i) l else l)"
  from decode_loop_step [OF i Suc.prems(2) ready(1) good decode_data_ok [OF ready(1) nak Suc.prems(5) good rem]]
  obtain st' where step: "decode_loop (Suc n) i k l r st = decode_loop n (Suc i) (k + 1) ?l1 ?r1 st'" by blast
  note l1 = step_split [OF i refl, of "checked (got ?c rp)" "labo_hit ?c rp"]
  have same: "rcv_same r ?r1" using rcv_same_after [OF _ rem] good by (simp add: reply_good_def)
  show ?case
  proof (cases "labo_hit ?c rp")
    case True
    with l1 Suc.prems(1) decode_loop_labo [of ?l1 "Suc i" n "k + 1" ?r1 st'] step same show ?thesis
      by (simp add: d rps)
  next
    case False
    have "\<exists>l' r' st''. decode_loop n (Suc i) (k + 1) ?l1 ?r1 st' = Inr (int (k + 1 + n), l', r', st'') \<and>
        cl_fList l' = take (Suc i) (cl_fList ?l1) @ deliver (drop (Suc i) (cl_fList ?l1)) rps' \<and> rcv_same ?r1 r'"
    proof (rule Suc.IH)
      show "rem ?r1 = reply_stream (pb_fCrc ?r1) (drop (Suc i) (cl_fList ?l1)) rps' @ rest"
        using rem_after [OF rem] False l1 by (simp add: more_def)
      show "rcv_fNDone ?r1 \<le> length (pb_fPktBuf ?r1)"
        using after_done [OF _ rem Suc.prems(5)] good by (simp add: reply_good_def)
    qed (use l1 Suc.prems False ready good' in simp_all)
    with step l1 False show ?thesis by (auto simp: d rps intro: rcv_same_trans [OF same])
  qed
qed

text \<open>What a refused response leaves: \<open>cs'\<close> are the commands \<open>cs\<close> after decoding the bytes \<open>pkt\<close>. The commands before the one that fails hold their
  good replies, the one that fails has an error flag and had no good reply at its place, unless a NAK was seen, and
  the commands after it are untouched.\<close>

fun refused :: "bool \<Rightarrow> crc16 \<Rightarrow> u8 list \<Rightarrow> command list \<Rightarrow> command list \<Rightarrow> bool" where
  "refused nak crc pkt [] cs' = False"
| "refused nak crc pkt (c # cs) cs' =
     ((\<exists>c'. cs' = c' # cs \<and> (cmd_fFlags c' = cmd_fFlags c OR kFlagErrDec \<or> nak \<and> cmd_fFlags c' = cmd_fFlags c OR kFlagErrNak) \<and>
         (nak \<or> \<not> (\<exists>rp rest. reply_good c rp \<and> pkt = reply_full crc c rp @ rest))) \<or>
      (\<exists>rp rest cs''. reply_good c rp \<and> \<not> labo_hit c rp \<and> pkt = reply_full crc c rp @ rest \<and> cs' = checked (got c rp) # cs'' \<and>
         refused nak (crc_of crc (reply_bytes c rp)) rest cs cs''))"

text \<open>On every packet the loop ends without a fault: the response is refused, or all commands are done, and then the packet started
  with a good response.\<close>

lemma decode_loop_cases:
  "i + n = length (cl_fList l) \<Longrightarrow> \<not> LaboActive l \<Longrightarrow> list_all ready (drop i (cl_fList l)) \<Longrightarrow>
   rcv_fNDone r \<le> length (pb_fPktBuf r) \<Longrightarrow>
   (\<exists>l' r' st' cs'. decode_loop n i k l r st = Inr (- 1, l', r', st') \<and> cl_fList l' = take i (cl_fList l) @ cs' \<and>
      refused (0 \<le> rcv_fNakIndex r) (pb_fCrc r) (rem r) (drop i (cl_fList l)) cs') \<or>
   (\<exists>l' r' st' rps rest. decode_loop n i k l r st = Inr (int (k + n), l', r', st') \<and>
     cl_fList l' = take i (cl_fList l) @ deliver (drop i (cl_fList l)) rps \<and>
     replies_good (drop i (cl_fList l)) rps \<and> rem r = reply_stream (pb_fCrc r) (drop i (cl_fList l)) rps @ rest)"
proof (induction n arbitrary: i k l r st)
  case 0
  then show ?case by (auto intro!: exI [of _ "[]"])
next
  case (Suc n)
  then have i: "i < length (cl_fList l)" by simp
  let ?c = "cl_fList l ! i" and ?cs = "drop (Suc i) (cl_fList l)"
  from i have d: "drop i (cl_fList l) = ?c # ?cs" by (simp add: Cons_nth_drop_Suc)
  from Suc.prems(3) d have ready: "ready ?c" "list_all ready ?cs" by simp_all
  from ready(1) Suc.prems(4) show ?case
  proof (cases rule: decode_data_cases)
    case (err x c1 r1)
    have "refused (0 \<le> rcv_fNakIndex r) (pb_fCrc r) (rem r) (?c # ?cs) (c1 # ?cs)"
      using err(2-4) by auto
    with err(1) i Suc.prems(2) show ?thesis
      by (intro disjI1) (auto simp: cl_at_def cl_put_split d)
  next
    case (ok rp rest)
    let ?r1 = "after ?c rp r" and ?l1 = "cl_put i (checked (got ?c rp)) (if labo_hit ?c rp then SetLaboIndex (int i) l else l)"
    from decode_loop_step [OF i Suc.prems(2) ready(1) ok(2,1)]
    obtain st' where step: "decode_loop (Suc n) i k l r st = decode_loop n (Suc i) (k + 1) ?l1 ?r1 st'" by blast
    note l1 = step_split [OF i refl, of "checked (got ?c rp)" "labo_hit ?c rp"]
    show ?thesis
    proof (cases "labo_hit ?c rp")
      case True
      from l1 True Suc.prems(1) decode_loop_labo [of ?l1 "Suc i" n "k + 1" ?r1 st'] step ok(2,3) show ?thesis
        by (intro disjI2) (auto simp: d intro!: exI [of _ "[rp]"])
    next
      case False
      have "(\<exists>l' r' st'' cs'. decode_loop n (Suc i) (k + 1) ?l1 ?r1 st' = Inr (- 1, l', r', st'') \<and>
          cl_fList l' = take (Suc i) (cl_fList ?l1) @ cs' \<and>
          refused (0 \<le> rcv_fNakIndex ?r1) (pb_fCrc ?r1) (rem ?r1) (drop (Suc i) (cl_fList ?l1)) cs') \<or>
        (\<exists>l' r' st'' rps rest'. decode_loop n (Suc i) (k + 1) ?l1 ?r1 st' = Inr (int (k + 1 + n), l', r', st'') \<and>
          cl_fList l' = take (Suc i) (cl_fList ?l1) @ deliver (drop (Suc i) (cl_fList ?l1)) rps \<and>
          replies_good (drop (Suc i) (cl_fList ?l1)) rps \<and>
          rem ?r1 = reply_stream (pb_fCrc ?r1) (drop (Suc i) (cl_fList ?l1)) rps @ rest')"
        by (rule Suc.IH) (use l1 Suc.prems False ready ok after_done [OF _ ok(3) Suc.prems(4)] in \<open>simp_all add: reply_good_def\<close>)
      then show ?thesis
      proof (elim disjE exE conjE)
        fix l' r' st'' rps rest'
        assume a: "decode_loop n (Suc i) (k + 1) ?l1 ?r1 st' = Inr (int (k + 1 + n), l', r', st'')"
          "cl_fList l' = take (Suc i) (cl_fList ?l1) @ deliver (drop (Suc i) (cl_fList ?l1)) rps"
          "replies_good (drop (Suc i) (cl_fList ?l1)) rps"
          "rem ?r1 = reply_stream (pb_fCrc ?r1) (drop (Suc i) (cl_fList ?l1)) rps @ rest'"
        have "rem r = reply_stream (pb_fCrc r) (?c # ?cs) (rp # rps) @ rest'"
          using a(4) rem_after [OF ok(3)] ok(3) False l1 by simp
        with a step l1 False ok(2) show ?thesis
          by (intro disjI2 exI [of _ l'] exI [of _ r'] exI [of _ st''] exI [of _ "rp # rps"] exI [of _ rest']) (simp add: d)
      next
        fix l' r' st'' cs'
        assume a: "decode_loop n (Suc i) (k + 1) ?l1 ?r1 st' = Inr (- 1, l', r', st'')" "cl_fList l' = take (Suc i) (cl_fList ?l1) @ cs'"
          "refused (0 \<le> rcv_fNakIndex ?r1) (pb_fCrc ?r1) (rem ?r1) (drop (Suc i) (cl_fList ?l1)) cs'"
        have "refused (0 \<le> rcv_fNakIndex r) (pb_fCrc r) (rem r) (?c # ?cs) (checked (got ?c rp) # cs')"
          using a(3) ok(2,3) False rem_after [OF ok(3)] l1(3) by (auto simp del: after_sel(3))
        with a(1,2) step l1(2) show ?thesis
          by (intro disjI1 exI [of _ l'] exI [of _ r'] exI [of _ st''] exI [of _ "checked (got ?c rp) # cs'"]) (simp add: d)
      qed
    qed
  qed
qed

section \<open>Example data\<close>

text \<open>A register read with its reply, and a block read of one word with an expected block of two.\<close>

definition demo_cmd :: command where
  "demo_cmd = cmd_new\<lparr>cmd_fFlags := kFlagInit, cmd_fRcvSize := 6\<rparr>"

definition demo_reply :: reply where
  "demo_reply = \<lparr>rp_data = 0x1234, rp_cnt = 0, rp_block = [], rp_done = 0, rp_stat = 0\<rparr>"

definition demo_list :: "command list \<Rightarrow> clist" where
  "demo_list cs = \<lparr>cl_fList = cs, cl_fLaboIndex = - 1\<rparr>"

definition demo_conn :: "u8 list \<Rightarrow> connect" where
  "demo_conn pkt = (connect_new [])\<lparr>cn_fRcvPkt := (rcv_new [])\<lparr>pb_fPktBuf := pkt\<rparr>\<rparr>"

lemma demo_ready: "ready demo_cmd" "Command demo_cmd = kCmdRreg"
  by (simp_all add: ready_def demo_cmd_def cmd_new_def cmd_views reply_size_def rl_defs)

lemma demo_good: "replies_good [demo_cmd] [demo_reply]" "reply_good demo_cmd demo_reply"
  by (simp_all add: reply_good_def reply_ok_def labo_hit_def demo_ready rl_defs)

lemma demo_conn_sel [simp]:
  "rcv_fNDone (cn_fRcvPkt (demo_conn p)) = 0" "pb_fPktBuf (cn_fRcvPkt (demo_conn p)) = p"
  "rcv_fNakIndex (cn_fRcvPkt (demo_conn p)) = - 1" "pb_fCrc (cn_fRcvPkt (demo_conn p)) = Crc_Clear"
  "rem (cn_fRcvPkt (demo_conn p)) = p"
  by (simp_all add: demo_conn_def rcv_new_def rem_def)

definition demo_blk :: command where
  "demo_blk = cmd_new\<lparr>cmd_fRequest := kCmdRblk, cmd_fBlock := [0], cmd_fFlags := kFlagInit, cmd_fRcvSize := 10,
     cmd_fupExpect := Some (expect_new_block [5, 6] [])\<rparr>"

definition demo_blk_reply :: reply where
  "demo_blk_reply = \<lparr>rp_data = 0, rp_cnt = 1, rp_block = [5], rp_done = 2, rp_stat = 0\<rparr>"

section \<open>Properties\<close>

lemma DecodeResponse_loop:
  "DecodeResponse l 0 n c = ebind (decode_loop (Suc n) 0 0 l (cn_fRcvPkt c) (cn_fStats c)) (\<lambda>(ncmd, l', r, st).
       Inr (ncmd, l', c\<lparr>cn_fRcvPkt := r, cn_fStats := st\<rparr>))"
  by (simp add: DecodeResponse_def del: decode_loop.simps)

text \<open>C8: Whatever the device sent, decoding the response of a list ends without a memory fault and returns the number of commands or \<open>-1\<close>.
  It returns the number of commands only if the packet starts with a complete and correctly numbered reply, with a good
  CRC, to every command up to an active list abort; then each command holds the data of its
  reply. If it returns \<open>-1\<close> then the commands up to the first one that has no good reply at its place hold their replies, that command
  has the flag for a decoding error (or for a NAK, if one was seen), and the commands after it are not touched (\<open>refused\<close>).
  The list is as \<open>EncodeRequest\<close> leaves it, its blocks are in their buffers, and no expected block is longer than the transfer of its command
  (\<open>ready\<close>); without this last condition there can be a memory fault.\<close>

theorem DecodeResponse_sound:
  assumes "list_all ready (cl_fList l)" and "\<not> LaboActive l" and "cl_Size l = Suc n"
    and "rcv_fNDone (cn_fRcvPkt c) \<le> length (pb_fPktBuf (cn_fRcvPkt c))"
  shows "(\<exists>l' c'. DecodeResponse l 0 n c = Inr (- 1, l', c') \<and>
       refused (0 \<le> rcv_fNakIndex (cn_fRcvPkt c)) (pb_fCrc (cn_fRcvPkt c)) (rem (cn_fRcvPkt c)) (cl_fList l) (cl_fList l')) \<or>
    (\<exists>l' c' rps rest. DecodeResponse l 0 n c = Inr (int (Suc n), l', c') \<and>
       replies_good (cl_fList l) rps \<and> cl_fList l' = deliver (cl_fList l) rps \<and>
       rem (cn_fRcvPkt c) = reply_stream (pb_fCrc (cn_fRcvPkt c)) (cl_fList l) rps @ rest)"
  using decode_loop_cases [of 0 "Suc n" l "cn_fRcvPkt c" 0 "cn_fStats c"] assms
  by (fastforce simp: DecodeResponse_loop cl_Size_def simp del: decode_loop.simps)

text \<open>The second of two commands gets no reply.\<close>

theorem DecodeResponse_sound_witness:
  "\<exists>l' c'. DecodeResponse (demo_list [demo_cmd, demo_cmd]) 0 1 (demo_conn (reply_full Crc_Clear demo_cmd demo_reply)) = Inr (- 1, l', c') \<and>
     refused False Crc_Clear (reply_full Crc_Clear demo_cmd demo_reply) [demo_cmd, demo_cmd] (cl_fList l')"
proof -
  have len: "length (reply_full crc demo_cmd rp) = 6" for crc rp
    by (simp add: reply_full_def reply_bytes_def reply_body_def Let_def demo_ready rl_defs)
  have "\<not> labo_hit demo_cmd rp" for rp
    by (simp add: labo_hit_def demo_ready rl_defs)
  then have ne: "reply_full Crc_Clear demo_cmd demo_reply \<noteq> reply_stream Crc_Clear [demo_cmd, demo_cmd] rps @ rest" if "replies_good [demo_cmd, demo_cmd] rps" for rps rest
    using that by (cases rps; cases "tl rps") (auto dest!: arg_cong [where f = length] simp: len)
  show ?thesis
    using DecodeResponse_sound [of "demo_list [demo_cmd, demo_cmd]" 1 "demo_conn (reply_full Crc_Clear demo_cmd demo_reply)"] demo_ready(1) ne
    by (auto simp: demo_list_def LaboActive_def cl_Size_def simp del: refused.simps)
qed

lemma DecodeResponse_ok:
  assumes "list_all ready (cl_fList l)" and "\<not> LaboActive l" and "cl_Size l = Suc n"
    and "rcv_fNDone (cn_fRcvPkt c) \<le> length (pb_fPktBuf (cn_fRcvPkt c))" and "rcv_fNakIndex (cn_fRcvPkt c) < 0"
    and "replies_good (cl_fList l) rps"
    and "rem (cn_fRcvPkt c) = reply_stream (pb_fCrc (cn_fRcvPkt c)) (cl_fList l) rps @ rest"
  shows "\<exists>l' r' st'. DecodeResponse l 0 n c = Inr (int (Suc n), l', c\<lparr>cn_fRcvPkt := r', cn_fStats := st'\<rparr>) \<and>
    cl_fList l' = deliver (cl_fList l) rps \<and> rcv_same (cn_fRcvPkt c) r'"
proof -
  from decode_loop_ok [of 0 "Suc n" l "cn_fRcvPkt c" rps rest 0 "cn_fStats c"] assms obtain l' r' st' where
    "decode_loop (Suc n) 0 0 l (cn_fRcvPkt c) (cn_fStats c) = Inr (int (Suc n), l', r', st')"
    "cl_fList l' = deliver (cl_fList l) rps" "rcv_same (cn_fRcvPkt c) r'"
    by (auto simp: cl_Size_def simp del: decode_loop.simps)
  then show ?thesis
    by (intro exI [of _ l'] exI [of _ r'] exI [of _ st']) (simp add: DecodeResponse_loop del: decode_loop.simps)
qed

text \<open>C9: The response of a device that works is always accepted: if the packet starts with good
  replies to the commands and holds no NAK, \<open>DecodeResponse\<close> returns the number of commands and
  stores every reply, with the commands after an active list abort marked as aborted.\<close>

theorem DecodeResponse_complete:
  assumes "list_all ready (cl_fList l)" and "\<not> LaboActive l" and "cl_Size l = Suc n"
    and "rcv_fNDone (cn_fRcvPkt c) \<le> length (pb_fPktBuf (cn_fRcvPkt c))" and "rcv_fNakIndex (cn_fRcvPkt c) < 0"
    and "replies_good (cl_fList l) rps"
    and "rem (cn_fRcvPkt c) = reply_stream (pb_fCrc (cn_fRcvPkt c)) (cl_fList l) rps @ rest"
  shows "\<exists>l' c'. DecodeResponse l 0 n c = Inr (int (Suc n), l', c') \<and> cl_fList l' = deliver (cl_fList l) rps"
  using DecodeResponse_ok [OF assms] by blast

theorem DecodeResponse_complete_witness:
  "\<exists>l' c'. DecodeResponse (demo_list [demo_cmd]) 0 0
       (demo_conn (reply_stream Crc_Clear [demo_cmd] [demo_reply])) = Inr (1, l', c') \<and>
     cl_fList l' = deliver [demo_cmd] [demo_reply]"
  using DecodeResponse_complete [of "demo_list [demo_cmd]" 0 "demo_conn (reply_stream Crc_Clear [demo_cmd] [demo_reply])"
      "[demo_reply]" "[]"] demo_ready(1) demo_good(1)
  by (simp add: demo_list_def LaboActive_def cl_Size_def)

text \<open>What a stored reply means for the command: the status and the done flag are set, a register
  read or attention holds the data, a list abort its low byte, a block read exactly the words of the
  reply in the first words of its buffer and the rest of the buffer untouched, and the check flags
  are set exactly if data, done count or status differ from what was expected.\<close>

theorem reply_delivered:
  assumes "ready c" and "reply_good c rp" and "c' = checked (got c rp)"
  shows "cmd_fStatus c' = rp_stat rp \<and> TestFlagAny kFlagDone c' \<and> cmd_fRequest c' = cmd_fRequest c \<and>
    (Command c = kCmdRreg \<or> Command c = kCmdAttn \<longrightarrow> cmd_fData c' = rp_data rp) \<and>
    (Command c = kCmdLabo \<longrightarrow> cmd_fData c' = ucast (lo8 (rp_data rp))) \<and>
    (Command c = kCmdRblk \<longrightarrow> BlockPointer c' = rp_block rp @ drop (BlockSize c) (BlockPointer c)) \<and>
    (Command c = kCmdRblk \<or> Command c = kCmdWblk \<longrightarrow> cmd_fBlockDone c' = unat (rp_done rp)) \<and>
    (bit (cmd_fFlags c' ) 12 \<longleftrightarrow> bit (cmd_fFlags c) 12 \<or> \<not> StatusCheck (got c rp)) \<and>
    (bit (cmd_fFlags c' ) 13 \<longleftrightarrow> bit (cmd_fFlags c) 13 \<or> data_bad (got c rp)) \<and>
    (bit (cmd_fFlags c' ) 14 \<longleftrightarrow> bit (cmd_fFlags c) 14 \<or> done_bad (got c rp))"
proof -
  have st: "cmd_fFlags (store c rp) = cmd_fFlags c" "cmd_fRequest (store c rp) = cmd_fRequest c"
    by (simp_all add: store_def cmd_setters put_block_def split: option.split)
  then have fl: "cmd_fFlags (got c rp) = cmd_fFlags c OR kFlagDone" "cmd_fStatus (got c rp) = rp_stat rp"
    "cmd_fRequest (got c rp) = cmd_fRequest c" "cmd_fData (got c rp) = cmd_fData (store c rp)"
    "cmd_fBlockDone (got c rp) = cmd_fBlockDone (store c rp)"
    by (simp_all add: got_def cmd_SetFlagBit_def SetStatus_def)
  have c': "cmd_fFlags c' = cmd_fFlags c OR kFlagDone OR chk_flags (got c rp)"
    using fl(1) by (simp add: assms(3) checked_def cmd_SetFlagBit_def or.assoc)
  have "TestFlagAny kFlagDone c'" by (rule TestFlagAny_bit [of _ 2]) (simp_all add: c' bit_simps)
  moreover have "BlockPointer (store c rp) = rp_block rp @ drop (BlockSize c) (BlockPointer c)" if "Command c = kCmdRblk"
    using that assms(1,2) by (simp add: store_def reply_good_def reply_ok_def ready_def put_block_sel rl_defs)
  moreover have "cmd_fData (store c rp) = rp_data rp" if "Command c = kCmdRreg \<or> Command c = kCmdAttn"
    using that by (simp add: store_def SetData_def)
  moreover have "cmd_fBlockDone (store c rp) = unat (rp_done rp)" if "Command c = kCmdRblk \<or> Command c = kCmdWblk"
    using that by (auto simp: store_def SetBlockDone_def rl_defs)
  ultimately show ?thesis
    using labo_data [of c rp] fl by (simp add: assms(3) checked_def [of "got c rp"])
      (simp add: chk_flags_def cmd_SetFlagBit_def bit_simps)
qed

theorem reply_delivered_witness:
  "cmd_fData (checked (got demo_cmd demo_reply)) = 0x1234 \<and> TestFlagAny kFlagDone (checked (got demo_cmd demo_reply))"
  using reply_delivered [OF demo_ready(1) demo_good(2) refl] demo_ready(2) by (simp add: demo_reply_def)

section \<open>Overrun of the block check\<close>

lemma block_check_fault:
  "i \<le> length pval \<Longrightarrow> block_check_loop n i pval e nerr = Inl (MemFault ''block'') \<longleftrightarrow> length pval < min (i + n) (length (ex_fBlockVal e))"
proof (induction n i pval e nerr rule: block_check_loop.induct)
  case (2 n i pval e nerr)
  then show ?case
    by (cases "i = length pval") (auto simp: Let_def)
qed simp

lemma block_check_cases: "block_check_loop n i pval e nerr = Inl (MemFault ''block'') \<or> (\<exists>k. block_check_loop n i pval e nerr = Inr k)"
  by (induction n i pval e nerr rule: block_check_loop.induct) (auto simp: Let_def)

lemma expect_check_block:
  assumes "Command c = kCmdRblk" and "cmd_fupExpect c = Some e"
  shows "if length (BlockPointer c) < min (cmd_fBlockDone c) (length (ex_fBlockVal e)) then expect_check c st = Inl (MemFault ''block'')
    else \<exists>x. expect_check c st = Inr x"
  using block_check_fault [of 0 "BlockPointer c" "cmd_fBlockDone c" e 0] block_check_cases [of "cmd_fBlockDone c" 0 "BlockPointer c" e 0] assms
  by (auto simp: expect_check_def BlockCheckAll_def Let_def rl_defs)

text \<open>C40: The done count that the device sends is trusted: for a block read with an expected block, answered by a reply that is
  complete and has the right number and CRC, decoding reads behind the end of the buffer of the command exactly if both the done count of the reply
  and the length of the expected block are larger than the buffer. In all other cases it returns.\<close>

theorem BlockCheck_overrun:
  assumes "cl_fList l = [c]" and "\<not> LaboActive l" and "Command c = kCmdRblk" and "cmd_fRcvSize c = reply_size c"
    and "BlockSize c \<le> length (BlockPointer c)" and e: "cmd_fupExpect c = Some e"
    and "rcv_fNDone (cn_fRcvPkt cn) \<le> length (pb_fPktBuf (cn_fRcvPkt cn))" and "rcv_fNakIndex (cn_fRcvPkt cn) < 0"
    and rp: "reply_good c rp" and "rem (cn_fRcvPkt cn) = reply_full (pb_fCrc (cn_fRcvPkt cn)) c rp @ rest"
  shows "if length (BlockPointer c) < min (unat (rp_done rp)) (length (ex_fBlockVal e)) then DecodeResponse l 0 0 cn = Inl (MemFault ''block'')
    else \<exists>l' cn'. DecodeResponse l 0 0 cn = Inr (1, l', cn')"
proof -
  have nak: "\<not> CheckNak (cn_fRcvPkt cn)"
    using assms(8) by (simp add: CheckNak_def)
  note dd = decode_data_good [OF assms(4,5) nak assms(7) rp assms(10)]
  have g: "Command (got c rp) = kCmdRblk" "cmd_fupExpect (got c rp) = Some e" "cmd_fBlockDone (got c rp) = unat (rp_done rp)"
    using assms(3) e by simp_all (simp add: got_def store_def cmd_setters rl_defs)
  have len: "length (BlockPointer (got c rp)) = length (BlockPointer c)"
    using rp assms(3,5) by (auto simp: store_def reply_good_def reply_ok_def put_block_sel)
  have "DecodeResponse l 0 0 cn = ebind (expect_check (got c rp) (cn_fStats cn)) (\<lambda>(c2, st2). let (c3, st3) = status_check c2 st2
      in Inr (1, cl_put 0 c3 l, cn\<lparr>cn_fRcvPkt := after c rp (cn_fRcvPkt cn), cn_fStats := st3\<rparr>))"
    using assms(1-3) dd by (auto simp: DecodeResponse_def cl_at_def Let_def ebind_def rl_defs split: sum.split prod.split)
  then show ?thesis
    using expect_check_block [OF g(1,2), of "cn_fStats cn"] unfolding g(3) len by (auto split: prod.splits if_splits)
qed

text \<open>A block read of one word with two expected words; the reply says that two words were read.\<close>

theorem BlockCheck_overrun_witness:
  "DecodeResponse (demo_list [demo_blk]) 0 0 (demo_conn (reply_full Crc_Clear demo_blk demo_blk_reply)) = Inl (MemFault ''block'')"
proof -
  have c: "cl_fList (demo_list [demo_blk]) = [demo_blk]" "\<not> LaboActive (demo_list [demo_blk])" "Command demo_blk = kCmdRblk" "BlockPointer demo_blk = [0]" "BlockSize demo_blk = 1"
    "cmd_fupExpect demo_blk = Some (expect_new_block [5, 6] [])"
    by (simp_all add: demo_list_def LaboActive_def demo_blk_def cmd_new_def cmd_views rl_defs)
  have r: "cmd_fRcvSize demo_blk = reply_size demo_blk" "reply_good demo_blk demo_blk_reply"
    using c(3,5) by (simp_all add: reply_size_def reply_good_def reply_ok_def demo_blk_reply_def) (simp_all add: demo_blk_def rl_defs)
  show ?thesis
    using BlockCheck_overrun [OF c(1,2,3) r(1) _ c(6) _ _ r(2), of "demo_conn (reply_full Crc_Clear demo_blk demo_blk_reply)" "[]"]
    by (simp add: c(4,5) demo_blk_reply_def expect_new_block_def)
qed

end
