(* ===== verification/RlinkEncode.thy ===== *)
theory RlinkEncode
  imports RlinkDecode
begin

text \<open>
  What a request packet is: the request of each command as a byte sequence with its running CRC,
  and the proof that \<open>EncodeRequest\<close> puts exactly these bytes into the packet buffer, numbers the
  commands and leaves each of them ready for decoding the response.
\<close>

section \<open>Filling the packet buffer\<close>

definition put :: "u8 list \<Rightarrow> sndbuf \<Rightarrow> sndbuf" where
  "put bs s = s\<lparr>pb_fPktBuf := pb_fPktBuf s @ bs, pb_fCrc := crc_of (pb_fCrc s) bs\<rparr>"

lemma put_put [simp]: "put cs (put bs s) = put (bs @ cs) s"
  by (simp add: put_def)

lemma put_Nil [simp]: "put [] s = s"
  by (simp add: put_def)

lemma put_crc [simp]: "pb_fCrc (put bs s) = crc_of (pb_fCrc s) bs"
  by (simp add: put_def)

lemma PutWithCrc_put [simp]:
  "PutWithCrc8 d s = put [d] s" "PutWithCrc16 w s = put [lo8 w, hi8 w] s"
  by (simp_all add: PutWithCrc8_def PutWithCrc16_def put_def Let_def)

lemma PutWithCrcBlk_put [simp]: "PutWithCrcBlk ds s = put (bytes16 ds) s"
  by (induction ds arbitrary: s) simp_all

section \<open>The request of a command\<close>

definition req_head :: "command \<Rightarrow> u8 list" where
  "req_head c = cmd_fRequest c #
     (if Command c = kCmdRreg then bytes16 [cmd_fAddress c]
      else if Command c = kCmdRblk \<or> Command c = kCmdWblk then bytes16 [cmd_fAddress c, of_nat (BlockSize c)]
      else if Command c = kCmdWreg \<or> Command c = kCmdInit then bytes16 [cmd_fAddress c, cmd_fData c]
      else [])"

definition req_data :: "command \<Rightarrow> u8 list" where
  "req_data c = bytes16 (take (BlockSize c) (BlockPointer c))"

definition crc_bytes :: "crc16 \<Rightarrow> u8 list" where
  "crc_bytes crc = [lo8 crc, hi8 crc]"

definition req_crc :: "crc16 \<Rightarrow> command \<Rightarrow> crc16" where
  "req_crc crc c =
     (if Command c = kCmdWblk then crc_of (crc_of crc (req_head c)) (req_data c) else crc_of crc (req_head c))"

definition req_full :: "crc16 \<Rightarrow> command \<Rightarrow> u8 list" where
  "req_full crc c = req_head c @
     (if Command c = kCmdWblk then crc_bytes (crc_of crc (req_head c)) @ req_data c else []) @
     crc_bytes (req_crc crc c)"

fun req_stream :: "crc16 \<Rightarrow> command list \<Rightarrow> u8 list" where
  "req_stream crc [] = []"
| "req_stream crc (c # cs) = req_full crc c @ req_stream (req_crc crc c) cs"

fun req_crcs :: "crc16 \<Rightarrow> command list \<Rightarrow> crc16" where
  "req_crcs crc [] = crc"
| "req_crcs crc (c # cs) = req_crcs (req_crc crc c) cs"

text \<open>The command as it is sent.\<close>

definition sent :: "u8 \<Rightarrow> command \<Rightarrow> command" where
  "sent q c = cmd_SetFlagBit kFlagSend (SetRcvSize (reply_size c)
     (cmd_ClearFlagBit (kFlagPktBeg OR kFlagPktEnd) (SetSeqNumber q c)))"

lemma sent_sel [simp]:
  "Command (sent q c) = Command c" "BlockSize (sent q c) = BlockSize c" "BlockPointer (sent q c) = BlockPointer c"
  "cmd_fRcvSize (sent q c) = reply_size c" "cmd_fAddress (sent q c) = cmd_fAddress c"
  "cmd_fData (sent q c) = cmd_fData c" "cmd_fupExpect (sent q c) = cmd_fupExpect c"
  by (simp_all add: sent_def) (simp_all add: cmd_setters)

lemma Command_cases:
  assumes "Command c \<le> kCmdInit"
  obtains "Command c = kCmdRreg" | "Command c = kCmdRblk" | "Command c = kCmdWreg" | "Command c = kCmdWblk"
    | "Command c = kCmdLabo" | "Command c = kCmdAttn" | "Command c = kCmdInit"
proof -
  from assms have "Command c < 8" by (rule order.strict_trans1) (simp add: rl_defs)
  then show ?thesis by (cases rule: u8_lt8_cases) (use that assms in \<open>simp_all add: rl_defs\<close>)
qed

lemma encode_body_eval:
  assumes "wf_cmd c"
  shows "\<exists>s' st'. encode_body c (put [cmd_fRequest c] s) st = Inr (SetRcvSize (reply_size c) c, s', st') \<and>
    PutCrc s' = s\<lparr>pb_fPktBuf := pb_fPktBuf s @ req_full (pb_fCrc s) c, pb_fCrc := req_crc (pb_fCrc s) c\<rparr>"
proof -
  from assms have "Command c \<le> kCmdInit" and blk: "BlockSize c \<le> length (BlockPointer c)" by (simp_all add: wf_cmd_def)
  from this(1) show ?thesis
    by (cases rule: Command_cases)
      (use blk in \<open>auto simp: encode_body_def Let_def reply_size_def req_full_def req_crc_def req_head_def req_data_def
        crc_bytes_def PutCrc_def put_def rl_defs simp del: One_nat_def\<close>)
qed

text \<open>The sequence numbers, one counter for each command code.\<close>

definition seq_next :: "u8 list \<Rightarrow> command \<Rightarrow> u8 list" where
  "seq_next seq c = seq[unat (Command c) := seq ! unat (Command c) + 1]"

fun sent_list :: "u8 list \<Rightarrow> command list \<Rightarrow> command list" where
  "sent_list seq [] = []"
| "sent_list seq (c # cs) = sent (seq ! unat (Command c)) c # sent_list (seq_next seq c) cs"

fun seq_after :: "u8 list \<Rightarrow> command list \<Rightarrow> u8 list" where
  "seq_after seq [] = seq"
| "seq_after seq (c # cs) = seq_after (seq_next seq c) cs"

lemma length_sent_list [simp]: "length (sent_list seq cs) = length cs"
  by (induction seq cs rule: sent_list.induct) simp_all

lemma req_flag [simp]:
  "req_head (cmd_SetFlagBit m c) = req_head c" "req_data (cmd_SetFlagBit m c) = req_data c"
  "req_crc crc (cmd_SetFlagBit m c) = req_crc crc c" "req_full crc (cmd_SetFlagBit m c) = req_full crc c"
proof -
  show h: "req_head (cmd_SetFlagBit m c) = req_head c" and d: "req_data (cmd_SetFlagBit m c) = req_data c"
    by (simp_all add: req_head_def req_data_def) (simp add: cmd_SetFlagBit_def)
  then show e: "req_crc crc (cmd_SetFlagBit m c) = req_crc crc c" by (simp add: req_crc_def)
  with h d show "req_full crc (cmd_SetFlagBit m c) = req_full crc c" by (simp add: req_full_def)
qed

lemma req_rcv [simp]: "req_crc crc (SetRcvSize n c) = req_crc crc c" "req_full crc (SetRcvSize n c) = req_full crc c"
proof -
  have h: "req_head (SetRcvSize n c) = req_head c" and d: "req_data (SetRcvSize n c) = req_data c"
    by (simp_all add: req_head_def req_data_def) (simp add: SetRcvSize_def)
  then show "req_crc crc (SetRcvSize n c) = req_crc crc c" by (simp add: req_crc_def)
  with h d show "req_full crc (SetRcvSize n c) = req_full crc c" by (simp add: req_full_def)
qed

definition packed :: "sndbuf \<Rightarrow> command list \<Rightarrow> sndbuf" where
  "packed s cs = s\<lparr>pb_fPktBuf := pb_fPktBuf s @ req_stream (pb_fCrc s) cs, pb_fCrc := req_crcs (pb_fCrc s) cs\<rparr>"

lemma packed_Cons: "packed s (c # cs) = packed (packed s [c]) cs"
  by (simp add: packed_def)

lemma reply_size_set [simp]:
  "reply_size (cmd_ClearFlagBit m c) = reply_size c" "reply_size (SetSeqNumber q c) = reply_size c"
  by (simp_all add: reply_size_def)

lemma encode_one_eval:
  assumes "wf_cmd c"
  shows "\<exists>st'. encode_one c seq s st =
    Inr (sent (seq ! unat (Command c)) c, seq_next seq c, packed s [sent (seq ! unat (Command c)) c], st')"
proof -
  let ?c1 = "cmd_ClearFlagBit (kFlagPktBeg OR kFlagPktEnd) (SetSeqNumber (seq ! unat (Command c)) c)"
  from assms have "wf_cmd ?c1" by simp
  from encode_body_eval [OF this, of s "stat_inc kStatNCmd 1 st"] show ?thesis
    by (auto simp: encode_one_def Let_def seq_next_def sent_def packed_def)
qed

lemma encode_loop_eval:
  "i + n = length (cl_fList l) \<Longrightarrow> list_all wf_cmd (drop i (cl_fList l)) \<Longrightarrow>
   \<exists>st'. encode_loop n i l seq s st =
     Inr (l\<lparr>cl_fList := take i (cl_fList l) @ sent_list seq (drop i (cl_fList l))\<rparr>,
          seq_after seq (drop i (cl_fList l)), packed s (sent_list seq (drop i (cl_fList l))), st')"
proof (induction n arbitrary: i l seq s st)
  case 0
  then show ?case by (simp add: packed_def)
next
  case (Suc n)
  then have i: "i < length (cl_fList l)" by simp
  let ?c = "cl_fList l ! i" and ?cs = "drop (Suc i) (cl_fList l)"
  from i have d: "drop i (cl_fList l) = ?c # ?cs" by (simp add: Cons_nth_drop_Suc)
  with Suc.prems(2) have wf: "wf_cmd ?c" "list_all wf_cmd ?cs" by simp_all
  let ?c' = "sent (seq ! unat (Command ?c)) ?c"
  from encode_one_eval [OF wf(1), of seq s st] obtain st1 where
    e: "encode_one ?c seq s st = Inr (?c', seq_next seq ?c, packed s [?c'], st1)" by blast
  have l1: "cl_fList (cl_put i ?c' l) = take i (cl_fList l) @ ?c' # ?cs" using i by (rule cl_put_split)
  then have t: "take (Suc i) (cl_fList (cl_put i ?c' l)) = take i (cl_fList l) @ [?c']"
    and dr: "drop (Suc i) (cl_fList (cl_put i ?c' l)) = ?cs" using i by simp_all
  from Suc.IH [of "Suc i" "cl_put i ?c' l" "seq_next seq ?c" "packed s [?c']" st1] Suc.prems(1) wf(2) dr t
  obtain st2 where "encode_loop n (Suc i) (cl_put i ?c' l) (seq_next seq ?c) (packed s [?c']) st1 =
      Inr ((cl_put i ?c' l)\<lparr>cl_fList := (take i (cl_fList l) @ [?c']) @ sent_list (seq_next seq ?c) ?cs\<rparr>,
          seq_after (seq_next seq ?c) ?cs, packed (packed s [?c']) (sent_list (seq_next seq ?c) ?cs), st2)"
    using arg_cong [OF l1, of length] i by fastforce
  then show ?case
    using e i by (simp add: cl_at_def d packed_Cons [of s ?c', symmetric]) (simp add: cl_put_def)
qed

section \<open>The whole request\<close>

lemma req_stream_flag:
  "i < length cs \<Longrightarrow> req_stream crc (cs[i := cmd_SetFlagBit m (cs ! i)]) = req_stream crc cs"
  by (induction cs arbitrary: i crc) (auto split: nat.split)

lemma reply_size_flag [simp]:
  "reply_size (cmd_SetFlagBit m c) = reply_size c" "cmd_fRcvSize (cmd_SetFlagBit m c) = cmd_fRcvSize c"
  by (simp add: reply_size_def) (simp add: cmd_SetFlagBit_def)

lemma ready_flag [simp]: "ready (cmd_SetFlagBit m c) = ready c"
  by (cases "cmd_fupExpect c") (simp_all add: ready_def)

definition marked :: "command list \<Rightarrow> command list" where
  "marked cs = (let ds = cs[0 := cmd_SetFlagBit kFlagPktBeg (cs ! 0)]; n = length cs - 1
                in ds[n := cmd_SetFlagBit kFlagPktEnd (ds ! n)])"

lemma length_marked [simp]: "length (marked cs) = length cs"
  by (simp add: marked_def Let_def)

lemma req_stream_marked: "cs \<noteq> [] \<Longrightarrow> req_stream crc (marked cs) = req_stream crc cs"
  by (simp add: marked_def Let_def req_stream_flag)

lemma marked_nth: "i < length cs \<Longrightarrow> \<exists>m. marked cs ! i = cmd_SetFlagBit m (cs ! i)"
proof -
  assume i: "i < length cs"
  have upd: "\<exists>m'. xs[j := cmd_SetFlagBit m (xs ! j)] ! i = cmd_SetFlagBit m' (xs ! i)" if "length xs = length cs" for xs j m
    using i that by (cases "i = j") (auto intro: exI [of _ 0])
  from upd [of cs 0 kFlagPktBeg] upd [of "cs[0 := cmd_SetFlagBit kFlagPktBeg (cs ! 0)]" "length cs - 1" kFlagPktEnd]
  show ?thesis by (auto simp: marked_def Let_def)
qed

lemma EncodeRequest_eval:
  assumes "list_all wf_cmd (cl_fList l)" and "cl_Size l = Suc n"
  shows "\<exists>st. EncodeRequest l 0 n c = Inr (l\<lparr>cl_fList := marked (sent_list (cn_fSeqNumber c) (cl_fList l))\<rparr>,
    c\<lparr>cn_fSeqNumber := seq_after (cn_fSeqNumber c) (cl_fList l),
      cn_fSndPkt := packed (snd_Init (cn_fSndPkt c)) (sent_list (cn_fSeqNumber c) (cl_fList l)), cn_fStats := st\<rparr>)"
proof -
  let ?cs = "sent_list (cn_fSeqNumber c) (cl_fList l)"
  from assms encode_loop_eval [of 0 "Suc n" l "cn_fSeqNumber c" "snd_Init (cn_fSndPkt c)" "cn_fStats c"]
  obtain st where e: "encode_loop (Suc n) 0 l (cn_fSeqNumber c) (snd_Init (cn_fSndPkt c)) (cn_fStats c) =
     Inr (l\<lparr>cl_fList := ?cs\<rparr>, seq_after (cn_fSeqNumber c) (cl_fList l), packed (snd_Init (cn_fSndPkt c)) ?cs, st)"
    by (auto simp: cl_Size_def)
  have len: "length ?cs = Suc n" using assms(2) by (simp add: cl_Size_def)
  then have "?cs \<noteq> []" by (metis list.size(3) nat.distinct(1))
  with len show ?thesis
    using e by (intro exI [of _ st]) (simp add: EncodeRequest_def set_flag_at_def cl_at_def cl_put_def marked_def Let_def del: encode_loop.simps)
qed

text \<open>What the caller set up and the transport must not change.\<close>

definition req_view :: "command \<Rightarrow> u8 \<times> u16 \<times> u16 \<times> u16 list \<times> nat \<times> expect option" where
  "req_view c = (Command c, cmd_fAddress c, cmd_fData c, BlockPointer c, BlockSize c, cmd_fupExpect c)"

lemma req_view_set [simp]: "req_view (cmd_SetFlagBit m c) = req_view c" "req_view (sent q c) = req_view c"
  by (simp_all add: req_view_def) (simp add: cmd_SetFlagBit_def)

lemma req_view_sent_list: "map req_view (sent_list seq cs) = map req_view cs"
  by (induction seq cs rule: sent_list.induct) simp_all

lemma req_view_marked: "map req_view (marked cs) = map req_view cs"
  by (rule nth_equalityI) (use marked_nth [of _ cs] in \<open>auto, metis req_view_set(1)\<close>)

lemma SeqNumber_flag [simp]: "SeqNumber (cmd_SetFlagBit m c) = SeqNumber c"
  by (simp add: SeqNumber_def)

lemma SeqNumber_sent: "SeqNumber (sent q c) = q AND 0x1f"
proof -
  have "SeqNumber (sent q c) = SeqNumber (SetSeqNumber q c)"
    by (simp add: sent_def SeqNumber_def cmd_SetFlagBit_def SetRcvSize_def cmd_ClearFlagBit_def)
  then show ?thesis by (simp add: SeqNumber_SetSeqNumber)
qed

text \<open>The number of earlier commands with the same code.\<close>

definition earlier :: "command list \<Rightarrow> nat \<Rightarrow> nat" where
  "earlier cs i = length (filter (\<lambda>c. Command c = Command (cs ! i)) (take i cs))"

lemma sent_list_seq:
  "i < length cs \<Longrightarrow> list_all (\<lambda>c. unat (Command c) < length seq) cs \<Longrightarrow>
     SeqNumber (sent_list seq cs ! i) = (seq ! unat (Command (cs ! i)) + of_nat (earlier cs i)) AND 0x1f"
proof (induction seq cs arbitrary: i rule: sent_list.induct)
  case (2 seq c cs)
  show ?case
  proof (cases i)
    case 0
    then show ?thesis by (simp add: SeqNumber_sent earlier_def)
  next
    case (Suc j)
    have "unat (Command c) = unat (Command (cs ! j)) \<longleftrightarrow> Command c = Command (cs ! j)"
      by (simp add: word_unat_eq_iff)
    with 2 Suc show ?thesis by (simp add: earlier_def seq_next_def nth_list_update add.assoc)
  qed
qed simp

lemma wf_cmd_index: "list_all wf_cmd cs \<Longrightarrow> length seq = 8 \<Longrightarrow> list_all (\<lambda>c. unat (Command c) < length seq) cs"
  by (auto simp: list_all_iff wf_cmd_def rl_defs word_le_nat_alt)

section \<open>Properties\<close>

text \<open>C28: \<open>EncodeRequest\<close> never fails on a command list that is ready to be executed, and it puts into
  the packet buffer, command by command, the request byte, address, data or count, with the running
  CRC after the header and, for a block write, after the data. It changes nothing that the caller set
  up, and numbers the commands of each kind consecutively modulo 32.\<close>

theorem EncodeRequest_packet:
  assumes "wf_clist l" and "cl_Size l = Suc n" and "length (cn_fSeqNumber c) = 8"
  shows "\<exists>l' c'. EncodeRequest l 0 n c = Inr (l', c') \<and>
    pb_fPktBuf (cn_fSndPkt c') = req_stream Crc_Clear (cl_fList l') \<and>
    map req_view (cl_fList l') = map req_view (cl_fList l) \<and>
    (\<forall>i \<le> n. SeqNumber (cl_fList l' ! i) =
       (cn_fSeqNumber c ! unat (Command (cl_fList l ! i)) + of_nat (earlier (cl_fList l) i)) AND 0x1f) \<and>
    cn_fupPort c' = cn_fupPort c \<and> cn_fRcvPkt c' = cn_fRcvPkt c"
proof -
  let ?cs = "sent_list (cn_fSeqNumber c) (cl_fList l)"
  from assms(1) have wf: "list_all wf_cmd (cl_fList l)" by (simp add: wf_clist_def list_all_iff)
  from EncodeRequest_eval [OF wf assms(2), of c] obtain st where
    e: "EncodeRequest l 0 n c = Inr (l\<lparr>cl_fList := marked ?cs\<rparr>,
      c\<lparr>cn_fSeqNumber := seq_after (cn_fSeqNumber c) (cl_fList l),
        cn_fSndPkt := packed (snd_Init (cn_fSndPkt c)) ?cs, cn_fStats := st\<rparr>)" by blast
  have len: "length ?cs = Suc n" using assms(2) by (simp add: cl_Size_def)
  have "SeqNumber (marked ?cs ! i) =
       (cn_fSeqNumber c ! unat (Command (cl_fList l ! i)) + of_nat (earlier (cl_fList l) i)) AND 0x1f" if "i \<le> n" for i
    using sent_list_seq [of i "cl_fList l" "cn_fSeqNumber c"] marked_nth [of i ?cs] wf_cmd_index [OF wf assms(3)] len that
    by auto
  moreover from len have "?cs \<noteq> []" by (metis list.size(3) nat.distinct(1))
  ultimately show ?thesis
    using e by (simp add: req_stream_marked req_view_marked req_view_sent_list packed_def snd_Init_def)
qed

theorem EncodeRequest_packet_witness:
  "\<exists>l' c'. EncodeRequest (demo_list [demo_cmd]) 0 0 (demo_conn []) = Inr (l', c') \<and>
    pb_fPktBuf (cn_fSndPkt c') = req_stream Crc_Clear (cl_fList l')"
proof -
  have "wf_clist (demo_list [demo_cmd])"
    by (simp add: wf_clist_def demo_list_def wf_cmd_def demo_cmd_def cmd_new_def cmd_views TestFlagAny_def rl_defs)
  from EncodeRequest_packet [OF this, of 0 "demo_conn []"] show ?thesis
    by (auto simp: demo_list_def cl_Size_def demo_conn_def connect_new_def)
qed

end
