(* ===== verification/RlinkExec.thy ===== *)
theory RlinkExec
  imports RlinkEncode
begin

text \<open>
  The path of a command list through the connection: how \<open>ReadResponse\<close> collects a response packet
  from reads of any size, how attention notifies are collected, and the execution of a command
  list from the request on the wire to the decoded replies.
\<close>

section \<open>The receiver keeps what decoding needs\<close>

lemma bstep_crc [simp]: "pb_fCrc (bstep s) = pb_fCrc s"
proof -
  have i: "pb_fCrc (case idle_esc ec t of Inl u \<Rightarrow> u | Inr u \<Rightarrow> u) = pb_fCrc t" for ec t
    by (simp add: idle_esc_def SetFlagBit_def rcv_inc_def)
  have f: "pb_fCrc (case fill_esc ec t of Inl u \<Rightarrow> u | Inr u \<Rightarrow> u) = pb_fCrc t" for ec t
    by (simp add: fill_esc_def fill_nak_def SetFlagBit_def rcv_inc_def Let_def)
  show ?thesis
    by (simp add: bstep_def Let_def state_esc_def i f) (simp add: rcv_inc_def see_esc_def idle_drop_def fill_push_def)
qed

lemma brun_crc [simp]: "pb_fCrc (brun s) = pb_fCrc s"
  by (induction s rule: brun.induct) (simp add: brun.simps)

lemma brun_NDone [simp]: "rcv_fNDone (brun s) = rcv_fNDone s"
  by (simp add: brun_pkt)

section \<open>Reading one chunk\<close>

text \<open>The connection waits for data: open port, empty raw buffer.\<close>

definition waiting :: "connect \<Rightarrow> bool" where
  "waiting c \<longleftrightarrow> IsOpen c \<and> rcv_inv (cn_fRcvPkt c) \<and> pending (cn_fRcvPkt c) = []"

lemma pending_Nil: "rcv_inv r \<Longrightarrow> pending r = [] \<longleftrightarrow> rcv_fRawBufDone r = rcv_fRawBufSize r"
  by (auto simp: pending_def rcv_inv_def)

text \<open>The kernel has the chunks \<open>cs\<close> for the next reads.\<close>

definition feeds :: "u8 list list \<Rightarrow> port \<Rightarrow> bool" where
  "feeds cs p \<longleftrightarrow> po_polls p = replicate (length cs) PollReady \<and> po_reads p = map ReadBytes cs \<and>
     list_all (\<lambda>c. c \<noteq> [] \<and> length c \<le> kRawBufLen) cs"

definition fed :: "u8 list \<Rightarrow> port \<Rightarrow> port" where
  "fed ds p = port_inc kStatNPortRxByt (length ds) (port_inc kStatNPortRead 1
     (p\<lparr>po_polls := tl (po_polls p), po_reads := tl (po_reads p)\<rparr>))"

lemma feeds_fed: "feeds (d # cs) p \<Longrightarrow> feeds cs (fed d p)"
  by (simp add: feeds_def fed_def port_inc_def)

lemma fed_sel [simp]: "po_fIsOpen (fed ds p) = po_fIsOpen p" "po_clock (fed ds p) = po_clock p"
  "po_tick (fed ds p) = po_tick p" "po_out (fed ds p) = po_out p"
  by (simp_all add: fed_def)

lemma ReadData_fed:
  assumes "feeds (d # cs) p" and "po_fIsOpen p" and "rcv_inv r" and "pending r = []" and "0 \<le> timeout"
  shows "\<exists>r'. ReadData p timeout r = Inr (int (length d), fed d p, r') \<and> pending r' = d \<and> rcore_of r' = rcore_of r \<and>
    rcv_inv r' \<and> rcv_fNDone r' = rcv_fNDone r \<and> pb_fCrc r' = pb_fCrc r"
proof -
  let ?r' = "r\<lparr>rcv_fRawBufDone := 0, rcv_fRawBufSize := length d, rcv_fRawBuf := d @ drop (length d) (rcv_fRawBuf r)\<rparr>"
  have d: "d \<noteq> []" "length d \<le> kRawBufLen" using assms(1) by (simp_all add: feeds_def)
  have k: "0 < kRawBufLen" by (simp add: kRawBufLen_def)
  have rd: "port_Read kRawBufLen timeout p = Inr (int (length d), d, fed d p)"
    using assms(1,2,5) d k
    by (cases p) (simp add: port_Read_def PollRead_def feeds_def fed_def port_inc_def Let_def)
  have "ReadData p timeout r = Inr (int (length d), fed d p, ?r')"
    using rd assms(3,4,5) d by (cases r) (simp add: ReadData_def pending_Nil Let_def kTout_def)
  moreover have "rcv_inv ?r'" using raw_inv [OF assms(3) d(2), of "length d"] by simp
  moreover have "pending ?r' = d" by (simp add: pending_def)
  moreover have "rcore_of ?r' = rcore_of r" by (simp add: rcore_of_def)
  ultimately show ?thesis by auto
qed

section \<open>Reading a response packet\<close>

lemma brun_core:
  assumes "rcv_inv r" and "arun (rcore_of r) (pending r) = (core, rest)"
  shows "rcore_of (brun r) = core" and "pending (brun r) = rest"
  using brun_abs [of r] assms by (simp_all add: rcv_inv_def)

lemma response_loop_pend:
  assumes "rcv_inv (cn_fRcvPkt c)" and "pending (cn_fRcvPkt c) \<noteq> []"
    and "arun (rcore_of (cn_fRcvPkt c)) (pending (cn_fRcvPkt c)) = (core, rest)" and "aactive core"
  shows "response_loop c = Inr (False, with_rcv (brun (cn_fRcvPkt c)) c)"
proof -
  have "rcv_active (brun (cn_fRcvPkt c))"
    using brun_core(1) [OF assms(1,3)] assms(4) by (metis aactive_rcore)
  then show ?thesis
    using assms(1,2) by (subst response_loop.simps) (simp add: ProcessData_brun pending_Nil pend_active [symmetric])
qed

lemma response_loop_done:
  assumes "rcv_inv (cn_fRcvPkt c)" and "pending (cn_fRcvPkt c) \<noteq> []"
    and "arun (rcore_of (cn_fRcvPkt c)) (pending (cn_fRcvPkt c)) = (core, rest)"
    and "rc_st core = kRcvDone" and "bit (rc_flags core) 0"
  shows "response_loop c = Inr (True, with_rcv (brun (cn_fRcvPkt c)) c)"
proof -
  let ?r = "brun (cn_fRcvPkt c)"
  from brun_core(1) [OF assms(1,3)] have core: "rcore_of ?r = core" .
  have "rcv_fRcvState ?r = kRcvDone" "bit (pb_fFlags ?r) 0"
    using arg_cong [OF core, of rc_st] arg_cong [OF core, of rc_flags] assms(4,5) by simp_all
  moreover from this(2) have "pb_fFlags ?r AND kFlagSopSeen \<noteq> 0"
    by (metis bit_0_eq bit_and_iff bot_apply bot_bool_def flag_bits(1))
  ultimately have "PacketState ?r = kPktResp" by (simp add: PacketState_def TestFlag_def)
  then show ?thesis
    using assms(1,2) by (subst response_loop.simps) (simp add: ProcessData_brun pending_Nil)
qed

text \<open>Before the end of a packet the receiver has consumed all bytes and is still active.\<close>

lemma arun_prefix:
  assumes "arun c (xs @ ys) = (core, [])" and "ys \<noteq> []"
  obtains c1 where "arun c xs = (c1, [])" and "aactive c1" and "arun c1 ys = (core, [])"
proof -
  obtain c1 rest where r: "arun c xs = (c1, rest)" by fastforce
  with assms have e: "rest = []" "arun c1 ys = (core, [])" by (auto simp: arun_append split: if_splits)
  moreover have "aactive c1" using e(2) assms(2) by (cases ys) (auto split: if_splits)
  ultimately show ?thesis using that r by simp
qed

lemma clock_step:
  "cn_fupPort c = Some p \<Longrightarrow> cn_GetClock c = (po_clock p (po_tick p), c\<lparr>cn_fupPort := Some (p\<lparr>po_tick := Suc (po_tick p)\<rparr>)\<rparr>)"
  by (simp add: cn_GetClock_def GetClock_def)

lemma read_chunks:
  assumes "waiting c" and "cn_fupPort c = Some p" and "feeds cs p" and "\<And>k. po_clock p k < tend" and "tnow < tend"
    and "arun (rcore_of (cn_fRcvPkt c)) (concat cs) = (core, [])" and "rcv_active (cn_fRcvPkt c)"
    and "rc_st core = kRcvDone" and "bit (rc_flags core) 0"
  shows "\<exists>p' r'. read_response_loop tend tnow c = Inr (True, c\<lparr>cn_fupPort := Some p', cn_fRcvPkt := r'\<rparr>) \<and>
    po_out p' = po_out p \<and> po_fIsOpen p' \<and> rcore_of r' = core \<and> pending r' = [] \<and> rcv_inv r' \<and>
    rcv_fNDone r' = rcv_fNDone (cn_fRcvPkt c) \<and> pb_fCrc r' = pb_fCrc (cn_fRcvPkt c)"
  using assms
proof (induction cs arbitrary: c p tnow)
  case Nil
  then show ?case by (auto simp: rcv_active_def)
next
  case (Cons d cs)
  have p: "cn_fupPort c = Some p" "po_fIsOpen p" and inv: "rcv_inv (cn_fRcvPkt c)" "pending (cn_fRcvPkt c) = []"
    using Cons.prems(1,2) by (simp_all add: waiting_def IsOpen_def)
  from ReadData_fed [OF Cons.prems(3) p(2) inv, of "tend - tnow"] Cons.prems(5)
  obtain r1 where r1: "ReadData p (tend - tnow) (cn_fRcvPkt c) = Inr (int (length d), fed d p, r1)"
    "pending r1 = d" "rcore_of r1 = rcore_of (cn_fRcvPkt c)" "rcv_inv r1"
    "rcv_fNDone r1 = rcv_fNDone (cn_fRcvPkt c)" "pb_fCrc r1 = pb_fCrc (cn_fRcvPkt c)" by auto
  have d: "d \<noteq> []" using Cons.prems(3) by (simp add: feeds_def)
  let ?c1 = "c\<lparr>cn_fupPort := Some (fed d p), cn_fRcvPkt := r1\<rparr>"
  let ?c2 = "c\<lparr>cn_fupPort := Some (fed d p), cn_fRcvPkt := brun r1\<rparr>"
  have unfold: "read_response_loop tend tnow c =
      (case response_loop ?c1 of Inl e \<Rightarrow> Inl e | Inr (found, c2) \<Rightarrow>
         if found then Inr (True, c2) else read_response_loop tend (fst (cn_GetClock c2)) (snd (cn_GetClock c2)))"
    using Cons.prems(1,5) p r1(1) d by (subst read_response_loop.simps) (simp add: waiting_def)
  have inv2: "rcv_inv (brun r1)" using r1(4) by (rule brun_inv)
  show ?case
  proof (cases "cs = []")
    case True
    then have a: "arun (rcore_of r1) (pending r1) = (core, [])" using Cons.prems(6) r1(2,3) by simp
    have "response_loop ?c1 = Inr (True, ?c2)"
      using response_loop_done [of ?c1 core "[]"] r1(2,4) d a Cons.prems(8,9) by simp
    with unfold brun_core [OF r1(4) a] inv2 r1 p show ?thesis
      by (intro exI [of _ "fed d p"] exI [of _ "brun r1"]) simp
  next
    case False
    then have ne: "concat cs \<noteq> []" using Cons.prems(3) by (auto simp: feeds_def list_all_iff neq_Nil_conv)
    have ar: "arun (rcore_of r1) (pending r1 @ concat cs) = (core, [])" using Cons.prems(6) r1(2,3) by simp
    from arun_prefix [OF ar ne] obtain core1 where a: "arun (rcore_of r1) (pending r1) = (core1, [])"
      and act: "aactive core1" and rest: "arun core1 (concat cs) = (core, [])" by blast
    have l: "response_loop ?c1 = Inr (False, ?c2)"
      using response_loop_pend [of ?c1 core1 "[]"] r1(2,4) d a act by simp
    note b = brun_core [OF r1(4) a]
    let ?p3 = "(fed d p)\<lparr>po_tick := Suc (po_tick p)\<rparr>"
    let ?c3 = "c\<lparr>cn_fupPort := Some ?p3, cn_fRcvPkt := brun r1\<rparr>"
    have clk: "cn_GetClock ?c2 = (po_clock p (po_tick p), ?c3)"
      using clock_step [of ?c2 "fed d p"] by (cases c) simp
    have "\<exists>p' r'. read_response_loop tend (po_clock p (po_tick p)) ?c3 = Inr (True, ?c3\<lparr>cn_fupPort := Some p', cn_fRcvPkt := r'\<rparr>) \<and>
      po_out p' = po_out ?p3 \<and> po_fIsOpen p' \<and> rcore_of r' = core \<and> pending r' = [] \<and> rcv_inv r' \<and>
      rcv_fNDone r' = rcv_fNDone (cn_fRcvPkt ?c3) \<and> pb_fCrc r' = pb_fCrc (cn_fRcvPkt ?c3)"
    proof (rule Cons.IH)
      show "waiting ?c3" using inv2 b p by (simp add: waiting_def IsOpen_def)
      show "feeds cs ?p3" using feeds_fed [OF Cons.prems(3)] by (simp add: feeds_def)
      have "rcv_active (brun r1)" using b(1) act by (metis aactive_rcore)
      then show "rcv_active (cn_fRcvPkt ?c3)" by simp
    qed (use Cons.prems rest b in simp_all)
    with unfold l clk r1 show ?thesis by auto
  qed
qed

text \<open>The receiver between two packets.\<close>

definition at_rest :: "connect \<Rightarrow> bool" where
  "at_rest c \<longleftrightarrow> waiting c \<and> rcv_fRcvState (cn_fRcvPkt c) = kRcvIdle \<and> \<not> rcv_fEscSeen (cn_fRcvPkt c) \<and>
     rcv_fNDone (cn_fRcvPkt c) = 0 \<and> pb_fCrc (cn_fRcvPkt c) = Crc_Clear"

lemma at_rest_core: "at_rest c \<Longrightarrow> pb_fPktBuf (cn_fRcvPkt c) = [] \<and> rcv_fNakIndex (cn_fRcvPkt c) = - 1"
  by (auto simp: at_rest_def waiting_def rcv_inv_def core_inv_def)

lemma ReadResponse_frame:
  assumes "at_rest c" and "cn_fupPort c = Some p" and "feeds cs p" and "concat cs = frame xon ds"
    and "\<And>k. po_clock p k < po_clock p (po_tick p) + timeout" and "0 < timeout"
  shows "\<exists>p' r'. ReadResponse timeout c = Inr (True, c\<lparr>cn_fupPort := Some p', cn_fRcvPkt := r'\<rparr>) \<and>
    po_out p' = po_out p \<and> po_fIsOpen p' \<and> pb_fPktBuf r' = ds \<and> rcv_fNakIndex r' = - 1 \<and> pending r' = [] \<and>
    rcv_inv r' \<and> rcv_fNDone r' = 0 \<and> pb_fCrc r' = Crc_Clear \<and> \<not> rcv_fEscSeen r'"
proof -
  let ?p1 = "p\<lparr>po_tick := Suc (po_tick p)\<rparr>"
  let ?c1 = "c\<lparr>cn_fupPort := Some ?p1\<rparr>"
  let ?t = "po_clock p (po_tick p)"
  let ?core = "(rcore_of (cn_fRcvPkt c))\<lparr>rc_st := kRcvDone, rc_pkt := ds,
      rc_flags := pb_fFlags (cn_fRcvPkt c) OR kFlagSopSeen OR kFlagEopSeen\<rparr>"
  note rest = at_rest_core [OF assms(1)]
  have rr: "ReadResponse timeout c = read_response_loop (?t + timeout) ?t ?c1"
    using clock_step [OF assms(2)] by (simp add: ReadResponse_def)
  have "arun (rcore_of (cn_fRcvPkt c)) (frame xon ds @ []) = (?core, [])"
    by (subst arun_frame) (use assms(1) rest in \<open>simp_all add: at_rest_def\<close>)
  then have a: "arun (rcore_of (cn_fRcvPkt ?c1)) (concat cs) = (?core, [])" by (simp add: assms(4))
  have w: "waiting ?c1" using assms(1,2) by (simp add: at_rest_def waiting_def IsOpen_def)
  have f: "feeds cs ?p1" using assms(3) by (simp add: feeds_def)
  have act: "rcv_active (cn_fRcvPkt ?c1)" using assms(1) by (simp add: at_rest_def rcv_active_def)
  have b: "bit (rc_flags ?core) 0" by (simp add: bit_or_iff)
  from read_chunks [OF w _ f _ _ a act _ b, of "?t + timeout" ?t] assms(5,6) obtain p' r' where
    "read_response_loop (?t + timeout) ?t ?c1 = Inr (True, ?c1\<lparr>cn_fupPort := Some p', cn_fRcvPkt := r'\<rparr>)"
    "po_out p' = po_out p" "po_fIsOpen p'" "rcore_of r' = ?core" "pending r' = []" "rcv_inv r'"
    "rcv_fNDone r' = 0" "pb_fCrc r' = Crc_Clear"
    using assms(1) by (auto simp: at_rest_def)
  moreover from arg_cong [OF this(4), of rc_pkt] arg_cong [OF this(4), of rc_nak] arg_cong [OF this(4), of rc_esc] rest assms(1)
  have "pb_fPktBuf r' = ds" "rcv_fNakIndex r' = - 1" "\<not> rcv_fEscSeen r'" by (simp_all add: at_rest_def)
  ultimately show ?thesis by (intro exI [of _ p'] exI [of _ r']) (simp add: rr)
qed

section \<open>Sending\<close>

lemma write_loop_nofail: "WriteFail \<notin> set es \<Longrightarrow> fst (write_loop buf out es)"
  by (induction buf out es rule: write_loop.induct) auto

lemma port_Write_frame:
  assumes "port_Write buf p = Inr (irc, p')"
  shows "po_polls p' = po_polls p \<and> po_reads p' = po_reads p \<and> po_clock p' = po_clock p \<and> po_tick p' = po_tick p \<and>
    po_fIsOpen p' = po_fIsOpen p"
  using assms by (auto simp: port_Write_def Let_def split: if_splits prod.splits)

lemma port_Write_nofail:
  assumes "po_fIsOpen p" and "buf \<noteq> []" and "WriteFail \<notin> set (po_writes p)"
  shows "\<exists>p'. port_Write buf p = Inr (int (length buf), p')"
proof -
  from write_loop_nofail [OF assms(3), of buf "po_out p"]
  obtain out es where "write_loop buf (po_out p) (po_writes p) = (True, out, es)"
    by (cases "write_loop buf (po_out p) (po_writes p)") auto
  then show ?thesis using assms(1,2) by (simp add: port_Write_def Let_def)
qed

lemma frame_ne [simp]: "frame xon ds \<noteq> []"
  by (simp add: frame_def)

lemma SndPacket_nofail:
  assumes "po_fIsOpen p" and "WriteFail \<notin> set (po_writes p)"
  shows "\<exists>p' s'. SndPacket p s = Inr (True, p', s') \<and> po_out p' = po_out p @ frame (snd_fXonEscape s) (pb_fPktBuf s) \<and>
    po_polls p' = po_polls p \<and> po_reads p' = po_reads p \<and> po_clock p' = po_clock p \<and> po_tick p' = po_tick p \<and> po_fIsOpen p'"
proof -
  let ?s1 = "PutRawEsc kEcSop (s\<lparr>snd_fRawBuf := []\<rparr>)"
  obtain n m s2 where l: "snd_escape_loop (pb_fPktBuf ?s1) 0 0 ?s1 = (n, m, s2)" by (metis prod_cases3)
  let ?s4 = "snd_inc kStatNTxXEsc m (snd_inc kStatNTxEsc n (PutRawEsc kEcEop s2))"
  have raw: "snd_fRawBuf ?s4 = frame (snd_fXonEscape s) (pb_fPktBuf s)"
    using snd_escape_loop_eq [OF l] by (simp add: snd_inc_def PutRawEsc_def frame_def)
  from port_Write_nofail [OF assms(1) frame_ne assms(2)] raw obtain p' where
    w: "port_Write (snd_fRawBuf ?s4) p = Inr (int (length (snd_fRawBuf ?s4)), p')" by metis
  have "SndRaw p ?s4 = Inr (True, p')" using w by (simp add: SndRaw_def)
  then have snd: "SndPacket p s = Inr (True, p', snd_inc kStatNTxPktByt (PktSize ?s4) ?s4)"
    using l by (simp add: SndPacket_def Let_def)
  from port_Write_spec [OF w] raw have "po_out p' = po_out p @ frame (snd_fXonEscape s) (pb_fPktBuf s)"
    by (auto simp: kErr_def)
  with snd port_Write_frame [OF w] assms(1) show ?thesis by simp
qed

section \<open>Executing a command list\<close>

definition prep :: "rlcontext \<Rightarrow> command \<Rightarrow> command" where
  "prep x c = (let c1 = cmd_ClearFlagBit exec_mask c
     in if \<not> cmd_fExpectStatusSet c1 then SetExpectStatusDefault (cx_fStatusVal x) (cx_fStatusMsk x) c1 else c1)"

lemma prep_wf [simp]: "wf_cmd (prep x c) = wf_cmd c" "cmd_fupExpect (prep x c) = cmd_fupExpect c"
  "BlockSize (prep x c) = BlockSize c"
  by (simp_all add: prep_def Let_def) (simp_all add: cmd_setters)

lemma exec_prep_loop_eval:
  "list_all (\<lambda>c. wf_cmd c \<and> TestFlagAny kFlagInit c) cs \<Longrightarrow> \<not> (outside \<and> list_ex (\<lambda>c. Command c = kCmdAttn) cs) \<Longrightarrow>
     exec_prep_loop outside (cx_fStatusVal x) (cx_fStatusMsk x) cs = Inr (map (prep x) cs)"
  by (induction cs) (auto simp: exec_prep_def prep_def Let_def wf_cmd_def)

text \<open>The commands of a list as they are sent.\<close>

definition requests :: "clist \<Rightarrow> rlcontext \<Rightarrow> connect \<Rightarrow> command list" where
  "requests l x c = marked (sent_list (cn_fSeqNumber c) (map (prep x) (cl_fList l)))"

definition expect_fits :: "command \<Rightarrow> bool" where
  "expect_fits c = (case cmd_fupExpect c of None \<Rightarrow> True | Some e \<Rightarrow> length (ex_fBlockVal e) \<le> BlockSize c)"

lemma sent_ready: "wf_cmd c \<Longrightarrow> expect_fits c \<Longrightarrow> ready (sent q c)"
  by (cases "cmd_fupExpect c") (simp_all add: ready_def wf_cmd_def expect_fits_def reply_size_def)

lemma sent_list_ready: "list_all wf_cmd cs \<Longrightarrow> list_all expect_fits cs \<Longrightarrow> list_all ready (sent_list seq cs)"
  by (induction seq cs rule: sent_list.induct) (simp_all add: sent_ready)

lemma marked_ready: "list_all ready cs \<Longrightarrow> list_all ready (marked cs)"
  using marked_nth [of _ cs] by (auto simp: list_all_length) (metis ready_flag)

lemma expect_fits_prep [simp]: "expect_fits (prep x c) = expect_fits c"
  by (cases "cmd_fupExpect c") (simp_all add: expect_fits_def)

lemma requests_ready:
  assumes "wf_clist l" and "list_all expect_fits (cl_fList l)"
  shows "list_all ready (requests l x c)"
  unfolding requests_def
  by (rule marked_ready, rule sent_list_ready) (use assms in \<open>auto simp: wf_clist_def list_all_iff\<close>)

lemma length_requests [simp]: "length (requests l x c) = length (cl_fList l)"
  by (simp add: requests_def)

lemma fold_errors:
  "fold (\<lambda>cmd x. if cmd_failed cmd then IncErrorCount 1 x else x) cs x =
     x\<lparr>cx_fErrCnt := cx_fErrCnt x + length (filter cmd_failed cs)\<rparr>"
  by (induction cs arbitrary: x) (simp_all add: IncErrorCount_def)

lemma AcceptResponse_rest:
  assumes "rcv_inv (cn_fRcvPkt c)" and "pending (cn_fRcvPkt c) = []"
  shows "AcceptResponse c = Inr (with_rcv (AcceptPacket (cn_fRcvPkt c)) c)"
proof -
  let ?r = "AcceptPacket (cn_fRcvPkt c)"
  have "rcv_fRawBufDone ?r = rcv_fRawBufSize ?r" using assms by (simp add: pending_Nil AcceptPacket_def)
  then show ?thesis
    unfolding AcceptResponse_def ProcessUnsolicitedData_def
    by (subst unsolicited_loop.simps) (simp add: ProcessData_def)
qed

lemma ExecPart_ok:
  assumes "list_all wf_cmd (cl_fList l)" and "cl_Size l = Suc n" and "cl_fLaboIndex l = - 1" and "at_rest c"
    and p: "cn_fupPort c = Some p" "WriteFail \<notin> set (po_writes p)" "0 < cn_fTimeout c"
      "\<And>k. po_clock p k < po_clock p (po_tick p) + cn_fTimeout c"
    and cs: "cs = marked (sent_list (cn_fSeqNumber c) (cl_fList l))" "list_all ready cs"
    and rps: "replies_good cs rps" "feeds chunks p" "concat chunks = frame xon (reply_stream Crc_Clear cs rps)"
  shows "\<exists>l' c' p'. ExecPart l 0 n c = Inr (True, l', c') \<and> cl_fList l' = deliver cs rps \<and> cn_fupPort c' = Some p' \<and>
    po_out p' = po_out p @ frame (snd_fXonEscape (cn_fSndPkt c)) (req_stream Crc_Clear cs) \<and> at_rest c'"
proof -
  let ?ss = "sent_list (cn_fSeqNumber c) (cl_fList l)"
  let ?c0 = "cn_inc kStatNExecPart 1 c"
  have open_p: "po_fIsOpen p" using assms(4) p(1) by (simp add: at_rest_def waiting_def IsOpen_def)
  from EncodeRequest_eval [OF assms(1,2), of ?c0] obtain st where
    e: "EncodeRequest l 0 n ?c0 = Inr (l\<lparr>cl_fList := cs\<rparr>, ?c0\<lparr>cn_fSeqNumber := seq_after (cn_fSeqNumber c) (cl_fList l),
      cn_fSndPkt := packed (snd_Init (cn_fSndPkt c)) ?ss, cn_fStats := st\<rparr>)" (is "_ = Inr (?l1, ?c1)") by (auto simp: cs)
  have ne: "?ss \<noteq> []" using assms(2) by (metis length_sent_list cl_Size_def list.size(3) nat.distinct(1))
  have pkt: "pb_fPktBuf (cn_fSndPkt ?c1) = req_stream Crc_Clear cs" "snd_fXonEscape (cn_fSndPkt ?c1) = snd_fXonEscape (cn_fSndPkt c)"
    using req_stream_marked [OF ne] by (simp_all add: cs packed_def snd_Init_def)
  from SndPacket_nofail [OF open_p p(2), of "cn_fSndPkt ?c1"] obtain p2 s2 where
    s: "SndPacket p (cn_fSndPkt ?c1) = Inr (True, p2, s2)"
      "po_out p2 = po_out p @ frame (snd_fXonEscape (cn_fSndPkt c)) (req_stream Crc_Clear cs)"
      "po_polls p2 = po_polls p" "po_reads p2 = po_reads p" "po_clock p2 = po_clock p" "po_tick p2 = po_tick p" "po_fIsOpen p2"
    unfolding pkt by blast
  let ?c2 = "?c1\<lparr>cn_fupPort := Some p2, cn_fSndPkt := s2\<rparr>"
  have r2: "cn_fRcvPkt ?c2 = cn_fRcvPkt c" "cn_fTimeout ?c2 = cn_fTimeout c" by simp_all
  have "at_rest ?c2" using assms(4) s(7) r2(1) by (simp add: at_rest_def waiting_def IsOpen_def)
  from ReadResponse_frame [OF this _ _ rps(3), of p2 "cn_fTimeout c"] rps(2) s p(3,4) obtain p3 r3 where
    r: "ReadResponse (cn_fTimeout c) ?c2 = Inr (True, ?c2\<lparr>cn_fupPort := Some p3, cn_fRcvPkt := r3\<rparr>)"
      "po_out p3 = po_out p2" "po_fIsOpen p3" "pb_fPktBuf r3 = reply_stream Crc_Clear cs rps" "rcv_fNakIndex r3 = - 1"
      "pending r3 = []" "rcv_inv r3" "rcv_fNDone r3 = 0" "pb_fCrc r3 = Crc_Clear" "\<not> rcv_fEscSeen r3"
    by (auto simp: feeds_def)
  let ?c3 = "?c2\<lparr>cn_fupPort := Some p3, cn_fRcvPkt := r3\<rparr>"
  have "length cs = Suc n" using assms(2) by (simp add: cs cl_Size_def)
  with DecodeResponse_ok [of ?l1 n ?c3 rps "[]"] cs(2) rps(1) r assms(3) obtain l' r4 st4 where
    d: "DecodeResponse ?l1 0 n ?c3 = Inr (int (Suc n), l', ?c3\<lparr>cn_fRcvPkt := r4, cn_fStats := st4\<rparr>)"
      "cl_fList l' = deliver cs rps" "rcv_same r3 r4"
    by (auto simp: cl_Size_def LaboActive_def rem_def)
  let ?c4 = "?c3\<lparr>cn_fRcvPkt := r4, cn_fStats := st4\<rparr>"
  have r4: "rcv_inv r4" "pending r4 = []" "\<not> rcv_fEscSeen r4"
    using d(3) r by (auto simp: rcv_same_def pending_def)
  then have a: "AcceptResponse ?c4 = Inr (with_rcv (AcceptPacket r4) ?c4)" using AcceptResponse_rest [of ?c4] by simp
  have "ExecPart l 0 n c = Inr (True, l', with_rcv (AcceptPacket r4) ?c4)"
    using e s(1) r(1) d(1) a p(1) open_p assms(2)
    by (simp add: ExecPart_def IsOpen_def Port_def Let_def)
  moreover have "at_rest (with_rcv (AcceptPacket r4) ?c4)"
    using r4 AcceptPacket_inv [of r4] r(3)
    by (simp add: at_rest_def waiting_def IsOpen_def) (simp add: AcceptPacket_def pending_def)
  ultimately show ?thesis using d(2) s(2) r(2) by auto
qed

section \<open>Example data\<close>

text \<open>A connection at rest whose port delivers the given reads.\<close>

definition demo_feed :: "u8 list list \<Rightarrow> port" where
  "demo_feed cs = demo_port\<lparr>po_polls := replicate (length cs) PollReady, po_reads := map ReadBytes cs, po_clock := (\<lambda>_. 0)\<rparr>"

definition demo_rest :: "u8 list list \<Rightarrow> connect" where
  "demo_rest cs = (connect_new (replicate kRawBufLen 0))\<lparr>cn_fupPort := Some (demo_feed cs)\<rparr>"

lemma demo_at_rest: "at_rest (demo_rest cs)" "cn_fupPort (demo_rest cs) = Some (demo_feed cs)"
  "0 < cn_fTimeout (demo_rest cs)" "WriteFail \<notin> set (po_writes (demo_feed cs))" "\<not> ServerActiveOutside (demo_rest cs)"
  "cn_fSeqNumber (demo_rest cs) = replicate 8 0" "po_clock (demo_feed cs) k = 0"
  using rcv_new_inv [of "replicate kRawBufLen 0"]
  by (simp_all add: at_rest_def waiting_def demo_rest_def connect_new_def IsOpen_def demo_feed_def demo_port_def
      rcv_new_def pending_def ServerActiveOutside_def)

lemma demo_feeds: "list_all (\<lambda>c. c \<noteq> [] \<and> length c \<le> kRawBufLen) cs \<Longrightarrow> feeds cs (demo_feed cs)"
  by (simp add: feeds_def demo_feed_def)

lemma length_frame: "length (frame xon ds) \<le> 2 * length ds + 4"
proof -
  have "length (concat (map (esc_byte xon) ds)) \<le> 2 * length ds"
    by (induction ds) (simp_all add: esc_byte_def)
  then show ?thesis by (simp add: frame_def)
qed

section \<open>Properties\<close>

text \<open>C27: A response packet is received whatever the sizes of the reads are: when the bytes of one frame
  arrive in any number of non empty reads within the timeout, \<open>ReadResponse\<close> returns true with exactly
  the packet of the frame in its buffer, ready to be decoded.\<close>

theorem ReadResponse_any_chunks:
  assumes "at_rest c" and "cn_fupPort c = Some p" and "feeds cs p" and "concat cs = frame xon ds"
    and "\<And>k. po_clock p k < po_clock p (po_tick p) + timeout" and "0 < timeout"
  shows "\<exists>c'. ReadResponse timeout c = Inr (True, c') \<and> pb_fPktBuf (cn_fRcvPkt c') = ds \<and>
    rcv_inv (cn_fRcvPkt c') \<and> rcv_fNDone (cn_fRcvPkt c') = 0 \<and> rcv_fNakIndex (cn_fRcvPkt c') = - 1 \<and>
    cn_fAttnNotiPatt c' = cn_fAttnNotiPatt c"
proof -
  from ReadResponse_frame [OF assms] obtain p' r' where
    "ReadResponse timeout c = Inr (True, c\<lparr>cn_fupPort := Some p', cn_fRcvPkt := r'\<rparr>)" "pb_fPktBuf r' = ds"
    "rcv_inv r'" "rcv_fNDone r' = 0" "rcv_fNakIndex r' = - 1" by blast
  then show ?thesis by auto
qed

theorem ReadResponse_any_chunks_witness:
  "\<exists>c'. ReadResponse 5 (demo_rest [[0xCA], [esc_enc kEcSop, 7], [0xCA, esc_enc kEcEop]]) = Inr (True, c') \<and>
     pb_fPktBuf (cn_fRcvPkt c') = [7]"
proof -
  let ?cs = "[[0xCA], [esc_enc kEcSop, 7], [0xCA, esc_enc kEcEop]]"
  have f: "feeds ?cs (demo_feed ?cs)" by (rule demo_feeds) (simp add: kRawBufLen_def)
  have "concat ?cs = frame False [7]" by (simp add: frame_def esc_byte_def rl_defs)
  from ReadResponse_any_chunks [OF demo_at_rest(1,2) f this, of 5] show ?thesis
    by (auto simp: demo_at_rest(7))
qed

text \<open>C1: Executing a command list works from end to end: if the kernel takes the request and the
  device answers the commands as they were sent, in reads of any size and within the timeout, then
  \<open>Exec\<close> returns true, exactly one frame with the requests was written to the port, every command
  holds its reply, the error count of the context grows by the number of commands with a failed
  check, and the connection is ready for the next list.\<close>

theorem Exec_roundtrip:
  assumes "wf_clist l" and "cl_Size l = Suc n" and "list_all expect_fits (cl_fList l)" and "at_rest c"
    and "\<not> (ServerActiveOutside c \<and> list_ex (\<lambda>cmd. Command cmd = kCmdAttn) (cl_fList l))"
    and "cn_fupPort c = Some p" and "WriteFail \<notin> set (po_writes p)" and "0 < cn_fTimeout c"
    and "\<And>k. po_clock p k < po_clock p (po_tick p) + cn_fTimeout c"
    and "replies_good (requests l x c) rps" and "feeds chunks p"
    and "concat chunks = frame xon (reply_stream Crc_Clear (requests l x c) rps)"
  shows "\<exists>l' x' c' p'. Exec l x c = Inr (True, l', x', c') \<and> cl_fList l' = deliver (requests l x c) rps \<and>
    cn_fupPort c' = Some p' \<and>
    po_out p' = po_out p @ frame (snd_fXonEscape (cn_fSndPkt c)) (req_stream Crc_Clear (requests l x c)) \<and>
    cx_fErrCnt x' = cx_fErrCnt x + length (filter cmd_failed (cl_fList l')) \<and> at_rest c'"
proof -
  let ?c1 = "cn_inc kStatNExec 1 c" and ?l1 = "(ClearLaboIndex l)\<lparr>cl_fList := map (prep x) (cl_fList l)\<rparr>"
  have prep: "exec_prep_loop (ServerActiveOutside c) (cx_fStatusVal x) (cx_fStatusMsk x) (cl_fList l) =
      Inr (map (prep x) (cl_fList l))"
    using assms(1,5) by (intro exec_prep_loop_eval) (simp_all add: wf_clist_def)
  have srv: "ServerActiveOutside ?c1 = ServerActiveOutside c" by (simp add: ServerActiveOutside_def)
  have rest: "at_rest ?c1" using assms(4) by (simp add: at_rest_def waiting_def IsOpen_def)
  have wf: "list_all wf_cmd (cl_fList ?l1)" using assms(1) by (auto simp: wf_clist_def list_all_iff)
  have cs: "requests l x c = marked (sent_list (cn_fSeqNumber ?c1) (cl_fList ?l1))" by (simp add: requests_def)
  from ExecPart_ok [of ?l1 n ?c1 p "requests l x c" rps chunks xon, OF wf _ _ rest _ assms(7) _ _ cs
      requests_ready [OF assms(1,3)] assms(10-12)] assms(2,6,8,9)
  obtain l' c' p' where ep: "ExecPart ?l1 0 n ?c1 = Inr (True, l', c')" "cl_fList l' = deliver (requests l x c) rps"
    "cn_fupPort c' = Some p'" "at_rest c'"
    "po_out p' = po_out p @ frame (snd_fXonEscape (cn_fSndPkt c)) (req_stream Crc_Clear (requests l x c))"
    by (auto simp: cl_Size_def ClearLaboIndex_def)
  have "IsOpen c" using assms(4) by (simp add: at_rest_def waiting_def)
  then have "Exec l x c = Inr (True, l', x\<lparr>cx_fErrCnt := cx_fErrCnt x + length (filter cmd_failed (cl_fList l'))\<rparr>, c')"
    using ep(1) prep srv assms(2) by (simp add: Exec_def Let_def ClearLaboIndex_def cl_Size_def fold_errors [simplified])
  with ep show ?thesis by auto
qed

theorem Exec_roundtrip_witness:
  "\<exists>c l' x' c'. at_rest c \<and> Exec (demo_list [demo_cmd]) context_new c = Inr (True, l', x', c') \<and> at_rest c' \<and>
     map cmd_fData (cl_fList l') = [0x1234]"
proof -
  let ?l = "demo_list [demo_cmd]"
  let ?ss = "requests ?l context_new (demo_rest [])"
  let ?pkt = "reply_stream Crc_Clear ?ss [demo_reply]"
  let ?c = "demo_rest [frame False ?pkt]"
  have req: "requests ?l context_new ?c = ?ss" by (simp add: requests_def demo_at_rest(6))
  have "length ?ss = Suc 0" by (simp add: demo_list_def)
  then obtain d where d: "?ss = [d]" by (metis length_Suc_conv length_0_conv)
  have view: "map req_view ?ss = map req_view (map (prep context_new) [demo_cmd])"
    by (simp add: requests_def req_view_marked req_view_sent_list demo_list_def)
  have "Command d = kCmdRreg" using view d demo_ready(2)
    by (simp add: req_view_def prep_def Let_def split: if_splits)
  then have good: "reply_good d demo_reply" "\<not> labo_hit d demo_reply"
    by (simp_all add: reply_good_def reply_ok_def labo_hit_def rl_defs)
  have "length ?pkt = 6" using length_reply_bytes [of d demo_reply] good \<open>Command d = kCmdRreg\<close>
    by (simp add: d reply_full_def Let_def reply_size_def reply_good_def)
  with length_frame [of False ?pkt] have f: "feeds [frame False ?pkt] (demo_feed [frame False ?pkt])"
    by (intro demo_feeds) (simp add: kRawBufLen_def)
  have wf: "wf_clist ?l" "list_all expect_fits (cl_fList ?l)"
    by (simp_all add: wf_clist_def demo_list_def wf_cmd_def demo_cmd_def cmd_new_def cmd_views TestFlagAny_def
        expect_fits_def rl_defs)
  obtain l' x' c' where ex: "Exec ?l context_new ?c = Inr (True, l', x', c')" "cl_fList l' = deliver ?ss [demo_reply]" "at_rest c'"
    using Exec_roundtrip [of ?l 0 ?c "demo_feed [frame False ?pkt]" context_new "[demo_reply]" "[frame False ?pkt]" False]
      wf demo_at_rest f req good d by (auto simp: demo_list_def cl_Size_def)
  have "cmd_fData (checked (got d demo_reply)) = 0x1234"
    using \<open>Command d = kCmdRreg\<close>
    by (simp add: checked_def got_def store_def) (simp add: SetStatus_def SetData_def demo_reply_def)
  with ex d good demo_at_rest(1) show ?thesis by (intro exI [of _ ?c]) auto
qed

end
