(* ===== verification/RlinkAttn.thy ===== *)
theory RlinkAttn
  imports RlinkExec
begin

text \<open>Attention notifies: the device sends them unasked, as frames with the escape code
  \<open>kEcAttn\<close>. \<open>attn_frame\<close> is such a frame; the lemmas follow it through the byte
  machine of \<open>RlinkReceiver\<close>, \<open>DecodeAttnNotify\<close>, \<open>ProcessAttnNotify\<close> and the loop of
  \<open>ProcessUnsolicitedData\<close> (\<open>RlinkConnect.cpp\<close>).\<close>

section \<open>Attention notifies\<close>

definition attn_pkt_bytes :: "u16 \<Rightarrow> u8 list" where
  "attn_pkt_bytes apat = (let crc = crc_of Crc_Clear [lo8 apat, hi8 apat] in [lo8 apat, hi8 apat, lo8 crc, hi8 crc])"

definition attn_frame :: "bool \<Rightarrow> u16 \<Rightarrow> u8 list" where
  "attn_frame xon apat = [kSymEsc, esc_enc kEcAttn] @ concat (map (esc_byte xon) (attn_pkt_bytes apat)) @
     [kSymEsc, esc_enc kEcEop]"

text \<open>Where a notify is remembered: in an active server, otherwise in the connection.\<close>

definition attn_seen :: "connect \<Rightarrow> u16" where
  "attn_seen c = (case cn_fpServ c of
     Some v \<Rightarrow> if sv_active v then sv_fAttnNotiPatt v else cn_fAttnNotiPatt c | None \<Rightarrow> cn_fAttnNotiPatt c)"

lemma attn_seen_note: "attn_seen (note_attn a c) = attn_seen c OR a"
  by (simp add: attn_seen_def note_attn_def ServerActive_def SignalAttnNotify_def sv_Wakeup_def split: option.split)

lemma attn_seen_sel [simp]:
  "attn_seen (with_rcv r c) = attn_seen c" "attn_seen (snd (cn_GetClock c)) = attn_seen c"
  "attn_seen (c\<lparr>cn_fTsLastAttnNoti := t\<rparr>) = attn_seen c"
  by (simp_all add: attn_seen_def split: option.split)

lemma ServerActive_note: "ServerActive (note_attn a c) = ServerActive c"
  by (auto simp: note_attn_def ServerActive_def SignalAttnNotify_def sv_Wakeup_def split: option.split)

lemma ServerActive_sel [simp]:
  "ServerActive (with_rcv r c) = ServerActive c" "ServerActive (snd (cn_GetClock c)) = ServerActive c"
  "ServerActive (c\<lparr>cn_fTsLastAttnNoti := t\<rparr>) = ServerActive c"
  by (simp_all add: ServerActive_def split: option.split)

lemma arun_attn_frame:
  assumes "rc_st c = kRcvIdle" and "\<not> rc_esc c"
  shows "arun c (attn_frame xon a @ bs) =
    (c\<lparr>rc_st := kRcvDone, rc_pkt := rc_pkt c @ attn_pkt_bytes a,
       rc_flags := rc_flags c OR kFlagAttnSeen OR kFlagEopSeen\<rparr>, bs)"
proof -
  let ?c1 = "c\<lparr>rc_st := kRcvFill, rc_flags := rc_flags c OR kFlagAttnSeen\<rparr>" and ?ds = "attn_pkt_bytes a"
  have "arun c (attn_frame xon a @ bs) = arun ?c1 (concat (map (esc_byte xon) ?ds) @ [kSymEsc, esc_enc kEcEop] @ bs)"
    using assms esc_dec_enc [of kEcAttn]
    by (cases c) (simp add: attn_frame_def astep_def aactive_def Let_def aidle_def aflag_def)
  also have "\<dots> = arun (?c1\<lparr>rc_pkt := rc_pkt c @ ?ds\<rparr>) ([kSymEsc, esc_enc kEcEop] @ bs)"
    using assms by (simp add: arun_esc_bytes)
  also have "\<dots> = arun (c\<lparr>rc_st := kRcvDone, rc_pkt := rc_pkt c @ ?ds,
      rc_flags := rc_flags c OR kFlagAttnSeen OR kFlagEopSeen\<rparr>) bs"
    using assms esc_dec_enc [of kEcEop]
    by (cases c) (simp add: astep_def aactive_def Let_def afill_def aflag_def or.assoc)
  also have "\<dots> = (c\<lparr>rc_st := kRcvDone, rc_pkt := rc_pkt c @ ?ds,
      rc_flags := rc_flags c OR kFlagAttnSeen OR kFlagEopSeen\<rparr>, bs)"
    by (cases bs) (simp_all add: aactive_def)
  finally show ?thesis .
qed

text \<open>The receiver between two packets, with bytes still to be processed.\<close>

definition idle_with :: "u8 list \<Rightarrow> connect \<Rightarrow> bool" where
  "idle_with bs c \<longleftrightarrow> rcv_inv (cn_fRcvPkt c) \<and> pending (cn_fRcvPkt c) = bs \<and>
     rcv_fRcvState (cn_fRcvPkt c) = kRcvIdle \<and> \<not> rcv_fEscSeen (cn_fRcvPkt c) \<and>
     rcv_fNDone (cn_fRcvPkt c) = 0 \<and> pb_fCrc (cn_fRcvPkt c) = Crc_Clear"

lemma DecodeAttnNotify_frame:
  assumes "pb_fPktBuf (cn_fRcvPkt c) = attn_pkt_bytes a" and "rcv_fNDone (cn_fRcvPkt c) = 0" and "pb_fCrc (cn_fRcvPkt c) = Crc_Clear"
  shows "\<exists>r'. DecodeAttnNotify c = Inr (True, a, with_rcv r' c) \<and> rcv_same (cn_fRcvPkt c) r'"
proof -
  let ?r = "cn_fRcvPkt c" and ?crc = "crc_of Crc_Clear [lo8 a, hi8 a]"
  have rem: "rem ?r = lo8 a # hi8 a # lo8 ?crc # hi8 ?crc # []"
    using assms by (simp add: rem_def attn_pkt_bytes_def Let_def)
  let ?r1 = "adv [lo8 a, hi8 a] ?r"
  have g: "GetWithCrc16 ?r = Inr (a, ?r1)" using rem by (rule Get16w)
  have "rem ?r1 = lo8 ?crc # hi8 ?crc # []" using rem by simp
  from ChkCrc [OF this] have k: "CheckCrc ?r1 = Inr (True, skip2 ?r1)" using assms(3) by simp
  have "CheckSize 4 ?r" using assms by (simp add: CheckSize_def attn_pkt_bytes_def Let_def)
  with g k have "DecodeAttnNotify c = Inr (True, a, with_rcv (skip2 ?r1) c)" by (simp add: DecodeAttnNotify_def Let_def)
  moreover have "rcv_same ?r (skip2 ?r1)"
    using assms by (auto simp: rcv_same_def skip2_def adv_def rcv_inv_def rcore_of_def attn_pkt_bytes_def Let_def)
  ultimately show ?thesis by blast
qed

lemma ProcessAttnNotify_frame:
  assumes "pb_fPktBuf (cn_fRcvPkt c) = attn_pkt_bytes a" and "rcv_fNDone (cn_fRcvPkt c) = 0" and "pb_fCrc (cn_fRcvPkt c) = Crc_Clear"
    and "rcv_inv (cn_fRcvPkt c)" and "\<not> rcv_fEscSeen (cn_fRcvPkt c)" and "pending (cn_fRcvPkt c) = bs"
  shows "\<exists>c'. ProcessAttnNotify c = Inr c' \<and> attn_seen c' = attn_seen c OR a \<and> idle_with bs c' \<and> ServerActive c' = ServerActive c"
proof -
  from DecodeAttnNotify_frame [OF assms(1-3)] obtain r' where
    d: "DecodeAttnNotify c = Inr (True, a, with_rcv r' c)" and same: "rcv_same (cn_fRcvPkt c) r'" by blast
  let ?c2 = "with_rcv (AcceptPacket r') c" and ?c3 = "if a \<noteq> 0 then note_attn a (with_rcv (AcceptPacket r') c) else with_rcv (AcceptPacket r') c"
  have rest: "idle_with bs ?c2"
    using same assms(4-6) AcceptPacket_inv [of r']
    by (simp add: idle_with_def rcv_same_def) (simp add: AcceptPacket_def pending_def)
  have c3: "idle_with bs ?c3" "attn_seen ?c3 = attn_seen c OR a" "ServerActive ?c3 = ServerActive c"
    using rest by (simp_all add: idle_with_def attn_seen_note ServerActive_note)
  show ?thesis
  proof (cases "cn_fPrintLevel ?c3 = 3")
    case True
    then have "ProcessAttnNotify c = Inr ((snd (cn_GetClock ?c3))\<lparr>cn_fTsLastAttnNoti := fst (cn_GetClock ?c3)\<rparr>)"
      using d by (simp add: ProcessAttnNotify_def Let_def case_prod_beta split: if_splits)
    with c3 show ?thesis by (auto simp: idle_with_def)
  next
    case False
    then have "ProcessAttnNotify c = Inr ?c3" using d by (simp add: ProcessAttnNotify_def Let_def split: if_splits)
    with c3 show ?thesis by blast
  qed
qed

lemma unsolicited_attn:
  assumes "idle_with (attn_frame xon a @ bs) c"
  shows "\<exists>c'. unsolicited_loop c = unsolicited_loop c' \<and> attn_seen c' = attn_seen c OR a \<and> idle_with bs c' \<and>
    ServerActive c' = ServerActive c"
proof -
  let ?r = "cn_fRcvPkt c"
  let ?core = "(rcore_of ?r)\<lparr>rc_st := kRcvDone, rc_pkt := attn_pkt_bytes a,
       rc_flags := pb_fFlags ?r OR kFlagAttnSeen OR kFlagEopSeen\<rparr>"
  have i: "rcv_inv ?r" "pending ?r = attn_frame xon a @ bs" using assms by (simp_all add: idle_with_def)
  have e: "pb_fPktBuf ?r = []" "pb_fFlags ?r AND 0xf = 0"
    using assms by (auto simp: idle_with_def rcv_inv_def core_inv_def)
  have "arun (rcore_of ?r) (pending ?r) = (?core, bs)"
    unfolding i(2) by (subst arun_attn_frame) (use assms e in \<open>simp_all add: idle_with_def\<close>)
  from brun_core [OF i(1) this] have b: "rcore_of (brun ?r) = ?core" "pending (brun ?r) = bs" .
  have f: "rcv_fRcvState (brun ?r) = kRcvDone" "pb_fPktBuf (brun ?r) = attn_pkt_bytes a" "\<not> rcv_fEscSeen (brun ?r)"
    "pb_fFlags (brun ?r) = pb_fFlags ?r OR kFlagAttnSeen OR kFlagEopSeen"
    using arg_cong [OF b(1), of rc_st] arg_cong [OF b(1), of rc_pkt] arg_cong [OF b(1), of rc_esc]
      arg_cong [OF b(1), of rc_flags] assms by (simp_all add: idle_with_def)
  have "pb_fFlags (brun ?r) AND kFlagSopSeen = 0"
    using e(2) by (auto simp: f(4) low4_zero bit_simps intro!: bit_word_eqI)
  then have st: "PacketState (brun ?r) = kPktAttn" using f(1) by (simp add: PacketState_def TestFlag_def)
  have ne: "rcv_fRawBufDone ?r \<noteq> rcv_fRawBufSize ?r" using i by (auto simp: pending_Nil [symmetric] attn_frame_def)
  from ProcessAttnNotify_frame [of "with_rcv (brun ?r) c" a bs] f b brun_inv [OF i(1)] assms
  obtain c' where pa: "ProcessAttnNotify (with_rcv (brun ?r) c) = Inr c'" "attn_seen c' = attn_seen c OR a" "idle_with bs c'"
    "ServerActive c' = ServerActive c"
    by (auto simp: idle_with_def)
  have "unsolicited_loop c = unsolicited_loop c'"
    using st ne pa(1) by (subst unsolicited_loop.simps) (simp add: ProcessData_brun)
  with pa show ?thesis by blast
qed

lemma unsolicited_frames:
  "idle_with (concat (map (attn_frame xon) pats)) c \<Longrightarrow>
     \<exists>c'. unsolicited_loop c = Inr c' \<and> attn_seen c' = fold (\<lambda>a s. s OR a) pats (attn_seen c) \<and> idle_with [] c' \<and>
       ServerActive c' = ServerActive c"
proof (induction pats arbitrary: c)
  case Nil
  then have "rcv_fRawBufDone (cn_fRcvPkt c) = rcv_fRawBufSize (cn_fRcvPkt c)" by (auto simp: idle_with_def pending_Nil)
  with Nil show ?case by (subst unsolicited_loop.simps) (simp add: ProcessData_def)
next
  case (Cons a pats)
  then obtain c1 where "unsolicited_loop c = unsolicited_loop c1" "attn_seen c1 = attn_seen c OR a"
    "idle_with (concat (map (attn_frame xon) pats)) c1" "ServerActive c1 = ServerActive c" using unsolicited_attn [of xon a] by force
  with Cons.IH [of c1] show ?case by simp
qed

lemma length_esc_byte: "length (esc_byte xon b) \<le> 2"
  by (simp add: esc_byte_def)

lemma length_attn_frame: "length (attn_frame xon a) \<le> 12"
proof -
  have "length (concat (map (esc_byte xon) ds)) \<le> 2 * length ds" for ds
  proof (induction ds)
    case (Cons d ds)
    with length_esc_byte [of xon d] show ?case by simp
  qed simp
  from this [of "attn_pkt_bytes a"] show ?thesis by (simp add: attn_frame_def attn_pkt_bytes_def Let_def)
qed

text \<open>C7: No attention notify is lost: when the raw buffer holds any number of attention notify
  frames, \<open>ProcessUnsolicitedData\<close> handles all of them, and the pattern of each one is added to
  what the active server, or else the connection, has to harvest.\<close>

theorem attn_notifies_kept:
  assumes "idle_with (concat (map (attn_frame xon) pats)) c"
  shows "\<exists>c'. ProcessUnsolicitedData c = Inr c' \<and> attn_seen c' = fold (\<lambda>a s. s OR a) pats (attn_seen c) \<and>
    pending (cn_fRcvPkt c') = []"
  using unsolicited_frames [OF assms] by (auto simp: ProcessUnsolicitedData_def idle_with_def)

theorem attn_notifies_kept_witness:
  "\<exists>c c'. ProcessUnsolicitedData c = Inr c' \<and> attn_seen c = 0 \<and> attn_seen c' = 5"
proof -
  let ?bs = "concat (map (attn_frame False) [1, 4])"
  let ?r = "(rcv_new (?bs @ replicate (kRawBufLen - length ?bs) 0))\<lparr>rcv_fRawBufSize := length ?bs\<rparr>"
  let ?c = "(connect_new [])\<lparr>cn_fRcvPkt := ?r\<rparr>"
  have "length ?bs \<le> kRawBufLen"
    using length_attn_frame [of False 1] length_attn_frame [of False 4] by (simp add: kRawBufLen_def)
  then have i: "idle_with ?bs ?c"
    by (simp add: idle_with_def rcv_inv_def rcv_new_def rcore_of_def core_inv_def pending_def)
  have s: "attn_seen ?c = 0" by (simp add: attn_seen_def connect_new_def)
  from attn_notifies_kept [OF i] obtain c' where
    p: "ProcessUnsolicitedData ?c = Inr c'" and a: "attn_seen c' = fold (\<lambda>a s. s OR a) [1, 4] (attn_seen ?c)"
    by blast
  have "attn_seen c' = 5" unfolding a s by simp
  with p s show ?thesis by blast
qed

end
