(* ===== verification/RlinkServer.thy ===== *)
theory RlinkServer
  imports ReventLoop RlinkAttn
begin

text \<open>
  Class \<open>RlinkServer\<close> of \<open>librlink\<close> with its event loop \<open>RlinkServerEventLoop\<close>: attention handlers,
  the action queue, start and stop of the server thread and one turn of the server. The state is an
  event loop of \<open>ReventLoop\<close> whose world is the server. Handlers are numbers; what they do is a
  parameter of the operations that call them. The handlers \<open>hidWakeup\<close> and \<open>hidRlink\<close> are the two
  that the server itself enters. The part of the server that the connection uses, \<open>servsig\<close>, is kept
  in the connection once there is one. Locks, log output and traces are left out.
\<close>

section \<open>State\<close>

record attn_id =
  ai_fMask :: u16
  ai_fCdata :: nat

record attn_dsc =
  ad_fHandler :: hid
  ad_fId :: attn_id

record attn_args =
  aa_fAttnPatt :: u16
  aa_fAttnMask :: u16
  aa_fAttnHarvest :: u16
  aa_fHarvestDone :: bool

datatype serv_stat = kStatNEloopWait | kStatNEloopPoll | kStatNWakeupEvt | kStatNRlinkEvt | kStatNAttnHdl
  | kStatNAttnNoti | kStatNAttnHarv | kStatNAttnBit nat

record 'w rserver =
  rs_fspConn :: "connect option"
  rs_fContext :: rlcontext
  rs_fAttnDsc :: "attn_dsc list"
  rs_fActnList :: "hid list"
  rs_wakeupfd :: int
  rs_sig :: servsig
  rs_fAttnPatt :: u16
  rs_fTraceLevel :: u32
  rs_fStats :: "serv_stat \<Rightarrow> nat"
  rs_client :: 'w

type_synonym 'w sstate = "'w rserver eloop"
type_synonym 'w attnhdl = "hid \<Rightarrow> attn_args \<Rightarrow> 'w sstate \<Rightarrow> (attn_args \<times> 'w sstate) result"
type_synonym 'w actnhdl = "hid \<Rightarrow> 'w sstate \<Rightarrow> (int \<times> 'w sstate) result"

definition hidWakeup :: hid where "hidWakeup = 0"
definition hidRlink :: hid where "hidRlink = 1"
definition POLLIN :: u16 where "POLLIN = 1"
definition kRLCNTL_M_AnEna :: u16 where "kRLCNTL_M_AnEna = 0x8000"

definition attn_args_new :: "u16 \<Rightarrow> u16 \<Rightarrow> attn_args" where
  "attn_args_new apatt amask =
     \<lparr>aa_fAttnPatt = apatt, aa_fAttnMask = amask, aa_fAttnHarvest = 0, aa_fHarvestDone = False\<rparr>"

definition upd_serv :: "('w rserver \<Rightarrow> 'w rserver) \<Rightarrow> 'w sstate \<Rightarrow> 'w sstate" where
  "upd_serv f s = s\<lparr>el_world := f (el_world s)\<rparr>"

definition rs_inc :: "serv_stat \<Rightarrow> 'w sstate \<Rightarrow> 'w sstate" where
  "rs_inc k s = upd_serv (\<lambda>v. v\<lparr>rs_fStats := stat_inc k 1 (rs_fStats v)\<rparr>) s"

text \<open>The constructor; \<open>fd\<close> is the descriptor of the wakeup event.\<close>

definition rserver_new :: "int \<Rightarrow> 'w \<Rightarrow> 'w sstate result" where
  "rserver_new fd w =
     AddPollHandler hidWakeup fd POLLIN (eloop_new
       \<lparr>rs_fspConn = None, rs_fContext = cx_SetStatus 0 staterr context_new, rs_fAttnDsc = [], rs_fActnList = [],
        rs_wakeupfd = fd, rs_sig = \<lparr>sv_active = False, sv_inside = False, sv_fAttnNotiPatt = 0, sv_wakeups = 0\<rparr>,
        rs_fAttnPatt = 0, rs_fTraceLevel = 0, rs_fStats = (\<lambda>_. 0), rs_client = w\<rparr>)"

section \<open>Connection, thread and wakeup\<close>

definition serv_sig :: "'w sstate \<Rightarrow> servsig" where
  "serv_sig s = (case rs_fspConn (el_world s) of
     None \<Rightarrow> rs_sig (el_world s)
   | Some c \<Rightarrow> (case cn_fpServ c of None \<Rightarrow> rs_sig (el_world s) | Some v \<Rightarrow> v))"

definition upd_sig :: "(servsig \<Rightarrow> servsig) \<Rightarrow> 'w sstate \<Rightarrow> 'w sstate" where
  "upd_sig f s = upd_serv (\<lambda>v. case rs_fspConn v of
     None \<Rightarrow> v\<lparr>rs_sig := f (rs_sig v)\<rparr>
   | Some c \<Rightarrow> (case cn_fpServ c of None \<Rightarrow> v\<lparr>rs_sig := f (rs_sig v)\<rparr>
                | Some g \<Rightarrow> v\<lparr>rs_fspConn := Some (c\<lparr>cn_fpServ := Some (f g)\<rparr>)\<rparr>)) s"

definition Connect :: "'w sstate \<Rightarrow> connect result" where
  "Connect s = (case rs_fspConn (el_world s) of None \<Rightarrow> Inl (MemFault ''fspConn'') | Some c \<Rightarrow> Inr c)"

definition put_conn :: "connect \<Rightarrow> 'w sstate \<Rightarrow> 'w sstate" where
  "put_conn c s = upd_serv (\<lambda>v. v\<lparr>rs_fspConn := Some c\<rparr>) s"

definition SetConnect :: "connect option \<Rightarrow> 'w sstate \<Rightarrow> 'w sstate result" where
  "SetConnect spconn s =
     (case (rs_fspConn (el_world s), spconn) of
        (None, None) \<Rightarrow> Inr s
      | (Some _, _) \<Rightarrow> Inl (Rexception ''RlinkServer::SetConnect()'' ''Bad state: fspConn already set'')
      | (None, Some c) \<Rightarrow> Inr (put_conn (cn_SetServer (Some (rs_sig (el_world s))) c) s))"

definition IsActive :: "'w sstate \<Rightarrow> bool" where
  "IsActive s = sv_active (serv_sig s)"

definition IsActiveInside :: "'w sstate \<Rightarrow> bool" where
  "IsActiveInside s = (IsActive s \<and> sv_inside (serv_sig s))"

definition IsActiveOutside :: "'w sstate \<Rightarrow> bool" where
  "IsActiveOutside s = (IsActive s \<and> \<not> sv_inside (serv_sig s))"

definition Wakeup :: "'w sstate \<Rightarrow> 'w sstate" where
  "Wakeup s = upd_sig sv_Wakeup s"

definition wake_outside :: "'w sstate \<Rightarrow> 'w sstate" where
  "wake_outside s = (if IsActiveOutside s then Wakeup s else s)"

definition rs_Exec :: "clist \<Rightarrow> 'w sstate \<Rightarrow> (clist \<times> 'w sstate) result" where
  "rs_Exec l s =
     ebind (Connect s) (\<lambda>c. ebind (ExecThrow l (rs_fContext (el_world s)) c) (\<lambda>(l', x', c').
       Inr (l', upd_serv (\<lambda>v. v\<lparr>rs_fspConn := Some c', rs_fContext := x'\<rparr>) s)))"

section \<open>Handlers and actions\<close>

definition AddAttnHandler :: "hid \<Rightarrow> u16 \<Rightarrow> nat \<Rightarrow> 'w sstate \<Rightarrow> 'w sstate result" where
  "AddAttnHandler h amask cdata s =
     (if amask = 0 then Inl (Rexception ''RlinkServer::AddAttnHandler()'' ''Bad args: mask == 0'')
      else ebind (Connect s) (\<lambda>_.
        let i = \<lparr>ai_fMask = amask, ai_fCdata = cdata\<rparr>
        in if list_ex (\<lambda>d. ad_fId d = i) (rs_fAttnDsc (el_world s))
           then Inl (Rexception ''RlinkServer::AddAttnHandler()'' ''Bad args: duplicate handler'')
           else Inr (upd_serv (\<lambda>v. v\<lparr>rs_fAttnDsc := rs_fAttnDsc v @ [\<lparr>ad_fHandler = h, ad_fId = i\<rparr>]\<rparr>) s)))"

definition RemoveAttnHandler :: "u16 \<Rightarrow> nat \<Rightarrow> 'w sstate \<Rightarrow> 'w sstate result" where
  "RemoveAttnHandler amask cdata s =
     ebind (Connect s) (\<lambda>_.
       let i = \<lparr>ai_fMask = amask, ai_fCdata = cdata\<rparr>
       in if list_ex (\<lambda>d. ad_fId d = i) (rs_fAttnDsc (el_world s))
          then Inr (upd_serv (\<lambda>v. v\<lparr>rs_fAttnDsc := erase_first (\<lambda>d. ad_fId d = i) (rs_fAttnDsc v)\<rparr>) s)
          else Inl (Rexception ''RlinkServer::RemoveAttnHandler()'' ''Bad args: unknown handler''))"

definition GetAttnInfoList :: "attn_args \<Rightarrow> clist \<Rightarrow> 'w sstate \<Rightarrow> (attn_args \<times> clist \<times> 'w sstate) result" where
  "GetAttnInfoList args l s =
     ebind (cl_at 0 l) (\<lambda>cmd0.
       if Command cmd0 \<noteq> kCmdAttn
       then Inl (Rexception ''RlinkServer::GetAttnInfo'' ''clist did't start with attn'')
       else ebind (rs_Exec l s) (\<lambda>(l', s'). ebind (cl_at 0 l') (\<lambda>cmd0'.
         Inr (args\<lparr>aa_fAttnHarvest := cmd_fData cmd0', aa_fHarvestDone := True\<rparr>, l', s'))))"

definition GetAttnInfo :: "attn_args \<Rightarrow> 'w sstate \<Rightarrow> (attn_args \<times> 'w sstate) result" where
  "GetAttnInfo args s =
     ebind (cl_AddAttn clist_new) (\<lambda>(i, l). ebind (GetAttnInfoList args l s) (\<lambda>(args', l', s'). Inr (args', s')))"

definition QueueAction :: "hid \<Rightarrow> 'w sstate \<Rightarrow> 'w sstate result" where
  "QueueAction h s =
     ebind (Connect s) (\<lambda>_. Inr (wake_outside (upd_serv (\<lambda>v. v\<lparr>rs_fActnList := rs_fActnList v @ [h]\<rparr>) s)))"

definition rs_AddPollHandler :: "hid \<Rightarrow> int \<Rightarrow> u16 \<Rightarrow> 'w sstate \<Rightarrow> 'w sstate result" where
  "rs_AddPollHandler h fd events s =
     ebind (Connect s) (\<lambda>_. ebind (AddPollHandler h fd events s) (\<lambda>s'. Inr (wake_outside s')))"

definition rs_TestPollHandler :: "int \<Rightarrow> u16 \<Rightarrow> 'w sstate \<Rightarrow> bool result" where
  "rs_TestPollHandler fd events s = ebind (Connect s) (\<lambda>_. Inr (TestPollHandler fd events s))"

definition rs_RemovePollHandler :: "int \<Rightarrow> u16 \<Rightarrow> bool \<Rightarrow> 'w sstate \<Rightarrow> 'w sstate result" where
  "rs_RemovePollHandler fd events nothrow s =
     ebind (Connect s) (\<lambda>_. ebind (RemovePollHandler fd events nothrow s) (\<lambda>s'. Inr (wake_outside s')))"

definition rs_RemovePollHandlerFd :: "int \<Rightarrow> 'w sstate \<Rightarrow> 'w sstate result" where
  "rs_RemovePollHandlerFd fd s = ebind (Connect s) (\<lambda>_. Inr (wake_outside (RemovePollHandlerFd fd s)))"

definition rs_SetTraceLevel :: "u32 \<Rightarrow> 'w sstate \<Rightarrow> 'w sstate" where
  "rs_SetTraceLevel level s = el_SetTraceLevel level (upd_serv (\<lambda>v. v\<lparr>rs_fTraceLevel := level\<rparr>) s)"

section \<open>Start and stop\<close>

text \<open>\<open>Stop\<close> returns when the server thread has ended.\<close>

definition rs_Stop :: "'w sstate \<Rightarrow> 'w sstate" where
  "rs_Stop s = (if \<not> IsActive s then s else upd_sig (\<lambda>g. g\<lparr>sv_active := False\<rparr>) (Wakeup (el_Stop s)))"

definition start_clist :: "bool \<Rightarrow> clist result" where
  "start_clist resume =
     ebind (if \<not> resume then ebind (cl_AddAttn clist_new) (\<lambda>(i, l). Inr l) else Inr clist_new) (\<lambda>l.
       ebind (cl_AddWreg kRbaddr_RLCNTL kRLCNTL_M_AnEna l) (\<lambda>(i, l'). Inr l'))"

definition StartOrResume :: "bool \<Rightarrow> 'w sstate \<Rightarrow> 'w sstate result" where
  "StartOrResume resume s =
     (if IsActive s then Inl (Rexception ''RlinkServer::StartOrResume()'' ''Bad state: server thread already running'')
      else ebind (Connect s) (\<lambda>c.
        if \<not> IsOpen c then Inl (Rexception ''RlinkServer::StartOrResume()'' ''Bad state: RlinkConnect not open'')
        else ebind (start_clist resume) (\<lambda>l. ebind (rs_Exec l s) (\<lambda>(l', s1).
          ebind (Connect s1) (\<lambda>c1. ebind (Port c1) (\<lambda>p.
          ebind (if \<not> TestPollHandler (po_fFdRead p) POLLIN s1
                 then AddPollHandler hidRlink (po_fFdRead p) POLLIN s1 else Inr s1) (\<lambda>s2.
            let s3 = upd_sig (\<lambda>g. g\<lparr>sv_active := True\<rparr>) (el_UnStop s2)
            in if resume
               then ebind (Connect s3) (\<lambda>c3. ebind (cn_SndAttn c3) (\<lambda>(ok, c4). Inr (put_conn c4 s3)))
               else Inr s3)))))))"

definition Start :: "'w sstate \<Rightarrow> 'w sstate result" where
  "Start s = StartOrResume False s"

definition Resume :: "'w sstate \<Rightarrow> 'w sstate result" where
  "Resume s = StartOrResume True s"

section \<open>Calling the handlers\<close>

definition AttnPending :: "'w sstate \<Rightarrow> bool" where
  "AttnPending s = (sv_fAttnNotiPatt (serv_sig s) OR rs_fAttnPatt (el_world s) \<noteq> 0)"

definition ActnPending :: "'w sstate \<Rightarrow> bool" where
  "ActnPending s = (rs_fActnList (el_world s) \<noteq> [])"

text \<open>The loop over the attention handlers reads the vector and the pattern anew in each turn, and after
  the call it reads the mask at the index again: a handler that removes itself makes that an access
  behind the end when it was the last one. The value is \<open>None\<close> when handlers keep adding handlers and
  the loop does not end.\<close>

partial_function (option) attn_loop_hdl ::
  "'w attnhdl \<Rightarrow> nat \<Rightarrow> u16 \<Rightarrow> u16 \<Rightarrow> 'w sstate \<Rightarrow> (u16 \<times> u16 \<times> 'w sstate) result option" where
  "attn_loop_hdl hdl i hnext hdone s =
     (if i < length (rs_fAttnDsc (el_world s)) then
        let d = rs_fAttnDsc (el_world s) ! i;
            patt = rs_fAttnPatt (el_world s);
            hmatch = patt AND ai_fMask (ad_fId d)
        in if hmatch \<noteq> 0 then
             (case ebind (Connect s) (\<lambda>_. hdl (ad_fHandler d) (attn_args_new patt (ai_fMask (ad_fId d))) s) of
                Inl e \<Rightarrow> Some (Inl e)
              | Inr (args, s1) \<Rightarrow>
                  if i < length (rs_fAttnDsc (el_world s1)) then
                    attn_loop_hdl hdl (i + 1)
                      ((hnext OR (aa_fAttnHarvest args AND NOT (ai_fMask (ad_fId (rs_fAttnDsc (el_world s1) ! i)))))
                         AND NOT hmatch) (hdone OR hmatch) s1
                  else Some (Inl (MemFault ''fAttnDsc'')))
           else attn_loop_hdl hdl (i + 1) hnext hdone s
      else Some (Inr (hnext, hdone, s)))"

definition take_notifies :: "'w sstate \<Rightarrow> 'w sstate" where
  "take_notifies s =
     (let noti = sv_fAttnNotiPatt (serv_sig s)
      in if noti \<noteq> 0
         then upd_sig (\<lambda>g. g\<lparr>sv_fAttnNotiPatt := 0\<rparr>)
                (upd_serv (\<lambda>v. v\<lparr>rs_fAttnPatt := rs_fAttnPatt v OR noti\<rparr>) (rs_inc kStatNAttnNoti s))
         else s)"

definition attn_stats :: "'w sstate \<Rightarrow> 'w sstate" where
  "attn_stats s = fold (\<lambda>i t. if bit (rs_fAttnPatt (el_world t)) i then rs_inc (kStatNAttnBit i) t else t) [0..<16] s"

definition finish_attn :: "u16 \<Rightarrow> u16 \<Rightarrow> 'w sstate \<Rightarrow> 'w sstate result" where
  "finish_attn hnext hdone s =
     (let s1 = upd_serv (\<lambda>v. v\<lparr>rs_fAttnPatt := rs_fAttnPatt v AND NOT hdone\<rparr>) s;
          patt = rs_fAttnPatt (el_world s1)
      in ebind (if patt \<noteq> 0 then
                  ebind (GetAttnInfo (attn_args_new patt patt) s1) (\<lambda>(args, s2).
                    Inr (hnext OR (aa_fAttnHarvest args AND NOT (rs_fAttnPatt (el_world s2))), s2))
                else Inr (hnext, s1)) (\<lambda>(hnext', s3).
           let s4 = upd_serv (\<lambda>v. v\<lparr>rs_fAttnPatt := hnext'\<rparr>) s3
           in Inr (if hnext' \<noteq> 0 then rs_inc kStatNAttnHarv s4 else s4)))"

definition CallAttnHandler :: "'w attnhdl \<Rightarrow> 'w sstate \<Rightarrow> 'w sstate result option" where
  "CallAttnHandler hdl s =
     (case attn_loop_hdl hdl 0 0 0 (attn_stats (take_notifies (rs_inc kStatNAttnHdl s))) of
        None \<Rightarrow> None
      | Some (Inl e) \<Rightarrow> Some (Inl e)
      | Some (Inr (hnext, hdone, s1)) \<Rightarrow> Some (finish_attn hnext hdone s1))"

text \<open>An action with a positive return code is moved to the end of the queue, any other one is dropped.\<close>

definition CallActnHandler :: "'w actnhdl \<Rightarrow> 'w sstate \<Rightarrow> 'w sstate result" where
  "CallActnHandler hdl s =
     (case rs_fActnList (el_world s) of
        [] \<Rightarrow> Inr s
      | h # hs \<Rightarrow>
          ebind (Connect s) (\<lambda>_. ebind (hdl h s) (\<lambda>(irc, s1).
            case rs_fActnList (el_world s1) of
              [] \<Rightarrow> Inl (MemFault ''fActnList'')
            | g # gs \<Rightarrow> Inr (upd_serv (\<lambda>v. v\<lparr>rs_fActnList := (if irc > 0 then gs @ [g] else gs)\<rparr>) s1))))"

definition WakeupHandler :: "pollfd \<Rightarrow> 'w sstate \<Rightarrow> (int \<times> 'w sstate) result" where
  "WakeupHandler pfd s =
     (let s1 = rs_inc kStatNWakeupEvt s
      in if pf_revents pfd AND NOT (pf_events pfd) \<noteq> 0 then Inr (- 1, s1)
         else Inr (0, upd_sig (\<lambda>g. g\<lparr>sv_wakeups := 0\<rparr>) s1))"

definition RlinkHandler :: "pollfd \<Rightarrow> 'w sstate \<Rightarrow> (int \<times> 'w sstate) result" where
  "RlinkHandler pfd s =
     (let s1 = rs_inc kStatNRlinkEvt s
      in if pf_revents pfd AND NOT (pf_events pfd) \<noteq> 0 then Inr (- 1, s1)
         else ebind (Connect s1) (\<lambda>c. ebind (HandleUnsolicitedData c) (\<lambda>c'. Inr (0, put_conn c' s1))))"

definition rs_pollhdl :: "'w rserver pollhdl \<Rightarrow> 'w rserver pollhdl" where
  "rs_pollhdl client h pfd s =
     (if h = hidWakeup then WakeupHandler pfd s else if h = hidRlink then RlinkHandler pfd s else client h pfd s)"

section \<open>The event loop of the server\<close>

definition turn_end :: "'w attnhdl \<Rightarrow> 'w actnhdl \<Rightarrow> 'w sstate \<Rightarrow> 'w sstate result option" where
  "turn_end attnh actnh s =
     (case (if AttnPending s then CallAttnHandler attnh s else Some (Inr s)) of
        None \<Rightarrow> None
      | Some r \<Rightarrow> Some (ebind r (\<lambda>s1. if ActnPending s1 then CallActnHandler actnh s1 else Inr s1)))"

function rs_event_loop ::
  "'w rserver pollhdl \<Rightarrow> 'w attnhdl \<Rightarrow> 'w actnhdl \<Rightarrow> pollscript \<Rightarrow> 'w sstate \<Rightarrow> 'w rserver eloop_end option" where
  "rs_event_loop pollh attnh actnh script s =
     (if el_fStopPending s then Some (EndStopped s)
      else
        let wait = \<not> (AttnPending s \<or> ActnPending s)
        in case DoPoll script s of
             Inl e \<Rightarrow> Some (EndCrashed e)
           | Inr None \<Rightarrow> Some EndWaiting
           | Inr (Some (irc, script', s1)) \<Rightarrow>
               let s2 = rs_inc (if wait then kStatNEloopWait else kStatNEloopPoll) s1
               in if el_fPollFd s2 = [] then Some (EndEmpty s2)
                  else (case (if irc > 0 then DoCall (rs_pollhdl pollh) s2 else Inr s2) of
                          Inl e \<Rightarrow> Some (EndCrashed e)
                        | Inr s3 \<Rightarrow>
                            (case turn_end attnh actnh s3 of
                               None \<Rightarrow> None
                             | Some (Inl e) \<Rightarrow> Some (EndCrashed e)
                             | Some (Inr s4) \<Rightarrow> rs_event_loop pollh attnh actnh script' s4)))"
  by pat_completeness auto
termination
  by (relation "measure (\<lambda>(pollh, attnh, actnh, script, s). length script)")
    (auto dest!: DoPoll_shrinks simp: rs_inc_def upd_serv_def)

declare rs_event_loop.simps [simp del]

text \<open>The body of the server thread.\<close>

definition rs_EventLoop ::
  "'w rserver pollhdl \<Rightarrow> 'w attnhdl \<Rightarrow> 'w actnhdl \<Rightarrow> pollscript \<Rightarrow> 'w sstate \<Rightarrow> 'w rserver eloop_end option" where
  "rs_EventLoop pollh attnh actnh script s =
     rs_event_loop pollh attnh actnh script (upd_sig (\<lambda>g. g\<lparr>sv_inside := True\<rparr>) (s\<lparr>el_fUpdatePoll := True\<rparr>))"

section \<open>Attention handling\<close>

text \<open>What attention handling is to do: every handler whose mask meets the pattern is called once, in
  the order of registration. The result lists the masks and harvests of the calls.\<close>

fun attn_calls :: "'w attnhdl \<Rightarrow> attn_dsc list \<Rightarrow> u16 \<Rightarrow> 'w sstate \<Rightarrow> ((u16 \<times> u16) list \<times> 'w sstate) result" where
  "attn_calls hdl [] patt s = Inr ([], s)"
| "attn_calls hdl (d # ds) patt s =
     (let m = ai_fMask (ad_fId d)
      in if patt AND m \<noteq> 0
         then ebind (hdl (ad_fHandler d) (attn_args_new patt m) s) (\<lambda>(args, s1).
                ebind (attn_calls hdl ds patt s1) (\<lambda>(cs, s2). Inr ((m, aa_fAttnHarvest args) # cs, s2)))
         else attn_calls hdl ds patt s)"

definition quiet_attn :: "'w attnhdl \<Rightarrow> bool" where
  "quiet_attn hdl \<longleftrightarrow> (\<forall>h args s args' s'. hdl h args s = Inr (args', s') \<longrightarrow>
     rs_fAttnDsc (el_world s') = rs_fAttnDsc (el_world s) \<and> rs_fAttnPatt (el_world s') = rs_fAttnPatt (el_world s) \<and>
     (rs_fspConn (el_world s') = None \<longleftrightarrow> rs_fspConn (el_world s) = None))"

definition next_step :: "u16 \<Rightarrow> u16 \<times> u16 \<Rightarrow> u16 \<Rightarrow> u16" where
  "next_step patt = (\<lambda>(m, hv) hnext. (hnext OR (hv AND NOT m)) AND NOT (patt AND m))"

definition done_step :: "u16 \<Rightarrow> u16 \<times> u16 \<Rightarrow> u16 \<Rightarrow> u16" where
  "done_step patt = (\<lambda>(m, hv) hdone. hdone OR (patt AND m))"

lemma attn_loop_calls:
  assumes "quiet_attn hdl"
  shows "rs_fspConn (el_world s) \<noteq> None \<Longrightarrow> rs_fAttnDsc (el_world s) = xs @ ds \<Longrightarrow> rs_fAttnPatt (el_world s) = patt \<Longrightarrow>
    attn_loop_hdl hdl (length xs) hn hd0 s =
      Some (ebind (attn_calls hdl ds patt s) (\<lambda>(cs, s'). Inr (fold (next_step patt) cs hn, fold (done_step patt) cs hd0, s')))"
proof (induction ds arbitrary: xs hn hd0 s)
  case Nil
  then show ?case by (subst attn_loop_hdl.simps) simp
next
  case (Cons d ds)
  let ?m = "ai_fMask (ad_fId d)"
  have IH: "attn_loop_hdl hdl (Suc (length xs)) hn' hd0' t =
      Some (ebind (attn_calls hdl ds patt t) (\<lambda>(cs, s'). Inr (fold (next_step patt) cs hn', fold (done_step patt) cs hd0', s')))"
    if "rs_fspConn (el_world t) \<noteq> None" "rs_fAttnDsc (el_world t) = rs_fAttnDsc (el_world s)"
      "rs_fAttnPatt (el_world t) = patt" for t hn' hd0'
    using Cons.IH [of t "xs @ [d]" hn' hd0'] Cons.prems that by simp
  obtain c where conn: "Connect s = Inr c" using Cons.prems(1) by (auto simp: Connect_def)
  show ?case
  proof (cases "patt AND ?m = 0")
    case True
    with Cons.prems IH [of s hn hd0] show ?thesis by (subst attn_loop_hdl.simps) (simp add: Let_def)
  next
    case False
    show ?thesis
    proof (cases "hdl (ad_fHandler d) (attn_args_new patt ?m) s")
      case (Inl e)
      with False Cons.prems conn show ?thesis by (subst attn_loop_hdl.simps) (simp add: Let_def)
    next
      case (Inr r)
      obtain args s1 where r: "r = (args, s1)" by (cases r)
      have q: "rs_fAttnDsc (el_world s1) = xs @ d # ds" "rs_fAttnPatt (el_world s1) = patt" "rs_fspConn (el_world s1) \<noteq> None"
        using assms Inr r Cons.prems by (auto simp: quiet_attn_def)
      with False Cons.prems conn Inr r IH [of s1] show ?thesis
        by (subst attn_loop_hdl.simps)
          (simp add: Let_def next_step_def done_step_def ebind_def case_prod_beta split: sum.split)
    qed
  qed
qed

lemma bit_next_fold:
  "bit (fold (next_step patt) cs hn) b \<longleftrightarrow>
     (bit hn b \<and> (\<forall>(m, hv)\<in>set cs. \<not> (bit patt b \<and> bit m b))) \<or>
     (\<exists>xs m hv ys. cs = xs @ (m, hv) # ys \<and> bit hv b \<and> \<not> bit m b \<and> (\<forall>(m', hv')\<in>set ys. \<not> (bit patt b \<and> bit m' b)))"
proof (induction cs arbitrary: hn)
  case (Cons c cs)
  obtain m hv where c: "c = (m, hv)" by (cases c)
  have step: "bit (next_step patt (m, hv) hn) b \<longleftrightarrow> (bit hn b \<or> (bit hv b \<and> \<not> bit m b)) \<and> \<not> (bit patt b \<and> bit m b)"
    using bit_imp_le_length [of hn b] bit_imp_le_length [of hv b] by (auto simp: next_step_def bit_simps)
  have split: "(\<exists>xs m' hv' ys. (m, hv) # cs = xs @ (m', hv') # ys \<and> P m' hv' ys) \<longleftrightarrow>
      P m hv cs \<or> (\<exists>xs m' hv' ys. cs = xs @ (m', hv') # ys \<and> P m' hv' ys)" for P
  proof
    assume "\<exists>xs m' hv' ys. (m, hv) # cs = xs @ (m', hv') # ys \<and> P m' hv' ys"
    then obtain xs m' hv' ys where e: "(m, hv) # cs = xs @ (m', hv') # ys" "P m' hv' ys" by blast
    then show "P m hv cs \<or> (\<exists>xs m' hv' ys. cs = xs @ (m', hv') # ys \<and> P m' hv' ys)" by (cases xs) auto
  next
    assume "P m hv cs \<or> (\<exists>xs m' hv' ys. cs = xs @ (m', hv') # ys \<and> P m' hv' ys)"
    then show "\<exists>xs m' hv' ys. (m, hv) # cs = xs @ (m', hv') # ys \<and> P m' hv' ys"
      by (metis append_Cons append_Nil)
  qed
  have all: "(\<forall>(m', hv')\<in>set (c # cs). \<not> (bit patt b \<and> bit m' b)) \<longleftrightarrow>
      \<not> (bit patt b \<and> bit m b) \<and> (\<forall>(m', hv')\<in>set cs. \<not> (bit patt b \<and> bit m' b))"
    by (simp add: c)
  let ?A = "\<forall>(m', hv')\<in>set cs. \<not> (bit patt b \<and> bit m' b)"
  let ?K = "\<lambda>cs. \<exists>xs m hv ys. cs = xs @ (m, hv) # ys \<and> bit hv b \<and> \<not> bit m b \<and> (\<forall>(m', hv')\<in>set ys. \<not> (bit patt b \<and> bit m' b))"
  have i: "bit (fold (next_step patt) (c # cs) hn) b \<longleftrightarrow> (bit (next_step patt (m, hv) hn) b \<and> ?A) \<or> ?K cs"
    by (simp only: c fold.simps comp_apply Cons.IH)
  have k: "?K (c # cs) \<longleftrightarrow> (bit hv b \<and> \<not> bit m b \<and> ?A) \<or> ?K cs" unfolding c by (rule split)
  have "((h \<or> (v \<and> \<not> n)) \<and> \<not> (p \<and> n)) \<and> A \<or> K \<longleftrightarrow> (h \<and> \<not> (p \<and> n) \<and> A) \<or> ((v \<and> \<not> n \<and> A) \<or> K)"
    for h v n p A K :: bool by blast
  then show ?case unfolding i k all step .
qed simp

lemma bit_done_fold: "bit (fold (done_step patt) cs hd0) b \<longleftrightarrow> bit hd0 b \<or> bit patt b \<and> (\<exists>(m, hv)\<in>set cs. bit m b)"
proof (induction cs arbitrary: hd0)
  case (Cons c cs)
  obtain m hv where c: "c = (m, hv)" by (cases c)
  have "bit (fold (done_step patt) (c # cs) hd0) b \<longleftrightarrow>
      (bit hd0 b \<or> bit patt b \<and> bit m b) \<or> bit patt b \<and> (\<exists>(m, hv)\<in>set cs. bit m b)"
    by (simp only: c fold.simps comp_apply Cons.IH) (simp add: done_step_def bit_or_iff bit_and_iff)
  then show ?case by (auto simp: c)
qed simp

lemma attn_calls_masks:
  "attn_calls hdl ds patt s = Inr (cs, s') \<Longrightarrow> bit patt b \<Longrightarrow>
     (\<exists>(m, hv)\<in>set cs. bit m b) \<longleftrightarrow> (\<exists>d\<in>set ds. bit (ai_fMask (ad_fId d)) b)"
proof (induction ds arbitrary: s cs)
  case (Cons d ds)
  have "patt AND ai_fMask (ad_fId d) \<noteq> 0" if "bit (ai_fMask (ad_fId d)) b"
    using that Cons.prems(2) by (metis bit_and_iff bit_0_eq bot_apply bot_bool_def)
  note hit = this
  have "cs = (ai_fMask (ad_fId d), hv) # cs' \<Longrightarrow> attn_calls hdl ds patt s1 = Inr (cs', s') \<Longrightarrow> ?case" for hv cs' s1
    using Cons.IH [of s1 cs'] Cons.prems(2) by auto
  note called = this
  show ?case
  proof (cases "patt AND ai_fMask (ad_fId d) = 0")
    case True
    then show ?thesis using Cons.IH [of s cs] Cons.prems hit by (simp add: Let_def) blast
  next
    case False
    with Cons.prems(1) obtain hv cs' s1 where "cs = (ai_fMask (ad_fId d), hv) # cs'" "attn_calls hdl ds patt s1 = Inr (cs', s')"
      by (auto simp: Let_def ebind_eq_Inr)
    then show ?thesis by (rule called)
  qed
qed simp

lemma serv_upd [simp]:
  "el_world (upd_serv f s) = f (el_world s)"
  by (simp add: upd_serv_def)

lemma rs_inc_sel [simp]:
  "rs_fAttnDsc (el_world (rs_inc k s)) = rs_fAttnDsc (el_world s)" "rs_fAttnPatt (el_world (rs_inc k s)) = rs_fAttnPatt (el_world s)"
  "rs_fspConn (el_world (rs_inc k s)) = rs_fspConn (el_world s)" "rs_fActnList (el_world (rs_inc k s)) = rs_fActnList (el_world s)"
  "serv_sig (rs_inc k s) = serv_sig s"
  by (simp_all add: rs_inc_def serv_sig_def split: option.split)

lemma upd_sig_sel [simp]:
  "rs_fAttnDsc (el_world (upd_sig f s)) = rs_fAttnDsc (el_world s)" "rs_fAttnPatt (el_world (upd_sig f s)) = rs_fAttnPatt (el_world s)"
  "rs_fspConn (el_world (upd_sig f s)) = None \<longleftrightarrow> rs_fspConn (el_world s) = None"
  "rs_fActnList (el_world (upd_sig f s)) = rs_fActnList (el_world s)" "serv_sig (upd_sig f s) = f (serv_sig s)"
  by (simp_all add: upd_sig_def serv_sig_def split: option.split)

lemma attn_stats_sel [simp]:
  "rs_fAttnDsc (el_world (attn_stats s)) = rs_fAttnDsc (el_world s)" "rs_fAttnPatt (el_world (attn_stats s)) = rs_fAttnPatt (el_world s)"
  "rs_fspConn (el_world (attn_stats s)) = rs_fspConn (el_world s)"
proof -
  have "rs_fAttnDsc (el_world t) = rs_fAttnDsc (el_world s) \<and> rs_fAttnPatt (el_world t) = rs_fAttnPatt (el_world s) \<and>
      rs_fspConn (el_world t) = rs_fspConn (el_world s)"
    if "t = fold (\<lambda>i t. if bit (rs_fAttnPatt (el_world t)) i then rs_inc (kStatNAttnBit i) t else t) is s" for t "is"
    using that by (induction "is" arbitrary: s) auto
  then show "rs_fAttnDsc (el_world (attn_stats s)) = rs_fAttnDsc (el_world s)"
    "rs_fAttnPatt (el_world (attn_stats s)) = rs_fAttnPatt (el_world s)"
    "rs_fspConn (el_world (attn_stats s)) = rs_fspConn (el_world s)"
    unfolding attn_stats_def by blast+
qed

text \<open>The state in which the handlers are called, and the pattern they see.\<close>

definition attn_begin :: "'w sstate \<Rightarrow> 'w sstate" where
  "attn_begin s = attn_stats (take_notifies (rs_inc kStatNAttnHdl s))"

definition attn_pattern :: "'w sstate \<Rightarrow> u16" where
  "attn_pattern s = rs_fAttnPatt (el_world s) OR sv_fAttnNotiPatt (serv_sig s)"

lemma attn_begin_sel [simp]:
  "rs_fAttnDsc (el_world (attn_begin s)) = rs_fAttnDsc (el_world s)" "rs_fAttnPatt (el_world (attn_begin s)) = attn_pattern s"
  "rs_fspConn (el_world (attn_begin s)) = None \<longleftrightarrow> rs_fspConn (el_world s) = None"
  by (simp_all add: attn_begin_def take_notifies_def attn_pattern_def Let_def)

lemma rs_Exec_keeps: "rs_Exec l s = Inr (l', s') \<Longrightarrow> rs_fAttnPatt (el_world s') = rs_fAttnPatt (el_world s)"
  by (auto simp: rs_Exec_def ebind_eq_Inr)

lemma GetAttnInfo_patt: "GetAttnInfo args s = Inr (args', s') \<Longrightarrow> rs_fAttnPatt (el_world s') = rs_fAttnPatt (el_world s)"
  by (auto simp: GetAttnInfo_def GetAttnInfoList_def ebind_eq_Inr split: if_splits dest!: rs_Exec_keeps)

text \<open>The end of the round, with \<open>orphan\<close> the bits that no handler was responsible for: if there are any they are harvested
  with an attention command; what this harvest brings in addition is pending together with \<open>hnext\<close>.\<close>

definition attn_rest :: "u16 \<Rightarrow> u16 \<Rightarrow> 'w sstate \<Rightarrow> 'w sstate result \<Rightarrow> bool" where
  "attn_rest orphan hnext s1 res =
     (if orphan = 0 then \<exists>st. res = Inr (upd_serv (\<lambda>v. v\<lparr>rs_fAttnPatt := hnext, rs_fStats := st\<rparr>) s1)
      else case GetAttnInfo (attn_args_new orphan orphan) (upd_serv (\<lambda>v. v\<lparr>rs_fAttnPatt := orphan\<rparr>) s1) of
             Inl e \<Rightarrow> res = Inl e
           | Inr (args, s2) \<Rightarrow>
               \<exists>st. res = Inr (upd_serv (\<lambda>v. v\<lparr>rs_fAttnPatt := hnext OR (aa_fAttnHarvest args AND NOT orphan), rs_fStats := st\<rparr>) s2))"

lemma finish_attn_rest:
  assumes "rs_fAttnPatt (el_world s1) AND NOT hdone = orphan"
  shows "attn_rest orphan hnext s1 (finish_attn hnext hdone s1)"
proof -
  have st: "\<exists>st. (if b then rs_inc kStatNAttnHarv (upd_serv (\<lambda>v. v\<lparr>rs_fAttnPatt := x\<rparr>) t) else upd_serv (\<lambda>v. v\<lparr>rs_fAttnPatt := x\<rparr>) t) =
      upd_serv (\<lambda>v. v\<lparr>rs_fAttnPatt := x, rs_fStats := st\<rparr>) t" for b x t
  proof (cases b)
    case True
    then show ?thesis
      by (intro exI [of _ "stat_inc kStatNAttnHarv 1 (rs_fStats (el_world t))"]) (simp add: rs_inc_def upd_serv_def)
  next
    case False
    then show ?thesis
      by (intro exI [of _ "rs_fStats (el_world t)"]) (simp add: upd_serv_def)
  qed
  let ?s = "upd_serv (\<lambda>v. v\<lparr>rs_fAttnPatt := orphan\<rparr>) s1"
  have s: "upd_serv (\<lambda>v. v\<lparr>rs_fAttnPatt := rs_fAttnPatt v AND NOT hdone\<rparr>) s1 = ?s"
    using assms by (simp add: upd_serv_def)
  show ?thesis
  proof (cases "orphan = 0")
    case True
    then have "finish_attn hnext hdone s1 =
        Inr (if hnext \<noteq> 0 then rs_inc kStatNAttnHarv (upd_serv (\<lambda>v. v\<lparr>rs_fAttnPatt := hnext\<rparr>) s1) else upd_serv (\<lambda>v. v\<lparr>rs_fAttnPatt := hnext\<rparr>) s1)"
      unfolding finish_attn_def Let_def s by (simp add: upd_serv_def rs_inc_def)
    then show ?thesis
      using True st [of "hnext \<noteq> 0" hnext s1] by (simp add: attn_rest_def)
  next
    case False
    show ?thesis
    proof (cases "GetAttnInfo (attn_args_new orphan orphan) ?s")
      case (Inl e)
      then show ?thesis
        unfolding attn_rest_def finish_attn_def Let_def s using False by simp
    next
      case (Inr r)
      obtain args s2 where r: "r = (args, s2)"
        by (cases r)
      have p: "rs_fAttnPatt (el_world s2) = orphan"
        using GetAttnInfo_patt [OF Inr [unfolded r]] by simp
      let ?n = "hnext OR (aa_fAttnHarvest args AND NOT orphan)"
      have "finish_attn hnext hdone s1 =
          Inr (if ?n \<noteq> 0 then rs_inc kStatNAttnHarv (upd_serv (\<lambda>v. v\<lparr>rs_fAttnPatt := ?n\<rparr>) s2) else upd_serv (\<lambda>v. v\<lparr>rs_fAttnPatt := ?n\<rparr>) s2)"
        unfolding finish_attn_def Let_def s using False Inr r p by simp
      then show ?thesis
        using False Inr r st [of "?n \<noteq> 0" ?n s2] by (simp add: attn_rest_def)
    qed
  qed
qed

lemma attn_calls_quiet:
  assumes "quiet_attn hdl"
  shows "attn_calls hdl ds patt s = Inr (cs, s') \<Longrightarrow> rs_fAttnPatt (el_world s') = rs_fAttnPatt (el_world s)"
proof (induction ds arbitrary: s cs)
  case (Cons d ds)
  show ?case
  proof (cases "patt AND ai_fMask (ad_fId d) = 0")
    case True
    then show ?thesis
      using Cons by simp
  next
    case False
    then obtain args s1 cs' where h: "hdl (ad_fHandler d) (attn_args_new patt (ai_fMask (ad_fId d))) s = Inr (args, s1)" "attn_calls hdl ds patt s1 = Inr (cs', s')"
      using Cons.prems by (auto simp: Let_def ebind_eq_Inr)
    then show ?thesis
      using Cons.IH [OF h(2)] assms by (auto simp: quiet_attn_def)
  qed
qed simp

text \<open>C2: Attention handling, with \<open>patt\<close> the pending pattern together with the notifies: every handler whose mask meets \<open>patt\<close> is called once,
  in the order of registration, and the loop ends; an exception of a handler ends the round. The bits of \<open>patt\<close> that no
  handler is responsible for (\<open>orphan\<close>) are harvested by the default handling. At the end exactly these bits are pending for the next round:
  those that some handler harvested without being responsible for it and for which no handler called later in the round
  was responsible (\<open>hnext\<close>), and those that the default handling harvested in addition. So a bit that was harvested is pending, or a
  handler responsible for it was called afterwards; that the code drops a harvested bit in the second case is what its \<open>FIXME\<close>
  calls a patch for handlers with a single bit. The handlers do not change the list of handlers, the pattern or the connection
  pointer (\<open>quiet_attn\<close>).\<close>

theorem CallAttnHandler_no_loss:
  assumes "quiet_attn hdl" and "rs_fspConn (el_world s) \<noteq> None"
  shows "case attn_calls hdl (rs_fAttnDsc (el_world s)) (attn_pattern s) (attn_begin s) of
      Inl e \<Rightarrow> CallAttnHandler hdl s = Some (Inl e)
    | Inr (cs, s1) \<Rightarrow> \<exists>orphan hnext res. CallAttnHandler hdl s = Some res \<and> attn_rest orphan hnext s1 res \<and>
        (\<forall>b. bit orphan b \<longleftrightarrow> bit (attn_pattern s) b \<and> \<not> (\<exists>d\<in>set (rs_fAttnDsc (el_world s)). bit (ai_fMask (ad_fId d)) b)) \<and>
        (\<forall>b. bit hnext b \<longleftrightarrow> (\<exists>xs m hv ys. cs = xs @ (m, hv) # ys \<and> bit hv b \<and> \<not> bit m b \<and>
            (\<forall>(m', hv')\<in>set ys. \<not> (bit (attn_pattern s) b \<and> bit m' b))))"
proof -
  let ?p = "attn_pattern s"
  note loop = attn_loop_calls [OF assms(1), of "attn_begin s" "[]" "rs_fAttnDsc (el_world s)" ?p 0 0]
  show ?thesis
  proof (cases "attn_calls hdl (rs_fAttnDsc (el_world s)) ?p (attn_begin s)")
    case (Inl e)
    then show ?thesis
      using loop assms(2) by (simp add: CallAttnHandler_def attn_begin_def [symmetric])
  next
    case (Inr r)
    obtain cs s1 where r: "r = (cs, s1)"
      by (cases r)
    note calls = Inr [unfolded r]
    let ?hn = "fold (next_step ?p) cs 0" and ?hd = "fold (done_step ?p) cs 0"
    have c: "CallAttnHandler hdl s = Some (finish_attn ?hn ?hd s1)"
      using loop assms(2) calls by (simp add: CallAttnHandler_def attn_begin_def [symmetric])
    have "rs_fAttnPatt (el_world s1) = ?p"
      using attn_calls_quiet [OF assms(1) calls] by simp
    then have "attn_rest (?p AND NOT ?hd) ?hn s1 (finish_attn ?hn ?hd s1)"
      by (intro finish_attn_rest) simp
    moreover have "bit (?p AND NOT ?hd) b \<longleftrightarrow> bit ?p b \<and> \<not> (\<exists>d\<in>set (rs_fAttnDsc (el_world s)). bit (ai_fMask (ad_fId d)) b)" for b
      using attn_calls_masks [OF calls, of b] bit_imp_le_length [of ?p b] by (auto simp: bit_and_iff bit_not_iff bit_done_fold)
    moreover have "bit ?hn b \<longleftrightarrow> (\<exists>xs m hv ys. cs = xs @ (m, hv) # ys \<and> bit hv b \<and> \<not> bit m b \<and>
            (\<forall>(m', hv')\<in>set ys. \<not> (bit ?p b \<and> bit m' b)))" for b
      by (simp add: bit_next_fold)
    ultimately show ?thesis
      unfolding Inr r using c by simp blast
  qed
qed

section \<open>The action queue\<close>

definition quiet_actn :: "'w actnhdl \<Rightarrow> bool" where
  "quiet_actn hdl \<longleftrightarrow> (\<forall>h s. \<exists>irc s' new. hdl h s = Inr (irc, s') \<and>
     rs_fActnList (el_world s') = rs_fActnList (el_world s) @ new \<and>
     (rs_fspConn (el_world s') = None \<longleftrightarrow> rs_fspConn (el_world s) = None))"

fun call_times :: "'w actnhdl \<Rightarrow> nat \<Rightarrow> 'w sstate \<Rightarrow> 'w sstate result" where
  "call_times hdl 0 s = Inr s"
| "call_times hdl (Suc n) s = ebind (CallActnHandler hdl s) (call_times hdl n)"

lemma CallActnHandler_front:
  assumes "quiet_actn hdl" and "rs_fspConn (el_world s) \<noteq> None" and "rs_fActnList (el_world s) = h # hs"
  shows "\<exists>s' new. CallActnHandler hdl s = Inr s' \<and> rs_fActnList (el_world s') = hs @ new \<and> rs_fspConn (el_world s') \<noteq> None"
proof -
  from assms(1) obtain irc s1 new where "hdl h s = Inr (irc, s1)" "rs_fActnList (el_world s1) = rs_fActnList (el_world s) @ new"
    "rs_fspConn (el_world s1) = None \<longleftrightarrow> rs_fspConn (el_world s) = None" by (meson quiet_actn_def)
  with assms(2,3) show ?thesis by (auto simp: CallActnHandler_def Connect_def)
qed

text \<open>The action queue is fair: an action at position \<open>k\<close> of the queue comes to the front after exactly \<open>k\<close>
  calls, whatever the actions before it return and however many actions they queue.\<close>

theorem action_queue_fair:
  assumes "quiet_actn hdl" and "rs_fspConn (el_world s) \<noteq> None" and "k < length (rs_fActnList (el_world s))"
  shows "\<exists>s' hs. call_times hdl k s = Inr s' \<and> rs_fActnList (el_world s') = rs_fActnList (el_world s) ! k # hs"
  using assms(2,3)
proof (induction k arbitrary: s)
  case 0
  then show ?case by (cases "rs_fActnList (el_world s)") auto
next
  case (Suc k)
  then obtain h hs where l: "rs_fActnList (el_world s) = h # hs" by (cases "rs_fActnList (el_world s)") auto
  from CallActnHandler_front [OF assms(1) Suc.prems(1) l] obtain s1 new where
    s1: "CallActnHandler hdl s = Inr s1" "rs_fActnList (el_world s1) = hs @ new" "rs_fspConn (el_world s1) \<noteq> None" by blast
  with Suc.IH [of s1] Suc.prems l show ?case by (auto simp: nth_append)
qed


text \<open>A connected server with two handlers and two actions; the handlers harvest bit 1 and nothing.\<close>

definition demo_serv :: "unit sstate" where
  "demo_serv = eloop_new
     \<lparr>rs_fspConn = Some (connect_new []), rs_fContext = context_new,
      rs_fAttnDsc = [\<lparr>ad_fHandler = 2, ad_fId = \<lparr>ai_fMask = 1, ai_fCdata = 0\<rparr>\<rparr>,
                     \<lparr>ad_fHandler = 3, ad_fId = \<lparr>ai_fMask = 4, ai_fCdata = 0\<rparr>\<rparr>],
      rs_fActnList = [7, 8], rs_wakeupfd = 3,
      rs_sig = \<lparr>sv_active = False, sv_inside = False, sv_fAttnNotiPatt = 0, sv_wakeups = 0\<rparr>,
      rs_fAttnPatt = 0x15, rs_fTraceLevel = 0, rs_fStats = (\<lambda>_. 0), rs_client = ()\<rparr>"

definition demo_attn :: "unit attnhdl" where
  "demo_attn h args s = Inr (args\<lparr>aa_fAttnHarvest := (if h = 2 then 2 else 0), aa_fHarvestDone := True\<rparr>, s)"

definition demo_actn :: "unit actnhdl" where
  "demo_actn h s = Inr (1, s)"

text \<open>Bits 0 and 2 of the pattern have handlers, the first of which harvests bit 1; bit 4 has none, and there is no open port for the
  default handling.\<close>

theorem CallAttnHandler_no_loss_witness:
  "\<exists>orphan hnext res. CallAttnHandler demo_attn demo_serv = Some res \<and> attn_rest orphan hnext (attn_begin demo_serv) res \<and>
     bit orphan 4 \<and> \<not> bit orphan 0 \<and> \<not> bit orphan 2 \<and> bit hnext 1"
proof -
  have p: "attn_pattern demo_serv = 0x15" and d: "rs_fAttnDsc (el_world demo_serv) =
      [\<lparr>ad_fHandler = 2, ad_fId = \<lparr>ai_fMask = 1, ai_fCdata = 0\<rparr>\<rparr>, \<lparr>ad_fHandler = 3, ad_fId = \<lparr>ai_fMask = 4, ai_fCdata = 0\<rparr>\<rparr>]"
    by (simp_all add: demo_serv_def attn_pattern_def serv_sig_def eloop_new_def connect_new_def)
  have q: "quiet_attn demo_attn" by (simp add: quiet_attn_def demo_attn_def)
  have c: "rs_fspConn (el_world demo_serv) \<noteq> None" by (simp add: demo_serv_def eloop_new_def)
  have calls: "attn_calls demo_attn (rs_fAttnDsc (el_world demo_serv)) (attn_pattern demo_serv) (attn_begin demo_serv) =
      Inr ([(1, 2), (4, 0)], attn_begin demo_serv)"
    by (simp add: p d Let_def demo_attn_def)
  from CallAttnHandler_no_loss [OF q c] obtain orphan hnext res where
    r: "CallAttnHandler demo_attn demo_serv = Some res" "attn_rest orphan hnext (attn_begin demo_serv) res"
    and dn: "\<forall>b. bit orphan b \<longleftrightarrow> bit (attn_pattern demo_serv) b \<and>
      \<not> (\<exists>d\<in>set (rs_fAttnDsc (el_world demo_serv)). bit (ai_fMask (ad_fId d)) b)"
    and nx: "\<forall>b. bit hnext b \<longleftrightarrow> (\<exists>xs m hv ys. [(1 :: u16, 2 :: u16), (4, 0)] = xs @ (m, hv) # ys \<and> bit hv b \<and> \<not> bit m b \<and>
            (\<forall>(m', hv')\<in>set ys. \<not> (bit (attn_pattern demo_serv) b \<and> bit m' b)))"
    unfolding calls by auto
  have "bit hnext 1"
    by (intro iffD2 [OF nx [rule_format]] exI [of _ "[]"] exI [of _ 1] exI [of _ 2] exI [of _ "[(4, 0)]"]) (simp add: p)
  moreover have "bit orphan 4" "\<not> bit orphan 0" "\<not> bit orphan 2" by (simp_all add: dn p d)
  ultimately show ?thesis using r by blast
qed

theorem action_queue_fair_witness:
  "\<exists>s' hs. call_times demo_actn 1 demo_serv = Inr s' \<and> rs_fActnList (el_world s') = 8 # hs"
proof -
  have "quiet_actn demo_actn" by (simp add: quiet_actn_def demo_actn_def)
  moreover have "rs_fspConn (el_world demo_serv) \<noteq> None" and l: "rs_fActnList (el_world demo_serv) = [7, 8]"
    by (simp_all add: demo_serv_def eloop_new_def)
  ultimately show ?thesis using action_queue_fair [of demo_actn demo_serv 1] unfolding l by simp
qed


section \<open>From a notify on the wire to a pending attention\<close>

text \<open>An attention notify reaches the server: when the port becomes readable and the next read returns any
  number of complete notify frames, then \<open>RlinkHandler\<close> adds the patterns of all of them to the
  pattern that the next call of the attention handlers will see.\<close>

theorem RlinkHandler_notify:
  assumes "rs_fspConn (el_world s) = Some c" and "cn_fpServ c = Some v" and "sv_active v" and "sv_inside v"
    and "idle_with [] c" and "cn_fupPort c = Some p" and "po_fIsOpen p"
    and "feeds (concat (map (attn_frame xon) pats) # cs) p" and "pf_revents pfd AND NOT (pf_events pfd) = 0"
  shows "\<exists>s'. RlinkHandler pfd s = Inr (0, s') \<and> attn_pattern s' = attn_pattern s OR fold (\<lambda>a s. s OR a) pats 0"
proof -
  let ?d = "concat (map (attn_frame xon) pats)" and ?r = "cn_fRcvPkt c"
  have i: "rcv_inv ?r" "pending ?r = []" using assms(5) by (simp_all add: idle_with_def)
  from ReadData_fed [OF assms(8,7) i, of 0] obtain r' where
    rd: "ReadData p 0 ?r = Inr (int (length ?d), fed ?d p, r')" and
    r': "pending r' = ?d" "rcore_of r' = rcore_of ?r" "rcv_inv r'" "rcv_fNDone r' = rcv_fNDone ?r" "pb_fCrc r' = pb_fCrc ?r"
    by auto
  let ?c1 = "c\<lparr>cn_fupPort := Some (fed ?d p), cn_fRcvPkt := r'\<rparr>"
  have core: "rcv_fRcvState r' = rcv_fRcvState ?r" "rcv_fEscSeen r' = rcv_fEscSeen ?r"
    using r'(2) by (simp_all add: rcore_of_def)
  have "idle_with ?d ?c1" using assms(5) r' core by (simp add: idle_with_def)
  from unsolicited_frames [OF this] obtain c' where
    u: "unsolicited_loop ?c1 = Inr c'" and a: "attn_seen c' = fold (\<lambda>a s. s OR a) pats (attn_seen ?c1)"
    and act: "ServerActive c'" using assms(2,3) by (auto simp: ServerActive_def)
  have ne: "int (length ?d) \<noteq> 0" using assms(8) by (simp add: feeds_def)
  have "HandleUnsolicitedData c = Inr c'"
    unfolding HandleUnsolicitedData_def Let_def
    by (simp only: if_not_P [OF ne] ServerActiveInside_def IsOpen_def Port_def assms(2,6) rd ebind_Inr option.case prod.case)
      (simp add: assms(3,4,7) ProcessUnsolicitedData_def u)
  then have "RlinkHandler pfd s = Inr (0, put_conn c' (rs_inc kStatNRlinkEvt s))"
    using assms(1,9) by (simp add: RlinkHandler_def Let_def Connect_def)
  moreover have "attn_pattern (put_conn c' (rs_inc kStatNRlinkEvt s)) = attn_pattern s OR fold (\<lambda>a s. s OR a) pats 0"
  proof -
    obtain v' where v': "cn_fpServ c' = Some v'" "sv_active v'" using act by (auto simp: ServerActive_def split: option.splits)
    have f: "fold (\<lambda>a s. s OR a) pats x = x OR fold (\<lambda>a s. s OR a) pats 0" for x :: u16
      by (induction pats arbitrary: x) (simp, metis (no_types, lifting) fold_simps(2) or.assoc or.left_neutral)
    have "sv_fAttnNotiPatt v' = sv_fAttnNotiPatt v OR fold (\<lambda>a s. s OR a) pats 0"
      using a v' assms(2,3) f [of "sv_fAttnNotiPatt v"] by (simp add: attn_seen_def)
    then show ?thesis using v' assms(1,2) by (simp add: attn_pattern_def serv_sig_def put_conn_def or.assoc)
  qed
  ultimately show ?thesis by blast
qed


theorem RlinkHandler_notify_witness:
  "\<exists>s s'. attn_pattern s = 0 \<and> RlinkHandler \<lparr>pf_fd = 4, pf_events = 1, pf_revents = 1\<rparr> s = Inr (0, s') \<and>
     attn_pattern (s' :: unit sstate) = 5"
proof -
  let ?d = "concat (map (attn_frame False) [1, 4])"
  let ?v = "\<lparr>sv_active = True, sv_inside = True, sv_fAttnNotiPatt = 0, sv_wakeups = 0\<rparr>"
  let ?c = "(demo_rest [?d])\<lparr>cn_fpServ := Some ?v\<rparr>"
  let ?s = "put_conn ?c (upd_serv (\<lambda>v. v\<lparr>rs_fAttnPatt := 0\<rparr>) demo_serv)"
  have "length ?d \<le> kRawBufLen" "?d \<noteq> []"
    using length_attn_frame [of False 1] length_attn_frame [of False 4] by (simp_all add: kRawBufLen_def attn_frame_def)
  then have f: "feeds [?d] (demo_feed [?d])" by (intro demo_feeds) simp
  have i: "idle_with [] ?c"
    using demo_at_rest(1) [of "[?d]"] by (simp add: idle_with_def at_rest_def waiting_def)
  have o: "po_fIsOpen (demo_feed [?d])" by (simp add: demo_feed_def demo_port_def)
  have p0: "attn_pattern ?s = 0" by (simp add: attn_pattern_def serv_sig_def put_conn_def)
  have "\<exists>s'. RlinkHandler \<lparr>pf_fd = 4, pf_events = 1, pf_revents = 1\<rparr> ?s = Inr (0, s') \<and>
      attn_pattern s' = attn_pattern ?s OR fold (\<lambda>a s. s OR a) [1, 4] 0"
    by (rule RlinkHandler_notify [of ?s ?c ?v _ False "[1, 4]" "[]"])
      (use i o f demo_at_rest(2) in \<open>simp_all add: put_conn_def\<close>)
  then obtain s' where "RlinkHandler \<lparr>pf_fd = 4, pf_events = 1, pf_revents = 1\<rparr> ?s = Inr (0, s')" "attn_pattern s' = 5"
    unfolding p0 by auto
  with p0 show ?thesis by blast
qed

end
