(* ===== verification/RparseUrl.thy ===== *)
theory RparseUrl
  imports W11_Prelude "HOL-Library.Sublist"
begin

text \<open>
  Class \<open>RparseUrl\<close> of \<open>librtools\<close>, the parser for the \<open>scheme:path?opt;opt=val\<close> strings that name
  ports, disks and tapes. The option map keeps the first value of a key, as \<open>std::map::emplace\<close> does.
  Error texts are left out.
\<close>

section \<open>String functions of the C++ library\<close>

fun find_first_of :: "char \<Rightarrow> nat \<Rightarrow> string \<Rightarrow> nat option" where
  "find_first_of c pos [] = None"
| "find_first_of c 0 (x # xs) = (if x = c then Some 0 else map_option Suc (find_first_of c 0 xs))"
| "find_first_of c (Suc pos) (x # xs) = map_option Suc (find_first_of c pos xs)"

definition find_last_of :: "char \<Rightarrow> string \<Rightarrow> nat option" where
  "find_last_of c xs = map_option (\<lambda>i. length xs - 1 - i) (find_first_of c 0 (rev xs))"

fun occurs :: "string \<Rightarrow> string \<Rightarrow> bool" where
  "occurs pat [] = (pat = [])"
| "occurs pat (x # xs) = (prefix pat (x # xs) \<or> occurs pat xs)"

section \<open>State and operations\<close>

record purl =
  pu_fUrl :: string
  pu_fScheme :: string
  pu_fPath :: string
  pu_fOptMap :: "string \<rightharpoonup> string"

definition purl_new :: purl where
  "purl_new = \<lparr>pu_fUrl = [], pu_fScheme = [], pu_fPath = [], pu_fOptMap = Map.empty\<rparr>"

definition url_Clear :: "purl \<Rightarrow> purl" where
  "url_Clear u = u\<lparr>pu_fUrl := [], pu_fScheme := [], pu_fPath := [], pu_fOptMap := Map.empty\<rparr>"

definition SetPath :: "string \<Rightarrow> purl \<Rightarrow> purl" where
  "SetPath path u = u\<lparr>pu_fPath := path\<rparr>"

definition FindScheme :: "string \<Rightarrow> string \<Rightarrow> string" where
  "FindScheme url def =
     (case find_first_of CHR '':'' 0 url of
        None \<Rightarrow> def
      | Some pdel \<Rightarrow>
          (case find_first_of CHR ''?'' 0 url of
             Some odel \<Rightarrow> if odel < pdel then def else take pdel url
           | None \<Rightarrow> take pdel url))"

definition opt_field :: "string \<Rightarrow> bool \<Rightarrow> string" where
  "opt_field key hasval = ''|'' @ key @ (if hasval then ''='' else []) @ ''|''"

definition AddOpt :: "string \<Rightarrow> string \<Rightarrow> bool \<Rightarrow> string \<Rightarrow> (string \<rightharpoonup> string) \<Rightarrow> bool \<times> (string \<rightharpoonup> string)" where
  "AddOpt key val hasval optlist m =
     (if \<not> occurs (opt_field key hasval) optlist then (False, m)
      else (True, if m key = None then m(key \<mapsto> (if hasval then val else ''1'')) else m))"

definition chr_backslash :: char where
  "chr_backslash = CHR 0x5C"

fun opt_loop :: "string \<Rightarrow> string \<Rightarrow> string \<Rightarrow> string \<Rightarrow> bool \<Rightarrow> (string \<rightharpoonup> string) \<Rightarrow> bool \<times> (string \<rightharpoonup> string)" where
  "opt_loop optlist [] key val hasval m =
     (if key \<noteq> [] \<or> hasval then AddOpt key val hasval optlist m else (True, m))"
| "opt_loop optlist (c # cs) key val hasval m =
     (if c = CHR '';'' then
        let (ok, m1) = AddOpt key val hasval optlist m
        in if \<not> ok then (False, m1) else opt_loop optlist cs [] [] False m1
      else if \<not> hasval then
        if c = CHR ''='' then opt_loop optlist cs key val True m else opt_loop optlist cs (key @ [c]) val False m
      else if c = chr_backslash then
        (case cs of
           [] \<Rightarrow> (False, m)
         | d # ds \<Rightarrow> if d = chr_backslash \<or> d = CHR '';'' then opt_loop optlist ds key (val @ [d]) hasval m else (False, m))
      else opt_loop optlist cs key (val @ [c]) hasval m)"

definition optlist_ok :: "string \<Rightarrow> bool" where
  "optlist_ok optlist = (optlist = [] \<or> \<not> (length optlist < 2 \<or> hd optlist \<noteq> CHR ''|'' \<or> last optlist \<noteq> CHR ''|''))"

text \<open>The position behind the scheme: \<open>pdel\<close> wraps around to \<open>-1\<close> when the url has no scheme and
  does not start with a colon, so that \<open>pdel + 1\<close> is then zero.\<close>

definition path_begin :: "string \<Rightarrow> string \<Rightarrow> nat" where
  "path_begin scheme url = (if length scheme = 0 \<and> url \<noteq> [] \<and> hd url \<noteq> CHR '':'' then 0 else length scheme + 1)"

definition url_Set :: "string \<Rightarrow> string \<Rightarrow> purl \<Rightarrow> bool \<times> purl" where
  "url_Set url optlist u =
     (let scheme = FindScheme url [];
          u1 = u\<lparr>pu_fUrl := url, pu_fScheme := scheme, pu_fPath := [], pu_fOptMap := Map.empty\<rparr>;
          pbeg = path_begin scheme url
      in if \<not> optlist_ok optlist then (False, u1)
         else case find_first_of CHR ''?'' (length scheme) url of
             None \<Rightarrow> (True, if length url > pbeg then u1\<lparr>pu_fPath := drop pbeg url\<rparr> else u1)
           | Some odel \<Rightarrow>
               let (ok, m) = opt_loop optlist (drop (odel + 1) url) [] [] False Map.empty
               in (ok, u1\<lparr>pu_fPath := take (odel - pbeg) (drop pbeg url), pu_fOptMap := m\<rparr>))"

definition url_SetDef :: "string \<Rightarrow> string \<Rightarrow> string \<Rightarrow> purl \<Rightarrow> bool \<times> purl" where
  "url_SetDef url optlist scheme u =
     (if length (FindScheme url []) = 0 \<and> length scheme > 0 then url_Set (scheme @ '':'' @ url) optlist u
      else url_Set url optlist u)"

definition DirName :: "purl \<Rightarrow> string" where
  "DirName u = (case find_last_of CHR ''/'' (pu_fPath u) of None \<Rightarrow> ''.'' | Some ddel \<Rightarrow> take ddel (pu_fPath u))"

definition FileName :: "purl \<Rightarrow> string" where
  "FileName u = (case find_last_of CHR ''/'' (pu_fPath u) of
     Some ddel \<Rightarrow> if ddel + 1 \<le> length (pu_fPath u) then drop (ddel + 1) (pu_fPath u) else pu_fPath u
   | None \<Rightarrow> pu_fPath u)"

definition FileStem :: "purl \<Rightarrow> string" where
  "FileStem u = (let fname = FileName u in case find_last_of CHR ''.'' fname of None \<Rightarrow> [] | Some ddel \<Rightarrow> take ddel fname)"

definition FileType :: "purl \<Rightarrow> string" where
  "FileType u = (let fname = FileName u in case find_last_of CHR ''.'' fname of
     Some ddel \<Rightarrow> if ddel + 1 \<le> length fname then drop (ddel + 1) fname else []
   | None \<Rightarrow> [])"

definition url_FindOpt :: "string \<Rightarrow> purl \<Rightarrow> bool" where
  "url_FindOpt name u = (pu_fOptMap u name \<noteq> None)"

definition url_FindOptVal :: "string \<Rightarrow> purl \<Rightarrow> string option" where
  "url_FindOptVal name u = pu_fOptMap u name"

section \<open>Round trip\<close>

definition esc_val :: "string \<Rightarrow> string" where
  "esc_val v = concat (map (\<lambda>c. if c = chr_backslash \<or> c = CHR '';'' then [chr_backslash, c] else [c]) v)"

type_synonym url_opt = "string \<times> string option"

definition pr_opt :: "url_opt \<Rightarrow> string" where
  "pr_opt = (\<lambda>(k, v). k @ (case v of None \<Rightarrow> [] | Some x \<Rightarrow> ''='' @ esc_val x))"

fun pr_opts :: "url_opt list \<Rightarrow> string" where
  "pr_opts [] = []"
| "pr_opts [p] = pr_opt p"
| "pr_opts (p # ps) = pr_opt p @ '';'' @ pr_opts ps"

definition print_url :: "string \<Rightarrow> string \<Rightarrow> url_opt list \<Rightarrow> string" where
  "print_url scheme path opts = scheme @ '':'' @ path @ (if opts = [] then [] else ''?'' @ pr_opts opts)"

definition opt_val :: "url_opt \<Rightarrow> string \<times> string" where
  "opt_val = (\<lambda>(k, v). (k, case v of None \<Rightarrow> ''1'' | Some x \<Rightarrow> x))"

definition opt_ok :: "string \<Rightarrow> url_opt \<Rightarrow> bool" where
  "opt_ok optlist = (\<lambda>(k, v). k \<noteq> [] \<and> CHR '';'' \<notin> set k \<and> CHR ''='' \<notin> set k \<and> occurs (opt_field k (v \<noteq> None)) optlist)"

lemma chr_neq [simp]: "chr_backslash \<noteq> CHR '';''" "CHR '';'' \<noteq> chr_backslash"
  by (simp_all add: chr_backslash_def)

lemma opt_loop_key:
  "CHR '';'' \<notin> set k \<Longrightarrow> CHR ''='' \<notin> set k \<Longrightarrow>
     opt_loop ol (k @ cs) key val False m = opt_loop ol cs (key @ k) val False m"
  by (induction k arbitrary: key) auto

lemma opt_loop_val: "opt_loop ol (esc_val v @ cs) key val True m = opt_loop ol cs key (val @ v) True m"
  by (induction v arbitrary: val) (auto simp: esc_val_def)

lemma opt_loop_pr_opt:
  assumes "opt_ok ol (k, v)"
  shows "opt_loop ol (pr_opt (k, v) @ cs) [] [] False m =
    opt_loop ol cs k (case v of None \<Rightarrow> [] | Some x \<Rightarrow> x) (v \<noteq> None) m"
  using assms by (cases v) (auto simp: pr_opt_def opt_ok_def opt_loop_key opt_loop_val)

lemma opt_loop_pr_opts:
  assumes "list_all (opt_ok ol) ps" and "distinct (map fst ps)" and "\<And>p. p \<in> set ps \<Longrightarrow> m (fst p) = None"
  shows "opt_loop ol (pr_opts ps) [] [] False m = (True, m ++ map_of (map opt_val ps))"
  using assms
proof (induction ps arbitrary: m rule: pr_opts.induct)
  case (2 p)
  obtain k v where p: "p = (k, v)" by (cases p)
  have "m k = None" using 2(3) [of p] p by simp
  with 2(1) p opt_loop_pr_opt [of ol k v "[]" m] show ?case
    by (auto simp: opt_ok_def AddOpt_def opt_val_def map_add_def fun_eq_iff split: option.splits)
next
  case (3 p q ps)
  obtain k v where p: "p = (k, v)" by (cases p)
  let ?m = "m(k \<mapsto> snd (opt_val p))"
  have mk: "m k = None" using 3(4) [of p] p by simp
  have "opt_loop ol (pr_opts (p # q # ps)) [] [] False m = opt_loop ol (pr_opts (q # ps)) [] [] False ?m"
    using 3(2) mk p opt_loop_pr_opt [of ol k v "CHR '';'' # pr_opts (q # ps)" m]
    by (auto simp: opt_ok_def AddOpt_def opt_val_def Let_def split: option.splits)
  also have "\<dots> = (True, ?m ++ map_of (map opt_val (q # ps)))"
    using 3(2-4) p by (intro 3(1)) auto
  also have "?m ++ map_of (map opt_val (q # ps)) = m ++ map_of (map opt_val (p # q # ps))"
  proof -
    have "fst (opt_val x) = fst x" for x by (simp add: opt_val_def case_prod_beta)
    then have "fst ` set (map opt_val (q # ps)) = fst ` set (q # ps)" by (simp add: image_comp comp_def)
    then have "k \<notin> dom (map_of (map opt_val (q # ps)))"
      using 3(3) p unfolding dom_map_of_conv_image_fst by simp
    then have "?m ++ map_of (map opt_val (q # ps)) = (m ++ map_of (map opt_val (q # ps)))(k \<mapsto> snd (opt_val p))"
      by (rule map_add_upd_left)
    moreover have "map_of (map opt_val (p # q # ps)) = (map_of (map opt_val (q # ps)))(k \<mapsto> snd (opt_val p))"
      by (simp add: p opt_val_def)
    ultimately show ?thesis by (simp only: map_add_upd)
  qed
  finally show ?case .
qed simp

lemma find_first_of_app:
  "c \<notin> set xs \<Longrightarrow> find_first_of c n (xs @ ys) = (if n \<le> length xs then map_option (\<lambda>i. length xs + i) (find_first_of c 0 ys)
     else map_option (\<lambda>i. length xs + i) (find_first_of c (n - length xs) ys))"
proof (induction xs arbitrary: n)
  case Nil
  have "(+) 0 = (\<lambda>a :: nat. a)" by auto
  then show ?case by (simp add: option.map_ident)
next
  case (Cons x xs)
  have "(+) (Suc (length xs)) = (\<lambda>i. Suc (length xs + i))" by auto
  with Cons show ?case by (cases n) (auto simp: option.map_comp comp_def)
qed

lemma find_first_of_None [simp]: "c \<notin> set xs \<Longrightarrow> find_first_of c n xs = None"
  by (induction c n xs rule: find_first_of.induct) auto

text \<open>C38: Parsing inverts printing: a url made of a scheme, a path and a list of options with distinct names
  from the allowed list, where separators in the values are escaped, is accepted by \<open>Set\<close> and gives
  back exactly the scheme, the path and the options.\<close>

theorem url_roundtrip:
  assumes "CHR '':'' \<notin> set scheme" and "CHR ''?'' \<notin> set scheme" and "scheme \<noteq> []" and "CHR ''?'' \<notin> set path"
    and "optlist_ok optlist" and "list_all (opt_ok optlist) opts" and "distinct (map fst opts)"
  shows "url_Set (print_url scheme path opts) optlist u =
    (True, u\<lparr>pu_fUrl := print_url scheme path opts, pu_fScheme := scheme, pu_fPath := path,
             pu_fOptMap := map_of (map opt_val opts)\<rparr>)"
proof -
  let ?url = "print_url scheme path opts"
  let ?rest = "path @ (if opts = [] then [] else ''?'' @ pr_opts opts)"
  have c: "find_first_of CHR '':'' 0 ?url = Some (length scheme)"
    using assms(1) by (simp add: print_url_def find_first_of_app)
  have q: "find_first_of CHR ''?'' n ?url = (if opts = [] then None else Some (length scheme + 1 + length path))"
    if "n \<le> length scheme" for n
    using assms(2,4) that by (simp add: print_url_def find_first_of_app)
  have sch: "FindScheme ?url [] = scheme" using c q [of 0] by (simp add: FindScheme_def print_url_def)
  have pb: "path_begin scheme ?url = length scheme + 1" using assms(3) by (simp add: path_begin_def)
  have d: "drop (length scheme + 1) ?url = ?rest" by (simp add: print_url_def)
  have o: "opt_loop optlist (pr_opts opts) [] [] False Map.empty = (True, map_of (map opt_val opts))"
    using opt_loop_pr_opts [OF assms(6,7), of Map.empty] by simp
  show ?thesis
  proof (cases "opts = []")
    case True
    show ?thesis unfolding url_Set_def Let_def sch pb
      using assms(5) q [of "length scheme"] d True by (auto simp: print_url_def)
  next
    case False
    have "drop (length scheme + 1 + length path + 1) ?url = pr_opts opts"
      using False by (simp add: print_url_def)
    then show ?thesis unfolding url_Set_def Let_def sch pb
      using False assms(5) q [of "length scheme"] d o by simp
  qed
qed

theorem url_roundtrip_witness:
  "url_FindOptVal ''cap'' (snd (url_Set (print_url ''tap'' ''/a/b.tap'' [(''wpro'', None), (''cap'', Some ''1;2'')])
     ''|wpro|e11|cap=|'' purl_new)) = Some ''1;2''"
  using url_roundtrip [of "''tap''" "''/a/b.tap''" "''|wpro|e11|cap=|''" "[(''wpro'', None), (''cap'', Some ''1;2'')]" purl_new]
  by (simp add: optlist_ok_def opt_ok_def opt_field_def url_FindOptVal_def opt_val_def)

end
