(* ===== verification/Rtools.thy ===== *)
theory Rtools
  imports RparseUrl
begin

text \<open>
  The functions of \<open>Rtools\<close> in \<open>librtools\<close>: names of flags, conversion of strings to numbers and the
  rotation of backup files. A file system is a map from names to files; the entries of \<open>fs_fails\<close>
  make system calls fail with an error other than a missing file.
\<close>

section \<open>Conversions\<close>

text \<open>The C library function \<open>strtoul\<close> for base 10: white space, a sign, digits; the value is
  limited to the largest unsigned long, and a minus sign negates it modulo \<open>2 ^ 64\<close>. Without digits
  nothing is converted. Strings have no NUL character. The second result is the rest of the string at \<open>endptr\<close>.\<close>

definition is_space :: "char \<Rightarrow> bool" where
  "is_space c = (c \<in> set [CHR '' '', CHR 0x09, CHR 0x0A, CHR 0x0B, CHR 0x0C, CHR 0x0D])"

definition digit_val :: "char \<Rightarrow> nat option" where
  "digit_val c = (let n = of_char c in if 48 \<le> n \<and> n \<le> 57 then Some (n - 48) else None)"

fun take_digits :: "nat \<Rightarrow> string \<Rightarrow> nat \<times> string" where
  "take_digits v [] = (v, [])"
| "take_digits v (c # cs) = (case digit_val c of None \<Rightarrow> (v, c # cs) | Some d \<Rightarrow> take_digits (10 * v + d) cs)"

definition strtoul :: "string \<Rightarrow> nat \<times> string" where
  "strtoul str =
     (let s1 = dropWhile is_space str;
          (neg, s2) = (case s1 of c # cs \<Rightarrow> if c = CHR ''-'' then (True, cs) else if c = CHR ''+'' then (False, cs) else (False, s1)
                       | [] \<Rightarrow> (False, []))
      in case s2 of
           [] \<Rightarrow> (0, str)
         | c # cs \<Rightarrow>
             if digit_val c = None then (0, str)
             else let (v, rest) = take_digits 0 s2
                  in (if v \<ge> 2 ^ 64 then 2 ^ 64 - 1 else if neg then (2 ^ 64 - v) mod 2 ^ 64 else v, rest))"

definition String2Long :: "string \<Rightarrow> nat option" where
  "String2Long str = (let (res, endptr) = strtoul str in if endptr = [] then Some res else None)"

definition Word2Bytes :: "u16 \<Rightarrow> u16 \<times> u16" where
  "Word2Bytes w = (w AND 0xff, drop_bit 8 w AND 0xff)"

definition Bytes2Word :: "u16 \<Rightarrow> u16 \<Rightarrow> u16" where
  "Bytes2Word byte0 byte1 = push_bit 8 byte1 OR byte0"


section \<open>Names of flags\<close>

text \<open>The table ends with a zero mask.\<close>

fun flag_loop :: "u32 \<Rightarrow> char \<Rightarrow> (u32 \<times> string) list \<Rightarrow> string \<Rightarrow> string" where
  "flag_loop flags delim [] rval = rval"
| "flag_loop flags delim ((msk, name) # fs) rval =
     (if msk = 0 then rval
      else if flags AND msk \<noteq> 0 then flag_loop flags delim fs ((if rval \<noteq> [] then rval @ [delim] else rval) @ name)
      else flag_loop flags delim fs rval)"

definition Flags2String :: "u32 \<Rightarrow> (u32 \<times> string) list option \<Rightarrow> char \<Rightarrow> string result" where
  "Flags2String flags fnam delim =
     (case fnam of None \<Rightarrow> Inl (Rexception ''Rtools::Flags2String()'' ''Bad args: fnam==nullptr'')
      | Some fs \<Rightarrow> Inr (flag_loop flags delim fs []))"

section \<open>Backup files\<close>

record fsys =
  fs_files :: "string \<rightharpoonup> bool \<times> u8 list"
  fs_fails :: "bool list"

definition fs_next :: "fsys \<Rightarrow> bool \<times> fsys" where
  "fs_next fs = (case fs_fails fs of [] \<Rightarrow> (False, fs) | b # bs \<Rightarrow> (b, fs\<lparr>fs_fails := bs\<rparr>))"

definition digit_chr :: "nat \<Rightarrow> char" where
  "digit_chr d = char_of (48 + d)"

fun dec_str :: "nat \<Rightarrow> string" where
  "dec_str n = (if n < 10 then [digit_chr n] else dec_str (n div 10) @ [digit_chr (n mod 10)])"

declare dec_str.simps [simp del]

definition backup_name :: "string \<Rightarrow> string \<Rightarrow> nat \<Rightarrow> string" where
  "backup_name fbase fext i = (if i = 0 then fbase @ fext else fbase @ ''_'' @ dec_str i @ fext)"

fun backup_loop :: "string \<Rightarrow> string \<Rightarrow> nat \<Rightarrow> fsys \<Rightarrow> bool \<times> fsys" where
  "backup_loop fbase fext 0 fs = (True, fs)"
| "backup_loop fbase fext (Suc i) fs =
     (let fnam_new = backup_name fbase fext (Suc i);
          fnam_old = backup_name fbase fext i;
          (bad, fs1) = fs_next fs
      in if bad then (False, fs1)
         else case fs_files fs1 fnam_old of
             None \<Rightarrow> backup_loop fbase fext i fs1
           | Some (regular, cont) \<Rightarrow>
               if \<not> regular then (False, fs1)
               else
                 let (bad2, fs2) = fs_next fs1
                 in if bad2 then (False, fs2)
                    else backup_loop fbase fext i
                      (fs2\<lparr>fs_files := (fs_files fs2)(fnam_new := fs_files fs2 fnam_old, fnam_old := None)\<rparr>))"

text \<open>A name without a dot makes \<open>substr\<close> throw.\<close>

definition CreateBackupFile :: "string \<Rightarrow> nat \<Rightarrow> fsys \<Rightarrow> (bool \<times> fsys) result" where
  "CreateBackupFile fname nbackup fs =
     (if nbackup = 0 then Inr (True, fs)
      else case find_last_of CHR ''.'' fname of
          None \<Rightarrow> Inl (Rexception ''std::out_of_range'' ''basic_string::substr'')
        | Some dotpos \<Rightarrow>
            if nbackup > 99 then Inr (False, fs)
            else Inr (backup_loop (take dotpos fname) (drop dotpos fname) nbackup fs))"

definition CreateBackupFileUrl :: "purl \<Rightarrow> fsys \<Rightarrow> (bool \<times> fsys) result" where
  "CreateBackupFileUrl u fs =
     (case (url_FindOpt ''app'' u, url_FindOptVal ''bck'' u) of
        (False, Some bck) \<Rightarrow>
          (case String2Long bck of
             None \<Rightarrow> Inr (False, fs)
           | Some nbck \<Rightarrow> if nbck > 0 then CreateBackupFile (pu_fPath u) nbck fs else Inr (True, fs))
      | _ \<Rightarrow> Inr (True, fs))"

section \<open>Decimal numbers\<close>

lemma digit_val_chr [simp]: "d < 10 \<Longrightarrow> digit_val (digit_chr d) = Some d"
  by (simp add: digit_val_def digit_chr_def of_char_of)

lemma take_digits_app:
  "list_all (\<lambda>c. digit_val c \<noteq> None) ds \<Longrightarrow> take_digits v (ds @ cs) = take_digits (fst (take_digits v ds)) cs"
  by (induction ds arbitrary: v) auto

lemma dec_str_digits: "list_all (\<lambda>c. digit_val c \<noteq> None) (dec_str n)"
  by (induction n rule: dec_str.induct) (subst dec_str.simps, auto)

lemma take_digits_dec: "take_digits 0 (dec_str n) = (n, [])"
proof (induction n rule: dec_str.induct)
  case (1 n)
  show ?case
  proof (cases "n < 10")
    case False
    then have "take_digits 0 (dec_str n) = take_digits (fst (take_digits 0 (dec_str (n div 10)))) [digit_chr (n mod 10)]"
      by (subst dec_str.simps) (simp add: take_digits_app [OF dec_str_digits])
    with 1 False show ?thesis by simp
  qed (simp add: dec_str.simps)
qed

lemma dec_str_inj: "dec_str m = dec_str n \<Longrightarrow> m = n"
  by (metis take_digits_dec prod.inject)

lemma dec_str_head: "\<exists>c cs. dec_str n = c # cs \<and> digit_val c \<noteq> None"
  using dec_str_digits [of n] by (cases "dec_str n") (auto simp: dec_str.simps [of n] split: if_splits)

text \<open>Converting the decimal digits of a number gives the number, for every number of 64 bits; larger
  numbers are limited to the largest one.\<close>

theorem String2Long_dec: "String2Long (dec_str n) = Some (min n (2 ^ 64 - 1))"
proof -
  obtain c cs where c: "dec_str n = c # cs" "digit_val c \<noteq> None" using dec_str_head by blast
  from c(2) have "\<not> is_space c" "c \<noteq> CHR ''-''" "c \<noteq> CHR ''+''"
    by (auto simp: is_space_def digit_val_def Let_def split: if_splits)
  moreover have "take_digits 0 (c # cs) = (n, [])" using take_digits_dec [of n] c by simp
  ultimately show ?thesis using c
    by (simp add: String2Long_def strtoul_def Let_def min_def del: take_digits.simps)
qed

section \<open>Rotation of backup files\<close>

lemma backup_name_inj: "backup_name b x i = backup_name b x j \<Longrightarrow> i = j"
  by (auto simp: backup_name_def dest: dec_str_inj split: if_splits)

lemma backup_loop_rotates:
  assumes "fs_fails fs = []" and "\<And>i. i < n \<Longrightarrow> fs_files fs (backup_name b x i) \<noteq> None \<Longrightarrow> fst (the (fs_files fs (backup_name b x i)))"
  shows "\<exists>fs'. backup_loop b x n fs = (True, fs') \<and> fs_fails fs' = [] \<and>
    (\<forall>i<n. fs_files fs' (backup_name b x (Suc i)) =
       (if Suc i = n \<and> fs_files fs (backup_name b x i) = None then fs_files fs (backup_name b x n)
        else fs_files fs (backup_name b x i))) \<and>
    (0 < n \<longrightarrow> fs_files fs' (backup_name b x 0) = None) \<and>
    (\<forall>nam. (\<forall>i\<le>n. nam \<noteq> backup_name b x i) \<longrightarrow> fs_files fs' nam = fs_files fs nam)"
  using assms
proof (induction n arbitrary: fs)
  case (Suc n)
  let ?nm = "backup_name b x"
  have inj [simp]: "?nm i = ?nm j \<longleftrightarrow> i = j" for i j using backup_name_inj by auto
  let ?fs = "fs\<lparr>fs_files := (if fs_files fs (?nm n) = None then fs_files fs
      else (fs_files fs)(?nm (Suc n) := fs_files fs (?nm n), ?nm n := None))\<rparr>"
  have step: "backup_loop b x (Suc n) fs = backup_loop b x n ?fs"
    using Suc.prems(1) Suc.prems(2) [of n]
    by (cases "fs_files fs (?nm n)") (auto simp: fs_next_def Let_def)
  have "fs_fails ?fs = []" using Suc.prems(1) by simp
  moreover have "fst (the (fs_files ?fs (?nm i)))" if "i < n" "fs_files ?fs (?nm i) \<noteq> None" for i
    using that Suc.prems(2) [of i] by (auto split: if_splits)
  ultimately obtain fs' where fs': "backup_loop b x n ?fs = (True, fs')" "fs_fails fs' = []"
    "\<forall>i<n. fs_files fs' (?nm (Suc i)) =
       (if Suc i = n \<and> fs_files ?fs (?nm i) = None then fs_files ?fs (?nm n) else fs_files ?fs (?nm i))"
    "0 < n \<longrightarrow> fs_files fs' (?nm 0) = None"
    "\<forall>nam. (\<forall>i\<le>n. nam \<noteq> ?nm i) \<longrightarrow> fs_files fs' nam = fs_files ?fs nam"
    using Suc.IH [of ?fs] by blast
  have top: "fs_files fs' (?nm (Suc n)) = fs_files ?fs (?nm (Suc n))" using fs'(5) by auto
  have zero: "fs_files fs' (?nm 0) = None"
    using fs'(4) by (cases "n = 0") (use fs'(1) Suc.prems(1) in \<open>auto split: if_splits\<close>)
  have low: "fs_files fs' (?nm (Suc i)) = fs_files fs (?nm i)" if "i < n" for i
    using fs'(3) [rule_format, OF that] that by (auto split: if_splits)
  have rest: "fs_files fs' nam = fs_files fs nam" if "\<forall>i\<le>Suc n. nam \<noteq> ?nm i" for nam
    using fs'(5) [rule_format, of nam] that by auto
  show ?case
    by (intro exI [of _ fs'] conjI allI impI) (use step fs'(1,2) top zero low rest in \<open>auto simp: less_Suc_eq\<close>)
qed simp

text \<open>A backup loses no file but the oldest: if the files of the chain are regular and no system call fails,
  then \<open>CreateBackupFile\<close> returns true, the name itself is free, every file of the chain has moved to
  the next name, only the last one may have been overwritten, and no other file has changed.\<close>

theorem backup_rotates:
  assumes "find_last_of CHR ''.'' fname = Some d" and "0 < n" and "n \<le> 99" and "fs_fails fs = []"
    and "\<And>i. i < n \<Longrightarrow> fs_files fs (backup_name (take d fname) (drop d fname) i) \<noteq> None \<Longrightarrow>
           fst (the (fs_files fs (backup_name (take d fname) (drop d fname) i)))"
  shows "\<exists>fs'. CreateBackupFile fname n fs = Inr (True, fs') \<and> fs_files fs' fname = None \<and>
    (\<forall>i<n. fs_files fs' (backup_name (take d fname) (drop d fname) (Suc i)) =
       (if Suc i = n \<and> fs_files fs (backup_name (take d fname) (drop d fname) i) = None
        then fs_files fs (backup_name (take d fname) (drop d fname) n)
        else fs_files fs (backup_name (take d fname) (drop d fname) i))) \<and>
    (\<forall>nam. (\<forall>i\<le>n. nam \<noteq> backup_name (take d fname) (drop d fname) i) \<longrightarrow> fs_files fs' nam = fs_files fs nam)"
proof -
  let ?b = "take d fname" and ?x = "drop d fname"
  have nm: "backup_name ?b ?x 0 = fname" by (simp add: backup_name_def)
  from backup_loop_rotates [OF assms(4), of n ?b ?x, OF assms(5)] obtain fs' where
    "backup_loop ?b ?x n fs = (True, fs')" "fs_files fs' fname = None"
    "\<forall>i<n. fs_files fs' (backup_name ?b ?x (Suc i)) =
       (if Suc i = n \<and> fs_files fs (backup_name ?b ?x i) = None then fs_files fs (backup_name ?b ?x n)
        else fs_files fs (backup_name ?b ?x i))"
    "\<forall>nam. (\<forall>i\<le>n. nam \<noteq> backup_name ?b ?x i) \<longrightarrow> fs_files fs' nam = fs_files fs nam"
    using assms(2) nm by auto
  with assms(1-3) show ?thesis by (intro exI [of _ fs']) (simp add: CreateBackupFile_def)
qed

theorem backup_rotates_witness:
  "\<exists>fs'. CreateBackupFile ''a.log'' 1 \<lparr>fs_files = [''a.log'' \<mapsto> (True, [1])], fs_fails = []\<rparr> = Inr (True, fs') \<and>
     fs_files fs' ''a.log'' = None \<and> fs_files fs' (backup_name ''a'' ''.log'' 1) = Some (True, [1])"
proof -
  let ?fs = "\<lparr>fs_files = [''a.log'' \<mapsto> (True, [1])], fs_fails = []\<rparr>"
  have d: "find_last_of CHR ''.'' ''a.log'' = Some 1" by (simp add: find_last_of_def)
  have nm: "backup_name ''a'' ''.log'' 0 = ''a.log''" by (simp add: backup_name_def)
  from backup_rotates [OF d, of 1 ?fs] nm show ?thesis by (auto simp: drop_Cons)
qed

end
