(* ===== verification/Rw11Cpu.thy ===== *)
theory Rw11Cpu
  imports RlinkServer Rtools
begin

text \<open>
  Class \<open>Rw11Cpu\<close> of \<open>librw11\<close> with its base classes for controllers and probes, \<open>Rw11Cntl\<close> and
  \<open>Rw11Probe\<close>: the control port of a w11 cpu as the client sees it. Command lists for register and
  memory access, memory read and write in blocks, probing of controllers, the loader for absolute
  binaries, boot, and the setup of the address maps. Log output and dumps are left out, and so is
  waiting for the end of the cpu activity, which needs threads.
\<close>

named_theorems cpu_defs "register offsets and masks of the cpu"

section \<open>Constants\<close>

definition kCPCONF :: u16 where [cpu_defs]: "kCPCONF = 0x0"
definition kCPCNTL :: u16 where [cpu_defs]: "kCPCNTL = 0x1"
definition kCPSTAT :: u16 where [cpu_defs]: "kCPSTAT = 0x2"
definition kCPPSW :: u16 where [cpu_defs]: "kCPPSW = 0x3"
definition kCPAL :: u16 where [cpu_defs]: "kCPAL = 0x4"
definition kCPAH :: u16 where [cpu_defs]: "kCPAH = 0x5"
definition kCPMEM :: u16 where [cpu_defs]: "kCPMEM = 0x6"
definition kCPMEMI :: u16 where [cpu_defs]: "kCPMEMI = 0x7"
definition kCPR0 :: u16 where [cpu_defs]: "kCPR0 = 0x8"
definition kCPPC :: u16 where [cpu_defs]: "kCPPC = 0xf"
definition kCPMEMBE :: u16 where [cpu_defs]: "kCPMEMBE = 0x10"
definition kCPFUNC_START :: u16 where [cpu_defs]: "kCPFUNC_START = 0x1"
definition kCPFUNC_STOP :: u16 where [cpu_defs]: "kCPFUNC_STOP = 0x2"
definition kCPFUNC_CRESET :: u16 where [cpu_defs]: "kCPFUNC_CRESET = 0x4"
definition kCPSTAT_M_CpuSusp :: u16 where [cpu_defs]: "kCPSTAT_M_CpuSusp = 0x8"
definition kCPSTAT_M_CpuGo :: u16 where [cpu_defs]: "kCPSTAT_M_CpuGo = 0x4"
definition kCPAH_M_ADDR :: u16 where [cpu_defs]: "kCPAH_M_ADDR = 0x3f"
definition kCPAH_M_22BIT :: u16 where [cpu_defs]: "kCPAH_M_22BIT = 0x40"
definition kCPAH_M_UBMAP :: u16 where [cpu_defs]: "kCPAH_M_UBMAP = 0x80"
definition kCPAH_M_UBM22 :: u16 where [cpu_defs]: "kCPAH_M_UBM22 = 0xc0"
definition kCPMEMBE_M_STICK :: u16 where [cpu_defs]: "kCPMEMBE_M_STICK = 0x4"
definition kCPMEMBE_M_BE :: u16 where [cpu_defs]: "kCPMEMBE_M_BE = 0x3"
definition kCPMEMBE_M_BE0 :: u16 where [cpu_defs]: "kCPMEMBE_M_BE0 = 0x1"
definition kCPMEMBE_M_BE1 :: u16 where [cpu_defs]: "kCPMEMBE_M_BE1 = 0x2"
definition kCPUPSW :: u16 where [cpu_defs]: "kCPUPSW = 0xfffe"
definition kCPUSTKLIM :: u16 where [cpu_defs]: "kCPUSTKLIM = 0xfffc"
definition kCPUPIRQ :: u16 where [cpu_defs]: "kCPUPIRQ = 0xfffa"
definition kCPUMBRK :: u16 where [cpu_defs]: "kCPUMBRK = 0xfff8"
definition kCPUERR :: u16 where [cpu_defs]: "kCPUERR = 0xfff6"
definition kCPUSYSID :: u16 where [cpu_defs]: "kCPUSYSID = 0xfff4"
definition kCPUSDREG :: u16 where [cpu_defs]: "kCPUSDREG = 0xff78"
definition kMEMHISIZE :: u16 where [cpu_defs]: "kMEMHISIZE = 0xfff2"
definition kMEMLOSIZE :: u16 where [cpu_defs]: "kMEMLOSIZE = 0xfff0"
definition kMEMHM :: u16 where [cpu_defs]: "kMEMHM = 0xffea"
definition kMEMMAINT :: u16 where [cpu_defs]: "kMEMMAINT = 0xffe8"
definition kMEMCNTRL :: u16 where [cpu_defs]: "kMEMCNTRL = 0xffe6"
definition kMEMSYSERR :: u16 where [cpu_defs]: "kMEMSYSERR = 0xffe4"
definition kMEMHIADDR :: u16 where [cpu_defs]: "kMEMHIADDR = 0xffe2"
definition kMEMLOADDR :: u16 where [cpu_defs]: "kMEMLOADDR = 0xffe0"
definition kMMUMMR3 :: u16 where [cpu_defs]: "kMMUMMR3 = 0xf54e"
definition kMMUMMR2 :: u16 where [cpu_defs]: "kMMUMMR2 = 0xff7e"
definition kMMUMMR1 :: u16 where [cpu_defs]: "kMMUMMR1 = 0xff7c"
definition kMMUMMR0 :: u16 where [cpu_defs]: "kMMUMMR0 = 0xff7a"
definition kMMUPDRK :: u16 where [cpu_defs]: "kMMUPDRK = 0xf4c0"
definition kMMUPARK :: u16 where [cpu_defs]: "kMMUPARK = 0xf4e0"
definition kMMUPDRS :: u16 where [cpu_defs]: "kMMUPDRS = 0xf480"
definition kMMUPARS :: u16 where [cpu_defs]: "kMMUPARS = 0xf4a0"
definition kMMUPDRU :: u16 where [cpu_defs]: "kMMUPDRU = 0xff80"
definition kMMUPARU :: u16 where [cpu_defs]: "kMMUPARU = 0xffa0"
definition kSCBASE :: u16 where [cpu_defs]: "kSCBASE = 0x40"
definition kSCCNTL :: u16 where [cpu_defs]: "kSCCNTL = 0x0"
definition kSCADDR :: u16 where [cpu_defs]: "kSCADDR = 0x1"
definition kSCDATA :: u16 where [cpu_defs]: "kSCDATA = 0x2"
definition kCMBASE :: u16 where [cpu_defs]: "kCMBASE = 0x48"
definition kCMCNTL :: u16 where [cpu_defs]: "kCMCNTL = 0x0"
definition kCMSTAT :: u16 where [cpu_defs]: "kCMSTAT = 0x1"
definition kCMADDR :: u16 where [cpu_defs]: "kCMADDR = 0x2"
definition kCMDATA :: u16 where [cpu_defs]: "kCMDATA = 0x3"
definition kCMIADDR :: u16 where [cpu_defs]: "kCMIADDR = 0x4"
definition kCMIPC :: u16 where [cpu_defs]: "kCMIPC = 0x5"
definition kCMIREG :: u16 where [cpu_defs]: "kCMIREG = 0x6"
definition kCMIMAL :: u16 where [cpu_defs]: "kCMIMAL = 0x7"
definition kHBBASE :: u16 where [cpu_defs]: "kHBBASE = 0x50"
definition kHBSIZE :: u16 where [cpu_defs]: "kHBSIZE = 0x4"
definition kHBNMAX :: u16 where [cpu_defs]: "kHBNMAX = 0x4"
definition kHBCNTL :: u16 where [cpu_defs]: "kHBCNTL = 0x0"
definition kHBSTAT :: u16 where [cpu_defs]: "kHBSTAT = 0x1"
definition kHBHILIM :: u16 where [cpu_defs]: "kHBHILIM = 0x2"
definition kHBLOLIM :: u16 where [cpu_defs]: "kHBLOLIM = 0x3"
definition kPCBASE :: u16 where [cpu_defs]: "kPCBASE = 0x60"
definition kPCCNTL :: u16 where [cpu_defs]: "kPCCNTL = 0x0"
definition kPCSTAT :: u16 where [cpu_defs]: "kPCSTAT = 0x1"
definition kPCDATA :: u16 where [cpu_defs]: "kPCDATA = 0x2"
definition kIMBASE :: u16 where [cpu_defs]: "kIMBASE = 0xe000"
definition kIMCNTL :: u16 where [cpu_defs]: "kIMCNTL = 0x0"
definition kIMSTAT :: u16 where [cpu_defs]: "kIMSTAT = 0x2"
definition kIMHILIM :: u16 where [cpu_defs]: "kIMHILIM = 0x4"
definition kIMLOLIM :: u16 where [cpu_defs]: "kIMLOLIM = 0x6"
definition kIMADDR :: u16 where [cpu_defs]: "kIMADDR = 0x8"
definition kIMDATA :: u16 where [cpu_defs]: "kIMDATA = 0xa"
definition kITBASE :: u16 where [cpu_defs]: "kITBASE = 0xf000"
definition kITCNTL :: u16 where [cpu_defs]: "kITCNTL = 0x0"
definition kITSTAT :: u16 where [cpu_defs]: "kITSTAT = 0x2"
definition kITDATA :: u16 where [cpu_defs]: "kITDATA = 0x4"
definition kITFIFO :: u16 where [cpu_defs]: "kITFIFO = 0x6"
definition kM9BASE :: u16 where [cpu_defs]: "kM9BASE = 0xea00"
definition kKWLBASE :: u16 where [cpu_defs]: "kKWLBASE = 0xff66"
definition kKWPBASE :: u16 where [cpu_defs]: "kKWPBASE = 0xf560"
definition kKWPCSR :: u16 where [cpu_defs]: "kKWPCSR = 0x0"
definition kKWPCSB :: u16 where [cpu_defs]: "kKWPCSB = 0x2"
definition kKWPCTR :: u16 where [cpu_defs]: "kKWPCTR = 0x4"
definition kIISTBASE :: u16 where [cpu_defs]: "kIISTBASE = 0xff40"
definition kIISTACR :: u16 where [cpu_defs]: "kIISTACR = 0x0"
definition kIISTADR :: u16 where [cpu_defs]: "kIISTADR = 0x2"

section \<open>The link of a cpu\<close>

text \<open>What a cpu uses of the server and the connection: \<open>Server().Exec\<close> with an error message, which
  returns false when the transfer failed, the same for \<open>Connect().Exec\<close>, the block sizes, the
  common address map, the action queue and the attention handlers. A command list is executed in one call, so that the state \<open>'s\<close> behind the
  link is all that a call can change. \<open>server_link\<close> is the link that the code has.\<close>

record 's link =
  lk_Exec :: "clist \<Rightarrow> 's \<Rightarrow> (bool \<times> clist \<times> 's) result"
  lk_ConnExec :: "clist \<Rightarrow> 's \<Rightarrow> (bool \<times> clist \<times> 's) result"
  lk_BlockSizeMax :: "'s \<Rightarrow> nat"
  lk_BlockSizePrudent :: "'s \<Rightarrow> nat"
  lk_AddrMapInsert :: "string \<Rightarrow> u16 \<Rightarrow> 's \<Rightarrow> 's"
  lk_QueueAction :: "hid \<Rightarrow> 's \<Rightarrow> 's result"
  lk_AddAttnHandler :: "hid \<Rightarrow> u16 \<Rightarrow> nat \<Rightarrow> 's \<Rightarrow> 's result"

definition rs_ExecMsg :: "clist \<Rightarrow> 'w sstate \<Rightarrow> (bool \<times> clist \<times> 'w sstate) result" where
  "rs_ExecMsg l s =
     ebind (Connect s) (\<lambda>c. ebind (Exec l (rs_fContext (el_world s)) c) (\<lambda>(rc, l', x', c').
       Inr (rc, l', upd_serv (\<lambda>v. v\<lparr>rs_fspConn := Some c', rs_fContext := x'\<rparr>) s)))"

definition rs_ConnExecMsg :: "clist \<Rightarrow> 'w sstate \<Rightarrow> (bool \<times> clist \<times> 'w sstate) result" where
  "rs_ConnExecMsg l s =
     ebind (Connect s) (\<lambda>c. ebind (ExecCtx l c) (\<lambda>(rc, l', c'). Inr (rc, l', put_conn c' s)))"

definition with_conn :: "(connect \<Rightarrow> 'a) \<Rightarrow> 'a \<Rightarrow> 'w sstate \<Rightarrow> 'a" where
  "with_conn f x s = (case Connect s of Inl _ \<Rightarrow> x | Inr c \<Rightarrow> f c)"

definition server_link :: "'w sstate link" where
  "server_link =
     \<lparr>lk_Exec = rs_ExecMsg, lk_ConnExec = rs_ConnExecMsg,
      lk_BlockSizeMax = with_conn BlockSizeMax 0, lk_BlockSizePrudent = with_conn BlockSizePrudent 0,
      lk_AddrMapInsert = (\<lambda>name addr s. with_conn (\<lambda>c. put_conn (snd (AddrMapInsert name addr c)) s) s s),
      lk_QueueAction = QueueAction, lk_AddAttnHandler = AddAttnHandler\<rparr>"

text \<open>The variants that throw when the transfer failed.\<close>

definition throw_fail :: "(bool \<times> clist \<times> 's) result \<Rightarrow> (clist \<times> 's) result" where
  "throw_fail r = ebind r (\<lambda>(rc, l, s).
     if \<not> rc then Inl (Rexception ''RlinkConnect::Exec'' ''Exec() failed: '') else Inr (l, s))"

definition srv_Exec :: "'s link \<Rightarrow> clist \<Rightarrow> 's \<Rightarrow> (clist \<times> 's) result" where
  "srv_Exec k l s = throw_fail (lk_Exec k l s)"

definition conn_Exec :: "'s link \<Rightarrow> clist \<Rightarrow> 's \<Rightarrow> (clist \<times> 's) result" where
  "conn_Exec k l s = throw_fail (lk_ConnExec k l s)"

lemma srv_Exec_server: "srv_Exec server_link l s = rs_Exec l s"
proof (cases "Connect s")
  case (Inr c)
  show ?thesis
    by (cases "Exec l (rs_fContext (el_world s)) c")
      (auto simp: Inr srv_Exec_def throw_fail_def server_link_def rs_ExecMsg_def rs_Exec_def ExecThrow_def split: prod.splits)
qed (simp add: srv_Exec_def throw_fail_def server_link_def rs_ExecMsg_def rs_Exec_def)

definition srv_GetAttnInfo :: "'s link \<Rightarrow> attn_args \<Rightarrow> clist \<Rightarrow> 's \<Rightarrow> (attn_args \<times> clist \<times> 's) result" where
  "srv_GetAttnInfo k args l s =
     ebind (cl_at 0 l) (\<lambda>cmd0.
       if Command cmd0 \<noteq> kCmdAttn
       then Inl (Rexception ''RlinkServer::GetAttnInfo'' ''clist did't start with attn'')
       else ebind (srv_Exec k l s) (\<lambda>(l', s'). ebind (cl_at 0 l') (\<lambda>cmd0'.
         Inr (args\<lparr>aa_fAttnHarvest := cmd_fData cmd0', aa_fHarvestDone := True\<rparr>, l', s'))))"

lemma srv_GetAttnInfo_server: "srv_GetAttnInfo server_link args l s = GetAttnInfoList args l s"
  by (simp only: srv_GetAttnInfo_def GetAttnInfoList_def srv_Exec_server)

section \<open>Probing and controllers\<close>

record probe =
  pb_fAddr :: u16
  pb_fProbeInt :: bool
  pb_fProbeRem :: bool
  pb_fProbeDone :: bool
  pb_fFoundInt :: bool
  pb_fFoundRem :: bool
  pb_fDataInt :: u16
  pb_fDataRem :: u16

definition probe_new :: "u16 \<Rightarrow> bool \<Rightarrow> bool \<Rightarrow> probe" where
  "probe_new addr probeint proberem =
     \<lparr>pb_fAddr = addr, pb_fProbeInt = probeint, pb_fProbeRem = proberem, pb_fProbeDone = False,
      pb_fFoundInt = False, pb_fFoundRem = False, pb_fDataInt = 0, pb_fDataRem = 0\<rparr>"

definition pb_Found :: "probe \<Rightarrow> bool" where
  "pb_Found p =
     (if \<not> pb_fProbeDone p then False
      else if pb_fProbeInt p \<and> \<not> pb_fFoundInt p then False
      else if pb_fProbeRem p \<and> \<not> pb_fFoundRem p then False else True)"

definition IndicatorInt :: "probe \<Rightarrow> char" where
  "IndicatorInt p =
     (if \<not> pb_fProbeDone p then CHR ''?'' else if \<not> pb_fProbeInt p then CHR ''-''
      else if pb_fFoundInt p then CHR ''y'' else CHR ''n'')"

definition IndicatorRem :: "probe \<Rightarrow> char" where
  "IndicatorRem p =
     (if \<not> pb_fProbeDone p then CHR ''?'' else if \<not> pb_fProbeRem p then CHR ''-''
      else if pb_fFoundRem p then CHR ''y'' else CHR ''n'')"

record cntl =
  cc_fType :: string
  cc_fName :: string
  cc_fBase :: u16
  cc_fLam :: int
  cc_fEnable :: bool
  cc_fStarted :: bool
  cc_fProbe :: probe
  cc_fTraceLevel :: u32

definition cntl_new :: "string \<Rightarrow> cntl" where
  "cntl_new type =
     \<lparr>cc_fType = type, cc_fName = [], cc_fBase = 0, cc_fLam = - 1, cc_fEnable = True, cc_fStarted = False,
      cc_fProbe = probe_new 0 False False, cc_fTraceLevel = 0\<rparr>"

definition SetEnable :: "bool \<Rightarrow> cntl \<Rightarrow> cntl result" where
  "SetEnable ena c =
     (if cc_fStarted c then Inl (Rexception ''Rw11Cntl::SetEnable'' ''only allowed before Start()'')
      else Inr (c\<lparr>cc_fEnable := ena\<rparr>))"

definition cntl_Start :: "cntl \<Rightarrow> cntl" where
  "cntl_Start c = c\<lparr>cc_fStarted := True\<rparr>"

definition cntl_BootCode :: "bool \<times> u16 list \<times> u16 \<times> u16" where
  "cntl_BootCode = (False, [], 0, 0)"

definition UnitName :: "nat \<Rightarrow> cntl \<Rightarrow> string" where
  "UnitName index c =
     cc_fName c @ (if index > 9 then [char_of (48 + index div 10)] else []) @ [char_of (48 + index mod 10)]"

definition ConfigCntl :: "string \<Rightarrow> u16 \<Rightarrow> int \<Rightarrow> u16 \<Rightarrow> bool \<Rightarrow> bool \<Rightarrow> cntl \<Rightarrow> cntl" where
  "ConfigCntl name base lam probeoff probeint proberem c =
     c\<lparr>cc_fName := name, cc_fBase := base, cc_fLam := lam,
       cc_fProbe := (cc_fProbe c)\<lparr>pb_fAddr := base + probeoff, pb_fProbeInt := probeint, pb_fProbeRem := proberem\<rparr>\<rparr>"

section \<open>State of a cpu\<close>

text \<open>The controllers are in the order of their names, as in \<open>std::map\<close>. The mutex and the condition
  variable of the cpu activity are left out.\<close>

record cpu =
  cp_fType :: string
  cp_fIndex :: nat
  cp_fBase :: u16
  cp_fIBase :: u16
  cp_fMemSize :: u32
  cp_fHasScnt :: bool
  cp_fHasPcnt :: bool
  cp_fHasCmon :: bool
  cp_fHasHbpt :: nat
  cp_fHasIbmon :: bool
  cp_fHasIbtst :: bool
  cp_fHasM9312 :: bool
  cp_fHasKw11l :: bool
  cp_fHasKw11p :: bool
  cp_fHasIist :: bool
  cp_fCpuAct :: bool
  cp_fCpuStat :: u16
  cp_fCntlMap :: "(string \<times> cntl) list"
  cp_fIAddrMap :: addrmap
  cp_fRAddrMap :: addrmap

definition cpu_new :: "string \<Rightarrow> cpu" where
  "cpu_new type =
     \<lparr>cp_fType = type, cp_fIndex = 0, cp_fBase = 0, cp_fIBase = 0x4000, cp_fMemSize = 0, cp_fHasScnt = False,
      cp_fHasPcnt = False, cp_fHasCmon = False, cp_fHasHbpt = 0, cp_fHasIbmon = False, cp_fHasIbtst = False,
      cp_fHasM9312 = False, cp_fHasKw11l = False, cp_fHasKw11p = False, cp_fHasIist = False, cp_fCpuAct = False,
      cp_fCpuStat = 0, cp_fCntlMap = [], cp_fIAddrMap = am_new, cp_fRAddrMap = am_new\<rparr>"

section \<open>Controllers of a cpu\<close>

fun str_less :: "string \<Rightarrow> string \<Rightarrow> bool" where
  "str_less _ [] = False"
| "str_less [] (_ # _) = True"
| "str_less (c # cs) (d # ds) =
     ((of_char c :: nat) < of_char d \<or> c = d \<and> str_less cs ds)"

fun cmap_put :: "string \<Rightarrow> 'c \<Rightarrow> (string \<times> 'c) list \<Rightarrow> (string \<times> 'c) list" where
  "cmap_put n c [] = [(n, c)]"
| "cmap_put n c ((m, d) # xs) =
     (if n = m then (n, c) # xs else if str_less n m then (n, c) # (m, d) # xs else (m, d) # cmap_put n c xs)"

text \<open>\<open>None\<close> is the null pointer.\<close>

definition AddCntl :: "cntl option \<Rightarrow> cpu \<Rightarrow> cpu result" where
  "AddCntl spcntl p =
     (case spcntl of
        None \<Rightarrow> Inl (Rexception ''Rw11Cpu::AddCntl'' ''Bad args: spcntl == 0'')
      | Some c \<Rightarrow>
          if map_of (cp_fCntlMap p) (cc_fName c) \<noteq> None
          then Inl (Rexception ''Rw11Cpu::AddCntl'' ''Bad state: duplicate controller name'')
          else Inr (p\<lparr>cp_fCntlMap := cmap_put (cc_fName c) c (cp_fCntlMap p)\<rparr>))"

definition TestCntl :: "string \<Rightarrow> cpu \<Rightarrow> bool" where
  "TestCntl name p = (map_of (cp_fCntlMap p) name \<noteq> None)"

definition ListCntl :: "cpu \<Rightarrow> string list" where
  "ListCntl p = map (cc_fName \<circ> snd) (cp_fCntlMap p)"

definition cpu_Cntl :: "string \<Rightarrow> cpu \<Rightarrow> cntl result" where
  "cpu_Cntl name p =
     (case map_of (cp_fCntlMap p) name of
        None \<Rightarrow> Inl (Rexception ''Rw11Cpu::Cntl()'' (''Bad args: controller name '' @ [CHR 0x27] @ name @ [CHR 0x27] @ '' unknown''))
      | Some c \<Rightarrow> Inr c)"

fun next_name :: "string \<Rightarrow> char list \<Rightarrow> cpu \<Rightarrow> string result" where
  "next_name base [] p =
     Inl (Rexception ''Rw11Cpu::NextCntlName''
       (''Bad args: all controller letters used for '' @ [CHR 0x27] @ base @ [CHR 0x27]))"
| "next_name base (c # cs) p = (if \<not> TestCntl (base @ [c]) p then Inr (base @ [c]) else next_name base cs p)"

definition NextCntlName :: "string \<Rightarrow> cpu \<Rightarrow> string result" where
  "NextCntlName base p = next_name base ''abcdefghijklmnopqrstuvwxyz'' p"

section \<open>Building command lists\<close>

definition IbusRemoteAddr :: "u16 \<Rightarrow> cpu \<Rightarrow> u16" where
  "IbusRemoteAddr ibaddr p = cp_fIBase p + (ibaddr AND 0x1fff) div 2"

definition AddMembe :: "u16 \<Rightarrow> bool \<Rightarrow> cpu \<Rightarrow> clist \<Rightarrow> (nat \<times> clist) result" where
  "AddMembe be stick p l =
     cl_AddWreg (cp_fBase p + kCPMEMBE)
       (if stick then (be AND kCPMEMBE_M_BE) OR kCPMEMBE_M_STICK else be AND kCPMEMBE_M_BE) l"

definition ibaddr_bad :: "u16 \<Rightarrow> bool" where
  "ibaddr_bad ibaddr = (ibaddr AND 0xe001 \<noteq> 0xe000)"

definition AddRibr :: "u16 \<Rightarrow> cpu \<Rightarrow> clist \<Rightarrow> (nat \<times> clist) result" where
  "AddRibr ibaddr p l =
     (if ibaddr_bad ibaddr then Inl (Rexception ''Rw11Cpu::AddRibr'' ''ibaddr out of IO page or odd'')
      else cl_AddRreg (IbusRemoteAddr ibaddr p) l)"

definition AddWibr :: "u16 \<Rightarrow> u16 \<Rightarrow> cpu \<Rightarrow> clist \<Rightarrow> (nat \<times> clist) result" where
  "AddWibr ibaddr data p l =
     (if ibaddr_bad ibaddr then Inl (Rexception ''Rw11Cpu::AddWibr'' ''ibaddr out of IO page or odd'')
      else cl_AddWreg (IbusRemoteAddr ibaddr p) data l)"

definition AddRbibr :: "u16 \<Rightarrow> nat \<Rightarrow> cpu \<Rightarrow> clist \<Rightarrow> (nat \<times> clist) result" where
  "AddRbibr ibaddr siz p l =
     (if ibaddr_bad ibaddr then Inl (Rexception ''Rw11Cpu::AddRbibr'' ''ibaddr out of IO page or odd'')
      else cl_AddRblk (IbusRemoteAddr ibaddr p) siz l)"

text \<open>The copy and the move variant.\<close>

definition AddWbibr :: "u16 \<Rightarrow> u16 list \<Rightarrow> cpu \<Rightarrow> clist \<Rightarrow> (nat \<times> clist) result" where
  "AddWbibr ibaddr block p l =
     (if ibaddr_bad ibaddr then Inl (Rexception ''Rw11Cpu::AddWbibr'' ''ibaddr out of IO page or odd'')
      else cl_AddWblk (IbusRemoteAddr ibaddr p) block l)"

definition addr_al :: "u32 \<Rightarrow> u16" where
  "addr_al addr = ucast addr"

definition addr_ah :: "u32 \<Rightarrow> u16 \<Rightarrow> u16" where
  "addr_ah addr mode = (ucast (drop_bit 16 addr) AND kCPAH_M_ADDR) OR (mode AND (kCPAH_M_22BIT OR kCPAH_M_UBMAP))"

definition AddLalh :: "u32 \<Rightarrow> u16 \<Rightarrow> cpu \<Rightarrow> clist \<Rightarrow> (nat \<times> clist) result" where
  "AddLalh addr mode p l =
     ebind (cl_AddWreg (cp_fBase p + kCPAL) (addr_al addr) l) (\<lambda>(ind, l1).
       ebind (cl_AddWreg (cp_fBase p + kCPAH) (addr_ah addr mode) l1) (\<lambda>(i, l2). Inr (ind, l2)))"

text \<open>The addresses are compared as integers, without wrap-around of the sum.\<close>

definition ModLalh :: "nat \<Rightarrow> u32 \<Rightarrow> u16 \<Rightarrow> cpu \<Rightarrow> clist \<Rightarrow> clist result" where
  "ModLalh ind addr mode p l =
     (if ind + 1 > cl_Size l then Inl (Rexception ''Rw11Cpu::ModLalh'' ''Bad args: ind out of range'')
      else ebind (cl_at ind l) (\<lambda>cmdal. ebind (cl_at (ind + 1) l) (\<lambda>cmdah.
        if Command cmdal \<noteq> kCmdWreg \<or> unat (cmd_fAddress cmdal) \<noteq> unat (cp_fBase p) + unat kCPAL \<or>
           Command cmdah \<noteq> kCmdWreg \<or> unat (cmd_fAddress cmdah) \<noteq> unat (cp_fBase p) + unat kCPAH
        then Inl (Rexception ''Rw11Cpu::ModLalh'' ''Bad state: not writing cpal/cpah'')
        else Inr (cl_put (ind + 1) (SetData (addr_ah addr mode) cmdah) (cl_put ind (SetData (addr_al addr) cmdal) l)))))"

text \<open>A block of size zero is refused, so that the loops over blocks end.\<close>

lemma AddRblkExt_pos: "cl_AddRblkExt a b n l = Inr r \<Longrightarrow> 0 < n"
  by (auto simp: cl_AddRblkExt_def CmdRblkExt_def SetBlockExt_def ebind_eq_Inr split: if_splits)

lemma AddWblkExt_pos: "cl_AddWblkExt a b n l = Inr r \<Longrightarrow> 0 < n"
  by (auto simp: cl_AddWblkExt_def CmdWblkExt_def SetBlockExt_def ebind_eq_Inr split: if_splits)

lemma ebind_cong [fundef_cong]:
  "r = r' \<Longrightarrow> (\<And>x. r' = Inr x \<Longrightarrow> f x = g x) \<Longrightarrow> ebind r f = ebind r' g"
  by (cases r') auto

function add_rmem_loop :: "u16 \<Rightarrow> nat \<Rightarrow> u16 list \<Rightarrow> nat \<Rightarrow> clist \<Rightarrow> clist result" where
  "add_rmem_loop addr blkmax buf siz l =
     (if siz = 0 then Inr l
      else
        let bsize = (if siz > blkmax then blkmax else siz)
        in ebind (cl_AddRblkExt addr (Some buf) bsize l) (\<lambda>(i, l1). add_rmem_loop addr blkmax (drop bsize buf) (siz - bsize) l1))"
  by auto
termination
  by (relation "measure (\<lambda>(addr, blkmax, buf, siz, l). siz)") (auto dest!: AddRblkExt_pos split: if_splits)

function add_wmem_loop :: "u16 \<Rightarrow> nat \<Rightarrow> u16 list \<Rightarrow> nat \<Rightarrow> clist \<Rightarrow> clist result" where
  "add_wmem_loop addr blkmax buf siz l =
     (if siz = 0 then Inr l
      else
        let bsize = (if siz > blkmax then blkmax else siz)
        in ebind (cl_AddWblkExt addr (Some buf) bsize l) (\<lambda>(i, l1). add_wmem_loop addr blkmax (drop bsize buf) (siz - bsize) l1))"
  by auto
termination
  by (relation "measure (\<lambda>(addr, blkmax, buf, siz, l). siz)") (auto dest!: AddWblkExt_pos split: if_splits)

definition AddRMem ::
  "'s link \<Rightarrow> u32 \<Rightarrow> u16 list \<Rightarrow> nat \<Rightarrow> u16 \<Rightarrow> bool \<Rightarrow> cpu \<Rightarrow> clist \<Rightarrow> 's \<Rightarrow> (nat \<times> clist) result" where
  "AddRMem k addr buf siz mode singleblk p l s =
     (let blkmax = lk_BlockSizeMax k s
      in if singleblk \<and> siz > blkmax
         then Inl (Rexception ''Rw11Cpu::AddRMem'' ''Bad args: singleblk==true && size > BlockSizeMax()'')
         else ebind (AddLalh addr mode p l) (\<lambda>(ind, l1).
           ebind (add_rmem_loop (cp_fBase p + kCPMEMI) blkmax buf siz l1) (\<lambda>l2. Inr (ind, l2))))"

definition AddWMem ::
  "'s link \<Rightarrow> u32 \<Rightarrow> u16 list \<Rightarrow> nat \<Rightarrow> u16 \<Rightarrow> bool \<Rightarrow> cpu \<Rightarrow> clist \<Rightarrow> 's \<Rightarrow> (nat \<times> clist) result" where
  "AddWMem k addr buf siz mode singleblk p l s =
     (let blkmax = lk_BlockSizeMax k s
      in if singleblk \<and> siz > blkmax
         then Inl (Rexception ''Rw11Cpu::AddWMem'' ''Bad args: singleblk==true && size > BlockSizeMax()'')
         else ebind (AddLalh addr mode p l) (\<lambda>(ind, l1).
           ebind (add_wmem_loop (cp_fBase p + kCPMEMI) blkmax buf siz l1) (\<lambda>l2. Inr (ind, l2))))"

declare add_rmem_loop.simps [simp del] add_wmem_loop.simps [simp del]

section \<open>Access to registers and memory\<close>

definition ExecWibr :: "'s link \<Rightarrow> u16 \<Rightarrow> u16 \<Rightarrow> u16 \<Rightarrow> u16 \<Rightarrow> u16 \<Rightarrow> u16 \<Rightarrow> cpu \<Rightarrow> 's \<Rightarrow> 's result" where
  "ExecWibr k ibaddr0 data0 ibaddr1 data1 ibaddr2 data2 p s =
     ebind (AddWibr ibaddr0 data0 p clist_new) (\<lambda>(i0, l0).
     ebind (if ibaddr1 > 0 then AddWibr ibaddr1 data1 p l0 else Inr (0, l0)) (\<lambda>(i1, l1).
     ebind (if ibaddr2 > 0 then AddWibr ibaddr2 data2 p l1 else Inr (0, l1)) (\<lambda>(i2, l2).
     ebind (srv_Exec k l2 s) (\<lambda>(l', s'). Inr s'))))"

definition ExecRibr :: "'s link \<Rightarrow> u16 \<Rightarrow> cpu \<Rightarrow> 's \<Rightarrow> (u16 \<times> 's) result" where
  "ExecRibr k ibaddr p s =
     ebind (AddRibr ibaddr p clist_new) (\<lambda>(ic, l).
     ebind (srv_Exec k l s) (\<lambda>(l', s'). ebind (cl_at ic l') (\<lambda>c. Inr (cmd_fData c, s'))))"

text \<open>The block of a read command points into the data vector: after the call the vector has the words
  that the command holds.\<close>

function mem_read_loop :: "'s link \<Rightarrow> nat \<Rightarrow> u16 \<Rightarrow> nat \<Rightarrow> nat \<Rightarrow> u16 list \<Rightarrow> cpu \<Rightarrow> 's \<Rightarrow> (bool \<times> u16 list \<times> 's) result" where
  "mem_read_loop k blkmax addr nword ndone data p s =
     (if ndone \<ge> nword then Inr (True, data, s)
      else
        let nblk = min blkmax (nword - ndone)
        in ebind (cl_AddWreg (cp_fBase p + kCPAL) (addr + of_nat (2 * ndone)) clist_new) (\<lambda>(i, l1).
           ebind (cl_AddRblkExt (cp_fBase p + kCPMEMI) (Some (drop ndone data)) nblk l1) (\<lambda>(j, l2).
           ebind (lk_Exec k l2 s) (\<lambda>(rc, l3, s1). ebind (cl_at j l3) (\<lambda>c.
             let data1 = take ndone data @ BlockPointer c
             in if \<not> rc then Inr (False, data1, s1) else mem_read_loop k blkmax addr nword (ndone + nblk) data1 p s1)))))"
  by pat_completeness auto
termination
  by (relation "measure (\<lambda>(k, blkmax, addr, nword, ndone, data, p, s). nword - ndone)") (auto dest!: AddRblkExt_pos)

definition MemRead :: "'s link \<Rightarrow> u16 \<Rightarrow> u16 list \<Rightarrow> nat \<Rightarrow> cpu \<Rightarrow> 's \<Rightarrow> (bool \<times> u16 list \<times> 's) result" where
  "MemRead k addr data nword p s =
     mem_read_loop k (lk_BlockSizePrudent k s) addr nword 0 (take nword data @ replicate (nword - length data) 0) p s"

function mem_write_loop :: "'s link \<Rightarrow> nat \<Rightarrow> u16 \<Rightarrow> nat \<Rightarrow> u16 list \<Rightarrow> cpu \<Rightarrow> 's \<Rightarrow> (bool \<times> 's) result" where
  "mem_write_loop k blkmax addr ndone data p s =
     (if ndone \<ge> length data then Inr (True, s)
      else
        let nblk = min blkmax (length data - ndone)
        in ebind (cl_AddWreg (cp_fBase p + kCPAL) (addr + of_nat (2 * ndone)) clist_new) (\<lambda>(i, l1).
           ebind (cl_AddWblkExt (cp_fBase p + kCPMEMI) (Some (drop ndone data)) nblk l1) (\<lambda>(j, l2).
           ebind (lk_Exec k l2 s) (\<lambda>(rc, l3, s1).
             if \<not> rc then Inr (False, s1) else mem_write_loop k blkmax addr (ndone + nblk) data p s1))))"
  by pat_completeness auto
termination
  by (relation "measure (\<lambda>(k, blkmax, addr, ndone, data, p, s). length data - ndone)") (auto dest!: AddWblkExt_pos)

definition MemWrite :: "'s link \<Rightarrow> u16 \<Rightarrow> u16 list \<Rightarrow> cpu \<Rightarrow> 's \<Rightarrow> (bool \<times> 's) result" where
  "MemWrite k addr data p s = mem_write_loop k (lk_BlockSizePrudent k s) addr 0 data p s"

declare mem_read_loop.simps [simp del] mem_write_loop.simps [simp del]

definition MemWriteByte :: "'s link \<Rightarrow> u32 \<Rightarrow> u8 \<Rightarrow> cpu \<Rightarrow> 's \<Rightarrow> (bool \<times> 's) result" where
  "MemWriteByte k addr data p s =
     (if addr \<ge> cp_fMemSize p then Inr (False, s)
      else
        let be = (if addr AND 1 \<noteq> 0 then kCPMEMBE_M_BE1 else kCPMEMBE_M_BE0);
            wdata = push_bit 8 (ucast data) OR ucast data
        in ebind (AddLalh (addr AND 0x3ffffe) kCPAH_M_22BIT p clist_new) (\<lambda>(i0, l0).
           ebind (AddMembe be False p l0) (\<lambda>(i1, l1).
           ebind (cl_AddWreg (cp_fBase p + kCPMEM) wdata l1) (\<lambda>(i2, l2).
           ebind (lk_Exec k l2 s) (\<lambda>(rc, l3, s1). Inr (rc, s1))))))"

definition rb_statmsk :: u8 where
  "rb_statmsk = kStat_M_RbTout OR kStat_M_RbNak OR kStat_M_RbErr"

text \<open>A probe that sets no expectation on the status.\<close>

definition add_nochk :: "(clist \<Rightarrow> (nat \<times> clist) result) \<Rightarrow> clist \<Rightarrow> (nat \<times> clist) result" where
  "add_nochk add l = ebind (add l) (\<lambda>(i, l1). ebind (SetLastExpectStatus 0 0 l1) (\<lambda>l2. Inr (i, l2)))"

definition ProbeCntl :: "'s link \<Rightarrow> probe \<Rightarrow> cpu \<Rightarrow> 's \<Rightarrow> (bool \<times> probe \<times> 's) result" where
  "ProbeCntl k dsc p s =
     (if \<not> (pb_fProbeInt dsc \<or> pb_fProbeRem dsc) \<or> pb_fAddr dsc = 0
      then Inl (Rexception ''Rw11Cpu::Probe'' ''Bad args: fAddr == 0 or fProbeInt|fProbeRem == false'')
      else if pb_fProbeDone dsc then Inr (pb_Found dsc, dsc, s)
      else
        ebind (if pb_fProbeInt dsc
               then ebind (cl_AddWreg (cp_fBase p + kCPAL) (pb_fAddr dsc) clist_new) (\<lambda>(i, l).
                      add_nochk (cl_AddRreg (cp_fBase p + kCPMEM)) l)
               else Inr (0, clist_new)) (\<lambda>(iib, l1).
        ebind (if pb_fProbeRem dsc then add_nochk (AddRibr (pb_fAddr dsc) p) l1 else Inr (0, l1)) (\<lambda>(irb, l2).
        let dsc1 = dsc\<lparr>pb_fFoundInt := False, pb_fFoundRem := False, pb_fDataInt := 0, pb_fDataRem := 0\<rparr>
        in ebind (srv_Exec k l2 s) (\<lambda>(l3, s1).
           ebind (if pb_fProbeInt dsc
                  then ebind (cl_at iib l3) (\<lambda>c. let ok = (cmd_fStatus c AND rb_statmsk = 0)
                         in Inr (dsc1\<lparr>pb_fFoundInt := ok, pb_fDataInt := (if ok then cmd_fData c else 0)\<rparr>))
                  else Inr dsc1) (\<lambda>dsc2.
           ebind (if pb_fProbeRem dsc
                  then ebind (cl_at irb l3) (\<lambda>c. let ok = (cmd_fStatus c AND rb_statmsk = 0)
                         in Inr (dsc2\<lparr>pb_fFoundRem := ok, pb_fDataRem := (if ok then cmd_fData c else 0)\<rparr>))
                  else Inr dsc2) (\<lambda>dsc3.
           let dsc4 = dsc3\<lparr>pb_fProbeDone := True\<rparr> in Inr (pb_Found dsc4, dsc4, s1)))))))"

text \<open>Every controller is probed; the ones that are found and enabled are started with the virtual function
  \<open>Start\<close>, the argument \<open>cstart\<close>.\<close>

fun start_loop :: "('s link \<Rightarrow> cntl \<Rightarrow> 's \<Rightarrow> (cntl \<times> 's) result) \<Rightarrow> 's link \<Rightarrow> cpu \<Rightarrow> (string \<times> cntl) list \<Rightarrow> 's \<Rightarrow>
    ((string \<times> cntl) list \<times> 's) result" where
  "start_loop cstart k p [] s = Inr ([], s)"
| "start_loop cstart k p ((n, c) # cs) s =
     ebind (ProbeCntl k (cc_fProbe c) p s) (\<lambda>(found, dsc, s1).
       let c1 = c\<lparr>cc_fProbe := dsc\<rparr>
       in ebind (if pb_Found dsc \<and> cc_fEnable c1 then cstart k c1 s1 else Inr (c1, s1)) (\<lambda>(c2, s2).
          ebind (start_loop cstart k p cs s2) (\<lambda>(cs', s3). Inr ((n, c2) # cs', s3))))"

definition cpu_Start :: "('s link \<Rightarrow> cntl \<Rightarrow> 's \<Rightarrow> (cntl \<times> 's) result) \<Rightarrow> 's link \<Rightarrow> cpu \<Rightarrow> 's \<Rightarrow> (cpu \<times> 's) result" where
  "cpu_Start cstart k p s =
     ebind (start_loop cstart k p (cp_fCntlMap p) s) (\<lambda>(cs, s'). Inr (p\<lparr>cp_fCntlMap := cs\<rparr>, s'))"

section \<open>Cpu activity\<close>

definition SetCpuActUp :: "cpu \<Rightarrow> cpu" where
  "SetCpuActUp p = p\<lparr>cp_fCpuAct := True, cp_fCpuStat := 0\<rparr>"

definition SetCpuActDown :: "u16 \<Rightarrow> cpu \<Rightarrow> cpu" where
  "SetCpuActDown stat p =
     (if stat AND kCPSTAT_M_CpuGo = 0 \<or> stat AND kCPSTAT_M_CpuSusp \<noteq> 0
      then p\<lparr>cp_fCpuAct := False, cp_fCpuStat := stat\<rparr> else p)"

definition W11AttnHandler :: "'s link \<Rightarrow> cpu \<Rightarrow> 's \<Rightarrow> (cpu \<times> 's) result" where
  "W11AttnHandler k p s =
     ebind (cl_AddRreg (cp_fBase p + kCPSTAT) clist_new) (\<lambda>(i, l).
     ebind (srv_Exec k l s) (\<lambda>(l', s'). ebind (cl_at 0 l') (\<lambda>c. Inr (SetCpuActDown (cmd_fData c) p, s'))))"

section \<open>Boot\<close>

fun boot_name :: "string \<Rightarrow> string \<times> nat" where
  "boot_name [] = ([], 0)"
| "boot_name (c # cs) =
     (if digit_val c \<noteq> None then ([], fst (take_digits 0 (c # cs)))
      else let (cname, uind) = boot_name cs in (c # cname, uind))"

text \<open>\<open>nunit\<close> and \<open>bootcode\<close> are the virtual functions of the controller with the given name.\<close>

definition Boot ::
  "'s link \<Rightarrow> (string \<Rightarrow> nat) \<Rightarrow> (string \<Rightarrow> nat \<Rightarrow> bool \<times> u16 list \<times> u16 \<times> u16) \<Rightarrow> string \<Rightarrow> cpu \<Rightarrow> 's \<Rightarrow>
   (bool \<times> cpu \<times> 's) result" where
  "Boot k nunit bootcode uname p s =
     (let (cname, uind) = boot_name uname
      in if \<not> TestCntl cname p then Inr (False, p, s)
         else if uind \<ge> nunit cname then Inr (False, p, s)
         else
           let (ok, code, aload, astart) = bootcode cname uind
           in if \<not> ok \<or> code = [] then Inr (False, p, s)
              else
                ebind (cl_AddWreg (cp_fBase p + kCPCNTL) kCPFUNC_STOP clist_new) (\<lambda>(i1, l1).
                ebind (cl_AddWreg (cp_fBase p + kCPCNTL) kCPFUNC_CRESET l1) (\<lambda>(i2, l2).
                ebind (lk_Exec k l2 s) (\<lambda>(rc1, l3, s1).
                if \<not> rc1 then Inr (False, p, s1)
                else ebind (MemWrite k aload code p s1) (\<lambda>(rc2, s2).
                  if \<not> rc2 then Inr (False, p, s2)
                  else
                    ebind (cl_AddWreg (cp_fBase p + kCPPC) astart (cl_Clear l3)) (\<lambda>(i4, l4).
                    ebind (cl_AddWreg (cp_fBase p + kCPCNTL) kCPFUNC_START l4) (\<lambda>(i5, l5).
                    let p1 = SetCpuActUp p
                    in ebind (lk_Exec k l5 s2) (\<lambda>(rc3, l6, s3). Inr (rc3, p1, s3)))))))))"

section \<open>Absolute loader\<close>

text \<open>The file is read byte by byte; \<open>fopen\<close> says whether it could be opened, \<open>bytes\<close> is its contents and
  \<open>rderr\<close> whether the read after the last byte fails instead of finding the end. The record has the
  local variables of the loop.\<close>

datatype lda_state = s_chr0 | s_chr1 | s_cntlow | s_cnthgh | s_adrlow | s_adrhgh | s_data | s_chksum

record lda =
  ld_state :: lda_state
  ld_data :: "u16 list"
  ld_chrnum :: int
  ld_blknum :: int
  ld_bytcnt :: int
  ld_ldaddr :: u16
  ld_chksum :: u8
  ld_addr :: u16
  ld_word :: u16
  ld_firstodd :: bool
  ld_start :: u16

definition lda_init :: lda where
  "lda_init = \<lparr>ld_state = s_chr0, ld_data = [], ld_chrnum = - 1, ld_blknum = 0, ld_bytcnt = 0, ld_ldaddr = 0,
     ld_chksum = 0, ld_addr = 0, ld_word = 0, ld_firstodd = False, ld_start = - 1\<rparr>"

definition odd16 :: "u16 \<Rightarrow> bool" where
  "odd16 a = (a AND 1 = 1)"

text \<open>The data byte case: an even byte is kept, an odd byte completes a word; a first byte at an odd address
  is written at once.\<close>

definition lda_data :: "'s link \<Rightarrow> cpu \<Rightarrow> u8 \<Rightarrow> lda \<Rightarrow> 's \<Rightarrow> (bool \<times> lda \<times> 's) result" where
  "lda_data k p byte d s =
     ebind (if \<not> odd16 (ld_addr d) then Inr (True, d\<lparr>ld_word := ucast byte\<rparr>, s)
            else if ld_firstodd d then
              ebind (MemWriteByte k (ucast (ld_addr d)) byte p s) (\<lambda>(ok, s1).
                Inr (ok, d\<lparr>ld_ldaddr := ld_ldaddr d + 1, ld_firstodd := False\<rparr>, s1))
            else
              let w = ld_word d OR push_bit 8 (ucast byte) in Inr (True, d\<lparr>ld_word := w, ld_data := ld_data d @ [w]\<rparr>, s))
       (\<lambda>(go, d1, s1).
         let d2 = d1\<lparr>ld_addr := ld_addr d1 + 1\<rparr>
         in Inr (go, if ld_chrnum d2 = ld_bytcnt d2 - 1 then d2\<lparr>ld_state := s_chksum\<rparr> else d2, s1))"

text \<open>The results are whether the loop goes on, the return value when it does not, and the state.\<close>

definition lda_chksum :: "'s link \<Rightarrow> cpu \<Rightarrow> lda \<Rightarrow> 's \<Rightarrow> (bool \<times> bool \<times> lda \<times> 's) result" where
  "lda_chksum k p d s =
     ebind (if ld_chksum d \<noteq> 0 then Inr (False, False, d, s)
            else if ld_bytcnt d = 6 then Inr (False, True, d\<lparr>ld_start := ld_ldaddr d\<rparr>, s)
            else
              ebind (MemWrite k (ld_ldaddr d) (ld_data d) p s) (\<lambda>(ok1, s1).
              ebind (if odd16 (ld_addr d) then MemWriteByte k (ucast (ld_addr d - 1)) (ucast (ld_word d)) p s1 else Inr (True, s1))
                (\<lambda>(ok2, s2). Inr (ok1 \<and> ok2, False, d\<lparr>ld_data := []\<rparr>, s2))))
       (\<lambda>(go, ok, d1, s1).
         Inr (go, ok, d1\<lparr>ld_chrnum := - 1, ld_blknum := ld_blknum d1 + 1, ld_state := s_chr0\<rparr>, s1))"

definition lda_step :: "'s link \<Rightarrow> cpu \<Rightarrow> u8 \<Rightarrow> lda \<Rightarrow> 's \<Rightarrow> (bool \<times> bool \<times> lda \<times> 's) result" where
  "lda_step k p byte d0 s =
     (let d = d0\<lparr>ld_chrnum := ld_chrnum d0 + 1, ld_chksum := ld_chksum d0 + byte\<rparr>
      in case ld_state d of
           s_chr0 \<Rightarrow>
             if byte = 0 then Inr (True, False, d\<lparr>ld_chrnum := - 1, ld_state := s_chr0\<rparr>, s)
             else if byte = 1 then Inr (True, False, d\<lparr>ld_state := s_chr1\<rparr>, s)
             else Inr (False, False, d, s)
         | s_chr1 \<Rightarrow> if byte = 0 then Inr (True, False, d\<lparr>ld_state := s_cntlow\<rparr>, s) else Inr (False, False, d, s)
         | s_cntlow \<Rightarrow> Inr (True, False, d\<lparr>ld_bytcnt := uint byte, ld_state := s_cnthgh\<rparr>, s)
         | s_cnthgh \<Rightarrow> Inr (True, False, d\<lparr>ld_bytcnt := ld_bytcnt d OR push_bit 8 (uint byte), ld_state := s_adrlow\<rparr>, s)
         | s_adrlow \<Rightarrow> Inr (True, False, d\<lparr>ld_ldaddr := ucast byte, ld_state := s_adrhgh\<rparr>, s)
         | s_adrhgh \<Rightarrow>
             let a = ld_ldaddr d OR push_bit 8 (ucast byte)
             in Inr (True, False, d\<lparr>ld_ldaddr := a, ld_addr := a, ld_word := 0, ld_firstodd := odd16 a,
                  ld_state := (if ld_bytcnt d = 6 then s_chksum else s_data)\<rparr>, s)
         | s_data \<Rightarrow> ebind (lda_data k p byte d s) (\<lambda>(go, d1, s1). Inr (go, False, d1, s1))
         | s_chksum \<Rightarrow> lda_chksum k p d s)"

fun lda_loop :: "'s link \<Rightarrow> cpu \<Rightarrow> u8 list \<Rightarrow> bool \<Rightarrow> lda \<Rightarrow> 's \<Rightarrow> (bool \<times> lda \<times> 's) result" where
  "lda_loop k p [] rderr d s = Inr (\<not> rderr \<and> ld_state d = s_chr0, d, s)"
| "lda_loop k p (b # bs) rderr d s =
     ebind (lda_step k p b d s) (\<lambda>(go, ok, d1, s1). if go then lda_loop k p bs rderr d1 s1 else Inr (ok, d1, s1))"

definition LoadAbs :: "'s link \<Rightarrow> bool \<Rightarrow> u8 list \<Rightarrow> bool \<Rightarrow> cpu \<Rightarrow> 's \<Rightarrow> (bool \<times> u16 \<times> 's) result" where
  "LoadAbs k fopen bytes rderr p s =
     (if \<not> fopen then Inr (False, - 1, s)
      else ebind (lda_loop k p bytes rderr lda_init s) (\<lambda>(ok, d, s'). Inr (ok, ld_start d, s')))"

section \<open>Address maps and optional components\<close>

definition index_char :: "nat \<Rightarrow> char" where
  "index_char n = char_of (48 + n)"

definition AllRAddrMapInsert :: "'s link \<Rightarrow> string \<Rightarrow> u16 \<Rightarrow> cpu \<times> 's \<Rightarrow> cpu \<times> 's" where
  "AllRAddrMapInsert k name rbaddr ps =
     (case ps of (p, s) \<Rightarrow>
        (p\<lparr>cp_fRAddrMap := snd (am_Insert name rbaddr (cp_fRAddrMap p))\<rparr>,
         lk_AddrMapInsert k (''c'' @ [index_char (cp_fIndex p)] @ ''.'' @ name) rbaddr s))"

definition AllIAddrMapInsert :: "'s link \<Rightarrow> string \<Rightarrow> u16 \<Rightarrow> cpu \<times> 's \<Rightarrow> cpu \<times> 's" where
  "AllIAddrMapInsert k name ibaddr ps =
     (case ps of (p, s) \<Rightarrow>
        let rbaddr = IbusRemoteAddr ibaddr p;
            p1 = p\<lparr>cp_fIAddrMap := snd (am_Insert name ibaddr (cp_fIAddrMap p))\<rparr>;
            p2 = p1\<lparr>cp_fRAddrMap := snd (am_Insert name rbaddr (cp_fRAddrMap p1))\<rparr>
        in (p2, lk_AddrMapInsert k (''i'' @ [index_char (cp_fIndex p)] @ ''.'' @ name) rbaddr s))"

definition std_rmap :: "(string \<times> u16) list" where
  "std_rmap =
     [(''conf'', kCPCONF), (''cntl'', kCPCNTL), (''stat'', kCPSTAT), (''psw'', kCPPSW), (''al'', kCPAL), (''ah'', kCPAH),
      (''mem'', kCPMEM), (''memi'', kCPMEMI), (''r0'', kCPR0), (''r1'', kCPR0 + 1), (''r2'', kCPR0 + 2), (''r3'', kCPR0 + 3),
      (''r4'', kCPR0 + 4), (''r5'', kCPR0 + 5), (''sp'', kCPR0 + 6), (''pc'', kCPR0 + 7), (''membe'', kCPMEMBE)]"

definition std_imap :: "(string \<times> u16) list" where
  "std_imap =
     [(''psw'', kCPUPSW), (''stklim'', kCPUSTKLIM), (''pirq'', kCPUPIRQ), (''mbrk'', kCPUMBRK), (''cpuerr'', kCPUERR),
      (''sysid'', kCPUSYSID), (''sdreg'', kCPUSDREG), (''hisize'', kMEMHISIZE), (''losize'', kMEMLOSIZE), (''hm'', kMEMHM),
      (''maint'', kMEMMAINT), (''cntrl'', kMEMCNTRL), (''syserr'', kMEMSYSERR), (''hiaddr'', kMEMHIADDR),
      (''loaddr'', kMEMLOADDR), (''mmr3'', kMMUMMR3), (''mmr2'', kMMUMMR2), (''mmr1'', kMMUMMR1), (''mmr0'', kMMUMMR0)]"

definition mmu_imap :: "nat \<Rightarrow> (string \<times> u16) list" where
  "mmu_imap i =
     [(''pdrki.'' @ [index_char i], kMMUPDRK + 0 + 2 * of_nat i), (''pdrkd.'' @ [index_char i], kMMUPDRK + 0x10 + 2 * of_nat i),
      (''parki.'' @ [index_char i], kMMUPARK + 0 + 2 * of_nat i), (''parkd.'' @ [index_char i], kMMUPARK + 0x10 + 2 * of_nat i),
      (''pdrsi.'' @ [index_char i], kMMUPDRS + 0 + 2 * of_nat i), (''pdrsd.'' @ [index_char i], kMMUPDRS + 0x10 + 2 * of_nat i),
      (''parsi.'' @ [index_char i], kMMUPARS + 0 + 2 * of_nat i), (''parsd.'' @ [index_char i], kMMUPARS + 0x10 + 2 * of_nat i),
      (''pdrui.'' @ [index_char i], kMMUPDRU + 0 + 2 * of_nat i), (''pdrud.'' @ [index_char i], kMMUPDRU + 0x10 + 2 * of_nat i),
      (''parui.'' @ [index_char i], kMMUPARU + 0 + 2 * of_nat i), (''parud.'' @ [index_char i], kMMUPARU + 0x10 + 2 * of_nat i)]"

definition ins_rmap :: "'s link \<Rightarrow> u16 \<Rightarrow> (string \<times> u16) list \<Rightarrow> cpu \<times> 's \<Rightarrow> cpu \<times> 's" where
  "ins_rmap k base xs ps = fold (\<lambda>(n, a) ps. AllRAddrMapInsert k n (base + a) ps) xs ps"

definition ins_imap :: "'s link \<Rightarrow> u16 \<Rightarrow> (string \<times> u16) list \<Rightarrow> cpu \<times> 's \<Rightarrow> cpu \<times> 's" where
  "ins_imap k base xs ps = fold (\<lambda>(n, a) ps. AllIAddrMapInsert k n (base + a) ps) xs ps"

definition SetupStd :: "'s link \<Rightarrow> cpu \<times> 's \<Rightarrow> cpu \<times> 's" where
  "SetupStd k ps =
     fold (\<lambda>i ps. ins_imap k 0 (mmu_imap i) ps) [0..<8]
       (ins_imap k 0 std_imap (ins_rmap k (cp_fBase (fst ps)) std_rmap ps))"

text \<open>The probe list of \<open>SetupOpt\<close> and the positions of its commands.\<close>

record opt_probes =
  op_ims :: nat
  op_isc :: nat
  op_icm :: nat
  op_ihb :: "nat list"
  op_iim :: nat
  op_iit :: nat
  op_ipc :: nat
  op_im9 :: nat
  op_ikwl :: nat
  op_ikwp :: nat
  op_iii :: nat

fun hb_probes :: "nat list \<Rightarrow> u16 \<Rightarrow> clist \<Rightarrow> (nat list \<times> clist) result" where
  "hb_probes [] base l = Inr ([], l)"
| "hb_probes (i # is) base l =
     ebind (add_nochk (cl_AddRreg (base + kHBBASE + of_nat i * kHBSIZE + kHBCNTL)) l) (\<lambda>(ind, l1).
     ebind (hb_probes is base l1) (\<lambda>(inds, l2). Inr (ind # inds, l2)))"

definition opt_clist :: "cpu \<Rightarrow> (opt_probes \<times> clist) result" where
  "opt_clist p =
     (let base = cp_fBase p
      in ebind (AddRibr kMEMLOSIZE p clist_new) (\<lambda>(ims, l0).
         ebind (add_nochk (cl_AddRreg (base + kSCBASE + kSCCNTL)) l0) (\<lambda>(isc, l1).
         ebind (add_nochk (cl_AddRreg (base + kCMBASE + kCMCNTL)) l1) (\<lambda>(icm, l2).
         ebind (hb_probes [0..<unat kHBNMAX] base l2) (\<lambda>(ihb, l3).
         ebind (add_nochk (AddRibr (kIMBASE + kIMCNTL) p) l3) (\<lambda>(iim, l4).
         ebind (add_nochk (AddRibr (kITBASE + kITCNTL) p) l4) (\<lambda>(iit, l5).
         ebind (add_nochk (cl_AddRreg (base + kPCBASE + kPCCNTL)) l5) (\<lambda>(ipc, l6).
         ebind (add_nochk (AddRibr kM9BASE p) l6) (\<lambda>(im9, l7).
         ebind (add_nochk (AddRibr kKWLBASE p) l7) (\<lambda>(ikwl, l8).
         ebind (add_nochk (AddRibr (kKWPBASE + kKWPCSR) p) l8) (\<lambda>(ikwp, l9).
         ebind (add_nochk (AddRibr (kIISTBASE + kIISTACR) p) l9) (\<lambda>(iii, l10).
           Inr (\<lparr>op_ims = ims, op_isc = isc, op_icm = icm, op_ihb = ihb, op_iim = iim, op_iit = iit, op_ipc = ipc,
                 op_im9 = im9, op_ikwl = ikwl, op_ikwp = ikwp, op_iii = iii\<rparr>, l10)))))))))))))"

text \<open>A component is present when its register answered without an error.\<close>

definition has_dev :: "nat \<Rightarrow> clist \<Rightarrow> bool result" where
  "has_dev i l = ebind (cl_at i l) (\<lambda>c. Inr (cmd_fStatus c AND rb_statmsk = 0))"

fun hb_loop :: "'s link \<Rightarrow> nat \<Rightarrow> nat list \<Rightarrow> clist \<Rightarrow> cpu \<times> 's \<Rightarrow> (cpu \<times> 's) result" where
  "hb_loop k i [] l ps = Inr ps"
| "hb_loop k i (ind # inds) l ps =
     ebind (has_dev ind l) (\<lambda>ok.
       if \<not> ok then Inr ps
       else
         let ps1 = ((fst ps)\<lparr>cp_fHasHbpt := cp_fHasHbpt (fst ps) + 1\<rparr>, snd ps);
             base = cp_fBase (fst ps1) + kHBBASE + of_nat i * kHBSIZE;
             pref = ''hb'' @ [index_char i]
         in hb_loop k (i + 1) inds l
              (ins_rmap k base [(pref @ ''.cntl'', kHBCNTL), (pref @ ''.stat'', kHBSTAT), (pref @ ''.hilim'', kHBHILIM),
                 (pref @ ''.lolim'', kHBLOLIM)] ps1))"

definition opt_r :: "'s link \<Rightarrow> (bool \<Rightarrow> cpu \<Rightarrow> cpu) \<Rightarrow> nat \<Rightarrow> u16 \<Rightarrow> (string \<times> u16) list \<Rightarrow> clist \<Rightarrow> cpu \<times> 's \<Rightarrow> (cpu \<times> 's) result" where
  "opt_r k setf i off xs l ps =
     ebind (has_dev i l) (\<lambda>ok.
       let ps1 = (setf ok (fst ps), snd ps)
       in Inr (if ok then ins_rmap k (cp_fBase (fst ps1) + off) xs ps1 else ps1))"

definition opt_i :: "'s link \<Rightarrow> (bool \<Rightarrow> cpu \<Rightarrow> cpu) \<Rightarrow> nat \<Rightarrow> u16 \<Rightarrow> (string \<times> u16) list \<Rightarrow> clist \<Rightarrow> cpu \<times> 's \<Rightarrow> (cpu \<times> 's) result" where
  "opt_i k setf i base xs l ps =
     ebind (has_dev i l) (\<lambda>ok.
       let ps1 = (setf ok (fst ps), snd ps) in Inr (if ok then ins_imap k base xs ps1 else ps1))"

definition SetupOpt :: "'s link \<Rightarrow> cpu \<times> 's \<Rightarrow> (cpu \<times> 's) result" where
  "SetupOpt k ps0 =
     ebind (opt_clist (fst ps0)) (\<lambda>(op, l0). ebind (conn_Exec k l0 (snd ps0)) (\<lambda>(l, s1).
     ebind (cl_at (op_ims op) l) (\<lambda>cms.
     let ps = ((fst ps0)\<lparr>cp_fMemSize := push_bit 6 (ucast (cmd_fData cms) + 1)\<rparr>, s1)
     in ebind (opt_r k (\<lambda>b p. p\<lparr>cp_fHasScnt := b\<rparr>) (op_isc op) kSCBASE
                 [(''sc.cntl'', kSCCNTL), (''sc.addr'', kSCADDR), (''sc.data'', kSCDATA)] l ps) (\<lambda>ps1.
        ebind (opt_r k (\<lambda>b p. p\<lparr>cp_fHasCmon := b\<rparr>) (op_icm op) kCMBASE
                 [(''cm.cntl'', kCMCNTL), (''cm.stat'', kCMSTAT), (''cm.addr'', kCMADDR), (''cm.data'', kCMDATA),
                  (''cm.iaddr'', kCMIADDR), (''cm.ipc'', kCMIPC), (''cm.ireg'', kCMIREG), (''cm.imal'', kCMIMAL)] l ps1) (\<lambda>ps2.
        ebind (hb_loop k 0 (op_ihb op) l ((fst ps2)\<lparr>cp_fHasHbpt := 0\<rparr>, snd ps2)) (\<lambda>ps3.
        ebind (opt_r k (\<lambda>b p. p\<lparr>cp_fHasPcnt := b\<rparr>) (op_ipc op) kPCBASE
                 [(''pc.cntl'', kPCCNTL), (''pc.stat'', kPCSTAT), (''pc.data'', kPCDATA)] l ps3) (\<lambda>ps4.
        ebind (opt_i k (\<lambda>b p. p\<lparr>cp_fHasIbmon := b\<rparr>) (op_iim op) kIMBASE
                 [(''im.cntl'', kIMCNTL), (''im.stat'', kIMSTAT), (''im.hilim'', kIMHILIM), (''im.lolim'', kIMLOLIM),
                  (''im.addr'', kIMADDR), (''im.data'', kIMDATA)] l ps4) (\<lambda>ps5.
        ebind (opt_i k (\<lambda>b p. p\<lparr>cp_fHasIbtst := b\<rparr>) (op_iit op) kITBASE
                 [(''it.cntl'', kITCNTL), (''it.stat'', kITSTAT), (''it.data'', kITDATA), (''it.fifo'', kITFIFO)] l ps5) (\<lambda>ps6.
        ebind (opt_i k (\<lambda>b p. p\<lparr>cp_fHasKw11l := b\<rparr>) (op_ikwl op) kKWLBASE [(''kwl.csr'', 0)] l ps6) (\<lambda>ps7.
        ebind (opt_i k (\<lambda>b p. p\<lparr>cp_fHasM9312 := b\<rparr>) (op_im9 op) kM9BASE [(''m9.csr'', 0)] l ps7) (\<lambda>ps8.
        ebind (opt_i k (\<lambda>b p. p\<lparr>cp_fHasKw11p := b\<rparr>) (op_ikwp op) kKWPBASE
                 [(''kwp.csr'', kKWPCSR), (''kwp.csb'', kKWPCSB), (''kwp.ctr'', kKWPCTR)] l ps8) (\<lambda>ps9.
        opt_i k (\<lambda>b p. p\<lparr>cp_fHasIist := b\<rparr>) (op_iii op) kIISTBASE
                 [(''iist.acr'', kIISTACR), (''iist.adr'', kIISTADR)] l ps9))))))))))))"

definition cpu_Setup :: "'s link \<Rightarrow> cpu \<times> 's \<Rightarrow> (cpu \<times> 's) result" where
  "cpu_Setup k ps = SetupOpt k (SetupStd k ps)"

end
