(* ===== verification/RfileFd.thy ===== *)
theory RfileFd
  imports RlinkPacketBuf
begin

text \<open>
  Classes \<open>Rfd\<close> and \<open>RfileFd\<close> of \<open>librtools\<close> on a regular file. The file is its bytes and the file
  offset; the system calls behave as POSIX specifies for regular files, except that a script can make
  each call fail or transfer only a part of the data. A script that is used up goes on with success.
  Error message texts are left out.
\<close>

section \<open>A regular file\<close>

datatype sysres = SysOk | SysErr | SysShort nat

record osfile =
  fl_fFd :: int
  fl_writable :: bool
  fl_data :: "u8 list"
  fl_off :: nat
  fl_script :: "sysres list"

definition next_sys :: "osfile \<Rightarrow> sysres \<times> osfile" where
  "next_sys f = (case fl_script f of [] \<Rightarrow> (SysOk, f) | r # rs \<Rightarrow> (r, f\<lparr>fl_script := rs\<rparr>))"

text \<open>The bytes of a file after a write at an offset; a gap reads as zero.\<close>

definition put_at :: "nat \<Rightarrow> u8 list \<Rightarrow> u8 list \<Rightarrow> u8 list" where
  "put_at off ds xs = (if ds = [] then xs
     else take off (xs @ replicate (off - length xs) 0) @ ds @ drop (off + length ds) xs)"

definition resize :: "nat \<Rightarrow> u8 list \<Rightarrow> u8 list" where
  "resize n xs = take n xs @ replicate (n - length xs) 0"

section \<open>Descriptors\<close>

definition fd_IsOpen :: "osfile \<Rightarrow> bool" where
  "fd_IsOpen f = (fl_fFd f \<ge> 0)"

definition fd_IsOpenNonStd :: "osfile \<Rightarrow> bool" where
  "fd_IsOpenNonStd f = (fl_fFd f > 2)"

definition SetFd :: "int \<Rightarrow> osfile \<Rightarrow> (bool \<times> osfile) result" where
  "SetFd fd f =
     (if fd_IsOpen f then Inl (Rexception ''Open()'' ''bad state: already open'')
      else let f1 = f\<lparr>fl_fFd := fd\<rparr> in Inr (fd_IsOpen f1, f1))"

definition fd_Close :: "osfile \<Rightarrow> osfile" where
  "fd_Close f = (if fd_IsOpenNonStd f then f\<lparr>fl_fFd := - 1\<rparr> else f)"

definition fd_CloseMsg :: "osfile \<Rightarrow> bool \<times> osfile" where
  "fd_CloseMsg f =
     (if \<not> fd_IsOpen f then (False, f)
      else if \<not> fd_IsOpenNonStd f then (True, f\<lparr>fl_fFd := - 1\<rparr>)
      else let (r, f1) = next_sys f in (r \<noteq> SysErr, f1\<lparr>fl_fFd := - 1\<rparr>))"

text \<open>\<open>opened\<close> is what the \<open>open\<close> system call returns for the name and the flags: a descriptor, or a
  negative value. The file offset of a new descriptor is zero.\<close>

definition fd_Open :: "int \<Rightarrow> osfile \<Rightarrow> (bool \<times> osfile) result" where
  "fd_Open opened f =
     ebind (SetFd opened (fd_Close f)) (\<lambda>(ok, f1). Inr (fd_IsOpen f1, f1\<lparr>fl_off := 0\<rparr>))"

section \<open>Operations\<close>

definition fd_Stat :: "osfile \<Rightarrow> nat option \<times> osfile" where
  "fd_Stat f = (let (r, f1) = next_sys f in (if r = SysErr then None else Some (length (fl_data f1)), f1))"

datatype whence = SEEK_SET | SEEK_CUR

definition fd_Seek :: "int \<Rightarrow> whence \<Rightarrow> osfile \<Rightarrow> bool \<times> osfile" where
  "fd_Seek offset wh f =
     (let (r, f1) = next_sys f;
          newpos = (case wh of SEEK_SET \<Rightarrow> offset | SEEK_CUR \<Rightarrow> int (fl_off f1) + offset)
      in if r = SysErr \<or> newpos < 0 then (False, f1) else (True, f1\<lparr>fl_off := nat newpos\<rparr>))"

definition fd_Truncate :: "nat \<Rightarrow> osfile \<Rightarrow> bool \<times> osfile" where
  "fd_Truncate len f =
     (let (r, f1) = next_sys f
      in if r = SysErr \<or> \<not> fl_writable f1 then (False, f1) else (True, f1\<lparr>fl_data := resize len (fl_data f1)\<rparr>))"

text \<open>\<open>None\<close> is a failed read, otherwise the bytes that were read.\<close>

definition fd_Read :: "nat \<Rightarrow> osfile \<Rightarrow> u8 list option \<times> osfile" where
  "fd_Read count f =
     (let (r, f1) = next_sys f;
          n = (case r of SysShort k \<Rightarrow> min k count | _ \<Rightarrow> count);
          ds = take n (drop (fl_off f1) (fl_data f1))
      in if r = SysErr then (None, f1) else (Some ds, f1\<lparr>fl_off := fl_off f1 + length ds\<rparr>))"

definition WriteAll :: "u8 list \<Rightarrow> osfile \<Rightarrow> bool \<times> osfile" where
  "WriteAll buf f =
     (let (r, f1) = next_sys f;
          ds = (case r of SysShort k \<Rightarrow> take k buf | _ \<Rightarrow> buf)
      in if r = SysErr \<or> \<not> fl_writable f1 then (False, f1)
         else (length ds = length buf,
               f1\<lparr>fl_data := put_at (fl_off f1) ds (fl_data f1), fl_off := fl_off f1 + length ds\<rparr>))"

section \<open>Lemmas\<close>

lemma next_sys_ok [simp]: "fl_script f = [] \<Longrightarrow> next_sys f = (SysOk, f)"
  by (simp add: next_sys_def)

lemma put_at_end [simp]: "put_at (length xs) ds xs = xs @ ds"
  by (simp add: put_at_def)

lemma put_at_app: "put_at (length xs) ds (xs @ ys) = xs @ ds @ drop (length ds) ys"
  by (simp add: put_at_def)

lemma length_put_at: "length (put_at off ds xs) = (if ds = [] then length xs else max (length xs) (off + length ds))"
  by (auto simp: put_at_def min_def max_def)

lemma resize_app [simp]: "resize (length xs) (xs @ ys) = xs"
  by (simp add: resize_def)

text \<open>The calls on a file whose system calls do not fail.\<close>

lemma fd_ok:
  assumes "fl_script f = []"
  shows "fd_Seek (int n) SEEK_SET f = (True, f\<lparr>fl_off := n\<rparr>)"
    "fd_Seek (int n) SEEK_CUR f = (True, f\<lparr>fl_off := fl_off f + n\<rparr>)"
    "n \<le> fl_off f \<Longrightarrow> fd_Seek (- int n) SEEK_CUR f = (True, f\<lparr>fl_off := fl_off f - n\<rparr>)"
    "fd_Read n f = (Some (take n (drop (fl_off f) (fl_data f))), f\<lparr>fl_off := fl_off f + min n (length (fl_data f) - fl_off f)\<rparr>)"
    "fl_writable f \<Longrightarrow> fd_Truncate n f = (True, f\<lparr>fl_data := resize n (fl_data f)\<rparr>)"
    "fl_writable f \<Longrightarrow> WriteAll ds f =
       (True, f\<lparr>fl_data := put_at (fl_off f) ds (fl_data f), fl_off := fl_off f + length ds\<rparr>)"
  using assms by (simp_all add: fd_Seek_def fd_Read_def fd_Truncate_def WriteAll_def Let_def nat_add_distrib)

end
