(* ===== verification/Rw11VirtDisk.thy ===== *)
theory Rw11VirtDisk
  imports RfileFd Rtools
begin

text \<open>
  Classes \<open>Rw11VirtDisk\<close>, \<open>Rw11VirtDiskFile\<close>, \<open>Rw11VirtDiskBuffer\<close>, \<open>Rw11VirtDiskOver\<close> and
  \<open>Rw11VirtDiskRam\<close> of \<open>librw11\<close>: disks in a file, in a file with an overlay in memory, and in
  memory. The derived classes are record extensions, so that the operations of a base class apply to
  them. A read returns the bytes that it puts into the buffer of the caller. The block maps, which
  are \<open>std::map\<close> with 32 bit keys, are lists in ascending order of the keys. Message texts and the
  list and dump output are left out.
\<close>

section \<open>State\<close>

datatype disk_stat = kStatNVDRead | kStatNVDReadBlk | kStatNVDWrite | kStatNVDWriteBlk
  | kStatNVDORead | kStatNVDOReadBlkFF | kStatNVDOReadBlkFP | kStatNVDOReadBlkO | kStatNVDOWrite | kStatNVDOWriteBlk
  | kStatNVDOFlush | kStatNVDReadRam | kStatNVDWriteOver

record vdisk =
  vd_fUrl :: purl
  vd_fWProt :: bool
  vd_fStats :: "disk_stat \<Rightarrow> nat"
  vd_fBlkSize :: nat
  vd_fNBlock :: nat
  vd_fNCyl :: nat
  vd_fNHead :: nat
  vd_fNSect :: nat

record diskfile = vdisk +
  df_fFd :: osfile
  df_fSize :: nat

record dbuf =
  db_fBuf :: "u8 list"
  db_fNWrite :: u32

type_synonym bmap = "(u32 \<times> dbuf) list"

record diskover = diskfile +
  do_fBlkMap :: bmap

datatype pattyp = kPatZero | kPatOnes | kPatDead | kPatTest

record diskram = vdisk +
  dr_fNoBoot :: bool
  dr_fPatTyp :: pattyp
  dr_fBlkMap :: bmap

definition vd_inc :: "disk_stat \<Rightarrow> nat \<Rightarrow> 'a vdisk_scheme \<Rightarrow> 'a vdisk_scheme" where
  "vd_inc k n d = d\<lparr>vd_fStats := stat_inc k n (vd_fStats d)\<rparr>"

definition diskfile_new :: "osfile \<Rightarrow> diskfile" where
  "diskfile_new f =
     \<lparr>vd_fUrl = purl_new, vd_fWProt = False, vd_fStats = (\<lambda>_. 0), vd_fBlkSize = 0, vd_fNBlock = 0, vd_fNCyl = 0,
      vd_fNHead = 0, vd_fNSect = 0, df_fFd = f\<lparr>fl_fFd := - 1\<rparr>, df_fSize = 0\<rparr>"

definition diskover_new :: "osfile \<Rightarrow> diskover" where
  "diskover_new f =
     \<lparr>vd_fUrl = purl_new, vd_fWProt = False, vd_fStats = (\<lambda>_. 0), vd_fBlkSize = 0, vd_fNBlock = 0, vd_fNCyl = 0,
      vd_fNHead = 0, vd_fNSect = 0, df_fFd = f\<lparr>fl_fFd := - 1\<rparr>, df_fSize = 0, do_fBlkMap = []\<rparr>"

definition diskram_new :: diskram where
  "diskram_new =
     \<lparr>vd_fUrl = purl_new, vd_fWProt = False, vd_fStats = (\<lambda>_. 0), vd_fBlkSize = 0, vd_fNBlock = 0, vd_fNCyl = 0,
      vd_fNHead = 0, vd_fNSect = 0, dr_fNoBoot = False, dr_fPatTyp = kPatZero, dr_fBlkMap = []\<rparr>"

definition vd_Setup :: "nat \<Rightarrow> nat \<Rightarrow> nat \<Rightarrow> nat \<Rightarrow> nat \<Rightarrow> 'a vdisk_scheme \<Rightarrow> 'a vdisk_scheme" where
  "vd_Setup blksize nblock ncyl nhead nsect d =
     d\<lparr>vd_fBlkSize := blksize, vd_fNBlock := nblock, vd_fNCyl := ncyl, vd_fNHead := nhead, vd_fNSect := nsect\<rparr>"

section \<open>A disk in a file\<close>

text \<open>\<open>fd\<close>, \<open>emul\<close> and \<open>usrwrite\<close> are what the system has for the file name: the descriptor, the file and
  whether its owner may write it.\<close>

definition file_OpenScheme ::
  "string \<Rightarrow> string \<Rightarrow> int \<Rightarrow> osfile \<Rightarrow> bool \<Rightarrow> 'a diskfile_scheme \<Rightarrow> (bool \<times> 'a diskfile_scheme) result" where
  "file_OpenScheme url scheme fd emul usrwrite d =
     (let (ok, u) = url_SetDef url ''|wpro|'' scheme (vd_fUrl d); d1 = d\<lparr>vd_fUrl := u\<rparr>
      in if \<not> ok then Inr (False, d1)
         else
           let d2 = d1\<lparr>vd_fWProt := url_FindOpt ''wpro'' u\<rparr>
           in ebind (fd_Open fd (emul\<lparr>fl_fFd := fl_fFd (df_fFd d2), fl_writable := \<not> vd_fWProt d2\<rparr>)) (\<lambda>(okf, f).
                let d3 = d2\<lparr>df_fFd := f\<rparr>
                in if \<not> okf then Inr (False, d3)
                   else case fd_Stat f of
                       (None, f1) \<Rightarrow> Inr (False, d3\<lparr>df_fFd := fd_Close f1\<rparr>)
                     | (Some siz, f1) \<Rightarrow>
                         Inr (True, d3\<lparr>df_fFd := f1, vd_fWProt := (vd_fWProt d3 \<or> \<not> usrwrite), df_fSize := siz\<rparr>)))"

definition file_Open :: "string \<Rightarrow> int \<Rightarrow> osfile \<Rightarrow> bool \<Rightarrow> 'a diskfile_scheme \<Rightarrow> (bool \<times> 'a diskfile_scheme) result" where
  "file_Open url fd emul usrwrite d = file_OpenScheme url ''file'' fd emul usrwrite d"

definition file_Read :: "nat \<Rightarrow> nat \<Rightarrow> 'a diskfile_scheme \<Rightarrow> bool \<times> u8 list \<times> 'a diskfile_scheme" where
  "file_Read lba nblk d0 =
     (let d = vd_inc kStatNVDReadBlk nblk (vd_inc kStatNVDRead 1 d0);
          seekpos = vd_fBlkSize d * lba;
          nbyt = vd_fBlkSize d * nblk
      in if seekpos \<ge> df_fSize d then (True, replicate nbyt 0, d)
         else
           let (ok, f1) = fd_Seek (int seekpos) SEEK_SET (df_fFd d); d1 = d\<lparr>df_fFd := f1\<rparr>
           in if \<not> ok then (False, [], d1)
              else case fd_Read nbyt f1 of
                  (None, f2) \<Rightarrow> (False, [], d1\<lparr>df_fFd := f2\<rparr>)
                | (Some ds, f2) \<Rightarrow> (True, ds @ replicate (nbyt - length ds) 0, d1\<lparr>df_fFd := f2\<rparr>))"

definition file_Write :: "nat \<Rightarrow> nat \<Rightarrow> u8 list \<Rightarrow> 'a diskfile_scheme \<Rightarrow> bool \<times> 'a diskfile_scheme" where
  "file_Write lba nblk ds d0 =
     (let d = vd_inc kStatNVDWriteBlk nblk (vd_inc kStatNVDWrite 1 d0);
          seekpos = vd_fBlkSize d * lba;
          nbyt = vd_fBlkSize d * nblk;
          (ok, f1) = fd_Seek (int seekpos) SEEK_SET (df_fFd d); d1 = d\<lparr>df_fFd := f1\<rparr>
      in if \<not> ok then (False, d1)
         else
           let (ok2, f2) = WriteAll (take nbyt ds) f1; d2 = d1\<lparr>df_fFd := f2\<rparr>
           in if \<not> ok2 then (False, d2)
              else (True, if seekpos + nbyt > df_fSize d2 then d2\<lparr>df_fSize := seekpos + nbyt\<rparr> else d2))"

section \<open>Block buffers and block maps\<close>

definition dbuf_new :: "nat \<Rightarrow> dbuf" where
  "dbuf_new blksize = \<lparr>db_fBuf = replicate blksize 0, db_fNWrite = 0\<rparr>"

definition dbuf_Read :: "dbuf \<Rightarrow> u8 list" where
  "dbuf_Read b = db_fBuf b"

text \<open>The write counter stops at its largest value.\<close>

definition dbuf_Write :: "u8 list \<Rightarrow> dbuf \<Rightarrow> dbuf" where
  "dbuf_Write ds b =
     (let n = db_fNWrite b + 1
      in b\<lparr>db_fBuf := take (length (db_fBuf b)) ds, db_fNWrite := (if n = 0 then n - 1 else n)\<rparr>)"

definition bm_find :: "u32 \<Rightarrow> bmap \<Rightarrow> dbuf option" where
  "bm_find k m = map_of m k"

fun bm_set :: "u32 \<Rightarrow> dbuf \<Rightarrow> bmap \<Rightarrow> bmap" where
  "bm_set k b [] = [(k, b)]"
| "bm_set k b ((k', b') # m) =
     (if k < k' then (k, b) # (k', b') # m else if k = k' then (k, b) # m else (k', b') # bm_set k b m)"

definition lower_bound :: "u32 \<Rightarrow> bmap \<Rightarrow> bmap" where
  "lower_bound k m = dropWhile (\<lambda>(k', b). k' < k) m"

text \<open>The block of a map at a key is overwritten, or a new one is entered.\<close>

definition bm_write :: "nat \<Rightarrow> u32 \<Rightarrow> u8 list \<Rightarrow> bmap \<Rightarrow> bmap" where
  "bm_write blksize k ds m =
     bm_set k (dbuf_Write ds (case bm_find k m of None \<Rightarrow> dbuf_new blksize | Some b \<Rightarrow> b)) m"

section \<open>A disk in a file with an overlay\<close>

definition over_WProt :: "'a diskover_scheme \<Rightarrow> bool" where
  "over_WProt d = False"

definition over_Open :: "string \<Rightarrow> int \<Rightarrow> osfile \<Rightarrow> bool \<Rightarrow> 'a diskover_scheme \<Rightarrow> (bool \<times> 'a diskover_scheme) result" where
  "over_Open url fd emul usrwrite d = file_OpenScheme url ''over'' fd emul usrwrite d"

fun over_read_loop :: "nat \<Rightarrow> nat \<Rightarrow> 'a diskover_scheme \<Rightarrow> bool \<times> u8 list \<times> 'a diskover_scheme" where
  "over_read_loop lba 0 d = (True, [], d)"
| "over_read_loop lba (Suc n) d =
     (case bm_find (of_nat lba) (do_fBlkMap d) of
        None \<Rightarrow>
          (let (ok, ds, d1) = file_Read lba 1 (vd_inc kStatNVDOReadBlkFP 1 d)
           in if \<not> ok then (False, ds, d1)
              else let (ok2, ds2, d2) = over_read_loop (lba + 1) n d1 in (ok2, ds @ ds2, d2))
      | Some b \<Rightarrow>
          (let (ok2, ds2, d2) = over_read_loop (lba + 1) n (vd_inc kStatNVDOReadBlkO 1 d)
           in (ok2, dbuf_Read b @ ds2, d2)))"

definition over_Read :: "nat \<Rightarrow> nat \<Rightarrow> 'a diskover_scheme \<Rightarrow> bool \<times> u8 list \<times> 'a diskover_scheme" where
  "over_Read lba nblk d0 =
     (let d = vd_inc kStatNVDORead 1 d0
      in case lower_bound (of_nat lba) (do_fBlkMap d) of
           [] \<Rightarrow> file_Read lba nblk (vd_inc kStatNVDOReadBlkFF nblk d)
         | (k, b) # _ \<Rightarrow>
             if unat k \<ge> lba + nblk then file_Read lba nblk (vd_inc kStatNVDOReadBlkFF nblk d)
             else over_read_loop lba nblk d)"

fun over_write_loop :: "nat \<Rightarrow> nat \<Rightarrow> nat \<Rightarrow> u8 list \<Rightarrow> bmap \<Rightarrow> bmap" where
  "over_write_loop blksize lba 0 ds m = m"
| "over_write_loop blksize lba (Suc n) ds m =
     over_write_loop blksize (lba + 1) n (drop blksize ds) (bm_write blksize (of_nat lba) ds m)"

definition over_Write :: "nat \<Rightarrow> nat \<Rightarrow> u8 list \<Rightarrow> 'a diskover_scheme \<Rightarrow> bool \<times> 'a diskover_scheme" where
  "over_Write lba nblk ds d0 =
     (let d = vd_inc kStatNVDOWriteBlk nblk (vd_inc kStatNVDOWrite 1 d0)
      in (True, d\<lparr>do_fBlkMap := over_write_loop (vd_fBlkSize d) lba nblk ds (do_fBlkMap d)\<rparr>))"

fun flush_loop :: "bmap \<Rightarrow> 'a diskover_scheme \<Rightarrow> bool \<times> 'a diskover_scheme" where
  "flush_loop [] d = (True, d)"
| "flush_loop ((k, b) # m) d =
     (let (ok, d1) = file_Write (unat k) 1 (db_fBuf b) d in if \<not> ok then (False, d1) else flush_loop m d1)"

definition over_Flush :: "'a diskover_scheme \<Rightarrow> bool \<times> 'a diskover_scheme" where
  "over_Flush d0 =
     (if vd_fWProt d0 then (False, d0)
      else
        let d = vd_inc kStatNVDOFlush 1 d0; (ok, d1) = flush_loop (do_fBlkMap d) d
        in if \<not> ok then (False, d1) else (True, d1\<lparr>do_fBlkMap := []\<rparr>))"

section \<open>A disk in memory\<close>

definition ram_OpenScheme :: "string \<Rightarrow> string \<Rightarrow> 'a diskram_scheme \<Rightarrow> bool \<times> 'a diskram_scheme" where
  "ram_OpenScheme url scheme d =
     (let (ok, u) = url_SetDef url ''|wpro|noboot|pat=|'' scheme (vd_fUrl d); d1 = d\<lparr>vd_fUrl := u\<rparr>
      in if \<not> ok then (False, d1)
         else
           let d2 = d1\<lparr>vd_fWProt := url_FindOpt ''wpro'' u, dr_fNoBoot := url_FindOpt ''noboot'' u, dr_fPatTyp := kPatZero\<rparr>
           in case url_FindOptVal ''pat'' u of
                None \<Rightarrow> (True, d2)
              | Some pat \<Rightarrow>
                  if pat = ''zero'' then (True, d2\<lparr>dr_fPatTyp := kPatZero\<rparr>)
                  else if pat = ''ones'' then (True, d2\<lparr>dr_fPatTyp := kPatOnes\<rparr>)
                  else if pat = ''dead'' then (True, d2\<lparr>dr_fPatTyp := kPatDead\<rparr>)
                  else if pat = ''test'' then (True, d2\<lparr>dr_fPatTyp := kPatTest\<rparr>)
                  else (False, d2))"

definition ram_Open :: "string \<Rightarrow> 'a diskram_scheme \<Rightarrow> bool \<times> 'a diskram_scheme" where
  "ram_Open url d = ram_OpenScheme url ''file'' d"

definition bootcode :: "u16 list" where
  "bootcode = [0x15c0, 0x0016, 0x8bc8, 0x0306, 0x8bdf, 0xff74, 0x80fd, 0x941f, 0xff76, 0x01f8, 0x0000]"

definition boottext :: "'a diskram_scheme \<Rightarrow> string" where
  "boottext d =
     (let crlf = [CHR 0x0D, CHR 0x0A]
      in crlf @
         ''++======================================++'' @ crlf @
         ''|| This is not a hardware bootable disk ||'' @ crlf @
         ''++======================================++'' @ crlf @ crlf @
         ''Virtual disk: CHS='' @ dec_str (vd_fNCyl d) @ '','' @ dec_str (vd_fNHead d) @ '','' @ dec_str (vd_fNSect d) @
         '' blocks='' @ dec_str (vd_fNBlock d) @ ''('' @ dec_str (vd_fBlkSize d) @ '')'' @
         '' name='' @ pu_fPath (vd_fUrl d) @ crlf @
         ''CPU WILL HALT'' @ crlf @ crlf)"

definition test_words :: "nat \<Rightarrow> nat \<Rightarrow> 'a diskram_scheme \<Rightarrow> u16 list" where
  "test_words lba addr d =
     [of_nat addr, of_nat (addr div 2 ^ 16), of_nat (lba div (vd_fNSect d * vd_fNHead d)),
      of_nat (lba div vd_fNSect d mod vd_fNHead d), of_nat (lba mod vd_fNSect d),
      of_nat (vd_fNCyl d), of_nat (vd_fNHead d), of_nat (vd_fNSect d)]"

text \<open>The loops write whole groups of words until they reach the end of the block: a block that is not a
  multiple of the group, or that is too small for the boot code, would be overrun, and a geometry
  without sectors or heads divides by zero.\<close>

definition ReadPattern :: "nat \<Rightarrow> 'a diskram_scheme \<Rightarrow> u8 list result" where
  "ReadPattern lba d =
     (let bs = vd_fBlkSize d
      in if lba = 0 \<and> dr_fNoBoot d then
           if bs < 23 then Inl (MemFault ''bootcode'')
           else let ds = bytes16 bootcode @ map (\<lambda>c. of_nat (of_char c)) (boottext d)
                in Inr (take (bs - 1) (ds @ replicate bs 0) @ [0])
         else case dr_fPatTyp d of
             kPatZero \<Rightarrow> if bs mod 2 \<noteq> 0 then Inl (MemFault ''pattern'') else Inr (replicate bs 0)
           | kPatOnes \<Rightarrow> if bs mod 2 \<noteq> 0 then Inl (MemFault ''pattern'') else Inr (replicate bs 0xff)
           | kPatDead \<Rightarrow> if bs mod 4 \<noteq> 0 then Inl (MemFault ''pattern'')
               else Inr (concat (replicate (bs div 4) (bytes16 [0xdead, 0xbeaf])))
           | kPatTest \<Rightarrow> if bs mod 16 \<noteq> 0 \<or> vd_fNSect d = 0 \<or> vd_fNHead d = 0 then Inl (MemFault ''pattern'')
               else Inr (concat (map (\<lambda>i. bytes16 (test_words lba (lba * bs + 16 * i) d)) [0..<bs div 16])))"

fun ram_read_loop :: "nat \<Rightarrow> nat \<Rightarrow> 'a diskram_scheme \<Rightarrow> (u8 list \<times> 'a diskram_scheme) result" where
  "ram_read_loop lba 0 d = Inr ([], d)"
| "ram_read_loop lba (Suc n) d =
     (case bm_find (of_nat lba) (dr_fBlkMap d) of
        None \<Rightarrow> ebind (ReadPattern lba d) (\<lambda>ds. ebind (ram_read_loop (lba + 1) n d) (\<lambda>(ds2, d2). Inr (ds @ ds2, d2)))
      | Some b \<Rightarrow> ebind (ram_read_loop (lba + 1) n (vd_inc kStatNVDReadRam 1 d)) (\<lambda>(ds2, d2). Inr (dbuf_Read b @ ds2, d2)))"

definition ram_Read :: "nat \<Rightarrow> nat \<Rightarrow> 'a diskram_scheme \<Rightarrow> (bool \<times> u8 list \<times> 'a diskram_scheme) result" where
  "ram_Read lba nblk d =
     ebind (ram_read_loop lba nblk (vd_inc kStatNVDReadBlk nblk (vd_inc kStatNVDRead 1 d))) (\<lambda>(ds, d1). Inr (True, ds, d1))"

fun ram_write_loop :: "nat \<Rightarrow> nat \<Rightarrow> nat \<Rightarrow> u8 list \<Rightarrow> 'a diskram_scheme \<Rightarrow> 'a diskram_scheme" where
  "ram_write_loop nblk lba 0 ds d = d"
| "ram_write_loop nblk lba (Suc n) ds d =
     (let d1 = (if bm_find (of_nat lba) (dr_fBlkMap d) = None then d else vd_inc kStatNVDWriteOver nblk d)
      in ram_write_loop nblk (lba + 1) n (drop (vd_fBlkSize d) ds)
           (d1\<lparr>dr_fBlkMap := bm_write (vd_fBlkSize d) (of_nat lba) ds (dr_fBlkMap d1)\<rparr>))"

definition ram_Write :: "nat \<Rightarrow> nat \<Rightarrow> u8 list \<Rightarrow> 'a diskram_scheme \<Rightarrow> bool \<times> 'a diskram_scheme" where
  "ram_Write lba nblk ds d =
     (True, ram_write_loop nblk lba nblk ds (vd_inc kStatNVDWriteBlk nblk (vd_inc kStatNVDWrite 1 d)))"

section \<open>Choosing a disk\<close>

datatype adisk = ADFile diskfile | ADOver diskover | ADRam diskram

text \<open>The virtual functions of the disk classes.\<close>

definition disk_WProt :: "adisk \<Rightarrow> bool" where
  "disk_WProt ad = (case ad of ADFile d \<Rightarrow> vd_fWProt d | ADOver d \<Rightarrow> over_WProt d | ADRam d \<Rightarrow> vd_fWProt d)"

definition disk_Read :: "nat \<Rightarrow> nat \<Rightarrow> adisk \<Rightarrow> (bool \<times> u8 list \<times> adisk) result" where
  "disk_Read lba nblk ad =
     (case ad of
        ADFile d \<Rightarrow> (let (ok, ds, d1) = file_Read lba nblk d in Inr (ok, ds, ADFile d1))
      | ADOver d \<Rightarrow> (let (ok, ds, d1) = over_Read lba nblk d in Inr (ok, ds, ADOver d1))
      | ADRam d \<Rightarrow> ebind (ram_Read lba nblk d) (\<lambda>(ok, ds, d1). Inr (ok, ds, ADRam d1)))"

definition disk_Write :: "nat \<Rightarrow> nat \<Rightarrow> u8 list \<Rightarrow> adisk \<Rightarrow> bool \<times> adisk" where
  "disk_Write lba nblk ds ad =
     (case ad of
        ADFile d \<Rightarrow> (let (ok, d1) = file_Write lba nblk ds d in (ok, ADFile d1))
      | ADOver d \<Rightarrow> (let (ok, d1) = over_Write lba nblk ds d in (ok, ADOver d1))
      | ADRam d \<Rightarrow> (let (ok, d1) = ram_Write lba nblk ds d in (ok, ADRam d1)))"

definition disk_Setup :: "nat \<Rightarrow> nat \<Rightarrow> nat \<Rightarrow> nat \<Rightarrow> nat \<Rightarrow> adisk \<Rightarrow> adisk" where
  "disk_Setup blksize nblock ncyl nhead nsect ad =
     (case ad of
        ADFile d \<Rightarrow> ADFile (vd_Setup blksize nblock ncyl nhead nsect d)
      | ADOver d \<Rightarrow> ADOver (vd_Setup blksize nblock ncyl nhead nsect d)
      | ADRam d \<Rightarrow> ADRam (vd_Setup blksize nblock ncyl nhead nsect d))"

text \<open>\<open>None\<close> is the null pointer that \<open>New\<close> returns when the scheme is not known or the open failed.\<close>

definition disk_New :: "string \<Rightarrow> string \<Rightarrow> int \<Rightarrow> osfile \<Rightarrow> bool \<Rightarrow> adisk option result" where
  "disk_New url defscheme fd emul usrwrite =
     (let scheme = FindScheme url defscheme
      in if scheme = ''file'' then
           ebind (file_Open url fd emul usrwrite (diskfile_new emul)) (\<lambda>(ok, d). Inr (if ok then Some (ADFile d) else None))
         else if scheme = ''over'' then
           ebind (over_Open url fd emul usrwrite (diskover_new emul)) (\<lambda>(ok, d). Inr (if ok then Some (ADOver d) else None))
         else if scheme = ''ram'' then
           (let (ok, d) = ram_Open url diskram_new in Inr (if ok then Some (ADRam d) else None))
         else Inr None)"

definition SetDefaultScheme :: "string \<Rightarrow> string result" where
  "SetDefaultScheme scheme =
     (if scheme \<noteq> ''file'' \<and> scheme \<noteq> ''over''
      then Inl (Rexception ''Rw11VirtDisk::SetDefaultScheme'' (''only '' @ [CHR 0x27] @ ''file'' @ [CHR 0x27] @ '' or '' @ [CHR 0x27] @ ''over'' @ [CHR 0x27] @ '' allowed'')) else Inr scheme)"

end
