(* ===== verification/Rw11Rdma.thy ===== *)
theory Rw11Rdma
  imports Rw11Cpu Rw11VirtDisk
begin

text \<open>
  Units and DMA: \<open>Rw11Unit\<close>, \<open>Rw11UnitVirt\<close>, \<open>Rw11UnitDisk\<close>, \<open>Rw11Rdma\<close> and \<open>Rw11RdmaDisk\<close>. A DMA request is a
  chain of chunks; the action queue of the server calls \<open>RdmaHandler\<close> once per chunk until it returns 0.
\<close>

section \<open>Attach and detach\<close>

text \<open>The template \<open>Rw11UnitVirt\<close>: \<open>'s\<close> is the state of the controller with its units, \<open>'v\<close> the virtual device;
  the virtual functions of the unit are the components of \<open>unit_ops\<close>.\<close>

record ('v, 's) unit_ops =
  uo_Enabled :: "'s \<Rightarrow> bool"
  uo_fupVirt :: "'s \<Rightarrow> 'v option"
  uo_SetVirt :: "'v option \<Rightarrow> 's \<Rightarrow> 's"
  uo_AttachDone :: "'s \<Rightarrow> 's result"
  uo_DetachCleanup :: "'s \<Rightarrow> 's result"
  uo_DetachDone :: "'s \<Rightarrow> 's result"

definition unit_Detach :: "('v, 's) unit_ops \<Rightarrow> 's \<Rightarrow> 's result" where
  "unit_Detach u s =
     (if uo_fupVirt u s = None then Inr s
      else ebind (uo_DetachCleanup u s) (\<lambda>s1. uo_DetachDone u (uo_SetVirt u None s1)))"

definition unit_Attach :: "('v, 's) unit_ops \<Rightarrow> (string \<Rightarrow> 'v option result) \<Rightarrow> string \<Rightarrow> 's \<Rightarrow> (bool \<times> 's) result" where
  "unit_Attach u new url s =
     ebind (if uo_fupVirt u s \<noteq> None then unit_Detach u s else Inr s) (\<lambda>s1.
       if \<not> uo_Enabled u s1 then Inr (False, s1)
       else ebind (new url) (\<lambda>v.
         let s2 = uo_SetVirt u v s1
         in ebind (if v \<noteq> None then uo_AttachDone u s2 else Inr s2) (\<lambda>s3. Inr (uo_fupVirt u s3 \<noteq> None, s3))))"

section \<open>Disk units\<close>

record udisk =
  ud_fIndex :: nat
  ud_fAttachOpts :: string
  ud_fupVirt :: "adisk option"
  ud_fType :: string
  ud_fEnabled :: bool
  ud_fNCyl :: nat
  ud_fNHead :: nat
  ud_fNSect :: nat
  ud_fBlksize :: nat
  ud_fNBlock :: nat
  ud_fWProt :: bool

definition udisk_new :: "nat \<Rightarrow> udisk" where
  "udisk_new index =
     \<lparr>ud_fIndex = index, ud_fAttachOpts = [], ud_fupVirt = None, ud_fType = [], ud_fEnabled = False, ud_fNCyl = 0,
      ud_fNHead = 0, ud_fNSect = 0, ud_fBlksize = 0, ud_fNBlock = 0, ud_fWProt = False\<rparr>"

definition ud_SetType :: "string \<Rightarrow> 'a udisk_scheme \<Rightarrow> 'a udisk_scheme result" where
  "ud_SetType type u =
     Inl (Rexception ''Rw11UnitDisk::SetType'' (''Bad args: only type '' @ [CHR 0x27] @ ud_fType u @ [CHR 0x27] @ '' supported''))"

definition Chs2Lba :: "u16 \<Rightarrow> u16 \<Rightarrow> u16 \<Rightarrow> 'a udisk_scheme \<Rightarrow> u32" where
  "Chs2Lba cy hd1 se u = of_nat (unat se + ud_fNSect u * (unat hd1 + ud_fNHead u * unat cy))"

definition Lba2Chs :: "u32 \<Rightarrow> 'a udisk_scheme \<Rightarrow> u16 \<times> u16 \<times> u16" where
  "Lba2Chs lba u =
     (of_nat (unat lba div (ud_fNSect u * ud_fNHead u)), of_nat (unat lba div ud_fNSect u mod ud_fNHead u),
      of_nat (unat lba mod ud_fNSect u))"

definition Nwrd2Nblk :: "u32 \<Rightarrow> 'a udisk_scheme \<Rightarrow> u32" where
  "Nwrd2Nblk nwrd u = of_nat ((unat (2 * nwrd) + ud_fBlksize u - 1) div ud_fBlksize u)"

definition ud_SetWProt :: "bool \<Rightarrow> 'a udisk_scheme \<Rightarrow> 'a udisk_scheme" where
  "ud_SetWProt wprot u = u\<lparr>ud_fWProt := wprot\<rparr>"

definition VirtRead :: "nat \<Rightarrow> nat \<Rightarrow> 'a udisk_scheme \<Rightarrow> (bool \<times> u8 list \<times> 'a udisk_scheme) result" where
  "VirtRead lba nblk u =
     (case ud_fupVirt u of
        None \<Rightarrow> Inr (False, [], u)
      | Some v \<Rightarrow> ebind (disk_Read lba nblk v) (\<lambda>(ok, ds, v'). Inr (ok, ds, u\<lparr>ud_fupVirt := Some v'\<rparr>)))"

definition VirtWrite :: "nat \<Rightarrow> nat \<Rightarrow> u8 list \<Rightarrow> 'a udisk_scheme \<Rightarrow> bool \<times> 'a udisk_scheme" where
  "VirtWrite lba nblk ds u =
     (case ud_fupVirt u of
        None \<Rightarrow> (False, u)
      | Some v \<Rightarrow> (let (ok, v') = disk_Write lba nblk ds v in (ok, u\<lparr>ud_fupVirt := Some v'\<rparr>)))"

text \<open>The units of a controller in its state, with \<open>UnitSetup\<close> of the controller, and the virtual functions of
  \<open>Rw11UnitDiskBase\<close> over them.\<close>

record ('s, 'u) dunits =
  du_get :: "nat \<Rightarrow> 's \<Rightarrow> 'u"
  du_put :: "nat \<Rightarrow> 'u \<Rightarrow> 's \<Rightarrow> 's"
  du_UnitSetup :: "nat \<Rightarrow> 's \<Rightarrow> 's result"

definition disk_AttachDone :: "('s, 'a udisk_scheme) dunits \<Rightarrow> nat \<Rightarrow> 's \<Rightarrow> 's result" where
  "disk_AttachDone e i s =
     (let u = du_get e i s;
          v = map_option (disk_Setup (ud_fBlksize u) (ud_fNBlock u) (ud_fNCyl u) (ud_fNHead u) (ud_fNSect u)) (ud_fupVirt u)
      in du_UnitSetup e i (du_put e i (u\<lparr>ud_fupVirt := v\<rparr>) s))"

definition disk_DetachDone :: "('s, 'a udisk_scheme) dunits \<Rightarrow> nat \<Rightarrow> 's \<Rightarrow> 's result" where
  "disk_DetachDone e i s = du_UnitSetup e i (du_put e i (ud_SetWProt False (du_get e i s)) s)"

definition disk_unit_ops :: "('s, 'a udisk_scheme) dunits \<Rightarrow> nat \<Rightarrow> (adisk, 's) unit_ops" where
  "disk_unit_ops e i =
     \<lparr>uo_Enabled = (\<lambda>s. ud_fEnabled (du_get e i s)), uo_fupVirt = (\<lambda>s. ud_fupVirt (du_get e i s)),
      uo_SetVirt = (\<lambda>v s. du_put e i ((du_get e i s)\<lparr>ud_fupVirt := v\<rparr>) s), uo_AttachDone = disk_AttachDone e i,
      uo_DetachCleanup = Inr, uo_DetachDone = disk_DetachDone e i\<rparr>"

section \<open>DMA\<close>

datatype rdma_stat = kStatNQueRMem | kStatNQueWMem | kStatNRdmaRMem | kStatNRdmaWMem | kStatNExtClist | kStatNFailRdma
  | kStatNWritePadded | kStatNWChkFail

datatype rdma_status = kStatusDone | kStatusBusy | kStatusBusyLast | kStatusFailRdma

text \<open>\<open>fpBlock\<close> points into a buffer of the client: \<open>rd_buf\<close> is the buffer, and \<open>rd_fpBlock\<close> the index of the current
  word. For \<open>Rw11RdmaDisk\<close> it is \<open>fBuf\<close>.\<close>

record rdma =
  rd_fChunksize :: nat
  rd_fStatus :: rdma_status
  rd_fIsWMem :: bool
  rd_fAddr :: u32
  rd_fMode :: u16
  rd_fNWordMax :: nat
  rd_fNWordRest :: nat
  rd_fNWordDone :: nat
  rd_fpBlock :: nat
  rd_buf :: "u16 list"
  rd_fStats :: "rdma_stat \<Rightarrow> nat"

definition rdma_new :: rdma where
  "rdma_new =
     \<lparr>rd_fChunksize = 0, rd_fStatus = kStatusDone, rd_fIsWMem = False, rd_fAddr = 0, rd_fMode = 0, rd_fNWordMax = 0,
      rd_fNWordRest = 0, rd_fNWordDone = 0, rd_fpBlock = 0, rd_buf = [], rd_fStats = (\<lambda>_. 0)\<rparr>"

definition rd_inc :: "rdma_stat \<Rightarrow> 'a rdma_scheme \<Rightarrow> 'a rdma_scheme" where
  "rd_inc k r = r\<lparr>rd_fStats := stat_inc k 1 (rd_fStats r)\<rparr>"

definition rd_IsActive :: "'a rdma_scheme \<Rightarrow> bool" where
  "rd_IsActive r = (rd_fStatus r \<noteq> kStatusDone)"

text \<open>The callbacks of the controller and the virtual hooks, over the state \<open>'s\<close> of controller and link. The
  post callback may call functions of the DMA object.\<close>

record ('a, 's) rdma_cbs =
  rc_PreExecCB :: "rdma_status \<Rightarrow> nat \<Rightarrow> nat \<Rightarrow> clist \<Rightarrow> 's \<Rightarrow> (clist \<times> 's) result"
  rc_PostExecCB :: "rdma_status \<Rightarrow> nat \<Rightarrow> clist \<Rightarrow> nat \<Rightarrow> 'a rdma_scheme \<Rightarrow> 's \<Rightarrow> ('a rdma_scheme \<times> 's) result"
  rc_PreRdmaHook :: "'a rdma_scheme \<Rightarrow> 's \<Rightarrow> ('a rdma_scheme \<times> 's) result"
  rc_PostRdmaHook :: "nat \<Rightarrow> 'a rdma_scheme \<Rightarrow> 's \<Rightarrow> ('a rdma_scheme \<times> 's) result"

definition SetChunkSize :: "'s link \<Rightarrow> bool \<Rightarrow> nat \<Rightarrow> 'a rdma_scheme \<Rightarrow> 's \<Rightarrow> 'a rdma_scheme" where
  "SetChunkSize k started chunk r s =
     (let cmax = (if started then lk_BlockSizePrudent k s else 0)
      in r\<lparr>rd_fChunksize := (if chunk = 0 \<or> chunk > cmax then cmax else chunk)\<rparr>)"

definition SetupRdma ::
  "'s link \<Rightarrow> bool \<Rightarrow> u32 \<Rightarrow> nat \<Rightarrow> nat \<Rightarrow> u16 \<Rightarrow> 'a rdma_scheme \<Rightarrow> 's \<Rightarrow> 'a rdma_scheme result" where
  "SetupRdma k iswmem addr block siz mode r s =
     (if rd_IsActive r then Inl (Rexception ''Rw11Rdma::SetupRdma'' ''Bad state: Rdma already active'')
      else
        let r1 = (if rd_fChunksize r = 0 then r\<lparr>rd_fChunksize := lk_BlockSizePrudent k s\<rparr> else r)
        in Inr (r1\<lparr>rd_fStatus := kStatusBusy, rd_fIsWMem := iswmem, rd_fAddr := addr, rd_fMode := mode,
                   rd_fNWordMax := rd_fChunksize r1, rd_fNWordRest := siz, rd_fNWordDone := 0, rd_fpBlock := block\<rparr>))"

text \<open>\<open>h\<close> is the action, \<open>RdmaHandler\<close> of this object.\<close>

definition QueueRMem ::
  "'s link \<Rightarrow> hid \<Rightarrow> u32 \<Rightarrow> nat \<Rightarrow> nat \<Rightarrow> u16 \<Rightarrow> 'a rdma_scheme \<Rightarrow> 's \<Rightarrow> ('a rdma_scheme \<times> 's) result" where
  "QueueRMem k h addr block siz mode r s =
     ebind (SetupRdma k False addr block siz mode (rd_inc kStatNQueRMem r) s) (\<lambda>r1.
     ebind (lk_QueueAction k h s) (\<lambda>s1. Inr (r1, s1)))"

definition QueueWMem ::
  "'s link \<Rightarrow> hid \<Rightarrow> u32 \<Rightarrow> nat \<Rightarrow> nat \<Rightarrow> u16 \<Rightarrow> 'a rdma_scheme \<Rightarrow> 's \<Rightarrow> ('a rdma_scheme \<times> 's) result" where
  "QueueWMem k h addr block siz mode r s =
     ebind (SetupRdma k True addr block siz mode (rd_inc kStatNQueWMem r) s) (\<lambda>r1.
     ebind (lk_QueueAction k h s) (\<lambda>s1. Inr (r1, s1)))"

text \<open>The command list of a chunk. The words that a memory read returns are in the block of its last command.\<close>

definition rdma_clist :: "'s link \<Rightarrow> cpu \<Rightarrow> nat \<Rightarrow> 'a rdma_scheme \<Rightarrow> 's \<Rightarrow> clist result" where
  "rdma_clist k p nwnext r s =
     ebind ((if rd_fIsWMem r then AddWMem else AddRMem) k (rd_fAddr r) (drop (rd_fpBlock r) (rd_buf r)) nwnext (rd_fMode r)
        True p clist_new s) (\<lambda>(i, l). Inr l)"

definition rdma_fetch :: "nat \<Rightarrow> command \<Rightarrow> 'a rdma_scheme \<Rightarrow> 'a rdma_scheme" where
  "rdma_fetch nwnext c r =
     (if rd_fIsWMem r \<or> nwnext = 0 then r else r\<lparr>rd_buf := take (rd_fpBlock r) (rd_buf r) @ BlockPointer c\<rparr>)"

definition rdma_advance :: "nat \<Rightarrow> nat \<Rightarrow> 'a rdma_scheme \<Rightarrow> bool \<times> 'a rdma_scheme" where
  "rdma_advance nwnext nwdone r0 =
     (let r = r0\<lparr>rd_fAddr := rd_fAddr r0 + of_nat (2 * nwdone), rd_fNWordRest := rd_fNWordRest r0 - nwdone,
                 rd_fNWordDone := rd_fNWordDone r0 + nwdone, rd_fpBlock := rd_fpBlock r0 + nwdone\<rparr>
      in if nwnext \<noteq> nwdone then (True, (rd_inc kStatNFailRdma r)\<lparr>rd_fStatus := kStatusFailRdma\<rparr>)
         else if rd_fNWordRest r = 0 then (True, r\<lparr>rd_fStatus := kStatusDone\<rparr>)
         else (False, r))"

definition rdma_chunk ::
  "'s link \<Rightarrow> ('a, 's) rdma_cbs \<Rightarrow> cpu \<Rightarrow> 'a rdma_scheme \<Rightarrow> 's \<Rightarrow> (int \<times> 'a rdma_scheme \<times> 's) result" where
  "rdma_chunk k cb p r1 s1 =
     (let nwnext = min (rd_fNWordRest r1) (rd_fNWordMax r1);
          r2 = rd_inc (if rd_fIsWMem r1 then kStatNRdmaWMem else kStatNRdmaRMem) r1
      in ebind (rdma_clist k p nwnext r2 s1) (\<lambda>l.
           let ncmd = cl_Size l;
               r3 = (if nwnext = rd_fNWordRest r2 then r2\<lparr>rd_fStatus := kStatusBusyLast\<rparr> else r2)
           in ebind (rc_PreExecCB cb (rd_fStatus r3) (rd_fNWordDone r3) nwnext l s1) (\<lambda>(l1, s2).
                let r4 = (if cl_Size l1 \<noteq> ncmd then rd_inc kStatNExtClist r3 else r3)
                in ebind (srv_Exec k l1 s2) (\<lambda>(l2, s3).
                   ebind (cl_at (ncmd - 1) l2) (\<lambda>c.
                     let (islast, r5) = rdma_advance nwnext (cmd_fBlockDone c) (rdma_fetch nwnext c r4)
                     in ebind (if islast then rc_PostRdmaHook cb (rd_fNWordDone r5) r5 s3 else Inr (r5, s3)) (\<lambda>(r6, s4).
                        ebind (rc_PostExecCB cb (rd_fStatus r6) (rd_fNWordDone r6) l2 ncmd r6 s4) (\<lambda>(r7, s5).
                          if rd_fStatus r7 = kStatusBusy then Inr (1, r7, s5)
                          else Inr (0, r7\<lparr>rd_fStatus := kStatusDone\<rparr>, s5))))))))"

definition RdmaHandler ::
  "'s link \<Rightarrow> ('a, 's) rdma_cbs \<Rightarrow> cpu \<Rightarrow> 'a rdma_scheme \<Rightarrow> 's \<Rightarrow> (int \<times> 'a rdma_scheme \<times> 's) result" where
  "RdmaHandler k cb p r s =
     ebind (if rd_fNWordDone r = 0 then rc_PreRdmaHook cb r s else Inr (r, s)) (\<lambda>(r1, s1). rdma_chunk k cb p r1 s1)"

text \<open>The action queue calls a handler again as long as it returns a positive value.\<close>

partial_function (option) rdma_chain ::
  "('r \<Rightarrow> 's \<Rightarrow> (int \<times> 'r \<times> 's) result) \<Rightarrow> 'r \<Rightarrow> 's \<Rightarrow> ('r \<times> 's) result option" where
  "rdma_chain hdl r s =
     (case hdl r s of
        Inl e \<Rightarrow> Some (Inl e)
      | Inr (irc, r', s') \<Rightarrow> if irc > 0 then rdma_chain hdl r' s' else Some (Inr (r', s')))"

text \<open>The link as a controller sees it that is part of the state.\<close>

definition link_snd :: "'w link \<Rightarrow> ('c \<times> 'w) link" where
  "link_snd k =
     \<lparr>lk_Exec = (\<lambda>l (c, w). ebind (lk_Exec k l w) (\<lambda>(rc, l', w'). Inr (rc, l', (c, w')))),
      lk_ConnExec = (\<lambda>l (c, w). ebind (lk_ConnExec k l w) (\<lambda>(rc, l', w'). Inr (rc, l', (c, w')))),
      lk_BlockSizeMax = (\<lambda>(c, w). lk_BlockSizeMax k w), lk_BlockSizePrudent = (\<lambda>(c, w). lk_BlockSizePrudent k w),
      lk_AddrMapInsert = (\<lambda>n a (c, w). (c, lk_AddrMapInsert k n a w)),
      lk_QueueAction = (\<lambda>h (c, w). ebind (lk_QueueAction k h w) (\<lambda>w'. Inr (c, w'))),
      lk_AddAttnHandler = (\<lambda>h m i (c, w). ebind (lk_AddAttnHandler k h m i w) (\<lambda>w'. Inr (c, w')))\<rparr>"

section \<open>DMA for disks\<close>

datatype rdma_func = kFuncRead | kFuncWrite | kFuncWriteCheck

record rdmadisk = rdma +
  rk_fpUnit :: nat
  rk_fNWord :: nat
  rk_fNBlock :: nat
  rk_fLba :: nat
  rk_fFunc :: rdma_func

type_synonym disk_cbs_ext = "\<lparr>rk_fpUnit :: nat, rk_fNWord :: nat, rk_fNBlock :: nat, rk_fLba :: nat, rk_fFunc :: rdma_func\<rparr>"

definition rdmadisk_new :: rdmadisk where
  "rdmadisk_new = rdma.extend rdma_new \<lparr>rk_fpUnit = 0, rk_fNWord = 0, rk_fNBlock = 0, rk_fLba = 0, rk_fFunc = kFuncRead\<rparr>"

text \<open>The number of blocks that \<open>n\<close> words need, with a block size in words.\<close>

definition nblk_of :: "nat \<Rightarrow> nat \<Rightarrow> nat" where
  "nblk_of bszwrd n = (n + bszwrd - 1) div bszwrd"

definition SetupDisk :: "('s, 'u udisk_scheme) dunits \<Rightarrow> nat \<Rightarrow> u32 \<Rightarrow> nat \<Rightarrow> rdma_func \<Rightarrow> rdmadisk \<Rightarrow> 's \<Rightarrow> rdmadisk" where
  "SetupDisk e siz lba punit func r s =
     (let bszwrd = ud_fBlksize (du_get e punit s) div 2;
          nblk = nblk_of bszwrd siz;
          tsize = nblk * bszwrd
      in r\<lparr>rk_fpUnit := punit, rk_fNWord := siz, rk_fNBlock := nblk, rk_fLba := unat lba, rk_fFunc := func,
           rd_buf := (if length (rd_buf r) < tsize then rd_buf r @ replicate (tsize - length (rd_buf r)) 0 else rd_buf r)\<rparr>)"

definition QueueDiskRead ::
  "'s link \<Rightarrow> hid \<Rightarrow> ('s, 'u udisk_scheme) dunits \<Rightarrow> u32 \<Rightarrow> nat \<Rightarrow> u16 \<Rightarrow> u32 \<Rightarrow> nat \<Rightarrow> rdmadisk \<Rightarrow> 's \<Rightarrow> (rdmadisk \<times> 's) result" where
  "QueueDiskRead k h e addr siz mode lba punit r s =
     QueueWMem k h addr 0 siz mode (SetupDisk e siz lba punit kFuncRead r s) s"

definition QueueDiskWrite ::
  "'s link \<Rightarrow> hid \<Rightarrow> ('s, 'u udisk_scheme) dunits \<Rightarrow> u32 \<Rightarrow> nat \<Rightarrow> u16 \<Rightarrow> u32 \<Rightarrow> nat \<Rightarrow> rdmadisk \<Rightarrow> 's \<Rightarrow> (rdmadisk \<times> 's) result" where
  "QueueDiskWrite k h e addr siz mode lba punit r s =
     QueueRMem k h addr 0 siz mode (SetupDisk e siz lba punit kFuncWrite r s) s"

definition QueueDiskWriteCheck ::
  "'s link \<Rightarrow> hid \<Rightarrow> ('s, 'u udisk_scheme) dunits \<Rightarrow> u32 \<Rightarrow> nat \<Rightarrow> u16 \<Rightarrow> u32 \<Rightarrow> nat \<Rightarrow> rdmadisk \<Rightarrow> 's \<Rightarrow> (rdmadisk \<times> 's) result" where
  "QueueDiskWriteCheck k h e addr siz mode lba punit r s =
     QueueRMem k h addr 0 siz mode (SetupDisk e siz lba punit kFuncWriteCheck r s) s"

text \<open>The index of the first word that differs.\<close>

function wchk_loop :: "u16 list \<Rightarrow> u16 list \<Rightarrow> nat \<Rightarrow> nat \<Rightarrow> nat option" where
  "wchk_loop dsk mem i n = (if i < n then (if dsk ! i \<noteq> mem ! i then Some i else wchk_loop dsk mem (i + 1) n) else None)"
  by auto
termination
  by (relation "measure (\<lambda>(dsk, mem, i, n). n - i)") auto

declare wchk_loop.simps [simp del]

definition WriteCheck ::
  "('s, 'u udisk_scheme) dunits \<Rightarrow> nat \<Rightarrow> rdmadisk \<Rightarrow> 's \<Rightarrow> (nat \<times> rdmadisk \<times> 's) result" where
  "WriteCheck e nwdone r s =
     (if nwdone = 0 then Inr (0, r, s)
      else
        let u = du_get e (rk_fpUnit r) s; bszwrd = ud_fBlksize u div 2; nblk = nblk_of bszwrd nwdone
        in ebind (VirtRead (rk_fLba r) nblk u) (\<lambda>(rc, ds, u').
             if \<not> rc then Inl (Rexception ''Rw11RdmaDisk::WriteCheck()'' ''VirtRead() failed: '')
             else
               let s' = du_put e (rk_fpUnit r) u' s
               in case wchk_loop (pairs ds) (rd_buf r) 0 nwdone of
                    Some i \<Rightarrow> Inr (i, rd_inc kStatNWChkFail r, s')
                  | None \<Rightarrow> Inr (nwdone, r, s')))"

definition PreRdmaHook :: "('s, 'u udisk_scheme) dunits \<Rightarrow> rdmadisk \<Rightarrow> 's \<Rightarrow> (rdmadisk \<times> 's) result" where
  "PreRdmaHook e r s =
     (if rk_fFunc r \<noteq> kFuncRead then Inr (r, s)
      else ebind (VirtRead (rk_fLba r) (rk_fNBlock r) (du_get e (rk_fpUnit r) s)) (\<lambda>(rc, ds, u').
        if \<not> rc then Inl (Rexception ''Rw11RdmaDisk::PreRdmaHook()'' ''VirtRead() failed: '')
        else Inr (r\<lparr>rd_buf := pairs ds @ drop (length (pairs ds)) (rd_buf r)\<rparr>, du_put e (rk_fpUnit r) u' s)))"

definition PostRdmaHook :: "('s, 'u udisk_scheme) dunits \<Rightarrow> nat \<Rightarrow> rdmadisk \<Rightarrow> 's \<Rightarrow> (rdmadisk \<times> 's) result" where
  "PostRdmaHook e nwdone r s =
     (if nwdone = 0 then Inr (r, s)
      else if rk_fFunc r \<noteq> kFuncWrite then Inr (r, s)
      else
        let u = du_get e (rk_fpUnit r) s; bszwrd = ud_fBlksize u div 2; nblock = nblk_of bszwrd nwdone;
            npad = nblock * bszwrd - nwdone;
            r1 = (if npad \<noteq> 0
                  then (rd_inc kStatNWritePadded r)\<lparr>rd_buf := take nwdone (rd_buf r) @ replicate npad 0xdead @ drop (nwdone + npad) (rd_buf r)\<rparr>
                  else r);
            (rc, u') = VirtWrite (rk_fLba r) nblock (bytes16 (take (nblock * bszwrd) (rd_buf r1))) u
        in if \<not> rc then Inl (Rexception ''Rw11RdmaDisk::PostRdmaHook()'' ''VirtWrite() failed: '')
           else Inr (r1, du_put e (rk_fpUnit r) u' s))"

end
