(* ===== verification/Rw11CpPort.thy ===== *)
theory Rw11CpPort
  imports Rw11Cpu
begin

text \<open>
  The far end of the link as the memory functions of \<open>Rw11Cpu\<close> need it: the registers \<open>al\<close>, \<open>ah\<close>,
  \<open>mem\<close>, \<open>memi\<close> and \<open>membe\<close> of the control port, as the hardware description \<open>pdp11_core_rbus.vhd\<close>
  and \<open>pdp11_vmbox.vhd\<close> has them, and the memory behind. A write of \<open>al\<close> clears \<open>ah\<close>; \<open>memi\<close>
  increments the address; the byte enables are set again after a write unless they are sticky. An
  access behind the end of the memory gives an error status and has no effect. The other registers
  and the I/O page are open: \<open>cb_ext\<close> is what they show, and \<open>cb_log\<close> collects what is written to them.
  Memory access through the Unibus map is modelled while the map is disabled (\<open>cb_mmuub\<close>), as it is after a
  reset. An aborted block transfer sets a flag that \<open>labo\<close> returns; if it is set, \<open>labo\<close> ends the command
  list, as in \<open>rlink_core.vhd\<close>.
\<close>

section \<open>Registers\<close>

text \<open>The address counts words, as bits 21 to 1 of a byte address. Without the 22 bit mode its upper bits are ignored.\<close>

record cpport =
  cb_addr :: nat
  cb_22bit :: bool
  cb_ubmap :: bool
  cb_be0 :: bool
  cb_be1 :: bool
  cb_stick :: bool
  cb_mem :: "nat \<Rightarrow> u8"
  cb_size :: nat
  cb_mmuub :: bool
  cb_babo :: bool
  cb_lam :: u16
  cb_ext :: "u16 \<Rightarrow> u16"
  cb_log :: "(u16 \<times> u16) list"

definition io16 :: nat where "io16 = 0xe000"
definition io22 :: nat where "io22 = 0x3fe000"

definition cb_ea :: "cpport \<Rightarrow> nat" where
  "cb_ea d = (if cb_22bit d then cb_addr d else cb_addr d mod 2 ^ 15)"

definition cb_is_mem :: "cpport \<Rightarrow> bool" where
  "cb_is_mem d =
     (\<not> (cb_ubmap d \<and> cb_mmuub d) \<and> 2 * cb_ea d < (if cb_22bit d then io22 else io16) \<and> 2 * cb_ea d < cb_size d)"

definition cb_store :: "u16 \<Rightarrow> cpport \<Rightarrow> nat \<Rightarrow> u8" where
  "cb_store w d =
     (\<lambda>i. if i = 2 * cb_ea d \<and> cb_be0 d then lo8 w else if i = 2 * cb_ea d + 1 \<and> cb_be1 d then hi8 w else cb_mem d i)"

definition cb_write :: "bool \<Rightarrow> u16 \<Rightarrow> cpport \<Rightarrow> bool \<times> cpport" where
  "cb_write inc w d =
     (let d1 = (if cb_is_mem d then d\<lparr>cb_mem := cb_store w d\<rparr> else d);
          d2 = (if cb_stick d1 then d1 else d1\<lparr>cb_be0 := True, cb_be1 := True\<rparr>)
      in (cb_is_mem d, if inc then d2\<lparr>cb_addr := (cb_addr d2 + 1) mod 2 ^ 21\<rparr> else d2))"

definition cb_read :: "bool \<Rightarrow> cpport \<Rightarrow> bool \<times> u16 \<times> cpport" where
  "cb_read inc d =
     (cb_is_mem d, if cb_is_mem d then mk16 (cb_mem d (2 * cb_ea d)) (cb_mem d (2 * cb_ea d + 1)) else 0,
      if inc then d\<lparr>cb_addr := (cb_addr d + 1) mod 2 ^ 21\<rparr> else d)"

definition cb_wreg :: "u16 \<Rightarrow> u16 \<Rightarrow> u16 \<Rightarrow> cpport \<Rightarrow> bool \<times> cpport" where
  "cb_wreg base a w d =
     (if a = base + kCPAL then (True, d\<lparr>cb_addr := unat w div 2, cb_22bit := False, cb_ubmap := False\<rparr>)
      else if a = base + kCPAH then
        (True, d\<lparr>cb_addr := cb_addr d mod 2 ^ 15 + 2 ^ 15 * unat (w AND 0x3f), cb_22bit := bit w 6, cb_ubmap := bit w 7\<rparr>)
      else if a = base + kCPMEM then cb_write False w d
      else if a = base + kCPMEMI then cb_write True w d
      else if a = base + kCPMEMBE then (True, d\<lparr>cb_be0 := bit w 0, cb_be1 := bit w 1, cb_stick := bit w 2\<rparr>)
      else (True, d\<lparr>cb_log := cb_log d @ [(a, w)]\<rparr>))"

definition cb_rreg :: "u16 \<Rightarrow> u16 \<Rightarrow> cpport \<Rightarrow> bool \<times> u16 \<times> cpport" where
  "cb_rreg base a d =
     (if a = base + kCPMEM then cb_read False d else if a = base + kCPMEMI then cb_read True d else (True, cb_ext d a, d))"

section \<open>Commands\<close>

text \<open>Block transfers end with the first error.\<close>

fun cb_wblk :: "u16 \<Rightarrow> u16 \<Rightarrow> u16 list \<Rightarrow> cpport \<Rightarrow> nat \<times> cpport" where
  "cb_wblk base a [] d = (0, d)"
| "cb_wblk base a (w # ws) d =
     (let (ok, d1) = cb_wreg base a w d
      in if ok then (let (n, d2) = cb_wblk base a ws d1 in (n + 1, d2)) else (0, d1))"

fun cb_rblk :: "u16 \<Rightarrow> u16 \<Rightarrow> nat \<Rightarrow> cpport \<Rightarrow> u16 list \<times> cpport" where
  "cb_rblk base a 0 d = ([], d)"
| "cb_rblk base a (Suc n) d =
     (let (ok, w, d1) = cb_rreg base a d
      in if ok then (let (ws, d2) = cb_rblk base a n d1 in (w # ws, d2)) else ([], d1))"

definition cb_stat :: "bool \<Rightarrow> u8" where
  "cb_stat ok = (if ok then 0 else kStat_M_RbErr)"

definition cb_cmd :: "u16 \<Rightarrow> command \<Rightarrow> cpport \<Rightarrow> command \<times> cpport" where
  "cb_cmd base c d =
     (if Command c = kCmdWreg then
        (let (ok, d1) = cb_wreg base (cmd_fAddress c) (cmd_fData c) d in (SetStatus (cb_stat ok) c, d1))
      else if Command c = kCmdRreg then
        (let (ok, w, d1) = cb_rreg base (cmd_fAddress c) d in (SetStatus (cb_stat ok) (SetData w c), d1))
      else if Command c = kCmdWblk then
        (let (n, d1) = cb_wblk base (cmd_fAddress c) (take (BlockSize c) (BlockPointer c)) d
         in (SetStatus (cb_stat (n = BlockSize c)) (SetBlockDone (of_nat n) c), d1\<lparr>cb_babo := n \<noteq> BlockSize c\<rparr>))
      else if Command c = kCmdRblk then
        (let (ws, d1) = cb_rblk base (cmd_fAddress c) (BlockSize c) d
         in (SetStatus (cb_stat (length ws = BlockSize c)) (SetBlockDone (of_nat (length ws)) (put_block ws c)),
             d1\<lparr>cb_babo := length ws \<noteq> BlockSize c\<rparr>))
      else if Command c = kCmdLabo then (SetStatus (cb_stat True) (SetData (if cb_babo d then 1 else 0) c), d)
      else if Command c = kCmdAttn then (SetStatus (cb_stat True) (SetData (cb_lam d) c), d\<lparr>cb_lam := 0\<rparr>)
      else (c, d))"

fun cb_cmds :: "u16 \<Rightarrow> command list \<Rightarrow> cpport \<Rightarrow> command list \<times> cpport" where
  "cb_cmds base [] d = ([], d)"
| "cb_cmds base (c # cs) d =
     (let (c1, d1) = cb_cmd base c d
      in if Command c = kCmdLabo \<and> cmd_fData c1 \<noteq> 0
         then (c1 # map (cmd_SetFlagBit (kFlagDone OR kFlagLabo)) cs, d1)
         else (let (cs1, d2) = cb_cmds base cs d1 in (c1 # cs1, d2)))"

definition cb_exec :: "u16 \<Rightarrow> clist \<Rightarrow> cpport \<Rightarrow> (bool \<times> clist \<times> cpport) result" where
  "cb_exec base l d = (let (cs, d1) = cb_cmds base (cl_fList l) d in Inr (True, l\<lparr>cl_fList := cs\<rparr>, d1))"

definition cp_link :: "u16 \<Rightarrow> nat \<Rightarrow> nat \<Rightarrow> cpport link" where
  "cp_link base bmax bpr =
     \<lparr>lk_Exec = cb_exec base, lk_ConnExec = cb_exec base, lk_BlockSizeMax = (\<lambda>_. bmax), lk_BlockSizePrudent = (\<lambda>_. bpr),
      lk_AddrMapInsert = (\<lambda>_ _ d. d), lk_QueueAction = (\<lambda>_ d. Inr d), lk_AddAttnHandler = (\<lambda>_ _ _ d. Inr d)\<rparr>"

section \<open>Lemmas\<close>

definition wreg_cmd :: "u16 \<Rightarrow> u16 \<Rightarrow> command" where
  "wreg_cmd a w = cmd_new\<lparr>cmd_fRequest := kCmdWreg, cmd_fAddress := a, cmd_fData := w, cmd_fFlags := kFlagInit\<rparr>"

definition blk_cmd :: "u8 \<Rightarrow> u16 \<Rightarrow> u16 list \<Rightarrow> nat \<Rightarrow> command" where
  "blk_cmd code a b n = cmd_new\<lparr>cmd_fRequest := code, cmd_fAddress := a, cmd_fFlags := kFlagInit, cmd_fpBlockExt := Some b,
     cmd_fBlockExtSize := n\<rparr>"

lemma cl_AddWreg_eq: "cl_AddWreg a w l = Inr (length (cl_fList l), l\<lparr>cl_fList := cl_fList l @ [wreg_cmd a w]\<rparr>)"
  by (simp add: cl_AddWreg_def CmdWreg_def SetCommand_def cl_AddCommand_def wreg_cmd_def cmd_new_def rl_defs)

lemma cl_AddWblkExt_eq:
  "0 < n \<Longrightarrow> n \<le> 65535 \<Longrightarrow> cl_AddWblkExt a (Some b) n l = Inr (length (cl_fList l), l\<lparr>cl_fList := cl_fList l @ [blk_cmd kCmdWblk a b n]\<rparr>)"
  by (simp add: cl_AddWblkExt_def CmdWblkExt_def SetCommand_def SetBlockExt_def cl_AddCommand_def blk_cmd_def cmd_new_def rl_defs)

lemma cl_AddRblkExt_eq:
  "0 < n \<Longrightarrow> n \<le> 65535 \<Longrightarrow> cl_AddRblkExt a (Some b) n l = Inr (length (cl_fList l), l\<lparr>cl_fList := cl_fList l @ [blk_cmd kCmdRblk a b n]\<rparr>)"
  by (simp add: cl_AddRblkExt_def CmdRblkExt_def SetCommand_def SetBlockExt_def cl_AddCommand_def blk_cmd_def cmd_new_def rl_defs)

lemmas cl_Add_eqs = cl_AddWreg_eq cl_AddWblkExt_eq cl_AddRblkExt_eq

lemma cb_cmd_wreg: "cb_cmd base (wreg_cmd a w) d =
    (SetStatus (cb_stat (fst (cb_wreg base a w d))) (wreg_cmd a w), snd (cb_wreg base a w d))"
  by (simp add: cb_cmd_def Command_def wreg_cmd_def rl_defs split: prod.split)

lemma cb_cmd_wblk: "cb_cmd base (blk_cmd kCmdWblk a b n) d =
    (let (m, d1) = cb_wblk base a (take n b) d in (SetStatus (cb_stat (m = n)) (SetBlockDone (of_nat m) (blk_cmd kCmdWblk a b n)),
      d1\<lparr>cb_babo := m \<noteq> n\<rparr>))"
  by (simp add: cb_cmd_def Command_def blk_cmd_def BlockSize_def BlockPointer_def HasBlockExt_def rl_defs)

lemma cb_cmd_rblk: "cb_cmd base (blk_cmd kCmdRblk a b n) d =
    (let (ws, d1) = cb_rblk base a n d
     in (SetStatus (cb_stat (length ws = n)) (SetBlockDone (of_nat (length ws)) (put_block ws (blk_cmd kCmdRblk a b n))),
         d1\<lparr>cb_babo := length ws \<noteq> n\<rparr>))"
  by (simp add: cb_cmd_def Command_def blk_cmd_def BlockSize_def HasBlockExt_def rl_defs)

lemma Command_blk [simp]: "Command (wreg_cmd a w) = kCmdWreg" "Command (blk_cmd kCmdWblk a b n) = kCmdWblk"
    "Command (blk_cmd kCmdRblk a b n) = kCmdRblk" "kCmdWreg \<noteq> kCmdLabo" "kCmdWblk \<noteq> kCmdLabo" "kCmdRblk \<noteq> kCmdLabo"
  by (simp_all add: Command_def wreg_cmd_def blk_cmd_def rl_defs)

text \<open>What a port that is ready for word access does with a run of words at one address.\<close>

definition word_mode :: "cpport \<Rightarrow> bool" where
  "word_mode d = (cb_be0 d \<and> cb_be1 d \<and> \<not> cb_stick d)"

definition wr_words :: "nat \<Rightarrow> u16 list \<Rightarrow> (nat \<Rightarrow> u8) \<Rightarrow> nat \<Rightarrow> u8" where
  "wr_words a ws m = (\<lambda>i. if a \<le> i \<and> i < a + 2 * length ws then bytes16 ws ! (i - a) else m i)"

definition rd_words :: "nat \<Rightarrow> nat \<Rightarrow> (nat \<Rightarrow> u8) \<Rightarrow> u16 list" where
  "rd_words a n m = map (\<lambda>j. mk16 (m (a + 2 * j)) (m (a + 2 * j + 1))) [0..<n]"

text \<open>\<open>in_mem d n\<close>: the next \<open>n\<close> words from the current address are memory.\<close>

definition in_mem :: "cpport \<Rightarrow> nat \<Rightarrow> bool" where
  "in_mem d n = (\<not> (cb_ubmap d \<and> cb_mmuub d) \<and> 2 * (cb_addr d + n) \<le> (if cb_22bit d then io22 else io16) \<and> 2 * (cb_addr d + n) \<le> cb_size d)"

lemma in_mem_ea: "in_mem d n \<Longrightarrow> cb_ea d = cb_addr d"
  by (auto simp: in_mem_def cb_ea_def io16_def)

lemma in_mem_is_mem: "in_mem d n \<Longrightarrow> 0 < n \<Longrightarrow> cb_is_mem d"
  using in_mem_ea [of d n] by (auto simp: in_mem_def cb_is_mem_def split: if_splits)

lemma in_mem_lim: "in_mem d n \<Longrightarrow> cb_addr d + n < 2 ^ 21"
  by (auto simp: in_mem_def io16_def io22_def split: if_splits)

lemma wr_words_Nil [simp]: "wr_words a [] m = m"
  by (rule ext) (auto simp: wr_words_def)

lemma wr_words_Cons:
  "wr_words (a + 2) ws (\<lambda>i. if i = a then lo8 w else if i = a + 1 then hi8 w else m i) = wr_words a (w # ws) m"
proof
  fix i
  consider "i < a" | "i = a" | "i = a + 1" | "a + 2 \<le> i" by linarith
  then show "wr_words (a + 2) ws (\<lambda>i. if i = a then lo8 w else if i = a + 1 then hi8 w else m i) i = wr_words a (w # ws) m i"
  proof cases
    case 4
    then obtain j where "i = a + 2 + j"
      using le_Suc_ex by blast
    then show ?thesis
      by (simp add: wr_words_def)
  qed (simp_all add: wr_words_def)
qed

lemma cb_wblk_ok:
  assumes "word_mode d" and "in_mem d (length ws)"
  shows "cb_wblk base (base + kCPMEMI) ws d =
    (length ws, d\<lparr>cb_mem := wr_words (2 * cb_addr d) ws (cb_mem d), cb_addr := cb_addr d + length ws\<rparr>)"
  using assms
proof (induction ws arbitrary: d)
  case Nil
  then show ?case
    by simp
next
  case (Cons w ws)
  let ?m = "\<lambda>i. if i = 2 * cb_addr d then lo8 w else if i = 2 * cb_addr d + 1 then hi8 w else cb_mem d i"
  let ?d = "d\<lparr>cb_mem := ?m, cb_addr := cb_addr d + 1\<rparr>"
  have m: "cb_is_mem d" and lim: "cb_addr d + 1 < 2 ^ 21"
    using in_mem_is_mem [OF Cons.prems(2)] in_mem_lim [OF Cons.prems(2)] by auto
  have "cb_store w d = ?m"
    using Cons.prems(1) by (auto simp: cb_store_def word_mode_def in_mem_ea [OF Cons.prems(2)])
  then have step: "cb_wreg base (base + kCPMEMI) w d = (True, ?d)"
    using m lim Cons.prems(1) by (simp add: cb_wreg_def cpu_defs cb_write_def Let_def word_mode_def)
  have "word_mode ?d" "in_mem ?d (length ws)"
    using Cons.prems by (auto simp: word_mode_def in_mem_def)
  from Cons.IH [OF this] show ?case
    using wr_words_Cons [of "2 * cb_addr d" ws w "cb_mem d"] by (simp add: step)
qed

lemma cb_rblk_ok:
  assumes "in_mem d n"
  shows "cb_rblk base (base + kCPMEMI) n d = (rd_words (2 * cb_addr d) n (cb_mem d), d\<lparr>cb_addr := cb_addr d + n\<rparr>)"
  using assms
proof (induction n arbitrary: d)
  case 0
  then show ?case
    by (simp add: rd_words_def)
next
  case (Suc n)
  let ?d = "d\<lparr>cb_addr := cb_addr d + 1\<rparr>"
  have m: "cb_is_mem d" and lim: "cb_addr d + 1 < 2 ^ 21"
    using in_mem_is_mem [OF Suc.prems] in_mem_lim [OF Suc.prems] by auto
  have step: "cb_rreg base (base + kCPMEMI) d = (True, mk16 (cb_mem d (2 * cb_addr d)) (cb_mem d (2 * cb_addr d + 1)), ?d)"
    using m lim by (simp add: cb_rreg_def cpu_defs cb_read_def in_mem_ea [OF Suc.prems])
  have "in_mem ?d n"
    using Suc.prems by (auto simp: in_mem_def)
  moreover have "rd_words a (Suc n) mm = mk16 (mm a) (mm (a + 1)) # rd_words (a + 2) n mm" for a mm
    by (simp add: rd_words_def upt_conv_Cons map_Suc_upt [symmetric] del: upt_Suc)
  ultimately show ?case
    using Suc.IH [of ?d] by (simp add: step)
qed

end
