(* ===== verification/Rw11CpuMem.thy ===== *)
theory Rw11CpuMem
  imports Rw11CpPort
begin

text \<open>
  Memory access of \<open>Rw11Cpu\<close> with the control port of \<open>Rw11CpPort\<close> at the far end: reading and writing
  in blocks of any size, and single bytes.
\<close>

section \<open>Words\<close>

lemma wr_words_append:
  "wr_words (a + 2 * length us) vs (wr_words a us m) = wr_words a (us @ vs) m"
  by (rule ext) (auto simp: wr_words_def nth_append)

lemma rd_words_append: "rd_words a (n + m) mm = rd_words a n mm @ rd_words (a + 2 * n) m mm"
  by (rule nth_equalityI) (auto simp: rd_words_def nth_append algebra_simps)

lemma length_rd_words [simp]: "length (rd_words a n m) = n"
  by (simp add: rd_words_def)

lemma bytes16_nth: "j < length ws \<Longrightarrow> bytes16 ws ! (2 * j) = lo8 (ws ! j) \<and> bytes16 ws ! (2 * j + 1) = hi8 (ws ! j)"
  by (induction ws arbitrary: j) (auto simp: nth_Cons split: nat.split)

lemma rd_wr_words: "rd_words a (length ws) (wr_words a ws m) = ws"
  by (rule nth_equalityI) (use bytes16_nth in \<open>auto simp: rd_words_def wr_words_def\<close>)

section \<open>Blocks\<close>

definition bpr_ok :: "nat \<Rightarrow> bool" where
  "bpr_ok n = (0 < n \<and> n \<le> 65535)"

text \<open>The memory that \<open>MemRead\<close> and \<open>MemWrite\<close> reach lies below the I/O page of a 16 bit address.\<close>

definition in_low :: "u16 \<Rightarrow> nat \<Rightarrow> cpport \<Rightarrow> bool" where
  "in_low addr n d = (even (unat addr) \<and> unat addr + 2 * n \<le> io16 \<and> unat addr + 2 * n \<le> cb_size d)"

definition mem_upd :: "(nat \<Rightarrow> u8) \<Rightarrow> cpport \<Rightarrow> cpport \<Rightarrow> bool" where
  "mem_upd m d d' =
     (cb_mem d' = m \<and> cb_size d' = cb_size d \<and> cb_mmuub d' = cb_mmuub d \<and> cb_ext d' = cb_ext d \<and> cb_lam d' = cb_lam d \<and>
      cb_log d' = cb_log d \<and> word_mode d')"

lemma al_addr:
  assumes "in_low addr n d" and "k \<le> n"
  shows "unat (addr + of_nat (2 * k)) = unat addr + 2 * k"
proof -
  have "unat addr + 2 * k < 2 ^ 16"
    using assms by (auto simp: in_low_def io16_def)
  then show ?thesis
    by (simp add: unat_word_ariths unat_of_nat)
qed

lemma wreg_al: "cb_wreg base (base + kCPAL) w d = (True, d\<lparr>cb_addr := unat w div 2, cb_22bit := False, cb_ubmap := False\<rparr>)"
  by (simp add: cb_wreg_def)

lemma exec_al_wblk:
  assumes "word_mode d" and "even (unat w)" and "unat w + 2 * n \<le> io16" and "unat w + 2 * n \<le> cb_size d" and "n \<le> length ws"
  shows "\<exists>l' d'. cb_exec base (clist_new\<lparr>cl_fList := [wreg_cmd (base + kCPAL) w, blk_cmd kCmdWblk (base + kCPMEMI) ws n]\<rparr>) d
    = Inr (True, l', d') \<and> mem_upd (wr_words (unat w) (take n ws) (cb_mem d)) d d'"
proof -
  let ?d = "d\<lparr>cb_addr := unat w div 2, cb_22bit := False, cb_ubmap := False\<rparr>"
  have w: "word_mode ?d" "in_mem ?d (length (take n ws))"
    using assms by (auto simp: word_mode_def in_mem_def algebra_simps)
  from cb_wblk_ok [OF w] show ?thesis
    using assms by (auto simp: cb_exec_def cb_cmd_wreg cb_cmd_wblk wreg_al mem_upd_def word_mode_def)
qed

lemma mem_write_loop_ok:
  assumes "bpr_ok b" and "word_mode d" and "in_low addr (length data) d" and "n \<le> length data"
  shows "\<exists>d'. mem_write_loop (cp_link (cp_fBase p) bm b) b addr n data p d = Inr (True, d') \<and>
    mem_upd (wr_words (unat addr + 2 * n) (drop n data) (cb_mem d)) d d'"
  using assms(2-)
proof (induction "length data - n" arbitrary: n d rule: less_induct)
  case less
  show ?case
  proof (cases "n = length data")
    case True
    then show ?thesis
      using less.prems by (subst mem_write_loop.simps) (simp add: mem_upd_def)
  next
    case False
    let ?k = "min b (length data - n)"
    let ?w = "addr + of_nat (2 * n)"
    have k: "0 < ?k" "?k \<le> 65535" "?k \<le> length (drop n data)"
      using assms(1) False less.prems(3) by (auto simp: bpr_ok_def)
    have w: "unat ?w = unat addr + 2 * n"
      using al_addr [OF less.prems(2,3)] .
    have "even (unat ?w)" "unat ?w + 2 * ?k \<le> io16" "unat ?w + 2 * ?k \<le> cb_size d"
      using less.prems(2,3) unfolding w by (auto simp: in_low_def)
    from exec_al_wblk [OF less.prems(1) this k(3), of "cp_fBase p"] obtain l' d1 where
      e: "cb_exec (cp_fBase p) (clist_new\<lparr>cl_fList := [wreg_cmd (cp_fBase p + kCPAL) ?w, blk_cmd kCmdWblk (cp_fBase p + kCPMEMI) (drop n data) ?k]\<rparr>) d
        = Inr (True, l', d1)" and u: "mem_upd (wr_words (unat addr + 2 * n) (take ?k (drop n data)) (cb_mem d)) d d1"
      unfolding w by blast
    have "word_mode d1" "in_low addr (length data) d1"
      using u less.prems(2) by (auto simp: mem_upd_def in_low_def)
    moreover have "length data - (n + ?k) < length data - n" "n + ?k \<le> length data"
      using k by auto
    ultimately obtain d' where d': "mem_write_loop (cp_link (cp_fBase p) bm b) b addr (n + ?k) data p d1 = Inr (True, d')"
      "mem_upd (wr_words (unat addr + 2 * (n + ?k)) (drop (n + ?k) data) (cb_mem d1)) d1 d'"
      using less.hyps by blast
    have "wr_words (unat addr + 2 * (n + ?k)) (drop (n + ?k) data) (cb_mem d1) = wr_words (unat addr + 2 * n) (drop n data) (cb_mem d)"
      using u wr_words_append [of "unat addr + 2 * n" "take ?k (drop n data)" "drop (n + ?k) data" "cb_mem d"] k(3)
      by (simp add: mem_upd_def algebra_simps append_take_drop_id [of ?k "drop n data", simplified drop_drop add.commute])
    then have "mem_upd (wr_words (unat addr + 2 * n) (drop n data) (cb_mem d)) d d'"
      using d'(2) u by (simp add: mem_upd_def)
    then show ?thesis
      using d'(1) e k False less.prems(3) by (subst mem_write_loop.simps) (simp add: cl_Add_eqs cp_link_def clist_new_def Let_def)
  qed
qed

lemma MemWrite_ok:
  assumes "bpr_ok b" and "word_mode d" and "in_low addr (length data) d"
  shows "\<exists>d'. MemWrite (cp_link (cp_fBase p) bm b) addr data p d = Inr (True, d') \<and>
    mem_upd (wr_words (unat addr) data (cb_mem d)) d d'"
  using mem_write_loop_ok [OF assms, of 0 p bm] by (simp add: MemWrite_def cp_link_def)

lemma BlockPointer_read:
  "BlockPointer (put_block ws (blk_cmd c a b n)) = ws @ drop (length ws) b"
  by (simp add: BlockPointer_def put_block_def blk_cmd_def)

lemma chunk_less: "0 < k \<Longrightarrow> k \<le> m - n \<Longrightarrow> m - (n + k) < m - n \<and> n + k \<le> (m :: nat)"
  by arith

lemma chunk_add: "k \<le> m - n \<Longrightarrow> k + (m - (n + k)) = m - (n :: nat)"
  by arith

lemma exec_al_rblk:
  assumes "even (unat w)" and "unat w + 2 * n \<le> io16" and "unat w + 2 * n \<le> cb_size d" and "word_mode d"
  shows "\<exists>l' d' c. cb_exec base (clist_new\<lparr>cl_fList := [wreg_cmd (base + kCPAL) w, blk_cmd kCmdRblk (base + kCPMEMI) ws n]\<rparr>) d
    = Inr (True, l', d') \<and> mem_upd (cb_mem d) d d' \<and> cl_at 1 l' = Inr c \<and>
      BlockPointer c = rd_words (unat w) n (cb_mem d) @ drop n ws"
proof -
  let ?d = "d\<lparr>cb_addr := unat w div 2, cb_22bit := False, cb_ubmap := False\<rparr>"
  have "in_mem ?d n"
    using assms by (auto simp: in_mem_def algebra_simps)
  from cb_rblk_ok [OF this] show ?thesis
    using assms(1,4)
    by (auto simp: cb_exec_def cb_cmd_wreg cb_cmd_rblk wreg_al mem_upd_def word_mode_def cl_at_def BlockPointer_read)
qed

lemma mem_read_loop_ok:
  assumes "bpr_ok b" and "word_mode d" and "in_low addr nword d" and "length data = nword" and "n \<le> nword"
  shows "\<exists>d'. mem_read_loop (cp_link (cp_fBase p) bm b) b addr nword n data p d =
      Inr (True, take n data @ rd_words (unat addr + 2 * n) (nword - n) (cb_mem d), d') \<and> mem_upd (cb_mem d) d d'"
  using assms(2-)
proof (induction "nword - n" arbitrary: n d data rule: less_induct)
  case less
  show ?case
  proof (cases "n = nword")
    case True
    then show ?thesis
      using less.prems by (subst mem_read_loop.simps) (simp add: mem_upd_def rd_words_def)
  next
    case False
    let ?k = "min b (nword - n)"
    let ?w = "addr + of_nat (2 * n)"
    have k: "0 < ?k" "?k \<le> 65535" "?k \<le> nword - n"
      using assms(1) False less.prems(4) by (auto simp: bpr_ok_def)
    have w: "unat ?w = unat addr + 2 * n"
      using al_addr [OF less.prems(2,4)] .
    have "even (unat ?w)" "unat ?w + 2 * ?k \<le> io16" "unat ?w + 2 * ?k \<le> cb_size d"
      using less.prems(2,4) unfolding w by (auto simp: in_low_def)
    from exec_al_rblk [OF this less.prems(1), of "cp_fBase p" "drop n data"] obtain l' d1 c where
      e: "cb_exec (cp_fBase p) (clist_new\<lparr>cl_fList := [wreg_cmd (cp_fBase p + kCPAL) ?w, blk_cmd kCmdRblk (cp_fBase p + kCPMEMI) (drop n data) ?k]\<rparr>) d
        = Inr (True, l', d1)" and u: "mem_upd (cb_mem d) d d1" and c: "cl_at 1 l' = Inr c"
        "BlockPointer c = rd_words (unat addr + 2 * n) ?k (cb_mem d) @ drop ?k (drop n data)"
      unfolding w by blast
    define data1 where "data1 = take n data @ BlockPointer c"
    have d1: "word_mode d1" "in_low addr nword d1" "length data1 = nword"
      using u less.prems k(3) c(2) by (auto simp: mem_upd_def in_low_def data1_def)
    moreover have "nword - (n + ?k) < nword - n" "n + ?k \<le> nword"
      using chunk_less [OF k(1,3)] by simp_all
    ultimately obtain d' where d': "mem_read_loop (cp_link (cp_fBase p) bm b) b addr nword (n + ?k) data1 p d1 =
      Inr (True, take (n + ?k) data1 @ rd_words (unat addr + 2 * (n + ?k)) (nword - (n + ?k)) (cb_mem d1), d')" "mem_upd (cb_mem d1) d1 d'"
      using less.hyps by blast
    have "take (n + ?k) data1 = take n data @ rd_words (unat addr + 2 * n) ?k (cb_mem d)"
      using less.prems(3,4) k(3) c(2) by (simp add: data1_def)
    moreover have "rd_words (unat addr + 2 * n) ?k (cb_mem d) @ rd_words (unat addr + 2 * (n + ?k)) (nword - (n + ?k)) (cb_mem d)
        = rd_words (unat addr + 2 * n) (nword - n) (cb_mem d)"
      using rd_words_append [of "unat addr + 2 * n" ?k "nword - (n + ?k)" "cb_mem d"] chunk_add [OF k(3)]
      by (simp add: algebra_simps)
    ultimately have "take (n + ?k) data1 @ rd_words (unat addr + 2 * (n + ?k)) (nword - (n + ?k)) (cb_mem d1)
        = take n data @ rd_words (unat addr + 2 * n) (nword - n) (cb_mem d)"
      using u by (simp add: mem_upd_def)
    with d' u have "mem_read_loop (cp_link (cp_fBase p) bm b) b addr nword (n + ?k) data1 p d1 =
      Inr (True, take n data @ rd_words (unat addr + 2 * n) (nword - n) (cb_mem d), d')" "mem_upd (cb_mem d) d d'"
      by (simp_all add: mem_upd_def)
    then show ?thesis
      using e c(1) k False less.prems(4)
      by (subst mem_read_loop.simps) (simp add: cl_Add_eqs cp_link_def clist_new_def Let_def data1_def [symmetric])
  qed
qed

lemma MemRead_ok:
  assumes "bpr_ok b" and "word_mode d" and "in_low addr nword d"
  shows "\<exists>d'. MemRead (cp_link (cp_fBase p) bm b) addr data nword p d =
      Inr (True, rd_words (unat addr) nword (cb_mem d), d') \<and> mem_upd (cb_mem d) d d'"
  using mem_read_loop_ok [OF assms, of "take nword data @ replicate (nword - length data) 0" 0 p bm]
  by (simp add: MemRead_def cp_link_def)

section \<open>Single bytes\<close>

lemma bit_3ffffe: "bit (0x3ffffe :: int) i \<longleftrightarrow> 1 \<le> i \<and> i < 22"
proof -
  have e: "(0x3ffffe :: int) = push_bit 1 (mask 21)"
    by (simp add: mask_eq_exp_minus_1)
  show ?thesis
    unfolding e by (simp only: bit_push_bit_iff bit_mask_iff) auto
qed

lemma bit_lim: "unat (a :: 'a :: len word) < 2 ^ n \<Longrightarrow> bit a i \<Longrightarrow> i < n"
proof -
  assume l: "unat a < 2 ^ n" and b: "bit a i"
  have "bit (unat a) i"
    using b by (simp add: bit_unsigned_iff bit_imp_le_length)
  moreover have "take_bit n (unat a) = unat a"
    using l by (simp add: take_bit_nat_eq_self)
  ultimately show "i < n"
    by (metis bit_take_bit_iff)
qed

lemma bit_1fffff: "bit (0x1fffff :: int) i \<longleftrightarrow> i < 21"
proof -
  have e: "(0x1fffff :: int) = mask 21"
    by (simp add: mask_eq_exp_minus_1)
  show ?thesis
    unfolding e by (simp add: bit_mask_iff del: mask_numeral)
qed

lemma bit_3f: "bit (0x3f :: int) i \<longleftrightarrow> i < 6"
proof -
  have e: "(0x3f :: int) = mask 6"
    by (simp add: mask_eq_exp_minus_1)
  show ?thesis
    unfolding e by (simp add: bit_mask_iff del: mask_numeral)
qed

lemma bit_40: "bit (0x40 :: int) i \<longleftrightarrow> i = 6"
proof -
  have e: "(0x40 :: int) = push_bit 6 1"
    by simp
  show ?thesis
    unfolding e by (simp only: bit_push_bit_iff bit_1_iff) auto
qed

lemma unat_ucast32: "unat (ucast (a :: u16) :: u32) = unat a"
proof -
  have "unat a < 2 ^ LENGTH(16)"
    by (rule unsigned_less)
  then show ?thesis
    by (simp add: unsigned_ucast_eq take_bit_nat_eq_self)
qed

lemma bit_ffff: "bit (0xffff :: int) i \<longleftrightarrow> i < 16"
proof -
  have e: "(0xffff :: int) = mask 16"
    by (simp add: mask_eq_exp_minus_1)
  show ?thesis
    unfolding e by (simp add: bit_mask_iff del: mask_numeral)
qed

lemma unat_not16: "unat (NOT (w :: u16)) = 2 ^ 16 - 1 - unat w"
proof -
  have "unat (- 1 - w) = unat (- 1 :: u16) - unat w"
    by (rule unat_sub) simp
  moreover have "unat (- 1 :: u16) = 2 ^ 16 - 1"
    by (simp add: unsigned_minus_1_eq_mask mask_eq_exp_minus_1)
  ultimately show ?thesis
    unfolding not_eq_complement minus_diff_commute [of w 1] by simp
qed

lemma bit_c0: "bit (0xc0 :: int) i \<longleftrightarrow> i = 6 \<or> i = 7"
proof -
  have e: "(0xc0 :: int) = push_bit 6 (mask 2)"
    by (simp add: mask_eq_exp_minus_1)
  show ?thesis
    unfolding e by (simp only: bit_push_bit_iff bit_mask_iff) auto
qed

lemma al_low: "take_bit 15 (unat (addr_al (a AND 0x3ffffe)) div 2) = take_bit 15 (unat a div 2)"
proof -
  have h: "x div 2 = drop_bit 1 x" for x :: nat
    by (simp add: drop_bit_eq_div)
  show ?thesis
    unfolding h by (rule bit_eqI) (auto simp: addr_al_def bit_simps bit_3ffffe bit_1fffff)
qed

lemma ah_high:
  assumes "unat (a :: u32) < 2 ^ 22"
  shows "unat (addr_ah (a AND 0x3ffffe) m AND 0x3f) = unat a div 2 ^ 16"
proof -
  have w: "bit (addr_ah (a AND 0x3ffffe) m AND 0x3f) i = bit (ucast (drop_bit 16 a) :: u16) i" if "i < 16" for i
    using that bit_lim [OF assms, of "i + 16"]
    by (auto simp: addr_ah_def cpu_defs bit_simps bit_3ffffe bit_3f bit_40 bit_c0 add.commute)
  have e: "addr_ah (a AND 0x3ffffe) m AND 0x3f = ucast (drop_bit 16 a)"
    by (rule bit_word_eqI) (simp add: w)
  have "unat a div 2 ^ 16 < 2 ^ 16"
    using assms by simp
  then show ?thesis
    unfolding e by (simp add: unat_div drop_bit_eq_div unsigned_ucast_eq take_bit_nat_eq_self)
qed

lemma ah_flags: "bit (addr_ah a m) 6 = bit m 6" "bit (addr_ah a m) 7 = bit m 7"
  by (simp_all add: addr_ah_def cpu_defs bit_simps bit_3f bit_40 bit_c0)

lemma mode22: "bit kCPAH_M_22BIT 6" "\<not> bit kCPAH_M_22BIT 7"
  by (simp_all add: cpu_defs bit_simps bit_40)

lemma lalh_addr:
  assumes "unat (a :: u32) < 2 ^ 22"
  shows "unat (addr_al (a AND 0x3ffffe)) div 2 mod 2 ^ 15 + 2 ^ 15 * unat (addr_ah (a AND 0x3ffffe) m AND 0x3f) = unat a div 2"
proof -
  have "unat a div 2 mod 2 ^ 15 + 2 ^ 15 * (unat a div 2 div 2 ^ 15) = unat a div 2"
    by (rule mod_mult_div_eq)
  moreover have "unat a div 2 div 2 ^ 15 = unat a div 2 ^ 16"
    by (simp add: div_mult2_eq [symmetric])
  ultimately have "unat a div 2 mod 2 ^ 15 + 2 ^ 15 * (unat a div 2 ^ 16) = unat a div 2"
    by metis
  then show ?thesis
    using al_low [of a] ah_high [OF assms] by (simp add: take_bit_eq_mod)
qed

lemma odd_unat: "odd (unat (a :: 'a :: len word)) = odd a"
  by (simp add: bit_unsigned_iff flip: bit_0)

lemma odd_and_one: "(a AND 1 \<noteq> (0 :: u32)) = odd (unat a)"
  by (simp add: odd_unat and_one_eq mod_2_eq_odd)

lemma MemWriteByte_ok:
  assumes "word_mode d" and "a < cp_fMemSize p" and "unat a < io22" and "unat a < cb_size d"
  shows "\<exists>d'. MemWriteByte (cp_link (cp_fBase p) bm b) a byte p d = Inr (True, d') \<and> mem_upd ((cb_mem d)(unat a := byte)) d d'"
proof -
  let ?al = "addr_al (a AND 0x3ffffe)" and ?ah = "addr_ah (a AND 0x3ffffe) kCPAH_M_22BIT"
  let ?d1 = "d\<lparr>cb_addr := unat ?al div 2, cb_22bit := False, cb_ubmap := False\<rparr>"
  let ?d2 = "d\<lparr>cb_addr := unat a div 2, cb_22bit := True, cb_ubmap := False\<rparr>"
  let ?d3 = "?d2\<lparr>cb_be0 := even (unat a), cb_be1 := odd (unat a), cb_stick := False\<rparr>"
  let ?w = "push_bit 8 (ucast byte) OR ucast byte :: u16"
  let ?be = "(if a AND 1 \<noteq> 0 then kCPMEMBE_M_BE1 else kCPMEMBE_M_BE0)"
  let ?base = "cp_fBase p"
  have s1: "cb_wreg ?base (?base + kCPAL) ?al d = (True, ?d1)"
    by (rule wreg_al)
  have s2: "cb_wreg ?base (?base + kCPAH) ?ah ?d1 = (True, ?d2)"
    using lalh_addr [of a kCPAH_M_22BIT] assms(3) ah_flags mode22 by (simp add: cb_wreg_def kCPAH_def kCPAL_def io22_def)
  have s3: "cb_wreg ?base (?base + kCPMEMBE) (?be AND kCPMEMBE_M_BE) ?d2 = (True, ?d3)"
    by (simp add: cb_wreg_def cpu_defs odd_and_one)
  have w: "?w = mk16 byte byte"
    by (simp add: mk16_def or.commute)
  have m: "cb_is_mem ?d3"
    using assms(3,4) by (simp add: cb_is_mem_def cb_ea_def) linarith
  have "cb_store ?w ?d3 = (cb_mem d)(unat a := byte)"
    unfolding w by (cases "even (unat a)") (auto simp: cb_store_def cb_ea_def fun_eq_iff elim!: oddE)
  then have s4: "cb_wreg ?base (?base + kCPMEM) ?w ?d3 = (True, ?d3\<lparr>cb_mem := (cb_mem d)(unat a := byte), cb_be0 := True, cb_be1 := True\<rparr>)"
    using m by (simp add: cb_wreg_def cpu_defs cb_write_def Let_def)
  show ?thesis
    using assms(1,2) s1 s2 s3 s4
    by (auto simp: MemWriteByte_def AddLalh_def AddMembe_def cl_Add_eqs cp_link_def cb_exec_def cb_cmd_wreg clist_new_def mem_upd_def
        word_mode_def Let_def not_le)
qed

section \<open>Write and read\<close>

text \<open>A cpu with 64 kByte of memory and a control port with cleared memory, for the examples.\<close>

definition demo_cpu :: cpu where
  "demo_cpu = (cpu_new ''w11a'')\<lparr>cp_fMemSize := 0x10000\<rparr>"

definition demo_port :: "nat \<Rightarrow> cpport" where
  "demo_port n = \<lparr>cb_addr = 0, cb_22bit = False, cb_ubmap = False, cb_be0 = True, cb_be1 = True, cb_stick = False,
     cb_mem = (\<lambda>_. 0), cb_size = n, cb_mmuub = False, cb_babo = False, cb_lam = 0, cb_ext = (\<lambda>_. 0), cb_log = []\<rparr>"

lemmas demo_simps = demo_cpu_def demo_port_def cpu_new_def word_mode_def bpr_ok_def io16_def io22_def

text \<open>C23: What \<open>MemWrite\<close> has written is what \<open>MemRead\<close> reads, with transfers cut into blocks of any size from 1 to 65535 words,
  and both report success: the words lie in memory as bytes, low byte first, no other byte is changed, and reading
  changes no byte at all.\<close>

theorem Mem_roundtrip:
  assumes "bpr_ok b" and "word_mode d" and "in_low addr (length ws) d"
  shows "\<exists>d1 d2. MemWrite (cp_link (cp_fBase p) bm b) addr ws p d = Inr (True, d1) \<and>
    MemRead (cp_link (cp_fBase p) bm b) addr buf (length ws) p d1 = Inr (True, ws, d2) \<and>
    cb_mem d1 = wr_words (unat addr) ws (cb_mem d) \<and> cb_mem d2 = cb_mem d1"
proof -
  obtain d1 where 1: "MemWrite (cp_link (cp_fBase p) bm b) addr ws p d = Inr (True, d1)" "mem_upd (wr_words (unat addr) ws (cb_mem d)) d d1"
    using MemWrite_ok [OF assms] by blast
  then have "word_mode d1" "in_low addr (length ws) d1"
    using assms(3) by (simp_all add: mem_upd_def in_low_def)
  from MemRead_ok [OF assms(1) this, of p bm buf] show ?thesis
    using 1 by (auto simp: mem_upd_def rd_wr_words)
qed

theorem Mem_roundtrip_witness:
  "\<exists>d1 d2. MemWrite (cp_link (cp_fBase demo_cpu) 100 2) 0x200 [1, 2, 3, 4, 5] demo_cpu (demo_port 0x10000) = Inr (True, d1) \<and>
    MemRead (cp_link (cp_fBase demo_cpu) 100 2) 0x200 [] (length [1, 2, 3, 4, 5 :: u16]) demo_cpu d1 = Inr (True, [1, 2, 3, 4, 5], d2) \<and>
    cb_mem d1 = wr_words (unat (0x200 :: u16)) [1, 2, 3, 4, 5] (cb_mem (demo_port 0x10000)) \<and> cb_mem d2 = cb_mem d1"
  by (rule Mem_roundtrip) (simp_all add: demo_simps in_low_def)

end
