(* ===== verification/Rw11DiskRep.thy ===== *)
theory Rw11DiskRep
  imports Rw11VirtDisk
begin

text \<open>
  The contract of the disks: every disk is an array of blocks. \<open>file_blk\<close>, \<open>over_blk\<close> and \<open>ram_blk\<close> say
  which array a disk in a file, with an overlay or in memory stands for; the locale \<open>block_disk\<close> has the
  laws of a read and a write, and the theorem on sequences of operations; the three disks are
  interpretations. The system calls are those that succeed (an empty script).
\<close>

section \<open>Blocks of a file\<close>

definition fbyte :: "u8 list \<Rightarrow> nat \<Rightarrow> u8" where
  "fbyte xs k = (if k < length xs then xs ! k else 0)"

definition blk_bytes :: "nat \<Rightarrow> nat \<Rightarrow> u8 list \<Rightarrow> u8 list" where
  "blk_bytes bs i ds = take bs (drop (i * bs) ds)"

definition fblk :: "nat \<Rightarrow> u8 list \<Rightarrow> nat \<Rightarrow> u8 list" where
  "fblk bs xs i = map (fbyte xs) [i * bs..<i * bs + bs]"

lemma length_fblk [simp]: "length (fblk bs xs i) = bs"
  by (simp add: fblk_def)

lemma fbyte_put_at:
  "fbyte (put_at off ds xs) k = (if off \<le> k \<and> k < off + length ds then ds ! (k - off) else fbyte xs k)"
  by (auto simp: fbyte_def put_at_def nth_append min_def)

lemma read_zero_fill:
  "take n (drop off xs) @ replicate (n - length (take n (drop off xs))) 0 = map (fbyte xs) [off..<off + n]"
  by (rule nth_equalityI) (auto simp: fbyte_def nth_append min_def)

lemma concat_fblk:
  "concat (map (fblk bs xs) [lba..<lba + n]) = map (fbyte xs) [bs * lba..<bs * lba + bs * n]"
proof (induction n)
  case (Suc n)
  have "[bs * lba..<bs * lba + bs * Suc n]
      = [bs * lba..<bs * lba + bs * n] @ [bs * lba + bs * n..<bs * lba + bs * n + bs]"
    using upt_add_eq_append [of "bs * lba" "bs * lba + bs * n" bs] by (simp add: algebra_simps)
  then show ?case
    using Suc by (simp add: fblk_def algebra_simps)
qed simp

lemma concat_blocks_Suc:
  "concat (map f [lba..<lba + Suc n]) = f lba @ concat (map f [Suc lba..<Suc lba + n])"
  using upt_conv_Cons [of lba "lba + Suc n"] by (simp del: upt_Suc)

lemma fblk_beyond:
  assumes "length xs \<le> bs * lba"
  shows "concat (map (fblk bs xs) [lba..<lba + n]) = replicate (bs * n) 0"
  using assms by (auto simp: concat_fblk fbyte_def intro!: nth_equalityI)

lemma fblk_put_at:
  assumes "length ds = n * bs"
  shows "fblk bs (put_at (bs * lba) ds xs) i
    = (if lba \<le> i \<and> i < lba + n then blk_bytes bs (i - lba) ds else fblk bs xs i)"
proof (cases "lba \<le> i \<and> i < lba + n")
  case True
  then obtain j where j: "i = lba + j" "j < n"
    by (metis add_less_cancel_left le_Suc_ex)
  have "Suc j * bs \<le> n * bs"
    using j by (intro mult_le_mono1) simp
  then have jn: "j * bs + bs \<le> n * bs"
    by simp
  show ?thesis
    using True j jn assms
    by (auto simp: fblk_def blk_bytes_def fbyte_put_at algebra_simps intro!: nth_equalityI)
next
  case False
  have "\<not> (bs * lba \<le> k \<and> k < bs * lba + n * bs)" if k: "i * bs \<le> k" "k < i * bs + bs" for k
  proof (cases "i < lba")
    case True
    then have "Suc i * bs \<le> lba * bs"
      by (intro mult_le_mono1) simp
    then show ?thesis
      using k by (simp add: algebra_simps)
  next
    case ge: False
    then have "(lba + n) * bs \<le> i * bs"
      using False by (intro mult_le_mono1) simp
    then show ?thesis
      using k by (simp add: algebra_simps)
  qed
  then have "fblk bs (put_at (bs * lba) ds xs) i = fblk bs xs i"
    using assms by (simp only: fblk_def) (rule map_cong, auto simp: fbyte_put_at)
  then show ?thesis
    using False by auto
qed

section \<open>Block maps\<close>

definition bm_inv :: "nat \<Rightarrow> bmap \<Rightarrow> bool" where
  "bm_inv bs m = (sorted_wrt (<) (map fst m) \<and> (\<forall>b \<in> set (map snd m). length (db_fBuf b) = bs))"

lemma bm_find_set [simp]: "bm_find k' (bm_set k b m) = (if k' = k then Some b else bm_find k' m)"
  by (induction k b m rule: bm_set.induct) (auto simp: bm_find_def)

lemma bm_set_keys: "set (map fst (bm_set k b m)) = insert k (set (map fst m))"
  by (induction k b m rule: bm_set.induct) auto

lemma bm_set_vals: "set (map snd (bm_set k b m)) \<subseteq> insert b (set (map snd m))"
  by (induction k b m rule: bm_set.induct) auto

lemma bm_set_inv:
  assumes "bm_inv bs m" and "length (db_fBuf b) = bs"
  shows "bm_inv bs (bm_set k b m)"
proof -
  have "sorted_wrt (<) (map fst (bm_set k b m))" if "sorted_wrt (<) (map fst m)"
    using that
  proof (induction k b m rule: bm_set.induct)
    case (2 k b k' b' m)
    have "\<forall>x \<in> set (map fst (bm_set k b m)). k' < x" if "\<not> k < k'" "k \<noteq> k'"
      using 2(2) that unfolding bm_set_keys by auto
    then show ?case
      using 2 by (auto simp del: set_map)
  qed simp
  then show ?thesis
    using assms bm_set_vals [of k b m] unfolding bm_inv_def by blast
qed

lemma bm_find_len: "bm_inv bs m \<Longrightarrow> bm_find k m = Some b \<Longrightarrow> length (db_fBuf b) = bs"
  by (force simp: bm_inv_def bm_find_def dest: map_of_SomeD)

lemma bm_write_inv:
  assumes "bm_inv bs m" and "bs \<le> length ds"
  shows "bm_inv bs (bm_write bs k ds m)"
  unfolding bm_write_def
  using assms by (intro bm_set_inv) (auto simp: dbuf_Write_def dbuf_new_def Let_def bm_find_len split: option.split)

lemma bm_find_write:
  assumes "bm_inv bs m"
  shows "map_option db_fBuf (bm_find k' (bm_write bs k ds m))
    = (if k' = k then Some (take bs ds) else map_option db_fBuf (bm_find k' m))"
  using assms by (auto simp: bm_write_def dbuf_Write_def dbuf_new_def Let_def bm_find_len split: option.split)

lemma lower_bound_none:
  assumes "bm_inv bs m" and "lower_bound k m = [] \<or> (\<exists>k0 b r. lower_bound k m = (k0, b) # r \<and> j < k0)" and "k \<le> j"
  shows "bm_find j m = None"
proof -
  have "\<forall>x \<in> set (map fst m). x < k \<or> j < x" using assms
  proof (induction m)
    case (Cons a m)
    show ?case
    proof (cases "fst a < k")
      case True
      then show ?thesis
        using Cons by (auto simp: lower_bound_def bm_inv_def split: prod.splits)
    next
      case False
      then show ?thesis
        using Cons by (auto simp: lower_bound_def bm_inv_def split: prod.splits)
    qed
  qed simp
  then show ?thesis
    using assms(3) by (auto simp: bm_find_def map_of_eq_None_iff)
qed

section \<open>The contract of a disk\<close>

text \<open>A disk is an array of blocks. \<open>arr_run\<close> gives the answers of such an array to a sequence of reads
  and writes, \<open>disk_run\<close> those of a disk with given read and write operations. Block numbers stay
  below \<open>2 ^ 32\<close>, the range of the keys of the block maps.\<close>

datatype dop = DRead nat nat | DWrite nat nat "u8 list"

fun arr_run :: "nat \<Rightarrow> dop list \<Rightarrow> (nat \<Rightarrow> u8 list) \<Rightarrow> (bool \<times> u8 list) list \<times> (nat \<Rightarrow> u8 list)" where
  "arr_run bs [] A = ([], A)"
| "arr_run bs (DRead lba n # ops) A =
     (let (os, A') = arr_run bs ops A in ((True, concat (map A [lba..<lba + n])) # os, A'))"
| "arr_run bs (DWrite lba n ds # ops) A =
     (let (os, A') = arr_run bs ops (\<lambda>i. if lba \<le> i \<and> i < lba + n then blk_bytes bs (i - lba) ds else A i)
      in ((True, []) # os, A'))"

fun disk_run ::
  "(nat \<Rightarrow> nat \<Rightarrow> 'd \<Rightarrow> (bool \<times> u8 list \<times> 'd) result) \<Rightarrow> (nat \<Rightarrow> nat \<Rightarrow> u8 list \<Rightarrow> 'd \<Rightarrow> bool \<times> 'd) \<Rightarrow>
   dop list \<Rightarrow> 'd \<Rightarrow> ((bool \<times> u8 list) list \<times> 'd) result" where
  "disk_run rd wr [] d = Inr ([], d)"
| "disk_run rd wr (DRead lba n # ops) d =
     ebind (rd lba n d) (\<lambda>(ok, ds, d1). ebind (disk_run rd wr ops d1) (\<lambda>(os, d2). Inr ((ok, ds) # os, d2)))"
| "disk_run rd wr (DWrite lba n ds # ops) d =
     (let (ok, d1) = wr lba n ds d in ebind (disk_run rd wr ops d1) (\<lambda>(os, d2). Inr ((ok, []) # os, d2)))"

definition dop_ok :: "nat \<Rightarrow> dop \<Rightarrow> bool" where
  "dop_ok bs op = (case op of DRead lba n \<Rightarrow> lba + n \<le> 2 ^ 32 | DWrite lba n ds \<Rightarrow> lba + n \<le> 2 ^ 32 \<and> length ds = n * bs)"

definition arr_eq :: "(nat \<Rightarrow> u8 list) \<Rightarrow> (nat \<Rightarrow> u8 list) \<Rightarrow> bool" where
  "arr_eq A B = (\<forall>i < 2 ^ 32. A i = B i)"

locale block_disk =
  fixes bs :: nat
    and inv :: "'d \<Rightarrow> bool"
    and blk :: "'d \<Rightarrow> nat \<Rightarrow> u8 list"
    and rd :: "nat \<Rightarrow> nat \<Rightarrow> 'd \<Rightarrow> (bool \<times> u8 list \<times> 'd) result"
    and wr :: "nat \<Rightarrow> nat \<Rightarrow> u8 list \<Rightarrow> 'd \<Rightarrow> bool \<times> 'd"
  assumes rd_blk: "inv d \<Longrightarrow> lba + n \<le> 2 ^ 32 \<Longrightarrow>
      \<exists>d'. rd lba n d = Inr (True, concat (map (blk d) [lba..<lba + n]), d') \<and> inv d' \<and> blk d' = blk d"
    and wr_blk: "inv d \<Longrightarrow> lba + n \<le> 2 ^ 32 \<Longrightarrow> length ds = n * bs \<Longrightarrow>
      \<exists>d'. wr lba n ds d = (True, d') \<and> inv d' \<and>
        arr_eq (blk d') (\<lambda>i. if lba \<le> i \<and> i < lba + n then blk_bytes bs (i - lba) ds else blk d i)"
begin

lemma run_refines:
  assumes "inv d" and "list_all (dop_ok bs) ops" and "arr_eq A (blk d)"
  shows "\<exists>d'. disk_run rd wr ops d = Inr (fst (arr_run bs ops A), d') \<and> inv d' \<and> arr_eq (snd (arr_run bs ops A)) (blk d')"
  using assms
proof (induction ops arbitrary: d A)
  case (Cons op ops)
  show ?case
  proof (cases op)
    case (DRead lba n)
    with Cons.prems have l: "lba + n \<le> 2 ^ 32"
      by (simp add: dop_ok_def)
    with rd_blk [OF Cons.prems(1)] obtain d1 where
      d1: "rd lba n d = Inr (True, concat (map (blk d) [lba..<lba + n]), d1)" "inv d1" "blk d1 = blk d"
      by blast
    have "concat (map A [lba..<lba + n]) = concat (map (blk d) [lba..<lba + n])"
      using Cons.prems(3) l by (intro arg_cong [where f = concat] map_cong) (auto simp: arr_eq_def)
    with d1 Cons.IH [of d1 A] Cons.prems show ?thesis
      by (auto simp: DRead split: prod.splits simp del: map_eq_conv)
  next
    case (DWrite lba n ds)
    with Cons.prems have l: "lba + n \<le> 2 ^ 32" "length ds = n * bs"
      by (simp_all add: dop_ok_def)
    let ?A = "\<lambda>i. if lba \<le> i \<and> i < lba + n then blk_bytes bs (i - lba) ds else A i"
    from wr_blk [OF Cons.prems(1) l] obtain d1 where
      d1: "wr lba n ds d = (True, d1)" "inv d1"
        "arr_eq (blk d1) (\<lambda>i. if lba \<le> i \<and> i < lba + n then blk_bytes bs (i - lba) ds else blk d i)"
      by blast
    have "arr_eq ?A (blk d1)"
      using d1(3) Cons.prems(3) by (auto simp: arr_eq_def)
    with d1 Cons.IH [of d1 ?A] Cons.prems show ?thesis
      by (auto simp: DWrite split: prod.splits)
  qed
qed simp

end

section \<open>A disk in a file\<close>

definition file_blk :: "nat \<Rightarrow> 'a diskfile_scheme \<Rightarrow> nat \<Rightarrow> u8 list" where
  "file_blk bs d = fblk bs (fl_data (df_fFd d))"

definition file_rdy :: "nat \<Rightarrow> 'a diskfile_scheme \<Rightarrow> bool" where
  "file_rdy bs d = (vd_fBlkSize d = bs \<and> fl_script (df_fFd d) = [] \<and> length (fl_data (df_fFd d)) \<le> df_fSize d)"

definition file_inv :: "nat \<Rightarrow> 'a diskfile_scheme \<Rightarrow> bool" where
  "file_inv bs d = (file_rdy bs d \<and> fl_writable (df_fFd d))"

lemma file_Read_ok:
  assumes "file_rdy bs d"
  shows "\<exists>st off. file_Read lba n d = (True, concat (map (file_blk bs d) [lba..<lba + n]),
           d\<lparr>vd_fStats := st, df_fFd := (df_fFd d)\<lparr>fl_off := off\<rparr>\<rparr>)"
proof (cases "df_fSize d \<le> bs * lba")
  case True
  then have "concat (map (file_blk bs d) [lba..<lba + n]) = replicate (bs * n) 0"
    using assms by (simp add: file_blk_def file_rdy_def fblk_beyond)
  then show ?thesis
    using True assms
    by (intro exI [of _ "stat_inc kStatNVDReadBlk n (stat_inc kStatNVDRead 1 (vd_fStats d))"] exI [of _ "fl_off (df_fFd d)"])
      (simp add: file_Read_def vd_inc_def file_rdy_def Let_def)
next
  case False
  then show ?thesis
    using assms read_zero_fill [of "bs * n" "bs * lba" "fl_data (df_fFd d)"]
    by (auto simp: file_Read_def vd_inc_def file_rdy_def file_blk_def Let_def fd_ok concat_fblk simp del: of_nat_mult)
qed

lemma file_Write_ok:
  assumes "file_inv bs d" and "length ds = n * bs"
  shows "\<exists>st off siz. file_Write lba n ds d =
      (True, d\<lparr>vd_fStats := st, df_fFd := (df_fFd d)\<lparr>fl_data := put_at (bs * lba) ds (fl_data (df_fFd d)), fl_off := off\<rparr>,
              df_fSize := siz\<rparr>) \<and> length (put_at (bs * lba) ds (fl_data (df_fFd d))) \<le> siz"
proof -
  have l: "length ds = bs * n"
    using assms by simp
  let ?siz = "if df_fSize d < bs * lba + bs * n then bs * lba + bs * n else df_fSize d"
  have "length (put_at (bs * lba) ds (fl_data (df_fFd d))) \<le> ?siz"
    using assms by (auto simp: file_inv_def file_rdy_def length_put_at algebra_simps)
  moreover have "file_Write lba n ds d =
      (True, d\<lparr>vd_fStats := stat_inc kStatNVDWriteBlk n (stat_inc kStatNVDWrite 1 (vd_fStats d)),
              df_fFd := (df_fFd d)\<lparr>fl_data := put_at (bs * lba) ds (fl_data (df_fFd d)), fl_off := bs * lba + bs * n\<rparr>,
              df_fSize := ?siz\<rparr>)"
    using assms l by (simp add: file_Write_def vd_inc_def file_rdy_def file_inv_def Let_def fd_ok del: of_nat_mult)
  ultimately show ?thesis
    by blast
qed

interpretation fdisk: block_disk bs "file_inv bs" "file_blk bs" "\<lambda>lba n d. Inr (file_Read lba n d)" file_Write for bs
proof (unfold_locales, goal_cases)
  case (1 d lba n)
  then show ?case
    using file_Read_ok [of bs d lba n] by (fastforce simp: file_inv_def file_rdy_def file_blk_def)
next
  case (2 d lba n ds)
  show ?case
    using 2 file_Write_ok [OF 2(1,3), of lba]
    by (auto simp: file_inv_def file_rdy_def file_blk_def arr_eq_def fblk_put_at [where n = n])
qed

section \<open>A disk with an overlay\<close>

definition over_blk :: "nat \<Rightarrow> 'a diskover_scheme \<Rightarrow> nat \<Rightarrow> u8 list" where
  "over_blk bs d i = (case bm_find (of_nat i) (do_fBlkMap d) of None \<Rightarrow> file_blk bs d i | Some b \<Rightarrow> db_fBuf b)"

text \<open>\<open>base\<close> is the contents of the file, and \<open>w\<close> says whether it can be written.\<close>

definition over_inv :: "nat \<Rightarrow> u8 list \<Rightarrow> bool \<Rightarrow> 'a diskover_scheme \<Rightarrow> bool" where
  "over_inv bs base w d =
     (file_rdy bs d \<and> bm_inv bs (do_fBlkMap d) \<and> fl_data (df_fFd d) = base \<and> (fl_writable (df_fFd d) \<and> \<not> vd_fWProt d) = w)"

definition over_same :: "'a diskover_scheme \<Rightarrow> 'a diskover_scheme \<Rightarrow> bool" where
  "over_same d d' = (\<exists>st off. d' = d\<lparr>vd_fStats := st, df_fFd := (df_fFd d)\<lparr>fl_off := off\<rparr>\<rparr>)"

lemma over_sameI [intro]: "over_same d (d\<lparr>vd_fStats := st, df_fFd := (df_fFd d)\<lparr>fl_off := off\<rparr>\<rparr>)"
  by (auto simp: over_same_def)

lemma over_same_inc [simp]: "over_same (vd_inc k n d) d' = over_same d d'"
  by (simp add: over_same_def vd_inc_def)

lemma file_blk_inc [simp]: "file_blk bs (vd_inc k n d) = file_blk bs d"
  by (simp add: file_blk_def vd_inc_def)

lemma do_fBlkMap_inc [simp]: "do_fBlkMap (vd_inc k n d) = do_fBlkMap d"
  by (simp add: vd_inc_def)

lemma over_same_trans: "over_same d d1 \<Longrightarrow> over_same d1 d2 \<Longrightarrow> over_same d d2"
  unfolding over_same_def by (elim exE, simp) blast

lemma over_same_refl: "over_same d d"
  unfolding over_same_def by (intro exI [of _ "vd_fStats d"] exI [of _ "fl_off (df_fFd d)"]) simp

lemma over_same_keeps:
  assumes "over_same d d'"
  shows "over_blk bs d' = over_blk bs d" "over_inv bs base w d' = over_inv bs base w d" "file_rdy bs d' = file_rdy bs d"
    "do_fBlkMap d' = do_fBlkMap d"
  using assms by (auto simp: over_same_def over_blk_def over_inv_def file_rdy_def file_blk_def fun_eq_iff split: option.split)

lemma over_same_inc_r: "over_same d (vd_inc k n d)"
  unfolding over_same_def by (intro exI [of _ "stat_inc k n (vd_fStats d)"] exI [of _ "fl_off (df_fFd d)"]) (simp add: vd_inc_def)

lemma over_read_loop_ok:
  assumes "file_rdy bs d" 
  shows "\<exists>d'. over_read_loop lba n d = (True, concat (map (over_blk bs d) [lba..<lba + n]), d') \<and> over_same d d'"
  using assms
proof (induction n arbitrary: lba d)
  case 0
  then show ?case
    by (simp add: over_same_refl)
next
  case (Suc n)
  note up = concat_blocks_Suc [of "over_blk bs d" lba n]
  show ?case
  proof (cases "bm_find (of_nat lba) (do_fBlkMap d)")
    case None
    let ?d = "vd_inc kStatNVDOReadBlkFP 1 d"
    have rdy: "file_rdy bs ?d"
      using Suc.prems by (simp add: over_same_keeps [OF over_same_inc_r])
    obtain d1 where r: "file_Read lba 1 ?d = (True, file_blk bs d lba, d1)" and s: "over_same d d1"
      using file_Read_ok [OF rdy, where lba = lba and n = 1] over_sameI [of ?d] by (fastforce simp: file_blk_inc)
    from Suc.IH [where d = d1 and lba = "Suc lba"] Suc.prems obtain d2 where
      "over_read_loop (Suc lba) n d1 = (True, concat (map (over_blk bs d) [Suc lba..<Suc lba + n]), d2)" "over_same d1 d2"
      by (auto simp: over_same_keeps [OF s])
    then have "over_read_loop lba (Suc n) d =
        (True, over_blk bs d lba @ concat (map (over_blk bs d) [Suc lba..<Suc lba + n]), d2)" "over_same d d2"
      using None r over_same_trans [OF s] by (simp_all add: over_blk_def [of bs d lba])
    then show ?thesis
      unfolding up by blast
  next
    case (Some b)
    let ?d = "vd_inc kStatNVDOReadBlkO 1 d"
    from Suc.IH [where d = ?d and lba = "Suc lba"] Suc.prems obtain d2 where
      "over_read_loop (Suc lba) n ?d = (True, concat (map (over_blk bs d) [Suc lba..<Suc lba + n]), d2)" "over_same d d2"
      by (auto simp: over_same_keeps [OF over_same_inc_r])
    then have "over_read_loop lba (Suc n) d =
        (True, over_blk bs d lba @ concat (map (over_blk bs d) [Suc lba..<Suc lba + n]), d2)" "over_same d d2"
      using Some by (simp_all add: over_blk_def [of bs d lba] dbuf_Read_def)
    then show ?thesis
      unfolding up by blast
  qed
qed

lemma no_overlay:
  assumes "bm_inv bs (do_fBlkMap d)" and "lba + n \<le> 2 ^ 32"
    and "lower_bound (of_nat lba) (do_fBlkMap d) = [] \<or>
      (\<exists>k b r. lower_bound (of_nat lba) (do_fBlkMap d) = (k, b) # r \<and> lba + n \<le> unat k)"
  shows "concat (map (over_blk bs d) [lba..<lba + n]) = concat (map (file_blk bs d) [lba..<lba + n])"
proof -
  have "over_blk bs d i = file_blk bs d i" if "lba \<le> i" "i < lba + n" for i
  proof -
    have "(of_nat lba :: u32) \<le> of_nat i" and "unat k \<ge> lba + n \<Longrightarrow> (of_nat i :: u32) < k" for k
      using that assms(2) by (simp_all add: word_le_nat_alt word_less_nat_alt unat_of_nat)
    then have "bm_find (of_nat i) (do_fBlkMap d) = None"
      using lower_bound_none [OF assms(1), of "of_nat lba" "of_nat i"] assms(3) by blast
    then show ?thesis
      by (simp add: over_blk_def)
  qed
  then show ?thesis
    by (intro arg_cong [where f = concat] map_cong) auto
qed

lemma over_Read_ok:
  assumes "over_inv bs base w d" and "lba + n \<le> 2 ^ 32"
  shows "\<exists>d'. over_Read lba n d = (True, concat (map (over_blk bs d) [lba..<lba + n]), d') \<and> over_same d d'"
proof -
  let ?d = "vd_inc kStatNVDORead 1 d" and ?lb = "lower_bound (of_nat lba) (do_fBlkMap d)"
  let ?d2 = "vd_inc kStatNVDOReadBlkFF n ?d"
  have rdy: "file_rdy bs ?d2" "file_rdy bs ?d"
    using assms(1) by (simp_all add: over_inv_def over_same_keeps [OF over_same_inc_r])
  obtain d1 where r: "file_Read lba n ?d2 = (True, concat (map (file_blk bs d) [lba..<lba + n]), d1)" and s: "over_same d d1"
    using file_Read_ok [OF rdy(1), where lba = lba and n = n] over_sameI [of ?d2] by fastforce
  show ?thesis
  proof (cases "?lb = [] \<or> (\<exists>k b r. ?lb = (k, b) # r \<and> lba + n \<le> unat k)")
    case True
    then show ?thesis
      using r s no_overlay [OF _ assms(2) True] assms(1) by (auto simp: over_Read_def Let_def over_inv_def)
  next
    case False
    then have "over_Read lba n d = over_read_loop lba n ?d"
      by (auto simp: over_Read_def Let_def split: list.split)
    then show ?thesis
      using over_read_loop_ok [OF rdy(2), of lba n] by (simp add: over_same_keeps [OF over_same_inc_r])
  qed
qed

lemma write_loop_blk:
  assumes "bm_inv bs m" and "length ds = n * bs" and "lba + n \<le> 2 ^ 32"
  shows "bm_inv bs (over_write_loop bs lba n ds m) \<and>
    (\<forall>i < 2 ^ 32. map_option db_fBuf (bm_find (of_nat i) (over_write_loop bs lba n ds m))
      = (if lba \<le> i \<and> i < lba + n then Some (blk_bytes bs (i - lba) ds) else map_option db_fBuf (bm_find (of_nat i) m)))"
  using assms
proof (induction n arbitrary: lba ds m)
  case (Suc n)
  let ?m = "bm_write bs (of_nat lba) ds m"
  have inv: "bm_inv bs ?m"
    using Suc.prems by (intro bm_write_inv) simp_all
  have "(of_nat i :: u32) = of_nat lba \<longleftrightarrow> i = lba" if "i < 2 ^ 32" for i
    using that Suc.prems(3) by (simp add: word_unat_eq_iff unat_of_nat)
  moreover have "blk_bytes bs (i - Suc lba) (drop bs ds) = blk_bytes bs (i - lba) ds" if "Suc lba \<le> i" for i
    using that by (auto simp: blk_bytes_def le_iff_add add.commute)
  moreover have "blk_bytes bs 0 ds = take bs ds"
    by (simp add: blk_bytes_def)
  ultimately show ?case
    using Suc.IH [OF inv, of "drop bs ds" "Suc lba"] Suc.prems
    by (auto simp: bm_find_write not_le le_less_Suc_eq dest: le_antisym)
qed auto

lemma over_blk_eq:
  "over_blk bs d i = (case map_option db_fBuf (bm_find (of_nat i) (do_fBlkMap d)) of None \<Rightarrow> file_blk bs d i | Some b \<Rightarrow> b)"
  by (simp add: over_blk_def split: option.split)

interpretation odisk: block_disk bs "over_inv bs base w" "over_blk bs" "\<lambda>lba n d. Inr (over_Read lba n d)" over_Write
  for bs base w
proof (unfold_locales, goal_cases)
  case (1 d lba n)
  then show ?case
    using over_Read_ok [of bs base w d lba n] over_same_keeps by fastforce
next
  case (2 d lba n ds)
  let ?m = "over_write_loop bs lba n ds (do_fBlkMap d)"
  let ?d = "(vd_inc kStatNVDOWriteBlk n (vd_inc kStatNVDOWrite 1 d))\<lparr>do_fBlkMap := ?m\<rparr>"
  have w: "over_Write lba n ds d = (True, ?d)"
    using 2 by (simp add: over_Write_def over_inv_def file_rdy_def vd_inc_def Let_def)
  have m: "bm_inv bs ?m" "\<And>i. i < 2 ^ 32 \<Longrightarrow> map_option db_fBuf (bm_find (of_nat i) ?m)
      = (if lba \<le> i \<and> i < lba + n then Some (blk_bytes bs (i - lba) ds) else map_option db_fBuf (bm_find (of_nat i) (do_fBlkMap d)))"
    using write_loop_blk [of bs "do_fBlkMap d" ds n lba] 2 by (auto simp: over_inv_def)
  have "over_inv bs base w ?d"
    using 2 m(1) by (auto simp: over_inv_def file_rdy_def vd_inc_def)
  moreover have "file_blk bs ?d = file_blk bs d"
    by (simp add: file_blk_def vd_inc_def)
  then have "arr_eq (over_blk bs ?d) (\<lambda>i. if lba \<le> i \<and> i < lba + n then blk_bytes bs (i - lba) ds else over_blk bs d i)"
    using m(2) by (simp add: arr_eq_def over_blk_eq split: option.split)
  ultimately show ?case
    using w by blast
qed

section \<open>Flushing an overlay\<close>

lemma unat_bound32: "unat (k :: u32) < 2 ^ LENGTH(32)"
  by (rule unsigned_less)

lemma flush_loop_ok:
  assumes "file_inv bs d" and "bm_inv bs m"
  shows "\<exists>d'. flush_loop m d = (True, d') \<and> file_inv bs d' \<and>
    (\<forall>i < 2 ^ 32. file_blk bs d' i = (case bm_find (of_nat i) m of None \<Rightarrow> file_blk bs d i | Some b \<Rightarrow> db_fBuf b))"
  using assms
proof (induction m arbitrary: d)
  case Nil
  then show ?case
    by (simp add: bm_find_def)
next
  case (Cons kb m)
  obtain k b where kb: "kb = (k, b)"
    by (cases kb)
  have len: "length (db_fBuf b) = 1 * bs" and inv: "bm_inv bs m" and nk: "bm_find k m = None"
    using Cons.prems(2) by (auto simp: bm_inv_def kb bm_find_def map_of_eq_None_iff)
  have u: "unat k + 1 \<le> 2 ^ 32"
    using unat_bound32 [of k] by simp
  from fdisk.wr_blk [OF Cons.prems(1) u len] obtain d1 where
    d1: "file_Write (unat k) 1 (db_fBuf b) d = (True, d1)" "file_inv bs d1"
    and f1: "\<And>i. i < 2 ^ 32 \<Longrightarrow> file_blk bs d1 i = (if i = unat k then db_fBuf b else file_blk bs d i)"
    using len by (auto simp: arr_eq_def blk_bytes_def)
  from Cons.IH [OF d1(2) inv] obtain d2 where
    d2: "flush_loop m d1 = (True, d2)" "file_inv bs d2"
      "\<And>i. i < 2 ^ 32 \<Longrightarrow> file_blk bs d2 i = (case bm_find (of_nat i) m of None \<Rightarrow> file_blk bs d1 i | Some b \<Rightarrow> db_fBuf b)"
    by blast
  have "(of_nat i = k) = (i = unat k)" if "i < 2 ^ 32" for i
    using that by (auto simp: word_unat_eq_iff unat_of_nat)
  then show ?case
    using d1(1) d2 f1 nk by (auto simp: kb bm_find_def split: option.split)
qed

lemma flush_ok:
  assumes "over_inv bs base True d"
  shows "\<exists>d'. over_Flush d = (True, d') \<and> do_fBlkMap d' = [] \<and> file_inv bs d' \<and> arr_eq (file_blk bs d') (over_blk bs d)"
proof -
  let ?d = "vd_inc kStatNVDOFlush 1 d"
  have inv: "file_inv bs ?d" "bm_inv bs (do_fBlkMap ?d)"
    using assms by (auto simp: file_inv_def over_inv_def file_rdy_def vd_inc_def)
  from flush_loop_ok [OF inv, unfolded file_blk_inc do_fBlkMap_inc] obtain d1 where
    d1: "flush_loop (do_fBlkMap ?d) ?d = (True, d1)" "file_inv bs d1" "arr_eq (file_blk bs d1) (over_blk bs d)"
    by (auto simp: arr_eq_def over_blk_def)
  have "over_Flush d = (True, d1\<lparr>do_fBlkMap := []\<rparr>)"
    using d1(1) assms by (simp add: over_Flush_def over_inv_def Let_def)
  moreover have "file_inv bs (d1\<lparr>do_fBlkMap := []\<rparr>)" "arr_eq (file_blk bs (d1\<lparr>do_fBlkMap := []\<rparr>)) (over_blk bs d)"
    using d1 by (auto simp: file_inv_def file_rdy_def file_blk_def arr_eq_def)
  ultimately show ?thesis
    by auto
qed

section \<open>A disk in memory\<close>

definition ram_inv :: "nat \<Rightarrow> 'a diskram_scheme \<Rightarrow> bool" where
  "ram_inv bs d = (vd_fBlkSize d = bs \<and> bs mod 16 = 0 \<and> 32 \<le> bs \<and> 0 < vd_fNSect d \<and> 0 < vd_fNHead d \<and> bm_inv bs (dr_fBlkMap d))"

definition pat_blk :: "'a diskram_scheme \<Rightarrow> nat \<Rightarrow> u8 list" where
  "pat_blk d i = (case ReadPattern i d of Inl _ \<Rightarrow> [] | Inr ds \<Rightarrow> ds)"

definition ram_blk :: "'a diskram_scheme \<Rightarrow> nat \<Rightarrow> u8 list" where
  "ram_blk d i = (case map_option db_fBuf (bm_find (of_nat i) (dr_fBlkMap d)) of None \<Rightarrow> pat_blk d i | Some b \<Rightarrow> b)"

lemma mod16_dvd: "bs mod 16 = 0 \<Longrightarrow> bs mod 2 = 0 \<and> bs mod 4 = (0 :: nat)"
  by presburger

lemma length_concat_const: "(\<And>x. x \<in> set xs \<Longrightarrow> length (f x) = n) \<Longrightarrow> length (concat (map f xs)) = length xs * n"
  by (induction xs) auto

lemma length_concat_replicate: "length (concat (replicate n xs)) = n * length xs"
  by (induction n) auto

lemma ReadPattern_ok:
  assumes "ram_inv bs d"
  shows "ReadPattern lba d = Inr (pat_blk d lba)" "length (pat_blk d lba) = bs"
proof -
  have "\<exists>ds. ReadPattern lba d = Inr ds \<and> length ds = bs"
    using assms mod16_dvd [of bs]
    by (auto simp: ReadPattern_def ram_inv_def Let_def length_bytes16 length_concat_const length_concat_replicate test_words_def split: pattyp.split)
  then show "ReadPattern lba d = Inr (pat_blk d lba)" "length (pat_blk d lba) = bs"
    by (auto simp: pat_blk_def)
qed

lemma ReadPattern_upd [simp]: "ReadPattern i (d\<lparr>vd_fStats := st\<rparr>) = ReadPattern i d" "ReadPattern i (d\<lparr>dr_fBlkMap := m\<rparr>) = ReadPattern i d"
  by (simp_all add: ReadPattern_def boottext_def test_words_def cong: pattyp.case_cong if_cong)

lemma pat_blk_upd [simp]: "pat_blk (d\<lparr>vd_fStats := st\<rparr>) = pat_blk d" "pat_blk (d\<lparr>dr_fBlkMap := m\<rparr>) = pat_blk d"
  by (simp_all add: fun_eq_iff pat_blk_def)

lemma ram_read_loop_ok:
  assumes "ram_inv bs d"
  shows "\<exists>st. ram_read_loop lba n d = Inr (concat (map (ram_blk d) [lba..<lba + n]), d\<lparr>vd_fStats := st\<rparr>)"
  using assms
proof (induction n arbitrary: lba d)
  case 0
  then show ?case
    by (auto intro: exI [of _ "vd_fStats d"])
next
  case (Suc n)
  note up = concat_blocks_Suc [of "ram_blk d" lba n]
  let ?d = "case bm_find (of_nat lba) (dr_fBlkMap d) of None \<Rightarrow> d | Some b \<Rightarrow> vd_inc kStatNVDReadRam 1 d"
  have inv: "ram_inv bs ?d" and blk: "ram_blk ?d = ram_blk d"
    using Suc.prems by (auto simp: ram_inv_def vd_inc_def fun_eq_iff ram_blk_def split: option.split)
  from Suc.IH [OF inv, of "Suc lba"] obtain st where
    "ram_read_loop (Suc lba) n ?d = Inr (concat (map (ram_blk d) [Suc lba..<Suc lba + n]), d\<lparr>vd_fStats := st\<rparr>)"
    unfolding blk by (auto simp: vd_inc_def split: option.splits)
  then have "ram_read_loop lba (Suc n) d =
      Inr (ram_blk d lba @ concat (map (ram_blk d) [Suc lba..<Suc lba + n]), d\<lparr>vd_fStats := st\<rparr>)"
    using ReadPattern_ok(1) [OF Suc.prems, of lba]
    by (cases "bm_find (of_nat lba) (dr_fBlkMap d)") (simp_all add: ram_blk_def [of d lba] dbuf_Read_def)
  then show ?case
    unfolding up by blast
qed

lemma ram_write_loop_eq:
  "\<exists>st. ram_write_loop nblk lba n ds d = d\<lparr>vd_fStats := st, dr_fBlkMap := over_write_loop (vd_fBlkSize d) lba n ds (dr_fBlkMap d)\<rparr>"
proof (induction n arbitrary: lba ds d)
  case 0
  then show ?case
    by (auto intro: exI [of _ "vd_fStats d"])
next
  case (Suc n)
  show ?case
    using Suc.IH [where lba = "Suc lba" and ds = "drop (vd_fBlkSize d) ds" and d =
        "d\<lparr>vd_fStats := (if bm_find (of_nat lba) (dr_fBlkMap d) = None then vd_fStats d else stat_inc kStatNVDWriteOver nblk (vd_fStats d)),
           dr_fBlkMap := bm_write (vd_fBlkSize d) (of_nat lba) ds (dr_fBlkMap d)\<rparr>"]
    by (auto simp: Let_def vd_inc_def)
qed

interpretation rdisk: block_disk bs "ram_inv bs" ram_blk ram_Read ram_Write for bs
proof (unfold_locales, goal_cases)
  case (1 d lba n)
  let ?d = "vd_inc kStatNVDReadBlk n (vd_inc kStatNVDRead 1 d)"
  have inv: "ram_inv bs ?d" and blk: "ram_blk ?d = ram_blk d"
    using 1 by (auto simp: ram_inv_def vd_inc_def fun_eq_iff ram_blk_def split: option.split)
  obtain st where "ram_read_loop lba n ?d = Inr (concat (map (ram_blk d) [lba..<lba + n]), d\<lparr>vd_fStats := st\<rparr>)"
    using ram_read_loop_ok [OF inv, of lba n] unfolding blk by (auto simp: vd_inc_def)
  moreover have "ram_inv bs (d\<lparr>vd_fStats := st\<rparr>)" "ram_blk (d\<lparr>vd_fStats := st\<rparr>) = ram_blk d"
    using 1 by (auto simp: ram_inv_def fun_eq_iff ram_blk_def split: option.split)
  ultimately show ?case
    by (simp add: ram_Read_def)
next
  case (2 d lba n ds)
  let ?d = "vd_inc kStatNVDWriteBlk n (vd_inc kStatNVDWrite 1 d)"
  let ?m = "over_write_loop bs lba n ds (dr_fBlkMap d)"
  have "vd_fBlkSize d = bs"
    using 2 by (simp add: ram_inv_def)
  then obtain st where w: "ram_Write lba n ds d = (True, d\<lparr>vd_fStats := st, dr_fBlkMap := ?m\<rparr>)"
    using ram_write_loop_eq [of n lba n ds ?d] by (auto simp: ram_Write_def vd_inc_def)
  have m: "bm_inv bs ?m" "\<And>i. i < 2 ^ 32 \<Longrightarrow> map_option db_fBuf (bm_find (of_nat i) ?m)
      = (if lba \<le> i \<and> i < lba + n then Some (blk_bytes bs (i - lba) ds) else map_option db_fBuf (bm_find (of_nat i) (dr_fBlkMap d)))"
    using write_loop_blk [of bs "dr_fBlkMap d" ds n lba] 2 by (auto simp: ram_inv_def)
  have "ram_inv bs (d\<lparr>vd_fStats := st, dr_fBlkMap := ?m\<rparr>)"
    using 2 m(1) by (simp add: ram_inv_def)
  moreover have "arr_eq (ram_blk (d\<lparr>vd_fStats := st, dr_fBlkMap := ?m\<rparr>))
      (\<lambda>i. if lba \<le> i \<and> i < lba + n then blk_bytes bs (i - lba) ds else ram_blk d i)"
    using m(2) by (simp add: arr_eq_def ram_blk_def split: option.split)
  ultimately show ?case
    using w by blast
qed

section \<open>All disks\<close>

definition ad_inv :: "nat \<Rightarrow> adisk \<Rightarrow> bool" where
  "ad_inv bs ad = (case ad of ADFile d \<Rightarrow> file_inv bs d | ADOver d \<Rightarrow> \<exists>base w. over_inv bs base w d | ADRam d \<Rightarrow> ram_inv bs d)"

definition ad_blk :: "nat \<Rightarrow> adisk \<Rightarrow> nat \<Rightarrow> u8 list" where
  "ad_blk bs ad = (case ad of ADFile d \<Rightarrow> file_blk bs d | ADOver d \<Rightarrow> over_blk bs d | ADRam d \<Rightarrow> ram_blk d)"

interpretation vdisk: block_disk bs "ad_inv bs" "ad_blk bs" disk_Read disk_Write for bs
proof (unfold_locales, goal_cases)
  case (1 ad lba n)
  then show ?case
    using fdisk.rd_blk [of bs _ lba n] odisk.rd_blk [of bs _ _ _ lba n] rdisk.rd_blk [of bs _ lba n]
    by (cases ad) (fastforce simp: ad_inv_def ad_blk_def disk_Read_def)+
next
  case (2 ad lba n ds)
  show ?case
  proof (cases ad)
    case (ADFile d)
    then show ?thesis
      using fdisk.wr_blk [of bs d lba n ds] 2 by (auto simp: ad_inv_def ad_blk_def disk_Write_def cong: if_cong)
  next
    case (ADOver d)
    then show ?thesis
      using odisk.wr_blk [of bs _ _ d lba n ds] 2 by (fastforce simp: ad_inv_def ad_blk_def disk_Write_def cong: if_cong)
  next
    case (ADRam d)
    then show ?thesis
      using rdisk.wr_blk [of bs d lba n ds] 2 by (auto simp: ad_inv_def ad_blk_def disk_Write_def cong: if_cong)
  qed
qed

section \<open>Properties\<close>

lemma arr_eq_refl [simp]: "arr_eq A A"
  by (simp add: arr_eq_def)

definition ex_file :: "u8 list \<Rightarrow> osfile" where
  "ex_file ds = \<lparr>fl_fFd = 5, fl_writable = True, fl_data = ds, fl_off = 0, fl_script = []\<rparr>"

definition ex_ops :: "dop list" where
  "ex_ops = [DWrite 1 2 [7, 8, 9, 10], DRead 0 4]"

definition ex_fdisk :: diskfile where
  "ex_fdisk = (diskfile_new (ex_file []))\<lparr>vd_fBlkSize := 2, df_fFd := ex_file [1, 2, 3], df_fSize := 3\<rparr>"

definition ex_odisk :: diskover where
  "ex_odisk = (diskover_new (ex_file []))\<lparr>vd_fBlkSize := 2, df_fFd := ex_file [1, 2, 3], df_fSize := 3\<rparr>"

text \<open>C11: every virtual disk answers every sequence of reads and writes as an array of blocks does that starts
  with the contents of the disk: the file, zero filled beyond its end, the file with the overlay, or the
  pattern of a disk in memory. All operations succeed, and the disk holds the final array.\<close>

theorem disk_array:
  assumes "ad_inv bs d" and "list_all (dop_ok bs) ops"
  shows "\<exists>d'. disk_run disk_Read disk_Write ops d = Inr (fst (arr_run bs ops (ad_blk bs d)), d') \<and>
    ad_inv bs d' \<and> arr_eq (snd (arr_run bs ops (ad_blk bs d))) (ad_blk bs d')"
  using vdisk.run_refines [OF assms arr_eq_refl] .

theorem disk_array_witness:
  "\<exists>d'. disk_run disk_Read disk_Write ex_ops (ADFile ex_fdisk) = Inr ([(True, []), (True, [1, 2, 7, 8, 9, 10, 0, 0])], d')"
proof -
  have "ad_inv 2 (ADFile ex_fdisk)" "list_all (dop_ok 2) ex_ops"
    by (simp_all add: ad_inv_def file_inv_def file_rdy_def ex_fdisk_def ex_file_def ex_ops_def dop_ok_def)
  moreover have "fst (arr_run 2 ex_ops (ad_blk 2 (ADFile ex_fdisk))) = [(True, []), (True, [1, 2, 7, 8, 9, 10, 0, 0])]"
    by code_simp
  ultimately show ?thesis
    using disk_array [of 2 "ADFile ex_fdisk" ex_ops] by auto
qed

text \<open>C24: an overlay disk answers every sequence of reads and writes as an array of blocks that starts with
  what the overlay shows, and leaves the file as it is; a following \<open>Flush\<close> of a disk that is not write
  protected empties the overlay and makes the file hold the final array.\<close>

theorem over_disk_commit:
  assumes "over_inv bs base w d" and "list_all (dop_ok bs) ops"
  shows "\<exists>d'. disk_run (\<lambda>lba n d. Inr (over_Read lba n d)) over_Write ops d = Inr (fst (arr_run bs ops (over_blk bs d)), d') \<and>
    fl_data (df_fFd d') = base \<and> arr_eq (snd (arr_run bs ops (over_blk bs d))) (over_blk bs d') \<and>
    (w \<longrightarrow> (\<exists>d''. over_Flush d' = (True, d'') \<and> do_fBlkMap d'' = [] \<and>
        arr_eq (file_blk bs d'') (snd (arr_run bs ops (over_blk bs d)))))"
proof -
  obtain d' where d': "disk_run (\<lambda>lba n d. Inr (over_Read lba n d)) over_Write ops d = Inr (fst (arr_run bs ops (over_blk bs d)), d')"
    "over_inv bs base w d'" "arr_eq (snd (arr_run bs ops (over_blk bs d))) (over_blk bs d')"
    using odisk.run_refines [OF assms arr_eq_refl] by blast
  then show ?thesis
    using flush_ok [of bs base d'] by (cases w) (fastforce simp: over_inv_def arr_eq_def)+
qed

theorem over_disk_commit_witness:
  "\<exists>d' d''. disk_run (\<lambda>lba n d. Inr (over_Read lba n d)) over_Write ex_ops ex_odisk
      = Inr ([(True, []), (True, [1, 2, 7, 8, 9, 10, 0, 0])], d') \<and>
    fl_data (df_fFd d') = [1, 2, 3] \<and> over_Flush d' = (True, d'') \<and> do_fBlkMap d'' = []"
proof -
  have "over_inv 2 [1, 2, 3] True ex_odisk" "list_all (dop_ok 2) ex_ops"
    by (simp_all add: over_inv_def file_rdy_def bm_inv_def ex_odisk_def diskover_new_def ex_file_def ex_ops_def dop_ok_def)
  moreover have "fst (arr_run 2 ex_ops (over_blk 2 ex_odisk)) = [(True, []), (True, [1, 2, 7, 8, 9, 10, 0, 0])]"
    by code_simp
  ultimately show ?thesis
    using over_disk_commit [of 2 "[1, 2, 3]" True ex_odisk ex_ops] by auto
qed

end
