(* ===== verification/Rw11RdmaRep.thy ===== *)
theory Rw11RdmaRep
  imports Rw11Rdma Rw11CpuMem Rw11DiskRep
begin

text \<open>
  DMA with the control port of \<open>Rw11CpPort\<close> at the far end: a chain of chunks is one transfer of all words. The
  locale \<open>dma_client\<close> has what the callbacks of a controller promise, \<open>disk_dma\<close> adds the hooks of \<open>Rw11RdmaDisk\<close> and the
  contract of the disks.
\<close>

section \<open>Command lists of a chunk\<close>

definition labo_cmd :: command where
  "labo_cmd = cmd_new\<lparr>cmd_fRequest := kCmdLabo, cmd_fFlags := kFlagInit\<rparr>"

lemma cl_AddLabo_eq: "cl_AddLabo l = Inr (length (cl_fList l), l\<lparr>cl_fList := cl_fList l @ [labo_cmd]\<rparr>)"
  by (simp add: cl_AddLabo_def CmdLabo_def SetCommand_def cl_AddCommand_def labo_cmd_def cmd_new_def rl_defs)

lemma Command_labo [simp]: "Command labo_cmd = kCmdLabo"
  by (simp add: Command_def labo_cmd_def rl_defs)

lemma cb_cmd_labo: "cb_cmd base labo_cmd d = (SetStatus (cb_stat True) (SetData (if cb_babo d then 1 else 0) labo_cmd), d)"
  by (simp add: cb_cmd_def rl_defs)

lemma data_labo [simp]: "cmd_fData (SetStatus t (SetData w c)) = w"
  by (simp add: SetStatus_def SetData_def)

text \<open>Register writes outside of the memory registers go to the log.\<close>

definition ext_reg :: "u16 \<Rightarrow> u16 \<Rightarrow> bool" where
  "ext_reg base a = (a \<notin> {base + kCPAL, base + kCPAH, base + kCPMEM, base + kCPMEMI, base + kCPMEMBE})"

definition wregs :: "(u16 \<times> u16) list \<Rightarrow> command list" where
  "wregs xs = map (\<lambda>(a, w). wreg_cmd a w) xs"

lemma cb_cmds_wregs:
  assumes "list_all (\<lambda>(a, w). ext_reg base a) xs"
  shows "\<exists>cs. cb_cmds base (wregs xs) d = (cs, d\<lparr>cb_log := cb_log d @ xs\<rparr>) \<and> length cs = length xs"
  using assms
proof (induction xs arbitrary: d)
  case (Cons x xs)
  obtain a w where x: "x = (a, w)"
    by (cases x)
  have s: "cb_wreg base a w d = (True, d\<lparr>cb_log := cb_log d @ [(a, w)]\<rparr>)"
    using Cons.prems by (auto simp: x cb_wreg_def ext_reg_def)
  from Cons.IH [of "d\<lparr>cb_log := cb_log d @ [(a, w)]\<rparr>"] Cons.prems show ?case
    by (auto simp: wregs_def x cb_cmd_wreg s)
qed (simp add: wregs_def)

text \<open>What a controller adds to the command list of the last chunk: an abort of the list when the
  block transfer failed, and register writes.\<close>

definition ext_cmds :: "(u16 \<times> u16) list option \<Rightarrow> command list" where
  "ext_cmds x = (case x of None \<Rightarrow> [] | Some xs \<Rightarrow> labo_cmd # wregs xs)"

definition ext_log :: "(u16 \<times> u16) list option \<Rightarrow> (u16 \<times> u16) list" where
  "ext_log x = (case x of None \<Rightarrow> [] | Some xs \<Rightarrow> xs)"

definition ext_ok :: "u16 \<Rightarrow> (u16 \<times> u16) list option \<Rightarrow> bool" where
  "ext_ok base x = list_all (\<lambda>(a, w). ext_reg base a) (ext_log x)"

definition labo_seen :: "(u16 \<times> u16) list option \<Rightarrow> nat \<Rightarrow> clist \<Rightarrow> bool" where
  "labo_seen x n l =
     (case x of
        None \<Rightarrow> cl_Size l = n
      | Some xs \<Rightarrow> cl_Size l > n \<and> (\<exists>c. cl_at n l = Inr c \<and> Command c = kCmdLabo \<and> cmd_fData c = 0))"

lemma cb_cmds_ext:
  assumes "ext_ok base x" and "\<not> cb_babo d"
  shows "\<exists>cs. cb_cmds base (ext_cmds x) d = (cs, d\<lparr>cb_log := cb_log d @ ext_log x\<rparr>) \<and> length cs = length (ext_cmds x) \<and>
    (\<forall>l. cl_fList l = pre @ cs \<longrightarrow> labo_seen x (length pre) l)"
proof (cases x)
  case None
  then show ?thesis
    by (simp add: ext_cmds_def ext_log_def labo_seen_def cl_Size_def)
next
  case (Some xs)
  obtain cs where cs: "cb_cmds base (wregs xs) d = (cs, d\<lparr>cb_log := cb_log d @ xs\<rparr>)" "length cs = length xs"
    using cb_cmds_wregs [of base xs d] assms(1) by (auto simp: ext_ok_def ext_log_def Some)
  then show ?thesis
    using assms(2) by (auto simp: Some ext_cmds_def ext_log_def cb_cmd_labo labo_seen_def cl_Size_def cl_at_def wregs_def nth_append)
qed

lemma cb_cmds_app:
  assumes "cb_cmds base cs d = (cs', d')" and "list_all (\<lambda>c. Command c \<noteq> kCmdLabo) cs"
  shows "cb_cmds base (cs @ ds) d = (let (ds', d2) = cb_cmds base ds d' in (cs' @ ds', d2))"
  using assms
proof (induction cs arbitrary: d cs')
  case (Cons c cs)
  then show ?case
    by (auto simp: Let_def split: prod.splits)
qed simp

section \<open>The three commands of a memory access\<close>

definition at_addr :: "u32 \<Rightarrow> u16 \<Rightarrow> cpport \<Rightarrow> cpport" where
  "at_addr a m d = d\<lparr>cb_addr := unat a div 2, cb_22bit := bit m 6, cb_ubmap := bit m 7\<rparr>"

definition in22 :: "u32 \<Rightarrow> nat \<Rightarrow> cpport \<Rightarrow> bool" where
  "in22 a n d = (even (unat a) \<and> unat a + 2 * n \<le> io22 \<and> unat a + 2 * n \<le> cb_size d \<and> \<not> cb_mmuub d)"

lemma even_mask:
  assumes "even (unat (a :: u32))" and "unat a < 2 ^ 22"
  shows "a AND 0x3ffffe = a"
proof -
  have "\<not> bit a 0"
    using assms(1) odd_unat [of a] by (simp add: bit_0)
  then show ?thesis
    using bit_lim [OF assms(2)] by (intro bit_word_eqI) (auto simp: bit_simps bit_3ffffe intro: Suc_leI gr0I)
qed

lemma cb_lalh:
  assumes "even (unat a)" and "unat a < 2 ^ 22"
  shows "cb_cmds base [wreg_cmd (base + kCPAL) (addr_al a), wreg_cmd (base + kCPAH) (addr_ah a m)] d =
    ([SetStatus (cb_stat True) (wreg_cmd (base + kCPAL) (addr_al a)), SetStatus (cb_stat True) (wreg_cmd (base + kCPAH) (addr_ah a m))],
     at_addr a m d)"
proof -
  have "cb_wreg base (base + kCPAH) (addr_ah a m) (d\<lparr>cb_addr := unat (addr_al a) div 2, cb_22bit := False, cb_ubmap := False\<rparr>) = (True, at_addr a m d)"
    using lalh_addr [OF assms(2), of m] ah_flags [of a m] by (simp add: even_mask [OF assms] cb_wreg_def kCPAH_def kCPAL_def at_addr_def)
  then show ?thesis
    by (simp add: cb_cmd_wreg wreg_al)
qed


lemma exec_wmem:
  assumes "even (unat a)" and "in22 a n d" and "0 < n" and "n \<le> 65535" and "n \<le> length ws" and "word_mode d" and "bit m 6" and "ext_ok base x"
    and l: "cl_fList l = [wreg_cmd (base + kCPAL) (addr_al a), wreg_cmd (base + kCPAH) (addr_ah a m), blk_cmd kCmdWblk (base + kCPMEMI) ws n] @ ext_cmds x"
  shows "\<exists>l' d' c. cb_exec base l d = Inr (True, l', d') \<and> cl_at 2 l' = Inr c \<and> cmd_fBlockDone c = n \<and> labo_seen x 3 l' \<and>
    mem_upd (wr_words (unat a) (take n ws) (cb_mem d)) (d\<lparr>cb_log := cb_log d @ ext_log x\<rparr>) d'"
proof -
  have a: "unat a < 2 ^ 22"
    using assms(2,3) by (auto simp: in22_def io22_def)
  let ?d = "at_addr a m d"
  let ?e = "?d\<lparr>cb_mem := wr_words (unat a) (take n ws) (cb_mem d), cb_addr := unat a div 2 + n, cb_babo := False\<rparr>"
  let ?b = "blk_cmd kCmdWblk (base + kCPMEMI) ws n"
  let ?l = "[wreg_cmd (base + kCPAL) (addr_al a), wreg_cmd (base + kCPAH) (addr_ah a m)]"
  have w: "word_mode ?d" "in_mem ?d (length (take n ws))"
    using assms by (auto simp: word_mode_def in_mem_def at_addr_def in22_def algebra_simps)
  have b: "cb_cmds base [?b] ?d = ([SetStatus (cb_stat True) (SetBlockDone (of_nat n) ?b)], ?e)"
    using cb_wblk_ok [OF w] assms(1,5) by (simp add: cb_cmd_wblk at_addr_def)
  let ?c = "SetStatus (cb_stat True) (SetBlockDone (of_nat n) ?b)"
  let ?r = "[SetStatus (cb_stat True) (wreg_cmd (base + kCPAL) (addr_al a)), SetStatus (cb_stat True) (wreg_cmd (base + kCPAH) (addr_ah a m)), ?c]"
  obtain cs where cs: "cb_cmds base (ext_cmds x) ?e = (cs, ?e\<lparr>cb_log := cb_log ?e @ ext_log x\<rparr>)"
    "\<And>l. cl_fList l = ?r @ cs \<Longrightarrow> labo_seen x (length ?r) l"
    using cb_cmds_ext [OF assms(8), of ?e ?r] by auto
  have "cb_cmds base (?l @ [?b]) d = (?r, ?e)"
    using cb_cmds_app [OF cb_lalh [OF assms(1) a, of base m d], of "[?b]"] b by simp
  from cb_cmds_app [OF this, of "ext_cmds x"] cs(1)
  have "cb_exec base l d = Inr (True, l\<lparr>cl_fList := ?r @ cs\<rparr>, ?e\<lparr>cb_log := cb_log ?e @ ext_log x\<rparr>)"
    by (simp add: cb_exec_def l)
  moreover have "cmd_fBlockDone ?c = n"
    using assms(4) by (simp add: SetStatus_def SetBlockDone_def unat_of_nat)
  moreover have "labo_seen x 3 (l\<lparr>cl_fList := ?r @ cs\<rparr>)"
    using cs(2) [of "l\<lparr>cl_fList := ?r @ cs\<rparr>"] by (simp add: eval_nat_numeral)
  moreover have "mem_upd (wr_words (unat a) (take n ws) (cb_mem d)) (d\<lparr>cb_log := cb_log d @ ext_log x\<rparr>) (?e\<lparr>cb_log := cb_log ?e @ ext_log x\<rparr>)"
    using assms(6) by (simp add: mem_upd_def word_mode_def at_addr_def)
  ultimately show ?thesis
    by (auto simp: cl_at_def)
qed

lemma exec_rmem:
  assumes "even (unat a)" and "in22 a n d" and "0 < n" and "n \<le> 65535" and "word_mode d" and "bit m 6" and "ext_ok base x"
    and l: "cl_fList l = [wreg_cmd (base + kCPAL) (addr_al a), wreg_cmd (base + kCPAH) (addr_ah a m), blk_cmd kCmdRblk (base + kCPMEMI) ws n] @ ext_cmds x"
  shows "\<exists>l' d' c. cb_exec base l d = Inr (True, l', d') \<and> cl_at 2 l' = Inr c \<and> cmd_fBlockDone c = n \<and> labo_seen x 3 l' \<and>
    BlockPointer c = rd_words (unat a) n (cb_mem d) @ drop n ws \<and>
    mem_upd (cb_mem d) (d\<lparr>cb_log := cb_log d @ ext_log x\<rparr>) d'"
proof -
  have a: "unat a < 2 ^ 22"
    using assms(2,3) by (auto simp: in22_def io22_def)
  let ?d = "at_addr a m d"
  let ?e = "?d\<lparr>cb_addr := unat a div 2 + n, cb_babo := False\<rparr>"
  let ?b = "blk_cmd kCmdRblk (base + kCPMEMI) ws n"
  let ?l = "[wreg_cmd (base + kCPAL) (addr_al a), wreg_cmd (base + kCPAH) (addr_ah a m)]"
  let ?ws = "rd_words (unat a) n (cb_mem d)"
  let ?c = "SetStatus (cb_stat True) (SetBlockDone (of_nat n) (put_block ?ws ?b))"
  let ?r = "[SetStatus (cb_stat True) (wreg_cmd (base + kCPAL) (addr_al a)), SetStatus (cb_stat True) (wreg_cmd (base + kCPAH) (addr_ah a m)), ?c]"
  have w: "in_mem ?d n"
    using assms by (auto simp: in_mem_def at_addr_def in22_def algebra_simps)
  have b: "cb_cmds base [?b] ?d = ([?c], ?e)"
    using cb_rblk_ok [OF w] assms(1) by (simp add: cb_cmd_rblk at_addr_def)
  obtain cs where cs: "cb_cmds base (ext_cmds x) ?e = (cs, ?e\<lparr>cb_log := cb_log ?e @ ext_log x\<rparr>)"
    "\<And>l. cl_fList l = ?r @ cs \<Longrightarrow> labo_seen x (length ?r) l"
    using cb_cmds_ext [OF assms(7), of ?e ?r] by auto
  have "cb_cmds base (?l @ [?b]) d = (?r, ?e)"
    using cb_cmds_app [OF cb_lalh [OF assms(1) a, of base m d], of "[?b]"] b by simp
  from cb_cmds_app [OF this, of "ext_cmds x"] cs(1)
  have "cb_exec base l d = Inr (True, l\<lparr>cl_fList := ?r @ cs\<rparr>, ?e\<lparr>cb_log := cb_log ?e @ ext_log x\<rparr>)"
    by (simp add: cb_exec_def l)
  moreover have "cmd_fBlockDone ?c = n"
    using assms(4) by (simp add: SetStatus_def SetBlockDone_def unat_of_nat)
  moreover have "BlockPointer ?c = ?ws @ drop n ws"
    using BlockPointer_read [of ?ws kCmdRblk "base + kCPMEMI" ws n] by simp
  moreover have "labo_seen x 3 (l\<lparr>cl_fList := ?r @ cs\<rparr>)"
    using cs(2) [of "l\<lparr>cl_fList := ?r @ cs\<rparr>"] by (simp add: eval_nat_numeral)
  moreover have "mem_upd (cb_mem d) (d\<lparr>cb_log := cb_log d @ ext_log x\<rparr>) (?e\<lparr>cb_log := cb_log ?e @ ext_log x\<rparr>)"
    using assms(5) by (simp add: mem_upd_def word_mode_def at_addr_def)
  ultimately show ?thesis
    by (auto simp: cl_at_def)
qed


section \<open>One chunk\<close>

definition chunk_cmds :: "u8 \<Rightarrow> u16 \<Rightarrow> u32 \<Rightarrow> u16 \<Rightarrow> u16 list \<Rightarrow> nat \<Rightarrow> command list" where
  "chunk_cmds code base a m ws n =
     [wreg_cmd (base + kCPAL) (addr_al a), wreg_cmd (base + kCPAH) (addr_ah a m), blk_cmd code (base + kCPMEMI) ws n]"

lemma rdma_clist_eq:
  assumes "0 < n" and "n \<le> lk_BlockSizeMax k s" and "n \<le> 65535"
  shows "rdma_clist k p n r s = Inr (clist_new\<lparr>cl_fList := chunk_cmds (if rd_fIsWMem r then kCmdWblk else kCmdRblk) (cp_fBase p) (rd_fAddr r)
    (rd_fMode r) (drop (rd_fpBlock r) (rd_buf r)) n\<rparr>)"
  using assms
  by (auto simp: rdma_clist_def AddWMem_def AddRMem_def AddLalh_def cl_Add_eqs clist_new_def chunk_cmds_def Let_def
      add_wmem_loop.simps [of _ _ _ n] add_rmem_loop.simps [of _ _ _ n] add_wmem_loop.simps [of _ _ _ 0] add_rmem_loop.simps [of _ _ _ 0])


text \<open>The buffer and the memory after \<open>n\<close> words.\<close>

definition xfer_buf :: "'a rdma_scheme \<Rightarrow> nat \<Rightarrow> (nat \<Rightarrow> u8) \<Rightarrow> u16 list" where
  "xfer_buf r n m =
     (if rd_fIsWMem r then rd_buf r
      else take (rd_fpBlock r) (rd_buf r) @ rd_words (unat (rd_fAddr r)) n m @ drop (rd_fpBlock r + n) (rd_buf r))"

definition xfer_mem :: "'a rdma_scheme \<Rightarrow> nat \<Rightarrow> (nat \<Rightarrow> u8) \<Rightarrow> nat \<Rightarrow> u8" where
  "xfer_mem r n m = (if rd_fIsWMem r then wr_words (unat (rd_fAddr r)) (take n (drop (rd_fpBlock r) (rd_buf r))) m else m)"

definition moved :: "nat \<Rightarrow> (nat \<Rightarrow> u8) \<Rightarrow> rdma_status \<Rightarrow> (rdma_stat \<Rightarrow> nat) \<Rightarrow> 'a rdma_scheme \<Rightarrow> 'a rdma_scheme" where
  "moved n m st z r =
     r\<lparr>rd_fStatus := st, rd_fAddr := rd_fAddr r + of_nat (2 * n), rd_fNWordRest := rd_fNWordRest r - n,
       rd_fNWordDone := rd_fNWordDone r + n, rd_fpBlock := rd_fpBlock r + n, rd_buf := xfer_buf r n m, rd_fStats := z\<rparr>"

definition dma_ready :: "nat \<Rightarrow> 'a rdma_scheme \<Rightarrow> cpport \<Rightarrow> bool" where
  "dma_ready bm r d =
     (rd_fStatus r = kStatusBusy \<and> 0 < rd_fNWordRest r \<and> 0 < rd_fNWordMax r \<and> rd_fNWordMax r \<le> bm \<and> rd_fNWordMax r \<le> 65535 \<and>
      rd_fpBlock r + rd_fNWordRest r \<le> length (rd_buf r) \<and> bit (rd_fMode r) 6 \<and> in22 (rd_fAddr r) (rd_fNWordRest r) d \<and> word_mode d)"

lemma moved_ready:
  assumes "dma_ready bm r d" and "n < rd_fNWordRest r" and "mem_upd m d d'"
  shows "dma_ready bm (moved n m' kStatusBusy z r) d'" "unat (rd_fAddr (moved n m' st z r)) = unat (rd_fAddr r) + 2 * n"
proof -
  have l: "unat (rd_fAddr r) + 2 * n < 2 ^ 32"
    using assms(1,2) by (auto simp: dma_ready_def in22_def io22_def)
  then have "unat (of_nat (2 * n) :: u32) = 2 * n"
    by (simp add: unat_of_nat take_bit_nat_eq_self del: of_nat_mult)
  then show u: "unat (rd_fAddr (moved n m' st z r)) = unat (rd_fAddr r) + 2 * n" for st
    using l by (simp add: moved_def unat_word_ariths del: of_nat_mult)
  show "dma_ready bm (moved n m' kStatusBusy z r) d'"
    using assms u [of kStatusBusy] unfolding dma_ready_def in22_def mem_upd_def by (auto simp: moved_def xfer_buf_def)
qed

lemma xfer_moved:
  assumes "dma_ready bm r d" and "n < rd_fNWordRest r" and "n + k \<le> rd_fNWordRest r"
  shows "xfer_mem (moved n (cb_mem d) kStatusBusy z r) k (xfer_mem r n (cb_mem d)) = xfer_mem r (n + k) (cb_mem d)"
    "xfer_buf (moved n (cb_mem d) kStatusBusy z r) k (xfer_mem r n (cb_mem d)) = xfer_buf r (n + k) (cb_mem d)"
proof -
  have u: "unat (rd_fAddr r + of_nat (2 * n)) = unat (rd_fAddr r) + 2 * n"
    using moved_ready(2) [OF assms(1,2), of "cb_mem d" d "cb_mem d" kStatusBusy z] assms(1)
    by (simp add: mem_upd_def moved_def dma_ready_def)
  have len: "rd_fpBlock r + (n + k) \<le> length (rd_buf r)"
    using assms by (auto simp: dma_ready_def)
  then have "take k (drop (rd_fpBlock r + n) (rd_buf r)) = drop n (take (n + k) (drop (rd_fpBlock r) (rd_buf r)))"
    by (simp add: drop_take add.commute)
  moreover have "take n (drop (rd_fpBlock r) (rd_buf r)) = take n (take (n + k) (drop (rd_fpBlock r) (rd_buf r)))"
    by simp
  ultimately have "take (n + k) (drop (rd_fpBlock r) (rd_buf r)) =
      take n (drop (rd_fpBlock r) (rd_buf r)) @ take k (drop (rd_fpBlock r + n) (rd_buf r))"
    by (metis append_take_drop_id)
  then show "xfer_mem (moved n (cb_mem d) kStatusBusy z r) k (xfer_mem r n (cb_mem d)) = xfer_mem r (n + k) (cb_mem d)"
    using wr_words_append [of "unat (rd_fAddr r)" "take n (drop (rd_fpBlock r) (rd_buf r))" "take k (drop (rd_fpBlock r + n) (rd_buf r))" "cb_mem d"] u len
    by (simp add: xfer_mem_def moved_def xfer_buf_def del: of_nat_mult)
  show "xfer_buf (moved n (cb_mem d) kStatusBusy z r) k (xfer_mem r n (cb_mem d)) = xfer_buf r (n + k) (cb_mem d)"
    using rd_words_append [of "unat (rd_fAddr r)" n k "cb_mem d"] u len
    by (simp add: xfer_mem_def moved_def xfer_buf_def ac_simps del: of_nat_mult)
qed


section \<open>A chain of chunks\<close>

definition dma_link :: "cpu \<Rightarrow> nat \<Rightarrow> nat \<Rightarrow> ('c \<times> cpport) link" where
  "dma_link p bm b = link_snd (cp_link (cp_fBase p) bm b)"

definition rdma_cont :: "('r \<Rightarrow> 's \<Rightarrow> (int \<times> 'r \<times> 's) result) \<Rightarrow> (int \<times> 'r \<times> 's) result \<Rightarrow> ('r \<times> 's) result option" where
  "rdma_cont hdl x = (case x of
        Inl e \<Rightarrow> Some (Inl e)
      | Inr (irc, r', s') \<Rightarrow> if irc > 0 then rdma_chain hdl r' s' else Some (Inr (r', s')))"

lemma rdma_chain_cont: "rdma_chain hdl r s = rdma_cont hdl (hdl r s)"
  by (subst rdma_chain.simps) (simp add: rdma_cont_def)

lemma rdma_cont_ebind: "rdma_cont h (ebind x (\<lambda>(a, b). ebind (f a b) (\<lambda>(r, s). Inr (0, g r, s)))) =
    Some (ebind x (\<lambda>(a, b). ebind (f a b) (\<lambda>(r, s). Inr (g r, s))))"
proof (cases x)
  case (Inr y)
  then show ?thesis
    by (cases y; cases "f (fst y) (snd y)") (auto simp: rdma_cont_def)
qed (simp add: rdma_cont_def)

text \<open>What a controller promises that uses DMA: nothing is done between the chunks; in front of the last one the
  register writes \<open>ext\<close> are added to the command list; the callbacks keep the status. \<open>inv\<close> holds of the state of
  the controller.\<close>

locale dma_client =
  fixes p :: cpu
    and inv :: "'c \<Rightarrow> bool"
    and ext :: "nat \<Rightarrow> 'c \<Rightarrow> (u16 \<times> u16) list option"
    and cb :: "('a, 'c \<times> cpport) rdma_cbs"
  assumes pre_busy: "inv c \<Longrightarrow> rc_PreExecCB cb kStatusBusy nd nx l (c, d) = Inr (l, (c, d))"
    and pre_last: "inv c \<Longrightarrow> rc_PreExecCB cb kStatusBusyLast nd nx l (c, d) =
      Inr (l\<lparr>cl_fList := cl_fList l @ ext_cmds (ext (nd + nx) c)\<rparr>, (c, d))"
    and ext_regs: "inv c \<Longrightarrow> ext_ok (cp_fBase p) (ext n c)"
    and post_busy: "inv c \<Longrightarrow> rc_PostExecCB cb kStatusBusy nd l n r (c, d) = Inr (r, (c, d))"
    and post_keeps: "rc_PostExecCB cb st nd l n r s = Inr (r', s') \<Longrightarrow> rd_fStatus r' = rd_fStatus r"
    and hook_keeps: "rc_PostRdmaHook cb nd r s = Inr (r', s') \<Longrightarrow> rd_fStatus r' = rd_fStatus r \<and> rd_fNWordDone r' = rd_fNWordDone r"
begin

lemma dma_Exec: "srv_Exec (dma_link p bm b) l (c, d) = ebind (cb_exec (cp_fBase p) l d) (\<lambda>(rc, l', d').
    if \<not> rc then Inl (Rexception ''RlinkConnect::Exec'' ''Exec() failed: '') else Inr (l', (c, d')))"
  by (cases "cb_exec (cp_fBase p) l d") (auto simp: srv_Exec_def throw_fail_def dma_link_def link_snd_def cp_link_def)

lemma exec_chunk:
  assumes "dma_ready bm r d" and "0 < n" and "n \<le> rd_fNWordRest r" and "n \<le> rd_fNWordMax r" and "ext_ok (cp_fBase p) x"
    and l: "cl_fList l = chunk_cmds (if rd_fIsWMem r then kCmdWblk else kCmdRblk) (cp_fBase p) (rd_fAddr r) (rd_fMode r)
      (drop (rd_fpBlock r) (rd_buf r)) n @ ext_cmds x"
  shows "\<exists>l' d' cmd. srv_Exec (dma_link p bm b) l (c, d) = Inr (l', (c, d')) \<and> cl_at 2 l' = Inr cmd \<and> cmd_fBlockDone cmd = n \<and> labo_seen x 3 l' \<and>
    (if rd_fIsWMem r then rd_buf r else take (rd_fpBlock r) (rd_buf r) @ BlockPointer cmd) = xfer_buf r n (cb_mem d) \<and>
    mem_upd (xfer_mem r n (cb_mem d)) (d\<lparr>cb_log := cb_log d @ ext_log x\<rparr>) d'"
proof -
  have g: "even (unat (rd_fAddr r))" "in22 (rd_fAddr r) n d" "n \<le> 65535" "n \<le> length (drop (rd_fpBlock r) (rd_buf r))"
    "word_mode d" "bit (rd_fMode r) 6"
    using assms(1-4) by (auto simp: dma_ready_def in22_def)
  show ?thesis
  proof (cases "rd_fIsWMem r")
    case True
    then show ?thesis
      using exec_wmem [OF g(1,2) assms(2) g(3,4,5,6) assms(5), of l] l
      by (fastforce simp: dma_Exec chunk_cmds_def xfer_buf_def xfer_mem_def)
  next
    case False
    then show ?thesis
      using exec_rmem [OF g(1,2) assms(2) g(3,5,6) assms(5), of l "drop (rd_fpBlock r) (rd_buf r)"] l assms(2)
      by (fastforce simp: dma_Exec chunk_cmds_def xfer_buf_def xfer_mem_def add.commute)
  qed
qed

lemma chunk_run:
  assumes "dma_ready bm r d" and n: "n = min (rd_fNWordRest r) (rd_fNWordMax r)" and "inv c"
    and x: "x = (if n = rd_fNWordRest r then ext (rd_fNWordDone r + n) c else None)"
  shows "\<exists>l' d' z. rdma_chunk (dma_link p bm b) cb p r (c, d) =
      (if n = rd_fNWordRest r then
         ebind (rc_PostRdmaHook cb (rd_fNWordDone r + n) (moved n (cb_mem d) kStatusDone z r) (c, d')) (\<lambda>(r6, s4).
         ebind (rc_PostExecCB cb kStatusDone (rd_fNWordDone r + n) l' 3 r6 s4) (\<lambda>(r7, s5). Inr (0, r7\<lparr>rd_fStatus := kStatusDone\<rparr>, s5)))
       else Inr (1, moved n (cb_mem d) kStatusBusy z r, (c, d'))) \<and>
    labo_seen x 3 l' \<and> mem_upd (xfer_mem r n (cb_mem d)) (d\<lparr>cb_log := cb_log d @ ext_log x\<rparr>) d'"
proof -
  define r2 where "r2 = rd_inc (if rd_fIsWMem r then kStatNRdmaWMem else kStatNRdmaRMem) r"
  define r3 where "r3 = (if n = rd_fNWordRest r2 then r2\<lparr>rd_fStatus := kStatusBusyLast\<rparr> else r2)"
  define l where "l = clist_new\<lparr>cl_fList := chunk_cmds (if rd_fIsWMem r then kCmdWblk else kCmdRblk) (cp_fBase p) (rd_fAddr r)
    (rd_fMode r) (drop (rd_fpBlock r) (rd_buf r)) n\<rparr>"
  define l1 where "l1 = l\<lparr>cl_fList := cl_fList l @ ext_cmds x\<rparr>"
  define r4 where "r4 = (if cl_Size l1 \<noteq> 3 then rd_inc kStatNExtClist r3 else r3)"
  let ?st = "if n = rd_fNWordRest r then kStatusBusyLast else kStatusBusy"
  have b: "0 < n" "n \<le> bm" "n \<le> 65535" "n \<le> rd_fNWordRest r" "n \<le> rd_fNWordMax r"
    using assms(1) by (auto simp: n dma_ready_def)
  have cl: "rdma_clist (dma_link p bm b) p n r2 (c, d) = Inr l"
    using rdma_clist_eq [of n "dma_link p bm b" "(c, d)" p r2] b by (simp add: dma_link_def link_snd_def cp_link_def rd_inc_def r2_def l_def)
  have sz: "cl_Size l = 3"
    by (simp add: cl_Size_def chunk_cmds_def l_def)
  have r3: "rd_fStatus r3 = ?st" "rd_fNWordDone r3 = rd_fNWordDone r"
    using assms(1) by (simp_all add: r3_def r2_def rd_inc_def dma_ready_def)
  have pre: "rc_PreExecCB cb (rd_fStatus r3) (rd_fNWordDone r3) n l (c, d) = Inr (l1, (c, d))"
    unfolding r3 l1_def using pre_busy [OF assms(3)] pre_last [OF assms(3)] by (auto simp: x ext_cmds_def)
  have r4: "r4 = r\<lparr>rd_fStatus := ?st, rd_fStats := rd_fStats r4\<rparr>"
    using assms(1) by (cases r) (auto simp: r4_def r3_def r2_def rd_inc_def dma_ready_def)
  have "ext_ok (cp_fBase p) x"
    using ext_regs [OF assms(3)] by (auto simp: x ext_ok_def ext_log_def)
  from exec_chunk [OF assms(1) b(1,4,5) this, of l1 b c] obtain l' d' cmd where
    e: "srv_Exec (dma_link p bm b) l1 (c, d) = Inr (l', (c, d'))" "cl_at 2 l' = Inr cmd" "cmd_fBlockDone cmd = n" "labo_seen x 3 l'"
      "(if rd_fIsWMem r then rd_buf r else take (rd_fpBlock r) (rd_buf r) @ BlockPointer cmd) = xfer_buf r n (cb_mem d)"
      "mem_upd (xfer_mem r n (cb_mem d)) (d\<lparr>cb_log := cb_log d @ ext_log x\<rparr>) d'"
    by (auto simp: l1_def l_def)
  have f: "rdma_fetch n cmd r4 = r\<lparr>rd_fStatus := ?st, rd_fStats := rd_fStats r4, rd_buf := xfer_buf r n (cb_mem d)\<rparr>"
    using e(5) b(1) by (subst r4) (auto simp: rdma_fetch_def split: if_splits)
  have adv: "rdma_advance n n (rdma_fetch n cmd r4) =
      (n = rd_fNWordRest r, moved n (cb_mem d) (if n = rd_fNWordRest r then kStatusDone else kStatusBusy) (rd_fStats r4) r)"
    using b(4) by (auto simp: f rdma_advance_def Let_def moved_def)
  have run: "rdma_chunk (dma_link p bm b) cb p r (c, d) =
      (let (islast, r5) = rdma_advance n n (rdma_fetch n cmd r4)
       in ebind (if islast then rc_PostRdmaHook cb (rd_fNWordDone r5) r5 (c, d') else Inr (r5, (c, d'))) (\<lambda>(r6, s4).
          ebind (rc_PostExecCB cb (rd_fStatus r6) (rd_fNWordDone r6) l' 3 r6 s4) (\<lambda>(r7, s5).
            if rd_fStatus r7 = kStatusBusy then Inr (1, r7, s5) else Inr (0, r7\<lparr>rd_fStatus := kStatusDone\<rparr>, s5))))"
    unfolding rdma_chunk_def n [symmetric] r2_def [symmetric] Let_def
    by (simp add: cl sz pre e(1-3) r3_def [symmetric] r4_def)
  show ?thesis
  proof (cases "n = rd_fNWordRest r")
    case True
    let ?r5 = "moved n (cb_mem d) kStatusDone (rd_fStats r4) r"
    have st: "rd_fStatus ?r5 = kStatusDone" "rd_fNWordDone ?r5 = rd_fNWordDone r + n"
      by (simp_all add: moved_def)
    have post: "ebind (rc_PostExecCB cb (rd_fStatus r6) (rd_fNWordDone r6) l' 3 r6 s4) (\<lambda>(r7, s5).
          if rd_fStatus r7 = kStatusBusy then Inr (1, r7, s5) else Inr (0, r7\<lparr>rd_fStatus := kStatusDone\<rparr>, s5)) =
        ebind (rc_PostExecCB cb kStatusDone (rd_fNWordDone r + n) l' 3 r6 s4) (\<lambda>(r7, s5). Inr (0, r7\<lparr>rd_fStatus := kStatusDone\<rparr>, s5))"
      if "rc_PostRdmaHook cb (rd_fNWordDone r + n) ?r5 (c, d') = Inr (r6, s4)" for r6 s4
    proof -
      have k: "rd_fStatus r6 = kStatusDone" "rd_fNWordDone r6 = rd_fNWordDone r + n"
        using hook_keeps [OF that] st by simp_all
      show ?thesis
        unfolding k
        by (cases "rc_PostExecCB cb kStatusDone (rd_fNWordDone r + n) l' 3 r6 s4") (auto dest!: post_keeps simp: k)
    qed
    have "rdma_chunk (dma_link p bm b) cb p r (c, d) =
        ebind (rc_PostRdmaHook cb (rd_fNWordDone r + n) ?r5 (c, d')) (\<lambda>(r6, s4).
        ebind (rc_PostExecCB cb kStatusDone (rd_fNWordDone r + n) l' 3 r6 s4) (\<lambda>(r7, s5). Inr (0, r7\<lparr>rd_fStatus := kStatusDone\<rparr>, s5)))"
      unfolding run adv using True st post
      by (cases "rc_PostRdmaHook cb (rd_fNWordDone r + n) ?r5 (c, d')") auto
    then show ?thesis
      using True e(4,6) by auto
  next
    case False
    have "rdma_chunk (dma_link p bm b) cb p r (c, d) = Inr (1, moved n (cb_mem d) kStatusBusy (rd_fStats r4) r, (c, d'))"
      unfolding run adv using False post_busy [OF assms(3)] by (simp add: moved_def)
    then show ?thesis
      using False e(4,6) by auto
  qed
qed

text \<open>The chain ends, and the whole transfer is one transfer of all words.\<close>

lemma chain_run:
  assumes "dma_ready bm r d" and "inv c" and "n = rd_fNWordRest r"
  shows "\<exists>l' d' z. rdma_cont (RdmaHandler (dma_link p bm b) cb p) (rdma_chunk (dma_link p bm b) cb p r (c, d)) =
      Some (ebind (rc_PostRdmaHook cb (rd_fNWordDone r + n) (moved n (cb_mem d) kStatusDone z r) (c, d')) (\<lambda>(r6, s4).
        ebind (rc_PostExecCB cb kStatusDone (rd_fNWordDone r + n) l' 3 r6 s4) (\<lambda>(r7, s5). Inr (r7\<lparr>rd_fStatus := kStatusDone\<rparr>, s5)))) \<and>
    labo_seen (ext (rd_fNWordDone r + n) c) 3 l' \<and>
    mem_upd (xfer_mem r n (cb_mem d)) (d\<lparr>cb_log := cb_log d @ ext_log (ext (rd_fNWordDone r + n) c)\<rparr>) d'"
  using assms(1,3)
proof (induction n arbitrary: r d rule: less_induct)
  case (less n)
  let ?H = "RdmaHandler (dma_link p bm b) cb p"
  define m where "m = min (rd_fNWordRest r) (rd_fNWordMax r)"
  from chunk_run [OF less.prems(1) m_def assms(2) refl, of b] obtain l1 d1 z1 where
    1: "rdma_chunk (dma_link p bm b) cb p r (c, d) =
      (if m = rd_fNWordRest r then
         ebind (rc_PostRdmaHook cb (rd_fNWordDone r + m) (moved m (cb_mem d) kStatusDone z1 r) (c, d1)) (\<lambda>(r6, s4).
         ebind (rc_PostExecCB cb kStatusDone (rd_fNWordDone r + m) l1 3 r6 s4) (\<lambda>(r7, s5). Inr (0, r7\<lparr>rd_fStatus := kStatusDone\<rparr>, s5)))
       else Inr (1, moved m (cb_mem d) kStatusBusy z1 r, (c, d1)))"
    "labo_seen (if m = rd_fNWordRest r then ext (rd_fNWordDone r + m) c else None) 3 l1"
    "mem_upd (xfer_mem r m (cb_mem d)) (d\<lparr>cb_log := cb_log d @ ext_log (if m = rd_fNWordRest r then ext (rd_fNWordDone r + m) c else None)\<rparr>) d1"
    by blast
  show ?case
  proof (cases "m = rd_fNWordRest r")
    case True
    then have mn: "m = n"
      using less.prems(2) by simp
    have t: "n = rd_fNWordRest r \<longleftrightarrow> True"
      using less.prems(2) by simp
    show ?thesis
      using 1 unfolding mn t if_True
      by (intro exI [of _ l1] exI [of _ d1] exI [of _ z1]) (simp add: rdma_cont_ebind)
  next
    case False
    let ?r = "moved m (cb_mem d) kStatusBusy z1 r"
    have lt: "m < rd_fNWordRest r" "0 < m" "m + (n - m) = n"
      using False less.prems by (auto simp: dma_ready_def m_def)
    have u: "mem_upd (xfer_mem r m (cb_mem d)) d d1"
      using 1(3) False by (simp add: ext_log_def)
    have rdy: "dma_ready bm ?r d1" "rd_fNWordRest ?r = n - m" "rd_fNWordDone ?r = rd_fNWordDone r + m"
      using moved_ready(1) [OF less.prems(1) lt(1) u] less.prems(2) by (simp_all add: moved_def)
    have m1: "cb_mem d1 = xfer_mem r m (cb_mem d)"
      using u by (simp add: mem_upd_def)
    have "n - m < n"
      using lt(2,3) by simp
    from less.IH [OF this rdy(1) rdy(2) [symmetric]] obtain l2 d2 z2 where
      2: "rdma_cont ?H (rdma_chunk (dma_link p bm b) cb p ?r (c, d1)) =
        Some (ebind (rc_PostRdmaHook cb (rd_fNWordDone ?r + (n - m)) (moved (n - m) (cb_mem d1) kStatusDone z2 ?r) (c, d2)) (\<lambda>(r6, s4).
          ebind (rc_PostExecCB cb kStatusDone (rd_fNWordDone ?r + (n - m)) l2 3 r6 s4) (\<lambda>(r7, s5). Inr (r7\<lparr>rd_fStatus := kStatusDone\<rparr>, s5))))"
        "labo_seen (ext (rd_fNWordDone ?r + (n - m)) c) 3 l2"
        "mem_upd (xfer_mem ?r (n - m) (cb_mem d1)) (d1\<lparr>cb_log := cb_log d1 @ ext_log (ext (rd_fNWordDone ?r + (n - m)) c)\<rparr>) d2"
      by blast
    have tot: "rd_fNWordDone ?r + (n - m) = rd_fNWordDone r + n"
      using rdy(3) lt(3) by simp
    have x: "xfer_mem ?r (n - m) (cb_mem d1) = xfer_mem r n (cb_mem d)" "xfer_buf ?r (n - m) (cb_mem d1) = xfer_buf r n (cb_mem d)"
      using xfer_moved [OF less.prems(1) lt(1), of "n - m"] lt(3) less.prems(2) by (simp_all add: m1)
    have mv: "moved (n - m) (cb_mem d1) kStatusDone z2 ?r = moved n (cb_mem d) kStatusDone z2 r"
      using x(2) lt(3) by (subst (1 3) moved_def) (simp add: moved_def algebra_simps flip: of_nat_add)
    have "rdma_cont ?H (rdma_chunk (dma_link p bm b) cb p r (c, d)) = rdma_chain ?H ?r (c, d1)"
      using 1(1) False by (simp add: rdma_cont_def)
    also have "\<dots> = rdma_cont ?H (rdma_chunk (dma_link p bm b) cb p ?r (c, d1))"
      using rdy(3) lt(2) by (simp add: rdma_chain_cont RdmaHandler_def)
    finally have "rdma_cont ?H (rdma_chunk (dma_link p bm b) cb p r (c, d)) = rdma_cont ?H (rdma_chunk (dma_link p bm b) cb p ?r (c, d1))" .
    then show ?thesis
      using 2 u unfolding tot x mv by (intro exI [of _ l2] exI [of _ d2] exI [of _ z2]) (auto simp: mem_upd_def)
  qed
qed

end

section \<open>Disk transfers\<close>

text \<open>The words of \<open>n\<close> blocks from \<open>lba\<close> on.\<close>

definition disk_bytes :: "(nat \<Rightarrow> u8 list) \<Rightarrow> nat \<Rightarrow> nat \<Rightarrow> u8 list" where
  "disk_bytes A lba n = concat (map A [lba..<lba + n])"

text \<open>The blocks of a disk after a write of words, the last block filled with 0xdead.\<close>

definition pad_words :: "nat \<Rightarrow> u16 list \<Rightarrow> u16 list" where
  "pad_words bw ws = ws @ replicate (nblk_of bw (length ws) * bw - length ws) 0xdead"

definition put_disk :: "nat \<Rightarrow> nat \<Rightarrow> u16 list \<Rightarrow> (nat \<Rightarrow> u8 list) \<Rightarrow> nat \<Rightarrow> u8 list" where
  "put_disk bs lba ws A =
     (\<lambda>i. if lba \<le> i \<and> i < lba + nblk_of (bs div 2) (length ws)
          then blk_bytes bs (i - lba) (bytes16 (pad_words (bs div 2) ws)) else A i)"

lemma nblk_le: "0 < bw \<Longrightarrow> n \<le> nblk_of bw n * bw"
proof -
  assume b: "0 < bw"
  have "(n + bw - 1) mod bw < bw"
    using b by simp
  moreover have "nblk_of bw n * bw + (n + bw - 1) mod bw = n + bw - 1"
    by (simp add: nblk_of_def)
  ultimately show ?thesis
    by linarith
qed

lemma nblk_pos: "0 < bw \<Longrightarrow> 0 < n \<Longrightarrow> 0 < nblk_of bw n"
  by (simp add: nblk_of_def div_greater_zero_iff)

lemma length_pad_words: "0 < bw \<Longrightarrow> length (pad_words bw ws) = nblk_of bw (length ws) * bw"
  using nblk_le [of bw "length ws"] by (simp add: pad_words_def)

definition disk_ready :: "nat \<Rightarrow> 'a udisk_scheme \<Rightarrow> bool" where
  "disk_ready bs u = (ud_fBlksize u = bs \<and> even bs \<and> 0 < bs \<and> (\<exists>v. ud_fupVirt u = Some v \<and> ad_inv bs v))"

definition unit_blk :: "'a udisk_scheme \<Rightarrow> nat \<Rightarrow> u8 list" where
  "unit_blk u = (case ud_fupVirt u of None \<Rightarrow> (\<lambda>_. []) | Some v \<Rightarrow> ad_blk (ud_fBlksize u) v)"

definition same_unit :: "'a udisk_scheme \<Rightarrow> 'a udisk_scheme \<Rightarrow> bool" where
  "same_unit u u' = (u' = u\<lparr>ud_fupVirt := ud_fupVirt u'\<rparr>)"

lemma VirtRead_ok:
  assumes "disk_ready bs u" and "lba + n \<le> 2 ^ 32"
  shows "\<exists>u'. VirtRead lba n u = Inr (True, disk_bytes (unit_blk u) lba n, u') \<and> same_unit u u' \<and> disk_ready bs u' \<and> unit_blk u' = unit_blk u"
proof -
  obtain v where v: "ud_fupVirt u = Some v" "ad_inv bs v" "ud_fBlksize u = bs"
    using assms(1) by (auto simp: disk_ready_def)
  from vdisk.rd_blk [OF v(2) assms(2)] show ?thesis
    using assms(1) v by (auto simp: VirtRead_def disk_bytes_def unit_blk_def same_unit_def disk_ready_def)
qed

lemma VirtWrite_ok:
  assumes "disk_ready bs u" and "lba + n \<le> 2 ^ 32" and "length ds = n * bs"
  shows "\<exists>u'. VirtWrite lba n ds u = (True, u') \<and> same_unit u u' \<and> disk_ready bs u' \<and>
    arr_eq (unit_blk u') (\<lambda>i. if lba \<le> i \<and> i < lba + n then blk_bytes bs (i - lba) ds else unit_blk u i)"
proof -
  obtain v where v: "ud_fupVirt u = Some v" "ad_inv bs v" "ud_fBlksize u = bs"
    using assms(1) by (auto simp: disk_ready_def)
  from vdisk.wr_blk [OF v(2) assms(2,3)] obtain v' where
    v': "disk_Write lba n ds v = (True, v')" "ad_inv bs v'"
      "arr_eq (ad_blk bs v') (\<lambda>i. if lba \<le> i \<and> i < lba + n then blk_bytes bs (i - lba) ds else ad_blk bs v i)"
    by blast
  then show ?thesis
    using assms(1) v unfolding unit_blk_def by (simp add: VirtWrite_def same_unit_def disk_ready_def cong: if_cong)
qed

lemma length_ad_blk: "ad_inv bs ad \<Longrightarrow> length (ad_blk bs ad i) = bs"
  by (cases ad) (auto simp: ad_inv_def ad_blk_def file_blk_def over_blk_def over_inv_def ram_blk_def ram_inv_def ReadPattern_ok(2) bm_find_len
      split: option.split)

lemma length_disk_bytes:
  assumes "disk_ready bs u"
  shows "length (disk_bytes (unit_blk u) lba n) = n * bs"
  using assms by (induction n) (auto simp: disk_bytes_def disk_ready_def unit_blk_def length_ad_blk)

section \<open>The hooks\<close>

lemma PreRdmaHook_read:
  assumes "disk_ready bs (du_get e (rk_fpUnit r) s)" and "rk_fFunc r = kFuncRead" and "rk_fLba r + rk_fNBlock r \<le> 2 ^ 32"
  shows "\<exists>u'. PreRdmaHook e r s =
      Inr (r\<lparr>rd_buf := pairs (disk_bytes (unit_blk (du_get e (rk_fpUnit r) s)) (rk_fLba r) (rk_fNBlock r)) @
             drop (rk_fNBlock r * (bs div 2)) (rd_buf r)\<rparr>, du_put e (rk_fpUnit r) u' s) \<and>
    same_unit (du_get e (rk_fpUnit r) s) u' \<and> disk_ready bs u' \<and> unit_blk u' = unit_blk (du_get e (rk_fpUnit r) s)"
proof -
  have "rk_fNBlock r * bs div 2 = rk_fNBlock r * (bs div 2)"
    using assms(1) by (auto simp: disk_ready_def)
  with VirtRead_ok [OF assms(1,3)] length_disk_bytes [OF assms(1), of "rk_fLba r" "rk_fNBlock r"] show ?thesis
    using assms(2) by (auto simp: PreRdmaHook_def length_pairs)
qed

lemma PreRdmaHook_other: "rk_fFunc r \<noteq> kFuncRead \<Longrightarrow> PreRdmaHook e r s = Inr (r, s)"
  by (simp add: PreRdmaHook_def)

lemma PostRdmaHook_other: "rk_fFunc r \<noteq> kFuncWrite \<Longrightarrow> PostRdmaHook e n r s = Inr (r, s)"
  by (simp add: PostRdmaHook_def)

lemma PostRdmaHook_keeps:
  assumes "PostRdmaHook e n r s = Inr (r', s')"
  shows "\<exists>b z. r' = r\<lparr>rd_buf := b, rd_fStats := z\<rparr>"
proof -
  have "r' = r\<lparr>rd_buf := rd_buf r', rd_fStats := rd_fStats r'\<rparr>"
    using assms by (cases r) (auto simp: PostRdmaHook_def Let_def rd_inc_def split: if_splits prod.splits)
  then show ?thesis
    by blast
qed

lemma PostRdmaHook_write:
  assumes "disk_ready bs (du_get e (rk_fpUnit r) s)" and "rk_fFunc r = kFuncWrite" and "0 < n" and "n \<le> length (rd_buf r)"
    and "nblk_of (bs div 2) n * (bs div 2) \<le> length (rd_buf r)" and "rk_fLba r + nblk_of (bs div 2) n \<le> 2 ^ 32"
  shows "\<exists>r' u'. PostRdmaHook e n r s = Inr (r', du_put e (rk_fpUnit r) u' s) \<and>
    same_unit (du_get e (rk_fpUnit r) s) u' \<and> disk_ready bs u' \<and>
    arr_eq (unit_blk u') (put_disk bs (rk_fLba r) (take n (rd_buf r)) (unit_blk (du_get e (rk_fpUnit r) s)))"
proof -
  let ?u = "du_get e (rk_fpUnit r) s"
  let ?bw = "bs div 2"
  let ?nb = "nblk_of ?bw n"
  let ?ws = "take n (rd_buf r)"
  let ?pad = "?nb * ?bw - n"
  have bw: "0 < ?bw" "bs = 2 * ?bw"
    using assms(1) by (auto simp: disk_ready_def)
  have pl: "length (pad_words ?bw ?ws) = ?nb * ?bw"
    using length_pad_words [OF bw(1), of ?ws] assms(4) by simp
  define r1 where "r1 = (if ?pad \<noteq> 0
      then (rd_inc kStatNWritePadded r)\<lparr>rd_buf := take n (rd_buf r) @ replicate ?pad 0xdead @ drop (n + ?pad) (rd_buf r)\<rparr> else r)"
  have "take (?nb * ?bw) (rd_buf r1) = pad_words ?bw ?ws"
    using nblk_le [OF bw(1), of n] assms(4) by (auto simp: r1_def pad_words_def)
  moreover have "length (bytes16 (pad_words ?bw ?ws)) = ?nb * bs"
    using pl bw(2) by simp
  moreover obtain u' where u': "VirtWrite (rk_fLba r) ?nb (bytes16 (pad_words ?bw ?ws)) ?u = (True, u')" "same_unit ?u u'" "disk_ready bs u'"
      "arr_eq (unit_blk u') (\<lambda>i. if rk_fLba r \<le> i \<and> i < rk_fLba r + ?nb then blk_bytes bs (i - rk_fLba r) (bytes16 (pad_words ?bw ?ws)) else unit_blk ?u i)"
    using VirtWrite_ok [OF assms(1,6), of "bytes16 (pad_words ?bw ?ws)"] pl bw(2) by auto
  moreover have "ud_fBlksize ?u = bs" "n \<noteq> 0" "(rk_fFunc r \<noteq> kFuncWrite) = False"
    using assms(1,2,3) by (simp_all add: disk_ready_def)
  ultimately have "PostRdmaHook e n r s = Inr (r1, du_put e (rk_fpUnit r) u' s)"
    unfolding PostRdmaHook_def Let_def by (simp only: r1_def [symmetric] if_False prod.case simp_thms)
  then show ?thesis
    using u'(2-4) assms(4) by (auto simp: put_disk_def)
qed

section \<open>Controllers for disks\<close>

text \<open>A request that has been queued.\<close>

definition dma_set :: "bool \<Rightarrow> u32 \<Rightarrow> nat \<Rightarrow> u16 \<Rightarrow> nat \<Rightarrow> nat \<Rightarrow> rdma_func \<Rightarrow> nat \<Rightarrow> rdmadisk \<Rightarrow> bool" where
  "dma_set w a siz mode lba i f bs r =
     (rd_fStatus r = kStatusBusy \<and> rd_fIsWMem r = w \<and> rd_fAddr r = a \<and> rd_fMode r = mode \<and> rd_fNWordRest r = siz \<and>
      rd_fNWordDone r = 0 \<and> rd_fpBlock r = 0 \<and> rk_fpUnit r = i \<and> rk_fNBlock r = nblk_of (bs div 2) siz \<and> rk_fLba r = lba \<and>
      rk_fFunc r = f \<and> nblk_of (bs div 2) siz * (bs div 2) \<le> length (rd_buf r))"

definition chunk_ok :: "nat \<Rightarrow> 'a rdma_scheme \<Rightarrow> bool" where
  "chunk_ok bm r = (0 < rd_fNWordMax r \<and> rd_fNWordMax r \<le> bm \<and> rd_fNWordMax r \<le> 65535)"

text \<open>The chunk size, set by the user or taken from the link.\<close>

definition chunk_cfg :: "nat \<Rightarrow> nat \<Rightarrow> 'a rdma_scheme \<Rightarrow> bool" where
  "chunk_cfg bm b r = (let n = (if rd_fChunksize r = 0 then b else rd_fChunksize r) in 0 < n \<and> n \<le> bm \<and> n \<le> 65535)"

lemma Queue_ok:
  assumes "\<not> rd_IsActive r" and "chunk_cfg bm b r" and "ud_fBlksize (du_get e i (c, d)) = bs"
  shows "\<exists>r'. QueueDiskRead (dma_link p bm b) h e a siz mode lba i r (c, d) = Inr (r', (c, d)) \<and>
      dma_set True a siz mode (unat lba) i kFuncRead bs r' \<and> chunk_ok bm r'"
    "\<exists>r'. QueueDiskWrite (dma_link p bm b) h e a siz mode lba i r (c, d) = Inr (r', (c, d)) \<and>
      dma_set False a siz mode (unat lba) i kFuncWrite bs r' \<and> chunk_ok bm r'"
    "\<exists>r'. QueueDiskWriteCheck (dma_link p bm b) h e a siz mode lba i r (c, d) = Inr (r', (c, d)) \<and>
      dma_set False a siz mode (unat lba) i kFuncWriteCheck bs r' \<and> chunk_ok bm r'"
  using assms
  by (auto simp: QueueDiskRead_def QueueDiskWrite_def QueueDiskWriteCheck_def QueueWMem_def QueueRMem_def SetupDisk_def SetupRdma_def rd_IsActive_def
      rd_inc_def dma_link_def link_snd_def cp_link_def dma_set_def chunk_ok_def chunk_cfg_def Let_def)

text \<open>A controller whose DMA is a \<open>Rw11RdmaDisk\<close>. The units are part of the state of the controller; \<open>put\<close> replaces
  one of them.\<close>

locale disk_dma = dma_client p inv ext cb
  for p :: cpu and inv :: "'c \<Rightarrow> bool" and ext :: "nat \<Rightarrow> 'c \<Rightarrow> (u16 \<times> u16) list option"
    and cb :: "(disk_cbs_ext, 'c \<times> cpport) rdma_cbs" +
  fixes e :: "('c \<times> cpport, 'u udisk_scheme) dunits"
    and unit :: "nat \<Rightarrow> 'c \<Rightarrow> 'u udisk_scheme"
    and put :: "nat \<Rightarrow> 'u udisk_scheme \<Rightarrow> 'c \<Rightarrow> 'c"
  assumes hooks: "rc_PreRdmaHook cb = PreRdmaHook e" "rc_PostRdmaHook cb = PostRdmaHook e"
    and units: "du_get e i (c, d) = unit i c" "du_put e i u (c, d) = (put i u c, d)"
    and put_inv: "inv c \<Longrightarrow> same_unit (unit i c) u \<Longrightarrow> inv (put i u c) \<and> ext n (put i u c) = ext n c"
begin

lemma read_chain:
  assumes r: "dma_set True a siz mode lba i kFuncRead bs r" and "0 < siz" and "lba + nblk_of (bs div 2) siz \<le> 2 ^ 32"
    and u: "disk_ready bs (unit i c)" and "inv c" and "chunk_ok bm r" and "bit mode 6" and "in22 a siz d" and "word_mode d"
  shows "\<exists>l' d' r6 u'. rdma_chain (RdmaHandler (dma_link p bm b) cb p) r (c, d) =
      Some (ebind (rc_PostExecCB cb kStatusDone siz l' 3 r6 (put i u' c, d')) (\<lambda>(r7, s5). Inr (r7\<lparr>rd_fStatus := kStatusDone\<rparr>, s5))) \<and>
    labo_seen (ext siz c) 3 l' \<and> same_unit (unit i c) u' \<and> disk_ready bs u' \<and> unit_blk u' = unit_blk (unit i c) \<and>
    mem_upd (wr_words (unat a) (take siz (pairs (disk_bytes (unit_blk (unit i c)) lba (nblk_of (bs div 2) siz)))) (cb_mem d))
      (d\<lparr>cb_log := cb_log d @ ext_log (ext siz c)\<rparr>) d'"
proof -
  let ?nb = "nblk_of (bs div 2) siz"
  let ?ws = "pairs (disk_bytes (unit_blk (unit i c)) lba ?nb)"
  let ?r = "r\<lparr>rd_buf := ?ws @ drop (?nb * (bs div 2)) (rd_buf r)\<rparr>"
  let ?H = "RdmaHandler (dma_link p bm b) cb p"
  note rs = r [unfolded dma_set_def]
  have "disk_ready bs (du_get e (rk_fpUnit r) (c, d))" "rk_fFunc r = kFuncRead" "rk_fLba r + rk_fNBlock r \<le> 2 ^ 32"
    using rs u assms(3) by (simp_all add: units)
  from PreRdmaHook_read [OF this] obtain u' where
    1: "PreRdmaHook e r (c, d) = Inr (?r, (put i u' c, d))" "same_unit (unit i c) u'" "disk_ready bs u'" "unit_blk u' = unit_blk (unit i c)"
    using rs by (auto simp: units)
  have bw: "0 < bs div 2" "bs = 2 * (bs div 2)"
    using u by (auto simp: disk_ready_def)
  have len: "length ?ws = ?nb * (bs div 2)"
    using length_disk_bytes [OF u, of lba ?nb] bw(2) by (simp add: length_pairs) (metis mult.assoc mult.commute nonzero_mult_div_cancel_left zero_neq_numeral)
  then have sl: "siz \<le> length ?ws"
    using nblk_le [OF bw(1), of siz] by simp
  have rdy: "dma_ready bm ?r d" "siz = rd_fNWordRest ?r"
    using rs assms(2,6-9) sl by (auto simp: dma_ready_def chunk_ok_def)
  have inv: "inv (put i u' c)" "ext siz (put i u' c) = ext siz c"
    using put_inv [OF assms(5) 1(2)] by simp_all
  have H: "?H r (c, d) = rdma_chunk (dma_link p bm b) cb p ?r (put i u' c, d)"
    using rs 1(1) by (simp add: RdmaHandler_def hooks)
  have d0: "rd_fNWordDone ?r = 0"
    using rs by simp
  from chain_run [OF rdy(1) inv(1) rdy(2), of b] obtain l' d' z where
    2: "rdma_cont ?H (?H r (c, d)) =
        Some (ebind (rc_PostRdmaHook cb siz (moved siz (cb_mem d) kStatusDone z ?r) (put i u' c, d')) (\<lambda>(r6, s4).
          ebind (rc_PostExecCB cb kStatusDone siz l' 3 r6 s4) (\<lambda>(r7, s5). Inr (r7\<lparr>rd_fStatus := kStatusDone\<rparr>, s5))))"
      "labo_seen (ext siz c) 3 l'" "mem_upd (xfer_mem ?r siz (cb_mem d)) (d\<lparr>cb_log := cb_log d @ ext_log (ext siz c)\<rparr>) d'"
    unfolding H d0 add_0 inv(2) by blast
  have "rc_PostRdmaHook cb siz (moved siz (cb_mem d) kStatusDone z ?r) (put i u' c, d') = Inr (moved siz (cb_mem d) kStatusDone z ?r, (put i u' c, d'))"
    using rs by (simp add: hooks PostRdmaHook_other moved_def)
  moreover have "xfer_mem ?r siz (cb_mem d) = wr_words (unat a) (take siz ?ws) (cb_mem d)"
    using rs sl by (simp add: xfer_mem_def)
  ultimately show ?thesis
    using 1(2-4) 2 unfolding rdma_chain_cont
    by (intro exI [of _ l'] exI [of _ d'] exI [of _ "moved siz (cb_mem d) kStatusDone z ?r"] exI [of _ u']) simp
qed

lemma write_chain:
  assumes r: "dma_set False a siz mode lba i kFuncWrite bs r" and "0 < siz" and "lba + nblk_of (bs div 2) siz \<le> 2 ^ 32"
    and u: "disk_ready bs (unit i c)" and "inv c" and "chunk_ok bm r" and "bit mode 6" and "in22 a siz d" and "word_mode d"
  shows "\<exists>l' d' r6 u'. rdma_chain (RdmaHandler (dma_link p bm b) cb p) r (c, d) =
      Some (ebind (rc_PostExecCB cb kStatusDone siz l' 3 r6 (put i u' c, d')) (\<lambda>(r7, s5). Inr (r7\<lparr>rd_fStatus := kStatusDone\<rparr>, s5))) \<and>
    labo_seen (ext siz c) 3 l' \<and> same_unit (unit i c) u' \<and> disk_ready bs u' \<and>
    arr_eq (unit_blk u') (put_disk bs lba (rd_words (unat a) siz (cb_mem d)) (unit_blk (unit i c))) \<and>
    mem_upd (cb_mem d) (d\<lparr>cb_log := cb_log d @ ext_log (ext siz c)\<rparr>) d'"
proof -
  let ?nb = "nblk_of (bs div 2) siz"
  let ?H = "RdmaHandler (dma_link p bm b) cb p"
  note rs = r [unfolded dma_set_def]
  have bw: "0 < bs div 2"
    using u by (auto simp: disk_ready_def)
  have sl: "siz \<le> length (rd_buf r)"
    using nblk_le [OF bw, of siz] rs by simp
  have rdy: "dma_ready bm r d" "siz = rd_fNWordRest r"
    using rs assms(2,6-9) sl by (auto simp: dma_ready_def chunk_ok_def)
  have H: "?H r (c, d) = rdma_chunk (dma_link p bm b) cb p r (c, d)"
    using rs by (simp add: RdmaHandler_def hooks PreRdmaHook_other)
  have d0: "rd_fNWordDone r = 0"
    using rs by simp
  from chain_run [OF rdy(1) assms(5) rdy(2), of b] obtain l' d' z where
    2: "rdma_cont ?H (?H r (c, d)) =
        Some (ebind (rc_PostRdmaHook cb siz (moved siz (cb_mem d) kStatusDone z r) (c, d')) (\<lambda>(r6, s4).
          ebind (rc_PostExecCB cb kStatusDone siz l' 3 r6 s4) (\<lambda>(r7, s5). Inr (r7\<lparr>rd_fStatus := kStatusDone\<rparr>, s5))))"
      "labo_seen (ext siz c) 3 l'" "mem_upd (xfer_mem r siz (cb_mem d)) (d\<lparr>cb_log := cb_log d @ ext_log (ext siz c)\<rparr>) d'"
    unfolding H d0 add_0 by blast
  let ?m = "moved siz (cb_mem d) kStatusDone z r"
  have buf: "rd_buf ?m = rd_words (unat a) siz (cb_mem d) @ drop siz (rd_buf r)"
    using rs by (simp add: moved_def xfer_buf_def)
  have mf: "rk_fpUnit ?m = i" "rk_fLba ?m = lba" "rk_fFunc ?m = kFuncWrite"
    using rs by (simp_all add: moved_def)
  have "disk_ready bs (du_get e (rk_fpUnit ?m) (c, d'))" "siz \<le> length (rd_buf ?m)" "?nb * (bs div 2) \<le> length (rd_buf ?m)"
      "rk_fLba ?m + ?nb \<le> 2 ^ 32"
    using rs u assms(3) sl unfolding buf mf by (simp_all add: units)
  from PostRdmaHook_write [OF this(1) mf(3) assms(2) this(2,3,4)] obtain r' u' where
    3: "PostRdmaHook e siz ?m (c, d') = Inr (r', (put i u' c, d'))" "same_unit (unit i c) u'" "disk_ready bs u'"
      "arr_eq (unit_blk u') (put_disk bs lba (rd_words (unat a) siz (cb_mem d)) (unit_blk (unit i c)))"
    unfolding mf buf units by (simp add: units) blast
  have "xfer_mem r siz (cb_mem d) = cb_mem d"
    using rs by (simp add: xfer_mem_def)
  then show ?thesis
    using 2 3 unfolding rdma_chain_cont hooks
    by (intro exI [of _ l'] exI [of _ d'] exI [of _ r'] exI [of _ u']) simp
qed

end

section \<open>Geometry\<close>

definition geom_ok :: "'a udisk_scheme \<Rightarrow> bool" where
  "geom_ok u = (0 < ud_fNSect u \<and> 0 < ud_fNHead u \<and> ud_fNSect u \<le> 2 ^ 16 \<and> ud_fNHead u \<le> 2 ^ 16)"

lemma unat_of_nat16: "n < 2 ^ 16 \<Longrightarrow> unat (of_nat n :: u16) = n"
  by (simp add: unat_of_nat)

lemma Chs2Lba_unat:
  assumes "unat se + ud_fNSect u * (unat h + ud_fNHead u * unat cy) < 2 ^ 32"
  shows "unat (Chs2Lba cy h se u) = unat se + ud_fNSect u * (unat h + ud_fNHead u * unat cy)"
  using assms unfolding Chs2Lba_def by (simp only: unat_of_nat len_of_numeral_defs) (simp add: take_bit_nat_eq_self)

lemma Lba2Chs_fields:
  assumes "geom_ok u" and "unat lba div (ud_fNSect u * ud_fNHead u) < 2 ^ 16" and "Lba2Chs lba u = (cy, h, se)"
  shows "unat cy = unat lba div (ud_fNSect u * ud_fNHead u)" "unat h = unat lba div ud_fNSect u mod ud_fNHead u" "unat se = unat lba mod ud_fNSect u"
proof -
  have m: "unat lba mod ud_fNSect u < 2 ^ 16" "unat lba div ud_fNSect u mod ud_fNHead u < 2 ^ 16"
    using assms(1) by (auto simp: geom_ok_def intro: less_le_trans [OF mod_less_divisor])
  show "unat cy = unat lba div (ud_fNSect u * ud_fNHead u)" "unat h = unat lba div ud_fNSect u mod ud_fNHead u" "unat se = unat lba mod ud_fNSect u"
    using assms(2,3) m by (auto simp: Lba2Chs_def unat_of_nat16)
qed

lemma Chs_Lba:
  assumes "geom_ok u" and "unat lba div (ud_fNSect u * ud_fNHead u) < 2 ^ 16" and "Lba2Chs lba u = (cy, h, se)"
  shows "Chs2Lba cy h se u = lba"
proof -
  note f = Lba2Chs_fields [OF assms]
  let ?t = "unat lba div ud_fNSect u"
  have "ud_fNHead u * (?t div ud_fNHead u) + ?t mod ud_fNHead u = ?t"
    by simp
  then have "unat h + ud_fNHead u * unat cy = ?t"
    by (simp add: f div_mult2_eq)
  then have "unat se + ud_fNSect u * (unat h + ud_fNHead u * unat cy) = unat lba"
    by (simp add: f(3))
  then show ?thesis
    by (simp add: Chs2Lba_def)
qed

lemma Lba_Chs:
  assumes "geom_ok u" and "unat se < ud_fNSect u" and "unat h < ud_fNHead u"
    and "unat se + ud_fNSect u * (unat h + ud_fNHead u * unat cy) < 2 ^ 32"
  shows "Lba2Chs (Chs2Lba cy h se u) u = (cy, h, se)"
proof -
  have "(unat se + ud_fNSect u * (unat h + ud_fNHead u * unat cy)) div ud_fNSect u = unat h + ud_fNHead u * unat cy"
    using assms(2) by simp
  then show ?thesis
    using assms(2,3) by (simp add: Lba2Chs_def Chs2Lba_unat [OF assms(4)] div_mult2_eq)
qed

end
