(* ===== verification/Rw11CntlBase.thy ===== *)
theory Rw11CntlBase
  imports Rw11Rdma
begin

text \<open>
  What the device controllers share: register writes that are collected in a command list, the command list for the
  primary information, and the start of a controller.
\<close>

named_theorems dev_defs

fun add_wibrs :: "cpu \<Rightarrow> (u16 \<times> u16) list \<Rightarrow> clist \<Rightarrow> clist result" where
  "add_wibrs p [] l = Inr l"
| "add_wibrs p ((a, w) # xs) l = ebind (AddWibr a w p l) (\<lambda>(i, l1). add_wibrs p xs l1)"

text \<open>\<open>Server().Exec\<close> of a list of register writes.\<close>

definition exec_wibrs :: "'s link \<Rightarrow> cpu \<Rightarrow> (u16 \<times> u16) list \<Rightarrow> 's \<Rightarrow> 's result" where
  "exec_wibrs k p xs s = ebind (add_wibrs p xs clist_new) (\<lambda>l. ebind (srv_Exec k l s) (\<lambda>(l', s'). Inr s'))"

text \<open>A list that starts with \<open>attn\<close> and reads registers; the result has the positions of the reads.\<close>

fun add_ribrs :: "cpu \<Rightarrow> u16 list \<Rightarrow> clist \<Rightarrow> (nat list \<times> clist) result" where
  "add_ribrs p [] l = Inr ([], l)"
| "add_ribrs p (a # as) l =
     ebind (AddRibr a p l) (\<lambda>(i, l1). ebind (add_ribrs p as l1) (\<lambda>(is, l2). Inr (i # is, l2)))"

definition prim_clist :: "cpu \<Rightarrow> u16 list \<Rightarrow> clist \<Rightarrow> (nat list \<times> clist) result" where
  "prim_clist p as l = ebind (cl_AddAttn (cl_Clear l)) (\<lambda>(i, l1). add_ribrs p as l1)"

definition cmd_data :: "nat \<Rightarrow> clist \<Rightarrow> u16 result" where
  "cmd_data i l = ebind (cl_at i l) (\<lambda>c. Inr (cmd_fData c))"

definition start_bad :: "'a cntl_scheme \<Rightarrow> bool" where
  "start_bad c = (cc_fStarted c \<or> cc_fLam c < 0 \<or> \<not> cc_fEnable c \<or> \<not> pb_Found (cc_fProbe c))"

definition lam_mask :: "'a cntl_scheme \<Rightarrow> u16" where
  "lam_mask c = push_bit (nat (cc_fLam c)) 1"

text \<open>\<open>UnitSetupAll\<close> calls \<open>UnitSetup\<close> for every unit.\<close>

fun UnitSetupAll :: "(nat \<Rightarrow> 's \<Rightarrow> 's result) \<Rightarrow> nat list \<Rightarrow> 's \<Rightarrow> 's result" where
  "UnitSetupAll setup [] s = Inr s"
| "UnitSetupAll setup (i # is) s = ebind (setup i s) (UnitSetupAll setup is)"

end
