(* ===== verification/Rw11CntlRep.thy ===== *)
theory Rw11CntlRep
  imports Rw11RdmaRep Rw11CntlBase
begin

text \<open>
  Facts about controllers that do not depend on the device: register writes and the primary command list with the control
  port at the far end, word counts, and fields of registers.
\<close>

section \<open>Registers of a device\<close>

definition dev_reg :: "cpu \<Rightarrow> u16 \<Rightarrow> bool" where
  "dev_reg p a = (\<not> ibaddr_bad a \<and> ext_reg (cp_fBase p) (IbusRemoteAddr a p))"

definition remote :: "cpu \<Rightarrow> (u16 \<times> u16) list \<Rightarrow> (u16 \<times> u16) list" where
  "remote p xs = map (\<lambda>(a, w). (IbusRemoteAddr a p, w)) xs"

lemma add_wibrs_ok:
  assumes "list_all (\<lambda>(a, w). dev_reg p a) xs"
  shows "add_wibrs p xs l = Inr (l\<lparr>cl_fList := cl_fList l @ wregs (remote p xs)\<rparr>)"
  using assms
proof (induction xs arbitrary: l)
  case (Cons x xs)
  obtain a w where "x = (a, w)"
    by (cases x)
  then show ?case
    using Cons by (simp add: AddWibr_def dev_reg_def cl_AddWreg_eq remote_def wregs_def)
qed (simp add: remote_def wregs_def)

lemma remote_ext: "list_all (\<lambda>(a, w). dev_reg p a) xs \<Longrightarrow> ext_ok (cp_fBase p) (Some (remote p xs))"
  by (auto simp: ext_ok_def ext_log_def remote_def dev_reg_def list_all_iff)

text \<open>A list of the primary information: \<open>attn\<close>, then reads of device registers.\<close>

definition prim_ok :: "cpu \<Rightarrow> u16 list \<Rightarrow> clist \<Rightarrow> bool" where
  "prim_ok p as l =
     (case cl_fList l of
        [] \<Rightarrow> False
      | c0 # cs \<Rightarrow> Command c0 = kCmdAttn \<and> list_all2 (\<lambda>a c. dev_reg p a \<and> Command c = kCmdRreg \<and> cmd_fAddress c = IbusRemoteAddr a p) as cs)"

lemma cb_cmds_reads:
  assumes "list_all2 (\<lambda>a c. dev_reg p a \<and> Command c = kCmdRreg \<and> cmd_fAddress c = IbusRemoteAddr a p) as cs"
  shows "\<exists>cs'. cb_cmds (cp_fBase p) cs d = (cs', d) \<and>
    list_all2 (\<lambda>a c. dev_reg p a \<and> Command c = kCmdRreg \<and> cmd_fAddress c = IbusRemoteAddr a p \<and> cmd_fData c = cb_ext d (IbusRemoteAddr a p)) as cs'"
  using assms
proof (induction rule: list_all2_induct)
  case Nil
  show ?case by simp
next
  case (Cons a as c cs)
  have "cb_rreg (cp_fBase p) (IbusRemoteAddr a p) d = (True, cb_ext d (IbusRemoteAddr a p), d)"
    using Cons(1) by (auto simp: cb_rreg_def dev_reg_def ext_reg_def)
  then have c: "cb_cmd (cp_fBase p) c d = (SetStatus (cb_stat True) (SetData (cb_ext d (IbusRemoteAddr a p)) c), d)"
    using Cons(1) by (simp add: cb_cmd_def rl_defs)
  have "cmd_fAddress (SetStatus t (SetData w c)) = cmd_fAddress c" for t w
    by (simp add: SetStatus_def SetData_def)
  then show ?case
    using Cons c by (auto simp: rl_defs)
qed

lemma GetAttnInfo_port:
  assumes "prim_ok p as l"
  shows "\<exists>l'. srv_GetAttnInfo (cp_link (cp_fBase p) bm b) args l d =
      Inr (args\<lparr>aa_fAttnHarvest := cb_lam d, aa_fHarvestDone := True\<rparr>, l', d\<lparr>cb_lam := 0\<rparr>) \<and> prim_ok p as l' \<and>
    (\<forall>i < length as. cmd_data (i + 1) l' = Inr (cb_ext d (IbusRemoteAddr (as ! i) p)))"
proof -
  obtain c0 cs where l: "cl_fList l = c0 # cs" "Command c0 = kCmdAttn"
    "list_all2 (\<lambda>a c. dev_reg p a \<and> Command c = kCmdRreg \<and> cmd_fAddress c = IbusRemoteAddr a p) as cs"
    using assms by (auto simp: prim_ok_def split: list.splits)
  obtain cs' where cs: "cb_cmds (cp_fBase p) cs (d\<lparr>cb_lam := 0\<rparr>) = (cs', d\<lparr>cb_lam := 0\<rparr>)"
    "list_all2 (\<lambda>a c. dev_reg p a \<and> Command c = kCmdRreg \<and> cmd_fAddress c = IbusRemoteAddr a p \<and> cmd_fData c = cb_ext d (IbusRemoteAddr a p)) as cs'"
    using cb_cmds_reads [OF l(3), of "d\<lparr>cb_lam := 0\<rparr>"] by auto
  let ?c = "SetStatus (cb_stat True) (SetData (cb_lam d) c0)"
  have c: "cb_cmd (cp_fBase p) c0 d = (?c, d\<lparr>cb_lam := 0\<rparr>)"
    using l(2) by (simp add: cb_cmd_def rl_defs)
  have e: "cb_exec (cp_fBase p) l d = Inr (True, l\<lparr>cl_fList := ?c # cs'\<rparr>, d\<lparr>cb_lam := 0\<rparr>)"
    using l cs(1) c by (simp add: cb_exec_def rl_defs)
  have "prim_ok p as (l\<lparr>cl_fList := ?c # cs'\<rparr>)"
    using l(2) cs(2) by (auto simp: prim_ok_def elim: list_all2_mono)
  moreover have "cmd_data (i + 1) (l\<lparr>cl_fList := ?c # cs'\<rparr>) = Inr (cb_ext d (IbusRemoteAddr (as ! i) p))" if "i < length as" for i
    using that cs(2) by (auto simp: cmd_data_def cl_at_def list_all2_conv_all_nth)
  ultimately show ?thesis
    using l e by (auto simp: srv_GetAttnInfo_def cl_at_def srv_Exec_def throw_fail_def cp_link_def)
qed

section \<open>Units\<close>

lemma WriteCheck_keeps:
  assumes "WriteCheck e n r s = Inr (m, r', s')"
  shows "rd_fStatus r' = rd_fStatus r"
  using assms by (auto simp: WriteCheck_def Let_def rd_inc_def ebind_eq_Inr split: if_splits option.splits)

lemma same_unit_geom:
  assumes "same_unit u u'"
  shows "Nwrd2Nblk n u' = Nwrd2Nblk n u" "Lba2Chs lba u' = Lba2Chs lba u" "Chs2Lba cy h se u' = Chs2Lba cy h se u"
  using assms by (subst same_unit_def [THEN iffD1], assumption, simp add: Nwrd2Nblk_def Lba2Chs_def Chs2Lba_def)+

section \<open>Word counts and fields of registers\<close>

lemma neg_count: "unat ((NOT (ucast (w :: u16)) AND 0xffff) + 1 :: u32) = 2 ^ 16 - unat w"
proof -
  have e: "NOT (ucast w) AND 0xffff = (ucast (NOT w) :: u32)"
    by (rule bit_word_eqI) (auto simp: bit_simps bit_ffff)
  note n = unat_not16 [of w]
  have l: "unat w < 2 ^ 16"
    using unsigned_less [of w] by simp
  then have "unat (ucast (NOT w) :: u32) = 2 ^ 16 - 1 - unat w"
    unfolding unat_ucast32 n by simp
  then show ?thesis
    unfolding e using l by (simp add: unat_word_ariths)
qed

text \<open>The number of blocks of a transfer.\<close>

lemma Nwrd2Nblk_eq:
  assumes "ud_fBlksize u = 2 * w" and "0 < w" and "unat n \<le> 2 ^ 16"
  shows "Nwrd2Nblk n u = of_nat (nblk_of w (unat n))"
proof -
  have "unat (2 * n) = 2 * unat n"
    using assms(3) by (simp add: unat_word_ariths)
  moreover have "(2 * unat n + 2 * w - 1) div (2 * w) = (unat n + w - 1) div w"
  proof -
    have "(2 * unat n + 2 * w - 1) div 2 = unat n + w - 1"
      using assms(2) by arith
    then show ?thesis
      by (simp only: div_mult2_eq)
  qed
  ultimately show ?thesis
    using assms(1) by (simp add: Nwrd2Nblk_def nblk_of_def)
qed

lemma nblk_le_iff:
  assumes "0 < w"
  shows "nblk_of w n \<le> k \<longleftrightarrow> n \<le> k * w"
proof -
  have "nblk_of w n \<le> k \<longleftrightarrow> (n + w - 1) div w < Suc k"
    by (simp add: nblk_of_def less_Suc_eq_le)
  also have "\<dots> \<longleftrightarrow> n \<le> k * w"
    unfolding div_less_iff_less_mult [OF assms] using assms by auto
  finally show ?thesis .
qed

lemma bit_masks:
  "bit (0xf :: int) i \<longleftrightarrow> i < 4" "bit (0xff :: int) i \<longleftrightarrow> i < 8" "bit (7 :: int) i \<longleftrightarrow> i < 3" "bit (3 :: int) i \<longleftrightarrow> i < 2"
  "bit (0xe000 :: int) i \<longleftrightarrow> 13 \<le> i \<and> i < 16" "bit (0x30 :: int) i \<longleftrightarrow> i = 4 \<or> i = 5" "bit (0xfffe :: int) i \<longleftrightarrow> 1 \<le> i \<and> i < 16"
  "bit (0xffc :: int) i \<longleftrightarrow> 2 \<le> i \<and> i < 12"
proof -
  have "(0xf :: int) = mask 4" "(0xff :: int) = mask 8" "(7 :: int) = mask 3" "(3 :: int) = mask 2" "(0xe000 :: int) = push_bit 13 (mask 3)"
    "(0x30 :: int) = push_bit 4 (mask 2)" "(0xfffe :: int) = push_bit 1 (mask 15)"
    "(0xffc :: int) = push_bit 2 (mask 10)"
    by (simp_all add: mask_eq_exp_minus_1)
  note e = this
  show "bit (0xf :: int) i \<longleftrightarrow> i < 4" "bit (0xff :: int) i \<longleftrightarrow> i < 8" "bit (7 :: int) i \<longleftrightarrow> i < 3" "bit (3 :: int) i \<longleftrightarrow> i < 2"
    unfolding e by (simp_all only: bit_mask_iff) simp_all
  show "bit (0xe000 :: int) i \<longleftrightarrow> 13 \<le> i \<and> i < 16" "bit (0x30 :: int) i \<longleftrightarrow> i = 4 \<or> i = 5" "bit (0xfffe :: int) i \<longleftrightarrow> 1 \<le> i \<and> i < 16"
    "bit (0xffc :: int) i \<longleftrightarrow> 2 \<le> i \<and> i < 12"
    unfolding e by (simp_all only: bit_push_bit_iff bit_mask_iff) auto
qed

lemma bit_cs: "bit (8 :: int) i \<longleftrightarrow> i = 3" "bit (0x80 :: int) i \<longleftrightarrow> i = 7" "bit (2 :: int) i \<longleftrightarrow> i = 1" "bit (0xffc0 :: int) i \<longleftrightarrow> 6 \<le> i \<and> i < 16" "bit (0x3f :: int) i \<longleftrightarrow> i < 6"
  "bit (0x1ff :: int) i \<longleftrightarrow> i < 9" "bit (0x3ff :: int) i \<longleftrightarrow> i < 10" "bit (0x1f :: int) i \<longleftrightarrow> i < 5"
proof -
  have "(8 :: int) = push_bit 3 (mask 1)" "(0x80 :: int) = push_bit 7 (mask 1)" "(2 :: int) = push_bit 1 (mask 1)" "(0xffc0 :: int) = push_bit 6 (mask 10)" "(0x3f :: int) = mask 6" "(0x1ff :: int) = mask 9" "(0x3ff :: int) = mask 10" "(0x1f :: int) = mask 5"
    by (simp_all add: mask_eq_exp_minus_1)
  note e = this
  show "bit (8 :: int) i \<longleftrightarrow> i = 3" "bit (0x80 :: int) i \<longleftrightarrow> i = 7" "bit (2 :: int) i \<longleftrightarrow> i = 1" "bit (0xffc0 :: int) i \<longleftrightarrow> 6 \<le> i \<and> i < 16" "bit (0x3f :: int) i \<longleftrightarrow> i < 6"
    "bit (0x1ff :: int) i \<longleftrightarrow> i < 9" "bit (0x3ff :: int) i \<longleftrightarrow> i < 10" "bit (0x1f :: int) i \<longleftrightarrow> i < 5"
    unfolding e by (simp_all only: bit_push_bit_iff bit_mask_iff) auto
qed

lemma mode_ubm22: "bit kCPAH_M_UBM22 6"
  by (simp add: cpu_defs bit_simps bit_c0)

lemma in22_lam: "in22 a n (d\<lparr>cb_lam := x\<rparr>) = in22 a n d" "word_mode (d\<lparr>cb_lam := x\<rparr>) = word_mode d"
  by (simp_all add: in22_def word_mode_def)

section \<open>Register writes and memory requests\<close>

lemma exec_wibrs_ok:
  assumes "list_all (\<lambda>(a, w). dev_reg p a) xs"
  shows "exec_wibrs (cp_link (cp_fBase p) bm b) p xs d = Inr (d\<lparr>cb_log := cb_log d @ remote p xs\<rparr>)"
proof -
  have "list_all (\<lambda>(a, w). ext_reg (cp_fBase p) a) (remote p xs)"
    using remote_ext [OF assms] by (simp add: ext_ok_def ext_log_def)
  from cb_cmds_wregs [OF this, of d] obtain cs where "cb_cmds (cp_fBase p) (wregs (remote p xs)) d = (cs, d\<lparr>cb_log := cb_log d @ remote p xs\<rparr>)"
    by blast
  then show ?thesis
    by (simp add: exec_wibrs_def add_wibrs_ok [OF assms] clist_new_def srv_Exec_def throw_fail_def cp_link_def cb_exec_def)
qed

text \<open>A transfer between memory and a buffer of the controller that has been queued.\<close>

definition mem_set :: "bool \<Rightarrow> u32 \<Rightarrow> nat \<Rightarrow> u16 \<Rightarrow> u16 list \<Rightarrow> 'a rdma_scheme \<Rightarrow> bool" where
  "mem_set w a siz mode buf r =
     (rd_fStatus r = kStatusBusy \<and> rd_fIsWMem r = w \<and> rd_fAddr r = a \<and> rd_fMode r = mode \<and> rd_fNWordRest r = siz \<and>
      rd_fNWordDone r = 0 \<and> rd_fpBlock r = 0 \<and> rd_buf r = buf)"

lemma Queue_mem_ok:
  assumes "\<not> rd_IsActive r" and "chunk_cfg bm b r"
  shows "\<exists>r'. QueueWMem (dma_link p bm b) h a 0 siz mode r (c, d) = Inr (r', (c, d)) \<and> mem_set True a siz mode (rd_buf r) r' \<and> chunk_ok bm r'"
    "\<exists>r'. QueueRMem (dma_link p bm b) h a 0 siz mode r (c, d) = Inr (r', (c, d)) \<and> mem_set False a siz mode (rd_buf r) r' \<and> chunk_ok bm r'"
  using assms
  by (auto simp: QueueWMem_def QueueRMem_def SetupRdma_def rd_IsActive_def rd_inc_def dma_link_def link_snd_def cp_link_def mem_set_def
      chunk_ok_def chunk_cfg_def Let_def)

end
