(* ===== verification/Rw11CntlRK11.thy ===== *)
theory Rw11CntlRK11
  imports Rw11CntlBase
begin

text \<open>
  The RK11 controller, \<open>Rw11CntlRK11\<close> and \<open>Rw11UnitRK11\<close>: start, attention handler with all eight functions, and
  the callbacks of the DMA. The DMA object of the controller is kept beside the controller record. Log messages are
  left out.
\<close>

section \<open>Constants\<close>

definition kRKDS :: u16 where [dev_defs]: "kRKDS = 0"
definition kRKER :: u16 where [dev_defs]: "kRKER = 2"
definition kRKCS :: u16 where [dev_defs]: "kRKCS = 4"
definition kRKWC :: u16 where [dev_defs]: "kRKWC = 6"
definition kRKBA :: u16 where [dev_defs]: "kRKBA = 8"
definition kRKDA :: u16 where [dev_defs]: "kRKDA = 0xa"
definition kRKMR :: u16 where [dev_defs]: "kRKMR = 0xc"
definition rk_kProbeOff :: u16 where [dev_defs]: "rk_kProbeOff = 4"
definition rk_kProbeInt :: bool where [dev_defs]: "rk_kProbeInt = True"
definition rk_kProbeRem :: bool where [dev_defs]: "rk_kProbeRem = True"
definition kRKDS_V_ID :: nat where [dev_defs]: "kRKDS_V_ID = 13"
definition kRKDS_M_HDEN :: u16 where [dev_defs]: "kRKDS_M_HDEN = 0x800"
definition kRKDS_M_SOK :: u16 where [dev_defs]: "kRKDS_M_SOK = 0x100"
definition kRKDS_M_DRY :: u16 where [dev_defs]: "kRKDS_M_DRY = 0x80"
definition kRKDS_M_ADRY :: u16 where [dev_defs]: "kRKDS_M_ADRY = 0x40"
definition kRKDS_M_WPS :: u16 where [dev_defs]: "kRKDS_M_WPS = 0x20"
definition kRKDS_B_SC :: u16 where [dev_defs]: "kRKDS_B_SC = 0xf"
definition kRKER_M_DRE :: u16 where [dev_defs]: "kRKER_M_DRE = 0x8000"
definition kRKER_M_OVR :: u16 where [dev_defs]: "kRKER_M_OVR = 0x4000"
definition kRKER_M_WLO :: u16 where [dev_defs]: "kRKER_M_WLO = 0x2000"
definition kRKER_M_PGE :: u16 where [dev_defs]: "kRKER_M_PGE = 0x800"
definition kRKER_M_NXM :: u16 where [dev_defs]: "kRKER_M_NXM = 0x400"
definition kRKER_M_NXD :: u16 where [dev_defs]: "kRKER_M_NXD = 0x80"
definition kRKER_M_NXC :: u16 where [dev_defs]: "kRKER_M_NXC = 0x40"
definition kRKER_M_NXS :: u16 where [dev_defs]: "kRKER_M_NXS = 0x20"
definition kRKER_M_WCE :: u16 where [dev_defs]: "kRKER_M_WCE = 1"
definition kRKCS_M_IBA :: u16 where [dev_defs]: "kRKCS_M_IBA = 0x800"
definition kRKCS_M_FMT :: u16 where [dev_defs]: "kRKCS_M_FMT = 0x400"
definition kRKCS_M_RWA :: u16 where [dev_defs]: "kRKCS_M_RWA = 0x200"
definition kRKCS_M_SSE :: u16 where [dev_defs]: "kRKCS_M_SSE = 0x100"
definition kRKCS_M_RDY :: u16 where [dev_defs]: "kRKCS_M_RDY = 0x80"
definition kRKCS_M_MEX :: u16 where [dev_defs]: "kRKCS_M_MEX = 0x30"
definition kRKCS_V_MEX :: nat where [dev_defs]: "kRKCS_V_MEX = 4"
definition kRKCS_B_MEX :: u16 where [dev_defs]: "kRKCS_B_MEX = 3"
definition kRKCS_V_FUNC :: nat where [dev_defs]: "kRKCS_V_FUNC = 1"
definition kRKCS_B_FUNC :: u16 where [dev_defs]: "kRKCS_B_FUNC = 7"
definition kRKCS_M_GO :: u16 where [dev_defs]: "kRKCS_M_GO = 1"
definition rk_kFUNC_CRESET :: u16 where [dev_defs]: "rk_kFUNC_CRESET = 0"
definition rk_kFUNC_WRITE :: u16 where [dev_defs]: "rk_kFUNC_WRITE = 1"
definition rk_kFUNC_READ :: u16 where [dev_defs]: "rk_kFUNC_READ = 2"
definition rk_kFUNC_WCHK :: u16 where [dev_defs]: "rk_kFUNC_WCHK = 3"
definition rk_kFUNC_SEEK :: u16 where [dev_defs]: "rk_kFUNC_SEEK = 4"
definition rk_kFUNC_RCHK :: u16 where [dev_defs]: "rk_kFUNC_RCHK = 5"
definition rk_kFUNC_DRESET :: u16 where [dev_defs]: "rk_kFUNC_DRESET = 6"
definition kRKDA_M_DRSEL :: u16 where [dev_defs]: "kRKDA_M_DRSEL = 0xe000"
definition kRKDA_V_DRSEL :: nat where [dev_defs]: "kRKDA_V_DRSEL = 13"
definition kRKDA_B_DRSEL :: u16 where [dev_defs]: "kRKDA_B_DRSEL = 7"
definition kRKDA_V_CYL :: nat where [dev_defs]: "kRKDA_V_CYL = 5"
definition kRKDA_B_CYL :: u16 where [dev_defs]: "kRKDA_B_CYL = 0xff"
definition kRKDA_V_SUR :: nat where [dev_defs]: "kRKDA_V_SUR = 4"
definition kRKDA_B_SUR :: u16 where [dev_defs]: "kRKDA_B_SUR = 1"
definition kRKDA_B_SC :: u16 where [dev_defs]: "kRKDA_B_SC = 0xf"
definition kRKMR_M_SBCLR :: u16 where [dev_defs]: "kRKMR_M_SBCLR = 0x400"
definition kRKMR_M_CRESET :: u16 where [dev_defs]: "kRKMR_M_CRESET = 0x200"
definition kRKMR_M_FDONE :: u16 where [dev_defs]: "kRKMR_M_FDONE = 0x100"

section \<open>State\<close>

datatype rk_stat = rkStatNAttnHdl | rkStatNFuncCreset | rkStatNFuncWrite | rkStatNFuncRead | rkStatNFuncWchk
  | rkStatNFuncSeek | rkStatNFuncRchk | rkStatNFuncDreset | rkStatNFuncWlock

record urk11 = udisk +
  ur_fRkds :: u16

record rk11 = cntl +
  rk_fspUnit :: "urk11 list"
  rk_fPrimClist :: clist
  rk_fPC_rkwc :: nat
  rk_fPC_rkba :: nat
  rk_fPC_rkda :: nat
  rk_fPC_rkmr :: nat
  rk_fPC_rkcs :: nat
  rk_fRd_rkcs :: u16
  rk_fRd_rkda :: u16
  rk_fRd_addr :: u32
  rk_fRd_lba :: u32
  rk_fRd_nwrd :: u32
  rk_fRd_fu :: u16
  rk_fRd_ovr :: bool
  rk_fStats :: "rk_stat \<Rightarrow> nat"

definition urk11_new :: "nat \<Rightarrow> urk11" where
  "urk11_new index =
     udisk.extend ((udisk_new index)\<lparr>ud_fType := ''rk05'', ud_fEnabled := True, ud_fNCyl := 203, ud_fNHead := 2, ud_fNSect := 12,
       ud_fBlksize := 512, ud_fNBlock := 203 * 2 * 12\<rparr>) \<lparr>ur_fRkds = 0\<rparr>"

definition rk_NUnit :: nat where
  "rk_NUnit = 8"

definition rk11_new :: rk11 where
  "rk11_new = cntl.extend (cntl_new ''rk11'')
     \<lparr>rk_fspUnit = map urk11_new [0..<rk_NUnit], rk_fPrimClist = clist_new, rk_fPC_rkwc = 0, rk_fPC_rkba = 0, rk_fPC_rkda = 0,
      rk_fPC_rkmr = 0, rk_fPC_rkcs = 0, rk_fRd_rkcs = 0, rk_fRd_rkda = 0, rk_fRd_addr = 0, rk_fRd_lba = 0, rk_fRd_nwrd = 0,
      rk_fRd_fu = 0, rk_fRd_ovr = False, rk_fStats = (\<lambda>_. 0)\<rparr>"

definition rk_inc :: "rk_stat \<Rightarrow> rk11 \<Rightarrow> rk11" where
  "rk_inc x c = c\<lparr>rk_fStats := stat_inc x 1 (rk_fStats c)\<rparr>"

definition rk_unit :: "nat \<Rightarrow> rk11 \<Rightarrow> urk11" where
  "rk_unit i c = rk_fspUnit c ! i"

definition rk_put :: "nat \<Rightarrow> urk11 \<Rightarrow> rk11 \<Rightarrow> rk11" where
  "rk_put i u c = c\<lparr>rk_fspUnit := (rk_fspUnit c)[i := u]\<rparr>"

definition rk_Config :: "string \<Rightarrow> u16 \<Rightarrow> int \<Rightarrow> cntl \<Rightarrow> cntl" where
  "rk_Config name base lam c = ConfigCntl name base lam rk_kProbeOff rk_kProbeInt rk_kProbeRem c"

definition rk_SetChunkSize :: "'w link \<Rightarrow> nat \<Rightarrow> rk11 \<Rightarrow> rdmadisk \<Rightarrow> 'w \<Rightarrow> rdmadisk" where
  "rk_SetChunkSize k chunk c r w = SetChunkSize k (cc_fStarted c) chunk r w"

section \<open>Setup\<close>

definition rk_ds :: "nat \<Rightarrow> urk11 \<Rightarrow> u16" where
  "rk_ds ind u =
     (let ds = of_nat (ind * 2 ^ kRKDS_V_ID)
      in if ud_fupVirt u \<noteq> None
         then ds OR kRKDS_M_HDEN OR kRKDS_M_SOK OR kRKDS_M_DRY OR kRKDS_M_ADRY OR (if ud_fWProt u then kRKDS_M_WPS else 0)
         else ds)"

definition rk_UnitSetup :: "'w link \<Rightarrow> cpu \<Rightarrow> nat \<Rightarrow> rk11 \<times> 'w \<Rightarrow> (rk11 \<times> 'w) result" where
  "rk_UnitSetup k p ind cw =
     (case cw of (c, w) \<Rightarrow>
        let u = rk_unit ind c; rkds = rk_ds ind u
        in ebind (ExecWibr k (cc_fBase c + kRKDS) rkds 0 0 0 0 p w) (\<lambda>w'. Inr (rk_put ind (u\<lparr>ur_fRkds := rkds\<rparr>) c, w')))"

definition rk_Start :: "'w link \<Rightarrow> hid \<Rightarrow> cpu \<Rightarrow> rk11 \<Rightarrow> 'w \<Rightarrow> (cpu \<times> rk11 \<times> 'w) result" where
  "rk_Start k h p c w =
     (if start_bad c then Inl (Rexception ''Rw11CntlRK11::Start'' ''Bad state: started, no lam, not enable, not found'')
      else
        let base = cc_fBase c;
            (p1, w1) = fold (\<lambda>(n, off) pw. AllIAddrMapInsert k (cc_fName c @ n) (base + off) pw)
              [(''.ds'', kRKDS), (''.er'', kRKER), (''.cs'', kRKCS), (''.wc'', kRKWC), (''.ba'', kRKBA), (''.da'', kRKDA), (''.mr'', kRKMR)]
              (p, w)
        in ebind (UnitSetupAll (rk_UnitSetup k p1) [0..<rk_NUnit] (c, w1)) (\<lambda>(c1, w2).
           ebind (prim_clist p1 [base + kRKWC, base + kRKBA, base + kRKDA, base + kRKMR, base + kRKCS] (rk_fPrimClist c1)) (\<lambda>(is, l).
           ebind (lk_AddAttnHandler k h (lam_mask c1) h w2) (\<lambda>w3.
             Inr (p1, c1\<lparr>rk_fPrimClist := l, rk_fPC_rkwc := is ! 0, rk_fPC_rkba := is ! 1, rk_fPC_rkda := is ! 2, rk_fPC_rkmr := is ! 3,
                         rk_fPC_rkcs := is ! 4, cc_fStarted := True\<rparr>, w3)))))"

definition rk_BootCode :: "nat \<Rightarrow> u16 list \<times> u16 \<times> u16" where
  "rk_BootCode unit =
     ([0x444b, 0x15c6, 0x400, 0x15c0, of_nat unit, 0x1003, 0xc3, 0xcc3, 0xcc3, 0xcc3, 0xcc3, 0xcc3, 0x15c1, 0xff0a, 0x10c9, 0xa21,
       0x15e1, 0xfe00, 0x15e1, 5, 0xa02, 0xa03, 0x15c4, 0x410, 0xa05, 0x8bc9, 0x80fe, 0x8a09, 0xa07], 0x400, 0x402)"

section \<open>Register updates\<close>

definition rk_AddErrorExit :: "cpu \<Rightarrow> rk11 \<Rightarrow> u16 \<Rightarrow> clist \<Rightarrow> clist result" where
  "rk_AddErrorExit p c rker l = add_wibrs p [(cc_fBase c + kRKER, rker), (cc_fBase c + kRKMR, kRKMR_M_FDONE)] l"

definition rk_dr :: "u16 \<Rightarrow> nat" where
  "rk_dr rkda = unat (drop_bit kRKDA_V_DRSEL rkda AND kRKDA_B_DRSEL)"

text \<open>The registers after \<open>ndone\<close> words.\<close>

definition rk_exit_regs :: "rk11 \<Rightarrow> nat \<Rightarrow> u16 \<Rightarrow> (u16 \<times> u16) list" where
  "rk_exit_regs c ndone rker0 =
     (let base = cc_fBase c; u = rk_unit (rk_dr (rk_fRd_rkda c)) c;
          nblk = Nwrd2Nblk (of_nat ndone) u;
          addr = rk_fRd_addr c + of_nat (2 * ndone);
          lba = rk_fRd_lba c + nblk;
          nrest = rk_fRd_nwrd c - of_nat ndone;
          ba = ucast (addr AND 0xfffe);
          mex = ucast (drop_bit 16 addr AND 3);
          cs = (rk_fRd_rkcs c AND NOT kRKCS_M_MEX) OR push_bit kRKCS_V_MEX mex;
          (cy, hd1, se) = Lba2Chs lba u;
          da = (rk_fRd_rkda c AND kRKDA_M_DRSEL) OR push_bit kRKDA_V_CYL cy OR push_bit kRKDA_V_SUR hd1 OR se;
          rker = (if rk_fRd_ovr c then rker0 OR kRKER_M_OVR else rker0)
      in (if rker \<noteq> 0 then [(base + kRKER, rker)] else []) @
         [(base + kRKWC, ucast (- nrest)), (base + kRKBA, ba), (base + kRKDA, da)] @
         (if cs \<noteq> rk_fRd_rkcs c then [(base + kRKCS, cs)] else []) @ [(base + kRKMR, kRKMR_M_FDONE)])"

definition rk_AddNormalExit :: "cpu \<Rightarrow> rk11 \<Rightarrow> nat \<Rightarrow> u16 \<Rightarrow> clist \<Rightarrow> clist result" where
  "rk_AddNormalExit p c ndone rker l = add_wibrs p (rk_exit_regs c ndone rker) l"

section \<open>Callbacks\<close>

definition rk_RdmaPreExecCB :: "cpu \<Rightarrow> rdma_status \<Rightarrow> nat \<Rightarrow> nat \<Rightarrow> clist \<Rightarrow> rk11 \<times> 'w \<Rightarrow> (clist \<times> rk11 \<times> 'w) result" where
  "rk_RdmaPreExecCB p stat nwdone nwnext l cw =
     (if stat = kStatusBusyLast \<and> rk_fRd_fu (fst cw) \<noteq> rk_kFUNC_WCHK
      then ebind (cl_AddLabo l) (\<lambda>(i, l1). ebind (rk_AddNormalExit p (fst cw) (nwdone + nwnext) 0 l1) (\<lambda>l2. Inr (l2, cw)))
      else Inr (l, cw))"

definition rk_dunits :: "'w link \<Rightarrow> cpu \<Rightarrow> (rk11 \<times> 'w, urk11) dunits" where
  "rk_dunits k p =
     \<lparr>du_get = (\<lambda>i (c, w). rk_unit i c), du_put = (\<lambda>i u (c, w). (rk_put i u c, w)), du_UnitSetup = rk_UnitSetup k p\<rparr>"

definition rk_RdmaPostExecCB :: "'w link \<Rightarrow> cpu \<Rightarrow> rdma_status \<Rightarrow> nat \<Rightarrow> clist \<Rightarrow> nat \<Rightarrow> rdmadisk \<Rightarrow> rk11 \<times> 'w \<Rightarrow>
    (rdmadisk \<times> rk11 \<times> 'w) result" where
  "rk_RdmaPostExecCB k p stat ndone0 l ncmd r0 cw0 =
     (if stat = kStatusBusy then Inr (r0, cw0)
      else ebind (if rk_fRd_fu (fst cw0) = rk_kFUNC_WCHK then
                    ebind (WriteCheck (rk_dunits k p) ndone0 r0 cw0) (\<lambda>(nwcok, r1, cw1).
                      Inr (if nwcok \<noteq> ndone0
                           then (kRKER_M_WCE, if rk_fRd_rkcs (fst cw1) AND kRKCS_M_SSE \<noteq> 0 then nwcok else ndone0, r1, cw1)
                           else (0, ndone0, r1, cw1)))
                  else Inr (0, ndone0, r0, cw0)) (\<lambda>(rker0, ndone, r, cw).
        let rker = (if stat = kStatusFailRdma then rker0 OR kRKER_M_NXM else rker0)
        in ebind (if cl_Size l > ncmd then
                    ebind (cl_at ncmd l) (\<lambda>cmd.
                      if Command cmd \<noteq> kCmdLabo \<or> rker \<noteq> 0 \<and> cmd_fData cmd = 0
                      then Inl (Rexception ''Rw11CntlRK11::RdmaPostExecCB'' ''Bad state: Labo not found or missed abort'')
                      else Inr (cmd_fData cmd = 0))
                  else Inr False) (\<lambda>fused.
             if fused then Inr (r, cw)
             else ebind (rk_AddNormalExit p (fst cw) ndone rker clist_new) (\<lambda>l1.
               ebind (srv_Exec k l1 (snd cw)) (\<lambda>(l2, w'). Inr (r, (fst cw, w')))))))"

definition rk_cbs :: "'w link \<Rightarrow> cpu \<Rightarrow> (disk_cbs_ext, rk11 \<times> 'w) rdma_cbs" where
  "rk_cbs k p =
     \<lparr>rc_PreExecCB = rk_RdmaPreExecCB p, rc_PostExecCB = rk_RdmaPostExecCB k p,
      rc_PreRdmaHook = PreRdmaHook (rk_dunits k p), rc_PostRdmaHook = PostRdmaHook (rk_dunits k p)\<rparr>"

definition rk_RdmaHandler :: "'w link \<Rightarrow> cpu \<Rightarrow> rdmadisk \<Rightarrow> rk11 \<times> 'w \<Rightarrow> (int \<times> rdmadisk \<times> rk11 \<times> 'w) result" where
  "rk_RdmaHandler k p = RdmaHandler (link_snd k) (rk_cbs k p) p"

section \<open>Attention handler\<close>

text \<open>The request as the registers have it.\<close>

record rk_req =
  rq_rkda :: u16
  rq_rkcs :: u16
  rq_se :: u16
  rq_hd :: u16
  rq_cy :: u16
  rq_dr :: nat
  rq_fu :: u16
  rq_addr :: u32
  rq_nwrd :: u32

definition rk_decode :: "u16 \<Rightarrow> u16 \<Rightarrow> u16 \<Rightarrow> u16 \<Rightarrow> rk_req" where
  "rk_decode rkwc rkba rkda rkcs =
     \<lparr>rq_rkda = rkda, rq_rkcs = rkcs, rq_se = rkda AND kRKDA_B_SC, rq_hd = drop_bit kRKDA_V_SUR rkda AND kRKDA_B_SUR,
      rq_cy = drop_bit kRKDA_V_CYL rkda AND kRKDA_B_CYL, rq_dr = rk_dr rkda, rq_fu = drop_bit kRKCS_V_FUNC rkcs AND kRKCS_B_FUNC,
      rq_addr = push_bit 16 (ucast (drop_bit kRKCS_V_MEX rkcs AND kRKCS_B_MEX)) OR ucast rkba,
      rq_nwrd = (NOT (ucast rkwc) AND 0xffff) + 1\<rparr>"

definition rk_abort :: "rk_req \<Rightarrow> urk11 \<Rightarrow> u16" where
  "rk_abort q u =
     (if rq_fu q \<noteq> rk_kFUNC_CRESET \<and> ud_fupVirt u = None then kRKER_M_NXD
      else if rq_fu q \<noteq> rk_kFUNC_WRITE \<and> rq_fu q \<noteq> rk_kFUNC_READ \<and> rq_rkcs q AND (kRKCS_M_FMT OR kRKCS_M_RWA) \<noteq> 0 then kRKER_M_PGE
      else if rq_rkcs q AND kRKCS_M_RWA \<noteq> 0 then kRKER_M_DRE
      else 0)"

definition rk_abort_regs :: "u16 \<Rightarrow> rk_req \<Rightarrow> u16 \<Rightarrow> (u16 \<times> u16) list" where
  "rk_abort_regs base q rker =
     [(base + kRKER, rker)] @
     (if rq_fu q = rk_kFUNC_SEEK \<or> rq_fu q = rk_kFUNC_DRESET then [(base + kRKMR, kRKMR_M_SBCLR OR push_bit (rq_dr q) 1)] else []) @
     [(base + kRKMR, kRKMR_M_FDONE)]"

text \<open>The checks of sector and cylinder, and of the functions that transfer data.\<close>

definition rk_chk_pos :: "rk_req \<Rightarrow> urk11 \<Rightarrow> u16" where
  "rk_chk_pos q u =
     (if unat (rq_se q) \<ge> ud_fNSect u then kRKER_M_NXS else 0) OR (if unat (rq_cy q) \<ge> ud_fNCyl u then kRKER_M_NXC else 0)"

definition rk_chk_iba :: "rk_req \<Rightarrow> u16" where
  "rk_chk_iba q = (if rq_rkcs q AND kRKCS_M_IBA \<noteq> 0 then kRKER_M_DRE else 0)"

definition rk_func :: "'w link \<Rightarrow> hid \<Rightarrow> cpu \<Rightarrow> rk_req \<Rightarrow> u32 \<Rightarrow> u32 \<Rightarrow> rdmadisk \<Rightarrow> rk11 \<times> 'w \<Rightarrow>
    (clist \<times> rdmadisk \<times> rk11 \<times> 'w) result" where
  "rk_func k h p q lba nwrd r cw =
     (case cw of (c, w) \<Rightarrow>
        let base = cc_fBase c; dr = rq_dr q; u = rk_unit dr c; fu = rq_fu q;
            queue = (\<lambda>rker st f. let c1 = rk_inc st c in
               if rker \<noteq> 0 then ebind (rk_AddErrorExit p c1 rker clist_new) (\<lambda>l. Inr (l, r, (c1, w)))
               else ebind (f (link_snd k) h (rk_dunits k p) (rq_addr q) (unat nwrd) kCPAH_M_UBM22 lba dr r (c1, w)) (\<lambda>(r1, cw1). Inr (clist_new, r1, cw1)))
        in if fu = rk_kFUNC_CRESET then
             ebind (add_wibrs p [(base + kRKMR, kRKMR_M_CRESET)] clist_new) (\<lambda>l. Inr (l, r, (rk_inc rkStatNFuncCreset c, w)))
           else if fu = rk_kFUNC_WRITE then
             queue (rk_chk_pos q u OR (if ud_fWProt u then kRKER_M_WLO else 0) OR rk_chk_iba q) rkStatNFuncWrite QueueDiskWrite
           else if fu = rk_kFUNC_READ then
             queue (rk_chk_pos q u OR rk_chk_iba q) rkStatNFuncRead QueueDiskRead
           else if fu = rk_kFUNC_WCHK then
             queue (rk_chk_pos q u OR rk_chk_iba q) rkStatNFuncWchk QueueDiskWriteCheck
           else if fu = rk_kFUNC_SEEK then
             (let c1 = rk_inc rkStatNFuncSeek c; rker = rk_chk_pos q u
              in if rker \<noteq> 0 then
                   ebind (add_wibrs p [(base + kRKER, rker), (base + kRKMR, kRKMR_M_SBCLR OR push_bit dr 1), (base + kRKMR, kRKMR_M_FDONE)] clist_new)
                     (\<lambda>l. Inr (l, r, (c1, w)))
                 else
                   let rkds = (ur_fRkds u AND NOT kRKDS_B_SC) OR rq_se q
                   in ebind (add_wibrs p [(base + kRKMR, kRKMR_M_FDONE), (base + kRKDS, rkds), (base + kRKMR, push_bit dr 1)] clist_new)
                        (\<lambda>l. Inr (l, r, (rk_put dr (u\<lparr>ur_fRkds := rkds\<rparr>) c1, w))))
           else if fu = rk_kFUNC_RCHK then
             (let c1 = rk_inc rkStatNFuncRchk c; rker = rk_chk_pos q u OR rk_chk_iba q
              in ebind (if rker \<noteq> 0 then rk_AddErrorExit p c1 rker clist_new else rk_AddNormalExit p c1 (unat nwrd) 0 clist_new)
                   (\<lambda>l. Inr (l, r, (c1, w))))
           else if fu = rk_kFUNC_DRESET then
             ebind (add_wibrs p [(base + kRKMR, kRKMR_M_FDONE), (base + kRKMR, push_bit dr 1)] clist_new)
               (\<lambda>l. Inr (l, r, (rk_inc rkStatNFuncDreset c, w)))
           else
             (let rkds = ur_fRkds u OR kRKDS_M_WPS
              in ebind (add_wibrs p [(base + kRKDS, rkds), (base + kRKMR, kRKMR_M_FDONE)] clist_new)
                   (\<lambda>l. Inr (l, r, (rk_put dr (u\<lparr>ur_fRkds := rkds, ud_fWProt := True\<rparr>) (rk_inc rkStatNFuncWlock c), w)))))"

definition rk_AttnHandler :: "'w link \<Rightarrow> hid \<Rightarrow> cpu \<Rightarrow> attn_args \<Rightarrow> rdmadisk \<Rightarrow> rk11 \<times> 'w \<Rightarrow>
    (attn_args \<times> rdmadisk \<times> rk11 \<times> 'w) result" where
  "rk_AttnHandler k h p args r cw0 =
     (case cw0 of (c0, w0) \<Rightarrow>
        let c1 = rk_inc rkStatNAttnHdl c0
        in ebind (srv_GetAttnInfo k args (rk_fPrimClist c1) w0) (\<lambda>(args', l, w).
           let c = c1\<lparr>rk_fPrimClist := l\<rparr>
           in ebind (cmd_data (rk_fPC_rkwc c) l) (\<lambda>rkwc. ebind (cmd_data (rk_fPC_rkba c) l) (\<lambda>rkba.
              ebind (cmd_data (rk_fPC_rkda c) l) (\<lambda>rkda. ebind (cmd_data (rk_fPC_rkcs c) l) (\<lambda>rkcs.
                let q = rk_decode rkwc rkba rkda rkcs; dr = rq_dr q
                in if rkcs AND kRKCS_M_GO = 0 then Inr (args', r, (c, w))
                   else if dr > rk_NUnit then Inl (Rexception ''Rw11CntlRK11::AttnHandler'' ''Bad state: dr > NUnit()'')
                   else
                     let u = rk_unit dr c; lba = Chs2Lba (rq_cy q) (rq_hd q) (rq_se q) u; nblk = Nwrd2Nblk (rq_nwrd q) u;
                         rker = rk_abort q u
                     in if rkcs AND kRKCS_M_RDY \<noteq> 0 \<or> rd_IsActive r then Inr (args', r, (c, w))
                        else if rker \<noteq> 0 then
                          ebind (exec_wibrs k p (rk_abort_regs (cc_fBase c) q rker) w) (\<lambda>w'. Inr (args', r, (c, w')))
                        else
                          let ovr = unat (lba + nblk) > ud_fNBlock u;
                              nwrd = (if ovr then of_int ((int (ud_fNBlock u) - uint lba) * int (ud_fBlksize u div 2)) else rq_nwrd q);
                              c2 = c\<lparr>rk_fRd_rkcs := rkcs, rk_fRd_rkda := rkda, rk_fRd_addr := rq_addr q, rk_fRd_lba := lba, rk_fRd_nwrd := nwrd,
                                     rk_fRd_ovr := ovr, rk_fRd_fu := rq_fu q\<rparr>
                          in ebind (rk_func k h p q lba nwrd r (c2, w)) (\<lambda>(l1, r1, c3, w1).
                               if cl_Size l1 > 0 then ebind (srv_Exec k l1 w1) (\<lambda>(l2, w2). Inr (args', r1, (c3, w2)))
                               else Inr (args', r1, (c3, w1)))))))))"

end
