(* ===== verification/Rw11RK11Rep.thy ===== *)
theory Rw11RK11Rep
  imports Rw11CntlRep Rw11CntlRK11
begin

text \<open>
  The RK11 from end to end: the registers of the device, the DMA and the disk. \<open>rkd\<close> interprets the contract of a disk
  controller on the callbacks of the RK11; \<open>rk11_read\<close> and \<open>rk11_write\<close> follow a request from the attention to the
  last register write.
\<close>

section \<open>The RK11\<close>

definition rk_regs :: "u16 list" where
  "rk_regs = [kRKDS, kRKER, kRKCS, kRKWC, kRKBA, kRKDA, kRKMR]"

definition rk_inv :: "cpu \<Rightarrow> rk11 \<Rightarrow> bool" where
  "rk_inv p c = list_all (\<lambda>off. dev_reg p (cc_fBase c + off)) rk_regs"

definition rk_ext :: "cpu \<Rightarrow> nat \<Rightarrow> rk11 \<Rightarrow> (u16 \<times> u16) list option" where
  "rk_ext p n c = (if rk_fRd_fu c = rk_kFUNC_WCHK then None else Some (remote p (rk_exit_regs c n 0)))"

lemma rk_exit_dev:
  assumes "rk_inv p c"
  shows "list_all (\<lambda>(a, w). dev_reg p a) (rk_exit_regs c n rker)"
  using assms by (auto simp: rk_exit_regs_def rk_inv_def rk_regs_def Let_def split: prod.splits)

lemma rk_unit_put: "rk_unit j (rk_put i u c) = (if j = i \<and> i < length (rk_fspUnit c) then u else rk_unit j c)"
  by (auto simp: rk_unit_def rk_put_def list_update_beyond not_less)

lemma rk_exit_put:
  assumes "same_unit (rk_unit i c) u"
  shows "rk_exit_regs (rk_put i u c) n rker = rk_exit_regs c n rker"
proof -
  let ?j = "rk_dr (rk_fRd_rkda c)"
  have "same_unit (rk_unit ?j c) (rk_unit ?j (rk_put i u c))"
    using assms by (auto simp: rk_unit_put same_unit_def)
  note g = same_unit_geom [OF this]
  show ?thesis
    unfolding rk_exit_regs_def by (simp add: Let_def rk_put_def g [unfolded rk_put_def])
qed

interpretation rkd: disk_dma p "rk_inv p" "rk_ext p" "rk_cbs (cp_link (cp_fBase p) bm b) p" "rk_dunits (cp_link (cp_fBase p) bm b) p"
  rk_unit rk_put for p bm b
proof (unfold_locales, goal_cases)
  case (1 c nd nx l d)
  then show ?case
    by (simp add: rk_cbs_def rk_RdmaPreExecCB_def)
next
  case (2 c nd nx l d)
  then show ?case
    using add_wibrs_ok [OF rk_exit_dev [OF 2, of "nd + nx" 0]]
    by (simp add: rk_cbs_def rk_RdmaPreExecCB_def rk_AddNormalExit_def rk_ext_def ext_cmds_def cl_AddLabo_eq)
next
  case (3 c n)
  then show ?case
    using remote_ext [OF rk_exit_dev [OF 3, of n 0]] by (auto simp: rk_ext_def ext_ok_def ext_log_def)
next
  case (4 c nd l n r d)
  then show ?case
    by (simp add: rk_cbs_def rk_RdmaPostExecCB_def)
next
  case (5 st nd l n r s r' s')
  then show ?case
    by (auto simp: rk_cbs_def rk_RdmaPostExecCB_def Let_def ebind_eq_Inr split: if_splits dest!: WriteCheck_keeps)
next
  case (6 nd r s r' s')
  then show ?case
    by (auto simp: rk_cbs_def dest!: PostRdmaHook_keeps)
next
  case 7
  show ?case by (simp add: rk_cbs_def)
next
  case 8
  show ?case by (simp add: rk_cbs_def)
next
  case 9
  show ?case by (simp add: rk_dunits_def)
next
  case 10
  show ?case by (simp add: rk_dunits_def)
next
  case (11 c i u n)
  then show ?case
    using rk_exit_put [OF 11(2), of n 0] by (simp add: rk_inv_def rk_ext_def rk_put_def)
qed

section \<open>The attention handler\<close>

definition rk_prim :: "cpu \<Rightarrow> rk11 \<Rightarrow> bool" where
  "rk_prim p c =
     (prim_ok p (map (\<lambda>off. cc_fBase c + off) [kRKWC, kRKBA, kRKDA, kRKMR, kRKCS]) (rk_fPrimClist c) \<and>
      rk_fPC_rkwc c = 1 \<and> rk_fPC_rkba c = 2 \<and> rk_fPC_rkda c = 3 \<and> rk_fPC_rkmr c = 4 \<and> rk_fPC_rkcs c = 5)"

text \<open>The request that the registers of the device hold.\<close>

definition rk_request :: "cpu \<Rightarrow> rk11 \<Rightarrow> cpport \<Rightarrow> rk_req" where
  "rk_request p c d =
     (let reg = (\<lambda>off. cb_ext d (IbusRemoteAddr (cc_fBase c + off) p)) in rk_decode (reg kRKWC) (reg kRKBA) (reg kRKDA) (reg kRKCS))"

definition rk_lba :: "rk_req \<Rightarrow> urk11 \<Rightarrow> u32" where
  "rk_lba q u = Chs2Lba (rq_cy q) (rq_hd q) (rq_se q) u"

text \<open>A data transfer that the controller accepts.\<close>

definition rk_good :: "u16 \<Rightarrow> rk_req \<Rightarrow> urk11 \<Rightarrow> bool" where
  "rk_good fu q u =
     (rq_fu q = fu \<and> rq_rkcs q AND kRKCS_M_GO \<noteq> 0 \<and> rq_rkcs q AND kRKCS_M_RDY = 0 \<and> rq_rkcs q AND kRKCS_M_RWA = 0 \<and>
      rq_rkcs q AND kRKCS_M_IBA = 0 \<and> unat (rq_se q) < ud_fNSect u \<and> unat (rq_cy q) < ud_fNCyl u \<and>
      unat (rk_lba q u + Nwrd2Nblk (rq_nwrd q) u) \<le> ud_fNBlock u)"

definition rk_accept :: "rk_req \<Rightarrow> u32 \<Rightarrow> clist \<Rightarrow> rk11 \<Rightarrow> rk11" where
  "rk_accept q lba l c = (rk_inc rkStatNAttnHdl c)\<lparr>rk_fPrimClist := l, rk_fRd_rkcs := rq_rkcs q, rk_fRd_rkda := rq_rkda q, rk_fRd_addr := rq_addr q,
     rk_fRd_lba := lba, rk_fRd_nwrd := rq_nwrd q, rk_fRd_ovr := False, rk_fRd_fu := rq_fu q\<rparr>"

lemma rk_dr_le: "rk_dr x \<le> 7"
proof -
  have "unat (drop_bit kRKDA_V_DRSEL x AND kRKDA_B_DRSEL) \<le> unat kRKDA_B_DRSEL"
    using word_and_le1 [of "drop_bit kRKDA_V_DRSEL x" kRKDA_B_DRSEL] word_and_le2 [of "drop_bit kRKDA_V_DRSEL x" kRKDA_B_DRSEL]
    by (simp add: word_le_nat_alt)
  then show ?thesis
    by (simp add: rk_dr_def dev_defs)
qed

lemma AttnHandler_accept:
  assumes "rk_prim p c" and "\<not> rd_IsActive r" and q: "q = rk_request p c d" and "rk_good fu q (rk_unit (rq_dr q) c)"
    and "ud_fupVirt (rk_unit (rq_dr q) c) \<noteq> None" and "fu \<in> {rk_kFUNC_READ, rk_kFUNC_WRITE}"
  shows "\<exists>args' l. rk_AttnHandler (cp_link (cp_fBase p) bm b) h p args r (c, d) =
      ebind (rk_func (cp_link (cp_fBase p) bm b) h p q (rk_lba q (rk_unit (rq_dr q) c)) (rq_nwrd q) r
        (rk_accept q (rk_lba q (rk_unit (rq_dr q) c)) l c, d\<lparr>cb_lam := 0\<rparr>)) (\<lambda>(l1, r1, c3, w1).
        if cl_Size l1 > 0 then ebind (srv_Exec (cp_link (cp_fBase p) bm b) l1 w1) (\<lambda>(l2, w2). Inr (args', r1, (c3, w2)))
        else Inr (args', r1, (c3, w1)))"
proof -
  let ?k = "cp_link (cp_fBase p) bm b"
  let ?u = "rk_unit (rq_dr q) c"
  let ?reg = "\<lambda>off. cb_ext d (IbusRemoteAddr (cc_fBase c + off) p)"
  obtain l where l: "srv_GetAttnInfo ?k args (rk_fPrimClist c) d =
      Inr (args\<lparr>aa_fAttnHarvest := cb_lam d, aa_fHarvestDone := True\<rparr>, l, d\<lparr>cb_lam := 0\<rparr>)"
    and dt: "\<forall>i < 5. cmd_data (i + 1) l = Inr (cb_ext d (IbusRemoteAddr (map (\<lambda>off. cc_fBase c + off) [kRKWC, kRKBA, kRKDA, kRKMR, kRKCS] ! i) p))"
    using GetAttnInfo_port [of p "map (\<lambda>off. cc_fBase c + off) [kRKWC, kRKBA, kRKDA, kRKMR, kRKCS]" "rk_fPrimClist c" bm b args d] assms(1)
    by (auto simp: rk_prim_def)
  have dat: "cmd_data 1 l = Inr (?reg kRKWC)" "cmd_data 2 l = Inr (?reg kRKBA)" "cmd_data 3 l = Inr (?reg kRKDA)" "cmd_data 5 l = Inr (?reg kRKCS)"
    using dt [rule_format, of 0] dt [rule_format, of 1] dt [rule_format, of 2] dt [rule_format, of 4] by (simp_all add: eval_nat_numeral)
  have pc: "rk_fPC_rkwc c = 1" "rk_fPC_rkba c = 2" "rk_fPC_rkda c = 3" "rk_fPC_rkcs c = 5"
    using assms(1) by (simp_all add: rk_prim_def)
  have qd: "rk_decode (?reg kRKWC) (?reg kRKBA) (?reg kRKDA) (?reg kRKCS) = q" "rq_rkcs q = ?reg kRKCS" "rq_rkda q = ?reg kRKDA"
    by (simp_all add: q rk_request_def rk_decode_def)
  have dr: "\<not> rk_NUnit < rq_dr q"
    using rk_dr_le [of "?reg kRKDA"] by (simp add: q rk_request_def rk_decode_def rk_NUnit_def)
  have ab: "rk_abort q ?u = 0"
    using assms(4,5,6) by (auto simp: rk_abort_def rk_good_def)
  have ov: "\<not> ud_fNBlock ?u < unat (rk_lba q ?u + Nwrd2Nblk (rq_nwrd q) ?u)" and cs: "?reg kRKCS AND kRKCS_M_GO \<noteq> 0" "?reg kRKCS AND kRKCS_M_RDY = 0"
    using assms(4) by (simp_all add: rk_good_def qd(2) [symmetric])
  have u: "rk_unit (rq_dr q) ((rk_inc rkStatNAttnHdl c)\<lparr>rk_fPrimClist := l\<rparr>) = ?u"
    by (simp add: rk_unit_def rk_inc_def)
  have p1: "rk_fPrimClist (rk_inc x c) = rk_fPrimClist c" "rk_fPC_rkwc (rk_inc x c) = 1" "rk_fPC_rkba (rk_inc x c) = 2"
    "rk_fPC_rkda (rk_inc x c) = 3" "rk_fPC_rkcs (rk_inc x c) = 5" for x
    using pc by (simp_all add: rk_inc_def)
  show ?thesis
    unfolding rk_AttnHandler_def
    by (intro exI [of _ "args\<lparr>aa_fAttnHarvest := cb_lam d, aa_fHarvestDone := True\<rparr>"] exI [of _ l])
      (simp add: p1 l dat qd dr ab cs u ov Let_def assms(2) rk_lba_def [symmetric] rk_accept_def del: One_nat_def)
qed

section \<open>Word counts and positions\<close>

lemma nwrd_range: "0 < unat (rq_nwrd (rk_request p c d))" "unat (rq_nwrd (rk_request p c d)) \<le> 2 ^ 16"
  using unsigned_less [of "cb_ext d (IbusRemoteAddr (cc_fBase c + kRKWC) p)"]
  by (simp_all add: rk_request_def rk_decode_def neg_count)

lemma da_fields:
  fixes cy h se da :: u16
  assumes "unat cy < 2 ^ 8" and "unat h < 2 ^ 1" and "unat se < 2 ^ 4"
    and "x = (da AND kRKDA_M_DRSEL) OR push_bit kRKDA_V_CYL cy OR push_bit kRKDA_V_SUR h OR se"
  shows "x AND kRKDA_B_SC = se" "drop_bit kRKDA_V_SUR x AND kRKDA_B_SUR = h" "drop_bit kRKDA_V_CYL x AND kRKDA_B_CYL = cy" "rk_dr x = rk_dr da"
proof -
  note l = bit_lim [OF assms(1)] bit_lim [OF assms(2)] bit_lim [OF assms(3)]
  note b = assms(4) dev_defs bit_simps bit_masks
  show "x AND kRKDA_B_SC = se"
    by (rule bit_word_eqI) (auto simp: b dest: l)
  show "drop_bit kRKDA_V_SUR x AND kRKDA_B_SUR = h"
    by (rule bit_word_eqI) (auto simp: b dest: l)
  show "drop_bit kRKDA_V_CYL x AND kRKDA_B_CYL = cy"
    by (rule bit_word_eqI) (auto simp: b add.commute dest: l)
  have "drop_bit kRKDA_V_DRSEL x AND kRKDA_B_DRSEL = drop_bit kRKDA_V_DRSEL da AND kRKDA_B_DRSEL"
    by (rule bit_word_eqI) (auto simp: b add.commute dest: l)
  then show "rk_dr x = rk_dr da"
    by (simp add: rk_dr_def)
qed

lemma ba_cs_fields:
  fixes a :: u32 and cs0 :: u16
  assumes "even (unat a)" and "cs = (cs0 AND NOT kRKCS_M_MEX) OR push_bit kRKCS_V_MEX (ucast (drop_bit 16 a AND 3))"
  shows "push_bit 16 (ucast (drop_bit kRKCS_V_MEX cs AND kRKCS_B_MEX)) OR ucast (ucast (a AND 0xfffe) :: u16) = take_bit 18 a"
proof -
  have "\<not> bit a 0"
    using assms(1) odd_unat [of a] by (simp add: bit_0)
  then show ?thesis
    by (intro bit_word_eqI) (auto simp: assms(2) dev_defs bit_simps bit_masks intro: Suc_leI gr0I)
qed

section \<open>The registers after a transfer\<close>

definition rk05 :: "'a udisk_scheme \<Rightarrow> bool" where
  "rk05 u = (ud_fNCyl u = 203 \<and> ud_fNHead u = 2 \<and> ud_fNSect u = 12 \<and> ud_fBlksize u = 512 \<and> ud_fNBlock u = 4872)"

text \<open>The registers of a finished transfer: the word count is zero, and bus address and disk address \<open>q'\<close> are those behind
  the transfer \<open>q\<close> of \<open>n\<close> words.\<close>

definition rk_done :: "u16 \<Rightarrow> rk_req \<Rightarrow> nat \<Rightarrow> urk11 \<Rightarrow> (u16 \<times> u16) list \<Rightarrow> bool" where
  "rk_done base q n u xs =
     (\<exists>ba da cs. xs = [(base + kRKWC, 0), (base + kRKBA, ba), (base + kRKDA, da)] @
        (if cs \<noteq> rq_rkcs q then [(base + kRKCS, cs)] else []) @ [(base + kRKMR, kRKMR_M_FDONE)] \<and>
      (let q' = rk_decode 0 ba da cs
       in rq_addr q' = take_bit 18 (rq_addr q + of_nat (2 * n)) \<and> rq_dr q' = rq_dr q \<and>
          rk_lba q' u = rk_lba q u + of_nat (nblk_of 256 n)))"

lemma rk_exit_done:
  assumes "rk05 (rk_unit (rq_dr q) c)" and "rk_fRd_rkda c = rq_rkda q" and "rk_fRd_rkcs c = rq_rkcs q" and "rk_fRd_addr c = rq_addr q"
    and "rk_fRd_lba c = rk_lba q (rk_unit (rq_dr q) c)" and "rk_fRd_nwrd c = rq_nwrd q" and "\<not> rk_fRd_ovr c"
    and "rq_dr q = rk_dr (rq_rkda q)" and n: "n = unat (rq_nwrd q)" "n \<le> 2 ^ 16" and e: "even (unat (rq_addr q))"
    and l: "unat (rk_lba q (rk_unit (rq_dr q) c) + of_nat (nblk_of 256 n)) \<le> 4872"
  shows "rk_done (cc_fBase c) q n (rk_unit (rq_dr q) c) (rk_exit_regs c n 0)"
proof -
  let ?u = "rk_unit (rq_dr q) c"
  let ?lba = "rk_lba q ?u + of_nat (nblk_of 256 n)"
  let ?a = "rq_addr q + of_nat (2 * n)"
  obtain cy h se where chs: "Lba2Chs ?lba ?u = (cy, h, se)"
    by (cases "Lba2Chs ?lba ?u") auto
  have g: "geom_ok ?u" "unat ?lba div (ud_fNSect ?u * ud_fNHead ?u) < 2 ^ 16"
    using assms(1) l by (simp_all add: rk05_def geom_ok_def)
  have gm: "ud_fNSect ?u = 12" "ud_fNHead ?u = 2"
    using assms(1) by (simp_all add: rk05_def)
  have b: "unat cy < 2 ^ 8" "unat h < 2 ^ 1" "unat se < 2 ^ 4"
    using Lba2Chs_fields [OF g chs] l unfolding gm by auto
  define da where "da = (rq_rkda q AND kRKDA_M_DRSEL) OR push_bit kRKDA_V_CYL cy OR push_bit kRKDA_V_SUR h OR se"
  define cs where "cs = (rq_rkcs q AND NOT kRKCS_M_MEX) OR push_bit kRKCS_V_MEX (ucast (drop_bit 16 ?a AND 3))"
  let ?ba = "ucast (?a AND 0xfffe) :: u16"
  have nb: "Nwrd2Nblk (of_nat n) ?u = of_nat (nblk_of 256 n)"
    using Nwrd2Nblk_eq [of ?u 256 "rq_nwrd q"] assms(1) n by (simp add: rk05_def)
  have "rq_nwrd q - of_nat n = 0"
    using n(1) by simp
  then have regs: "rk_exit_regs c n 0 = [(cc_fBase c + kRKWC, 0), (cc_fBase c + kRKBA, ?ba), (cc_fBase c + kRKDA, da)] @
        (if cs \<noteq> rq_rkcs q then [(cc_fBase c + kRKCS, cs)] else []) @ [(cc_fBase c + kRKMR, kRKMR_M_FDONE)]"
    using assms(2-7) chs by (simp add: rk_exit_regs_def Let_def nb da_def cs_def assms(8) [symmetric])
  have "odd ?a = odd (rq_addr q)"
    by simp
  then have ev: "even (unat ?a)"
    using e odd_unat [of ?a] odd_unat [of "rq_addr q"] by simp
  note df = da_fields [OF b da_def]
  have "rq_addr (rk_decode 0 ?ba da cs) = take_bit 18 ?a"
    using ba_cs_fields [OF ev cs_def] by (simp add: rk_decode_def)
  moreover have "rq_dr (rk_decode 0 ?ba da cs) = rq_dr q"
    using df(4) assms(8) by (simp add: rk_decode_def)
  moreover have "rk_lba (rk_decode 0 ?ba da cs) ?u = ?lba"
    using Chs_Lba [OF g chs] df(1-3) by (simp add: rk_lba_def rk_decode_def)
  ultimately show ?thesis
    using regs unfolding rk_done_def Let_def by blast
qed

section \<open>Disk read and disk write\<close>

text \<open>What both transfers need: a started and idle controller, a request that it accepts, memory that exists.\<close>

definition rk_setup :: "u16 \<Rightarrow> cpu \<Rightarrow> nat \<Rightarrow> nat \<Rightarrow> rdmadisk \<Rightarrow> rk11 \<Rightarrow> cpport \<Rightarrow> bool" where
  "rk_setup fu p bm b r c d =
     (let q = rk_request p c d; u = rk_unit (rq_dr q) c
      in rk_prim p c \<and> rk_inv p c \<and> length (rk_fspUnit c) = rk_NUnit \<and> \<not> rd_IsActive r \<and> chunk_cfg bm b r \<and> rk_good fu q u \<and> rk05 u \<and>
         disk_ready 512 u \<and> in22 (rq_addr q) (unat (rq_nwrd q)) d \<and> word_mode d)"

lemma rk_lba_lim:
  assumes "rk05 u" and "n \<le> 2 ^ 16"
  shows "unat (rk_lba q u) + nblk_of 256 n \<le> 2 ^ 32"
    "unat (rk_lba q u + of_nat (nblk_of 256 n)) = unat (rk_lba q u) + nblk_of 256 n"
proof -
  have nb: "nblk_of 256 n \<le> 2 ^ 16"
    using assms(2) by (simp add: nblk_of_def)
  have f: "unat (rq_se q) < 2 ^ 16" "unat (rq_hd q) < 2 ^ 16" "unat (rq_cy q) < 2 ^ 16"
    using unsigned_less [of "rq_se q"] unsigned_less [of "rq_hd q"] unsigned_less [of "rq_cy q"] by simp_all
  then have "unat (rk_lba q u) < 2 ^ 31"
    using assms(1) Chs2Lba_unat [of "rq_se q" u "rq_hd q" "rq_cy q"] by (simp add: rk05_def rk_lba_def)
  then show "unat (rk_lba q u) + nblk_of 256 n \<le> 2 ^ 32"
    "unat (rk_lba q u + of_nat (nblk_of 256 n)) = unat (rk_lba q u) + nblk_of 256 n"
    using nb by (simp_all add: unat_word_ariths unat_of_nat take_bit_nat_eq_self)
qed

lemma rk_accept_simps:
  "rk_inv p (rk_accept q lba l c) = rk_inv p c" "rk_unit i (rk_accept q lba l c) = rk_unit i c" "rk_fRd_fu (rk_accept q lba l c) = rq_fu q"
  "rk_inv p (rk_inc x c) = rk_inv p c" "rk_unit i (rk_inc x c) = rk_unit i c" "rk_fRd_fu (rk_inc x c) = rk_fRd_fu c"
  "cc_fBase (rk_accept q lba l c) = cc_fBase c" "cc_fBase (rk_inc x c) = cc_fBase c" "rk_exit_regs (rk_inc x c) = rk_exit_regs c"
  "rk_fspUnit (rk_inc x c) = rk_fspUnit c" "rk_fspUnit (rk_accept q lba l c) = rk_fspUnit c"
  by (auto simp: rk_accept_def rk_inv_def rk_inc_def rk_unit_def rk_exit_regs_def Let_def fun_eq_iff split: prod.splits)

lemma rk_post_fused:
  assumes "rk_fRd_fu c \<noteq> rk_kFUNC_WCHK" and "labo_seen (rk_ext p n c) 3 l"
  shows "rc_PostExecCB (rk_cbs k p) kStatusDone n l 3 r (c, d) = Inr (r, (c, d))"
  using assms by (auto simp: rk_cbs_def rk_RdmaPostExecCB_def rk_ext_def labo_seen_def Let_def)

lemma rk_queued:
  assumes st: "rk_setup fu p bm b r c d" and fu: "fu = rk_kFUNC_READ \<or> fu = rk_kFUNC_WRITE \<and> \<not> ud_fWProt (rk_unit (rq_dr (rk_request p c d)) c)"
    and q: "q = rk_request p c d" and i: "i = rq_dr q" and n: "n = unat (rq_nwrd q)"
  shows "\<exists>args' r1 c1. rk_AttnHandler (cp_link (cp_fBase p) bm b) h p args r (c, d) = Inr (args', r1, c1, d\<lparr>cb_lam := 0\<rparr>) \<and>
    dma_set (fu = rk_kFUNC_READ) (rq_addr q) n kCPAH_M_UBM22 (unat (rk_lba q (rk_unit i c))) i (if fu = rk_kFUNC_READ then kFuncRead else kFuncWrite) 512 r1 \<and>
    chunk_ok bm r1 \<and> rk_inv p c1 \<and> rk_fspUnit c1 = rk_fspUnit c \<and> rk_fRd_fu c1 = fu \<and> rk_done (cc_fBase c) q n (rk_unit i c) (rk_exit_regs c1 n 0)"
proof -
  let ?k = "cp_link (cp_fBase p) bm b"
  let ?u = "rk_unit i c"
  let ?lba = "rk_lba q ?u"
  let ?d = "d\<lparr>cb_lam := 0\<rparr>"
  have g: "rk_prim p c" "\<not> rd_IsActive r" "rk_good fu q (rk_unit (rq_dr q) c)" "ud_fupVirt (rk_unit (rq_dr q) c) \<noteq> None" "rk05 ?u" "chunk_cfg bm b r"
    "rk_inv p c" "even (unat (rq_addr q))"
    using st by (auto simp: rk_setup_def Let_def q i disk_ready_def in22_def)
  have "fu \<in> {rk_kFUNC_READ, rk_kFUNC_WRITE}"
    using fu by auto
  from AttnHandler_accept [OF g(1,2) q g(3,4) this, of bm b h args] obtain args' l where
    at: "rk_AttnHandler ?k h p args r (c, d) = ebind (rk_func ?k h p q ?lba (rq_nwrd q) r (rk_accept q ?lba l c, ?d)) (\<lambda>(l1, r1, c3, w1).
        if cl_Size l1 > 0 then ebind (srv_Exec ?k l1 w1) (\<lambda>(l2, w2). Inr (args', r1, (c3, w2))) else Inr (args', r1, (c3, w1)))"
    unfolding i by blast
  let ?st = "if fu = rk_kFUNC_READ then rkStatNFuncRead else rkStatNFuncWrite"
  let ?c = "rk_inc ?st (rk_accept q ?lba l c)"
  have bs: "ud_fBlksize (du_get (rk_dunits ?k p) i (?c, ?d)) = 512"
    using g(5) by (simp add: rk_dunits_def rk_accept_simps rk05_def)
  have chk: "rk_chk_pos q ?u = 0" "rk_chk_iba q = 0" "rq_fu q = fu"
    using g(3) by (auto simp: rk_good_def rk_chk_pos_def rk_chk_iba_def i)
  have ne: "rk_kFUNC_READ \<noteq> rk_kFUNC_CRESET" "rk_kFUNC_WRITE \<noteq> rk_kFUNC_CRESET" "rk_kFUNC_READ \<noteq> rk_kFUNC_WRITE" "rk_kFUNC_READ \<noteq> rk_kFUNC_WCHK" "rk_kFUNC_WRITE \<noteq> rk_kFUNC_WCHK"
    by (simp_all add: dev_defs)
  have "\<exists>r1. rk_func ?k h p q ?lba (rq_nwrd q) r (rk_accept q ?lba l c, ?d) = Inr (clist_new, r1, (?c, ?d)) \<and>
      dma_set (fu = rk_kFUNC_READ) (rq_addr q) n kCPAH_M_UBM22 (unat ?lba) i (if fu = rk_kFUNC_READ then kFuncRead else kFuncWrite) 512 r1 \<and> chunk_ok bm r1"
  proof (cases "fu = rk_kFUNC_READ")
    case True
    then show ?thesis
      using Queue_ok(1) [OF g(2,6) bs, of p h "rq_addr q" n kCPAH_M_UBM22 ?lba] chk ne
      by (auto simp: rk_func_def Let_def rk_accept_simps i [symmetric] n [symmetric] dma_link_def)
  next
    case False
    then show ?thesis
      using Queue_ok(2) [OF g(2,6) bs, of p h "rq_addr q" n kCPAH_M_UBM22 ?lba] chk ne fu
      by (auto simp: rk_func_def Let_def rk_accept_simps i [symmetric] n [symmetric] dma_link_def q [symmetric])
  qed
  then obtain r1 where r1: "rk_func ?k h p q ?lba (rq_nwrd q) r (rk_accept q ?lba l c, ?d) = Inr (clist_new, r1, (?c, ?d))"
      "dma_set (fu = rk_kFUNC_READ) (rq_addr q) n kCPAH_M_UBM22 (unat ?lba) i (if fu = rk_kFUNC_READ then kFuncRead else kFuncWrite) 512 r1" "chunk_ok bm r1"
    by blast
  have dr: "rq_dr q = rk_dr (rq_rkda q)"
    by (simp add: q rk_request_def rk_decode_def)
  have n16: "n \<le> 2 ^ 16"
    using nwrd_range(2) [of p c d] by (simp add: n q)
  have lim: "unat (?lba + of_nat (nblk_of 256 n)) \<le> 4872"
    using g(3,5) Nwrd2Nblk_eq [of ?u 256 "rq_nwrd q"] n16 by (simp add: rk_good_def i [symmetric] rk05_def n)
  have "rk_done (cc_fBase ?c) q n (rk_unit (rq_dr q) ?c) (rk_exit_regs ?c n 0)"
    by (rule rk_exit_done) (use g(5,8) lim n16 dr n in \<open>simp_all add: rk_accept_simps i [symmetric]\<close>, simp_all add: rk_accept_def rk_inc_def)
  then have "rk_done (cc_fBase c) q n ?u (rk_exit_regs ?c n 0)"
    by (simp add: rk_accept_simps i)
  then show ?thesis
    using at r1 g(7) chk(3) by (intro exI [of _ args'] exI [of _ r1] exI [of _ ?c]) (simp add: rk_accept_simps clist_new_def cl_Size_def)
qed

lemma rk_chain_end:
  assumes "rk_fRd_fu c \<noteq> rk_kFUNC_WCHK" and "labo_seen (rk_ext p n c) 3 l" and "rk_inv p c" and "same_unit (rk_unit i c) u'"
  shows "rc_PostExecCB (rk_cbs k p) kStatusDone n l 3 r (rk_put i u' c, d) = Inr (r, (rk_put i u' c, d))"
proof -
  have "rk_ext p n (rk_put i u' c) = rk_ext p n c" "rk_fRd_fu (rk_put i u' c) = rk_fRd_fu c"
    using rkd.put_inv [OF assms(3,4)] by (simp_all add: rk_put_def)
  then show ?thesis
    using rk_post_fused [of "rk_put i u' c" p n l k r d] assms(1,2) by simp
qed

text \<open>C3: A disk read of the RK11 works from end to end. The attention handler takes the request from the registers of the device and queues it;
  the calls of the DMA handler end, and leave in memory at the bus address the words of the disk from the block that cylinder, surface and
  sector name, exactly as many as the word count asks for and nothing else changed, in chunks of any size; the last command list clears the word
  count, moves bus address and disk address behind the transfer and reports the function as done; the controller is idle again and no disk is
  changed. The request is one the controller accepts, within the disk and within memory.\<close>

theorem rk11_read:
  assumes "rk_setup rk_kFUNC_READ p bm b r c d" and q: "q = rk_request p c d" and u: "u = rk_unit (rq_dr q) c" and n: "n = unat (rq_nwrd q)"
  shows "\<exists>args' r1 c1 d1 r2 c2 d2 xs. rk_AttnHandler (cp_link (cp_fBase p) bm b) h p args r (c, d) = Inr (args', r1, c1, d1) \<and>
    rdma_chain (rk_RdmaHandler (cp_link (cp_fBase p) bm b) p) r1 (c1, d1) = Some (Inr (r2, c2, d2)) \<and> \<not> rd_IsActive r2 \<and>
    cb_mem d2 = wr_words (unat (rq_addr q)) (take n (pairs (disk_bytes (unit_blk u) (unat (rk_lba q u)) (nblk_of 256 n)))) (cb_mem d) \<and>
    cb_log d2 = cb_log d @ remote p xs \<and> rk_done (cc_fBase c) q n u xs \<and>
    (\<forall>j < rk_NUnit. unit_blk (rk_unit j c2) = unit_blk (rk_unit j c))"
proof -
  let ?k = "cp_link (cp_fBase p) bm b"
  let ?i = "rq_dr q"
  have g: "rk05 u" "disk_ready 512 u" "in22 (rq_addr q) n d" "word_mode d" "length (rk_fspUnit c) = rk_NUnit"
    using assms(1) by (simp_all add: rk_setup_def Let_def q u n)
  from rk_queued [OF assms(1) _ q refl n, of h args] obtain args' r1 c1 where
    1: "rk_AttnHandler ?k h p args r (c, d) = Inr (args', r1, c1, d\<lparr>cb_lam := 0\<rparr>)"
      "dma_set True (rq_addr q) n kCPAH_M_UBM22 (unat (rk_lba q u)) ?i kFuncRead 512 r1" "chunk_ok bm r1" "rk_inv p c1" "rk_fspUnit c1 = rk_fspUnit c"
      "rk_fRd_fu c1 = rk_kFUNC_READ" "rk_done (cc_fBase c) q n u (rk_exit_regs c1 n 0)"
    by (auto simp: u)
  have n0: "0 < n" "n \<le> 2 ^ 16"
    using nwrd_range [of p c d] by (simp_all add: n q)
  have uc: "rk_unit j c1 = rk_unit j c" for j
    using 1(5) by (simp add: rk_unit_def)
  have lim: "unat (rk_lba q u) + nblk_of (512 div 2) n \<le> 2 ^ 32"
    using rk_lba_lim(1) [OF g(1) n0(2), of q] by simp
  from rkd.read_chain [OF 1(2) n0(1) lim _ 1(4,3) mode_ubm22, of "d\<lparr>cb_lam := 0\<rparr>" b bm b] obtain l' d' r6 u' where
    2: "rdma_chain (RdmaHandler (dma_link p bm b) (rk_cbs ?k p) p) r1 (c1, d\<lparr>cb_lam := 0\<rparr>) =
      Some (ebind (rc_PostExecCB (rk_cbs ?k p) kStatusDone n l' 3 r6 (rk_put ?i u' c1, d')) (\<lambda>(r7, s5). Inr (r7\<lparr>rd_fStatus := kStatusDone\<rparr>, s5)))"
      "labo_seen (rk_ext p n c1) 3 l'" "same_unit u u'" "disk_ready 512 u'" "unit_blk u' = unit_blk u"
      "mem_upd (wr_words (unat (rq_addr q)) (take n (pairs (disk_bytes (unit_blk u) (unat (rk_lba q u)) (nblk_of 256 n)))) (cb_mem d))
        (d\<lparr>cb_lam := 0, cb_log := cb_log d @ ext_log (rk_ext p n c1)\<rparr>) d'"
    using g(2-4) by (auto simp: uc u in22_lam)
  have wc: "rk_fRd_fu c1 \<noteq> rk_kFUNC_WCHK"
    using 1(6) by (simp add: dev_defs)
  have "rc_PostExecCB (rk_cbs ?k p) kStatusDone n l' 3 r6 (rk_put ?i u' c1, d') = Inr (r6, (rk_put ?i u' c1, d'))"
    using rk_chain_end [OF wc 2(2) 1(4)] 2(3) by (simp add: uc u)
  then have "rdma_chain (rk_RdmaHandler ?k p) r1 (c1, d\<lparr>cb_lam := 0\<rparr>) = Some (Inr (r6\<lparr>rd_fStatus := kStatusDone\<rparr>, rk_put ?i u' c1, d'))"
    using 2(1) by (simp add: rk_RdmaHandler_def dma_link_def)
  moreover have "unit_blk (rk_unit j (rk_put ?i u' c1)) = unit_blk (rk_unit j c)" for j
    using 2(5) by (simp add: rk_unit_put uc u)
  moreover have "cb_log d' = cb_log d @ remote p (rk_exit_regs c1 n 0)"
    using 2(6) wc by (simp add: mem_upd_def rk_ext_def ext_log_def)
  ultimately show ?thesis
    using 1(1,7) 2(6)
    by (intro exI [of _ args'] exI [of _ r1] exI [of _ c1] exI [of _ "d\<lparr>cb_lam := 0\<rparr>"] exI [of _ "r6\<lparr>rd_fStatus := kStatusDone\<rparr>"]
        exI [of _ "rk_put ?i u' c1"] exI [of _ d'] exI [of _ "rk_exit_regs c1 n 0"]) (simp add: rd_IsActive_def mem_upd_def)
qed

text \<open>C4: A disk write of the RK11 works from end to end in the same way: the words of memory are on the disk, the last block filled with 0xdead, every
  other block of this disk and every other disk is as before, and memory is not changed.\<close>

theorem rk11_write:
  assumes "rk_setup rk_kFUNC_WRITE p bm b r c d" and q: "q = rk_request p c d" and u: "u = rk_unit (rq_dr q) c" and n: "n = unat (rq_nwrd q)"
    and wp: "\<not> ud_fWProt u"
  shows "\<exists>args' r1 c1 d1 r2 c2 d2 xs. rk_AttnHandler (cp_link (cp_fBase p) bm b) h p args r (c, d) = Inr (args', r1, c1, d1) \<and>
    rdma_chain (rk_RdmaHandler (cp_link (cp_fBase p) bm b) p) r1 (c1, d1) = Some (Inr (r2, c2, d2)) \<and> \<not> rd_IsActive r2 \<and>
    cb_mem d2 = cb_mem d \<and> cb_log d2 = cb_log d @ remote p xs \<and> rk_done (cc_fBase c) q n u xs \<and>
    arr_eq (unit_blk (rk_unit (rq_dr q) c2)) (put_disk 512 (unat (rk_lba q u)) (rd_words (unat (rq_addr q)) n (cb_mem d)) (unit_blk u)) \<and>
    (\<forall>j < rk_NUnit. j \<noteq> rq_dr q \<longrightarrow> rk_unit j c2 = rk_unit j c)"
proof -
  let ?k = "cp_link (cp_fBase p) bm b"
  let ?i = "rq_dr q"
  have g: "rk05 u" "disk_ready 512 u" "in22 (rq_addr q) n d" "word_mode d" "length (rk_fspUnit c) = rk_NUnit"
    using assms(1) by (simp_all add: rk_setup_def Let_def q u n)
  have rw: "rk_kFUNC_WRITE \<noteq> rk_kFUNC_READ"
    by (simp add: dev_defs)
  from rk_queued [OF assms(1) _ q refl n, of h args] obtain args' r1 c1 where
    1: "rk_AttnHandler ?k h p args r (c, d) = Inr (args', r1, c1, d\<lparr>cb_lam := 0\<rparr>)"
      "dma_set False (rq_addr q) n kCPAH_M_UBM22 (unat (rk_lba q u)) ?i kFuncWrite 512 r1" "chunk_ok bm r1" "rk_inv p c1" "rk_fspUnit c1 = rk_fspUnit c"
      "rk_fRd_fu c1 = rk_kFUNC_WRITE" "rk_done (cc_fBase c) q n u (rk_exit_regs c1 n 0)"
    using wp by (auto simp: u q rw)
  have n0: "0 < n" "n \<le> 2 ^ 16"
    using nwrd_range [of p c d] by (simp_all add: n q)
  have uc: "rk_unit j c1 = rk_unit j c" for j
    using 1(5) by (simp add: rk_unit_def)
  have lim: "unat (rk_lba q u) + nblk_of (512 div 2) n \<le> 2 ^ 32"
    using rk_lba_lim(1) [OF g(1) n0(2), of q] by simp
  from rkd.write_chain [OF 1(2) n0(1) lim _ 1(4,3) mode_ubm22, of "d\<lparr>cb_lam := 0\<rparr>" b bm b] obtain l' d' r6 u' where
    2: "rdma_chain (RdmaHandler (dma_link p bm b) (rk_cbs ?k p) p) r1 (c1, d\<lparr>cb_lam := 0\<rparr>) =
      Some (ebind (rc_PostExecCB (rk_cbs ?k p) kStatusDone n l' 3 r6 (rk_put ?i u' c1, d')) (\<lambda>(r7, s5). Inr (r7\<lparr>rd_fStatus := kStatusDone\<rparr>, s5)))"
      "labo_seen (rk_ext p n c1) 3 l'" "same_unit u u'"
      "arr_eq (unit_blk u') (put_disk 512 (unat (rk_lba q u)) (rd_words (unat (rq_addr q)) n (cb_mem d)) (unit_blk u))"
      "mem_upd (cb_mem d) (d\<lparr>cb_lam := 0, cb_log := cb_log d @ ext_log (rk_ext p n c1)\<rparr>) d'"
    using g(2-4) by (auto simp: uc u in22_lam)
  have wc: "rk_fRd_fu c1 \<noteq> rk_kFUNC_WCHK"
    using 1(6) by (simp add: dev_defs)
  have "rc_PostExecCB (rk_cbs ?k p) kStatusDone n l' 3 r6 (rk_put ?i u' c1, d') = Inr (r6, (rk_put ?i u' c1, d'))"
    using rk_chain_end [OF wc 2(2) 1(4)] 2(3) by (simp add: uc u)
  then have "rdma_chain (rk_RdmaHandler ?k p) r1 (c1, d\<lparr>cb_lam := 0\<rparr>) = Some (Inr (r6\<lparr>rd_fStatus := kStatusDone\<rparr>, rk_put ?i u' c1, d'))"
    using 2(1) by (simp add: rk_RdmaHandler_def dma_link_def)
  moreover have "rk_unit ?i (rk_put ?i u' c1) = u'"
    using g(5) rk_dr_le [of "rq_rkda q"] by (simp add: rk_unit_put 1(5) rk_NUnit_def q rk_request_def rk_decode_def Let_def)
  moreover have "rk_unit j (rk_put ?i u' c1) = rk_unit j c" if "j \<noteq> ?i" for j
    using that by (simp add: rk_unit_put uc)
  moreover have "cb_log d' = cb_log d @ remote p (rk_exit_regs c1 n 0)"
    using 2(5) wc by (simp add: mem_upd_def rk_ext_def ext_log_def)
  ultimately show ?thesis
    using 1(1,7) 2(4,5)
    by (intro exI [of _ args'] exI [of _ r1] exI [of _ c1] exI [of _ "d\<lparr>cb_lam := 0\<rparr>"] exI [of _ "r6\<lparr>rd_fStatus := kStatusDone\<rparr>"]
        exI [of _ "rk_put ?i u' c1"] exI [of _ d'] exI [of _ "rk_exit_regs c1 n 0"]) (simp add: rd_IsActive_def mem_upd_def)
qed

section \<open>An example\<close>

text \<open>A controller with a disk in memory in drive 0, and a request for 300 words at block 13.\<close>

definition demo_disk :: diskram where
  "demo_disk = diskram_new\<lparr>vd_fBlkSize := 512, vd_fNBlock := 4872, vd_fNCyl := 203, vd_fNHead := 2, vd_fNSect := 12\<rparr>"

definition demo_unit :: "nat \<Rightarrow> urk11" where
  "demo_unit i = (urk11_new i)\<lparr>ud_fupVirt := Some (ADRam demo_disk)\<rparr>"

definition rreg_cmd :: "u16 \<Rightarrow> command" where
  "rreg_cmd a = cmd_new\<lparr>cmd_fRequest := kCmdRreg, cmd_fAddress := a, cmd_fFlags := kFlagInit\<rparr>"

definition demo_rk :: rk11 where
  "demo_rk = rk11_new\<lparr>cc_fBase := 0xff00, rk_fspUnit := map demo_unit [0, 1, 2, 3, 4, 5, 6, 7],
     rk_fPrimClist := clist_new\<lparr>cl_fList := cmd_new\<lparr>cmd_fRequest := kCmdAttn, cmd_fFlags := kFlagInit\<rparr> #
       map (\<lambda>off. rreg_cmd (IbusRemoteAddr (0xff00 + off) demo_cpu)) [kRKWC, kRKBA, kRKDA, kRKMR, kRKCS]\<rparr>,
     rk_fPC_rkwc := 1, rk_fPC_rkba := 2, rk_fPC_rkda := 3, rk_fPC_rkmr := 4, rk_fPC_rkcs := 5\<rparr>"

definition demo_rkport :: "u16 \<Rightarrow> cpport" where
  "demo_rkport cs = (demo_port 0x10000)\<lparr>cb_ext := (\<lambda>a.
     if a = IbusRemoteAddr (0xff00 + kRKWC) demo_cpu then 0xfed4 else if a = IbusRemoteAddr (0xff00 + kRKBA) demo_cpu then 0x1000
     else if a = IbusRemoteAddr (0xff00 + kRKDA) demo_cpu then 0x11 else if a = IbusRemoteAddr (0xff00 + kRKCS) demo_cpu then cs else 0)\<rparr>"

lemmas demo_rk_simps = demo_rk_def demo_rkport_def demo_port_def demo_cpu_def cpu_new_def rk11_new_def cntl.defs cntl_new_def demo_unit_def urk11_new_def
  udisk.defs udisk_new_def rreg_cmd_def cmd_new_def IbusRemoteAddr_def dev_defs

lemma demo_request:
  "rk_request demo_cpu demo_rk (demo_rkport cs) = rk_decode 0xfed4 0x1000 0x11 cs"
  by (simp add: rk_request_def demo_rk_simps)

lemma demo_decode: "rq_rkcs (rk_decode a b da cs) = cs" "rq_addr (rk_decode 0xfed4 0x1000 0x11 5) = 0x1000" "rq_addr (rk_decode 0xfed4 0x1000 0x11 3) = 0x1000"
    "rq_nwrd (rk_decode 0xfed4 0x1000 0x11 cs) = 300" "rq_dr (rk_decode a b 0x11 cs) = 0" "rq_se (rk_decode a b 0x11 cs) = 1"
    "rq_hd (rk_decode a b 0x11 cs) = 1" "rq_cy (rk_decode a b 0x11 cs) = 0" "rq_fu (rk_decode a b da 5) = rk_kFUNC_READ" "rq_fu (rk_decode a b da 3) = rk_kFUNC_WRITE"
  by (simp_all add: rk_decode_def rk_dr_def dev_defs)

lemma demo_units: "rk_unit 0 demo_rk = demo_unit 0" "length (rk_fspUnit demo_rk) = rk_NUnit"
  by (simp_all add: rk_unit_def demo_rk_def rk_NUnit_def)

lemma demo_disk_ready: "disk_ready 512 (demo_unit i)" "rk05 (demo_unit i)" "\<not> ud_fWProt (demo_unit i)"
  by (simp_all add: disk_ready_def demo_unit_def urk11_new_def udisk.defs udisk_new_def ad_inv_def ram_inv_def demo_disk_def diskram_new_def bm_inv_def rk05_def)

lemma demo_prim: "rk_prim demo_cpu demo_rk"
  by (simp add: rk_prim_def prim_ok_def demo_rk_simps Command_def dev_reg_def ibaddr_bad_def ext_reg_def cpu_defs rl_defs)

lemma demo_inv: "rk_inv demo_cpu demo_rk"
  by (simp add: rk_inv_def rk_regs_def demo_rk_simps dev_reg_def ibaddr_bad_def ext_reg_def cpu_defs)

lemma rkdemo_good: "rk_good fu (rk_decode 0xfed4 0x1000 0x11 cs) (demo_unit 0)" if "fu = rk_kFUNC_READ \<and> cs = 5 \<or> fu = rk_kFUNC_WRITE \<and> cs = 3"
  using that by (auto simp: rk_good_def demo_decode rk_lba_def Chs2Lba_def Nwrd2Nblk_def demo_unit_def urk11_new_def udisk.defs udisk_new_def dev_defs)

lemma demo_setup: "rk_setup rk_kFUNC_READ demo_cpu 1000 100 rdmadisk_new demo_rk (demo_rkport 5)"
    "rk_setup rk_kFUNC_WRITE demo_cpu 1000 100 rdmadisk_new demo_rk (demo_rkport 3)"
  unfolding rk_setup_def Let_def demo_request
  by (simp_all add: demo_decode demo_units demo_disk_ready demo_prim demo_inv rkdemo_good rd_IsActive_def rdmadisk_new_def rdma.defs rdma_new_def
      chunk_cfg_def in22_def io22_def word_mode_def demo_rkport_def demo_port_def)

theorem rk11_read_witness:
  "\<exists>args' r1 c1 d1 r2 c2 d2 xs. rk_AttnHandler (cp_link (cp_fBase demo_cpu) 1000 100) 7 demo_cpu (attn_args_new 16 16) rdmadisk_new (demo_rk, demo_rkport 5) = Inr (args', r1, c1, d1) \<and>
    rdma_chain (rk_RdmaHandler (cp_link (cp_fBase demo_cpu) 1000 100) demo_cpu) r1 (c1, d1) = Some (Inr (r2, c2, d2)) \<and> \<not> rd_IsActive r2 \<and>
    cb_mem d2 = wr_words 0x1000 (take 300 (pairs (disk_bytes (unit_blk (demo_unit 0)) 13 2))) (\<lambda>_. 0) \<and>
    cb_log d2 = remote demo_cpu xs \<and> rk_done 0xff00 (rk_decode 0xfed4 0x1000 0x11 5) 300 (demo_unit 0) xs \<and>
    (\<forall>j < rk_NUnit. unit_blk (rk_unit j c2) = unit_blk (rk_unit j demo_rk))"
proof -
  have l: "unat (rk_lba (rk_decode 0xfed4 0x1000 0x11 5) (demo_unit 0)) = 13" "nblk_of 256 300 = 2" "cc_fBase demo_rk = 0xff00"
      "cb_mem (demo_rkport 5) = (\<lambda>_. 0)" "cb_log (demo_rkport 5) = []"
    by (simp_all add: rk_lba_def demo_decode Chs2Lba_def demo_unit_def urk11_new_def udisk.defs udisk_new_def nblk_of_def demo_rk_def demo_rkport_def demo_port_def)
  show ?thesis
    using rk11_read [OF demo_setup(1) refl refl refl, of 7 "attn_args_new 16 16"] unfolding demo_request by (simp add: demo_decode demo_units l)
qed

theorem rk11_write_witness:
  "\<exists>args' r1 c1 d1 r2 c2 d2 xs. rk_AttnHandler (cp_link (cp_fBase demo_cpu) 1000 100) 7 demo_cpu (attn_args_new 16 16) rdmadisk_new (demo_rk, demo_rkport 3) = Inr (args', r1, c1, d1) \<and>
    rdma_chain (rk_RdmaHandler (cp_link (cp_fBase demo_cpu) 1000 100) demo_cpu) r1 (c1, d1) = Some (Inr (r2, c2, d2)) \<and> \<not> rd_IsActive r2 \<and>
    cb_mem d2 = (\<lambda>_. 0) \<and> cb_log d2 = remote demo_cpu xs \<and> rk_done 0xff00 (rk_decode 0xfed4 0x1000 0x11 3) 300 (demo_unit 0) xs \<and>
    arr_eq (unit_blk (rk_unit 0 c2)) (put_disk 512 13 (rd_words 0x1000 300 (\<lambda>_. 0)) (unit_blk (demo_unit 0))) \<and>
    (\<forall>j < rk_NUnit. j \<noteq> 0 \<longrightarrow> rk_unit j c2 = rk_unit j demo_rk)"
proof -
  have l: "unat (rk_lba (rk_decode 0xfed4 0x1000 0x11 3) (demo_unit 0)) = 13" "cc_fBase demo_rk = 0xff00"
      "cb_mem (demo_rkport 3) = (\<lambda>_. 0)" "cb_log (demo_rkport 3) = []"
    by (simp_all add: rk_lba_def demo_decode Chs2Lba_def demo_unit_def urk11_new_def udisk.defs udisk_new_def demo_rk_def demo_rkport_def demo_port_def)
  show ?thesis
    using rk11_write [OF demo_setup(2) refl refl refl, of 7 "attn_args_new 16 16"] unfolding demo_request by (simp add: demo_decode demo_units demo_disk_ready l)
qed

end
