(* ===== verification/Rw11CntlRL11.thy ===== *)
theory Rw11CntlRL11
  imports Rw11CntlBase
begin

text \<open>
  The RL11 controller, \<open>Rw11CntlRL11\<close> and \<open>Rw11UnitRL11\<close>: start, attention handler and the callbacks of the DMA. Seek
  and get status are done by the device itself and do not reach the server. Log messages are left out.
\<close>

section \<open>Constants\<close>

definition kRLCS :: u16 where [dev_defs]: "kRLCS = 0"
definition kRLBA :: u16 where [dev_defs]: "kRLBA = 2"
definition kRLDA :: u16 where [dev_defs]: "kRLDA = 4"
definition kRLMP :: u16 where [dev_defs]: "kRLMP = 6"
definition rl_kProbeOff :: u16 where [dev_defs]: "rl_kProbeOff = 0"
definition rl_kProbeInt :: bool where [dev_defs]: "rl_kProbeInt = True"
definition rl_kProbeRem :: bool where [dev_defs]: "rl_kProbeRem = True"
definition kRLCS_M_ERR :: u16 where [dev_defs]: "kRLCS_M_ERR = 0x8000"
definition kRLCS_V_E :: nat where [dev_defs]: "kRLCS_V_E = 10"
definition kRLCS_V_DS :: nat where [dev_defs]: "kRLCS_V_DS = 8"
definition kRLCS_B_DS :: u16 where [dev_defs]: "kRLCS_B_DS = 3"
definition kRLCS_M_CRDY :: u16 where [dev_defs]: "kRLCS_M_CRDY = 0x80"
definition kRLCS_M_BAE :: u16 where [dev_defs]: "kRLCS_M_BAE = 0x30"
definition kRLCS_V_BAE :: nat where [dev_defs]: "kRLCS_V_BAE = 4"
definition kRLCS_B_BAE :: u16 where [dev_defs]: "kRLCS_B_BAE = 3"
definition kRLCS_V_FUNC :: nat where [dev_defs]: "kRLCS_V_FUNC = 1"
definition kRLCS_B_FUNC :: u16 where [dev_defs]: "kRLCS_B_FUNC = 7"
definition rl_kFUNC_WCHK :: u16 where [dev_defs]: "rl_kFUNC_WCHK = 1"
definition rl_kFUNC_RHDR :: u16 where [dev_defs]: "rl_kFUNC_RHDR = 4"
definition rl_kFUNC_WRITE :: u16 where [dev_defs]: "rl_kFUNC_WRITE = 5"
definition rl_kFUNC_READ :: u16 where [dev_defs]: "rl_kFUNC_READ = 6"
definition rl_kFUNC_RNHC :: u16 where [dev_defs]: "rl_kFUNC_RNHC = 7"
definition kERR_M_DE :: u16 where [dev_defs]: "kERR_M_DE = 0x10"
definition kERR_OPI :: u16 where [dev_defs]: "kERR_OPI = 1"
definition kERR_WCHK :: u16 where [dev_defs]: "kERR_WCHK = 2"
definition kERR_HNFND :: u16 where [dev_defs]: "kERR_HNFND = 5"
definition kERR_NXM :: u16 where [dev_defs]: "kERR_NXM = 8"
definition kRLCS_V_MPREM :: nat where [dev_defs]: "kRLCS_V_MPREM = 11"
definition kRLCS_V_MPLOC :: nat where [dev_defs]: "kRLCS_V_MPLOC = 8"
definition kRLCS_ENA_MPREM :: u16 where [dev_defs]: "kRLCS_ENA_MPREM = 0x20"
definition kRLCS_ENA_MPLOC :: u16 where [dev_defs]: "kRLCS_ENA_MPLOC = 0x10"
definition kRFUNC_WCS :: u16 where [dev_defs]: "kRFUNC_WCS = 1"
definition kRFUNC_WMP :: u16 where [dev_defs]: "kRFUNC_WMP = 2"
definition kMPREM_M_MAP :: u16 where [dev_defs]: "kMPREM_M_MAP = 0x10"
definition kMPREM_M_SEQ :: u16 where [dev_defs]: "kMPREM_M_SEQ = 8"
definition kMPREM_S_MP :: u16 where [dev_defs]: "kMPREM_S_MP = 0"
definition kMPREM_MP :: u16 where [dev_defs]: "kMPREM_MP = 3"
definition kMPREM_CRC :: u16 where [dev_defs]: "kMPREM_CRC = 4"
definition kMPREM_STA :: u16 where [dev_defs]: "kMPREM_STA = 8"
definition kMPREM_POS :: u16 where [dev_defs]: "kMPREM_POS = 0xc"
definition kMPLOC_MP :: u16 where [dev_defs]: "kMPLOC_MP = 0"
definition kMPLOC_POS :: u16 where [dev_defs]: "kMPLOC_POS = 2"
definition kRLDA_RW_M_CA :: u16 where [dev_defs]: "kRLDA_RW_M_CA = 0xff80"
definition kRLDA_RW_V_CA :: nat where [dev_defs]: "kRLDA_RW_V_CA = 7"
definition kRLDA_RW_B_CA :: u16 where [dev_defs]: "kRLDA_RW_B_CA = 0x1ff"
definition kRLDA_RW_M_HS :: u16 where [dev_defs]: "kRLDA_RW_M_HS = 0x40"
definition kRLDA_RW_V_HS :: nat where [dev_defs]: "kRLDA_RW_V_HS = 6"
definition kRLDA_RW_B_HS :: u16 where [dev_defs]: "kRLDA_RW_B_HS = 1"
definition kRLDA_RW_B_SA :: u16 where [dev_defs]: "kRLDA_RW_B_SA = 0x3f"
definition kSTA_M_WL :: u16 where [dev_defs]: "kSTA_M_WL = 0x2000"
definition kSTA_M_WGE :: u16 where [dev_defs]: "kSTA_M_WGE = 0x400"
definition kSTA_M_DT :: u16 where [dev_defs]: "kSTA_M_DT = 0x80"
definition kSTA_M_CO :: u16 where [dev_defs]: "kSTA_M_CO = 0x20"
definition kSTA_M_HO :: u16 where [dev_defs]: "kSTA_M_HO = 0x10"
definition kSTA_M_BH :: u16 where [dev_defs]: "kSTA_M_BH = 8"
definition kST_LOAD :: u16 where [dev_defs]: "kST_LOAD = 0"
definition kST_LOCK :: u16 where [dev_defs]: "kST_LOCK = 5"
definition kMPREM_SEQ_MPSTAPOS :: u16 where [dev_defs]: "kMPREM_SEQ_MPSTAPOS = kMPREM_M_MAP OR kMPREM_M_SEQ OR kMPREM_S_MP"

section \<open>State\<close>

datatype rl_stat = rlStatNAttnHdl | rlStatNFuncWchk | rlStatNFuncRhdr | rlStatNFuncWrite | rlStatNFuncRead | rlStatNFuncRnhc

record url11 = udisk +
  ul_fRlsta :: u16
  ul_fRlpos :: u16

record rl11 = cntl +
  rl_fspUnit :: "url11 list"
  rl_fPrimClist :: clist
  rl_fPC_rlcs :: nat
  rl_fPC_rlba :: nat
  rl_fPC_rlda :: nat
  rl_fPC_imp :: nat
  rl_fPC_wc :: nat
  rl_fPC_sta :: nat
  rl_fPC_pos :: nat
  rl_fRd_rlcs :: u16
  rl_fRd_rlda :: u16
  rl_fRd_rlmp :: u16
  rl_fRd_sta :: u16
  rl_fRd_pos :: u16
  rl_fRd_addr :: u32
  rl_fRd_lba :: u32
  rl_fRd_nwrd :: u32
  rl_fRd_fu :: u16
  rl_fRd_ovr :: bool
  rl_fStats :: "rl_stat \<Rightarrow> nat"

definition url11_new :: "nat \<Rightarrow> url11" where
  "url11_new index =
     udisk.extend ((udisk_new index)\<lparr>ud_fType := ''rl02'', ud_fEnabled := True, ud_fNCyl := 512, ud_fNHead := 2, ud_fNSect := 40,
       ud_fBlksize := 256, ud_fNBlock := 512 * 2 * 40\<rparr>) \<lparr>ul_fRlsta = 0, ul_fRlpos = 0\<rparr>"

definition rl_SetType :: "string \<Rightarrow> url11 \<Rightarrow> url11 result" where
  "rl_SetType type u =
     (if ud_fupVirt u \<noteq> None then Inl (Rexception ''Rw11UnitRL11::SetType'' ''Bad state: file attached'')
      else
        ebind (if type = ''rl01'' then Inr (u\<lparr>ud_fNCyl := 256\<rparr>)
               else if type = ''rl02'' then Inr (u\<lparr>ud_fNCyl := 512\<rparr>)
               else Inl (Rexception ''Rw11UnitRL11::SetType'' (''Bad args: only types '' @ [CHR 0x27] @ ''rl01'' @ [CHR 0x27] @ '' and '' @
                 [CHR 0x27] @ ''rl02'' @ [CHR 0x27] @ '' supported'')))
          (\<lambda>u1. Inr (u1\<lparr>ud_fType := type, ud_fNBlock := ud_fNCyl u1 * ud_fNHead u1 * ud_fNSect u1\<rparr>)))"

definition rl_NUnit :: nat where
  "rl_NUnit = 4"

definition rl11_new :: rl11 where
  "rl11_new = cntl.extend (cntl_new ''rl11'')
     \<lparr>rl_fspUnit = map url11_new [0..<rl_NUnit], rl_fPrimClist = clist_new, rl_fPC_rlcs = 0, rl_fPC_rlba = 0, rl_fPC_rlda = 0,
      rl_fPC_imp = 0, rl_fPC_wc = 0, rl_fPC_sta = 0, rl_fPC_pos = 0, rl_fRd_rlcs = 0, rl_fRd_rlda = 0, rl_fRd_rlmp = 0, rl_fRd_sta = 0,
      rl_fRd_pos = 0, rl_fRd_addr = 0, rl_fRd_lba = 0, rl_fRd_nwrd = 0, rl_fRd_fu = 0, rl_fRd_ovr = False, rl_fStats = (\<lambda>_. 0)\<rparr>"

definition rl_inc :: "rl_stat \<Rightarrow> rl11 \<Rightarrow> rl11" where
  "rl_inc x c = c\<lparr>rl_fStats := stat_inc x 1 (rl_fStats c)\<rparr>"

definition rl_unit :: "nat \<Rightarrow> rl11 \<Rightarrow> url11" where
  "rl_unit i c = rl_fspUnit c ! i"

definition rl_put :: "nat \<Rightarrow> url11 \<Rightarrow> rl11 \<Rightarrow> rl11" where
  "rl_put i u c = c\<lparr>rl_fspUnit := (rl_fspUnit c)[i := u]\<rparr>"

definition rl_Config :: "string \<Rightarrow> u16 \<Rightarrow> int \<Rightarrow> cntl \<Rightarrow> cntl" where
  "rl_Config name base lam c = ConfigCntl name base lam rl_kProbeOff rl_kProbeInt rl_kProbeRem c"

definition rl_SetChunkSize :: "'w link \<Rightarrow> nat \<Rightarrow> rl11 \<Rightarrow> rdmadisk \<Rightarrow> 'w \<Rightarrow> rdmadisk" where
  "rl_SetChunkSize k chunk c r w = SetChunkSize k (cc_fStarted c) chunk r w"

section \<open>Register writes\<close>

text \<open>Position and status of the drives are in a memory of the device that is addressed through \<open>rlcs\<close> and written
  through \<open>rlmp\<close>.\<close>

definition rl_AddSetPosition :: "u16 \<Rightarrow> nat \<Rightarrow> u16 \<Rightarrow> (u16 \<times> u16) list" where
  "rl_AddSetPosition base ind pos =
     [(base + kRLCS, push_bit kRLCS_V_MPREM (kMPREM_POS + of_nat ind) OR kRLCS_ENA_MPREM OR push_bit kRLCS_V_FUNC kRFUNC_WMP), (base + kRLMP, pos)]"

definition rl_AddSetStatus :: "u16 \<Rightarrow> nat \<Rightarrow> u16 \<Rightarrow> (u16 \<times> u16) list" where
  "rl_AddSetStatus base ind sta =
     [(base + kRLCS, push_bit kRLCS_V_MPREM (kMPREM_STA + of_nat ind) OR kRLCS_ENA_MPREM OR push_bit kRLCS_V_FUNC kRFUNC_WMP), (base + kRLMP, sta)]"

definition rl_AddErrorExit :: "rl11 \<Rightarrow> u16 \<Rightarrow> (u16 \<times> u16) list" where
  "rl_AddErrorExit c rlerr =
     [(cc_fBase c + kRLCS, kRLCS_M_ERR OR push_bit kRLCS_V_E rlerr OR kRLCS_M_CRDY OR (rl_fRd_rlcs c AND kRLCS_M_BAE) OR
        push_bit kRLCS_V_FUNC kRFUNC_WCS)]"

definition rl_ds :: "u16 \<Rightarrow> nat" where
  "rl_ds rlcs = unat (drop_bit kRLCS_V_DS rlcs AND kRLCS_B_DS)"

definition rl_AddNormalExit :: "rl11 \<Rightarrow> nat \<Rightarrow> u16 \<Rightarrow> (u16 \<times> u16) list" where
  "rl_AddNormalExit c ndone rlerr0 =
     (let base = cc_fBase c; ds = rl_ds (rl_fRd_rlcs c); u = rl_unit ds c;
          nblk = Nwrd2Nblk (of_nat ndone) u;
          addr = rl_fRd_addr c + of_nat (2 * ndone);
          ba = ucast (addr AND 0xfffe);
          bae = ucast (drop_bit 16 addr AND 3);
          da = rl_fRd_rlda c + ucast nblk;
          rlmp = rl_fRd_rlmp c + of_nat ndone;
          rlerr = (if rl_fRd_ovr c \<and> rlerr0 = 0 then kERR_HNFND else rlerr0);
          sa0 = (rl_fRd_rlda c AND kRLDA_RW_B_SA) + ucast nblk;
          sa = (if unat sa0 \<ge> ud_fNSect u then 0 else sa0);
          posn = (rl_fRd_pos c AND (kRLDA_RW_M_CA OR kRLDA_RW_M_HS)) + sa;
          cs = kRLCS_M_CRDY OR push_bit kRLCS_V_BAE bae OR push_bit kRLCS_V_FUNC kRFUNC_WCS
      in [(base + kRLBA, ba), (base + kRLDA, da),
          (base + kRLCS, push_bit kRLCS_V_MPREM kMPREM_MP OR push_bit kRLCS_V_MPLOC kMPLOC_MP OR kRLCS_ENA_MPREM OR kRLCS_ENA_MPLOC OR
             push_bit kRLCS_V_FUNC kRFUNC_WMP),
          (base + kRLMP, rlmp)] @
         rl_AddSetPosition base ds posn @
         [(base + kRLCS, if rlerr \<noteq> 0 then cs OR push_bit kRLCS_V_E rlerr else cs)])"

section \<open>Setup\<close>

definition rl_sta :: "url11 \<Rightarrow> u16" where
  "rl_sta u =
     (if ud_fType u = ''rl02'' then kSTA_M_DT else 0) OR
     (if ud_fupVirt u \<noteq> None then kSTA_M_HO OR kSTA_M_BH OR kST_LOCK OR (if ud_fWProt u then kSTA_M_WL else 0)
      else kSTA_M_CO OR kSTA_M_BH OR kST_LOAD)"

definition rl_UnitSetup :: "'w link \<Rightarrow> cpu \<Rightarrow> nat \<Rightarrow> rl11 \<times> 'w \<Rightarrow> (rl11 \<times> 'w) result" where
  "rl_UnitSetup k p ind cw =
     (case cw of (c, w) \<Rightarrow>
        let u = rl_unit ind c; sta = rl_sta u; base = cc_fBase c
        in ebind (exec_wibrs k p ((if ud_fupVirt u = None then rl_AddSetPosition base ind 0 else []) @ rl_AddSetStatus base ind sta) w)
             (\<lambda>w'. Inr (rl_put ind (u\<lparr>ul_fRlsta := sta\<rparr>) c, w')))"

text \<open>The primary information: three registers, then the request to read word count, status and position of the selected
  drive from \<open>rlmp\<close>, one after the other.\<close>

definition rl_prim_clist :: "cpu \<Rightarrow> u16 \<Rightarrow> clist \<Rightarrow> (nat list \<times> clist) result" where
  "rl_prim_clist p base l =
     ebind (prim_clist p [base + kRLCS, base + kRLBA, base + kRLDA] l) (\<lambda>(is, l1).
     ebind (AddWibr (base + kRLCS) (push_bit kRLCS_V_MPREM kMPREM_SEQ_MPSTAPOS OR kRLCS_ENA_MPREM OR push_bit kRLCS_V_FUNC kRFUNC_WMP) p l1) (\<lambda>(i, l2).
     ebind (add_ribrs p [base + kRLMP, base + kRLMP, base + kRLMP] l2) (\<lambda>(js, l3). Inr (is @ [i] @ js, l3))))"

definition rl_Start :: "'w link \<Rightarrow> hid \<Rightarrow> cpu \<Rightarrow> rl11 \<Rightarrow> 'w \<Rightarrow> (cpu \<times> rl11 \<times> 'w) result" where
  "rl_Start k h p c w =
     (if start_bad c then Inl (Rexception ''Rw11CntlRL11::Start'' ''Bad state: started, no lam, not enable, not found'')
      else
        let base = cc_fBase c;
            (p1, w1) = fold (\<lambda>(n, off) pw. AllIAddrMapInsert k (cc_fName c @ n) (base + off) pw)
              [(''.cs'', kRLCS), (''.ba'', kRLBA), (''.da'', kRLDA), (''.mp'', kRLMP)] (p, w)
        in ebind (UnitSetupAll (rl_UnitSetup k p1) [0..<rl_NUnit] (c, w1)) (\<lambda>(c1, w2).
           ebind (rl_prim_clist p1 base (rl_fPrimClist c1)) (\<lambda>(is, l).
           ebind (lk_AddAttnHandler k h (lam_mask c1) h w2) (\<lambda>w3.
             Inr (p1, c1\<lparr>rl_fPrimClist := l, rl_fPC_rlcs := is ! 0, rl_fPC_rlba := is ! 1, rl_fPC_rlda := is ! 2, rl_fPC_imp := is ! 3,
                         rl_fPC_wc := is ! 4, rl_fPC_sta := is ! 5, rl_fPC_pos := is ! 6, cc_fStarted := True\<rparr>, w3)))))"

definition rl_BootCode :: "nat \<Rightarrow> u16 list \<times> u16 \<times> u16" where
  "rl_BootCode unit =
     ([0x444c, 0x15c6, 0x400, 0x15c0, of_nat unit, 0x1003, 0xc3, 0x15c1, 0xf900, 0x15f1, 0xb, 4, 0x55c3, 4, 0x10c9, 0x8bc9, 0x80fe,
       0x8a03, 0x55c3, 8, 0x10c9, 0x8bc9, 0x80fe, 0x1c42, 6, 0x45c2, 0x3f, 0xa82, 0x10b1, 4, 0x8a03, 0x55c3, 6, 0x10c9, 0x8bc9,
       0x80fe, 0xa31, 2, 0xa31, 4, 0x15f1, 0xfe00, 6, 0x8a03, 0x55c3, 0xc, 0x10c9, 0x8bc9, 0x80fe, 0x45c9, 0xff, 0xa02, 0xa03,
       0x15c4, 0x410, 0xa05, 0xa07], 0x400, 0x402)"

section \<open>CRC of a sector header\<close>

definition rl_crc_bit :: "u32 \<times> u32 \<Rightarrow> u32 \<times> u32" where
  "rl_crc_bit cd =
     (case cd of (crc0, d) \<Rightarrow>
        let crc = (crc0 AND NOT 1) OR ((crc0 AND 1) XOR (d AND 1))
        in (if crc AND 1 \<noteq> 0 then drop_bit 1 crc XOR 0xa001 else drop_bit 1 crc, drop_bit 1 d))"

definition crc_word :: "u16 \<Rightarrow> u32 \<Rightarrow> u32" where
  "crc_word w crc = fst ((rl_crc_bit ^^ 16) (crc, ucast w))"

definition CalcCrc :: "u16 list \<Rightarrow> u16" where
  "CalcCrc ws = ucast (fold crc_word ws 0)"

section \<open>Callbacks\<close>

definition rl_RdmaPreExecCB :: "cpu \<Rightarrow> rdma_status \<Rightarrow> nat \<Rightarrow> nat \<Rightarrow> clist \<Rightarrow> rl11 \<times> 'w \<Rightarrow> (clist \<times> rl11 \<times> 'w) result" where
  "rl_RdmaPreExecCB p stat nwdone nwnext l cw =
     (if stat = kStatusBusyLast \<and> rl_fRd_fu (fst cw) \<noteq> rl_kFUNC_WCHK
      then ebind (cl_AddLabo l) (\<lambda>(i, l1). ebind (add_wibrs p (rl_AddNormalExit (fst cw) (nwdone + nwnext) 0) l1) (\<lambda>l2. Inr (l2, cw)))
      else Inr (l, cw))"

definition rl_dunits :: "'w link \<Rightarrow> cpu \<Rightarrow> (rl11 \<times> 'w, url11) dunits" where
  "rl_dunits k p =
     \<lparr>du_get = (\<lambda>i (c, w). rl_unit i c), du_put = (\<lambda>i u (c, w). (rl_put i u c, w)), du_UnitSetup = rl_UnitSetup k p\<rparr>"

definition rl_RdmaPostExecCB :: "'w link \<Rightarrow> cpu \<Rightarrow> rdma_status \<Rightarrow> nat \<Rightarrow> clist \<Rightarrow> nat \<Rightarrow> rdmadisk \<Rightarrow> rl11 \<times> 'w \<Rightarrow>
    (rdmadisk \<times> rl11 \<times> 'w) result" where
  "rl_RdmaPostExecCB k p stat ndone0 l ncmd r0 cw0 =
     (if stat = kStatusBusy then Inr (r0, cw0)
      else ebind (if rl_fRd_fu (fst cw0) = rl_kFUNC_WCHK then
                    ebind (WriteCheck (rl_dunits k p) ndone0 r0 cw0) (\<lambda>(nwcok, r1, cw1).
                      Inr (if nwcok \<noteq> ndone0 then (kERR_WCHK, nwcok, r1, cw1) else (0, ndone0, r1, cw1)))
                  else Inr (0, ndone0, r0, cw0)) (\<lambda>(rlerr0, ndone, r, cw).
        let rlerr = (if stat = kStatusFailRdma \<and> rlerr0 = 0 then kERR_NXM else rlerr0)
        in ebind (if cl_Size l > ncmd then
                    ebind (cl_at ncmd l) (\<lambda>cmd.
                      if Command cmd \<noteq> kCmdLabo \<or> rlerr \<noteq> 0 \<and> cmd_fData cmd = 0
                      then Inl (Rexception ''Rw11CntlRL11::RdmaPostExecCB'' ''Bad state: Labo not found or missed abort'')
                      else Inr (cmd_fData cmd = 0))
                  else Inr False) (\<lambda>fused.
             if fused then Inr (r, cw)
             else ebind (exec_wibrs k p (rl_AddNormalExit (fst cw) ndone rlerr) (snd cw)) (\<lambda>w'. Inr (r, (fst cw, w'))))))"

definition rl_cbs :: "'w link \<Rightarrow> cpu \<Rightarrow> (disk_cbs_ext, rl11 \<times> 'w) rdma_cbs" where
  "rl_cbs k p =
     \<lparr>rc_PreExecCB = rl_RdmaPreExecCB p, rc_PostExecCB = rl_RdmaPostExecCB k p,
      rc_PreRdmaHook = PreRdmaHook (rl_dunits k p), rc_PostRdmaHook = PostRdmaHook (rl_dunits k p)\<rparr>"

definition rl_RdmaHandler :: "'w link \<Rightarrow> cpu \<Rightarrow> rdmadisk \<Rightarrow> rl11 \<times> 'w \<Rightarrow> (int \<times> rdmadisk \<times> rl11 \<times> 'w) result" where
  "rl_RdmaHandler k p = RdmaHandler (link_snd k) (rl_cbs k p) p"

section \<open>Attention handler\<close>

record rl_req =
  lq_rlcs :: u16
  lq_rlda :: u16
  lq_wc :: u16
  lq_sta :: u16
  lq_pos :: u16
  lq_ds :: nat
  lq_fu :: u16
  lq_addr :: u32
  lq_sa :: u16
  lq_hs :: u16
  lq_ca :: u16
  lq_nwrd :: u32

definition rl_decode :: "u16 \<Rightarrow> u16 \<Rightarrow> u16 \<Rightarrow> u16 \<Rightarrow> u16 \<Rightarrow> u16 \<Rightarrow> rl_req" where
  "rl_decode rlcs rlba rlda wc sta pos =
     \<lparr>lq_rlcs = rlcs, lq_rlda = rlda, lq_wc = wc, lq_sta = sta, lq_pos = pos, lq_ds = rl_ds rlcs,
      lq_fu = drop_bit kRLCS_V_FUNC rlcs AND kRLCS_B_FUNC,
      lq_addr = push_bit 16 (ucast (drop_bit kRLCS_V_BAE rlcs AND kRLCS_B_BAE)) OR ucast rlba,
      lq_sa = rlda AND kRLDA_RW_B_SA, lq_hs = drop_bit kRLDA_RW_V_HS rlda AND kRLDA_RW_B_HS,
      lq_ca = drop_bit kRLDA_RW_V_CA rlda AND kRLDA_RW_B_CA, lq_nwrd = (NOT (ucast wc) AND 0xffff) + 1\<rparr>"

text \<open>A transfer ends with its track.\<close>

definition rl_ovr :: "rl_req \<Rightarrow> url11 \<Rightarrow> bool" where
  "rl_ovr q u =
     (lq_fu q \<in> {rl_kFUNC_WRITE, rl_kFUNC_WCHK, rl_kFUNC_READ, rl_kFUNC_RNHC} \<and>
      unat (ucast (lq_sa q) + Nwrd2Nblk (lq_nwrd q) u) > ud_fNSect u)"

definition rl_nwrd :: "rl_req \<Rightarrow> url11 \<Rightarrow> u32" where
  "rl_nwrd q u =
     (if rl_ovr q u then of_int ((int (ud_fNSect u) - uint (lq_sa q)) * int (ud_fBlksize u div 2)) else lq_nwrd q)"

definition rl_rhdr_regs :: "rl11 \<Rightarrow> rl_req \<Rightarrow> url11 \<Rightarrow> (u16 \<times> u16) list" where
  "rl_rhdr_regs c q u =
     (let base = cc_fBase c; pos = lq_pos q; crc = CalcCrc [pos, 0];
          san0 = (pos AND kRLDA_RW_B_SA) + 1;
          san = (if unat san0 \<ge> ud_fNSect u then 0 else san0);
          posn = (pos AND (kRLDA_RW_M_CA OR kRLDA_RW_M_HS)) + san;
          cs = kRLCS_M_CRDY OR (lq_rlcs q AND kRLCS_M_BAE) OR push_bit kRLCS_V_FUNC kRFUNC_WCS
      in [(base + kRLCS, push_bit kRLCS_V_MPREM kMPREM_CRC OR push_bit kRLCS_V_MPLOC kMPLOC_POS OR kRLCS_ENA_MPREM OR kRLCS_ENA_MPLOC OR
             push_bit kRLCS_V_FUNC kRFUNC_WMP), (base + kRLMP, crc)] @
         rl_AddSetPosition base (lq_ds q) posn @ [(base + kRLCS, cs)])"

text \<open>Sector, cylinder and head: reading without header check ignores the position of the drive.\<close>

definition rl_poserr :: "rl_req \<Rightarrow> url11 \<Rightarrow> bool" where
  "rl_poserr q u =
     (unat (lq_sa q) \<ge> ud_fNSect u \<or>
      lq_fu q \<noteq> rl_kFUNC_RNHC \<and> lq_pos q AND (kRLDA_RW_M_CA OR kRLDA_RW_M_HS) \<noteq> lq_rlda q AND (kRLDA_RW_M_CA OR kRLDA_RW_M_HS))"

definition rl_func :: "'w link \<Rightarrow> hid \<Rightarrow> cpu \<Rightarrow> rl_req \<Rightarrow> u32 \<Rightarrow> u32 \<Rightarrow> rdmadisk \<Rightarrow> rl11 \<times> 'w \<Rightarrow>
    (rdmadisk \<times> rl11 \<times> 'w) result" where
  "rl_func k h p q lba nwrd r cw =
     (case cw of (c, w) \<Rightarrow>
        let ds = lq_ds q; u = rl_unit ds c; fu = lq_fu q;
            queue = (\<lambda>c1 f. f (link_snd k) h (rl_dunits k p) (lq_addr q) (unat nwrd) kCPAH_M_UBM22 lba ds r (c1, w))
        in if fu = rl_kFUNC_WRITE then
             (let c1 = rl_inc rlStatNFuncWrite c
              in if ud_fWProt u then
                   ebind (exec_wibrs k p (rl_AddSetStatus (cc_fBase c1) ds (lq_sta q OR kSTA_M_WGE) @ rl_AddErrorExit c1 kERR_M_DE) w)
                     (\<lambda>w'. Inr (r, (c1, w')))
                 else queue c1 QueueDiskWrite)
           else if fu = rl_kFUNC_WCHK then queue (rl_inc rlStatNFuncWchk c) QueueDiskWriteCheck
           else if fu = rl_kFUNC_READ \<or> fu = rl_kFUNC_RNHC then
             queue (rl_inc (if fu = rl_kFUNC_READ then rlStatNFuncRead else rlStatNFuncRnhc) c) QueueDiskRead
           else Inr (r, (c, w)))"

text \<open>What the handler does once the registers are read.\<close>

definition rl_handle :: "'w link \<Rightarrow> hid \<Rightarrow> cpu \<Rightarrow> rl_req \<Rightarrow> rdmadisk \<Rightarrow> rl11 \<times> 'w \<Rightarrow> (rdmadisk \<times> rl11 \<times> 'w) result" where
  "rl_handle k h p q r cw =
     (case cw of (c, w) \<Rightarrow>
        if lq_ds q > rl_NUnit then Inl (Rexception ''Rw11CntlRL11::AttnHandler'' ''Bad state: ds > NUnit()'')
        else
          let u = rl_unit (lq_ds q) c; lba = Chs2Lba (lq_ca q) (lq_hs q) (lq_sa q) u; ovr = rl_ovr q u; nwrd = rl_nwrd q u
          in if lq_rlcs q AND kRLCS_M_CRDY \<noteq> 0 \<or> rd_IsActive r then Inr (r, (c, w))
             else
               let c1 = c\<lparr>rl_fRd_rlcs := lq_rlcs q, rl_fRd_rlda := lq_rlda q, rl_fRd_rlmp := lq_wc q, rl_fRd_sta := lq_sta q, rl_fRd_pos := lq_pos q,
                          rl_fRd_addr := lq_addr q, rl_fRd_lba := lba, rl_fRd_nwrd := nwrd, rl_fRd_ovr := ovr, rl_fRd_fu := lq_fu q\<rparr>;
                   exec = (\<lambda>c2 xs. ebind (exec_wibrs k p xs w) (\<lambda>w'. Inr (r, (c2, w'))))
               in if ud_fupVirt u = None then exec c1 (rl_AddErrorExit c1 kERR_OPI)
                  else if lq_fu q = rl_kFUNC_RHDR then
                    (let c2 = rl_inc rlStatNFuncRhdr c1 in exec c2 (rl_rhdr_regs c2 q u))
                  else if rl_poserr q u then exec c1 (rl_AddErrorExit c1 kERR_HNFND)
                  else rl_func k h p q lba nwrd r (c1, w))"

definition rl_AttnHandler :: "'w link \<Rightarrow> hid \<Rightarrow> cpu \<Rightarrow> attn_args \<Rightarrow> rdmadisk \<Rightarrow> rl11 \<times> 'w \<Rightarrow>
    (attn_args \<times> rdmadisk \<times> rl11 \<times> 'w) result" where
  "rl_AttnHandler k h p args r cw0 =
     (case cw0 of (c0, w0) \<Rightarrow>
        let c1 = rl_inc rlStatNAttnHdl c0
        in ebind (srv_GetAttnInfo k args (rl_fPrimClist c1) w0) (\<lambda>(args', l, w).
           let c = c1\<lparr>rl_fPrimClist := l\<rparr>
           in ebind (cmd_data (rl_fPC_rlcs c) l) (\<lambda>rlcs. ebind (cmd_data (rl_fPC_rlba c) l) (\<lambda>rlba.
              ebind (cmd_data (rl_fPC_rlda c) l) (\<lambda>rlda. ebind (cmd_data (rl_fPC_wc c) l) (\<lambda>wc.
              ebind (cmd_data (rl_fPC_sta c) l) (\<lambda>sta. ebind (cmd_data (rl_fPC_pos c) l) (\<lambda>pos.
                ebind (rl_handle k h p (rl_decode rlcs rlba rlda wc sta pos) r (c, w)) (\<lambda>(r1, cw1). Inr (args', r1, cw1))))))))))"

end
