(* ===== verification/Rw11RL11Rep.thy ===== *)
theory Rw11RL11Rep
  imports Rw11CntlRep Rw11CntlRL11
begin

text \<open>
  The RL11: \<open>rld\<close> interprets the contract of a disk controller on its callbacks; \<open>rl11_read\<close> and \<open>rl11_write\<close> follow a request
  from the register values to the last register write. A transfer never leaves its track.
\<close>

section \<open>The RL11 as a client of the DMA\<close>

definition rl_regs :: "u16 list" where
  "rl_regs = [kRLCS, kRLBA, kRLDA, kRLMP]"

definition rl_inv :: "cpu \<Rightarrow> rl11 \<Rightarrow> bool" where
  "rl_inv p c = list_all (\<lambda>off. dev_reg p (cc_fBase c + off)) rl_regs"

definition rl_ext :: "cpu \<Rightarrow> nat \<Rightarrow> rl11 \<Rightarrow> (u16 \<times> u16) list option" where
  "rl_ext p n c = (if rl_fRd_fu c = rl_kFUNC_WCHK then None else Some (remote p (rl_AddNormalExit c n 0)))"

lemma rl_exit_dev:
  assumes "rl_inv p c"
  shows "list_all (\<lambda>(a, w). dev_reg p a) (rl_AddNormalExit c n e)"
  using assms by (auto simp: rl_AddNormalExit_def rl_AddSetPosition_def rl_inv_def rl_regs_def Let_def)

lemma rl_unit_put: "rl_unit j (rl_put i u c) = (if j = i \<and> i < length (rl_fspUnit c) then u else rl_unit j c)"
  by (auto simp: rl_unit_def rl_put_def list_update_beyond not_less)

lemma same_unit_sect: "same_unit u u' \<Longrightarrow> ud_fNSect u' = ud_fNSect u"
  by (subst same_unit_def [THEN iffD1], assumption) simp

lemma rl_exit_put:
  assumes "same_unit (rl_unit i c) u"
  shows "rl_AddNormalExit (rl_put i u c) n e = rl_AddNormalExit c n e"
proof -
  let ?j = "rl_ds (rl_fRd_rlcs c)"
  have s: "same_unit (rl_unit ?j c) (rl_unit ?j (rl_put i u c))"
    using assms by (auto simp: rl_unit_put same_unit_def)
  note g = same_unit_geom(1) [OF s] same_unit_sect [OF s]
  show ?thesis
    unfolding rl_AddNormalExit_def by (simp add: Let_def rl_put_def g [unfolded rl_put_def])
qed

interpretation rld: disk_dma p "rl_inv p" "rl_ext p" "rl_cbs (cp_link (cp_fBase p) bm b) p" "rl_dunits (cp_link (cp_fBase p) bm b) p"
  rl_unit rl_put for p bm b
proof (unfold_locales, goal_cases)
  case (1 c nd nx l d)
  then show ?case
    by (simp add: rl_cbs_def rl_RdmaPreExecCB_def)
next
  case (2 c nd nx l d)
  then show ?case
    using add_wibrs_ok [OF rl_exit_dev [OF 2, of "nd + nx" 0]]
    by (simp add: rl_cbs_def rl_RdmaPreExecCB_def rl_ext_def ext_cmds_def cl_AddLabo_eq)
next
  case (3 c n)
  then show ?case
    using remote_ext [OF rl_exit_dev [OF 3, of n 0]] by (auto simp: rl_ext_def ext_ok_def ext_log_def)
next
  case (4 c nd l n r d)
  then show ?case
    by (simp add: rl_cbs_def rl_RdmaPostExecCB_def)
next
  case (5 st nd l n r s r' s')
  then show ?case
    by (auto simp: rl_cbs_def rl_RdmaPostExecCB_def Let_def ebind_eq_Inr split: if_splits dest!: WriteCheck_keeps)
next
  case (6 nd r s r' s')
  then show ?case
    by (auto simp: rl_cbs_def dest!: PostRdmaHook_keeps)
next
  case (11 c i u n)
  then show ?case
    using rl_exit_put [OF 11(2), of n 0] by (simp add: rl_inv_def rl_ext_def rl_put_def)
qed (simp_all add: rl_cbs_def rl_dunits_def)

section \<open>Requests\<close>

definition rl_geom :: "'a udisk_scheme \<Rightarrow> bool" where
  "rl_geom u = (ud_fNHead u = 2 \<and> ud_fNSect u = 40 \<and> ud_fBlksize u = 256)"

definition rl_lba :: "rl_req \<Rightarrow> url11 \<Rightarrow> u32" where
  "rl_lba q u = Chs2Lba (lq_ca q) (lq_hs q) (lq_sa q) u"

text \<open>The words up to the end of the track.\<close>

definition rl_room :: "rl_req \<Rightarrow> nat" where
  "rl_room q = (40 - unat (lq_sa q)) * 128"

lemma rl_wc_range: "lq_nwrd q = (NOT (ucast (lq_wc q)) AND 0xffff) + 1 \<Longrightarrow> 0 < unat (lq_nwrd q) \<and> unat (lq_nwrd q) \<le> 2 ^ 16"
  using unsigned_less [of "lq_wc q"] neg_count [of "lq_wc q"] by simp

text \<open>A transfer is cut at the end of the track.\<close>

lemma rl_track:
  assumes "rl_geom u" and "unat (lq_sa q) < 40" and "unat (lq_nwrd q) \<le> 2 ^ 16"
    and "lq_fu q \<in> {rl_kFUNC_WRITE, rl_kFUNC_WCHK, rl_kFUNC_READ, rl_kFUNC_RNHC}"
  shows "rl_ovr q u \<longleftrightarrow> unat (lq_nwrd q) > rl_room q" "unat (rl_nwrd q u) = min (unat (lq_nwrd q)) (rl_room q)"
proof -
  have nb: "Nwrd2Nblk (lq_nwrd q) u = of_nat (nblk_of 128 (unat (lq_nwrd q)))"
    using Nwrd2Nblk_eq [of u 128 "lq_nwrd q"] assms(1,3) by (simp add: rl_geom_def)
  have "nblk_of 128 (unat (lq_nwrd q)) \<le> 512"
    using assms(3) by (simp add: nblk_le_iff)
  then have "unat (ucast (lq_sa q) + of_nat (nblk_of 128 (unat (lq_nwrd q))) :: u32) = unat (lq_sa q) + nblk_of 128 (unat (lq_nwrd q))"
    using assms(2) by (simp add: unat_word_ariths unat_of_nat take_bit_nat_eq_self unat_ucast32)
  moreover have "unat (lq_sa q) + nblk_of 128 (unat (lq_nwrd q)) \<le> 40 \<longleftrightarrow> nblk_of 128 (unat (lq_nwrd q)) \<le> 40 - unat (lq_sa q)"
    using assms(2) by auto
  ultimately show o: "rl_ovr q u \<longleftrightarrow> unat (lq_nwrd q) > rl_room q"
    using assms(1) by (simp add: rl_ovr_def nb rl_geom_def rl_room_def nblk_le_iff not_le [symmetric] assms(4) del: insert_iff)
  have "(int 40 - uint (lq_sa q)) * int (256 div 2) = int (rl_room q)"
    using assms(2) by (simp add: rl_room_def of_nat_diff)
  moreover have "rl_room q < 2 ^ 32"
    by (simp add: rl_room_def)
  ultimately show "unat (rl_nwrd q u) = min (unat (lq_nwrd q)) (rl_room q)"
    using o assms(1) by (simp add: rl_nwrd_def rl_geom_def unat_of_nat take_bit_nat_eq_self)
qed

lemma rl_hs_range: "q = rl_decode rlcs rlba rlda wc sta pos \<Longrightarrow> unat (lq_hs q) < 2" "q = rl_decode rlcs rlba rlda wc sta pos \<Longrightarrow> unat (lq_ca q) < 512"
proof -
  have a: "unat (x AND y) \<le> unat y" for x y :: u16
    using word_and_le1 [of x y] word_and_le2 [of x y] by (simp add: word_le_nat_alt)
  have "unat (x AND 1) < 2" "unat (x AND 0x1ff) < 512" for x :: u16
    using a [of x 1] a [of x "0x1ff"] by simp_all
  then show "q = rl_decode rlcs rlba rlda wc sta pos \<Longrightarrow> unat (lq_hs q) < 2" "q = rl_decode rlcs rlba rlda wc sta pos \<Longrightarrow> unat (lq_ca q) < 512"
    by (simp_all add: rl_decode_def kRLDA_RW_B_HS_def kRLDA_RW_B_CA_def)
qed

text \<open>The sectors of a transfer on the disk.\<close>

lemma rl_sectors:
  assumes q: "q = rl_decode rlcs rlba rlda wc sta pos" and "rl_geom u" and sa: "unat (lq_sa q) < 40" and n: "n \<le> rl_room q" and k: "k = nblk_of 128 n"
    and l: "l = unat (rl_lba q u)" and t: "t = unat (lq_hs q) + 2 * unat (lq_ca q)"
  shows "l = unat (lq_sa q) + 40 * t" "unat (lq_sa q) + k \<le> 40" "j < k \<Longrightarrow> (l + j) div 40 = l div 40"
proof -
  have "unat (lq_sa q) + 40 * t < 2 ^ 32"
    using rl_hs_range [OF q] sa by (simp add: t)
  then show le: "l = unat (lq_sa q) + 40 * t"
    using assms(2) Chs2Lba_unat [of "lq_sa q" u "lq_hs q" "lq_ca q"] by (simp add: l rl_lba_def rl_geom_def t)
  show k40: "unat (lq_sa q) + k \<le> 40"
    using n sa nblk_le_iff [of 128 n "40 - unat (lq_sa q)"] by (simp add: k rl_room_def)
  have d: "(x + 40 * t) div 40 = t" if "x < 40" for x
    using that by simp
  have "l + j = (unat (lq_sa q) + j) + 40 * t"
    by (simp add: le)
  then show "j < k \<Longrightarrow> (l + j) div 40 = l div 40"
    using d [of "unat (lq_sa q) + j"] d [of "unat (lq_sa q)"] k40 sa by (simp add: le)
qed

section \<open>Fields of the registers\<close>

lemma low_field:
  fixes x y :: u16
  assumes "unat (x AND 0x3f) + unat y < 64"
  shows "unat ((x + y) AND 0x3f) = unat (x AND 0x3f) + unat y" "drop_bit 6 (x + y) = drop_bit 6 x"
proof -
  have m: "z AND 0x3f = take_bit 6 z" for z :: u16
    by (simp add: take_bit_eq_mask mask_eq_exp_minus_1)
  have u: "unat (z AND 0x3f) = unat z mod 64" for z :: u16
    unfolding m unsigned_take_bit_eq by (simp add: take_bit_eq_mod)
  have h: "unat x = 64 * (unat x div 64) + unat (x AND 0x3f)"
    unfolding u by simp
  have l: "unat x div 64 < 1024"
    using unsigned_less [of x, where 'a = nat] by simp
  have s: "unat (x + y) = 64 * (unat x div 64) + (unat (x AND 0x3f) + unat y)"
    using h l assms by (simp add: unat_word_ariths)
  show "unat ((x + y) AND 0x3f) = unat (x AND 0x3f) + unat y"
    unfolding u [of "x + y"] s using assms by simp
  have "unat (x + y) div 64 = unat x div 64"
    unfolding s using assms by simp
  then show "drop_bit 6 (x + y) = drop_bit 6 x"
    by (intro word_unat_eq_iff [THEN iffD2]) (simp add: drop_bit_eq_div unat_div)
qed

lemma rl_cs_fields:
  fixes a :: u32 and e :: u16
  assumes "even (unat a)" and "unat e < 2 ^ 5"
    and "cs = (kRLCS_M_CRDY OR push_bit kRLCS_V_BAE (ucast (drop_bit 16 a AND 3)) OR push_bit kRLCS_V_FUNC kRFUNC_WCS) OR push_bit kRLCS_V_E e"
  shows "push_bit 16 (ucast (drop_bit kRLCS_V_BAE cs AND kRLCS_B_BAE)) OR ucast (ucast (a AND 0xfffe) :: u16) = take_bit 18 a"
    "drop_bit kRLCS_V_E cs = e" "cs AND kRLCS_M_CRDY \<noteq> 0"
proof -
  have z: "Suc 0 \<le> i" if "bit a i" for i
    using assms(1) odd_unat [of a] that by (cases i) (simp_all add: bit_0)
  note l = bit_lim [OF assms(2)]
  note b = assms(3) dev_defs bit_simps bit_masks bit_cs
  show "push_bit 16 (ucast (drop_bit kRLCS_V_BAE cs AND kRLCS_B_BAE)) OR ucast (ucast (a AND 0xfffe) :: u16) = take_bit 18 a"
    by (rule bit_word_eqI) (auto simp: b dest: z l)
  show "drop_bit kRLCS_V_E cs = e"
    by (rule bit_word_eqI) (auto simp: b dest: l)
  have "bit (cs AND kRLCS_M_CRDY) 7"
    by (simp add: b)
  then show "cs AND kRLCS_M_CRDY \<noteq> 0"
    by (metis bit_0_eq bot_apply bot_bool_def)
qed

section \<open>The registers after a transfer\<close>

text \<open>The registers of a finished transfer of \<open>n\<close> words: bus address behind the transfer, disk address with the same cylinder and head and the
  sector behind the transfer, word count advanced, the drive positioned behind the last sector or at the begin of the track, and the
  error code \<open>kERR_HNFND\<close> if the request did not end within its track.\<close>

definition rl_done :: "u16 \<Rightarrow> rl_req \<Rightarrow> nat \<Rightarrow> url11 \<Rightarrow> (u16 \<times> u16) list \<Rightarrow> bool" where
  "rl_done base q n u xs =
     (\<exists>ba da cs posn. xs =
        [(base + kRLBA, ba), (base + kRLDA, da),
         (base + kRLCS, push_bit kRLCS_V_MPREM kMPREM_MP OR push_bit kRLCS_V_MPLOC kMPLOC_MP OR kRLCS_ENA_MPREM OR kRLCS_ENA_MPLOC OR
            push_bit kRLCS_V_FUNC kRFUNC_WMP),
         (base + kRLMP, lq_wc q + of_nat n)] @ rl_AddSetPosition base (lq_ds q) posn @ [(base + kRLCS, cs)] \<and>
      (let q' = rl_decode cs ba da 0 0 posn
       in lq_addr q' = take_bit 18 (lq_addr q + of_nat (2 * n)) \<and> lq_ca q' = lq_ca q \<and> lq_hs q' = lq_hs q \<and>
          unat (lq_sa q') = unat (lq_sa q) + nblk_of 128 n \<and>
          drop_bit 6 posn = drop_bit 6 (lq_pos q) \<and> unat (posn AND kRLDA_RW_B_SA) = (unat (lq_sa q) + nblk_of 128 n) mod 40 \<and>
          cs AND kRLCS_M_CRDY \<noteq> 0 \<and> drop_bit kRLCS_V_E cs = (if rl_ovr q u then kERR_HNFND else 0)))"

definition rl_accept :: "rl_req \<Rightarrow> rl11 \<Rightarrow> rl11" where
  "rl_accept q c =
     (let u = rl_unit (lq_ds q) c
      in c\<lparr>rl_fRd_rlcs := lq_rlcs q, rl_fRd_rlda := lq_rlda q, rl_fRd_rlmp := lq_wc q, rl_fRd_sta := lq_sta q, rl_fRd_pos := lq_pos q,
           rl_fRd_addr := lq_addr q, rl_fRd_lba := rl_lba q u, rl_fRd_nwrd := rl_nwrd q u, rl_fRd_ovr := rl_ovr q u, rl_fRd_fu := lq_fu q\<rparr>)"

lemma rl_accept_simps:
  "rl_inv p (rl_accept q c) = rl_inv p c" "rl_unit i (rl_accept q c) = rl_unit i c" "rl_fRd_fu (rl_accept q c) = lq_fu q"
  "rl_inv p (rl_inc x c) = rl_inv p c" "rl_unit i (rl_inc x c) = rl_unit i c" "rl_fRd_fu (rl_inc x c) = rl_fRd_fu c"
  "cc_fBase (rl_accept q c) = cc_fBase c" "cc_fBase (rl_inc x c) = cc_fBase c" "rl_AddNormalExit (rl_inc x c) = rl_AddNormalExit c"
  "rl_fspUnit (rl_inc x c) = rl_fspUnit c" "rl_fspUnit (rl_accept q c) = rl_fspUnit c"
  by (auto simp: rl_accept_def rl_inv_def rl_inc_def rl_unit_def rl_AddNormalExit_def Let_def fun_eq_iff)

definition rl_request :: "rl_req \<Rightarrow> bool" where
  "rl_request q = (\<exists>rlcs rlba rlda wc sta pos. q = rl_decode rlcs rlba rlda wc sta pos)"

lemma rl_exit_done:
  assumes "rl_geom (rl_unit (lq_ds q) c)" and "rl_request q" and "unat (lq_sa q) + nblk_of 128 n \<le> 40" and "n \<le> 2 ^ 16" and "even (unat (lq_addr q))"
  shows "rl_done (cc_fBase c) q n (rl_unit (lq_ds q) c) (rl_AddNormalExit (rl_accept q c) n 0)"
proof -
  let ?u = "rl_unit (lq_ds q) c"
  let ?a = "lq_addr q + of_nat (2 * n)"
  let ?e = "if rl_ovr q ?u then kERR_HNFND else 0"
  let ?nb = "of_nat (nblk_of 128 n) :: u16"
  obtain rlcs rlba rlda wc sta pos where q: "q = rl_decode rlcs rlba rlda wc sta pos"
    using assms(2) by (auto simp: rl_request_def)
  have sa: "lq_sa q = rlda AND 0x3f" and ds: "lq_ds q = rl_ds rlcs" and da: "lq_rlda q = rlda" and ps: "lq_pos q = pos"
    by (simp_all add: q rl_decode_def dev_defs)
  have "unat (of_nat n :: u32) = n"
    using assms(4) by (simp add: unat_of_nat take_bit_nat_eq_self)
  then have nb: "ucast (Nwrd2Nblk (of_nat n) ?u) = ?nb"
    using Nwrd2Nblk_eq [of ?u 128 "of_nat n"] assms(1,3,4) by (simp add: rl_geom_def unsigned_of_nat take_bit_nat_eq_self)
  have unb: "unat ?nb = nblk_of 128 n"
    using assms(3) by (simp add: unat_of_nat16)
  define cs where "cs = (kRLCS_M_CRDY OR push_bit kRLCS_V_BAE (ucast (drop_bit 16 ?a AND 3)) OR push_bit kRLCS_V_FUNC kRFUNC_WCS) OR push_bit kRLCS_V_E ?e"
  define sn where "sn = (if 40 \<le> unat ((rlda AND 0x3f) + ?nb) then 0 else (rlda AND 0x3f) + ?nb)"
  define posn where "posn = (pos AND 0xffc0) + sn"
  have s0: "unat ((rlda AND 0x3f) + ?nb) = unat (lq_sa q) + nblk_of 128 n"
    using assms(3) by (simp add: sa unat_word_ariths unb)
  have sn: "unat sn = (unat (lq_sa q) + nblk_of 128 n) mod 40"
    using assms(3) unfolding sn_def s0 by (auto simp: s0)
  have regs: "rl_AddNormalExit (rl_accept q c) n 0 =
      [(cc_fBase c + kRLBA, ucast (?a AND 0xfffe)), (cc_fBase c + kRLDA, rlda + ?nb),
         (cc_fBase c + kRLCS, push_bit kRLCS_V_MPREM kMPREM_MP OR push_bit kRLCS_V_MPLOC kMPLOC_MP OR kRLCS_ENA_MPREM OR kRLCS_ENA_MPLOC OR
            push_bit kRLCS_V_FUNC kRFUNC_WMP),
         (cc_fBase c + kRLMP, lq_wc q + of_nat n)] @ rl_AddSetPosition (cc_fBase c) (lq_ds q) posn @ [(cc_fBase c + kRLCS, cs)]"
  proof -
    have m: "kRLDA_RW_M_CA OR kRLDA_RW_M_HS = 0xffc0" "kRLDA_RW_B_SA = 0x3f"
      by (simp_all add: dev_defs)
    have g: "ud_fNSect ?u = 40"
      using assms(1) by (simp add: rl_geom_def)
    have u: "rl_unit (rl_ds rlcs) (rl_accept q c) = ?u"
      by (simp add: rl_accept_simps ds)
    have c: "rl_fRd_rlcs (rl_accept q c) = rlcs" "rl_fRd_rlda (rl_accept q c) = rlda" "rl_fRd_rlmp (rl_accept q c) = lq_wc q" "rl_fRd_pos (rl_accept q c) = pos"
      "rl_fRd_addr (rl_accept q c) = lq_addr q" "rl_fRd_ovr (rl_accept q c) = rl_ovr q ?u"
      by (simp_all add: rl_accept_def Let_def da ps) (simp add: q rl_decode_def)
    show ?thesis
      unfolding rl_AddNormalExit_def Let_def c u g nb m rl_accept_simps ds [symmetric] cs_def posn_def sn_def by (simp add: dev_defs)
  qed
  have ev: "even (unat ?a)"
  proof -
    have "odd ?a = odd (lq_addr q)"
      by simp
    then show ?thesis
      using assms(5) odd_unat [of ?a] odd_unat [of "lq_addr q"] by simp
  qed
  have "unat ?e < 2 ^ 5"
    by (simp add: dev_defs)
  note f = rl_cs_fields [OF ev this cs_def]
  have lo: "unat (rlda AND 0x3f) + unat ?nb < 64"
    using assms(3) by (simp add: sa unb)
  note d = low_field [OF lo]
  have pz: "(pos AND 0xffc0) AND 0x3f = 0"
    by (rule bit_word_eqI) (auto simp: bit_simps bit_cs)
  then have p0: "unat ((pos AND 0xffc0) AND 0x3f) + unat sn < 64"
    using sn mod_less_divisor [of 40 "unat (lq_sa q) + nblk_of 128 n"] by simp
  note pn = low_field [OF p0]
  have hp: "drop_bit 6 (pos AND 0xffc0) = drop_bit 6 pos"
    by (rule bit_word_eqI) (auto simp: bit_simps bit_cs dest: bit_imp_le_length)
  have d7: "drop_bit 7 (rlda + ?nb) = drop_bit 7 rlda"
    using arg_cong [OF d(2), of "drop_bit 1"] by (simp add: drop_bit_drop_bit)
  show ?thesis
    unfolding rl_done_def Let_def
    by (intro exI [of _ "ucast (?a AND 0xfffe)"] exI [of _ "rlda + ?nb"] exI [of _ cs] exI [of _ posn] conjI regs)
      (use f d pn pz hp d7 sn in \<open>simp_all add: rl_decode_def q dev_defs unb posn_def\<close>)
qed

section \<open>Disk read and disk write\<close>

text \<open>A started and idle controller, a request that it accepts, memory that exists for the words up to the end of the track.\<close>

definition rl_setup :: "u16 \<Rightarrow> cpu \<Rightarrow> nat \<Rightarrow> nat \<Rightarrow> rl_req \<Rightarrow> rdmadisk \<Rightarrow> rl11 \<Rightarrow> cpport \<Rightarrow> bool" where
  "rl_setup fu p bm b q r c d =
     (let u = rl_unit (lq_ds q) c
      in rl_request q \<and> lq_fu q = fu \<and> lq_rlcs q AND kRLCS_M_CRDY = 0 \<and> \<not> rl_poserr q u \<and> rl_inv p c \<and> length (rl_fspUnit c) = rl_NUnit \<and>
         \<not> rd_IsActive r \<and> chunk_cfg bm b r \<and> rl_geom u \<and> disk_ready 256 u \<and> in22 (lq_addr q) (min (unat (lq_nwrd q)) (rl_room q)) d \<and> word_mode d)"

lemma rl_lba_lim:
  assumes "rl_geom u" and "nblk_of 128 n \<le> 40"
  shows "unat (rl_lba q u) + nblk_of 128 n \<le> 2 ^ 32"
proof -
  have f: "unat (lq_sa q) < 2 ^ 16" "unat (lq_hs q) < 2 ^ 16" "unat (lq_ca q) < 2 ^ 16"
    using unsigned_less [of "lq_sa q"] unsigned_less [of "lq_hs q"] unsigned_less [of "lq_ca q"] by simp_all
  then have "unat (rl_lba q u) < 2 ^ 31"
    using assms(1) Chs2Lba_unat [of "lq_sa q" u "lq_hs q" "lq_ca q"] by (simp add: rl_geom_def rl_lba_def)
  then show ?thesis
    using assms(2) by simp
qed

lemma rl_ds_le: "rl_ds x < rl_NUnit"
proof -
  have "unat (drop_bit kRLCS_V_DS x AND kRLCS_B_DS) \<le> unat kRLCS_B_DS"
    using word_and_le1 [of "drop_bit kRLCS_V_DS x" kRLCS_B_DS] word_and_le2 [of "drop_bit kRLCS_V_DS x" kRLCS_B_DS]
    by (simp add: word_le_nat_alt)
  then show ?thesis
    by (simp add: rl_ds_def dev_defs rl_NUnit_def)
qed

lemma rl_post_fused:
  assumes "rl_fRd_fu c \<noteq> rl_kFUNC_WCHK" and "labo_seen (rl_ext p n c) 3 l"
  shows "rc_PostExecCB (rl_cbs k p) kStatusDone n l 3 r (c, d) = Inr (r, (c, d))"
  using assms by (auto simp: rl_cbs_def rl_RdmaPostExecCB_def rl_ext_def labo_seen_def Let_def)

lemma rl_queued:
  assumes st: "rl_setup fu p bm b q r c d" and fu: "fu \<in> {rl_kFUNC_READ, rl_kFUNC_RNHC} \<or> fu = rl_kFUNC_WRITE \<and> \<not> ud_fWProt (rl_unit (lq_ds q) c)"
    and i: "i = lq_ds q" and n: "n = min (unat (lq_nwrd q)) (rl_room q)"
  shows "\<exists>r1 c1. rl_handle (cp_link (cp_fBase p) bm b) h p q r (c, d) = Inr (r1, c1, d) \<and>
    dma_set (fu \<noteq> rl_kFUNC_WRITE) (lq_addr q) n kCPAH_M_UBM22 (unat (rl_lba q (rl_unit i c))) i (if fu = rl_kFUNC_WRITE then kFuncWrite else kFuncRead) 256 r1 \<and>
    chunk_ok bm r1 \<and> rl_inv p c1 \<and> rl_fspUnit c1 = rl_fspUnit c \<and> rl_fRd_fu c1 = fu \<and> 0 < n \<and> nblk_of 128 n \<le> 40 \<and>
    rl_done (cc_fBase c) q n (rl_unit i c) (rl_AddNormalExit c1 n 0)"
proof -
  let ?k = "cp_link (cp_fBase p) bm b"
  let ?u = "rl_unit i c"
  let ?lba = "rl_lba q ?u"
  have g: "rl_request q" "lq_fu q = fu" "lq_rlcs q AND kRLCS_M_CRDY = 0" "\<not> rl_poserr q ?u" "rl_inv p c" "\<not> rd_IsActive r" "chunk_cfg bm b r" "rl_geom ?u"
    "ud_fupVirt ?u \<noteq> None" "even (unat (lq_addr q))"
    using st by (auto simp: rl_setup_def Let_def i disk_ready_def in22_def)
  have ne: "rl_kFUNC_READ \<noteq> rl_kFUNC_WRITE" "rl_kFUNC_RNHC \<noteq> rl_kFUNC_WRITE" "rl_kFUNC_READ \<noteq> rl_kFUNC_WCHK" "rl_kFUNC_RNHC \<noteq> rl_kFUNC_WCHK"
    "rl_kFUNC_READ \<noteq> rl_kFUNC_RHDR" "rl_kFUNC_RNHC \<noteq> rl_kFUNC_RHDR" "rl_kFUNC_WRITE \<noteq> rl_kFUNC_RHDR"
    by (simp_all add: dev_defs)
  have rq: "lq_nwrd q = (NOT (ucast (lq_wc q)) AND 0xffff) + 1" "lq_ds q < rl_NUnit"
    using g(1) rl_ds_le by (auto simp: rl_request_def rl_decode_def)
  note wc = rl_wc_range [OF rq(1)]
  have sa: "unat (lq_sa q) < 40"
    using g(4,8) by (simp add: rl_poserr_def rl_geom_def)
  have "lq_fu q \<in> {rl_kFUNC_WRITE, rl_kFUNC_WCHK, rl_kFUNC_READ, rl_kFUNC_RNHC}"
    using fu g(2) by auto
  note tr = rl_track [OF g(8) sa conjunct2 [OF wc] this]
  have nw: "unat (rl_nwrd q ?u) = n"
    using tr(2) by (simp add: n)
  have n0: "0 < n" "n \<le> 2 ^ 16" "n \<le> (40 - unat (lq_sa q)) * 128"
    using wc sa by (auto simp: n rl_room_def)
  then have nb: "nblk_of 128 n \<le> 40 - unat (lq_sa q)"
    by (simp add: nblk_le_iff)
  let ?st = "if fu = rl_kFUNC_WRITE then rlStatNFuncWrite else if fu = rl_kFUNC_READ then rlStatNFuncRead else rlStatNFuncRnhc"
  let ?c = "rl_inc ?st (rl_accept q c)"
  have bs: "ud_fBlksize (du_get (rl_dunits ?k p) i (?c, d)) = 256"
    using g(8) by (simp add: rl_dunits_def rl_accept_simps rl_geom_def)
  have h: "rl_handle ?k h p q r (c, d) = rl_func ?k h p q ?lba (rl_nwrd q ?u) r (rl_accept q c, d)"
    using g(3,4,6,9) rq(2) fu g(2) ne by (auto simp: rl_handle_def Let_def i rl_accept_def rl_lba_def)
  have "\<exists>r1. rl_handle ?k h p q r (c, d) = Inr (r1, (?c, d)) \<and>
      dma_set (fu \<noteq> rl_kFUNC_WRITE) (lq_addr q) n kCPAH_M_UBM22 (unat ?lba) i (if fu = rl_kFUNC_WRITE then kFuncWrite else kFuncRead) 256 r1 \<and> chunk_ok bm r1"
  proof (cases "fu = rl_kFUNC_WRITE")
    case True
    then have "\<not> ud_fWProt (rl_unit (lq_ds q) c)"
      using fu ne by auto
    then show ?thesis
      using Queue_ok(2) [OF g(6,7) bs, of p h "lq_addr q" n kCPAH_M_UBM22 ?lba] True g(2)
      unfolding h by (auto simp: rl_func_def Let_def rl_accept_simps i [symmetric] nw dma_link_def)
  next
    case False
    then show ?thesis
      using Queue_ok(1) [OF g(6,7) bs, of p h "lq_addr q" n kCPAH_M_UBM22 ?lba] fu g(2) ne
      unfolding h by (auto simp: rl_func_def Let_def rl_accept_simps i [symmetric] nw dma_link_def)
  qed
  moreover have "rl_done (cc_fBase c) q n ?u (rl_AddNormalExit ?c n 0)"
    using rl_exit_done [of q c n] g(1,8,10) nb sa n0(2) by (simp add: rl_accept_simps i)
  ultimately show ?thesis
    using g(2,5) n0(1) nb by (fastforce simp: rl_accept_simps)
qed

lemma rl_cyl_eq:
  fixes x y :: u16
  assumes "x AND (kRLDA_RW_M_CA OR kRLDA_RW_M_HS) = y AND (kRLDA_RW_M_CA OR kRLDA_RW_M_HS)"
  shows "drop_bit kRLDA_RW_V_CA x AND kRLDA_RW_B_CA = drop_bit kRLDA_RW_V_CA y AND kRLDA_RW_B_CA"
proof -
  have m: "drop_bit 7 z AND 0x1ff = drop_bit 7 (z AND 0xffc0)" for z :: u16
    by (simp add: drop_bit_and)
  show ?thesis
    using assms unfolding kRLDA_RW_V_CA_def kRLDA_RW_B_CA_def m by (simp add: kRLDA_RW_M_CA_def kRLDA_RW_M_HS_def del: drop_bit_and)
qed

text \<open>What every function with data transfer queues.\<close>

lemma rl_queued_at:
  assumes q: "rl_request q" and "lq_rlcs q AND kRLCS_M_CRDY = 0" and "\<not> rd_IsActive r" and "chunk_cfg bm b r" and u: "u = rl_unit (lq_ds q) c" and "rl_geom u"
    and "ud_fupVirt u \<noteq> None" and "\<not> rl_poserr q u" and fu: "lq_fu q \<in> {rl_kFUNC_WRITE, rl_kFUNC_WCHK, rl_kFUNC_READ, rl_kFUNC_RNHC}"
    and "lq_fu q = rl_kFUNC_WRITE \<longrightarrow> \<not> ud_fWProt u"
  shows "\<exists>r1 c1 w f. rl_handle (cp_link (cp_fBase p) bm b) h p q r (c, d) = Inr (r1, c1, d) \<and>
    dma_set w (lq_addr q) (unat (rl_nwrd q u)) kCPAH_M_UBM22 (unat (rl_lba q u)) (lq_ds q) f 256 r1"
proof -
  let ?k = "cp_link (cp_fBase p) bm b"
  have ds: "lq_ds q < rl_NUnit"
    using q rl_ds_le by (auto simp: rl_request_def rl_decode_def)
  have ne: "rl_kFUNC_READ \<noteq> rl_kFUNC_WRITE" "rl_kFUNC_RNHC \<noteq> rl_kFUNC_WRITE" "rl_kFUNC_READ \<noteq> rl_kFUNC_WCHK" "rl_kFUNC_RNHC \<noteq> rl_kFUNC_WCHK" "rl_kFUNC_WCHK \<noteq> rl_kFUNC_WRITE"
    "rl_kFUNC_RHDR \<notin> {rl_kFUNC_WRITE, rl_kFUNC_WCHK, rl_kFUNC_READ, rl_kFUNC_RNHC}"
    by (simp_all add: dev_defs)
  have bs: "ud_fBlksize (du_get (rl_dunits ?k p) (lq_ds q) (rl_inc x (rl_accept q c), d)) = 256" for x
    using assms(6) by (simp add: rl_dunits_def rl_accept_simps rl_geom_def u)
  note Q = Queue_ok [OF assms(3,4) bs, of p h "lq_addr q" "unat (rl_nwrd q u)" kCPAH_M_UBM22 "rl_lba q u", unfolded dma_link_def]
  have h: "rl_handle ?k h p q r (c, d) = rl_func ?k h p q (rl_lba q u) (rl_nwrd q u) r (rl_accept q c, d)"
    using assms(2,3,7,8) ds fu ne(6) by (auto simp: rl_handle_def Let_def u rl_accept_def rl_lba_def)
  let ?Q = "\<lambda>r1 c1. rl_func ?k h p q (rl_lba q u) (rl_nwrd q u) r (rl_accept q c, d) = Inr (r1, c1, d)"
  let ?st = "if lq_fu q = rl_kFUNC_READ then rlStatNFuncRead else rlStatNFuncRnhc"
  consider (w) "lq_fu q = rl_kFUNC_WRITE" | (c) "lq_fu q = rl_kFUNC_WCHK" | (r) "lq_fu q \<in> {rl_kFUNC_READ, rl_kFUNC_RNHC}"
    using fu by blast
  then show ?thesis
    unfolding h
  proof cases
    case w
    then have "?Q r1 (rl_inc rlStatNFuncWrite (rl_accept q c)) \<longleftrightarrow> QueueDiskWrite (link_snd ?k) h (rl_dunits ?k p) (lq_addr q) (unat (rl_nwrd q u)) kCPAH_M_UBM22 (rl_lba q u) (lq_ds q) r
        (rl_inc rlStatNFuncWrite (rl_accept q c), d) = Inr (r1, rl_inc rlStatNFuncWrite (rl_accept q c), d)" for r1
      using assms(10) by (simp add: rl_func_def Let_def rl_accept_simps u)
    then show "\<exists>r1 c1 w f. ?Q r1 c1 \<and> dma_set w (lq_addr q) (unat (rl_nwrd q u)) kCPAH_M_UBM22 (unat (rl_lba q u)) (lq_ds q) f 256 r1"
      using Q(2) [of rlStatNFuncWrite] by blast
  next
    case c
    then have "?Q r1 (rl_inc rlStatNFuncWchk (rl_accept q c)) \<longleftrightarrow> QueueDiskWriteCheck (link_snd ?k) h (rl_dunits ?k p) (lq_addr q) (unat (rl_nwrd q u)) kCPAH_M_UBM22 (rl_lba q u) (lq_ds q) r
        (rl_inc rlStatNFuncWchk (rl_accept q c), d) = Inr (r1, rl_inc rlStatNFuncWchk (rl_accept q c), d)" for r1
      using ne(5) by (simp add: rl_func_def Let_def)
    then show "\<exists>r1 c1 w f. ?Q r1 c1 \<and> dma_set w (lq_addr q) (unat (rl_nwrd q u)) kCPAH_M_UBM22 (unat (rl_lba q u)) (lq_ds q) f 256 r1"
      using Q(3) [of rlStatNFuncWchk] by blast
  next
    case r
    then have "?Q r1 (rl_inc ?st (rl_accept q c)) \<longleftrightarrow> QueueDiskRead (link_snd ?k) h (rl_dunits ?k p) (lq_addr q) (unat (rl_nwrd q u)) kCPAH_M_UBM22 (rl_lba q u) (lq_ds q) r
        (rl_inc ?st (rl_accept q c), d) = Inr (r1, rl_inc ?st (rl_accept q c), d)" for r1
      using ne(1-4) by (auto simp: rl_func_def Let_def)
    then show "\<exists>r1 c1 w f. ?Q r1 c1 \<and> dma_set w (lq_addr q) (unat (rl_nwrd q u)) kCPAH_M_UBM22 (unat (rl_lba q u)) (lq_ds q) f 256 r1"
      using Q(1) [of ?st] by blast
  qed
qed

text \<open>C16: Where an RL11 transfer takes place. A request for a data transfer that passes the checks of the handler is queued with at least one word; the sectors
  that it needs all lie on the track of the first one, and it has fewer words than the word count asks for exactly when the controller flags the overrun.
  The handler does not check the cylinder: the transfer is within the disk exactly if the cylinder of the disk address exists, and otherwise starts behind its
  end. Except for a read without header check, the cylinder is the one of the drive position, so that the transfer is within the disk whenever the
  device has the heads on an existing cylinder; a read without header check of an RL01 can be queued for the cylinders 256 to 511, which do not exist.\<close>

theorem rl11_in_track:
  assumes q: "rl_request q" and st: "lq_rlcs q AND kRLCS_M_CRDY = 0" "\<not> rd_IsActive r" "chunk_cfg bm b r" and u: "u = rl_unit (lq_ds q) c"
    and geo: "rl_geom u" "ud_fNBlock u = 80 * ud_fNCyl u" and ok: "ud_fupVirt u \<noteq> None" "\<not> rl_poserr q u"
    and fu: "lq_fu q \<in> {rl_kFUNC_WRITE, rl_kFUNC_WCHK, rl_kFUNC_READ, rl_kFUNC_RNHC}" "lq_fu q = rl_kFUNC_WRITE \<longrightarrow> \<not> ud_fWProt u"
    and n: "n = unat (rl_nwrd q u)" and k: "k = nblk_of 128 n" and l: "l = unat (rl_lba q u)"
  shows "(\<exists>r1 c1. rl_handle (cp_link (cp_fBase p) bm b) h p q r (c, d) = Inr (r1, c1, d) \<and> rd_IsActive r1 \<and> rk_fpUnit r1 = lq_ds q \<and>
      rd_fNWordRest r1 = n \<and> rk_fNBlock r1 = k \<and> rk_fLba r1 = l) \<and>
    0 < n \<and> (\<forall>j < k. (l + j) div 40 = l div 40) \<and> (n < unat (lq_nwrd q) \<longleftrightarrow> rl_ovr q u) \<and>
    (if unat (lq_ca q) < ud_fNCyl u then l + k \<le> ud_fNBlock u else ud_fNBlock u \<le> l) \<and>
    (lq_fu q \<noteq> rl_kFUNC_RNHC \<longrightarrow> lq_ca q = drop_bit kRLDA_RW_V_CA (lq_pos q) AND kRLDA_RW_B_CA)"
proof -
  obtain rlcs rlba rlda wc sta pos where d: "q = rl_decode rlcs rlba rlda wc sta pos"
    using q by (auto simp: rl_request_def)
  then have "lq_nwrd q = (NOT (ucast (lq_wc q)) AND 0xffff) + 1"
    by (simp add: rl_decode_def)
  note wc = rl_wc_range [OF this]
  have sa: "unat (lq_sa q) < 40"
    using ok(2) geo(1) by (simp add: rl_poserr_def rl_geom_def)
  note tr = rl_track [OF geo(1) sa conjunct2 [OF wc] fu(1)]
  have ne: "n = min (unat (lq_nwrd q)) (rl_room q)"
    using tr(2) n by simp
  then have "n \<le> rl_room q" "0 < n"
    using wc sa by (simp_all add: rl_room_def)
  note s = rl_sectors [OF d geo(1) sa this(1) k l refl]
  have "if unat (lq_ca q) < ud_fNCyl u then l + k \<le> ud_fNBlock u else ud_fNBlock u \<le> l"
    using s(1,2) rl_hs_range(1) [OF d] geo(2) by auto
  moreover have "lq_ca q = drop_bit kRLDA_RW_V_CA (lq_pos q) AND kRLDA_RW_B_CA" if "lq_fu q \<noteq> rl_kFUNC_RNHC"
    using that ok(2) rl_cyl_eq [of "lq_pos q" "lq_rlda q"] by (simp add: rl_poserr_def d) (simp add: rl_decode_def)
  ultimately show ?thesis
    using rl_queued_at [OF q st u geo(1) ok fu, of p h d] s(3) tr(1) ne \<open>0 < n\<close>
    by (auto simp: dma_set_def rd_IsActive_def n [symmetric] k l [symmetric])
qed

lemma rl_chain_end:
  assumes "rl_fRd_fu c \<noteq> rl_kFUNC_WCHK" and "labo_seen (rl_ext p n c) 3 l" and "rl_inv p c" and "same_unit (rl_unit i c) u'"
  shows "rc_PostExecCB (rl_cbs k p) kStatusDone n l 3 r (rl_put i u' c, d) = Inr (r, (rl_put i u' c, d))"
proof -
  have "rl_ext p n (rl_put i u' c) = rl_ext p n c" "rl_fRd_fu (rl_put i u' c) = rl_fRd_fu c"
    using rld.put_inv [OF assms(3,4)] by (simp_all add: rl_put_def)
  then show ?thesis
    using rl_post_fused [of "rl_put i u' c" p n l k r d] assms(1,2) by simp
qed

text \<open>C14: A disk read of the RL11, with or without header check, works from the register values to the final register writes: the request is queued,
  the calls of the DMA handler end, and leave in memory the words of the disk from the requested sector on, as many as the word count asks for
  but none beyond the end of the track; nothing else of memory changes; the registers are left behind the transfer, with an error exactly if
  the request did not end within its track; no disk is changed and the controller is idle again.\<close>

theorem rl11_read:
  assumes "rl_setup fu p bm b q r c d" and fu: "fu \<in> {rl_kFUNC_READ, rl_kFUNC_RNHC}" and u: "u = rl_unit (lq_ds q) c"
    and n: "n = min (unat (lq_nwrd q)) (rl_room q)"
  shows "\<exists>r1 c1 r2 c2 d2 xs. rl_handle (cp_link (cp_fBase p) bm b) h p q r (c, d) = Inr (r1, c1, d) \<and>
    rdma_chain (rl_RdmaHandler (cp_link (cp_fBase p) bm b) p) r1 (c1, d) = Some (Inr (r2, c2, d2)) \<and> \<not> rd_IsActive r2 \<and>
    cb_mem d2 = wr_words (unat (lq_addr q)) (take n (pairs (disk_bytes (unit_blk u) (unat (rl_lba q u)) (nblk_of 128 n)))) (cb_mem d) \<and>
    cb_log d2 = cb_log d @ remote p xs \<and> rl_done (cc_fBase c) q n u xs \<and>
    (\<forall>j < rl_NUnit. unit_blk (rl_unit j c2) = unit_blk (rl_unit j c))"
proof -
  let ?k = "cp_link (cp_fBase p) bm b"
  let ?i = "lq_ds q"
  have g: "rl_geom u" "disk_ready 256 u" "in22 (lq_addr q) n d" "word_mode d"
    using assms(1) by (simp_all add: rl_setup_def Let_def u n)
  have ne: "fu \<noteq> rl_kFUNC_WRITE" "fu \<noteq> rl_kFUNC_WCHK"
    using fu by (auto simp: dev_defs)
  from rl_queued [OF assms(1) disjI1 [OF fu] refl n, of h] ne obtain r1 c1 where
    1: "rl_handle ?k h p q r (c, d) = Inr (r1, c1, d)"
      "dma_set True (lq_addr q) n kCPAH_M_UBM22 (unat (rl_lba q u)) ?i kFuncRead 256 r1" "chunk_ok bm r1" "rl_inv p c1" "rl_fspUnit c1 = rl_fspUnit c"
      "rl_fRd_fu c1 = fu" "0 < n" "nblk_of 128 n \<le> 40" "rl_done (cc_fBase c) q n u (rl_AddNormalExit c1 n 0)"
    by (auto simp: u)
  have uc: "rl_unit j c1 = rl_unit j c" for j
    using 1(5) by (simp add: rl_unit_def)
  have lim: "unat (rl_lba q u) + nblk_of (256 div 2) n \<le> 2 ^ 32"
    using rl_lba_lim [OF g(1) 1(8), of q] by simp
  from rld.read_chain [OF 1(2,7) lim _ 1(4,3) mode_ubm22, of d b bm b] obtain l' d' r6 u' where
    2: "rdma_chain (RdmaHandler (dma_link p bm b) (rl_cbs ?k p) p) r1 (c1, d) =
      Some (ebind (rc_PostExecCB (rl_cbs ?k p) kStatusDone n l' 3 r6 (rl_put ?i u' c1, d')) (\<lambda>(r7, s5). Inr (r7\<lparr>rd_fStatus := kStatusDone\<rparr>, s5)))"
      "labo_seen (rl_ext p n c1) 3 l'" "same_unit u u'" "unit_blk u' = unit_blk u"
      "mem_upd (wr_words (unat (lq_addr q)) (take n (pairs (disk_bytes (unit_blk u) (unat (rl_lba q u)) (nblk_of 128 n)))) (cb_mem d))
        (d\<lparr>cb_log := cb_log d @ ext_log (rl_ext p n c1)\<rparr>) d'"
    using g(2-4) by (auto simp: uc u)
  have wc: "rl_fRd_fu c1 \<noteq> rl_kFUNC_WCHK"
    using 1(6) ne by simp
  have "rc_PostExecCB (rl_cbs ?k p) kStatusDone n l' 3 r6 (rl_put ?i u' c1, d') = Inr (r6, (rl_put ?i u' c1, d'))"
    using rl_chain_end [OF wc 2(2) 1(4)] 2(3) by (simp add: uc u)
  then have "rdma_chain (rl_RdmaHandler ?k p) r1 (c1, d) = Some (Inr (r6\<lparr>rd_fStatus := kStatusDone\<rparr>, rl_put ?i u' c1, d'))"
    using 2(1) by (simp add: rl_RdmaHandler_def dma_link_def)
  moreover have "unit_blk (rl_unit j (rl_put ?i u' c1)) = unit_blk (rl_unit j c)" for j
    using 2(4) by (simp add: rl_unit_put uc u)
  moreover have "cb_log d' = cb_log d @ remote p (rl_AddNormalExit c1 n 0)"
    using 2(5) wc by (simp add: mem_upd_def rl_ext_def ext_log_def)
  ultimately show ?thesis
    using 1(1,9) 2(5)
    by (intro exI [of _ r1] exI [of _ c1] exI [of _ "r6\<lparr>rd_fStatus := kStatusDone\<rparr>"]
        exI [of _ "rl_put ?i u' c1"] exI [of _ d'] exI [of _ "rl_AddNormalExit c1 n 0"]) (simp add: rd_IsActive_def mem_upd_def)
qed

text \<open>C15: A disk write of the RL11 to a drive that is not write protected works in the same way: the words of memory, up to the end of the track,
  are on the disk, the last sector filled with 0xdead; every other sector, every other disk and memory are as before.\<close>

theorem rl11_write:
  assumes "rl_setup rl_kFUNC_WRITE p bm b q r c d" and u: "u = rl_unit (lq_ds q) c" and wp: "\<not> ud_fWProt u"
    and n: "n = min (unat (lq_nwrd q)) (rl_room q)"
  shows "\<exists>r1 c1 r2 c2 d2 xs. rl_handle (cp_link (cp_fBase p) bm b) h p q r (c, d) = Inr (r1, c1, d) \<and>
    rdma_chain (rl_RdmaHandler (cp_link (cp_fBase p) bm b) p) r1 (c1, d) = Some (Inr (r2, c2, d2)) \<and> \<not> rd_IsActive r2 \<and>
    cb_mem d2 = cb_mem d \<and> cb_log d2 = cb_log d @ remote p xs \<and> rl_done (cc_fBase c) q n u xs \<and>
    arr_eq (unit_blk (rl_unit (lq_ds q) c2)) (put_disk 256 (unat (rl_lba q u)) (rd_words (unat (lq_addr q)) n (cb_mem d)) (unit_blk u)) \<and>
    (\<forall>j < rl_NUnit. j \<noteq> lq_ds q \<longrightarrow> rl_unit j c2 = rl_unit j c)"
proof -
  let ?k = "cp_link (cp_fBase p) bm b"
  let ?i = "lq_ds q"
  have g: "rl_geom u" "disk_ready 256 u" "in22 (lq_addr q) n d" "word_mode d" "length (rl_fspUnit c) = rl_NUnit" "rl_request q"
    using assms(1) by (simp_all add: rl_setup_def Let_def u n)
  from rl_queued [OF assms(1) disjI2 refl n, of h] wp obtain r1 c1 where
    1: "rl_handle ?k h p q r (c, d) = Inr (r1, c1, d)"
      "dma_set False (lq_addr q) n kCPAH_M_UBM22 (unat (rl_lba q u)) ?i kFuncWrite 256 r1" "chunk_ok bm r1" "rl_inv p c1" "rl_fspUnit c1 = rl_fspUnit c"
      "rl_fRd_fu c1 = rl_kFUNC_WRITE" "0 < n" "nblk_of 128 n \<le> 40" "rl_done (cc_fBase c) q n u (rl_AddNormalExit c1 n 0)"
    by (auto simp: u)
  have uc: "rl_unit j c1 = rl_unit j c" for j
    using 1(5) by (simp add: rl_unit_def)
  have lim: "unat (rl_lba q u) + nblk_of (256 div 2) n \<le> 2 ^ 32"
    using rl_lba_lim [OF g(1) 1(8), of q] by simp
  from rld.write_chain [OF 1(2,7) lim _ 1(4,3) mode_ubm22, of d b bm b] obtain l' d' r6 u' where
    2: "rdma_chain (RdmaHandler (dma_link p bm b) (rl_cbs ?k p) p) r1 (c1, d) =
      Some (ebind (rc_PostExecCB (rl_cbs ?k p) kStatusDone n l' 3 r6 (rl_put ?i u' c1, d')) (\<lambda>(r7, s5). Inr (r7\<lparr>rd_fStatus := kStatusDone\<rparr>, s5)))"
      "labo_seen (rl_ext p n c1) 3 l'" "same_unit u u'"
      "arr_eq (unit_blk u') (put_disk 256 (unat (rl_lba q u)) (rd_words (unat (lq_addr q)) n (cb_mem d)) (unit_blk u))"
      "mem_upd (cb_mem d) (d\<lparr>cb_log := cb_log d @ ext_log (rl_ext p n c1)\<rparr>) d'"
    using g(2-4) by (auto simp: uc u)
  have wc: "rl_fRd_fu c1 \<noteq> rl_kFUNC_WCHK"
    using 1(6) by (simp add: dev_defs)
  have "rc_PostExecCB (rl_cbs ?k p) kStatusDone n l' 3 r6 (rl_put ?i u' c1, d') = Inr (r6, (rl_put ?i u' c1, d'))"
    using rl_chain_end [OF wc 2(2) 1(4)] 2(3) by (simp add: uc u)
  then have "rdma_chain (rl_RdmaHandler ?k p) r1 (c1, d) = Some (Inr (r6\<lparr>rd_fStatus := kStatusDone\<rparr>, rl_put ?i u' c1, d'))"
    using 2(1) by (simp add: rl_RdmaHandler_def dma_link_def)
  moreover have "rl_unit ?i (rl_put ?i u' c1) = u'"
    using g(5,6) rl_ds_le by (auto simp: rl_unit_put 1(5) rl_request_def rl_decode_def)
  moreover have "rl_unit j (rl_put ?i u' c1) = rl_unit j c" if "j \<noteq> ?i" for j
    using that by (simp add: rl_unit_put uc)
  moreover have "cb_log d' = cb_log d @ remote p (rl_AddNormalExit c1 n 0)"
    using 2(5) wc by (simp add: mem_upd_def rl_ext_def ext_log_def)
  ultimately show ?thesis
    using 1(1,9) 2(4,5)
    by (intro exI [of _ r1] exI [of _ c1] exI [of _ "r6\<lparr>rd_fStatus := kStatusDone\<rparr>"]
        exI [of _ "rl_put ?i u' c1"] exI [of _ d'] exI [of _ "rl_AddNormalExit c1 n 0"]) (simp add: rd_IsActive_def mem_upd_def)
qed

section \<open>An example\<close>

text \<open>A request for 300 words at sector 38, of which 256 are within the track.\<close>

definition demo_rl_unit :: "nat \<Rightarrow> url11" where
  "demo_rl_unit i = (url11_new i)\<lparr>ud_fupVirt := Some (ADRam (diskram_new\<lparr>vd_fBlkSize := 256, vd_fNBlock := 40960, vd_fNCyl := 512, vd_fNHead := 2, vd_fNSect := 40\<rparr>))\<rparr>"

definition demo_rl :: rl11 where
  "demo_rl = rl11_new\<lparr>cc_fBase := 0xf900, rl_fspUnit := map demo_rl_unit [0, 1, 2, 3]\<rparr>"

definition demo_rl_req :: "u16 \<Rightarrow> rl_req" where
  "demo_rl_req cs = rl_decode cs 0x1000 0x1e6 0xfed4 0 0x1c5"

lemma demo_rl_decode: "lq_rlcs (demo_rl_req cs) = cs" "lq_nwrd (demo_rl_req cs) = 300" "lq_sa (demo_rl_req cs) = 38" "lq_hs (demo_rl_req cs) = 1"
    "lq_ca (demo_rl_req cs) = 3" "lq_pos (demo_rl_req cs) = 0x1c5" "lq_rlda (demo_rl_req cs) = 0x1e6" "rl_room (demo_rl_req cs) = 256"
    "lq_addr (demo_rl_req 12) = 0x1000" "lq_addr (demo_rl_req 10) = 0x1000" "lq_ds (demo_rl_req 12) = 0" "lq_ds (demo_rl_req 10) = 0"
    "lq_fu (demo_rl_req 12) = rl_kFUNC_READ" "lq_fu (demo_rl_req 10) = rl_kFUNC_WRITE"
  by (auto simp: demo_rl_req_def rl_decode_def rl_ds_def rl_room_def dev_defs)

lemma demo_rl_request: "rl_request (demo_rl_req cs)"
  unfolding rl_request_def demo_rl_req_def by blast

lemma demo_rl_units: "rl_unit 0 demo_rl = demo_rl_unit 0" "length (rl_fspUnit demo_rl) = rl_NUnit" "cc_fBase demo_rl = 0xf900"
  by (simp_all add: rl_unit_def demo_rl_def rl_NUnit_def)

lemma demo_rl_disk: "disk_ready 256 (demo_rl_unit i)" "rl_geom (demo_rl_unit i)" "\<not> ud_fWProt (demo_rl_unit i)" "ud_fNSect (demo_rl_unit i) = 40"
  by (simp_all add: disk_ready_def demo_rl_unit_def url11_new_def udisk.defs udisk_new_def ad_inv_def ram_inv_def diskram_new_def bm_inv_def rl_geom_def)

lemma demo_rl_inv: "rl_inv demo_cpu demo_rl"
  by (simp add: rl_inv_def rl_regs_def demo_rl_def demo_cpu_def cpu_new_def IbusRemoteAddr_def dev_defs dev_reg_def ibaddr_bad_def ext_reg_def cpu_defs)

lemma demo_rl_setup: "rl_setup rl_kFUNC_READ demo_cpu 1000 100 (demo_rl_req 12) rdmadisk_new demo_rl (demo_port 0x10000)"
    "rl_setup rl_kFUNC_WRITE demo_cpu 1000 100 (demo_rl_req 10) rdmadisk_new demo_rl (demo_port 0x10000)"
  by (simp_all add: rl_setup_def Let_def demo_rl_decode demo_rl_request demo_rl_units demo_rl_disk demo_rl_inv rl_poserr_def rd_IsActive_def rdmadisk_new_def rdma.defs rdma_new_def
      chunk_cfg_def in22_def io22_def word_mode_def demo_port_def dev_defs)

lemma demo_rl_lba: "unat (rl_lba (demo_rl_req cs) (demo_rl_unit 0)) = 318" "nblk_of 128 256 = 2" "cb_mem (demo_port n) = (\<lambda>_. 0)" "cb_log (demo_port n) = []"
  by (simp_all add: rl_lba_def demo_rl_decode Chs2Lba_def demo_rl_unit_def url11_new_def udisk.defs udisk_new_def nblk_of_def demo_port_def)

theorem rl11_read_witness:
  "\<exists>r1 c1 r2 c2 d2 xs. rl_handle (cp_link (cp_fBase demo_cpu) 1000 100) 7 demo_cpu (demo_rl_req 12) rdmadisk_new (demo_rl, demo_port 0x10000) = Inr (r1, c1, demo_port 0x10000) \<and>
    rdma_chain (rl_RdmaHandler (cp_link (cp_fBase demo_cpu) 1000 100) demo_cpu) r1 (c1, demo_port 0x10000) = Some (Inr (r2, c2, d2)) \<and> \<not> rd_IsActive r2 \<and>
    cb_mem d2 = wr_words 0x1000 (take 256 (pairs (disk_bytes (unit_blk (demo_rl_unit 0)) 318 2))) (\<lambda>_. 0) \<and>
    cb_log d2 = remote demo_cpu xs \<and> rl_done 0xf900 (demo_rl_req 12) 256 (demo_rl_unit 0) xs \<and>
    (\<forall>j < rl_NUnit. unit_blk (rl_unit j c2) = unit_blk (rl_unit j demo_rl))"
  using rl11_read [OF demo_rl_setup(1) _ refl refl, of 7] by (simp add: demo_rl_decode demo_rl_units demo_rl_lba)

theorem rl11_write_witness:
  "\<exists>r1 c1 r2 c2 d2 xs. rl_handle (cp_link (cp_fBase demo_cpu) 1000 100) 7 demo_cpu (demo_rl_req 10) rdmadisk_new (demo_rl, demo_port 0x10000) = Inr (r1, c1, demo_port 0x10000) \<and>
    rdma_chain (rl_RdmaHandler (cp_link (cp_fBase demo_cpu) 1000 100) demo_cpu) r1 (c1, demo_port 0x10000) = Some (Inr (r2, c2, d2)) \<and> \<not> rd_IsActive r2 \<and>
    cb_mem d2 = (\<lambda>_. 0) \<and> cb_log d2 = remote demo_cpu xs \<and> rl_done 0xf900 (demo_rl_req 10) 256 (demo_rl_unit 0) xs \<and>
    arr_eq (unit_blk (rl_unit 0 c2)) (put_disk 256 318 (rd_words 0x1000 256 (\<lambda>_. 0)) (unit_blk (demo_rl_unit 0))) \<and>
    (\<forall>j < rl_NUnit. j \<noteq> 0 \<longrightarrow> rl_unit j c2 = rl_unit j demo_rl)"
  using rl11_write [OF demo_rl_setup(2) refl _ refl, of 7] by (simp add: demo_rl_decode demo_rl_units demo_rl_disk demo_rl_lba)

text \<open>An RL01, and a read of 128 words without header check at the start of its cylinder 300, which does not exist.\<close>

definition demo_rl01 :: rl11 where
  "demo_rl01 = demo_rl\<lparr>rl_fspUnit := [(url11_new 0)\<lparr>ud_fNCyl := 256, ud_fNBlock := 20480,
     ud_fupVirt := Some (ADRam (diskram_new\<lparr>vd_fBlkSize := 256, vd_fNBlock := 20480, vd_fNCyl := 256, vd_fNHead := 2, vd_fNSect := 40\<rparr>))\<rparr>, url11_new 1, url11_new 2, url11_new 3]\<rparr>"

definition demo_rnhc :: rl_req where
  "demo_rnhc = rl_decode 14 0x1000 0x9600 0xff80 0 0"

lemma demo_rnhc_decode: "lq_rlcs demo_rnhc = 14" "lq_ds demo_rnhc = 0" "lq_fu demo_rnhc = rl_kFUNC_RNHC" "lq_nwrd demo_rnhc = 128" "lq_sa demo_rnhc = 0" "lq_hs demo_rnhc = 0" "lq_ca demo_rnhc = 300"
  by (simp_all add: demo_rnhc_def rl_decode_def rl_ds_def dev_defs)

lemma demo_rl01_unit: "rl_geom (rl_unit 0 demo_rl01)" "ud_fNCyl (rl_unit 0 demo_rl01) = 256" "ud_fNBlock (rl_unit 0 demo_rl01) = 20480" "ud_fupVirt (rl_unit 0 demo_rl01) \<noteq> None"
    "ud_fNSect (rl_unit 0 demo_rl01) = 40" "ud_fNHead (rl_unit 0 demo_rl01) = 2"
  by (simp_all add: rl_unit_def demo_rl01_def url11_new_def udisk.defs udisk_new_def rl_geom_def)

lemma demo_rl_cfg: "\<not> rd_IsActive rdmadisk_new" "chunk_cfg 1000 100 rdmadisk_new"
  by (simp_all add: rd_IsActive_def rdmadisk_new_def rdma.defs rdma_new_def chunk_cfg_def)

lemma demo_rl_unit_size: "ud_fNBlock (demo_rl_unit 0) = 40960" "ud_fNCyl (demo_rl_unit 0) = 512" "ud_fupVirt (demo_rl_unit 0) \<noteq> None"
  by (simp_all add: demo_rl_unit_def url11_new_def udisk.defs udisk_new_def)

theorem rl11_in_track_witness:
  "(\<exists>r1 c1. rl_handle (cp_link (cp_fBase demo_cpu) 1000 100) 7 demo_cpu (demo_rl_req 12) rdmadisk_new (demo_rl, demo_port 0x10000) = Inr (r1, c1, demo_port 0x10000) \<and>
      rd_IsActive r1 \<and> rd_fNWordRest r1 = 256 \<and> rk_fLba r1 = 318) \<and> 318 + 2 \<le> ud_fNBlock (demo_rl_unit 0) \<and> rl_ovr (demo_rl_req 12) (demo_rl_unit 0) \<and>
   (\<exists>r1 c1. rl_handle (cp_link (cp_fBase demo_cpu) 1000 100) 7 demo_cpu demo_rnhc rdmadisk_new (demo_rl01, demo_port 0x10000) = Inr (r1, c1, demo_port 0x10000) \<and>
      rd_IsActive r1 \<and> rd_fNWordRest r1 = 128 \<and> rk_fLba r1 = 24000) \<and> ud_fNBlock (rl_unit 0 demo_rl01) \<le> 24000"
proof -
  have n: "unat (rl_nwrd (demo_rl_req 12) (demo_rl_unit 0)) = 256" "unat (rl_nwrd demo_rnhc (rl_unit 0 demo_rl01)) = 128"
    using rl_track(2) [OF demo_rl_disk(2), of "demo_rl_req 12" 0] rl_track(2) [OF demo_rl01_unit(1), of demo_rnhc]
    by (simp_all add: demo_rl_decode demo_rnhc_decode rl_room_def)
  have l: "unat (rl_lba demo_rnhc (rl_unit 0 demo_rl01)) = 24000"
    by (simp add: rl_lba_def demo_rnhc_decode demo_rl01_unit Chs2Lba_def)
  have p: "\<not> rl_poserr (demo_rl_req 12) (demo_rl_unit 0)" "\<not> rl_poserr demo_rnhc (rl_unit 0 demo_rl01)" "rl_request demo_rnhc"
    by (simp_all add: rl_poserr_def demo_rl_decode demo_rl_disk demo_rnhc_decode demo_rl01_unit)
      (simp_all add: dev_defs rl_request_def demo_rnhc_def, blast)
  have cs: "(12 :: u16) AND kRLCS_M_CRDY = 0" "(14 :: u16) AND kRLCS_M_CRDY = 0"
    by (simp_all add: dev_defs)
  have "rl_kFUNC_READ \<noteq> rl_kFUNC_WRITE" "rl_kFUNC_RNHC \<noteq> rl_kFUNC_WRITE"
    by (simp_all add: dev_defs)
  then show ?thesis
    using rl11_in_track [OF demo_rl_request _ demo_rl_cfg refl _ _ _ _ _ _ refl refl refl, of 12 demo_rl demo_cpu 7 "demo_port 0x10000"]
      rl11_in_track [OF p(3) _ demo_rl_cfg refl _ _ _ _ _ _ refl refl refl, of demo_rl01 demo_cpu 7 "demo_port 0x10000"] n l p cs
    by (auto simp: demo_rl_decode demo_rl_units demo_rl_lba demo_rl_disk demo_rl_unit_size demo_rnhc_decode demo_rl01_unit)
qed

end
