(* ===== verification/Rw11CntlRHRP.thy ===== *)
theory Rw11CntlRHRP
  imports Rw11CntlBase
begin

text \<open>
  The RH70 and RH11 controller with its RP and RM disks, \<open>Rw11CntlRHRP\<close> and \<open>Rw11UnitRHRP\<close>: unit types, start, attention handler
  and the callbacks of the DMA. Seek, search and the like are done by the device itself, the server only counts them. Log messages are left out.
\<close>

section \<open>Constants\<close>

definition kRPCS1 :: u16 where [dev_defs]: "kRPCS1 = 0"
definition kRPWC :: u16 where [dev_defs]: "kRPWC = 2"
definition kRPBA :: u16 where [dev_defs]: "kRPBA = 4"
definition kRPDA :: u16 where [dev_defs]: "kRPDA = 6"
definition kRPCS2 :: u16 where [dev_defs]: "kRPCS2 = 8"
definition kRPDS :: u16 where [dev_defs]: "kRPDS = 0xa"
definition kRPER1 :: u16 where [dev_defs]: "kRPER1 = 0xc"
definition kRPAS :: u16 where [dev_defs]: "kRPAS = 0xe"
definition kRPLA :: u16 where [dev_defs]: "kRPLA = 0x10"
definition kRPDB :: u16 where [dev_defs]: "kRPDB = 0x12"
definition kRPMR1 :: u16 where [dev_defs]: "kRPMR1 = 0x14"
definition kRPDT :: u16 where [dev_defs]: "kRPDT = 0x16"
definition kRPSN :: u16 where [dev_defs]: "kRPSN = 0x18"
definition kRPOF :: u16 where [dev_defs]: "kRPOF = 0x1a"
definition kRPDC :: u16 where [dev_defs]: "kRPDC = 0x1c"
definition kRxM13 :: u16 where [dev_defs]: "kRxM13 = 0x1e"
definition kRxM14 :: u16 where [dev_defs]: "kRxM14 = 0x20"
definition kRxM15 :: u16 where [dev_defs]: "kRxM15 = 0x22"
definition kRPEC1 :: u16 where [dev_defs]: "kRPEC1 = 0x24"
definition kRPEC2 :: u16 where [dev_defs]: "kRPEC2 = 0x26"
definition kRPBAE :: u16 where [dev_defs]: "kRPBAE = 0x28"
definition kRPCS3 :: u16 where [dev_defs]: "kRPCS3 = 0x2a"
definition rp_kProbeOff :: u16 where [dev_defs]: "rp_kProbeOff = 8"
definition rp_kProbeInt :: bool where [dev_defs]: "rp_kProbeInt = True"
definition rp_kProbeRem :: bool where [dev_defs]: "rp_kProbeRem = True"
definition kRPCS1_M_RDY :: u16 where [dev_defs]: "kRPCS1_M_RDY = 0x80"
definition kRPCS1_V_FUNC :: nat where [dev_defs]: "kRPCS1_V_FUNC = 1"
definition kRPCS1_B_FUNC :: u16 where [dev_defs]: "kRPCS1_B_FUNC = 0x1f"
definition rp_kFUNC_WCD :: u16 where [dev_defs]: "rp_kFUNC_WCD = 0x14"
definition rp_kFUNC_WRITE :: u16 where [dev_defs]: "rp_kFUNC_WRITE = 0x18"
definition rp_kFUNC_READ :: u16 where [dev_defs]: "rp_kFUNC_READ = 0x1c"
definition rp_kRFUNC_WUNIT :: u16 where [dev_defs]: "rp_kRFUNC_WUNIT = 1"
definition rp_kRFUNC_CUNIT :: u16 where [dev_defs]: "rp_kRFUNC_CUNIT = 2"
definition rp_kRFUNC_DONE :: u16 where [dev_defs]: "rp_kRFUNC_DONE = 3"
definition kRPCS1_V_RUNIT :: nat where [dev_defs]: "kRPCS1_V_RUNIT = 8"
definition kRPCS1_M_RATA :: u16 where [dev_defs]: "kRPCS1_M_RATA = 0x100"
definition kRPDA_V_TA :: nat where [dev_defs]: "kRPDA_V_TA = 8"
definition kRPDA_B_TA :: u16 where [dev_defs]: "kRPDA_B_TA = 0x1f"
definition kRPDA_B_SA :: u16 where [dev_defs]: "kRPDA_B_SA = 0x3f"
definition kRPCS2_M_RWCO :: u16 where [dev_defs]: "kRPCS2_M_RWCO = 0x8000"
definition kRPCS2_M_WCE :: u16 where [dev_defs]: "kRPCS2_M_WCE = 0x4000"
definition kRPCS2_M_NEM :: u16 where [dev_defs]: "kRPCS2_M_NEM = 0x800"
definition kRPCS2_B_UNIT :: u16 where [dev_defs]: "kRPCS2_B_UNIT = 3"
definition kRPDS_M_ATA :: u16 where [dev_defs]: "kRPDS_M_ATA = 0x8000"
definition kRPDS_M_ERP :: u16 where [dev_defs]: "kRPDS_M_ERP = 0x4000"
definition kRPDS_M_MOL :: u16 where [dev_defs]: "kRPDS_M_MOL = 0x1000"
definition kRPDS_M_WRL :: u16 where [dev_defs]: "kRPDS_M_WRL = 0x800"
definition kRPDS_M_DPR :: u16 where [dev_defs]: "kRPDS_M_DPR = 0x100"
definition kRPDS_M_VV :: u16 where [dev_defs]: "kRPDS_M_VV = 0x40"
definition kRPER1_M_UNS :: u16 where [dev_defs]: "kRPER1_M_UNS = 0x4000"
definition kRPER1_M_WLE :: u16 where [dev_defs]: "kRPER1_M_WLE = 0x800"
definition kRPER1_M_IAE :: u16 where [dev_defs]: "kRPER1_M_IAE = 0x400"
definition kRPER1_M_AOE :: u16 where [dev_defs]: "kRPER1_M_AOE = 0x200"
definition kRPER1_M_ILF :: u16 where [dev_defs]: "kRPER1_M_ILF = 1"
definition kRPDC_B_CA :: u16 where [dev_defs]: "kRPDC_B_CA = 0x3ff"
definition kRPCS3_M_RSEARDONE :: u16 where [dev_defs]: "kRPCS3_M_RSEARDONE = 8"
definition kRPCS3_M_RPACKDONE :: u16 where [dev_defs]: "kRPCS3_M_RPACKDONE = 4"
definition kRPCS3_M_RPOREDONE :: u16 where [dev_defs]: "kRPCS3_M_RPOREDONE = 2"
definition kRPCS3_M_RSEEKDONE :: u16 where [dev_defs]: "kRPCS3_M_RSEEKDONE = 1"
text \<open>Drive types, from \<open>Rw11UnitRHRP\<close>.\<close>

definition kDTE_M_RM :: u16 where [dev_defs]: "kDTE_M_RM = 4"
definition kDTE_RP04 :: u16 where [dev_defs]: "kDTE_RP04 = 0"
definition kDTE_RP06 :: u16 where [dev_defs]: "kDTE_RP06 = 1"
definition kDTE_RM03 :: u16 where [dev_defs]: "kDTE_RM03 = 4"
definition kDTE_RM80 :: u16 where [dev_defs]: "kDTE_RM80 = 5"
definition kDTE_RM05 :: u16 where [dev_defs]: "kDTE_RM05 = 6"
definition kDTE_RP07 :: u16 where [dev_defs]: "kDTE_RP07 = 7"

section \<open>State\<close>

datatype rhrp_stat = rpStatNAttnHdl | rpStatNFuncWchk | rpStatNFuncWrite | rpStatNFuncRead | rpStatNFuncSear | rpStatNFuncPack | rpStatNFuncPore | rpStatNFuncSeek

record urhrp = udisk +
  up_fRpdt :: u16
  up_fRpds :: u16

record rhrp = cntl +
  rp_fspUnit :: "urhrp list"
  rp_fPrimClist :: clist
  rp_fPC_rpcs1 :: nat
  rp_fPC_rpcs2 :: nat
  rp_fPC_rpcs3 :: nat
  rp_fPC_rpwc :: nat
  rp_fPC_rpba :: nat
  rp_fPC_rpbae :: nat
  rp_fPC_cunit :: nat
  rp_fPC_rpds :: nat
  rp_fPC_rpda :: nat
  rp_fPC_rpdc :: nat
  rp_fRd_rpcs1 :: u16
  rp_fRd_rpcs2 :: u16
  rp_fRd_rpcs3 :: u16
  rp_fRd_rpwc :: u16
  rp_fRd_rpba :: u16
  rp_fRd_rpbae :: u16
  rp_fRd_rpds :: u16
  rp_fRd_rpda :: u16
  rp_fRd_rpdc :: u16
  rp_fRd_addr :: u32
  rp_fRd_lba :: u32
  rp_fRd_nwrd :: u32
  rp_fRd_fu :: u16
  rp_fRd_ovr :: bool
  rp_fStats :: "rhrp_stat \<Rightarrow> nat"

definition urhrp_new :: "nat \<Rightarrow> urhrp" where
  "urhrp_new index =
     udisk.extend ((udisk_new index)\<lparr>ud_fType := ''off'', ud_fEnabled := False, ud_fBlksize := 512\<rparr>) \<lparr>up_fRpdt = 0, up_fRpds = 0\<rparr>"

definition IsRmType :: "urhrp \<Rightarrow> bool" where
  "IsRmType u = (up_fRpdt u AND kDTE_M_RM \<noteq> 0)"

definition rp_NUnit :: nat where
  "rp_NUnit = 4"

definition rhrp_new :: rhrp where
  "rhrp_new = cntl.extend (cntl_new ''rhrp'')
     \<lparr>rp_fspUnit = map urhrp_new [0..<rp_NUnit], rp_fPrimClist = clist_new, rp_fPC_rpcs1 = 0, rp_fPC_rpcs2 = 0, rp_fPC_rpcs3 = 0, rp_fPC_rpwc = 0, rp_fPC_rpba = 0, rp_fPC_rpbae = 0, rp_fPC_cunit = 0, rp_fPC_rpds = 0, rp_fPC_rpda = 0, rp_fPC_rpdc = 0,
      rp_fRd_rpcs1 = 0, rp_fRd_rpcs2 = 0, rp_fRd_rpcs3 = 0, rp_fRd_rpwc = 0, rp_fRd_rpba = 0, rp_fRd_rpbae = 0, rp_fRd_rpds = 0, rp_fRd_rpda = 0, rp_fRd_rpdc = 0,
      rp_fRd_addr = 0, rp_fRd_lba = 0, rp_fRd_nwrd = 0, rp_fRd_fu = 0, rp_fRd_ovr = False, rp_fStats = (\<lambda>_. 0)\<rparr>"

definition rp_inc :: "rhrp_stat \<Rightarrow> rhrp \<Rightarrow> rhrp" where
  "rp_inc x c = c\<lparr>rp_fStats := stat_inc x 1 (rp_fStats c)\<rparr>"

definition rp_unit :: "nat \<Rightarrow> rhrp \<Rightarrow> urhrp" where
  "rp_unit i c = rp_fspUnit c ! i"

definition rp_put :: "nat \<Rightarrow> urhrp \<Rightarrow> rhrp \<Rightarrow> rhrp" where
  "rp_put i u c = c\<lparr>rp_fspUnit := (rp_fspUnit c)[i := u]\<rparr>"

definition rp_Config :: "string \<Rightarrow> u16 \<Rightarrow> int \<Rightarrow> cntl \<Rightarrow> cntl" where
  "rp_Config name base lam c = ConfigCntl name base lam rp_kProbeOff rp_kProbeInt rp_kProbeRem c"

definition rp_SetChunkSize :: "'w link \<Rightarrow> nat \<Rightarrow> rhrp \<Rightarrow> rdmadisk \<Rightarrow> 'w \<Rightarrow> rdmadisk" where
  "rp_SetChunkSize k chunk c r w = SetChunkSize k (cc_fStarted c) chunk r w"

section \<open>Setup\<close>

text \<open>The drive status: a change between medium on line and off line sets attention and clears volume valid.\<close>

definition rp_ds :: "urhrp \<Rightarrow> u16" where
  "rp_ds u =
     (if ud_fType u = ''off'' then 0
      else
        let rpds = kRPDS_M_DPR OR (if ud_fupVirt u \<noteq> None then kRPDS_M_MOL OR kRPDS_M_ERP OR (if ud_fWProt u then kRPDS_M_WRL else 0) else 0)
        in if (up_fRpds u XOR rpds) AND kRPDS_M_MOL \<noteq> 0 then rpds OR kRPDS_M_ATA OR kRPDS_M_VV else rpds)"

definition rp_UnitSetup :: "'w link \<Rightarrow> cpu \<Rightarrow> nat \<Rightarrow> rhrp \<times> 'w \<Rightarrow> (rhrp \<times> 'w) result" where
  "rp_UnitSetup k p ind cw =
     (case cw of (c, w) \<Rightarrow>
        let u = rp_unit ind c; rpds = rp_ds u; base = cc_fBase c
        in ebind (ExecWibr k (base + kRPCS1) (push_bit kRPCS1_V_RUNIT (of_nat ind) OR push_bit kRPCS1_V_FUNC rp_kRFUNC_WUNIT)
                    (base + kRPDT) (up_fRpdt u) (base + kRPDS) rpds p w)
             (\<lambda>w'. Inr (rp_put ind (u\<lparr>up_fRpds := rpds\<rparr>) c, w')))"

definition rp_geometry :: "string \<Rightarrow> (u16 \<times> nat \<times> nat \<times> nat) option" where
  "rp_geometry type =
     (if type = ''off'' then Some (0, 0, 0, 0)
      else if type = ''rp04'' then Some (kDTE_RP04, 411, 19, 22)
      else if type = ''rp06'' then Some (kDTE_RP06, 815, 19, 22)
      else if type = ''rm03'' then Some (kDTE_RM03, 823, 5, 32)
      else if type = ''rm80'' then Some (kDTE_RM80, 559, 14, 31)
      else if type = ''rm05'' then Some (kDTE_RM05, 823, 19, 32)
      else if type = ''rp07'' then Some (kDTE_RP07, 630, 32, 50)
      else None)"

definition rp_SetType :: "'w link \<Rightarrow> cpu \<Rightarrow> nat \<Rightarrow> string \<Rightarrow> rhrp \<times> 'w \<Rightarrow> (rhrp \<times> 'w) result" where
  "rp_SetType k p ind type cw =
     (case cw of (c, w) \<Rightarrow>
        let u = rp_unit ind c
        in if ud_fupVirt u \<noteq> None then Inl (Rexception ''Rw11UnitRHRP::SetType'' ''Bad state: file attached'')
           else
             case rp_geometry type of
               None \<Rightarrow> Inl (Rexception ''Rw11UnitRHRP::SetType'' ''Bad args: only off or rp04,rp06,rm03,rm80,rm05,rp07 supported'')
             | Some (rpdt, ncyl, nhead, nsect) \<Rightarrow>
                 rp_UnitSetup k p ind
                   (rp_put ind (u\<lparr>up_fRpdt := rpdt, ud_fNCyl := ncyl, ud_fNHead := nhead, ud_fNSect := nsect, ud_fType := type,
                      ud_fEnabled := ncyl \<noteq> 0, ud_fNBlock := ncyl * nhead * nsect\<rparr>) c, w))"

text \<open>The primary information: six registers of the controller, then the request to select the unit, then three registers of the drive.\<close>

definition rp_prim_clist :: "cpu \<Rightarrow> u16 \<Rightarrow> clist \<Rightarrow> (nat list \<times> clist) result" where
  "rp_prim_clist p base l =
     ebind (prim_clist p [base + kRPCS1, base + kRPCS2, base + kRPCS3, base + kRPWC, base + kRPBA, base + kRPBAE] l) (\<lambda>(is, l1).
     ebind (AddWibr (base + kRPCS1) (push_bit kRPCS1_V_FUNC rp_kRFUNC_CUNIT) p l1) (\<lambda>(i, l2).
     ebind (add_ribrs p [base + kRPDS, base + kRPDA, base + kRPDC] l2) (\<lambda>(js, l3). Inr (is @ [i] @ js, l3))))"

definition rp_Start :: "'w link \<Rightarrow> hid \<Rightarrow> cpu \<Rightarrow> rhrp \<Rightarrow> 'w \<Rightarrow> (cpu \<times> rhrp \<times> 'w) result" where
  "rp_Start k h p c w =
     (if start_bad c then Inl (Rexception ''Rw11CntlRHRP::Start'' ''Bad state: started, no lam, not enable, not found'')
      else
        let base = cc_fBase c;
            (p1, w1) = fold (\<lambda>(n, off) pw. AllIAddrMapInsert k (cc_fName c @ n) (base + off) pw)
              [(''.cs1'', kRPCS1), (''.wc'', kRPWC), (''.ba'', kRPBA), (''.da'', kRPDA), (''.cs2'', kRPCS2), (''.ds'', kRPDS), (''.er1'', kRPER1),
               (''.as'', kRPAS), (''.la'', kRPLA), (''.db'', kRPDB), (''.mr1'', kRPMR1), (''.dt'', kRPDT), (''.sn'', kRPSN), (''.of'', kRPOF),
               (''.dc'', kRPDC), (''.m13'', kRxM13), (''.m14'', kRxM14), (''.m15'', kRxM15), (''.ec1'', kRPEC1), (''.ec2'', kRPEC2),
               (''.bae'', kRPBAE), (''.cs3'', kRPCS3)] (p, w)
        in ebind (UnitSetupAll (rp_UnitSetup k p1) [0..<rp_NUnit] (c, w1)) (\<lambda>(c1, w2).
           ebind (rp_prim_clist p1 base (rp_fPrimClist c1)) (\<lambda>(is, l).
           ebind (lk_AddAttnHandler k h (lam_mask c1) h w2) (\<lambda>w3.
             Inr (p1, c1\<lparr>rp_fPrimClist := l, rp_fPC_rpcs1 := is ! 0, rp_fPC_rpcs2 := is ! 1, rp_fPC_rpcs3 := is ! 2, rp_fPC_rpwc := is ! 3, rp_fPC_rpba := is ! 4, rp_fPC_rpbae := is ! 5, rp_fPC_cunit := is ! 6, rp_fPC_rpds := is ! 7, rp_fPC_rpda := is ! 8, rp_fPC_rpdc := is ! 9, cc_fStarted := True\<rparr>, w3)))))"

definition rp_BootCode :: "nat \<Rightarrow> u16 list \<times> u16 \<times> u16" where
  "rp_BootCode unit =
     ([0x4442, 0x15c6, 0x400, 0x15c0, of_nat unit, 0x15c1, 0xfdc0, 0x15f1, 0x20, 8, 0x1031, 8, 0x15c9, 0x11, 0x15f1, 0x1000, 0x1a, 0x15f1, 0xfe00, 2, 0xa31, 4, 0xa31, 6, 0xa31, 0x1c, 0x15c9, 0x39, 0x8bc9, 0x80fe, 0xa02, 0xa03, 0x15c4, 0x410, 0xa05, 0x8a09, 0xa07], 0x400, 0x402)"

section \<open>Register writes\<close>

definition rp_AddErrorExit :: "rhrp \<Rightarrow> u16 \<Rightarrow> (u16 \<times> u16) list" where
  "rp_AddErrorExit c rper1 =
     (let base = cc_fBase c
      in [(base + kRPCS1, push_bit kRPCS1_V_FUNC rp_kRFUNC_CUNIT), (base + kRPER1, rper1),
          (base + kRPCS1, kRPCS1_M_RATA OR push_bit kRPCS1_V_FUNC rp_kRFUNC_DONE)])"

definition rp_unum :: "u16 \<Rightarrow> nat" where
  "rp_unum rpcs2 = unat (rpcs2 AND kRPCS2_B_UNIT)"

text \<open>The error bits of \<open>rpcs2\<close> go to \<open>kRPER1\<close>, as in the code.\<close>

definition rp_AddNormalExit :: "rhrp \<Rightarrow> nat \<Rightarrow> u16 \<Rightarrow> u16 \<Rightarrow> (u16 \<times> u16) list" where
  "rp_AddNormalExit c ndone rper0 rpcs2 =
     (let base = cc_fBase c; u = rp_unit (rp_unum (rp_fRd_rpcs2 c)) c;
          nblk = Nwrd2Nblk (of_nat ndone) u;
          addr = rp_fRd_addr c + of_nat (2 * ndone);
          lba = rp_fRd_lba c + nblk;
          ba = ucast (addr AND 0xfffe);
          bae = ucast (drop_bit 16 addr AND 0x3f);
          (ca, ta, sa) = Lba2Chs lba u;
          da = push_bit kRPDA_V_TA ta OR sa;
          wc = rp_fRd_rpwc c + of_nat ndone;
          rper1 = (if rp_fRd_ovr c then rper0 OR kRPER1_M_AOE else rper0)
      in [(base + kRPWC, wc), (base + kRPBA, ba), (base + kRPBAE, bae),
          (base + kRPCS1, push_bit kRPCS1_V_FUNC rp_kRFUNC_CUNIT), (base + kRPDA, da), (base + kRPDC, ca)] @
         (if rper1 \<noteq> 0 then [(base + kRPER1, rper1)] else []) @
         (if rpcs2 \<noteq> 0 then [(base + kRPER1, rpcs2)] else []) @
         [(base + kRPCS1, push_bit kRPCS1_V_FUNC rp_kRFUNC_DONE)])"

section \<open>Callbacks\<close>

definition rp_RdmaPreExecCB :: "cpu \<Rightarrow> rdma_status \<Rightarrow> nat \<Rightarrow> nat \<Rightarrow> clist \<Rightarrow> rhrp \<times> 'w \<Rightarrow> (clist \<times> rhrp \<times> 'w) result" where
  "rp_RdmaPreExecCB p stat nwdone nwnext l cw =
     (if stat = kStatusBusyLast \<and> rp_fRd_fu (fst cw) \<noteq> rp_kFUNC_WCD
      then ebind (cl_AddLabo l) (\<lambda>(i, l1). ebind (add_wibrs p (rp_AddNormalExit (fst cw) (nwdone + nwnext) 0 0) l1) (\<lambda>l2. Inr (l2, cw)))
      else Inr (l, cw))"

definition rp_dunits :: "'w link \<Rightarrow> cpu \<Rightarrow> (rhrp \<times> 'w, urhrp) dunits" where
  "rp_dunits k p =
     \<lparr>du_get = (\<lambda>i (c, w). rp_unit i c), du_put = (\<lambda>i u (c, w). (rp_put i u c, w)), du_UnitSetup = rp_UnitSetup k p\<rparr>"

text \<open>The test for an odd word uses the number of words of the transfer, not the position of the mismatch. \<open>rper1\<close> is never set here.\<close>

definition rp_RdmaPostExecCB :: "'w link \<Rightarrow> cpu \<Rightarrow> rdma_status \<Rightarrow> nat \<Rightarrow> clist \<Rightarrow> nat \<Rightarrow> rdmadisk \<Rightarrow> rhrp \<times> 'w \<Rightarrow>
    (rdmadisk \<times> rhrp \<times> 'w) result" where
  "rp_RdmaPostExecCB k p stat ndone0 l ncmd r0 cw0 =
     (if stat = kStatusBusy then Inr (r0, cw0)
      else ebind (if rp_fRd_fu (fst cw0) = rp_kFUNC_WCD then
                    ebind (WriteCheck (rp_dunits k p) ndone0 r0 cw0) (\<lambda>(nwcok, r1, cw1).
                      Inr (if nwcok \<noteq> ndone0 then (kRPCS2_M_WCE OR (if odd ndone0 then kRPCS2_M_RWCO else 0), nwcok, r1, cw1) else (0, ndone0, r1, cw1)))
                  else Inr (0, ndone0, r0, cw0)) (\<lambda>(rpcs0, ndone, r, cw).
        let rper1 = 0; rpcs2 = (if stat = kStatusFailRdma then rpcs0 OR kRPCS2_M_NEM else rpcs0)
        in ebind (if cl_Size l > ncmd then
                    ebind (cl_at ncmd l) (\<lambda>cmd.
                      if Command cmd \<noteq> kCmdLabo \<or> rper1 \<noteq> (0 :: u16) \<and> cmd_fData cmd = 0
                      then Inl (Rexception ''Rw11CntlRHRP::RdmaPostExecCB'' ''Bad state: Labo not found or missed abort'')
                      else Inr (cmd_fData cmd = 0))
                  else Inr False) (\<lambda>fused.
             if fused then Inr (r, cw)
             else ebind (exec_wibrs k p (rp_AddNormalExit (fst cw) ndone rper1 rpcs2) (snd cw)) (\<lambda>w'. Inr (r, (fst cw, w'))))))"

definition rp_cbs :: "'w link \<Rightarrow> cpu \<Rightarrow> (disk_cbs_ext, rhrp \<times> 'w) rdma_cbs" where
  "rp_cbs k p =
     \<lparr>rc_PreExecCB = rp_RdmaPreExecCB p, rc_PostExecCB = rp_RdmaPostExecCB k p,
      rc_PreRdmaHook = PreRdmaHook (rp_dunits k p), rc_PostRdmaHook = PostRdmaHook (rp_dunits k p)\<rparr>"

definition rp_RdmaHandler :: "'w link \<Rightarrow> cpu \<Rightarrow> rdmadisk \<Rightarrow> rhrp \<times> 'w \<Rightarrow> (int \<times> rdmadisk \<times> rhrp \<times> 'w) result" where
  "rp_RdmaHandler k p = RdmaHandler (link_snd k) (rp_cbs k p) p"

section \<open>Attention handler\<close>

record rp_req =
  pq_rpcs1 :: u16
  pq_rpcs2 :: u16
  pq_rpcs3 :: u16
  pq_rpwc :: u16
  pq_rpba :: u16
  pq_rpbae :: u16
  pq_rpds :: u16
  pq_rpda :: u16
  pq_rpdc :: u16
  pq_unum :: nat
  pq_fu :: u16
  pq_addr :: u32
  pq_sa :: u16
  pq_ta :: u16
  pq_ca :: u16
  pq_nwrd :: u32

definition rp_decode :: "u16 \<Rightarrow> u16 \<Rightarrow> u16 \<Rightarrow> u16 \<Rightarrow> u16 \<Rightarrow> u16 \<Rightarrow> u16 \<Rightarrow> u16 \<Rightarrow> u16 \<Rightarrow> rp_req" where
  "rp_decode rpcs1 rpcs2 rpcs3 rpwc rpba rpbae rpds rpda rpdc =
     \<lparr>pq_rpcs1 = rpcs1, pq_rpcs2 = rpcs2, pq_rpcs3 = rpcs3, pq_rpwc = rpwc, pq_rpba = rpba, pq_rpbae = rpbae, pq_rpds = rpds, pq_rpda = rpda, pq_rpdc = rpdc,
      pq_unum = rp_unum rpcs2, pq_fu = drop_bit kRPCS1_V_FUNC rpcs1 AND kRPCS1_B_FUNC,
      pq_addr = push_bit 16 (ucast rpbae) OR ucast rpba,
      pq_sa = rpda AND kRPDA_B_SA, pq_ta = drop_bit kRPDA_V_TA rpda AND kRPDA_B_TA, pq_ca = rpdc AND kRPDC_B_CA,
      pq_nwrd = (NOT (ucast rpwc) AND 0xffff) + 1\<rparr>"

definition rp_lba :: "rp_req \<Rightarrow> urhrp \<Rightarrow> u32" where
  "rp_lba q u = Chs2Lba (pq_ca q) (pq_ta q) (pq_sa q) u"

definition rp_ovr :: "rp_req \<Rightarrow> urhrp \<Rightarrow> bool" where
  "rp_ovr q u = (unat (rp_lba q u + Nwrd2Nblk (pq_nwrd q) u) > ud_fNBlock u)"

definition rp_nwrd :: "rp_req \<Rightarrow> urhrp \<Rightarrow> u32" where
  "rp_nwrd q u = (if rp_ovr q u then of_int ((int (ud_fNBlock u) - uint (rp_lba q u)) * int (ud_fBlksize u div 2)) else pq_nwrd q)"

text \<open>The functions that the device has done on its own are counted.\<close>

definition rp_count :: "u16 \<Rightarrow> rhrp \<Rightarrow> rhrp" where
  "rp_count rpcs3 c =
     fold (\<lambda>(m, x) c. if rpcs3 AND m \<noteq> 0 then rp_inc x c else c)
       [(kRPCS3_M_RSEARDONE, rpStatNFuncSear), (kRPCS3_M_RPOREDONE, rpStatNFuncPore), (kRPCS3_M_RPACKDONE, rpStatNFuncPack),
        (kRPCS3_M_RSEEKDONE, rpStatNFuncSeek)] c"

text \<open>The test of the disk address lets a value equal to the number of cylinders, heads or sectors pass, as in the code.\<close>

definition rp_badaddr :: "rp_req \<Rightarrow> urhrp \<Rightarrow> bool" where
  "rp_badaddr q u = (unat (pq_ca q) > ud_fNCyl u \<or> unat (pq_ta q) > ud_fNHead u \<or> unat (pq_sa q) > ud_fNSect u)"

definition rp_func :: "'w link \<Rightarrow> hid \<Rightarrow> cpu \<Rightarrow> rp_req \<Rightarrow> u32 \<Rightarrow> u32 \<Rightarrow> rdmadisk \<Rightarrow> rhrp \<times> 'w \<Rightarrow>
    (rdmadisk \<times> rhrp \<times> 'w) result" where
  "rp_func k h p q lba nwrd r cw =
     (case cw of (c, w) \<Rightarrow>
        let i = pq_unum q; u = rp_unit i c; fu = pq_fu q;
            queue = (\<lambda>c1 f. f (link_snd k) h (rp_dunits k p) (pq_addr q) (unat nwrd) kCPAH_M_22BIT lba i r (c1, w));
            exec = (\<lambda>c1 xs. ebind (exec_wibrs k p xs w) (\<lambda>w'. Inr (r, (c1, w'))))
        in if fu = rp_kFUNC_WRITE then
             (let c1 = rp_inc rpStatNFuncWrite c
              in if ud_fWProt u then exec c1 (rp_AddErrorExit c1 kRPER1_M_WLE) else queue c1 QueueDiskWrite)
           else if fu = rp_kFUNC_WCD then queue (rp_inc rpStatNFuncWchk c) QueueDiskWriteCheck
           else if fu = rp_kFUNC_READ then queue (rp_inc rpStatNFuncRead c) QueueDiskRead
           else exec c (rp_AddErrorExit c kRPER1_M_ILF))"

text \<open>What the handler does once the registers are read.\<close>

definition rp_handle :: "'w link \<Rightarrow> hid \<Rightarrow> cpu \<Rightarrow> rp_req \<Rightarrow> rdmadisk \<Rightarrow> rhrp \<times> 'w \<Rightarrow> (rdmadisk \<times> rhrp \<times> 'w) result" where
  "rp_handle k h p q r cw =
     (case cw of (c0, w) \<Rightarrow>
        if pq_unum q \<ge> rp_NUnit then Inl (Rexception ''Rw11CntlRHRP::AttnHandler'' ''Bad state: unum >= NUnit()'')
        else
          let u = rp_unit (pq_unum q) c0; lba = rp_lba q u; c = rp_count (pq_rpcs3 q) c0
          in if pq_rpcs1 q AND kRPCS1_M_RDY \<noteq> 0 \<or> rd_IsActive r then Inr (r, (c, w))
             else
               let nwrd = rp_nwrd q u;
                   c1 = c\<lparr>rp_fRd_rpcs1 := pq_rpcs1 q, rp_fRd_rpcs2 := pq_rpcs2 q, rp_fRd_rpcs3 := pq_rpcs3 q, rp_fRd_rpwc := pq_rpwc q, rp_fRd_rpba := pq_rpba q, rp_fRd_rpbae := pq_rpbae q, rp_fRd_rpds := pq_rpds q, rp_fRd_rpda := pq_rpda q, rp_fRd_rpdc := pq_rpdc q,
                          rp_fRd_addr := pq_addr q, rp_fRd_lba := lba, rp_fRd_nwrd := nwrd, rp_fRd_fu := pq_fu q, rp_fRd_ovr := rp_ovr q u\<rparr>;
                   exec = (\<lambda>xs. ebind (exec_wibrs k p xs w) (\<lambda>w'. Inr (r, (c1, w'))))
               in if ud_fupVirt u = None then exec (rp_AddErrorExit c1 kRPER1_M_UNS)
                  else if rp_badaddr q u then exec (rp_AddErrorExit c1 kRPER1_M_IAE)
                  else rp_func k h p q lba nwrd r (c1, w))"

definition rp_AttnHandler :: "'w link \<Rightarrow> hid \<Rightarrow> cpu \<Rightarrow> attn_args \<Rightarrow> rdmadisk \<Rightarrow> rhrp \<times> 'w \<Rightarrow>
    (attn_args \<times> rdmadisk \<times> rhrp \<times> 'w) result" where
  "rp_AttnHandler k h p args r cw0 =
     (case cw0 of (c0, w0) \<Rightarrow>
        let c1 = rp_inc rpStatNAttnHdl c0
        in ebind (srv_GetAttnInfo k args (rp_fPrimClist c1) w0) (\<lambda>(args', l, w).
           let c = c1\<lparr>rp_fPrimClist := l\<rparr>
           in ebind (cmd_data (rp_fPC_rpcs1 c) l) (\<lambda>rpcs1. ebind (cmd_data (rp_fPC_rpcs2 c) l) (\<lambda>rpcs2. ebind (cmd_data (rp_fPC_rpcs3 c) l) (\<lambda>rpcs3. ebind (cmd_data (rp_fPC_rpwc c) l) (\<lambda>rpwc. ebind (cmd_data (rp_fPC_rpba c) l) (\<lambda>rpba. ebind (cmd_data (rp_fPC_rpbae c) l) (\<lambda>rpbae. ebind (cmd_data (rp_fPC_rpds c) l) (\<lambda>rpds. ebind (cmd_data (rp_fPC_rpda c) l) (\<lambda>rpda. ebind (cmd_data (rp_fPC_rpdc c) l) (\<lambda>rpdc.
                ebind (rp_handle k h p (rp_decode rpcs1 rpcs2 rpcs3 rpwc rpba rpbae rpds rpda rpdc) r (c, w)) (\<lambda>(r1, cw1). Inr (args', r1, cw1)))))))))))))"

end
