(* ===== verification/Rw11RHRPRep.thy ===== *)
theory Rw11RHRPRep
  imports Rw11CntlRep Rw11CntlRHRP
begin

text \<open>
  The RHRP: \<open>rpd\<close> interprets the contract of a disk controller on its callbacks; \<open>rhrp_read\<close> and \<open>rhrp_write\<close> follow a request
  from the register values to the last register write, for every drive type. \<open>rhrp_bad_address\<close> shows what the check of the
  disk address lets pass.
\<close>

section \<open>The RHRP as a client of the DMA\<close>

definition rp_regs :: "u16 list" where
  "rp_regs = [kRPCS1, kRPWC, kRPBA, kRPDA, kRPER1, kRPDC, kRPBAE]"

definition rp_inv :: "cpu \<Rightarrow> rhrp \<Rightarrow> bool" where
  "rp_inv p c = list_all (\<lambda>off. dev_reg p (cc_fBase c + off)) rp_regs"

definition rp_ext :: "cpu \<Rightarrow> nat \<Rightarrow> rhrp \<Rightarrow> (u16 \<times> u16) list option" where
  "rp_ext p n c = (if rp_fRd_fu c = rp_kFUNC_WCD then None else Some (remote p (rp_AddNormalExit c n 0 0)))"

lemma rp_exit_dev:
  assumes "rp_inv p c"
  shows "list_all (\<lambda>(a, w). dev_reg p a) (rp_AddNormalExit c n e s)"
  using assms by (auto simp: rp_AddNormalExit_def rp_inv_def rp_regs_def Let_def split: prod.splits)

lemma rp_unit_put: "rp_unit j (rp_put i u c) = (if j = i \<and> i < length (rp_fspUnit c) then u else rp_unit j c)"
  by (auto simp: rp_unit_def rp_put_def list_update_beyond not_less)

lemma rp_exit_put:
  assumes "same_unit (rp_unit i c) u"
  shows "rp_AddNormalExit (rp_put i u c) n e s = rp_AddNormalExit c n e s"
proof -
  let ?j = "rp_unum (rp_fRd_rpcs2 c)"
  have s: "same_unit (rp_unit ?j c) (rp_unit ?j (rp_put i u c))"
    using assms by (auto simp: rp_unit_put same_unit_def)
  note g = same_unit_geom(1,2) [OF s]
  show ?thesis
    unfolding rp_AddNormalExit_def by (simp add: Let_def rp_put_def g [unfolded rp_put_def])
qed

interpretation rpd: disk_dma p "rp_inv p" "rp_ext p" "rp_cbs (cp_link (cp_fBase p) bm b) p" "rp_dunits (cp_link (cp_fBase p) bm b) p"
  rp_unit rp_put for p bm b
proof (unfold_locales, goal_cases)
  case (1 c nd nx l d)
  then show ?case
    by (simp add: rp_cbs_def rp_RdmaPreExecCB_def)
next
  case (2 c nd nx l d)
  then show ?case
    using add_wibrs_ok [OF rp_exit_dev [OF 2, of "nd + nx" 0 0]]
    by (simp add: rp_cbs_def rp_RdmaPreExecCB_def rp_ext_def ext_cmds_def cl_AddLabo_eq)
next
  case (3 c n)
  then show ?case
    using remote_ext [OF rp_exit_dev [OF 3, of n 0 0]] by (auto simp: rp_ext_def ext_ok_def ext_log_def)
next
  case (4 c nd l n r d)
  then show ?case
    by (simp add: rp_cbs_def rp_RdmaPostExecCB_def)
next
  case (5 st nd l n r s r' s')
  then show ?case
    by (auto simp: rp_cbs_def rp_RdmaPostExecCB_def Let_def ebind_eq_Inr split: if_splits dest!: WriteCheck_keeps)
next
  case (6 nd r s r' s')
  then show ?case
    by (auto simp: rp_cbs_def dest!: PostRdmaHook_keeps)
next
  case (11 c i u n)
  then show ?case
    using rp_exit_put [OF 11(2), of n 0 0] by (simp add: rp_inv_def rp_ext_def rp_put_def)
qed (simp_all add: rp_cbs_def rp_dunits_def)

section \<open>Requests\<close>

text \<open>A unit of one of the drive types, as \<open>SetType\<close> leaves it.\<close>

definition rp_geom :: "'a udisk_scheme \<Rightarrow> bool" where
  "rp_geom u =
     (case rp_geometry (ud_fType u) of
        None \<Rightarrow> False
      | Some (dt, ncyl, nhead, nsect) \<Rightarrow> ncyl \<noteq> 0 \<and> ud_fNCyl u = ncyl \<and> ud_fNHead u = nhead \<and> ud_fNSect u = nsect \<and>
          ud_fBlksize u = 512 \<and> ud_fNBlock u = ncyl * nhead * nsect)"

lemma rp_geom_limits:
  assumes "rp_geom u"
  shows "0 < ud_fNCyl u" "ud_fNCyl u < 1023" "0 < ud_fNHead u" "ud_fNHead u \<le> 32" "0 < ud_fNSect u" "ud_fNSect u \<le> 50" "ud_fBlksize u = 512"
    "ud_fNBlock u = ud_fNCyl u * ud_fNHead u * ud_fNSect u" "ud_fNBlock u < 2 ^ 21"
  using assms by (auto simp: rp_geom_def rp_geometry_def split: if_splits)

definition rp_addr_ok :: "rp_req \<Rightarrow> urhrp \<Rightarrow> bool" where
  "rp_addr_ok q u = (unat (pq_ca q) < ud_fNCyl u \<and> unat (pq_ta q) < ud_fNHead u \<and> unat (pq_sa q) < ud_fNSect u)"

text \<open>The words up to the end of the disk.\<close>

definition rp_room :: "rp_req \<Rightarrow> urhrp \<Rightarrow> nat" where
  "rp_room q u = (ud_fNBlock u - unat (rp_lba q u)) * 256"

definition rp_request :: "rp_req \<Rightarrow> bool" where
  "rp_request q = (\<exists>rpcs1 rpcs2 rpcs3 rpwc rpba rpbae rpds rpda rpdc. q = rp_decode rpcs1 rpcs2 rpcs3 rpwc rpba rpbae rpds rpda rpdc)"

lemma rp_wc_range:
  assumes "rp_request q"
  shows "0 < unat (pq_nwrd q) \<and> unat (pq_nwrd q) \<le> 2 ^ 16"
  using assms neg_count [of "pq_rpwc q"] unsigned_less [of "pq_rpwc q"] by (auto simp: rp_request_def rp_decode_def)

lemma rp_lba_range:
  assumes "rp_geom u" and "rp_addr_ok q u"
  shows "unat (rp_lba q u) < ud_fNBlock u"
proof -
  note g = rp_geom_limits [OF assms(1)]
  have a: "unat (pq_ca q) + 1 \<le> ud_fNCyl u" "unat (pq_ta q) + 1 \<le> ud_fNHead u" "unat (pq_sa q) < ud_fNSect u"
    using assms(2) by (simp_all add: rp_addr_ok_def)
  have "unat (pq_ta q) + ud_fNHead u * unat (pq_ca q) + 1 \<le> ud_fNHead u * (unat (pq_ca q) + 1)"
    using a(2) by simp
  also have "\<dots> \<le> ud_fNHead u * ud_fNCyl u"
    by (rule mult_le_mono2 [OF a(1)])
  finally have "ud_fNSect u * (unat (pq_ta q) + ud_fNHead u * unat (pq_ca q) + 1) \<le> ud_fNSect u * (ud_fNHead u * ud_fNCyl u)"
    by (rule mult_le_mono2)
  then have l: "unat (pq_sa q) + ud_fNSect u * (unat (pq_ta q) + ud_fNHead u * unat (pq_ca q)) < ud_fNBlock u"
    using a(3) g(8) by (simp add: algebra_simps)
  then show ?thesis
    using Chs2Lba_unat [of "pq_sa q" u "pq_ta q" "pq_ca q"] g(9) by (simp add: rp_lba_def)
qed

lemma rp_end:
  assumes "rp_geom u" and "rp_addr_ok q u" and "rp_request q"
  shows "rp_ovr q u \<longleftrightarrow> unat (pq_nwrd q) > rp_room q u" "unat (rp_nwrd q u) = min (unat (pq_nwrd q)) (rp_room q u)"
proof -
  note g = rp_geom_limits [OF assms(1)] and l = rp_lba_range [OF assms(1,2)] and wc = rp_wc_range [OF assms(3)]
  have nb: "Nwrd2Nblk (pq_nwrd q) u = of_nat (nblk_of 256 (unat (pq_nwrd q)))"
    using Nwrd2Nblk_eq [of u 256 "pq_nwrd q"] g(7) wc by simp
  have "nblk_of 256 (unat (pq_nwrd q)) \<le> 256"
    using wc by (simp add: nblk_le_iff)
  then have "unat (rp_lba q u + of_nat (nblk_of 256 (unat (pq_nwrd q)))) = unat (rp_lba q u) + nblk_of 256 (unat (pq_nwrd q))"
    using l g(9) by (simp add: unat_word_ariths unat_of_nat take_bit_nat_eq_self)
  moreover have "unat (rp_lba q u) + nblk_of 256 (unat (pq_nwrd q)) \<le> ud_fNBlock u \<longleftrightarrow> nblk_of 256 (unat (pq_nwrd q)) \<le> ud_fNBlock u - unat (rp_lba q u)"
    using l by auto
  ultimately show o: "rp_ovr q u \<longleftrightarrow> unat (pq_nwrd q) > rp_room q u"
    by (simp add: rp_ovr_def nb rp_room_def nblk_le_iff not_le [symmetric])
  have "(int (ud_fNBlock u) - uint (rp_lba q u)) * int (512 div 2) = int (rp_room q u)"
    using l by (simp add: rp_room_def of_nat_diff)
  moreover have "rp_room q u < 2 ^ 32"
    using g(9) by (simp add: rp_room_def)
  ultimately show "unat (rp_nwrd q u) = min (unat (pq_nwrd q)) (rp_room q u)"
    using o g(7) by (simp add: rp_nwrd_def unat_of_nat take_bit_nat_eq_self)
qed

section \<open>The registers after a transfer\<close>

lemma rp_da_fields:
  fixes ta sa ca :: u16
  assumes "unat ta < 2 ^ 5" and "unat sa < 2 ^ 6" and "unat ca < 2 ^ 10" and "da = push_bit kRPDA_V_TA ta OR sa"
  shows "da AND kRPDA_B_SA = sa" "drop_bit kRPDA_V_TA da AND kRPDA_B_TA = ta" "ca AND kRPDC_B_CA = ca"
proof -
  note l = bit_lim [OF assms(1)] bit_lim [OF assms(2)] bit_lim [OF assms(3)]
  note b = assms(4) dev_defs bit_simps bit_masks bit_cs
  show "da AND kRPDA_B_SA = sa" "drop_bit kRPDA_V_TA da AND kRPDA_B_TA = ta" "ca AND kRPDC_B_CA = ca"
    by (rule bit_word_eqI, auto simp: b dest: l)+
qed

lemma rp_addr_fields:
  fixes a :: u32
  assumes "even (unat a)"
  shows "push_bit 16 (ucast (ucast (drop_bit 16 a AND 0x3f) :: u16)) OR ucast (ucast (a AND 0xfffe) :: u16) = take_bit 22 a"
proof -
  have z: "Suc 0 \<le> i" if "bit a i" for i
    using assms odd_unat [of a] that by (cases i) (simp_all add: bit_0)
  show ?thesis
    by (rule bit_word_eqI) (auto simp: bit_simps bit_masks bit_cs dest: z)
qed

text \<open>The registers of a finished transfer of \<open>n\<close> words: word count advanced, bus address behind the transfer, disk address of the block
  behind the transfer, and the error bit \<open>kRPER1_M_AOE\<close> if the request went beyond the end of the disk.\<close>

definition rhrp_done :: "u16 \<Rightarrow> rp_req \<Rightarrow> nat \<Rightarrow> urhrp \<Rightarrow> (u16 \<times> u16) list \<Rightarrow> bool" where
  "rhrp_done base q n u xs =
     (\<exists>ba bae da dc. xs =
        [(base + kRPWC, pq_rpwc q + of_nat n), (base + kRPBA, ba), (base + kRPBAE, bae),
         (base + kRPCS1, push_bit kRPCS1_V_FUNC rp_kRFUNC_CUNIT), (base + kRPDA, da), (base + kRPDC, dc)] @
        (if rp_ovr q u then [(base + kRPER1, kRPER1_M_AOE)] else []) @ [(base + kRPCS1, push_bit kRPCS1_V_FUNC rp_kRFUNC_DONE)] \<and>
      (let q' = rp_decode 0 0 0 0 ba bae 0 da dc
       in pq_addr q' = take_bit 22 (pq_addr q + of_nat (2 * n)) \<and> unat (rp_lba q' u) = unat (rp_lba q u) + nblk_of 256 n))"

definition rp_accept :: "rp_req \<Rightarrow> rhrp \<Rightarrow> rhrp" where
  "rp_accept q c =
     (let u = rp_unit (pq_unum q) c
      in (rp_count (pq_rpcs3 q) c)\<lparr>rp_fRd_rpcs1 := pq_rpcs1 q, rp_fRd_rpcs2 := pq_rpcs2 q, rp_fRd_rpcs3 := pq_rpcs3 q, rp_fRd_rpwc := pq_rpwc q,
           rp_fRd_rpba := pq_rpba q, rp_fRd_rpbae := pq_rpbae q, rp_fRd_rpds := pq_rpds q, rp_fRd_rpda := pq_rpda q, rp_fRd_rpdc := pq_rpdc q,
           rp_fRd_addr := pq_addr q, rp_fRd_lba := rp_lba q u, rp_fRd_nwrd := rp_nwrd q u, rp_fRd_fu := pq_fu q, rp_fRd_ovr := rp_ovr q u\<rparr>)"

lemma rp_inc_simps:
  "rp_inv p (rp_inc x c) = rp_inv p c" "rp_unit i (rp_inc x c) = rp_unit i c" "rp_fRd_fu (rp_inc x c) = rp_fRd_fu c" "cc_fBase (rp_inc x c) = cc_fBase c"
  "rp_AddNormalExit (rp_inc x c) = rp_AddNormalExit c" "rp_fspUnit (rp_inc x c) = rp_fspUnit c"
  by (auto simp: rp_inv_def rp_inc_def rp_unit_def rp_AddNormalExit_def Let_def fun_eq_iff)

lemma rp_count_simps: "cc_fBase (rp_count x c) = cc_fBase c" "rp_fspUnit (rp_count x c) = rp_fspUnit c"
  by (simp_all add: rp_count_def rp_inc_simps)

lemma rp_accept_simps:
  "rp_inv p (rp_accept q c) = rp_inv p c" "rp_unit i (rp_accept q c) = rp_unit i c" "rp_fRd_fu (rp_accept q c) = pq_fu q"
  "cc_fBase (rp_accept q c) = cc_fBase c" "rp_fspUnit (rp_accept q c) = rp_fspUnit c"
  by (simp_all add: rp_accept_def rp_inv_def rp_unit_def Let_def rp_count_simps)

lemma rp_exit_done:
  assumes g: "rp_geom (rp_unit (pq_unum q) c)" and "rp_addr_ok q (rp_unit (pq_unum q) c)" and "rp_request q"
    and n: "unat (rp_lba q (rp_unit (pq_unum q) c)) + nblk_of 256 n \<le> ud_fNBlock (rp_unit (pq_unum q) c)" "n \<le> 2 ^ 16" and e: "even (unat (pq_addr q))"
  shows "rhrp_done (cc_fBase c) q n (rp_unit (pq_unum q) c) (rp_AddNormalExit (rp_accept q c) n 0 0)"
proof -
  let ?u = "rp_unit (pq_unum q) c"
  let ?a = "pq_addr q + of_nat (2 * n)"
  let ?lba = "rp_lba q ?u + of_nat (nblk_of 256 n)"
  note gl = rp_geom_limits [OF g]
  have lba: "unat ?lba = unat (rp_lba q ?u) + nblk_of 256 n"
    using n(1) gl(9) by (simp add: unat_word_ariths unat_of_nat take_bit_nat_eq_self)
  obtain ca ta sa where chs: "Lba2Chs ?lba ?u = (ca, ta, sa)"
    by (cases "Lba2Chs ?lba ?u") auto
  have "unat ?lba \<le> ud_fNCyl ?u * (ud_fNSect ?u * ud_fNHead ?u)"
    using lba n(1) gl(8) by (simp add: ac_simps)
  then have "unat ?lba div (ud_fNSect ?u * ud_fNHead ?u) \<le> ud_fNCyl ?u * (ud_fNSect ?u * ud_fNHead ?u) div (ud_fNSect ?u * ud_fNHead ?u)"
    by (rule div_le_mono)
  then have cy: "unat ?lba div (ud_fNSect ?u * ud_fNHead ?u) < 1023"
    using gl(2,3,5) by simp
  have ok: "geom_ok ?u" "unat ?lba div (ud_fNSect ?u * ud_fNHead ?u) < 2 ^ 16"
    using gl cy by (simp_all add: geom_ok_def)
  note f = Lba2Chs_fields [OF ok chs]
  have b: "unat ta < 2 ^ 5" "unat sa < 2 ^ 6" "unat ca < 2 ^ 10"
    unfolding f using cy less_le_trans [OF mod_less_divisor [OF gl(3)] gl(4)] less_le_trans [OF mod_less_divisor [OF gl(5)] gl(6)]
    by (simp_all add: less_trans [of _ 50 64])
  define da where "da = push_bit kRPDA_V_TA ta OR sa"
  note d = rp_da_fields [OF b da_def]
  have "unat (of_nat n :: u32) = n"
    using n(2) by (simp add: unat_of_nat take_bit_nat_eq_self)
  then have nb: "Nwrd2Nblk (of_nat n) ?u = of_nat (nblk_of 256 n)"
    using Nwrd2Nblk_eq [of ?u 256 "of_nat n"] gl(7) n(2) by simp
  have un: "rp_unum (pq_rpcs2 q) = pq_unum q"
    using assms(3) by (auto simp: rp_request_def rp_decode_def)
  have c: "rp_fRd_rpcs2 (rp_accept q c) = pq_rpcs2 q" "rp_fRd_rpwc (rp_accept q c) = pq_rpwc q" "rp_fRd_lba (rp_accept q c) = rp_lba q ?u"
    "rp_fRd_addr (rp_accept q c) = pq_addr q" "rp_fRd_ovr (rp_accept q c) = rp_ovr q ?u"
    by (simp_all add: rp_accept_def Let_def)
  let ?ba = "ucast (?a AND 0xfffe) :: u16" and ?bae = "ucast (drop_bit 16 ?a AND 0x3f) :: u16"
  have regs: "rp_AddNormalExit (rp_accept q c) n 0 0 =
      [(cc_fBase c + kRPWC, pq_rpwc q + of_nat n), (cc_fBase c + kRPBA, ?ba), (cc_fBase c + kRPBAE, ?bae),
         (cc_fBase c + kRPCS1, push_bit kRPCS1_V_FUNC rp_kRFUNC_CUNIT), (cc_fBase c + kRPDA, da), (cc_fBase c + kRPDC, ca)] @
        (if rp_ovr q ?u then [(cc_fBase c + kRPER1, kRPER1_M_AOE)] else []) @ [(cc_fBase c + kRPCS1, push_bit kRPCS1_V_FUNC rp_kRFUNC_DONE)]"
    unfolding rp_AddNormalExit_def Let_def c un rp_accept_simps nb chs da_def by (simp add: kRPER1_M_AOE_def)
  have "odd ?a = odd (pq_addr q)"
    by simp
  then have ev: "even (unat ?a)"
    using e odd_unat [of ?a] odd_unat [of "pq_addr q"] by simp
  have "pq_addr (rp_decode 0 0 0 0 ?ba ?bae 0 da ca) = take_bit 22 ?a"
    unfolding rp_decode_def rp_req.simps by (rule rp_addr_fields [OF ev])
  moreover have "rp_lba (rp_decode 0 0 0 0 ?ba ?bae 0 da ca) ?u = ?lba"
    using Chs_Lba [OF ok chs] d by (simp add: rp_lba_def rp_decode_def)
  ultimately show ?thesis
    using regs lba unfolding rhrp_done_def Let_def by metis
qed

section \<open>Disk read and disk write\<close>

text \<open>A started and idle controller, a request with a valid disk address, memory that exists for the words up to the end of the disk.\<close>

definition rp_setup :: "u16 \<Rightarrow> cpu \<Rightarrow> nat \<Rightarrow> nat \<Rightarrow> rp_req \<Rightarrow> rdmadisk \<Rightarrow> rhrp \<Rightarrow> cpport \<Rightarrow> bool" where
  "rp_setup fu p bm b q r c d =
     (let u = rp_unit (pq_unum q) c
      in rp_request q \<and> pq_fu q = fu \<and> pq_rpcs1 q AND kRPCS1_M_RDY = 0 \<and> rp_addr_ok q u \<and> rp_inv p c \<and> length (rp_fspUnit c) = rp_NUnit \<and>
         \<not> rd_IsActive r \<and> chunk_cfg bm b r \<and> rp_geom u \<and> disk_ready 512 u \<and> in22 (pq_addr q) (min (unat (pq_nwrd q)) (rp_room q u)) d \<and> word_mode d)"

lemma rp_unum_less: "rp_unum x < rp_NUnit"
proof -
  have "unat (x AND kRPCS2_B_UNIT) \<le> unat kRPCS2_B_UNIT"
    using word_and_le1 [of x kRPCS2_B_UNIT] word_and_le2 [of x kRPCS2_B_UNIT] by (simp add: word_le_nat_alt)
  then show ?thesis
    by (simp add: rp_unum_def dev_defs rp_NUnit_def)
qed

lemma rp_request_unum: "rp_request q \<Longrightarrow> pq_unum q < rp_NUnit"
  using rp_unum_less by (auto simp: rp_request_def rp_decode_def)

lemma rp_chain_end:
  assumes "rp_fRd_fu c \<noteq> rp_kFUNC_WCD" and "labo_seen (rp_ext p n c) 3 l" and "rp_inv p c" and "same_unit (rp_unit i c) u'"
  shows "rc_PostExecCB (rp_cbs k p) kStatusDone n l 3 r (rp_put i u' c, d) = Inr (r, (rp_put i u' c, d))"
proof -
  have "rp_ext p n (rp_put i u' c) = rp_ext p n c" "rp_fRd_fu (rp_put i u' c) = rp_fRd_fu c"
    using rpd.put_inv [OF assms(3,4)] by (simp_all add: rp_put_def)
  then show ?thesis
    using assms(1,2) by (auto simp: rp_cbs_def rp_RdmaPostExecCB_def rp_ext_def labo_seen_def Let_def)
qed

lemma rp_handle_accept:
  assumes "rp_request q" and "pq_rpcs1 q AND kRPCS1_M_RDY = 0" and "\<not> rd_IsActive r" and "ud_fupVirt (rp_unit (pq_unum q) c) \<noteq> None"
    and "\<not> rp_badaddr q (rp_unit (pq_unum q) c)"
  shows "rp_handle k h p q r (c, d) =
    rp_func k h p q (rp_lba q (rp_unit (pq_unum q) c)) (rp_nwrd q (rp_unit (pq_unum q) c)) r (rp_accept q c, d)"
  using assms rp_request_unum [OF assms(1)] by (auto simp: rp_handle_def Let_def rp_accept_def)

lemma rp_queued:
  assumes st: "rp_setup fu p bm b q r c d" and fu: "fu = rp_kFUNC_READ \<or> fu = rp_kFUNC_WRITE \<and> \<not> ud_fWProt (rp_unit (pq_unum q) c)"
    and i: "i = pq_unum q" and n: "n = min (unat (pq_nwrd q)) (rp_room q (rp_unit i c))"
  shows "\<exists>r1 c1. rp_handle (cp_link (cp_fBase p) bm b) h p q r (c, d) = Inr (r1, c1, d) \<and>
    dma_set (fu \<noteq> rp_kFUNC_WRITE) (pq_addr q) n kCPAH_M_22BIT (unat (rp_lba q (rp_unit i c))) i (if fu = rp_kFUNC_WRITE then kFuncWrite else kFuncRead) 512 r1 \<and>
    chunk_ok bm r1 \<and> rp_inv p c1 \<and> rp_fspUnit c1 = rp_fspUnit c \<and> rp_fRd_fu c1 = fu \<and> 0 < n \<and>
    unat (rp_lba q (rp_unit i c)) + nblk_of 256 n \<le> 2 ^ 32 \<and> rhrp_done (cc_fBase c) q n (rp_unit i c) (rp_AddNormalExit c1 n 0 0)"
proof -
  let ?k = "cp_link (cp_fBase p) bm b"
  let ?u = "rp_unit i c"
  let ?lba = "rp_lba q ?u"
  have g: "rp_request q" "pq_fu q = fu" "pq_rpcs1 q AND kRPCS1_M_RDY = 0" "rp_addr_ok q ?u" "rp_inv p c" "\<not> rd_IsActive r" "chunk_cfg bm b r" "rp_geom ?u"
    "ud_fupVirt ?u \<noteq> None" "even (unat (pq_addr q))"
    using st by (auto simp: rp_setup_def Let_def i disk_ready_def in22_def)
  have ne: "rp_kFUNC_READ \<noteq> rp_kFUNC_WRITE" "rp_kFUNC_READ \<noteq> rp_kFUNC_WCD"
    by (simp_all add: dev_defs)
  note l = rp_lba_range [OF g(8,4)] and wc = rp_wc_range [OF g(1)] and gl = rp_geom_limits [OF g(8)]
  have nw: "unat (rp_nwrd q ?u) = n"
    using rp_end(2) [OF g(8,4,1)] by (simp add: n)
  have n0: "0 < n" "n \<le> 2 ^ 16" "n \<le> (ud_fNBlock ?u - unat ?lba) * 256"
    using wc l by (auto simp: n rp_room_def)
  then have nb: "unat ?lba + nblk_of 256 n \<le> ud_fNBlock ?u"
    using l nblk_le_iff [of 256 n "ud_fNBlock ?u - unat ?lba"] by simp
  let ?st = "if fu = rp_kFUNC_WRITE then rpStatNFuncWrite else rpStatNFuncRead"
  let ?c = "rp_inc ?st (rp_accept q c)"
  have bs: "ud_fBlksize (du_get (rp_dunits ?k p) i (?c, d)) = 512"
    using gl(7) by (simp add: rp_dunits_def rp_accept_simps rp_inc_simps)
  have "\<not> rp_badaddr q ?u"
    using g(4) by (simp add: rp_badaddr_def rp_addr_ok_def)
  then have h: "rp_handle ?k h p q r (c, d) = rp_func ?k h p q ?lba (rp_nwrd q ?u) r (rp_accept q c, d)"
    using rp_handle_accept [OF g(1,3,6)] g(9) by (simp add: i)
  have "\<exists>r1. rp_handle ?k h p q r (c, d) = Inr (r1, (?c, d)) \<and>
      dma_set (fu \<noteq> rp_kFUNC_WRITE) (pq_addr q) n kCPAH_M_22BIT (unat ?lba) i (if fu = rp_kFUNC_WRITE then kFuncWrite else kFuncRead) 512 r1 \<and> chunk_ok bm r1"
  proof (cases "fu = rp_kFUNC_WRITE")
    case True
    then have "\<not> ud_fWProt (rp_unit (pq_unum q) c)"
      using fu ne by auto
    then show ?thesis
      using Queue_ok(2) [OF g(6,7) bs, of p h "pq_addr q" n kCPAH_M_22BIT ?lba] True g(2)
      unfolding h by (auto simp: rp_func_def Let_def rp_accept_simps rp_inc_simps i [symmetric] nw dma_link_def)
  next
    case False
    then show ?thesis
      using Queue_ok(1) [OF g(6,7) bs, of p h "pq_addr q" n kCPAH_M_22BIT ?lba] fu g(2) ne
      unfolding h by (auto simp: rp_func_def Let_def rp_accept_simps rp_inc_simps i [symmetric] nw dma_link_def)
  qed
  moreover have "rhrp_done (cc_fBase c) q n ?u (rp_AddNormalExit ?c n 0 0)"
    using rp_exit_done [of q c n] g(1,4,8,10) nb n0(2) by (simp add: rp_inc_simps i)
  ultimately show ?thesis
    using g(2,5) n0(1) nb gl(9) by (fastforce simp: rp_accept_simps rp_inc_simps)
qed

text \<open>C17: A disk read of the RHRP, for every drive type, works from the register values to the final register writes: the request is queued,
  the calls of the DMA handler end, and leave in memory, at any address of the 22 bit memory, the words of the disk from the requested block on,
  as many as the word count asks for but none beyond the end of the disk; nothing else of memory changes; the registers are left behind the
  transfer, with an error exactly if the request went beyond the end of the disk; no disk is changed and the controller is idle again.\<close>

theorem rhrp_read:
  assumes "rp_setup rp_kFUNC_READ p bm b q r c d" and u: "u = rp_unit (pq_unum q) c" and n: "n = min (unat (pq_nwrd q)) (rp_room q u)"
  shows "\<exists>r1 c1 r2 c2 d2 xs. rp_handle (cp_link (cp_fBase p) bm b) h p q r (c, d) = Inr (r1, c1, d) \<and>
    rdma_chain (rp_RdmaHandler (cp_link (cp_fBase p) bm b) p) r1 (c1, d) = Some (Inr (r2, c2, d2)) \<and> \<not> rd_IsActive r2 \<and>
    cb_mem d2 = wr_words (unat (pq_addr q)) (take n (pairs (disk_bytes (unit_blk u) (unat (rp_lba q u)) (nblk_of 256 n)))) (cb_mem d) \<and>
    cb_log d2 = cb_log d @ remote p xs \<and> rhrp_done (cc_fBase c) q n u xs \<and>
    (\<forall>j < rp_NUnit. unit_blk (rp_unit j c2) = unit_blk (rp_unit j c))"
proof -
  let ?k = "cp_link (cp_fBase p) bm b"
  let ?i = "pq_unum q"
  have g: "disk_ready 512 u" "in22 (pq_addr q) n d" "word_mode d"
    using assms(1) by (simp_all add: rp_setup_def Let_def u n)
  have ne: "rp_kFUNC_READ \<noteq> rp_kFUNC_WRITE" "rp_kFUNC_READ \<noteq> rp_kFUNC_WCD"
    by (simp_all add: dev_defs)
  from rp_queued [OF assms(1) disjI1 [OF refl] refl n [unfolded u], of h] ne obtain r1 c1 where
    1: "rp_handle ?k h p q r (c, d) = Inr (r1, c1, d)"
      "dma_set True (pq_addr q) n kCPAH_M_22BIT (unat (rp_lba q u)) ?i kFuncRead 512 r1" "chunk_ok bm r1" "rp_inv p c1" "rp_fspUnit c1 = rp_fspUnit c"
      "rp_fRd_fu c1 = rp_kFUNC_READ" "0 < n" "unat (rp_lba q u) + nblk_of (512 div 2) n \<le> 2 ^ 32" "rhrp_done (cc_fBase c) q n u (rp_AddNormalExit c1 n 0 0)"
    by (auto simp: u)
  have uc: "rp_unit j c1 = rp_unit j c" for j
    using 1(5) by (simp add: rp_unit_def)
  from rpd.read_chain [OF 1(2,7,8) _ 1(4,3) mode22(1), of d b bm b] obtain l' d' r6 u' where
    2: "rdma_chain (RdmaHandler (dma_link p bm b) (rp_cbs ?k p) p) r1 (c1, d) =
      Some (ebind (rc_PostExecCB (rp_cbs ?k p) kStatusDone n l' 3 r6 (rp_put ?i u' c1, d')) (\<lambda>(r7, s5). Inr (r7\<lparr>rd_fStatus := kStatusDone\<rparr>, s5)))"
      "labo_seen (rp_ext p n c1) 3 l'" "same_unit u u'" "unit_blk u' = unit_blk u"
      "mem_upd (wr_words (unat (pq_addr q)) (take n (pairs (disk_bytes (unit_blk u) (unat (rp_lba q u)) (nblk_of 256 n)))) (cb_mem d))
        (d\<lparr>cb_log := cb_log d @ ext_log (rp_ext p n c1)\<rparr>) d'"
    using g by (auto simp: uc u)
  have wc: "rp_fRd_fu c1 \<noteq> rp_kFUNC_WCD"
    using 1(6) ne by simp
  have "rc_PostExecCB (rp_cbs ?k p) kStatusDone n l' 3 r6 (rp_put ?i u' c1, d') = Inr (r6, (rp_put ?i u' c1, d'))"
    using rp_chain_end [OF wc 2(2) 1(4)] 2(3) by (simp add: uc u)
  then have "rdma_chain (rp_RdmaHandler ?k p) r1 (c1, d) = Some (Inr (r6\<lparr>rd_fStatus := kStatusDone\<rparr>, rp_put ?i u' c1, d'))"
    using 2(1) by (simp add: rp_RdmaHandler_def dma_link_def)
  moreover have "unit_blk (rp_unit j (rp_put ?i u' c1)) = unit_blk (rp_unit j c)" for j
    using 2(4) by (simp add: rp_unit_put uc u)
  moreover have "cb_log d' = cb_log d @ remote p (rp_AddNormalExit c1 n 0 0)"
    using 2(5) wc by (simp add: mem_upd_def rp_ext_def ext_log_def)
  ultimately show ?thesis
    using 1(1,9) 2(5)
    by (intro exI [of _ r1] exI [of _ c1] exI [of _ "r6\<lparr>rd_fStatus := kStatusDone\<rparr>"]
        exI [of _ "rp_put ?i u' c1"] exI [of _ d'] exI [of _ "rp_AddNormalExit c1 n 0 0"]) (simp add: rd_IsActive_def mem_upd_def)
qed

text \<open>C18: A disk write of the RHRP to a drive that is not write protected works in the same way: the words of memory, up to the end of the disk,
  are on the disk, the last block filled with 0xdead; every other block, every other disk and memory are as before.\<close>

theorem rhrp_write:
  assumes "rp_setup rp_kFUNC_WRITE p bm b q r c d" and u: "u = rp_unit (pq_unum q) c" and wp: "\<not> ud_fWProt u"
    and n: "n = min (unat (pq_nwrd q)) (rp_room q u)"
  shows "\<exists>r1 c1 r2 c2 d2 xs. rp_handle (cp_link (cp_fBase p) bm b) h p q r (c, d) = Inr (r1, c1, d) \<and>
    rdma_chain (rp_RdmaHandler (cp_link (cp_fBase p) bm b) p) r1 (c1, d) = Some (Inr (r2, c2, d2)) \<and> \<not> rd_IsActive r2 \<and>
    cb_mem d2 = cb_mem d \<and> cb_log d2 = cb_log d @ remote p xs \<and> rhrp_done (cc_fBase c) q n u xs \<and>
    arr_eq (unit_blk (rp_unit (pq_unum q) c2)) (put_disk 512 (unat (rp_lba q u)) (rd_words (unat (pq_addr q)) n (cb_mem d)) (unit_blk u)) \<and>
    (\<forall>j < rp_NUnit. j \<noteq> pq_unum q \<longrightarrow> rp_unit j c2 = rp_unit j c)"
proof -
  let ?k = "cp_link (cp_fBase p) bm b"
  let ?i = "pq_unum q"
  have g: "disk_ready 512 u" "in22 (pq_addr q) n d" "word_mode d" "length (rp_fspUnit c) = rp_NUnit" "rp_request q"
    using assms(1) by (simp_all add: rp_setup_def Let_def u n)
  from rp_queued [OF assms(1) disjI2 refl n [unfolded u], of h] wp obtain r1 c1 where
    1: "rp_handle ?k h p q r (c, d) = Inr (r1, c1, d)"
      "dma_set False (pq_addr q) n kCPAH_M_22BIT (unat (rp_lba q u)) ?i kFuncWrite 512 r1" "chunk_ok bm r1" "rp_inv p c1" "rp_fspUnit c1 = rp_fspUnit c"
      "rp_fRd_fu c1 = rp_kFUNC_WRITE" "0 < n" "unat (rp_lba q u) + nblk_of (512 div 2) n \<le> 2 ^ 32" "rhrp_done (cc_fBase c) q n u (rp_AddNormalExit c1 n 0 0)"
    by (auto simp: u)
  have uc: "rp_unit j c1 = rp_unit j c" for j
    using 1(5) by (simp add: rp_unit_def)
  from rpd.write_chain [OF 1(2,7,8) _ 1(4,3) mode22(1), of d b bm b] obtain l' d' r6 u' where
    2: "rdma_chain (RdmaHandler (dma_link p bm b) (rp_cbs ?k p) p) r1 (c1, d) =
      Some (ebind (rc_PostExecCB (rp_cbs ?k p) kStatusDone n l' 3 r6 (rp_put ?i u' c1, d')) (\<lambda>(r7, s5). Inr (r7\<lparr>rd_fStatus := kStatusDone\<rparr>, s5)))"
      "labo_seen (rp_ext p n c1) 3 l'" "same_unit u u'"
      "arr_eq (unit_blk u') (put_disk 512 (unat (rp_lba q u)) (rd_words (unat (pq_addr q)) n (cb_mem d)) (unit_blk u))"
      "mem_upd (cb_mem d) (d\<lparr>cb_log := cb_log d @ ext_log (rp_ext p n c1)\<rparr>) d'"
    using g(1-3) by (auto simp: uc u)
  have wc: "rp_fRd_fu c1 \<noteq> rp_kFUNC_WCD"
    using 1(6) by (simp add: dev_defs)
  have "rc_PostExecCB (rp_cbs ?k p) kStatusDone n l' 3 r6 (rp_put ?i u' c1, d') = Inr (r6, (rp_put ?i u' c1, d'))"
    using rp_chain_end [OF wc 2(2) 1(4)] 2(3) by (simp add: uc u)
  then have "rdma_chain (rp_RdmaHandler ?k p) r1 (c1, d) = Some (Inr (r6\<lparr>rd_fStatus := kStatusDone\<rparr>, rp_put ?i u' c1, d'))"
    using 2(1) by (simp add: rp_RdmaHandler_def dma_link_def)
  moreover have "rp_unit ?i (rp_put ?i u' c1) = u'"
    using g(4) rp_request_unum [OF g(5)] by (simp add: rp_unit_put 1(5))
  moreover have "rp_unit j (rp_put ?i u' c1) = rp_unit j c" if "j \<noteq> ?i" for j
    using that by (simp add: rp_unit_put uc)
  moreover have "cb_log d' = cb_log d @ remote p (rp_AddNormalExit c1 n 0 0)"
    using 2(5) wc by (simp add: mem_upd_def rp_ext_def ext_log_def)
  ultimately show ?thesis
    using 1(1,9) 2(4,5)
    by (intro exI [of _ r1] exI [of _ c1] exI [of _ "r6\<lparr>rd_fStatus := kStatusDone\<rparr>"]
        exI [of _ "rp_put ?i u' c1"] exI [of _ d'] exI [of _ "rp_AddNormalExit c1 n 0 0"]) (simp add: rd_IsActive_def mem_upd_def)
qed

section \<open>What the check of the disk address lets pass\<close>

text \<open>C19: The check of the disk address is off by one: a read with the cylinder number one behind the last cylinder, and not at its very
  first block, is accepted. The block number is behind the end of the disk, the number of words up to the end of the disk wraps around, and
  a transfer of nearly \<open>2 ^ 32\<close> words is queued.\<close>

theorem rhrp_bad_address:
  assumes "rp_request q" and "pq_fu q = rp_kFUNC_READ" and "pq_rpcs1 q AND kRPCS1_M_RDY = 0" and "\<not> rd_IsActive r" and "chunk_cfg bm b r"
    and u: "u = rp_unit (pq_unum q) c" and "rp_geom u" and "ud_fupVirt u \<noteq> None"
    and ca: "unat (pq_ca q) = ud_fNCyl u" and ta: "unat (pq_ta q) < ud_fNHead u" and sa: "unat (pq_sa q) < ud_fNSect u"
    and m: "m = unat (pq_sa q) + ud_fNSect u * unat (pq_ta q)" and "0 < m"
  shows "\<exists>r1 c1. rp_handle (cp_link (cp_fBase p) bm b) h p q r (c, d) = Inr (r1, c1, d) \<and>
    dma_set True (pq_addr q) (2 ^ 32 - 256 * m) kCPAH_M_22BIT (ud_fNBlock u + m) (pq_unum q) kFuncRead 512 r1"
proof -
  let ?k = "cp_link (cp_fBase p) bm b"
  note g = rp_geom_limits [OF assms(7)]
  have "ud_fNSect u * unat (pq_ta q) + unat (pq_sa q) \<le> 50 * 32 + 50"
    using g(4,6) ta sa by (intro add_mono mult_mono) simp_all
  then have m2: "m \<le> 1650"
    by (simp add: m)
  have "unat (pq_sa q) + ud_fNSect u * (unat (pq_ta q) + ud_fNHead u * unat (pq_ca q)) = ud_fNBlock u + m"
    by (simp add: m ca g(8) algebra_simps)
  then have lba: "unat (rp_lba q u) = ud_fNBlock u + m"
    using Chs2Lba_unat [of "pq_sa q" u "pq_ta q" "pq_ca q"] g(9) m2 by (simp add: rp_lba_def)
  have nb: "Nwrd2Nblk (pq_nwrd q) u = of_nat (nblk_of 256 (unat (pq_nwrd q)))"
    using Nwrd2Nblk_eq [of u 256 "pq_nwrd q"] g(7) rp_wc_range [OF assms(1)] by simp
  have "nblk_of 256 (unat (pq_nwrd q)) \<le> 256"
    using rp_wc_range [OF assms(1)] by (simp add: nblk_le_iff)
  then have ovr: "rp_ovr q u"
    using lba g(9) m2 assms(13) by (simp add: rp_ovr_def nb unat_word_ariths unat_of_nat take_bit_nat_eq_self)
  have "rp_lba q u = of_nat (ud_fNBlock u + m)"
    using arg_cong [OF lba, of "of_nat :: nat \<Rightarrow> u32"] by simp
  then have "rp_nwrd q u = - of_nat (256 * m)"
    using ovr g(7) by (simp add: rp_nwrd_def algebra_simps)
  then have nw: "unat (rp_nwrd q u) = 2 ^ 32 - 256 * m"
  proof -
    have "- of_nat (256 * m) = (of_nat (2 ^ 32 - 256 * m) :: u32)"
      using m2 by (simp add: of_nat_diff)
    then show ?thesis
      using \<open>rp_nwrd q u = - of_nat (256 * m)\<close> assms(13) by (simp only: unat_of_nat) (simp add: take_bit_nat_eq_self)
  qed
  have ne: "rp_kFUNC_READ \<noteq> rp_kFUNC_WRITE" "rp_kFUNC_READ \<noteq> rp_kFUNC_WCD"
    by (simp_all add: dev_defs)
  have "\<not> rp_badaddr q u"
    using ca ta sa by (simp add: rp_badaddr_def)
  then have h: "rp_handle ?k h p q r (c, d) = rp_func ?k h p q (rp_lba q u) (rp_nwrd q u) r (rp_accept q c, d)"
    using rp_handle_accept [OF assms(1,3,4)] assms(8) by (simp add: u)
  have bs: "ud_fBlksize (du_get (rp_dunits ?k p) (pq_unum q) (rp_inc rpStatNFuncRead (rp_accept q c), d)) = 512"
    using g(7) by (simp add: rp_dunits_def rp_accept_simps rp_inc_simps u)
  show ?thesis
    using Queue_ok(1) [OF assms(4,5) bs, of p h "pq_addr q" "2 ^ 32 - 256 * m" kCPAH_M_22BIT "rp_lba q u"] assms(2) ne
    unfolding h by (auto simp: rp_func_def Let_def nw lba dma_link_def)
qed

section \<open>An example\<close>

text \<open>An RP06. A request for 512 words at the last block, of which 256 are within the disk, and a request behind the last cylinder.\<close>

definition demo_rp_unit :: "nat \<Rightarrow> urhrp" where
  "demo_rp_unit i = (urhrp_new i)\<lparr>ud_fType := ''rp06'', ud_fEnabled := True, ud_fNCyl := 815, ud_fNHead := 19, ud_fNSect := 22, ud_fNBlock := 340670,
     up_fRpdt := kDTE_RP06, ud_fupVirt := Some (ADRam (diskram_new\<lparr>vd_fBlkSize := 512, vd_fNBlock := 340670, vd_fNCyl := 815, vd_fNHead := 19, vd_fNSect := 22\<rparr>))\<rparr>"

definition demo_rp :: rhrp where
  "demo_rp = rhrp_new\<lparr>cc_fBase := 0xfdc0, rp_fspUnit := map demo_rp_unit [0, 1, 2, 3]\<rparr>"

definition demo_rp_req :: "u16 \<Rightarrow> u16 \<Rightarrow> u16 \<Rightarrow> rp_req" where
  "demo_rp_req cs da dc = rp_decode cs 1 0 0xfe00 0x1000 0 0 da dc"

lemma demo_rp_decode: "pq_rpcs1 (demo_rp_req cs da dc) = cs" "pq_nwrd (demo_rp_req cs da dc) = 512" "pq_addr (demo_rp_req cs da dc) = 0x1000"
    "pq_sa (demo_rp_req cs 0x1215 dc) = 21" "pq_ta (demo_rp_req cs 0x1215 dc) = 18" "pq_ca (demo_rp_req cs da 814) = 814"
    "pq_sa (demo_rp_req cs 0x100 dc) = 0" "pq_ta (demo_rp_req cs 0x100 dc) = 1" "pq_ca (demo_rp_req cs da 815) = 815"
    "pq_unum (demo_rp_req cs da dc) = 1" "pq_fu (demo_rp_req 0x38 da dc) = rp_kFUNC_READ" "pq_fu (demo_rp_req 0x30 da dc) = rp_kFUNC_WRITE"
  by (auto simp: demo_rp_req_def rp_decode_def rp_unum_def dev_defs)

lemma demo_rp_request: "rp_request (demo_rp_req cs da dc)"
  unfolding rp_request_def demo_rp_req_def by blast

lemma demo_rp_units: "rp_unit 1 demo_rp = demo_rp_unit 1" "rp_unit (Suc 0) demo_rp = demo_rp_unit 1" "length (rp_fspUnit demo_rp) = rp_NUnit" "cc_fBase demo_rp = 0xfdc0"
  by (simp_all add: rp_unit_def demo_rp_def rp_NUnit_def)

lemma demo_rp_disk: "disk_ready 512 (demo_rp_unit i)" "rp_geom (demo_rp_unit i)" "\<not> ud_fWProt (demo_rp_unit i)" "ud_fNSect (demo_rp_unit i) = 22"
    "ud_fNHead (demo_rp_unit i) = 19" "ud_fNCyl (demo_rp_unit i) = 815" "ud_fNBlock (demo_rp_unit i) = 340670" "ud_fupVirt (demo_rp_unit i) \<noteq> None"
  by (simp_all add: disk_ready_def demo_rp_unit_def urhrp_new_def udisk.defs udisk_new_def ad_inv_def ram_inv_def diskram_new_def bm_inv_def rp_geom_def rp_geometry_def)

lemma demo_rp_inv: "rp_inv demo_cpu demo_rp"
  by (simp add: rp_inv_def rp_regs_def demo_rp_def demo_cpu_def cpu_new_def IbusRemoteAddr_def dev_defs dev_reg_def ibaddr_bad_def ext_reg_def cpu_defs)

lemma demo_rp_lba: "unat (rp_lba (demo_rp_req cs 0x1215 814) (demo_rp_unit i)) = 340669" "rp_room (demo_rp_req cs 0x1215 814) (demo_rp_unit i) = 256"
    "nblk_of 256 256 = 1" "cb_mem (demo_port n) = (\<lambda>_. 0)" "cb_log (demo_port n) = []"
  by (simp_all add: rp_lba_def rp_room_def demo_rp_decode Chs2Lba_def demo_rp_unit_def urhrp_new_def udisk.defs udisk_new_def nblk_of_def demo_port_def)

lemma demo_rp_idle: "\<not> rd_IsActive rdmadisk_new" "chunk_cfg 1000 100 rdmadisk_new"
  by (simp_all add: rd_IsActive_def rdmadisk_new_def rdma.defs rdma_new_def chunk_cfg_def)

lemma demo_rp_setup: "rp_setup rp_kFUNC_READ demo_cpu 1000 100 (demo_rp_req 0x38 0x1215 814) rdmadisk_new demo_rp (demo_port 0x10000)"
    "rp_setup rp_kFUNC_WRITE demo_cpu 1000 100 (demo_rp_req 0x30 0x1215 814) rdmadisk_new demo_rp (demo_port 0x10000)"
  by (simp_all add: rp_setup_def Let_def demo_rp_decode demo_rp_request demo_rp_units demo_rp_disk demo_rp_inv demo_rp_lba demo_rp_idle rp_addr_ok_def
      in22_def io22_def word_mode_def demo_port_def dev_defs)

theorem rhrp_read_witness:
  "\<exists>r1 c1 r2 c2 d2 xs. rp_handle (cp_link (cp_fBase demo_cpu) 1000 100) 7 demo_cpu (demo_rp_req 0x38 0x1215 814) rdmadisk_new (demo_rp, demo_port 0x10000) = Inr (r1, c1, demo_port 0x10000) \<and>
    rdma_chain (rp_RdmaHandler (cp_link (cp_fBase demo_cpu) 1000 100) demo_cpu) r1 (c1, demo_port 0x10000) = Some (Inr (r2, c2, d2)) \<and> \<not> rd_IsActive r2 \<and>
    cb_mem d2 = wr_words 0x1000 (take 256 (pairs (disk_bytes (unit_blk (demo_rp_unit 1)) 340669 1))) (\<lambda>_. 0) \<and>
    cb_log d2 = remote demo_cpu xs \<and> rhrp_done 0xfdc0 (demo_rp_req 0x38 0x1215 814) 256 (demo_rp_unit 1) xs \<and>
    (\<forall>j < rp_NUnit. unit_blk (rp_unit j c2) = unit_blk (rp_unit j demo_rp))"
  using rhrp_read [OF demo_rp_setup(1) refl refl, of 7] by (simp add: demo_rp_decode demo_rp_units demo_rp_lba del: One_nat_def)

theorem rhrp_write_witness:
  "\<exists>r1 c1 r2 c2 d2 xs. rp_handle (cp_link (cp_fBase demo_cpu) 1000 100) 7 demo_cpu (demo_rp_req 0x30 0x1215 814) rdmadisk_new (demo_rp, demo_port 0x10000) = Inr (r1, c1, demo_port 0x10000) \<and>
    rdma_chain (rp_RdmaHandler (cp_link (cp_fBase demo_cpu) 1000 100) demo_cpu) r1 (c1, demo_port 0x10000) = Some (Inr (r2, c2, d2)) \<and> \<not> rd_IsActive r2 \<and>
    cb_mem d2 = (\<lambda>_. 0) \<and> cb_log d2 = remote demo_cpu xs \<and> rhrp_done 0xfdc0 (demo_rp_req 0x30 0x1215 814) 256 (demo_rp_unit 1) xs \<and>
    arr_eq (unit_blk (rp_unit 1 c2)) (put_disk 512 340669 (rd_words 0x1000 256 (\<lambda>_. 0)) (unit_blk (demo_rp_unit 1))) \<and>
    (\<forall>j < rp_NUnit. j \<noteq> 1 \<longrightarrow> rp_unit j c2 = rp_unit j demo_rp)"
  using rhrp_write [OF demo_rp_setup(2) refl _ refl, of 7] by (simp add: demo_rp_decode demo_rp_units demo_rp_disk demo_rp_lba del: One_nat_def)

theorem rhrp_bad_address_witness:
  "\<exists>r1 c1. rp_handle (cp_link (cp_fBase demo_cpu) 1000 100) 7 demo_cpu (demo_rp_req 0x38 0x100 815) rdmadisk_new (demo_rp, demo_port 0x10000) = Inr (r1, c1, demo_port 0x10000) \<and>
    dma_set True 0x1000 (2 ^ 32 - 5632) kCPAH_M_22BIT 340692 1 kFuncRead 512 r1"
proof -
  let ?q = "demo_rp_req 0x38 0x100 815"
  have q: "pq_rpcs1 ?q AND kRPCS1_M_RDY = 0" "unat (pq_ca ?q) = ud_fNCyl (demo_rp_unit 1)" "unat (pq_ta ?q) < ud_fNHead (demo_rp_unit 1)"
    "unat (pq_sa ?q) < ud_fNSect (demo_rp_unit 1)" "22 = unat (pq_sa ?q) + ud_fNSect (demo_rp_unit 1) * unat (pq_ta ?q)"
    by (simp_all add: demo_rp_decode demo_rp_disk kRPCS1_M_RDY_def)
  have u: "demo_rp_unit 1 = rp_unit (pq_unum ?q) demo_rp"
    unfolding demo_rp_decode demo_rp_units ..
  have e: "256 * 22 = (5632 :: nat)" "340670 + 22 = (340692 :: nat)" "0 < (22 :: nat)"
    by simp_all
  show ?thesis
    using rhrp_bad_address [OF demo_rp_request demo_rp_decode(11) q(1) demo_rp_idle u demo_rp_disk(2,8) q(2-5) e(3), of demo_cpu 7 "demo_port 0x10000"]
    unfolding demo_rp_decode demo_rp_disk(7) e .
qed

end
