(* ===== verification/Rw11VirtTape.thy ===== *)
theory Rw11VirtTape
  imports RfileFd Rtools
begin

text \<open>
  Classes \<open>Rw11VirtTape\<close> and \<open>Rw11VirtTapeTap\<close> of \<open>librw11\<close>: a magnetic tape kept in a file in tap
  format. A record is its data between two copies of a 32 bit length, a tape mark is a zero length
  and the end of the medium is a length with all bits set. Results are the returned value, the output
  arguments and the new state; the message texts are left out. Positions and sizes are natural
  numbers, subtraction wraps around as for \<open>size_t\<close>. \<open>tt_stack\<close> is what an uninitialised local
  variable holds, which a short read leaves in place.
\<close>

section \<open>State\<close>

datatype opcode = kOpCodeOK | kOpCodeBot | kOpCodeEof | kOpCodeEom | kOpCodeRecLenErr | kOpCodeBadParity
  | kOpCodeBadFormat

datatype tape_stat = kStatNVTReadRec | kStatNVTReadByt | kStatNVTReadEof | kStatNVTReadEom | kStatNVTReadPErr
  | kStatNVTReadLErr | kStatNVTWriteRec | kStatNVTWriteByt | kStatNVTWriteEof | kStatNVTSpaForw
  | kStatNVTSpaBack | kStatNVTRewind

record tape =
  tt_fUrl :: purl
  tt_fWProt :: bool
  tt_fStats :: "tape_stat \<Rightarrow> nat"
  tt_fCapacity :: nat
  tt_fBot :: bool
  tt_fEot :: bool
  tt_fEom :: bool
  tt_fPosFile :: int
  tt_fPosRecord :: int
  tt_fFd :: osfile
  tt_fSize :: nat
  tt_fPos :: nat
  tt_fBad :: bool
  tt_fPadOdd :: bool
  tt_fTruncPend :: bool
  tt_stack :: "u8 list"

definition kMetaEof :: u32 where "kMetaEof = 0x00000000"
definition kMetaEom :: u32 where "kMetaEom = 0xffffffff"
definition kMeta_M_Perr :: u32 where "kMeta_M_Perr = 0x80000000"
definition kMeta_M_Mbz :: u32 where "kMeta_M_Mbz = 0x7fff0000"
definition kMeta_B_Rlen :: u32 where "kMeta_B_Rlen = 0x0000ffff"

definition tape_new :: "osfile \<Rightarrow> u8 list \<Rightarrow> tape" where
  "tape_new f stack =
     \<lparr>tt_fUrl = purl_new, tt_fWProt = False, tt_fStats = (\<lambda>_. 0), tt_fCapacity = 0, tt_fBot = False, tt_fEot = False,
      tt_fEom = True, tt_fPosFile = - 1, tt_fPosRecord = - 1, tt_fFd = f\<lparr>fl_fFd := - 1\<rparr>, tt_fSize = 0, tt_fPos = 0,
      tt_fBad = True, tt_fPadOdd = False, tt_fTruncPend = False, tt_stack = stack\<rparr>"

definition tt_inc :: "tape_stat \<Rightarrow> nat \<Rightarrow> tape \<Rightarrow> tape" where
  "tt_inc k n t = t\<lparr>tt_fStats := stat_inc k n (tt_fStats t)\<rparr>"

definition SetCapacity :: "nat \<Rightarrow> tape \<Rightarrow> tape" where
  "SetCapacity nbyte t = t\<lparr>tt_fCapacity := nbyte\<rparr>"

text \<open>The bytes of a 32 bit number in memory, least significant byte first.\<close>

definition le32 :: "u32 \<Rightarrow> u8 list" where
  "le32 w = [ucast w, ucast (drop_bit 8 w), ucast (drop_bit 16 w), ucast (drop_bit 24 w)]"

definition from_le32 :: "u8 list \<Rightarrow> u32" where
  "from_le32 bs = ucast (bs ! 0) OR push_bit 8 (ucast (bs ! 1)) OR push_bit 16 (ucast (bs ! 2)) OR push_bit 24 (ucast (bs ! 3))"

section \<open>Helper functions\<close>

definition BytePadding :: "nat \<Rightarrow> tape \<Rightarrow> nat" where
  "BytePadding rlen t = (if tt_fPadOdd t then unat ((of_nat (rlen + 1) :: 64 word) AND 0xfffe) else rlen)"

definition SetBad :: "tape \<Rightarrow> tape" where
  "SetBad t = t\<lparr>tt_fBad := True\<rparr>"

definition IncPosRecord :: "int \<Rightarrow> tape \<Rightarrow> tape" where
  "IncPosRecord delta t = (if tt_fPosRecord t \<noteq> - 1 then t\<lparr>tt_fPosRecord := tt_fPosRecord t + delta\<rparr> else t)"

definition UpdatePos :: "nat \<Rightarrow> int \<Rightarrow> tape \<Rightarrow> tape" where
  "UpdatePos nbyt dir t =
     (let pos = (if dir = 0 then nbyt else if dir > 0 then tt_fPos t + nbyt else size_sub (tt_fPos t) nbyt)
      in t\<lparr>tt_fPos := pos, tt_fBot := (pos = 0),
           tt_fEot := (if tt_fCapacity t = 0 then False else pos > tt_fCapacity t)\<rparr>)"

definition tap_Seek :: "nat \<Rightarrow> int \<Rightarrow> tape \<Rightarrow> bool \<times> tape" where
  "tap_Seek seekpos dir t =
     (let (ok, f) = fd_Seek (if dir < 0 then - int seekpos else int seekpos)
                      (if dir = 0 then SEEK_SET else SEEK_CUR) (tt_fFd t);
          t1 = t\<lparr>tt_fFd := f\<rparr>
      in if \<not> ok then (False, t1) else (True, UpdatePos seekpos dir t1))"

text \<open>\<open>buf\<close> is the content of the target buffer before the call.\<close>

definition tap_Read :: "nat \<Rightarrow> u8 list \<Rightarrow> tape \<Rightarrow> bool \<times> u8 list \<times> tape" where
  "tap_Read nbyt buf t =
     (let (res, f) = fd_Read nbyt (tt_fFd t); t1 = t\<lparr>tt_fFd := f\<rparr>
      in case res of None \<Rightarrow> (False, buf, t1) | Some ds \<Rightarrow> (True, ds @ drop (length ds) buf, UpdatePos nbyt 1 t1))"

definition tap_Write :: "u8 list \<Rightarrow> bool \<Rightarrow> tape \<Rightarrow> bool \<times> tape" where
  "tap_Write ds back t =
     (let (ok0, t0) = (if tt_fTruncPend t then
                         (let (ok, f) = fd_Truncate (tt_fPos t) (tt_fFd t); t1 = t\<lparr>tt_fFd := f\<rparr>
                          in if \<not> ok then (False, t1) else (True, t1\<lparr>tt_fTruncPend := False, tt_fSize := tt_fPos t1\<rparr>))
                       else (True, t))
      in if \<not> ok0 then (False, t0)
         else
           let (ok1, f1) = WriteAll ds (tt_fFd t0); t1 = t0\<lparr>tt_fFd := f1\<rparr>
           in if \<not> ok1 then (False, t1)
              else
                let t2 = UpdatePos (length ds) 1 t1;
                    t3 = (if tt_fPos t2 > tt_fSize t2 then t2\<lparr>tt_fSize := tt_fPos t2\<rparr> else t2)
                in if back then tap_Seek (length ds) (- 1) t3 else (True, t3))"

definition CheckSizeForw :: "nat \<Rightarrow> tape \<Rightarrow> bool" where
  "CheckSizeForw nbyt t = (tt_fPos t + nbyt \<le> tt_fSize t)"

definition CheckSizeBack :: "nat \<Rightarrow> tape \<Rightarrow> bool" where
  "CheckSizeBack nbyt t = (nbyt \<le> tt_fPos t)"

text \<open>The results are whether the tag is good, the record length and the parity error flag.\<close>

definition ParseMeta :: "u32 \<Rightarrow> bool \<times> nat \<times> bool" where
  "ParseMeta meta = (meta AND kMeta_M_Mbz = 0, unat (meta AND kMeta_B_Rlen), meta AND kMeta_M_Perr \<noteq> 0)"

text \<open>Reading a length word into a local variable; \<open>None\<close> when the size check or the read fails.\<close>

definition read_meta :: "tape \<Rightarrow> u32 option \<times> tape" where
  "read_meta t =
     (if \<not> CheckSizeForw 4 t then (None, SetBad t)
      else let (ok, bs, t1) = tap_Read 4 (tt_stack t) t
           in if \<not> ok then (None, SetBad t1) else (Some (from_le32 bs), t1))"

section \<open>Operations\<close>

text \<open>\<open>emul\<close> stands for what the system does with the file name of the url: the descriptor, the file and
  whether the owner may write it. The capacity may have a suffix for kilo or mega byte.\<close>

definition parse_cap :: "string \<Rightarrow> nat option" where
  "parse_cap str =
     (if str = [] then Some 0
      else
        let clast = last str; isdig = (digit_val clast \<noteq> None);
            conv = (if isdig then str else butlast str);
            scale = (if isdig then Some 1
                     else if clast = CHR ''k'' \<or> clast = CHR ''K'' then Some 1024
                     else if clast = CHR ''m'' \<or> clast = CHR ''M'' then Some (1024 * 1024) else None)
        in case scale of
             None \<Rightarrow> None
           | Some f \<Rightarrow> map_option (\<lambda>c. c * f mod 2 ^ 64) (String2Long conv))"

definition tap_Open :: "string \<Rightarrow> int \<Rightarrow> osfile \<Rightarrow> bool \<Rightarrow> tape \<Rightarrow> (bool \<times> tape) result" where
  "tap_Open url fd emul usrwrite t =
     (let (ok, u) = url_SetDef url ''|wpro|e11|cap=|'' ''tap'' (tt_fUrl t); t1 = t\<lparr>tt_fUrl := u\<rparr>
      in if \<not> ok then Inr (False, t1)
         else
           let t2 = t1\<lparr>tt_fWProt := url_FindOpt ''wpro'' u, tt_fPadOdd := url_FindOpt ''e11'' u\<rparr>
           in case (case url_FindOptVal ''cap'' u of None \<Rightarrow> Some 0 | Some s \<Rightarrow> parse_cap s) of
                None \<Rightarrow> Inr (False, t2)
              | Some capacity \<Rightarrow>
                  ebind (fd_Open fd (emul\<lparr>fl_fFd := fl_fFd (tt_fFd t2), fl_writable := \<not> tt_fWProt t2\<rparr>)) (\<lambda>(okf, f).
                    let t3 = t2\<lparr>tt_fFd := f\<rparr>
                    in if \<not> okf then Inr (False, t3)
                       else case fd_Stat f of
                           (None, f1) \<Rightarrow> Inr (False, t3\<lparr>tt_fFd := fd_Close f1\<rparr>)
                         | (Some siz, f1) \<Rightarrow>
                             Inr (True, t3\<lparr>tt_fFd := f1, tt_fWProt := (tt_fWProt t3 \<or> \<not> usrwrite), tt_fSize := siz, tt_fPos := 0,
                               tt_fBad := False, tt_fTruncPend := True, tt_fCapacity := capacity, tt_fBot := True,
                               tt_fEot := False, tt_fEom := False, tt_fPosFile := 0, tt_fPosRecord := 0\<rparr>)))"

text \<open>\<open>None\<close> is the null pointer that \<open>New\<close> returns when the scheme is not known or the open failed.\<close>

definition tape_New :: "string \<Rightarrow> int \<Rightarrow> osfile \<Rightarrow> bool \<Rightarrow> u8 list \<Rightarrow> tape option result" where
  "tape_New url fd emul usrwrite stack =
     (if FindScheme url ''tap'' = ''tap'' then
        ebind (tap_Open url fd emul usrwrite (tape_new emul stack)) (\<lambda>(ok, t). Inr (if ok then Some t else None))
      else Inr None)"

text \<open>The results of \<open>ReadRecord\<close> are the return value, the buffer, \<open>ndone\<close> and the operation code. After
  the data the code seeks forward by the padded length, not by the part that was not read.\<close>

definition read_data :: "u32 \<Rightarrow> nat \<Rightarrow> u8 list \<Rightarrow> tape \<Rightarrow> bool \<times> u8 list \<times> nat \<times> opcode \<times> tape" where
  "read_data metabeg nbyt buf t =
     (case ParseMeta metabeg of (good, rlen, perr) \<Rightarrow>
        if \<not> good then (False, buf, 0, kOpCodeBadFormat, SetBad t)
        else
          let rlenpad = BytePadding rlen t
          in if \<not> CheckSizeForw rlenpad t then (False, buf, 0, kOpCodeBadFormat, SetBad t)
             else
               let ndone = (if rlen \<le> nbyt then rlen else nbyt);
                   (ok1, buf1, t1) = tap_Read ndone buf t
               in if \<not> ok1 then (False, buf1, ndone, kOpCodeBadFormat, SetBad t1)
                  else
                    let (ok2, t2) = (if ndone < rlenpad then tap_Seek rlenpad 1 t1 else (True, t1))
                    in if \<not> ok2 then (False, buf1, ndone, kOpCodeBadFormat, SetBad t2)
                       else case read_meta t2 of
                           (None, t3) \<Rightarrow> (False, buf1, ndone, kOpCodeBadFormat, t3)
                         | (Some metaend, t3) \<Rightarrow>
                             if metabeg \<noteq> metaend then (False, buf1, 0, kOpCodeBadFormat, SetBad t3)
                             else
                               let t4 = IncPosRecord 1 t3;
                                   (oc, t5) = (if perr then (kOpCodeBadParity, tt_inc kStatNVTReadPErr 1 t4) else (kOpCodeOK, t4));
                                   (oc', t6) = (if ndone < rlen then (kOpCodeRecLenErr, tt_inc kStatNVTReadLErr 1 t5) else (oc, t5))
                               in (True, buf1, ndone, oc', tt_inc kStatNVTReadByt ndone t6))"

definition ReadRecord :: "nat \<Rightarrow> u8 list \<Rightarrow> tape \<Rightarrow> bool \<times> u8 list \<times> nat \<times> opcode \<times> tape" where
  "ReadRecord nbyt buf t0 =
     (let t = tt_inc kStatNVTReadRec 1 t0
      in if tt_fBad t then (False, buf, 0, kOpCodeBadFormat, t)
         else if tt_fPos t = tt_fSize t then (True, buf, 0, kOpCodeEom, t\<lparr>tt_fEom := True\<rparr>)
         else case read_meta t of
             (None, t1) \<Rightarrow> (False, buf, 0, kOpCodeBadFormat, t1)
           | (Some metabeg, t1) \<Rightarrow>
               if metabeg = kMetaEof then
                 (True, buf, 0, kOpCodeEof, (tt_inc kStatNVTReadEof 1 t1)\<lparr>tt_fPosFile := tt_fPosFile t1 + 1, tt_fPosRecord := 0\<rparr>)
               else if metabeg = kMetaEom then
                 (let (ok, t2) = tap_Seek 4 (- 1) t1
                  in if \<not> ok then (False, buf, 0, kOpCodeBadFormat, SetBad t2)
                     else (True, buf, 0, kOpCodeEom, (tt_inc kStatNVTReadEom 1 t2)\<lparr>tt_fEom := True\<rparr>))
               else read_data metabeg nbyt buf t1)"

text \<open>A sequence of writes: the first failure ends it and marks the tape as bad.\<close>

fun write_seq :: "(u8 list \<times> bool) list \<Rightarrow> tape \<Rightarrow> bool \<times> tape" where
  "write_seq [] t = (True, t)"
| "write_seq ((ds, back) # ws) t =
     (let (ok, t1) = tap_Write ds back t in if \<not> ok then (False, SetBad t1) else write_seq ws t1)"

definition WriteRecord :: "u8 list \<Rightarrow> tape \<Rightarrow> bool \<times> opcode \<times> tape" where
  "WriteRecord ds t0 =
     (let nbyt = length ds;
          t = tt_inc kStatNVTWriteByt nbyt (tt_inc kStatNVTWriteRec 1 t0)
      in if tt_fBad t then (False, kOpCodeBadFormat, t)
         else
           let meta = le32 (of_nat nbyt);
               (ok, t1) = write_seq ([(meta, False), (ds, False)] @
                  (if tt_fPadOdd t \<and> odd nbyt then [([0], False)] else []) @
                  [(meta, False), (le32 kMetaEom, True)]) (t\<lparr>tt_fEom := False\<rparr>)
           in if \<not> ok then (False, kOpCodeBadFormat, t1) else (True, kOpCodeOK, IncPosRecord 1 t1))"

definition WriteEof :: "tape \<Rightarrow> bool \<times> tape" where
  "WriteEof t0 =
     (let t = tt_inc kStatNVTWriteEof 1 t0
      in if tt_fBad t then (False, t)
         else
           let (ok, t1) = write_seq [(le32 kMetaEof, False), (le32 kMetaEom, True)] (t\<lparr>tt_fEom := False\<rparr>)
           in if \<not> ok then (False, t1) else (True, t1\<lparr>tt_fPosFile := tt_fPosFile t1 + 1, tt_fPosRecord := 0\<rparr>))"

fun space_forw_loop :: "nat \<Rightarrow> nat \<Rightarrow> tape \<Rightarrow> bool \<times> nat \<times> opcode \<times> tape" where
  "space_forw_loop 0 ndone t = (True, ndone, kOpCodeOK, t)"
| "space_forw_loop (Suc nrec) ndone t =
     (if tt_fPos t = tt_fSize t then (True, ndone, kOpCodeEom, t\<lparr>tt_fEom := True\<rparr>)
      else case read_meta t of
          (None, t1) \<Rightarrow> (False, ndone, kOpCodeBadFormat, t1)
        | (Some metabeg, t1) \<Rightarrow>
            if metabeg = kMetaEof then (True, ndone, kOpCodeEof, t1\<lparr>tt_fPosFile := tt_fPosFile t1 + 1, tt_fPosRecord := 0\<rparr>)
            else if metabeg = kMetaEom then
              (let (ok, t2) = tap_Seek 4 (- 1) t1
               in if \<not> ok then (False, ndone, kOpCodeBadFormat, SetBad t2) else (True, ndone, kOpCodeEom, t2\<lparr>tt_fEom := True\<rparr>))
            else (case ParseMeta metabeg of (good, rlen, perr) \<Rightarrow>
              if \<not> good then (False, ndone, kOpCodeBadFormat, SetBad t1)
              else
                let rlenpad = BytePadding rlen t1
                in if \<not> CheckSizeForw (4 + rlenpad) t1 then (False, ndone, kOpCodeBadFormat, SetBad t1)
                   else
                     let (ok, t2) = tap_Seek (4 + rlenpad) 1 t1
                     in if \<not> ok then (False, ndone, kOpCodeBadFormat, SetBad t2)
                        else space_forw_loop nrec (ndone + 1) (IncPosRecord 1 t2)))"

definition SpaceForw :: "nat \<Rightarrow> tape \<Rightarrow> bool \<times> nat \<times> opcode \<times> tape" where
  "SpaceForw nrec t0 =
     (let t = tt_inc kStatNVTSpaForw 1 t0
      in if tt_fBad t then (False, 0, kOpCodeBadFormat, t) else space_forw_loop nrec 0 t)"

fun space_back_loop :: "nat \<Rightarrow> nat \<Rightarrow> tape \<Rightarrow> bool \<times> nat \<times> opcode \<times> tape" where
  "space_back_loop 0 ndone t = (True, ndone, kOpCodeOK, t)"
| "space_back_loop (Suc nrec) ndone t =
     (if tt_fPos t = 0 then (True, ndone, kOpCodeBot, t\<lparr>tt_fPosFile := 0, tt_fPosRecord := 0\<rparr>)
      else if \<not> CheckSizeBack 4 t then (False, ndone, kOpCodeBadFormat, SetBad t)
      else
        let (ok, t1) = tap_Seek 4 (- 1) t
        in if \<not> ok then (False, ndone, kOpCodeBadFormat, SetBad t1)
           else
             let (ok2, bs, t2) = tap_Read 4 (tt_stack t1) t1
             in if \<not> ok2 then (False, ndone, kOpCodeBadFormat, SetBad t2)
                else
                  let metaend = from_le32 bs
                  in if metaend = kMetaEof then
                       (let (ok3, t3) = tap_Seek 4 (- 1) t2
                        in if \<not> ok3 then (False, ndone, kOpCodeBadFormat, SetBad t3)
                           else (True, ndone, kOpCodeEof, t3\<lparr>tt_fPosFile := tt_fPosFile t3 - 1, tt_fPosRecord := - 1\<rparr>))
                     else if metaend = kMetaEom then (False, ndone, kOpCodeBadFormat, SetBad t2)
                     else (case ParseMeta metaend of (good, rlen, perr) \<Rightarrow>
                       if \<not> good then (False, ndone, kOpCodeBadFormat, SetBad t2)
                       else
                         let rlenpad = BytePadding rlen t2
                         in if \<not> CheckSizeBack (2 * 4 + rlenpad) t2 then (False, ndone, kOpCodeBadFormat, SetBad t2)
                            else
                              let (ok3, t3) = tap_Seek (2 * 4 + rlenpad) (- 1) t2
                              in if \<not> ok3 then (False, ndone, kOpCodeBadFormat, SetBad t3)
                                 else space_back_loop nrec (ndone + 1) (IncPosRecord (- 1) t3)))"

definition SpaceBack :: "nat \<Rightarrow> tape \<Rightarrow> bool \<times> nat \<times> opcode \<times> tape" where
  "SpaceBack nrec t0 =
     (let t = tt_inc kStatNVTSpaBack 1 t0
      in if tt_fBad t then (False, 0, kOpCodeBadFormat, t)
         else space_back_loop nrec 0 (t\<lparr>tt_fEom := False, tt_fTruncPend := True\<rparr>))"

definition Rewind :: "tape \<Rightarrow> bool \<times> opcode \<times> tape" where
  "Rewind t0 =
     (let (ok, t) = tap_Seek 0 0 (tt_inc kStatNVTRewind 1 t0)
      in if \<not> ok then (False, kOpCodeBadFormat, SetBad t)
         else (True, kOpCodeOK, t\<lparr>tt_fBot := True, tt_fEot := False, tt_fEom := False, tt_fPosFile := 0, tt_fPosRecord := 0,
                 tt_fBad := False, tt_fTruncPend := True\<rparr>))"

section \<open>Positioning\<close>

definition kSpaceAll :: nat where "kSpaceAll = 1000000000"

text \<open>The loop of \<open>SetPosFile\<close> may not end, for instance when the tape ends in the middle of a file
  position that is never reached; the value is then \<open>None\<close>.\<close>

partial_function (option) pos_file_loop :: "int \<Rightarrow> bool \<Rightarrow> tape \<Rightarrow> tape result option" where
  "pos_file_loop posfile rc t =
     (if rc \<and> posfile \<noteq> tt_fPosFile t then
        (case SpaceForw kSpaceAll t of
           (rc', ndone, opc, t') \<Rightarrow>
             if rc' \<and> opc = kOpCodeEom then Some (Inr t') else pos_file_loop posfile rc' t')
      else if \<not> rc then Some (Inl (Rexception ''Rw11VirtTape::SetPosFile'' ''emsg''))
      else Some (Inr t))"

definition SetPosFile :: "int \<Rightarrow> tape \<Rightarrow> tape result option" where
  "SetPosFile posfile t =
     (case Rewind t of (rc, opc, t1) \<Rightarrow> pos_file_loop (if posfile < 0 then 0 else posfile) rc t1)"

definition SetPosRecord :: "int \<Rightarrow> tape \<Rightarrow> tape result" where
  "SetPosRecord posrec0 t0 =
     (let posrec = (if posrec0 < 0 then 0 else posrec0)
      in case SpaceBack kSpaceAll t0 of (rc1, nd1, opc1, t1) \<Rightarrow>
         (case (if rc1 \<and> opc1 = kOpCodeEof
                then (case SpaceForw 1 t1 of (rc, nd, opc, t) \<Rightarrow> (rc, t)) else (rc1, t1)) of (rc2, t2) \<Rightarrow>
         (case (if rc2 \<and> posrec \<noteq> 0 then
                  (case SpaceForw (nat posrec) t2 of (rc, ndone, opc, t) \<Rightarrow>
                     if rc \<and> opc = kOpCodeEof then
                       (case SpaceBack 1 t of (rc', nd', opc', t') \<Rightarrow>
                          (rc', if rc' then t'\<lparr>tt_fPosRecord := int ndone\<rparr> else t'))
                     else (rc, t))
                else (rc2, t2)) of (rc3, t3) \<Rightarrow>
           if \<not> rc3 then Inl (Rexception ''Rw11VirtTape::SetPosFile'' ''emsg'') else Inr t3)))"

end
