(* ===== verification/Rw11TapeRep.thy ===== *)
theory Rw11TapeRep
  imports Rw11VirtTape
begin

text \<open>
  The tape file as a sequence of items, records and tape marks: \<open>tape_rep\<close> relates a state of
  \<open>Rw11VirtTapeTap\<close> to the items before and after its position. The operations of the class are
  proved to do on the file what their counterparts do on the items; the locale \<open>tape_drive\<close> is the
  contract from which the round trip of writing and reading follows.
\<close>

section \<open>The tape as a sequence of items\<close>

datatype titem = TRec "u8 list" | TMark

definition enc1 :: "bool \<Rightarrow> titem \<Rightarrow> u8 list" where
  "enc1 pad it = (case it of
     TRec d \<Rightarrow> le32 (of_nat (length d)) @ d @ (if pad \<and> odd (length d) then [0] else []) @ le32 (of_nat (length d))
   | TMark \<Rightarrow> le32 kMetaEof)"

definition enc :: "bool \<Rightarrow> titem list \<Rightarrow> u8 list" where
  "enc pad is = concat (map (enc1 pad) is)"

definition item_ok :: "bool \<Rightarrow> titem \<Rightarrow> bool" where
  "item_ok pad it = (case it of TRec d \<Rightarrow> 0 < length d \<and> length d < (if pad then 65535 else 65536) | TMark \<Rightarrow> True)"

definition is_rec :: "titem \<Rightarrow> bool" where
  "is_rec it = (case it of TRec d \<Rightarrow> True | TMark \<Rightarrow> False)"

definition marks :: "titem list \<Rightarrow> int" where
  "marks is = int (length (filter (\<lambda>i. \<not> is_rec i) is))"

definition recs :: "titem list \<Rightarrow> int" where
  "recs is = int (length (takeWhile is_rec (rev is)))"

text \<open>The program's view of its file is right.\<close>

definition synced :: "tape \<Rightarrow> bool" where
  "synced t \<longleftrightarrow> fl_script (tt_fFd t) = [] \<and> fl_writable (tt_fFd t) \<and> fl_off (tt_fFd t) = tt_fPos t \<and>
     tt_fSize t = length (fl_data (tt_fFd t)) \<and> length (tt_stack t) = 4"

text \<open>What may follow the last item: nothing or the mark for the end of the medium.\<close>

definition tail_ok :: "u8 list \<Rightarrow> bool" where
  "tail_ok tail \<longleftrightarrow> tail = [] \<or> tail = le32 kMetaEom"

text \<open>The items \<open>bs\<close> are before and the items \<open>as\<close> are after the position of the tape.\<close>

definition tape_rep :: "bool \<Rightarrow> titem list \<Rightarrow> titem list \<Rightarrow> tape \<Rightarrow> bool" where
  "tape_rep pad bs as t \<longleftrightarrow> synced t \<and> \<not> tt_fBad t \<and> tt_fPadOdd t = pad \<and> list_all (item_ok pad) (bs @ as) \<and>
     (\<exists>tail. tail_ok tail \<and> fl_data (tt_fFd t) = enc pad bs @ enc pad as @ tail) \<and>
     tt_fPos t = length (enc pad bs) \<and> (as \<noteq> [] \<longrightarrow> tt_fTruncPend t) \<and>
     tt_fPosFile t = marks bs \<and> (tt_fPosRecord t = - 1 \<or> tt_fPosRecord t = recs bs)"

subsection \<open>Length words\<close>

lemma length_le32 [simp]: "length (le32 w) = 4"
  by (simp add: le32_def)

lemma le32_ne [simp]: "le32 w \<noteq> []" "[] \<noteq> le32 w"
  by (simp_all add: le32_def)

lemma from_le32 [simp]: "from_le32 (le32 w @ xs) = w"
proof (rule bit_word_eqI)
  fix n assume "n < LENGTH(32)"
  then show "bit (from_le32 (le32 w @ xs)) n = bit w n"
    by (cases "n < 8"; cases "n < 16"; cases "n < 24") (auto simp: from_le32_def le32_def bit_simps)
qed

lemma from_le32' [simp]: "from_le32 (le32 w) = w"
  using from_le32 [of w "[]"] by simp

lemma take_bit_and_low: "take_bit k (x :: u32) AND m = take_bit k x AND take_bit k m"
  by (rule bit_word_eqI) (auto simp: bit_simps)

lemma ParseMeta_len: "n < 65536 \<Longrightarrow> ParseMeta (of_nat n) = (True, n, False)"
proof -
  assume n: "n < 65536"
  have lt: "unat (of_nat n :: u32) = n" using n by (simp add: unat_of_nat take_bit_nat_eq_self)
  have t: "take_bit 16 (of_nat n :: u32) = of_nat n"
    using n by (simp add: take_bit_of_nat take_bit_nat_eq_self)
  have a: "(of_nat n :: u32) AND m = of_nat n AND take_bit 16 m" for m
    using take_bit_and_low [of 16 "of_nat n" m] t by simp
  have "(of_nat n :: u32) AND kMeta_M_Mbz = 0" "(of_nat n :: u32) AND kMeta_M_Perr = 0" "(of_nat n :: u32) AND kMeta_B_Rlen = of_nat n"
    using a [of "0x7fff0000"] a [of "0x80000000"] t
    by (simp_all add: kMeta_M_Mbz_def kMeta_M_Perr_def kMeta_B_Rlen_def take_bit_eq_mask mask_eq_exp_minus_1)
  then show ?thesis by (simp add: ParseMeta_def lt)
qed

lemma len_meta:
  assumes "0 < n" and "n < 65536"
  shows "(of_nat n :: u32) \<noteq> kMetaEof" "(of_nat n :: u32) \<noteq> kMetaEom"
proof -
  have "unat (of_nat n :: u32) = n" using assms by (simp add: unat_of_nat take_bit_nat_eq_self)
  then show "(of_nat n :: u32) \<noteq> kMetaEof" "(of_nat n :: u32) \<noteq> kMetaEom"
    using assms by (auto simp: kMetaEof_def kMetaEom_def)
qed

lemma kMeta_neq [simp]: "kMetaEom \<noteq> kMetaEof" "kMetaEof \<noteq> kMetaEom"
  by (simp_all add: kMetaEof_def kMetaEom_def)

subsection \<open>Moving on the tape\<close>

definition moved :: "nat \<Rightarrow> tape \<Rightarrow> tape" where
  "moved p t = t\<lparr>tt_fFd := (tt_fFd t)\<lparr>fl_off := p\<rparr>, tt_fPos := p, tt_fBot := (p = 0),
     tt_fEot := (if tt_fCapacity t = 0 then False else p > tt_fCapacity t)\<rparr>"

lemma moved_sel [simp]:
  "tt_fPos (moved p t) = p" "tt_fSize (moved p t) = tt_fSize t" "tt_fBad (moved p t) = tt_fBad t"
  "tt_fPadOdd (moved p t) = tt_fPadOdd t" "tt_fTruncPend (moved p t) = tt_fTruncPend t" "tt_stack (moved p t) = tt_stack t"
  "tt_fPosFile (moved p t) = tt_fPosFile t" "tt_fPosRecord (moved p t) = tt_fPosRecord t"
  "fl_data (tt_fFd (moved p t)) = fl_data (tt_fFd t)" "fl_script (tt_fFd (moved p t)) = fl_script (tt_fFd t)"
  "fl_writable (tt_fFd (moved p t)) = fl_writable (tt_fFd t)" "fl_off (tt_fFd (moved p t)) = p"
  "moved p (moved q t) = moved p t"
  by (simp_all add: moved_def)

lemma synced_moved [simp]: "synced t \<Longrightarrow> synced (moved p t)"
  by (simp add: synced_def)

lemma tt_inc_sel [simp]:
  "tt_fPos (tt_inc k n t) = tt_fPos t" "tt_fSize (tt_inc k n t) = tt_fSize t" "tt_fBad (tt_inc k n t) = tt_fBad t"
  "tt_fPadOdd (tt_inc k n t) = tt_fPadOdd t" "tt_fTruncPend (tt_inc k n t) = tt_fTruncPend t" "tt_stack (tt_inc k n t) = tt_stack t"
  "tt_fPosFile (tt_inc k n t) = tt_fPosFile t" "tt_fPosRecord (tt_inc k n t) = tt_fPosRecord t" "tt_fFd (tt_inc k n t) = tt_fFd t"
  by (simp_all add: tt_inc_def)

lemma tap_Seek_ok:
  assumes "synced t"
  shows "tap_Seek n 1 t = (True, moved (tt_fPos t + n) t)"
    "n \<le> tt_fPos t \<Longrightarrow> tap_Seek n (- 1) t = (True, moved (tt_fPos t - n) t)" "tap_Seek n 0 t = (True, moved n t)"
  using assms by (simp_all add: tap_Seek_def synced_def fd_ok moved_def UpdatePos_def Let_def)

lemma tap_Read_ok:
  assumes "synced t" and "tt_fPos t + n \<le> tt_fSize t"
  shows "tap_Read n buf t = (True, take n (drop (tt_fPos t) (fl_data (tt_fFd t))) @ drop n buf, moved (tt_fPos t + n) t)"
proof -
  have "min n (length (fl_data (tt_fFd t)) - tt_fPos t) = n" using assms by (simp add: synced_def)
  with assms show ?thesis
    by (simp add: tap_Read_def synced_def fd_ok moved_def UpdatePos_def Let_def)
qed

lemma read_meta_ok:
  assumes "synced t" and "drop (tt_fPos t) (fl_data (tt_fFd t)) = le32 w @ xs"
  shows "read_meta t = (Some w, moved (tt_fPos t + 4) t)"
proof -
  have "length (drop (tt_fPos t) (fl_data (tt_fFd t))) = 4 + length xs" using assms(2) by simp
  then have sz: "tt_fPos t + 4 \<le> tt_fSize t" using assms(1) by (auto simp: synced_def)
  have "length (tt_stack t) = 4" using assms(1) by (simp add: synced_def)
  with tap_Read_ok [OF assms(1) sz, of "tt_stack t"] sz assms(2) show ?thesis
    by (simp add: read_meta_def CheckSizeForw_def)
qed

lemma IncPosRecord_sel [simp]:
  "tt_fPos (IncPosRecord k t) = tt_fPos t" "tt_fSize (IncPosRecord k t) = tt_fSize t" "tt_fBad (IncPosRecord k t) = tt_fBad t"
  "tt_fPadOdd (IncPosRecord k t) = tt_fPadOdd t" "tt_fTruncPend (IncPosRecord k t) = tt_fTruncPend t"
  "tt_stack (IncPosRecord k t) = tt_stack t" "tt_fPosFile (IncPosRecord k t) = tt_fPosFile t" "tt_fFd (IncPosRecord k t) = tt_fFd t"
  "tt_fPosRecord (IncPosRecord k t) = (if tt_fPosRecord t = - 1 then - 1 else tt_fPosRecord t + k)"
  by (simp_all add: IncPosRecord_def)

subsection \<open>Encoded items\<close>

lemma enc_simps [simp]: "enc pad [] = []" "enc pad (i # is) = enc1 pad i @ enc pad is" "enc pad (is @ js) = enc pad is @ enc pad js"
  by (simp_all add: enc_def)

lemma BytePadding_len:
  assumes "item_ok (tt_fPadOdd t) (TRec d)"
  shows "BytePadding (length d) t = length d + (if tt_fPadOdd t \<and> odd (length d) then 1 else 0)"
proof -
  have nat: "(n + 1) AND 0xfffe = (if odd n then n + 1 else n)" if "n < 65535" for n :: nat
  proof (rule bit_eqI)
    fix k
    have fe: "(0xfffe :: nat) = 2 * mask 15" by (simp add: mask_eq_exp_minus_1)
    have big: "\<not> bit m k" if "16 \<le> k" "m < 65536" for m :: nat
      using that power_increasing [of 16 k "2 :: nat"] by (simp add: bit_iff_odd)
    show "bit ((n + 1) AND 0xfffe) k = bit (if odd n then n + 1 else n) k"
    proof (cases k)
      case 0
      have "even ((n + 1) AND 0xfffe)" using even_and_iff [of "n + 1" "0xfffe"] by simp
      then show ?thesis using 0 by (auto simp: bit_0)
    next
      case (Suc j)
      have "even n \<Longrightarrow> bit (n + 1) (Suc j) = bit n (Suc j)" by (simp add: bit_Suc)
      then show ?thesis using Suc \<open>n < 65535\<close> big [of "n + 1"] big [of n] unfolding fe
        by (cases "16 \<le> k") (auto simp: bit_and_iff bit_double_iff bit_mask_iff)
    qed
  qed
  have "unat ((of_nat (n + 1) :: 64 word) AND 0xfffe) = (if odd n then n + 1 else n)" if "n < 65535" for n
  proof -
    have "unat (of_nat (n + 1) :: 64 word) = n + 1" using that by (simp add: unat_of_nat take_bit_nat_eq_self del: of_nat_Suc)
    then show ?thesis using nat [OF that] by (simp add: unsigned_and_eq del: of_nat_Suc)
  qed
  with assms show ?thesis by (auto simp: BytePadding_def item_ok_def)
qed

lemma marks_simps [simp]: "marks [] = 0" "marks (bs @ [TRec d]) = marks bs" "marks (bs @ [TMark]) = marks bs + 1"
  by (simp_all add: marks_def is_rec_def)

lemma recs_simps [simp]: "recs [] = 0" "recs (bs @ [TRec d]) = recs bs + 1" "recs (bs @ [TMark]) = 0" "recs bs \<noteq> - 1"
  by (simp_all add: recs_def is_rec_def)

subsection \<open>Operations on the items\<close>

lemma rep_drop:
  assumes "tape_rep pad bs as t"
  shows "\<exists>tail. tail_ok tail \<and> drop (tt_fPos t) (fl_data (tt_fFd t)) = enc pad as @ tail"
  using assms by (auto simp: tape_rep_def)

lemma rep_size:
  assumes "tape_rep pad bs as t"
  shows "synced t" "tt_fPos t + length (enc pad as) \<le> tt_fSize t" "tt_fPos t = length (enc pad bs)" "\<not> tt_fBad t"
    "tt_fPadOdd t = pad" "list_all (item_ok pad) (bs @ as)"
  using assms by (auto simp: tape_rep_def synced_def)

lemma rep_inc [simp]: "tape_rep pad bs as (tt_inc k n t) = tape_rep pad bs as t"
  by (simp add: tape_rep_def synced_def)

lemma rep_eom [simp]: "tape_rep pad bs as (t\<lparr>tt_fEom := e\<rparr>) = tape_rep pad bs as t"
  by (simp add: tape_rep_def synced_def)

text \<open>Passing one item forward and backward.\<close>

lemma rep_forw_rec:
  assumes "tape_rep pad bs (TRec d # as) t"
  shows "tape_rep pad (bs @ [TRec d]) as (IncPosRecord 1 (moved (tt_fPos t + length (enc1 pad (TRec d))) t))"
  using assms by (auto simp: tape_rep_def synced_def)

lemma rep_forw_mark:
  assumes "tape_rep pad bs (TMark # as) t"
  shows "tape_rep pad (bs @ [TMark]) as
    ((moved (tt_fPos t + 4) t)\<lparr>tt_fPosFile := tt_fPosFile t + 1, tt_fPosRecord := 0\<rparr>)"
  using assms by (auto simp: tape_rep_def synced_def enc1_def)

lemma rep_back_rec:
  assumes "tape_rep pad (bs @ [TRec d]) as t" and "tt_fTruncPend t"
  shows "tape_rep pad bs (TRec d # as) (IncPosRecord (- 1) (moved (length (enc pad bs)) t))"
  using assms by (auto simp: tape_rep_def synced_def)

lemma rep_back_mark:
  assumes "tape_rep pad (bs @ [TMark]) as t" and "tt_fTruncPend t"
  shows "tape_rep pad bs (TMark # as) ((moved (length (enc pad bs)) t)\<lparr>tt_fPosFile := tt_fPosFile t - 1, tt_fPosRecord := - 1\<rparr>)"
  using assms by (auto simp: tape_rep_def synced_def)

lemma length_enc1_rec: "length (enc1 pad (TRec d)) = 8 + length d + (if pad \<and> odd (length d) then 1 else 0)"
  by (simp add: enc1_def)

lemma rep_meta_rec:
  assumes "tape_rep pad bs (TRec d # as) t"
  shows "read_meta t = (Some (of_nat (length d)), moved (tt_fPos t + 4) t)" "tt_fPos t \<noteq> tt_fSize t"
    "0 < length d" "length d < 65536" "item_ok pad (TRec d)"
    "BytePadding (length d) t = length d + (if pad \<and> odd (length d) then 1 else 0)"
proof -
  show ok: "item_ok pad (TRec d)" using rep_size(6) [OF assms] by simp
  then show "0 < length d" "length d < 65536" by (auto simp: item_ok_def split: if_splits)
  from rep_drop [OF assms] obtain tail where
    "drop (tt_fPos t) (fl_data (tt_fFd t)) = le32 (of_nat (length d)) @
       (d @ (if pad \<and> odd (length d) then [0] else []) @ le32 (of_nat (length d)) @ enc pad as @ tail)"
    by (auto simp: enc1_def)
  from read_meta_ok [OF rep_size(1) [OF assms] this]
  show "read_meta t = (Some (of_nat (length d)), moved (tt_fPos t + 4) t)" .
  show "tt_fPos t \<noteq> tt_fSize t" using rep_size(2) [OF assms] by (simp add: length_enc1_rec)
  show "BytePadding (length d) t = length d + (if pad \<and> odd (length d) then 1 else 0)"
    using BytePadding_len [of t d] ok rep_size(5) [OF assms] by simp
qed

lemma rep_meta_mark:
  assumes "tape_rep pad bs (TMark # as) t"
  shows "read_meta t = (Some kMetaEof, moved (tt_fPos t + 4) t)" "tt_fPos t \<noteq> tt_fSize t"
proof -
  from rep_drop [OF assms] obtain tail where
    "drop (tt_fPos t) (fl_data (tt_fFd t)) = le32 kMetaEof @ (enc pad as @ tail)" by (auto simp: enc1_def)
  from read_meta_ok [OF rep_size(1) [OF assms] this]
  show "read_meta t = (Some kMetaEof, moved (tt_fPos t + 4) t)" .
  show "tt_fPos t \<noteq> tt_fSize t" using rep_size(2) [OF assms] by (simp add: enc1_def)
qed

lemma rep_meta_eom:
  assumes "tape_rep pad bs [] t" and "tt_fPos t \<noteq> tt_fSize t"
  shows "read_meta t = (Some kMetaEom, moved (tt_fPos t + 4) t)"
proof -
  have "drop (tt_fPos t) (fl_data (tt_fFd t)) \<noteq> []" using assms rep_size(1,2) [OF assms(1)] by (auto simp: synced_def)
  with rep_drop [OF assms(1)] have "drop (tt_fPos t) (fl_data (tt_fFd t)) = le32 kMetaEom @ []" by (auto simp: tail_ok_def)
  from read_meta_ok [OF rep_size(1) [OF assms(1)] this]
  show "read_meta t = (Some kMetaEom, moved (tt_fPos t + 4) t)" .
qed

lemma rep_moved_self: "tape_rep pad bs as t \<Longrightarrow> tape_rep pad bs as (moved (tt_fPos t) t)"
  by (simp add: tape_rep_def)

section \<open>Reading\<close>

lemma ReadRecord_rec:
  assumes "tape_rep pad bs (TRec d # as) t" and "length d \<le> nbyt" and "pad \<longrightarrow> even (length d)"
  shows "\<exists>t'. ReadRecord nbyt buf t = (True, d @ drop (length d) buf, length d, kOpCodeOK, t') \<and>
    tape_rep pad (bs @ [TRec d]) as t'"
proof -
  let ?t = "tt_inc kStatNVTReadRec 1 t" and ?n = "length d" and ?p = "tt_fPos t"
  have r: "tape_rep pad bs (TRec d # as) ?t" using assms(1) by simp
  note m = rep_meta_rec [OF r]
  have sy: "synced ?t" and ps: "tt_fPadOdd t = pad" using rep_size(1,5) [OF r] by simp_all
  have sz: "?p + ?n + 8 \<le> tt_fSize t" using rep_size(2) [OF r] by (simp add: length_enc1_rec)
  from rep_drop [OF r] obtain tail where
    dr: "drop ?p (fl_data (tt_fFd t)) = le32 (of_nat ?n) @ (d @ le32 (of_nat ?n) @ enc pad as @ tail)"
    using assms(3) by (auto simp: enc1_def)
  let ?t1 = "moved (?p + 4) ?t" and ?t2 = "moved (?p + 4 + ?n) ?t" and ?t3 = "moved (?p + 4 + ?n + 4) ?t"
  have d1: "drop (?p + 4) (fl_data (tt_fFd t)) = d @ le32 (of_nat ?n) @ enc pad as @ tail"
    using arg_cong [OF dr, of "drop 4"] by (simp add: add.commute)
  have d2: "drop (?p + 4 + ?n) (fl_data (tt_fFd t)) = le32 (of_nat ?n) @ enc pad as @ tail"
    using arg_cong [OF d1, of "drop ?n"] by (simp add: add.commute add.left_commute)
  have bp: "BytePadding ?n ?t1 = ?n" using m(6) assms(3) by (auto simp: BytePadding_def ps)
  have rd: "tap_Read ?n buf ?t1 = (True, d @ drop ?n buf, ?t2)"
    using tap_Read_ok [of ?t1 ?n buf] sy sz d1 by simp
  have me: "read_meta ?t2 = (Some (of_nat ?n), ?t3)"
    using read_meta_ok [of ?t2 "of_nat ?n" "enc pad as @ tail"] sy d2 by simp
  have "ReadRecord nbyt buf t = read_data (of_nat ?n) nbyt buf ?t1"
    using m(1,2) rep_size(4) [OF r] len_meta [OF m(3,4)] by (simp add: ReadRecord_def Let_def)
  also have "\<dots> = (True, d @ drop ?n buf, ?n, kOpCodeOK, tt_inc kStatNVTReadByt ?n (IncPosRecord 1 ?t3))"
    using ParseMeta_len [OF m(4)] bp rd me assms(2) sz by (simp add: read_data_def CheckSizeForw_def Let_def)
  finally have "ReadRecord nbyt buf t = (True, d @ drop ?n buf, ?n, kOpCodeOK, tt_inc kStatNVTReadByt ?n (IncPosRecord 1 ?t3))" .
  moreover have "tape_rep pad (bs @ [TRec d]) as (IncPosRecord 1 ?t3)"
  proof -
    have "length (enc1 pad (TRec d)) = 4 + ?n + 4" using assms(3) by (auto simp: length_enc1_rec)
    with rep_forw_rec [OF r] show ?thesis by (simp add: add.assoc)
  qed
  ultimately show ?thesis by auto
qed

lemma ReadRecord_mark:
  assumes "tape_rep pad bs (TMark # as) t"
  shows "\<exists>t'. ReadRecord nbyt buf t = (True, buf, 0, kOpCodeEof, t') \<and> tape_rep pad (bs @ [TMark]) as t'"
proof -
  let ?t = "tt_inc kStatNVTReadRec 1 t"
  have r: "tape_rep pad bs (TMark # as) ?t" using assms by simp
  let ?t' = "(tt_inc kStatNVTReadEof 1 (moved (tt_fPos t + 4) ?t))\<lparr>tt_fPosFile := tt_fPosFile t + 1, tt_fPosRecord := 0\<rparr>"
  have "ReadRecord nbyt buf t = (True, buf, 0, kOpCodeEof, ?t')"
    using rep_meta_mark [OF r] rep_size(4) [OF r] by (simp add: ReadRecord_def Let_def)
  moreover have "tape_rep pad (bs @ [TMark]) as ?t'"
    using rep_forw_mark [OF r] by (simp add: tape_rep_def synced_def)
  ultimately show ?thesis by blast
qed

lemma ReadRecord_eom:
  assumes "tape_rep pad bs [] t"
  shows "\<exists>t'. ReadRecord nbyt buf t = (True, buf, 0, kOpCodeEom, t') \<and> tape_rep pad bs [] t'"
proof (cases "tt_fPos t = tt_fSize t")
  case True
  with assms rep_size(4) [OF assms] show ?thesis by (auto simp: ReadRecord_def Let_def)
next
  case False
  let ?t = "tt_inc kStatNVTReadRec 1 t"
  have r: "tape_rep pad bs [] ?t" "tt_fPos ?t \<noteq> tt_fSize ?t" using assms False by simp_all
  have "tap_Seek 4 (- 1) (moved (tt_fPos t + 4) ?t) = (True, moved (tt_fPos t) ?t)"
    using tap_Seek_ok(2) [of "moved (tt_fPos t + 4) ?t" 4] rep_size(1) [OF r(1)] by simp
  with rep_meta_eom [OF r] rep_size(4) [OF r(1)] False rep_moved_self [OF r(1)] show ?thesis
    by (auto simp: ReadRecord_def Let_def)
qed

section \<open>Writing\<close>

text \<open>Writing \<open>ds\<close> at a position at which the file ends, or ends within \<open>ds\<close>.\<close>

lemma tap_Write_ok:
  assumes "synced t" and "tt_fTruncPend t \<or> tt_fSize t \<le> tt_fPos t + length ds" and "tt_fPos t \<le> tt_fSize t" and "ds \<noteq> []"
  shows "\<exists>t'. tap_Write ds False t = (True, t') \<and> synced t' \<and> \<not> tt_fTruncPend t' \<and>
    fl_data (tt_fFd t') = take (tt_fPos t) (fl_data (tt_fFd t)) @ ds \<and> tt_fPos t' = tt_fPos t + length ds \<and>
    tt_fSize t' = tt_fPos t' \<and> tt_fBad t' = tt_fBad t \<and> tt_fPadOdd t' = tt_fPadOdd t \<and>
    tt_fPosFile t' = tt_fPosFile t \<and> tt_fPosRecord t' = tt_fPosRecord t"
proof -
  let ?p = "tt_fPos t" and ?f = "tt_fFd t"
  let ?t0 = "if tt_fTruncPend t then t\<lparr>tt_fFd := ?f\<lparr>fl_data := resize ?p (fl_data ?f)\<rparr>, tt_fTruncPend := False, tt_fSize := ?p\<rparr> else t"
  let ?D = "take ?p (fl_data ?f) @ ds"
  let ?t1 = "?t0\<lparr>tt_fFd := (tt_fFd ?t0)\<lparr>fl_data := ?D, fl_off := ?p + length ds\<rparr>\<rparr>"
  let ?t2 = "UpdatePos (length ds) 1 ?t1"
  let ?t3 = "if tt_fPos ?t2 > tt_fSize ?t2 then ?t2\<lparr>tt_fSize := tt_fPos ?t2\<rparr> else ?t2"
  have sy: "fl_script ?f = []" "fl_writable ?f" "fl_off ?f = ?p" "tt_fSize t = length (fl_data ?f)" "length (tt_stack t) = 4"
    using assms(1) by (simp_all add: synced_def)
  have put: "put_at ?p ds (fl_data (tt_fFd ?t0)) = ?D"
    using assms(2-4) sy(4) by (auto simp: put_at_def resize_def)
  have w: "WriteAll ds (tt_fFd ?t0) = (True, (tt_fFd ?t0)\<lparr>fl_data := ?D, fl_off := ?p + length ds\<rparr>)"
    using fd_ok(6) [of "tt_fFd ?t0" ds] sy put by auto
  have "tap_Write ds False t = (True, ?t3)"
    using sy fd_ok(5) [of ?f ?p] w by (cases "tt_fTruncPend t") (simp_all add: tap_Write_def Let_def)
  moreover have "synced ?t3 \<and> \<not> tt_fTruncPend ?t3 \<and> fl_data (tt_fFd ?t3) = ?D \<and> tt_fPos ?t3 = ?p + length ds \<and>
    tt_fSize ?t3 = tt_fPos ?t3 \<and> tt_fBad ?t3 = tt_fBad t \<and> tt_fPadOdd ?t3 = tt_fPadOdd t \<and>
    tt_fPosFile ?t3 = tt_fPosFile t \<and> tt_fPosRecord ?t3 = tt_fPosRecord t"
    using sy assms(2-4) by (auto simp: synced_def UpdatePos_def Let_def)
  ultimately show ?thesis by blast
qed


lemma tap_Write_back_ok:
  assumes "synced t" and "tt_fSize t = tt_fPos t" and "\<not> tt_fTruncPend t" and "ds \<noteq> []"
  shows "\<exists>t'. tap_Write ds True t = (True, t') \<and> synced t' \<and> \<not> tt_fTruncPend t' \<and>
    fl_data (tt_fFd t') = fl_data (tt_fFd t) @ ds \<and> tt_fPos t' = tt_fPos t \<and> tt_fBad t' = tt_fBad t \<and>
    tt_fPadOdd t' = tt_fPadOdd t \<and> tt_fPosFile t' = tt_fPosFile t \<and> tt_fPosRecord t' = tt_fPosRecord t"
proof -
  have e: "tap_Write ds True t = (let (ok, u) = tap_Write ds False t in if \<not> ok then (False, u) else tap_Seek (length ds) (- 1) u)"
    by (simp add: tap_Write_def Let_def split_def)
  from tap_Write_ok [OF assms(1) _ _ assms(4)] assms(2) obtain u where
    u: "tap_Write ds False t = (True, u)" "synced u" "\<not> tt_fTruncPend u"
    "fl_data (tt_fFd u) = take (tt_fPos t) (fl_data (tt_fFd t)) @ ds" "tt_fPos u = tt_fPos t + length ds"
    "tt_fBad u = tt_fBad t" "tt_fPadOdd u = tt_fPadOdd t" "tt_fPosFile u = tt_fPosFile t" "tt_fPosRecord u = tt_fPosRecord t"
    by auto
  have "take (tt_fPos t) (fl_data (tt_fFd t)) = fl_data (tt_fFd t)" using assms(1,2) by (simp add: synced_def)
  with u e tap_Seek_ok(2) [OF u(2), of "length ds"] show ?thesis by (intro exI [of _ "moved (tt_fPos t) u"]) simp
qed

text \<open>A sequence of writes appends, and the last one steps back over its data.\<close>

lemma write_seq_ok:
  assumes "synced t" and "\<not> tt_fTruncPend t" and "tt_fSize t = tt_fPos t" and "[] \<notin> set dss" and "e \<noteq> []"
  shows "\<exists>t'. write_seq (map (\<lambda>ds. (ds, False)) dss @ [(e, True)]) t = (True, t') \<and> synced t' \<and> \<not> tt_fTruncPend t' \<and>
    fl_data (tt_fFd t') = fl_data (tt_fFd t) @ concat dss @ e \<and> tt_fPos t' = tt_fPos t + length (concat dss) \<and>
    tt_fBad t' = tt_fBad t \<and> tt_fPadOdd t' = tt_fPadOdd t \<and> tt_fPosFile t' = tt_fPosFile t \<and> tt_fPosRecord t' = tt_fPosRecord t"
  using assms(1-4)
proof (induction dss arbitrary: t)
  case Nil
  from tap_Write_back_ok [OF Nil(1,3,2) assms(5)] show ?case by auto
next
  case (Cons ds dss)
  from tap_Write_ok [of t ds] Cons.prems obtain u where
    u: "tap_Write ds False t = (True, u)" "synced u" "\<not> tt_fTruncPend u" "fl_data (tt_fFd u) = fl_data (tt_fFd t) @ ds"
    "tt_fPos u = tt_fPos t + length ds" "tt_fSize u = tt_fPos u"
    "tt_fBad u = tt_fBad t" "tt_fPadOdd u = tt_fPadOdd t" "tt_fPosFile u = tt_fPosFile t" "tt_fPosRecord u = tt_fPosRecord t"
    by (auto simp: synced_def)
  from Cons.IH [OF u(2,3,6)] Cons.prems(4) u show ?case by (auto simp: add.assoc)
qed

text \<open>The writes of one item, and the state after them.\<close>

definition item_writes :: "bool \<Rightarrow> titem \<Rightarrow> u8 list list" where
  "item_writes pad it = (case it of
     TRec d \<Rightarrow> [le32 (of_nat (length d)), d] @ (if pad \<and> odd (length d) then [[0]] else []) @ [le32 (of_nat (length d))]
   | TMark \<Rightarrow> [le32 kMetaEof])"

lemma concat_item_writes: "concat (item_writes pad it) = enc1 pad it"
  by (simp add: item_writes_def enc1_def split: titem.split)

lemma write_item:
  assumes "tape_rep pad bs as t" and "item_ok pad it"
  shows "\<exists>t'. write_seq (map (\<lambda>ds. (ds, False)) (item_writes pad it) @ [(le32 kMetaEom, True)]) t = (True, t') \<and>
    tt_fPosRecord t' = tt_fPosRecord t \<and> tt_fPosFile t' = tt_fPosFile t \<and> \<not> tt_fBad t' \<and> tt_fPadOdd t' = pad \<and> synced t' \<and>
    fl_data (tt_fFd t') = enc pad (bs @ [it]) @ le32 kMetaEom \<and> tt_fPos t' = length (enc pad (bs @ [it]))"
proof -
  obtain w ws where ws: "item_writes pad it = w # ws" "4 = length w" "[] \<notin> set ws"
    using assms(2) by (auto simp: item_writes_def item_ok_def split: titem.splits)
  from rep_drop [OF assms(1)] obtain tail where tl: "tail_ok tail" "drop (tt_fPos t) (fl_data (tt_fFd t)) = enc pad as @ tail" by blast
  have size: "tt_fTruncPend t \<or> tt_fSize t \<le> tt_fPos t + length w"
  proof (cases "as = []")
    case True
    then have "length (drop (tt_fPos t) (fl_data (tt_fFd t))) \<le> 4" using tl by (auto simp: tail_ok_def)
    then show ?thesis using rep_size(1) [OF assms(1)] ws(2) by (auto simp: synced_def)
  qed (use assms(1) in \<open>simp add: tape_rep_def\<close>)
  have take: "take (tt_fPos t) (fl_data (tt_fFd t)) = enc pad bs" using assms(1) by (auto simp: tape_rep_def)
  from tap_Write_ok [OF rep_size(1) [OF assms(1)] size] rep_size(2) [OF assms(1)] ws(2) take obtain u where
    u: "tap_Write w False t = (True, u)" "synced u" "\<not> tt_fTruncPend u" "fl_data (tt_fFd u) = enc pad bs @ w"
    "tt_fPos u = tt_fPos t + length w" "tt_fSize u = tt_fPos u" "tt_fBad u = tt_fBad t" "tt_fPadOdd u = tt_fPadOdd t"
    "tt_fPosFile u = tt_fPosFile t" "tt_fPosRecord u = tt_fPosRecord t" by force
  have c: "enc1 pad it = w @ concat ws" using concat_item_writes [of pad it] ws(1) by simp
  have "le32 kMetaEom \<noteq> []" by (simp add: le32_def)
  from write_seq_ok [OF u(2,3,6) ws(3) this] u ws(1) c rep_size(3-5) [OF assms(1)] show ?thesis by (auto simp: add.assoc)
qed

lemma WriteRecord_ok:
  assumes "tape_rep pad bs as t" and "item_ok pad (TRec d)"
  shows "\<exists>t'. WriteRecord d t = (True, kOpCodeOK, t') \<and> tape_rep pad (bs @ [TRec d]) [] t'"
proof -
  let ?t = "(tt_inc kStatNVTWriteByt (length d) (tt_inc kStatNVTWriteRec 1 t))\<lparr>tt_fEom := False\<rparr>"
  have r: "tape_rep pad bs as ?t" using assms(1) by simp
  from write_item [OF r assms(2)] obtain t' where
    w: "write_seq (map (\<lambda>ds. (ds, False)) (item_writes pad (TRec d)) @ [(le32 kMetaEom, True)]) ?t = (True, t')" and
    t': "tt_fPosRecord t' = tt_fPosRecord ?t" "tt_fPosFile t' = tt_fPosFile ?t" "\<not> tt_fBad t'" "tt_fPadOdd t' = pad" "synced t'"
    "fl_data (tt_fFd t') = enc pad (bs @ [TRec d]) @ le32 kMetaEom" "tt_fPos t' = length (enc pad (bs @ [TRec d]))" by blast
  have "WriteRecord d t = (True, kOpCodeOK, IncPosRecord 1 t')"
    using w rep_size(4,5) [OF assms(1)] by (cases "pad \<and> odd (length d)") (auto simp: WriteRecord_def Let_def item_writes_def simp del: write_seq.simps)
  moreover have "tape_rep pad (bs @ [TRec d]) [] (IncPosRecord 1 t')"
    using t' assms r by (auto simp: tape_rep_def tail_ok_def synced_def)
  ultimately show ?thesis by blast
qed

lemma WriteEof_ok:
  assumes "tape_rep pad bs as t"
  shows "\<exists>t'. WriteEof t = (True, t') \<and> tape_rep pad (bs @ [TMark]) [] t'"
proof -
  let ?t = "(tt_inc kStatNVTWriteEof 1 t)\<lparr>tt_fEom := False\<rparr>"
  have r: "tape_rep pad bs as ?t" using assms(1) by simp
  have ok: "item_ok pad TMark" by (simp add: item_ok_def)
  from write_item [OF r ok] obtain t' where
    w: "write_seq (map (\<lambda>ds. (ds, False)) (item_writes pad TMark) @ [(le32 kMetaEom, True)]) ?t = (True, t')" and
    t': "tt_fPosRecord t' = tt_fPosRecord ?t" "tt_fPosFile t' = tt_fPosFile ?t" "\<not> tt_fBad t'" "tt_fPadOdd t' = pad" "synced t'"
    "fl_data (tt_fFd t') = enc pad (bs @ [TMark]) @ le32 kMetaEom" "tt_fPos t' = length (enc pad (bs @ [TMark]))" by blast
  let ?t' = "t'\<lparr>tt_fPosFile := tt_fPosFile t' + 1, tt_fPosRecord := 0\<rparr>"
  have "WriteEof t = (True, ?t')"
    using w rep_size(4) [OF assms(1)] by (simp add: WriteEof_def Let_def item_writes_def del: write_seq.simps)
  moreover have "tape_rep pad (bs @ [TMark]) [] ?t'"
    using t' assms r ok by (auto simp: tape_rep_def tail_ok_def synced_def)
  ultimately show ?thesis by blast
qed

lemma Rewind_ok:
  assumes "tape_rep pad bs as t"
  shows "\<exists>t'. Rewind t = (True, kOpCodeOK, t') \<and> tape_rep pad [] (bs @ as) t'"
proof -
  let ?t = "tt_inc kStatNVTRewind 1 t"
  have r: "tape_rep pad bs as ?t" using assms by simp
  let ?t' = "(moved 0 ?t)\<lparr>tt_fBot := True, tt_fEot := False, tt_fEom := False, tt_fPosFile := 0, tt_fPosRecord := 0,
                 tt_fBad := False, tt_fTruncPend := True\<rparr>"
  have "Rewind t = (True, kOpCodeOK, ?t')"
    using tap_Seek_ok(3) [OF rep_size(1) [OF r], of 0] by (simp add: Rewind_def Let_def)
  moreover have "tape_rep pad [] (bs @ as) ?t'" using r by (auto simp: tape_rep_def synced_def)
  ultimately show ?thesis by blast
qed

section \<open>Spacing\<close>

text \<open>Spacing on the items: the number of records passed, the operation code and the new position. Before
  the position the last item comes first in \<open>a_back\<close>.\<close>

fun a_forw :: "nat \<Rightarrow> titem list \<Rightarrow> titem list \<Rightarrow> nat \<times> opcode \<times> titem list \<times> titem list" where
  "a_forw 0 bs as = (0, kOpCodeOK, bs, as)"
| "a_forw (Suc n) bs [] = (0, kOpCodeEom, bs, [])"
| "a_forw (Suc n) bs (TMark # as) = (0, kOpCodeEof, bs @ [TMark], as)"
| "a_forw (Suc n) bs (TRec d # as) = (let (k, oc, p) = a_forw n (bs @ [TRec d]) as in (Suc k, oc, p))"

fun a_back :: "nat \<Rightarrow> titem list \<Rightarrow> titem list \<Rightarrow> nat \<times> opcode \<times> titem list \<times> titem list" where
  "a_back 0 rbs as = (0, kOpCodeOK, rbs, as)"
| "a_back (Suc n) [] as = (0, kOpCodeBot, [], as)"
| "a_back (Suc n) (TMark # rbs) as = (0, kOpCodeEof, rbs, TMark # as)"
| "a_back (Suc n) (TRec d # rbs) as = (let (k, oc, p) = a_back n rbs (TRec d # as) in (Suc k, oc, p))"

lemma space_forw_ok:
  "tape_rep pad bs as t \<Longrightarrow> a_forw n bs as = (k, oc, bs', as') \<Longrightarrow>
     \<exists>t'. space_forw_loop n nd t = (True, nd + k, oc, t') \<and> tape_rep pad bs' as' t'"
proof (induction n bs as arbitrary: nd t k oc bs' as' rule: a_forw.induct)
  case (2 n bs)
  show ?case
  proof (cases "tt_fPos t = tt_fSize t")
    case False
    have "tap_Seek 4 (- 1) (moved (tt_fPos t + 4) t) = (True, moved (tt_fPos t) t)"
      using tap_Seek_ok(2) [of "moved (tt_fPos t + 4) t" 4] rep_size(1) [OF 2(1)] by simp
    with 2 rep_meta_eom [OF 2(1) False] False rep_moved_self [OF 2(1)] show ?thesis by auto
  qed (use 2 in auto)
next
  case (3 n bs as)
  with rep_meta_mark [OF 3(1)] rep_forw_mark [OF 3(1)] show ?case by auto
next
  case (4 n bs d as)
  note m = rep_meta_rec [OF 4(2)]
  obtain k1 where k1: "a_forw n (bs @ [TRec d]) as = (k1, oc, bs', as')" "k = Suc k1"
    using 4(3) by (auto split: prod.splits)
  let ?l = "length (enc1 pad (TRec d))"
  have l: "?l = 4 + (4 + BytePadding (length d) t)" using m(6) by (simp add: length_enc1_rec)
  have bp: "BytePadding (length d) (moved (tt_fPos t + 4) t) = BytePadding (length d) t" by (simp add: BytePadding_def)
  have sz: "tt_fPos t + ?l \<le> tt_fSize t" using rep_size(2) [OF 4(2)] by simp
  have sk: "tap_Seek (4 + BytePadding (length d) t) 1 (moved (tt_fPos t + 4) t) = (True, moved (tt_fPos t + ?l) t)"
    using tap_Seek_ok(1) [of "moved (tt_fPos t + 4) t"] rep_size(1) [OF 4(2)] by (simp add: l add.assoc)
  have "space_forw_loop (Suc n) nd t = space_forw_loop n (nd + 1) (IncPosRecord 1 (moved (tt_fPos t + ?l) t))"
    using m(1,2) len_meta [OF m(3,4)] ParseMeta_len [OF m(4)] bp sk sz l by (simp add: CheckSizeForw_def Let_def)
  with 4(1) [OF rep_forw_rec [OF 4(2)] k1(1), of "nd + 1"] k1(2) show ?case by auto
qed auto

lemma space_back_ok:
  "tape_rep pad (rev rbs) as t \<Longrightarrow> tt_fTruncPend t \<Longrightarrow> a_back n rbs as = (k, oc, rbs', as') \<Longrightarrow>
     \<exists>t'. space_back_loop n nd t = (True, nd + k, oc, t') \<and> tape_rep pad (rev rbs') as' t'"
proof (induction n rbs as arbitrary: nd t k oc rbs' as' rule: a_back.induct)
  case (2 n as)
  then show ?case by (auto simp: tape_rep_def synced_def)
next
  case (3 n rbs as)
  let ?q = "length (enc pad (rev rbs))"
  have r: "tape_rep pad (rev rbs @ [TMark]) as t" using 3(1) by simp
  have pos: "tt_fPos t = ?q + 4" using rep_size(3) [OF r] by (simp add: enc1_def)
  have sy: "synced t" by (rule rep_size(1) [OF r])
  have sz: "tt_fPos t \<le> tt_fSize t" using rep_size(2) [OF r] by simp
  have "drop ?q (fl_data (tt_fFd t)) = le32 kMetaEof @ drop (?q + 4) (fl_data (tt_fFd t))"
    using r by (auto simp: tape_rep_def enc1_def)
  then have "tap_Read 4 (tt_stack t) (moved ?q t) = (True, le32 kMetaEof @ drop 4 (tt_stack t), moved (?q + 4) t)"
    using tap_Read_ok [of "moved ?q t" 4 "tt_stack t"] sy sz pos by simp
  moreover have "tap_Seek 4 (- 1) t = (True, moved ?q t)" using tap_Seek_ok(2) [OF sy, of 4] pos by simp
  moreover have "tap_Seek 4 (- 1) (moved (?q + 4) t) = (True, moved ?q t)"
    using tap_Seek_ok(2) [of "moved (?q + 4) t" 4] sy by simp
  ultimately have "space_back_loop (Suc n) nd t =
      (True, nd, kOpCodeEof, (moved ?q t)\<lparr>tt_fPosFile := tt_fPosFile t - 1, tt_fPosRecord := - 1\<rparr>)"
    using pos by (simp add: CheckSizeBack_def Let_def)
  with rep_back_mark [OF r 3(2)] 3(3) show ?case by auto
next
  case (4 n d rbs as)
  let ?q = "length (enc pad (rev rbs))" and ?n = "length d"
  have r: "tape_rep pad (rev rbs @ [TRec d]) as t" using 4(2) by simp
  have ok: "item_ok pad (TRec d)" using rep_size(6) [OF r] by simp
  then have n: "0 < ?n" "?n < 65536" by (auto simp: item_ok_def split: if_splits)
  have bp: "BytePadding ?n t = ?n + (if pad \<and> odd ?n then 1 else 0)" using BytePadding_len [of t d] ok rep_size(5) [OF r] by simp
  have pos: "tt_fPos t = ?q + 4 + BytePadding ?n t + 4" using rep_size(3) [OF r] bp by (simp add: length_enc1_rec)
  have sy: "synced t" by (rule rep_size(1) [OF r])
  have sz: "tt_fPos t \<le> tt_fSize t" using rep_size(2) [OF r] by simp
  let ?p = "?q + 4 + BytePadding ?n t"
  obtain tail where dat: "fl_data (tt_fFd t) = (enc pad (rev rbs) @ le32 (of_nat ?n) @ d @ (if pad \<and> odd ?n then [0] else [])) @
      le32 (of_nat ?n) @ enc pad as @ tail"
    using r by (auto simp: tape_rep_def enc1_def)
  have "length (enc pad (rev rbs) @ le32 (of_nat ?n) @ d @ (if pad \<and> odd ?n then [0] else [])) = ?p" using bp by simp
  then have "drop ?p (fl_data (tt_fFd t)) = le32 (of_nat ?n) @ enc pad as @ tail" unfolding dat by (metis append_eq_conv_conj)
  then have rd: "tap_Read 4 (tt_stack t) (moved ?p t) = (True, le32 (of_nat ?n) @ drop 4 (tt_stack t), moved (tt_fPos t) t)"
    using tap_Read_ok [of "moved ?p t" 4 "tt_stack t"] sy sz pos by simp
  have "tt_fPos t - 4 = ?p" and "4 \<le> tt_fPos t" using pos by simp_all
  with tap_Seek_ok(2) [OF sy, of 4] have s1: "tap_Seek 4 (- 1) t = (True, moved ?p t)" by metis
  have s2: "tap_Seek (8 + BytePadding ?n t) (- 1) (moved (tt_fPos t) t) = (True, moved ?q t)"
    using tap_Seek_ok(2) [of "moved (tt_fPos t) t" "8 + BytePadding ?n t"] sy pos by simp
  have b2: "BytePadding ?n (moved (tt_fPos t) t) = BytePadding ?n t" by (simp add: BytePadding_def)
  have "space_back_loop (Suc n) nd t = space_back_loop n (nd + 1) (IncPosRecord (- 1) (moved ?q t))"
    using pos rd s1 s2 b2 len_meta [OF n] ParseMeta_len [OF n(2)] by (simp add: CheckSizeBack_def Let_def)
  moreover obtain k1 where k1: "a_back n rbs (TRec d # as) = (k1, oc, rbs', as')" "k = Suc k1"
    using 4(4) by (auto split: prod.splits)
  ultimately show ?case using 4(1) [OF rep_back_rec [OF r 4(3)] _ k1(1), of "nd + 1"] 4(3) by auto
qed auto


text \<open>C13: Spacing over the tape does what it does on the sequence of items: \<open>SpaceForw\<close> and \<open>SpaceBack\<close> pass up
  to the given number of records, stop behind or before a tape mark and at the ends of the tape, and
  return the number of records and the reason; the position counters stay right.\<close>

theorem tape_spacing:
  assumes "tape_rep pad (rev rbs) as t"
  shows "(case a_forw n (rev rbs) as of (k, oc, bs', as') \<Rightarrow>
      \<exists>t'. SpaceForw n t = (True, k, oc, t') \<and> tape_rep pad bs' as' t') \<and>
    (case a_back n rbs as of (k, oc, rbs', as') \<Rightarrow>
      \<exists>t'. SpaceBack n t = (True, k, oc, t') \<and> tape_rep pad (rev rbs') as' t')"
proof
  obtain k oc bs' as' where f: "a_forw n (rev rbs) as = (k, oc, bs', as')" by (metis prod_cases4)
  have "tape_rep pad (rev rbs) as (tt_inc kStatNVTSpaForw 1 t)" using assms by simp
  from space_forw_ok [OF this f, of 0] rep_size(4) [OF assms] f show "case a_forw n (rev rbs) as of (k, oc, bs', as') \<Rightarrow>
      \<exists>t'. SpaceForw n t = (True, k, oc, t') \<and> tape_rep pad bs' as' t'" by (auto simp: SpaceForw_def Let_def)
next
  obtain k oc rbs' as' where f: "a_back n rbs as = (k, oc, rbs', as')" by (metis prod_cases4)
  let ?t = "(tt_inc kStatNVTSpaBack 1 t)\<lparr>tt_fEom := False, tt_fTruncPend := True\<rparr>"
  have "tape_rep pad (rev rbs) as ?t" using assms by (simp add: tape_rep_def synced_def)
  from space_back_ok [OF this _ f, of 0] rep_size(4) [OF assms] f show "case a_back n rbs as of (k, oc, rbs', as') \<Rightarrow>
      \<exists>t'. SpaceBack n t = (True, k, oc, t') \<and> tape_rep pad (rev rbs') as' t'" by (auto simp: SpaceBack_def Let_def)
qed

section \<open>Round trip\<close>

text \<open>Writing and reading sequences of items with any tape drive that offers the three operations.\<close>

fun put_all :: "(titem \<Rightarrow> 't \<Rightarrow> 't option) \<Rightarrow> titem list \<Rightarrow> 't \<Rightarrow> 't option" where
  "put_all put [] t = Some t"
| "put_all put (i # is) t = (case put i t of None \<Rightarrow> None | Some t' \<Rightarrow> put_all put is t')"

fun get_times :: "('t \<Rightarrow> (titem option \<times> 't) option) \<Rightarrow> nat \<Rightarrow> 't \<Rightarrow> (titem option list \<times> 't) option" where
  "get_times get 0 t = Some ([], t)"
| "get_times get (Suc n) t =
     (case get t of None \<Rightarrow> None
      | Some (i, t') \<Rightarrow> (case get_times get n t' of None \<Rightarrow> None | Some (is, t'') \<Rightarrow> Some (i # is, t'')))"

text \<open>What a tape drive promises: an item is written behind the position and ends the tape, rewinding goes to
  the begin, reading returns the next item or nothing at the end.\<close>

locale tape_drive =
  fixes rep :: "titem list \<Rightarrow> titem list \<Rightarrow> 't \<Rightarrow> bool"
    and writable :: "titem \<Rightarrow> bool"
    and put :: "titem \<Rightarrow> 't \<Rightarrow> 't option"
    and home :: "'t \<Rightarrow> 't option"
    and get :: "'t \<Rightarrow> (titem option \<times> 't) option"
  assumes put_law: "rep bs as t \<Longrightarrow> writable i \<Longrightarrow> \<exists>t'. put i t = Some t' \<and> rep (bs @ [i]) [] t'"
    and home_law: "rep bs as t \<Longrightarrow> \<exists>t'. home t = Some t' \<and> rep [] (bs @ as) t'"
    and get_law: "rep bs (i # as) t \<Longrightarrow> writable i \<Longrightarrow> \<exists>t'. get t = Some (Some i, t') \<and> rep (bs @ [i]) as t'"
    and end_law: "rep bs [] t \<Longrightarrow> \<exists>t'. get t = Some (None, t') \<and> rep bs [] t'"
begin

lemma put_all_rep: "rep bs as t \<Longrightarrow> list_all writable is \<Longrightarrow> is \<noteq> [] \<Longrightarrow> \<exists>t'. put_all put is t = Some t' \<and> rep (bs @ is) [] t'"
proof (induction "is" arbitrary: bs as t)
  case (Cons i "is")
  from put_law [OF Cons.prems(1), of i] Cons.prems(2) obtain t1 where t1: "put i t = Some t1" "rep (bs @ [i]) [] t1" by auto
  show ?case
  proof (cases "is = []")
    case False
    with Cons.IH [OF t1(2)] Cons.prems(2) t1 show ?thesis by auto
  qed (use t1 in auto)
qed simp

lemma get_all_rep:
  "rep bs is t \<Longrightarrow> list_all writable is \<Longrightarrow>
     \<exists>t'. get_times get (Suc (length is)) t = Some (map Some is @ [None], t') \<and> rep (bs @ is) [] t'"
proof (induction "is" arbitrary: bs t)
  case Nil
  with end_law [OF Nil(1)] show ?case by auto
next
  case (Cons i "is")
  from get_law [OF Cons.prems(1)] Cons.prems(2) obtain t1 where t1: "get t = Some (Some i, t1)" "rep (bs @ [i]) is t1" by auto
  from Cons.IH [OF t1(2)] Cons.prems(2) t1(1) show ?case by auto
qed

lemma written_is_read:
  assumes "rep [] as t" and "list_all writable is" and "is \<noteq> []"
  shows "\<exists>t1 t2 t3. put_all put is t = Some t1 \<and> home t1 = Some t2 \<and>
    get_times get (Suc (length is)) t2 = Some (map Some is @ [None], t3)"
proof -
  from put_all_rep [OF assms] obtain t1 where t1: "put_all put is t = Some t1" "rep is [] t1" by auto
  from home_law [OF t1(2)] obtain t2 where t2: "home t1 = Some t2" "rep [] is t2" by auto
  from get_all_rep [OF t2(2) assms(2)] t1 t2 show ?thesis by auto
qed

end

text \<open>The operations of the tap file in this form.\<close>

definition tap_put :: "titem \<Rightarrow> tape \<Rightarrow> tape option" where
  "tap_put i t = (case i of
     TRec d \<Rightarrow> (case WriteRecord d t of (ok, opc, t') \<Rightarrow> if ok \<and> opc = kOpCodeOK then Some t' else None)
   | TMark \<Rightarrow> (case WriteEof t of (ok, t') \<Rightarrow> if ok then Some t' else None))"

definition tap_home :: "tape \<Rightarrow> tape option" where
  "tap_home t = (case Rewind t of (ok, opc, t') \<Rightarrow> if ok \<and> opc = kOpCodeOK then Some t' else None)"

definition tap_get :: "nat \<Rightarrow> u8 list \<Rightarrow> tape \<Rightarrow> (titem option \<times> tape) option" where
  "tap_get nbyt buf t = (case ReadRecord nbyt buf t of (ok, ds, ndone, opc, t') \<Rightarrow>
     if \<not> ok then None
     else if opc = kOpCodeOK then Some (Some (TRec (take ndone ds)), t')
     else if opc = kOpCodeEof then Some (Some TMark, t')
     else if opc = kOpCodeEom then Some (None, t') else None)"

definition readable :: "bool \<Rightarrow> nat \<Rightarrow> titem \<Rightarrow> bool" where
  "readable pad nbyt i = (item_ok pad i \<and> (case i of TRec d \<Rightarrow> length d \<le> nbyt \<and> (pad \<longrightarrow> even (length d)) | TMark \<Rightarrow> True))"

interpretation tap: tape_drive "tape_rep pad" "readable pad nbyt" tap_put tap_home "tap_get nbyt buf" for pad nbyt buf
proof (unfold_locales, goal_cases)
  case (1 bs as t i)
  show ?case
  proof (cases i)
    case (TRec d)
    with 1 WriteRecord_ok [of pad bs as t d] show ?thesis by (auto simp: tap_put_def readable_def)
  next
    case TMark
    with WriteEof_ok [OF 1(1)] show ?thesis by (auto simp: tap_put_def)
  qed
next
  case (2 bs as t)
  then show ?case using Rewind_ok [OF 2] by (auto simp: tap_home_def)
next
  case (3 bs i as t)
  show ?case
  proof (cases i)
    case (TRec d)
    with 3 ReadRecord_rec [of pad bs d as t nbyt buf] show ?thesis by (auto simp: tap_get_def readable_def)
  next
    case TMark
    with 3 ReadRecord_mark [of pad bs as t nbyt buf] show ?thesis by (auto simp: tap_get_def)
  qed
next
  case (4 bs t)
  then show ?case using ReadRecord_eom [OF 4, of nbyt buf] by (auto simp: tap_get_def)
qed

text \<open>C12: What is written to a tape can be read back: after writing any sequence of records and tape marks from
  the begin of the tape and rewinding, reading returns exactly these records and marks and then the
  end of the medium. The records have at least one and at most 65535 bytes and fit into the read
  buffer; with the padding of odd records they have an even length.\<close>

theorem tape_roundtrip:
  assumes "tape_rep pad [] as t" and "list_all (readable pad nbyt) is" and "is \<noteq> []"
  shows "\<exists>t1 t2 t3. put_all tap_put is t = Some t1 \<and> tap_home t1 = Some t2 \<and>
    get_times (tap_get nbyt buf) (Suc (length is)) t2 = Some (map Some is @ [None], t3)"
  by (rule tap.written_is_read [OF assms])

definition demo_tape :: "bool \<Rightarrow> tape" where
  "demo_tape pad = (tape_new \<lparr>fl_fFd = 3, fl_writable = True, fl_data = [], fl_off = 0, fl_script = []\<rparr> [0, 0, 0, 0])
     \<lparr>tt_fBad := False, tt_fPadOdd := pad, tt_fTruncPend := True, tt_fPosFile := 0, tt_fPosRecord := 0\<rparr>"

lemma demo_tape_rep: "tape_rep pad [] [] (demo_tape pad)"
  by (simp add: tape_rep_def demo_tape_def tape_new_def synced_def tail_ok_def)

theorem tape_spacing_witness:
  "\<exists>t t'. tape_rep False [TRec [1]] [] t \<and> SpaceBack 3 t = (True, 1, kOpCodeBot, t') \<and> tape_rep False [] [TRec [1]] t'"
proof -
  have "item_ok False (TRec [1])" by (simp add: item_ok_def)
  from WriteRecord_ok [OF demo_tape_rep this] obtain t where t: "tape_rep False [TRec [1]] [] t" by auto
  then have "tape_rep False (rev [TRec [1]]) [] t" by simp
  from tape_spacing [OF this, of 3] t show ?thesis by (auto simp: numeral_3_eq_3)
qed

theorem tape_roundtrip_witness:
  "\<exists>t1 t2 t3. put_all tap_put [TRec [1, 2], TMark, TRec [3]] (demo_tape False) = Some t1 \<and> tap_home t1 = Some t2 \<and>
     get_times (tap_get 10 []) (Suc (Suc (Suc (Suc 0)))) t2 = Some ([Some (TRec [1, 2]), Some TMark, Some (TRec [3]), None], t3)"
proof -
  have "list_all (readable False 10) [TRec [1, 2], TMark, TRec [3]]" by (simp add: readable_def item_ok_def)
  from tape_roundtrip [OF demo_tape_rep this, of "[]"] show ?thesis by (simp del: put_all.simps get_times.simps)
qed

section \<open>Limits of reading\<close>

lemma le32_from:
  assumes "length xs = 4"
  shows "le32 (from_le32 xs) = xs"
proof -
  obtain a b c d where x: "xs = [a, b, c, d]"
    using assms by (auto simp: length_Suc_conv eval_nat_numeral)
  show ?thesis
    unfolding x le32_def from_le32_def by (simp, intro conjI; rule bit_word_eqI) (auto simp: bit_simps dest: bit_imp_le_length)
qed

lemma read_meta_any:
  assumes "synced t"
  shows "read_meta t = (if tt_fPos t + 4 \<le> tt_fSize t then (Some (from_le32 (take 4 (drop (tt_fPos t) (fl_data (tt_fFd t))))), moved (tt_fPos t + 4) t)
    else (None, SetBad t))"
proof -
  have "length (tt_stack t) = 4"
    using assms by (simp add: synced_def)
  then show ?thesis
    using tap_Read_ok [OF assms, of 4 "tt_stack t"] by (auto simp: read_meta_def CheckSizeForw_def)
qed

text \<open>A read with \<open>k < n\<close>, up to the place where the end tag is looked for.\<close>

lemma ReadRecord_short:
  assumes "tape_rep pad bs (TRec d # as) t" and k: "k = min nbyt (length d)" and n: "n = length d + (if pad \<and> odd (length d) then 1 else 0)" "k < n"
  shows "ReadRecord nbyt buf t = (case read_meta (moved (tt_fPos t + 4 + n + k) (tt_inc kStatNVTReadRec 1 t)) of
      (None, t3) \<Rightarrow> (False, take k d @ drop k buf, k, kOpCodeBadFormat, t3)
    | (Some metaend, t3) \<Rightarrow>
        if of_nat (length d) \<noteq> metaend then (False, take k d @ drop k buf, 0, kOpCodeBadFormat, SetBad t3)
        else let (oc', t6) = (if k < length d then (kOpCodeRecLenErr, tt_inc kStatNVTReadLErr 1 (IncPosRecord 1 t3)) else (kOpCodeOK, IncPosRecord 1 t3))
             in (True, take k d @ drop k buf, k, oc', tt_inc kStatNVTReadByt k t6))"
proof -
  let ?t = "tt_inc kStatNVTReadRec 1 t" and ?p = "tt_fPos t" and ?D = "fl_data (tt_fFd t)" and ?l = "of_nat (length d) :: u32"
  have r: "tape_rep pad bs (TRec d # as) ?t" using assms(1) by simp
  note m = rep_meta_rec [OF r]
  have sy: "synced ?t" using rep_size(1) [OF r] .
  have sz: "?p + n + 8 \<le> tt_fSize t" using rep_size(2) [OF r] by (simp add: length_enc1_rec n(1))
  have kd: "k \<le> length d" "length d \<le> n" using k n(1) by simp_all
  from rep_drop [OF r] obtain rest where dr: "drop ?p ?D = le32 ?l @ d @ rest" by (auto simp: enc1_def)
  have d1: "drop (?p + 4) ?D = d @ rest" using arg_cong [OF dr, of "drop 4"] by (simp add: add.commute)
  let ?t1 = "moved (?p + 4) ?t" and ?t2 = "moved (?p + 4 + k) ?t" and ?t3 = "moved (?p + 4 + n + k) ?t"
  have bp: "BytePadding (length d) ?t1 = n" using m(6) by (simp add: BytePadding_def n(1))
  have rd: "tap_Read k buf ?t1 = (True, take k d @ drop k buf, ?t2)" using tap_Read_ok [of ?t1 k buf] sy sz d1 kd by simp
  have sk: "tap_Seek n 1 ?t2 = (True, ?t3)" using tap_Seek_ok(1) [of ?t2 n] sy by (simp add: ac_simps)
  have ki: "(if length d \<le> nbyt then length d else nbyt) = k" using k by simp
  have "ReadRecord nbyt buf t = read_data ?l nbyt buf ?t1"
    using m(1,2) rep_size(4) [OF r] len_meta [OF m(3,4)] by (simp add: ReadRecord_def Let_def)
  then show ?thesis
    unfolding read_data_def ParseMeta_len [OF m(4)] prod.case Let_def bp ki rd using n(2) sk sz by (simp add: CheckSizeForw_def split: prod.split option.split)
qed

text \<open>C39: A record that is longer than the number of bytes asked for, and an odd record on a tape with padding, is not read right. Let \<open>n\<close> be the length of the record
  on the tape with its padding and \<open>k < n\<close> the number of bytes that are read. Then the code does not seek over the remaining bytes
  but over \<open>n\<close> bytes, and takes the four bytes \<open>k\<close> bytes behind the place of the end tag for the end tag. If these are not the record length by accident
  the read fails with a format error and the tape is bad from then on; if they are, the read succeeds and leaves the tape \<open>k\<close> bytes behind the begin of the next
  item. For the last record of a file without a mark for the end of the medium it always fails.\<close>

theorem ReadRecord_seek_too_far:
  assumes "tape_rep pad bs (TRec d # as) t" and k: "k = min nbyt (length d)" and n: "n = length d + (if pad \<and> odd (length d) then 1 else 0)" "k < n"
  shows "(if take 4 (drop (tt_fPos t + 4 + n + k) (fl_data (tt_fFd t))) = le32 (of_nat (length d))
     then \<exists>t'. ReadRecord nbyt buf t = (True, take k d @ drop k buf, k, if k < length d then kOpCodeRecLenErr else kOpCodeOK, t') \<and>
       tt_fPos t' = tt_fPos t + length (enc1 pad (TRec d)) + k
     else \<exists>ds nd t'. ReadRecord nbyt buf t = (False, ds, nd, kOpCodeBadFormat, t') \<and> tt_fBad t') \<and>
   (0 < k \<and> tt_fSize t = tt_fPos t + length (enc1 pad (TRec d)) \<longrightarrow> \<not> fst (ReadRecord nbyt buf t))"
proof -
  let ?t = "tt_inc kStatNVTReadRec 1 t" and ?p = "tt_fPos t" and ?D = "fl_data (tt_fFd t)" and ?l = "of_nat (length d) :: u32"
  let ?tag = "take 4 (drop (?p + 4 + n + k) ?D)" and ?t3 = "moved (?p + 4 + n + k) ?t"
  note step = ReadRecord_short [OF assms, of buf]
  have sy: "synced ?t" using rep_size(1) [OF assms(1)] by (simp add: synced_def)
  have le: "length (enc1 pad (TRec d)) = 8 + n" by (simp add: length_enc1_rec n(1))
  have sD: "tt_fSize t = length ?D" using sy by (simp add: synced_def)
  have mt: "read_meta ?t3 = (if ?p + 4 + n + k + 4 \<le> tt_fSize t then (Some (from_le32 ?tag), moved (?p + 4 + n + k + 4) ?t) else (None, SetBad ?t3))"
    using read_meta_any [of ?t3] sy by simp
  have tag: "?tag = le32 ?l \<longleftrightarrow> ?p + 4 + n + k + 4 \<le> tt_fSize t \<and> from_le32 ?tag = ?l"
  proof (cases "?p + 4 + n + k + 4 \<le> tt_fSize t")
    case True
    then have "length ?tag = 4" using sD by simp
    then show ?thesis using True le32_from [of ?tag] by (metis from_le32')
  next
    case False
    then have "length ?tag < 4" using sD by simp
    then show ?thesis using False length_le32 by (metis less_irrefl)
  qed
  show ?thesis
  proof (cases "?tag = le32 ?l")
    case True
    have fit: "?p + 4 + n + k + 4 \<le> tt_fSize t" "from_le32 ?tag = ?l" using True by (simp_all add: tag)
    have rm: "read_meta ?t3 = (Some ?l, moved (?p + 4 + n + k + 4) ?t)" unfolding mt fit(2) using fit(1) by simp
    have "\<exists>t'. ReadRecord nbyt buf t = (True, take k d @ drop k buf, k, if k < length d then kOpCodeRecLenErr else kOpCodeOK, t') \<and>
       tt_fPos t' = ?p + length (enc1 pad (TRec d)) + k"
      unfolding step rm le by simp
    moreover have "\<not> (0 < k \<and> tt_fSize t = ?p + length (enc1 pad (TRec d)))" using fit(1) le by arith
    ultimately show ?thesis unfolding if_P [OF True] by blast
  next
    case False
    have "\<exists>ds nd t'. ReadRecord nbyt buf t = (False, ds, nd, kOpCodeBadFormat, t') \<and> tt_fBad t'"
    proof (cases "?p + 4 + n + k + 4 \<le> tt_fSize t")
      case True
      then have "from_le32 ?tag \<noteq> ?l" using False tag by blast
      then show ?thesis unfolding step mt using True by (auto simp: SetBad_def)
    next
      case no: False
      then show ?thesis unfolding step mt by (auto simp: SetBad_def)
    qed
    then show ?thesis using False by auto
  qed
qed

text \<open>A record of two bytes read with a count of one, and a padded record of one byte.\<close>

theorem ReadRecord_seek_too_far_witness:
  "(\<exists>t. tape_rep False [] [TRec [1, 2]] t \<and> \<not> fst (ReadRecord 1 [] t)) \<and> (\<exists>t. tape_rep True [] [TRec [7]] t \<and> \<not> fst (ReadRecord 10 [] t))"
proof -
  let ?t = "\<lambda>pad is. (demo_tape pad)\<lparr>tt_fFd := (tt_fFd (demo_tape pad))\<lparr>fl_data := enc pad is\<rparr>, tt_fSize := length (enc pad is), tt_fTruncPend := True\<rparr>"
  have r: "tape_rep False [] [TRec [1, 2]] (?t False [TRec [1, 2]])" "tape_rep True [] [TRec [7]] (?t True [TRec [7]])"
    by (simp_all add: tape_rep_def demo_tape_def tape_new_def synced_def tail_ok_def item_ok_def)
  have "tt_fPos (?t pad is) = 0" for pad "is"
    by (simp add: demo_tape_def tape_new_def)
  then show ?thesis
    using ReadRecord_seek_too_far [OF r(1), of 1 1 2 "[]"] ReadRecord_seek_too_far [OF r(2), of 1 10 2 "[]"] r by auto
qed

text \<open>A bad tape stays bad: on a tape with a format error every read, write and space operation fails with the
  code for a bad format and changes nothing but its call counter; only \<open>Rewind\<close> makes the tape usable
  again.\<close>

theorem bad_tape_sticky:
  assumes "tt_fBad t"
  shows "ReadRecord nbyt buf t = (False, buf, 0, kOpCodeBadFormat, tt_inc kStatNVTReadRec 1 t) \<and>
    WriteRecord ds t = (False, kOpCodeBadFormat, tt_inc kStatNVTWriteByt (length ds) (tt_inc kStatNVTWriteRec 1 t)) \<and>
    WriteEof t = (False, tt_inc kStatNVTWriteEof 1 t) \<and>
    SpaceForw n t = (False, 0, kOpCodeBadFormat, tt_inc kStatNVTSpaForw 1 t) \<and>
    SpaceBack n t = (False, 0, kOpCodeBadFormat, tt_inc kStatNVTSpaBack 1 t) \<and>
    (\<forall>opc t'. Rewind t = (True, opc, t') \<longrightarrow> \<not> tt_fBad t' \<and> tt_fPos t' = 0 \<and> tt_fPosFile t' = 0)"
proof (intro conjI allI impI)
  fix opc t' assume r: "Rewind t = (True, opc, t')"
  obtain ok u where s: "tap_Seek 0 0 (tt_inc kStatNVTRewind 1 t) = (ok, u)" by fastforce
  with r have ok and t': "t' = u\<lparr>tt_fBot := True, tt_fEot := False, tt_fEom := False, tt_fPosFile := 0, tt_fPosRecord := 0,
      tt_fBad := False, tt_fTruncPend := True\<rparr>"
    by (cases ok; simp add: Rewind_def)+
  with s have "tt_fPos u = 0" by (auto simp: tap_Seek_def UpdatePos_def Let_def split: prod.splits if_splits)
  with t' show "\<not> tt_fBad t'" "tt_fPos t' = 0" "tt_fPosFile t' = 0" by simp_all
qed (use assms in \<open>simp_all add: ReadRecord_def WriteRecord_def WriteEof_def SpaceForw_def SpaceBack_def Let_def\<close>)

theorem bad_tape_sticky_witness:
  "fst (WriteRecord [1] ((demo_tape False)\<lparr>tt_fBad := True\<rparr>)) = False"
  using bad_tape_sticky [of "(demo_tape False)\<lparr>tt_fBad := True\<rparr>" 1 "[]" "[1]" 1] by simp

section \<open>Positioning to a file\<close>

lemma marks_append [simp]: "marks (bs @ as) = marks bs + marks as"
  by (simp add: marks_def)

lemma marks_nonneg: "0 \<le> marks bs"
  by (simp add: marks_def)

lemma a_forw_progress:
  "a_forw n bs as = (k, oc, bs', as') \<Longrightarrow> bs' @ as' = bs @ as \<and> length as' \<le> length as \<and> (0 < n \<and> as \<noteq> [] \<longrightarrow> length as' < length as) \<and>
     (oc = kOpCodeOK \<and> marks bs' = marks bs \<or> oc = kOpCodeEof \<and> bs' \<noteq> [] \<and> last bs' = TMark \<and> marks bs' = marks bs + 1 \<or>
      oc = kOpCodeEom \<and> as' = [] \<and> marks bs' = marks bs)"
proof (induction n bs as arbitrary: k oc bs' as' rule: a_forw.induct)
  case (3 n bs as)
  then show ?case by (auto simp: marks_def is_rec_def)
next
  case (4 n bs d as)
  from "4.prems" obtain k1 where k1: "a_forw n (bs @ [TRec d]) as = (k1, oc, bs', as')" by (auto split: prod.splits)
  have "marks [TRec d] = 0" by (simp add: marks_def is_rec_def)
  with "4.IH" [OF k1] show ?case by auto
qed auto

lemma a_forw_end: "0 < n \<Longrightarrow> a_forw n bs [] = (0, kOpCodeEom, bs, [])"
  by (cases n) auto

lemma SpaceForw_ok:
  assumes "tape_rep pad bs as t" and "a_forw n bs as = (k, oc, bs', as')"
  shows "\<exists>t'. SpaceForw n t = (True, k, oc, t') \<and> tape_rep pad bs' as' t'"
proof -
  have "tape_rep pad bs as (tt_inc kStatNVTSpaForw 1 t)" using assms by simp
  from space_forw_ok [OF this assms(2), of 0] rep_size(4) [OF assms(1)] show ?thesis by (auto simp: SpaceForw_def Let_def)
qed

text \<open>The position of file \<open>n\<close> on a tape with the items \<open>bs @ as\<close>: directly behind mark number \<open>n\<close>, or the end of the tape if there are fewer marks.\<close>

definition at_file :: "int \<Rightarrow> titem list \<Rightarrow> titem list \<Rightarrow> bool" where
  "at_file n bs as = (if n \<le> marks (bs @ as) then marks bs = n \<and> (bs = [] \<or> last bs = TMark) else as = [])"

lemma pos_file_loop_ends:
  "tape_rep pad bs as t \<Longrightarrow> marks bs \<le> n \<Longrightarrow> bs = [] \<or> last bs = TMark \<or> marks bs \<noteq> n \<Longrightarrow>
     \<exists>t' bs' as'. pos_file_loop n True t = Some (Inr t') \<and> tape_rep pad bs' as' t' \<and> bs' @ as' = bs @ as \<and> at_file n bs' as'"
proof (induction "length as" arbitrary: bs as t rule: less_induct)
  case less
  have pf: "tt_fPosFile t = marks bs" using less.prems(1) by (simp add: tape_rep_def)
  show ?case
  proof (cases "n = marks bs")
    case True
    have "at_file n bs as" using True less.prems(3) marks_nonneg [of as] by (auto simp: at_file_def)
    moreover have "pos_file_loop n True t = Some (Inr t)" using True pf by (subst pos_file_loop.simps) simp
    ultimately show ?thesis using less.prems(1) by blast
  next
    case False
    then have lt: "marks bs < n" using less.prems(2) by simp
    obtain k oc bs1 as1 where f: "a_forw kSpaceAll bs as = (k, oc, bs1, as1)" by (metis prod_cases4)
    note pr = a_forw_progress [OF f]
    from SpaceForw_ok [OF less.prems(1) f] obtain t1 where t1: "SpaceForw kSpaceAll t = (True, k, oc, t1)" "tape_rep pad bs1 as1 t1" by blast
    have step: "pos_file_loop n True t = (if oc = kOpCodeEom then Some (Inr t1) else pos_file_loop n True t1)"
      using False pf t1(1) by (subst pos_file_loop.simps) simp
    show ?thesis
    proof (cases "oc = kOpCodeEom")
      case True
      then have e: "as1 = []" "marks bs1 = marks bs" "bs1 @ as1 = bs @ as" using pr by auto
      then have "at_file n bs1 as1" using lt by (simp add: at_file_def)
      then show ?thesis using True step t1(2) e(3) by auto
    next
      case go: False
      have "as \<noteq> []" using f go a_forw_end [of kSpaceAll bs] by (auto simp: kSpaceAll_def)
      then have sh: "length as1 < length as" using pr by (simp add: kSpaceAll_def)
      have "marks bs1 \<le> n" "bs1 = [] \<or> last bs1 = TMark \<or> marks bs1 \<noteq> n" using pr go lt by auto
      from less.hyps [OF sh t1(2) this] show ?thesis using step go pr by auto
    qed
  qed
qed

text \<open>C36: Positioning to a file: for a tape with any sequence of items \<open>SetPosFile\<close> returns without an
  exception. If the tape has at least \<open>n\<close> tape marks then it stands directly behind mark number \<open>n\<close>, at its begin for \<open>n = 0\<close>;
  otherwise it stands at its end. A negative file number means 0.\<close>

theorem SetPosFile_ends:
  assumes "tape_rep pad bs as t"
  shows "\<exists>t' bs' as'. SetPosFile n t = Some (Inr t') \<and> tape_rep pad bs' as' t' \<and> bs' @ as' = bs @ as \<and> at_file (max n 0) bs' as'"
proof -
  from Rewind_ok [OF assms] obtain t1 where t1: "Rewind t = (True, kOpCodeOK, t1)" "tape_rep pad [] (bs @ as) t1" by blast
  have "marks [] \<le> max n 0" by (simp add: marks_def)
  from pos_file_loop_ends [OF t1(2) this] obtain t' bs' as' where
    "pos_file_loop (max n 0) True t1 = Some (Inr t')" "tape_rep pad bs' as' t'" "bs' @ as' = bs @ as" "at_file (max n 0) bs' as'" by auto
  moreover have "(if n < 0 then 0 else n) = max n 0" by (simp add: max_def)
  ultimately show ?thesis using t1(1) by (auto simp: SetPosFile_def)
qed

text \<open>File 1 of a tape with three files.\<close>

theorem SetPosFile_ends_witness:
  "\<exists>t t' bs' as'. tape_rep False [] [TRec [1], TMark, TRec [2], TMark, TRec [3]] t \<and> SetPosFile 1 t = Some (Inr t') \<and> tape_rep False bs' as' t' \<and>
     bs' = [TRec [1], TMark] \<and> as' = [TRec [2], TMark, TRec [3]]"
proof -
  let ?is = "[TRec [1], TMark, TRec [2], TMark, TRec [3]]"
  let ?t = "(demo_tape False)\<lparr>tt_fFd := (tt_fFd (demo_tape False))\<lparr>fl_data := enc False ?is\<rparr>, tt_fSize := length (enc False ?is), tt_fTruncPend := True\<rparr>"
  have r: "tape_rep False [] ?is ?t"
    by (simp add: tape_rep_def demo_tape_def tape_new_def synced_def tail_ok_def item_ok_def)
  from SetPosFile_ends [OF r, of 1] obtain t' bs' as' where
    s: "SetPosFile 1 ?t = Some (Inr t')" "tape_rep False bs' as' t'" "bs' @ as' = ?is" "at_file 1 bs' as'"
    by auto
  have "marks bs' = 1 \<and> (bs' = [] \<or> last bs' = TMark)"
    using s(4) unfolding at_file_def s(3) by (simp add: marks_def is_rec_def)
  then have "bs' = [TRec [1], TMark] \<and> as' = [TRec [2], TMark, TRec [3]]"
    using s(3) by (auto simp: append_eq_Cons_conv marks_def is_rec_def)
  then show ?thesis
    using r s(1,2) by blast
qed

end
