(* ===== verification/Rw11LoadAbs.thy ===== *)
theory Rw11LoadAbs
  imports Rw11CpuMem
begin

text \<open>
  The loader for absolute binaries, \<open>Rw11Cpu::LoadAbs\<close>, against a description of the file format: what
  is in memory after a well formed file, and after a file with a bad block. The format, and the effect
  of a file on memory, are stated over bytes (\<open>abs_bytes\<close>, \<open>abs_mem\<close>); \<open>lda_rel\<close> relates the state of the
  loader within a block to them.
\<close>

section \<open>Bytes and words\<close>

definition put_bytes :: "nat \<Rightarrow> u8 list \<Rightarrow> (nat \<Rightarrow> u8) \<Rightarrow> nat \<Rightarrow> u8" where
  "put_bytes a bs m = (\<lambda>i. if a \<le> i \<and> i < a + length bs then bs ! (i - a) else m i)"

lemma pairs_snoc_even: "even (length ys) \<Longrightarrow> pairs (ys @ [y]) = pairs ys"
  by (induction ys rule: pairs.induct) auto

lemma pairs_snoc_odd: "odd (length ys) \<Longrightarrow> pairs (ys @ [y]) = pairs ys @ [mk16 (last ys) y]"
  by (induction ys rule: pairs.induct) auto

lemma put_pairs_even: "even (length ys) \<Longrightarrow> wr_words a (pairs ys) m = put_bytes a ys m"
  by (rule ext) (auto simp: wr_words_def put_bytes_def length_pairs bytes16_pairs)

lemma put_pairs_odd:
  assumes "odd (length ys)"
  shows "(wr_words a (pairs ys) m)(a + length ys - 1 := last ys) = put_bytes a ys m"
proof -
  obtain zs z where ys: "ys = zs @ [z]"
    using assms by (cases ys rule: rev_cases) auto
  then have "even (length zs)"
    using assms by simp
  then show ?thesis
    by (auto simp: ys pairs_snoc_even put_pairs_even fun_eq_iff put_bytes_def nth_append)
qed

lemma put_bytes_Cons: "put_bytes (a + 1) bs (m(a := b)) = put_bytes a (b # bs) m"
  by (rule ext) (auto simp: put_bytes_def nth_Cons' not_le)

lemma put_bytes_Nil [simp]: "put_bytes a [] m = m"
  by (rule ext) (auto simp: put_bytes_def)

section \<open>Blocks\<close>

text \<open>A block holds 1, 0, the byte count of block header and data, the address, the data, and a byte that makes
  the sum zero. \<open>lda_idle\<close> is the state of the loader between blocks.\<close>

definition abs_hdr :: "u16 \<Rightarrow> u16 \<Rightarrow> u8 list" where
  "abs_hdr cnt a = [1, 0, lo8 cnt, hi8 cnt, lo8 a, hi8 a]"

definition abs_block :: "u16 \<Rightarrow> u8 list \<Rightarrow> u8 list" where
  "abs_block a bs = abs_hdr (of_nat (6 + length bs)) a @ bs @ [- sum_list (abs_hdr (of_nat (6 + length bs)) a @ bs)]"

definition lda_idle :: "lda \<Rightarrow> bool" where
  "lda_idle d = (ld_state d = s_chr0 \<and> ld_chrnum d = - 1 \<and> ld_chksum d = 0 \<and> ld_data d = [])"

lemma lda_zeros:
  assumes "lda_idle d"
  shows "lda_loop k p (replicate z 0 @ r) e d s = lda_loop k p r e d s"
proof (induction z)
  case (Suc z)
  show ?case
    using assms Suc by (cases d) (simp add: lda_step_def lda_idle_def Let_def)
qed simp

lemma cnt_bytes: "uint (lo8 w) OR push_bit 8 (uint (hi8 w)) = uint w"
  by (rule bit_eqI) (auto simp: bit_simps bit_lo8 bit_hi8 dest: bit_imp_le_length)

lemma addr_bytes: "ucast (lo8 w) OR push_bit 8 (ucast (hi8 w)) = w"
  using mk16_lo8_hi8 [of w] by (simp only: mk16_def)

definition after_hdr :: "u16 \<Rightarrow> u16 \<Rightarrow> lda \<Rightarrow> lda" where
  "after_hdr cnt a d = d\<lparr>ld_state := (if uint cnt = 6 then s_chksum else s_data), ld_chrnum := 5,
     ld_chksum := sum_list (abs_hdr cnt a), ld_bytcnt := uint cnt, ld_ldaddr := a, ld_addr := a, ld_word := 0, ld_firstodd := odd16 a\<rparr>"

lemma lda_header:
  assumes "lda_idle d"
  shows "lda_loop k p (abs_hdr cnt a @ r) e d s = lda_loop k p r e (after_hdr cnt a d) s"
  using assms
  by (cases d) (simp add: abs_hdr_def lda_step_def lda_idle_def Let_def cnt_bytes addr_bytes after_hdr_def add.commute add.left_commute)


text \<open>The state of the loader after the bytes \<open>xs\<close> of a block at \<open>a\<close> with \<open>n\<close> data bytes; \<open>m\<close> is the memory
  before the block. A first byte at an odd address is in memory already, the others are collected.\<close>

definition body :: "u16 \<Rightarrow> u8 list \<Rightarrow> u8 list" where
  "body a xs = (if odd (unat a) then tl xs else xs)"

definition early :: "u16 \<Rightarrow> u8 list \<Rightarrow> (nat \<Rightarrow> u8) \<Rightarrow> nat \<Rightarrow> u8" where
  "early a xs m = (if odd (unat a) \<and> xs \<noteq> [] then m(unat a := hd xs) else m)"

definition lda_rel :: "u16 \<Rightarrow> nat \<Rightarrow> u8 list \<Rightarrow> (nat \<Rightarrow> u8) \<Rightarrow> nat \<Rightarrow> u8 \<Rightarrow> lda \<Rightarrow> cpport \<Rightarrow> bool" where
  "lda_rel a n xs m siz c d s =
     (ld_addr d = a + of_nat (length xs) \<and> ld_firstodd d = (odd (unat a) \<and> xs = []) \<and>
      ld_ldaddr d = (if odd (unat a) \<and> xs \<noteq> [] then a + 1 else a) \<and>
      ld_data d = pairs (body a xs) \<and> (odd (length (body a xs)) \<longrightarrow> ld_word d = ucast (last (body a xs))) \<and>
      ld_chrnum d = 5 + int (length xs) \<and> ld_bytcnt d = 6 + int n \<and> ld_chksum d = c + sum_list xs \<and>
      ld_state d = (if length xs = n then s_chksum else s_data) \<and>
      word_mode s \<and> cb_size s = siz \<and> cb_mem s = early a xs m)"

definition fits :: "u16 \<Rightarrow> nat \<Rightarrow> cpu \<Rightarrow> nat \<Rightarrow> bool" where
  "fits a n p siz = (0 < n \<and> unat a + n \<le> io16 \<and> unat a + n \<le> siz \<and> unat a + n \<le> unat (cp_fMemSize p))"

lemma fits_addr:
  assumes "fits a n p siz" and "j \<le> n"
  shows "unat (a + of_nat j) = unat a + j"
proof -
  have "unat a + j < 2 ^ 16"
    using assms by (auto simp: fits_def io16_def)
  then show ?thesis
    by (simp add: unat_word_ariths unat_of_nat)
qed

lemma odd16_iff: "odd16 a = odd (unat a)"
  by (auto simp: odd16_def odd_unat and_one_eq mod_2_eq_odd)

lemma body_snoc: "body a (xs @ [y]) = (if odd (unat a) \<and> xs = [] then [] else body a xs @ [y])"
  by (cases xs) (auto simp: body_def)

lemma odd_body: "xs \<noteq> [] \<or> even (unat a) \<Longrightarrow> odd (length (body a xs)) = odd (unat a + length xs)"
  by (cases xs) (auto simp: body_def)

lemma lda_data_step:
  assumes r: "lda_rel a n xs m siz c d s" and f: "fits a n p siz" and l: "length xs < n"
  shows "\<exists>d' s'. lda_step (cp_link (cp_fBase p) bm b) p y d s = Inr (True, False, d', s') \<and> ld_start d' = ld_start d \<and>
    lda_rel a n (xs @ [y]) m siz c d' s'"
proof -
  note u = fits_addr [OF f, of "length xs"]
  let ?k = "cp_link (cp_fBase p) bm b"
  have st: "ld_state d = s_data" and ad: "ld_addr d = a + of_nat (length xs)" and cn: "(ld_chrnum d + 1 = ld_bytcnt d - 1) = (Suc (length xs) = n)"
    using r l by (auto simp: lda_rel_def)
  show ?thesis
  proof (cases "odd (unat a) \<and> xs = []")
    case True
    let ?s = "ucast a :: u32"
    note ua = unat_ucast32 [of a]
    have "?s < cp_fMemSize p" "unat ?s < io22" "unat ?s < cb_size s" "word_mode s"
      using f r by (auto simp: word_less_nat_alt ua fits_def lda_rel_def io16_def io22_def)
    from MemWriteByte_ok [OF this(4,1-3), of bm b y] obtain s' where
      s': "MemWriteByte ?k ?s y p s = Inr (True, s')" "mem_upd ((cb_mem s)(unat a := y)) s s'"
      unfolding ua by blast
    then show ?thesis
      using True r l st cn unfolding lda_rel_def
      by (auto simp: lda_step_def lda_data_def odd16_iff Let_def mem_upd_def body_def early_def add.commute)
  next
    case False
    then have fo: "\<not> ld_firstodd d" and e: "early a (xs @ [y]) m = early a xs m"
      using r by (auto simp: lda_rel_def early_def)
    have b: "body a (xs @ [y]) = body a xs @ [y]"
      using False by (auto simp: body_snoc)
    have o: "odd16 (ld_addr d) = odd (length (body a xs))"
      using u l False odd_body [of xs a] by (auto simp: ad odd16_iff)
    show ?thesis
    proof (cases "odd16 (ld_addr d)")
      case True
      then have w: "ld_word d OR push_bit 8 (ucast y) = mk16 (last (body a xs)) y"
        using r o by (simp add: lda_rel_def mk16_def)
      show ?thesis
        using True o w r l fo st cn b e False unfolding lda_rel_def
        by (auto simp: lda_step_def lda_data_def Let_def pairs_snoc_odd add.commute add.left_commute)
    next
      case ev: False
      then show ?thesis
        using o r l fo st cn b e False unfolding lda_rel_def
        by (auto simp: lda_step_def lda_data_def Let_def pairs_snoc_even add.commute add.left_commute)
    qed
  qed
qed

lemma lda_data_run:
  assumes "lda_rel a n xs m siz c d s" and "fits a n p siz" and "length xs + length ys = n"
  shows "\<exists>d' s'. lda_loop (cp_link (cp_fBase p) bm b) p (ys @ r) e d s = lda_loop (cp_link (cp_fBase p) bm b) p r e d' s' \<and>
    ld_start d' = ld_start d \<and> lda_rel a n (xs @ ys) m siz c d' s'"
  using assms(1,3)
proof (induction ys arbitrary: xs d s)
  case (Cons y ys)
  have l: "length xs < n"
    using Cons.prems(2) by simp
  from lda_data_step [OF Cons.prems(1) assms(2) l] obtain d1 s1 where
    s1: "lda_step (cp_link (cp_fBase p) bm b) p y d s = Inr (True, False, d1, s1)" "lda_rel a n (xs @ [y]) m siz c d1 s1" "ld_start d1 = ld_start d"
    by blast
  with Cons.IH [OF s1(2)] Cons.prems(2) show ?case
    by simp
qed auto

lemma body_range:
  assumes "fits a n p siz" and "length xs = n"
  shows "even (unat (if odd (unat a) then a + 1 else a))"
    "unat (if odd (unat a) then a + 1 else a) + length (body a xs) = unat a + n"
proof -
  have u: "unat (a + 1) = unat a + 1"
    using fits_addr [OF assms(1), of 1] assms(1) by (simp add: fits_def)
  then show "even (unat (if odd (unat a) then a + 1 else a))"
    by simp
  show "unat (if odd (unat a) then a + 1 else a) + length (body a xs) = unat a + n"
    using u assms by (auto simp: body_def fits_def)
qed

lemma body_put:
  assumes "fits a n p siz" and "length xs = n"
  shows "put_bytes (unat (if odd (unat a) then a + 1 else a)) (body a xs) (early a xs m) = put_bytes (unat a) xs m"
proof (cases "odd (unat a)")
  case True
  have u: "unat (a + 1) = unat a + 1"
    using fits_addr [OF assms(1), of 1] assms(1) by (simp add: fits_def)
  obtain x xs' where "xs = x # xs'"
    using assms by (cases xs) (auto simp: fits_def)
  then show ?thesis
    using True u put_bytes_Cons [of "unat a" xs' m x] by (simp add: body_def early_def)
qed (simp add: body_def early_def)

lemma ucast_byte: "ucast (ucast (x :: u8) :: u16) = x"
  by (rule bit_word_eqI) (simp add: bit_simps)

text \<open>What the loader needs to know of the port after a write.\<close>

definition ld_upd :: "(nat \<Rightarrow> u8) \<Rightarrow> cpport \<Rightarrow> cpport \<Rightarrow> bool" where
  "ld_upd m d d' = (cb_mem d' = m \<and> cb_size d' = cb_size d \<and> word_mode d')"

lemmas upd_defs = mem_upd_def ld_upd_def

lemma lda_end:
  assumes r: "lda_rel a n xs m siz c d s" and f: "fits a n p siz" and l: "length xs = n" and b: "bpr_ok b"
    and z: "c + sum_list xs + y = 0"
  shows "\<exists>d' s'. lda_step (cp_link (cp_fBase p) bm b) p y d s = Inr (True, False, d', s') \<and> lda_idle d' \<and>
    ld_start d' = ld_start d \<and> ld_upd (put_bytes (unat a) xs m) s s'"
proof -
  let ?k = "cp_link (cp_fBase p) bm b"
  let ?la = "if odd (unat a) then a + 1 else a"
  let ?ws = "pairs (body a xs)"
  have ne: "xs \<noteq> []" "n \<noteq> 0"
    using f l by (auto simp: fits_def)
  have la: "ld_ldaddr d = ?la" and da: "ld_data d = ?ws" and bc: "ld_bytcnt d \<noteq> 6" and st: "ld_state d = s_chksum"
    and ad: "ld_addr d = a + of_nat n" and ck: "ld_chksum d = c + sum_list xs"
    and wm: "word_mode s" and sz: "cb_size s = siz" and me: "cb_mem s = early a xs m"
    using r l ne by (auto simp: lda_rel_def)
  note rng = body_range [OF f l]
  have low: "in_low ?la (length ?ws) s"
    using rng f unfolding in_low_def length_pairs sz fits_def by auto
  from MemWrite_ok [OF b wm low, of p bm] obtain s1 where
    s1: "MemWrite ?k ?la ?ws p s = Inr (True, s1)" "mem_upd (wr_words (unat ?la) ?ws (early a xs m)) s s1"
    unfolding me by blast
  have oa: "odd16 (ld_addr d) = odd (length (body a xs))"
    using odd_body [of xs a] ne(1) l fits_addr [OF f, of n] by (simp add: ad odd16_iff)
  have "\<exists>s2. (if odd16 (ld_addr d) then MemWriteByte ?k (ucast (ld_addr d - 1)) (ucast (ld_word d)) p s1 else Inr (True, s1)) = Inr (True, s2) \<and>
      ld_upd (put_bytes (unat a) xs m) s1 s2"
  proof (cases "odd16 (ld_addr d)")
    case False
    then show ?thesis
      using s1(2) oa put_pairs_even [of "body a xs" "unat ?la"] body_put [OF f l, of m] by (auto simp: upd_defs)
  next
    case True
    let ?a = "ucast (ld_addr d - 1) :: u32"
    have "ld_addr d - 1 = a + of_nat (n - 1)"
      using ne by (simp add: ad of_nat_diff)
    then have ua: "unat ?a = unat a + (n - 1)"
      using fits_addr [OF f, of "n - 1"] by (simp add: unat_ucast32)
    have "?a < cp_fMemSize p" "unat ?a < io22" "unat ?a < cb_size s1" "word_mode s1"
      using f ne s1(2) unfolding word_less_nat_alt ua by (auto simp: fits_def sz upd_defs io16_def io22_def)
    from MemWriteByte_ok [OF this(4,1-3), of bm b "ucast (ld_word d)"] obtain s2 where
      s2: "MemWriteByte ?k ?a (ucast (ld_word d)) p s1 = Inr (True, s2)" "mem_upd ((cb_mem s1)(unat a + (n - 1) := ucast (ld_word d))) s1 s2"
      unfolding ua by blast
    have w: "ucast (ld_word d) = last (body a xs)"
      using r True oa by (simp add: lda_rel_def ucast_byte)
    have "unat ?la + length (body a xs) - 1 = unat a + (n - 1)"
      using rng(2) ne by simp
    then have "(cb_mem s1)(unat a + (n - 1) := ucast (ld_word d)) = put_bytes (unat a) xs m"
      using s1(2) True oa put_pairs_odd [of "body a xs" "unat ?la"] body_put [OF f l, of m] w by (simp add: upd_defs)
    then show ?thesis
      using s2 True by (auto simp: upd_defs)
  qed
  then obtain s2 where s2: "(if odd16 (ld_addr d) then MemWriteByte ?k (ucast (ld_addr d - 1)) (ucast (ld_word d)) p s1 else Inr (True, s1)) = Inr (True, s2)"
    "ld_upd (put_bytes (unat a) xs m) s1 s2"
    by blast
  show ?thesis
    using s1 s2 la da bc st ck z
    by (auto simp: lda_step_def lda_chksum_def Let_def lda_idle_def upd_defs add.assoc)
qed


section \<open>Whole files\<close>

lemma lda_rel_start:
  assumes "lda_idle d" and "word_mode s" and "cb_size s = siz" and "cb_mem s = m" and "n \<le> 65529" and "0 < n"
  shows "lda_rel a n [] m siz (sum_list (abs_hdr (of_nat (6 + n)) a)) (after_hdr (of_nat (6 + n)) a d) s"
proof -
  have "uint (of_nat (6 + n) :: u16) = 6 + int n"
    using assms(5) by (simp add: uint_nat unat_of_nat del: of_nat_add)
  then show ?thesis
    using assms by (auto simp: lda_rel_def after_hdr_def body_def early_def lda_idle_def odd16_iff)
qed

lemma lda_block:
  assumes "lda_idle d" and "word_mode s" and f: "fits a (length bs) p (cb_size s)" and b: "bpr_ok b"
  shows "\<exists>d' s'. lda_loop (cp_link (cp_fBase p) bm b) p (abs_block a bs @ r) e d s = lda_loop (cp_link (cp_fBase p) bm b) p r e d' s' \<and>
    lda_idle d' \<and> ld_start d' = ld_start d \<and> ld_upd (put_bytes (unat a) bs (cb_mem s)) s s'"
proof -
  let ?k = "cp_link (cp_fBase p) bm b"
  let ?n = "length bs"
  let ?h = "abs_hdr (of_nat (6 + ?n)) a"
  have n: "?n \<le> 65529" "0 < ?n"
    using f by (auto simp: fits_def io16_def)
  let ?y = "- sum_list (?h @ bs)"
  obtain d1 s1 where 1: "lda_loop ?k p (bs @ ?y # r) e (after_hdr (of_nat (6 + ?n)) a d) s = lda_loop ?k p (?y # r) e d1 s1"
    "ld_start d1 = ld_start d" "lda_rel a ?n bs (cb_mem s) (cb_size s) (sum_list ?h) d1 s1"
    using lda_data_run [OF lda_rel_start [OF assms(1,2) refl refl n] f, of bs bm b "?y # r" e] by (auto simp: after_hdr_def)
  obtain d2 s2 where 2: "lda_step ?k p ?y d1 s1 = Inr (True, False, d2, s2)" "lda_idle d2" "ld_start d2 = ld_start d1"
    "ld_upd (put_bytes (unat a) bs (cb_mem s)) s1 s2"
    using lda_end [OF 1(3) f refl b, of ?y bm] by auto
  have "lda_loop ?k p (abs_block a bs @ r) e d s = lda_loop ?k p (bs @ ?y # r) e (after_hdr (of_nat (6 + ?n)) a d) s"
    unfolding abs_block_def append_assoc lda_header [OF assms(1)] by simp
  moreover have "ld_upd (put_bytes (unat a) bs (cb_mem s)) s s2"
    using 2(4) 1(3) by (simp add: upd_defs lda_rel_def)
  ultimately show ?thesis
    using 1 2 by auto
qed

text \<open>A file: blocks of data, each with any number of zero bytes before it.\<close>

type_synonym abs_file = "(nat \<times> u16 \<times> u8 list) list"

fun abs_bytes :: "abs_file \<Rightarrow> u8 list" where
  "abs_bytes [] = []"
| "abs_bytes ((z, a, bs) # r) = replicate z 0 @ abs_block a bs @ abs_bytes r"

fun abs_mem :: "abs_file \<Rightarrow> (nat \<Rightarrow> u8) \<Rightarrow> nat \<Rightarrow> u8" where
  "abs_mem [] m = m"
| "abs_mem ((z, a, bs) # r) m = abs_mem r (put_bytes (unat a) bs m)"

definition abs_ok :: "cpu \<Rightarrow> nat \<Rightarrow> abs_file \<Rightarrow> bool" where
  "abs_ok p siz f = (\<forall>(z, a, bs) \<in> set f. fits a (length bs) p siz)"

lemma lda_file:
  assumes "lda_idle d" and "word_mode s" and "abs_ok p (cb_size s) f" and "bpr_ok b"
  shows "\<exists>d' s'. lda_loop (cp_link (cp_fBase p) bm b) p (abs_bytes f @ r) e d s = lda_loop (cp_link (cp_fBase p) bm b) p r e d' s' \<and>
    lda_idle d' \<and> ld_start d' = ld_start d \<and> ld_upd (abs_mem f (cb_mem s)) s s'"
  using assms(1-3)
proof (induction f arbitrary: d s)
  case (Cons x f)
  let ?k = "cp_link (cp_fBase p) bm b"
  obtain z a bs where x: "x = (z, a, bs)"
    by (cases x)
  then have f: "fits a (length bs) p (cb_size s)"
    using Cons.prems(3) by (auto simp: abs_ok_def)
  from lda_block [OF Cons.prems(1,2) f assms(4), of bm "abs_bytes f @ r" e] obtain d1 s1 where
    1: "lda_loop ?k p (abs_block a bs @ abs_bytes f @ r) e d s = lda_loop ?k p (abs_bytes f @ r) e d1 s1"
    "lda_idle d1" "ld_start d1 = ld_start d" "ld_upd (put_bytes (unat a) bs (cb_mem s)) s s1"
    by blast
  then have s1: "word_mode s1" "abs_ok p (cb_size s1) f" "cb_mem s1 = put_bytes (unat a) bs (cb_mem s)" "cb_size s1 = cb_size s"
    using Cons.prems(3) by (auto simp: upd_defs abs_ok_def)
  from Cons.IH [OF 1(2) s1(1,2)] show ?case
    using 1 s1 by (simp add: x lda_zeros [OF Cons.prems(1)] upd_defs)
qed (auto simp: upd_defs)

lemma lda_start:
  assumes "lda_idle d"
  shows "\<exists>d'. lda_loop k p (abs_block a [] @ r) e d s = Inr (True, d', s) \<and> ld_start d' = a"
proof -
  have "abs_block a [] = abs_hdr 6 a @ [- sum_list (abs_hdr 6 a)]"
    by (simp add: abs_block_def)
  then show ?thesis
    using assms by (simp add: lda_header lda_step_def lda_chksum_def after_hdr_def Let_def lda_idle_def)
qed

lemma lda_idle_init: "lda_idle lda_init" "ld_start lda_init = - 1"
  by (simp_all add: lda_idle_def lda_init_def)

text \<open>C22: An absolute binary is loaded as its format says: after blocks of data, each at any address and of any length,
  odd ones included, and each with any number of zero bytes before it, and a block without data at the end,
  \<open>LoadAbs\<close> returns true, the address of the last block as the start address, and has put every data byte at its
  place, later blocks over earlier ones, with no other byte of the memory changed. Bytes behind the last block and
  the error status of the file behind them do not matter. The blocks lie in memory below the I/O page, and the
  link may cut the transfers into pieces of any size from 1 to 65535 words.\<close>

theorem LoadAbs_image:
  assumes "bpr_ok b" and "word_mode s" and "abs_ok p (cb_size s) f"
  shows "\<exists>s'. LoadAbs (cp_link (cp_fBase p) bm b) True (abs_bytes f @ replicate z 0 @ abs_block start [] @ rest) e p s = Inr (True, start, s') \<and>
    cb_mem s' = abs_mem f (cb_mem s)"
proof -
  from lda_file [OF lda_idle_init(1) assms(2,3,1), of bm "replicate z 0 @ abs_block start [] @ rest" e] obtain d s' where
    1: "lda_loop (cp_link (cp_fBase p) bm b) p (abs_bytes f @ replicate z 0 @ abs_block start [] @ rest) e lda_init s =
      lda_loop (cp_link (cp_fBase p) bm b) p (replicate z 0 @ abs_block start [] @ rest) e d s'" "lda_idle d"
      "cb_mem s' = abs_mem f (cb_mem s)"
    by (auto simp: upd_defs)
  then show ?thesis
    using lda_start [OF 1(2), of "cp_link (cp_fBase p) bm b" p start rest e s'] by (auto simp: LoadAbs_def lda_zeros)
qed

theorem LoadAbs_image_witness:
  "\<exists>s'. LoadAbs (cp_link (cp_fBase demo_cpu) 100 3) True
      (abs_bytes [(3, 0x201, [1, 2, 3, 4]), (0, 0x400, [5])] @ replicate 1 0 @ abs_block 0x200 [] @ [7]) True demo_cpu (demo_port 0x10000) =
      Inr (True, 0x200, s') \<and>
    cb_mem s' = abs_mem [(3, 0x201, [1, 2, 3, 4]), (0, 0x400, [5])] (\<lambda>_. 0)"
  using LoadAbs_image [of 3 "demo_port 0x10000" demo_cpu "[(3, 0x201, [1, 2, 3, 4]), (0, 0x400, [5])]" 100 1 "0x200" "[7]" True]
  by (simp add: demo_simps abs_ok_def fits_def)

text \<open>A file without a start block is accepted as well; the start address is then 0xffff.\<close>

lemma LoadAbs_no_start:
  assumes "bpr_ok b" and "word_mode s" and "abs_ok p (cb_size s) f"
  shows "\<exists>s'. LoadAbs (cp_link (cp_fBase p) bm b) True (abs_bytes f) False p s = Inr (True, - 1, s') \<and> cb_mem s' = abs_mem f (cb_mem s)"
proof -
  from lda_file [OF lda_idle_init(1) assms(2,3,1), of bm "[]" False] obtain d s' where
    1: "lda_loop (cp_link (cp_fBase p) bm b) p (abs_bytes f) False lda_init s = Inr (ld_state d = s_chr0, d, s')"
      "lda_idle d" "ld_start d = - 1" "cb_mem s' = abs_mem f (cb_mem s)"
    using lda_idle_init(2) by (auto simp: upd_defs)
  then show ?thesis
    by (auto simp: LoadAbs_def lda_idle_def)
qed

text \<open>C37: When the check sum of a block is wrong, \<open>LoadAbs\<close> returns false with the start address 0xffff. The blocks before
  are in memory; of the bad block only a first byte at an odd address is, because it is written before the check
  sum is seen (\<open>early\<close>). Nothing behind the bad block is looked at.\<close>

theorem LoadAbs_bad_chksum:
  assumes "bpr_ok b" and "word_mode s" and "abs_ok p (cb_size s) f" and "fits a (length bs) p (cb_size s)"
    and "c \<noteq> - sum_list (abs_hdr (of_nat (6 + length bs)) a @ bs)"
  shows "\<exists>s'. LoadAbs (cp_link (cp_fBase p) bm b) True (abs_bytes f @ abs_hdr (of_nat (6 + length bs)) a @ bs @ c # rest) e p s =
      Inr (False, - 1, s') \<and> cb_mem s' = early a bs (abs_mem f (cb_mem s))"
proof -
  let ?k = "cp_link (cp_fBase p) bm b" and ?h = "abs_hdr (of_nat (6 + length bs)) a"
  have n: "length bs \<le> 65529" "0 < length bs"
    using assms(4) by (auto simp: fits_def io16_def)
  from lda_file [OF lda_idle_init(1) assms(2,3,1), of bm "?h @ bs @ c # rest" e] obtain d s1 where
    1: "lda_loop ?k p (abs_bytes f @ ?h @ bs @ c # rest) e lda_init s = lda_loop ?k p (?h @ bs @ c # rest) e d s1"
      "lda_idle d" "ld_start d = - 1" "word_mode s1" "cb_mem s1 = abs_mem f (cb_mem s)" "cb_size s1 = cb_size s"
    using lda_idle_init(2) by (auto simp: upd_defs)
  obtain d2 s2 where 2: "lda_loop ?k p (bs @ c # rest) e (after_hdr (of_nat (6 + length bs)) a d) s1 = lda_loop ?k p (c # rest) e d2 s2"
    "ld_start d2 = - 1" "lda_rel a (length bs) bs (abs_mem f (cb_mem s)) (cb_size s) (sum_list ?h) d2 s2"
    using lda_data_run [OF lda_rel_start [OF 1(2,4,6,5) n] assms(4), of bs bm b "c # rest" e] 1(3) by (auto simp: after_hdr_def)
  have st: "ld_state d2 = s_chksum" and ck: "ld_chksum d2 = sum_list (?h @ bs)" and m: "cb_mem s2 = early a bs (abs_mem f (cb_mem s))"
    using 2(3) by (simp_all add: lda_rel_def)
  have nz: "ld_chksum d2 + c \<noteq> 0"
    using assms(5) unfolding ck by (simp only: add.commute [of _ c] eq_neg_iff_add_eq_0 not_False_eq_True)
  have "lda_step ?k p c d2 s2 = Inr (False, False, d2\<lparr>ld_chrnum := - 1, ld_chksum := ld_chksum d2 + c, ld_blknum := ld_blknum d2 + 1, ld_state := s_chr0\<rparr>, s2)"
    using st nz by (simp add: lda_step_def lda_chksum_def Let_def)
  then show ?thesis
    using 1 2(1,2) m by (simp add: LoadAbs_def lda_header)
qed

theorem LoadAbs_bad_chksum_witness:
  "\<exists>s'. LoadAbs (cp_link (cp_fBase demo_cpu) 100 3) True
      (abs_bytes [(0, 0x400, [5])] @ abs_hdr (of_nat (6 + length [9, 8 :: u8])) 0x201 @ [9, 8] @ 1 # [0]) False demo_cpu (demo_port 0x10000) =
      Inr (False, - 1, s') \<and>
    cb_mem s' = early 0x201 [9, 8] (abs_mem [(0, 0x400, [5])] (\<lambda>_. 0))"
  using LoadAbs_bad_chksum [of 3 "demo_port 0x10000" demo_cpu "[(0, 0x400, [5])]" "0x201" "[9, 8]" 1 100 "[0]" False]
  by (simp add: demo_simps abs_ok_def fits_def abs_hdr_def lo8_def hi8_def)

end
