(* ===== verification/Rw11UnitTape.thy ===== *)
theory Rw11UnitTape
  imports Rw11Rdma Rw11VirtTape
begin

text \<open>
  Tape units, \<open>Rw11UnitTape\<close> and \<open>Rw11UnitTapeBase\<close>. Message texts are left out.
\<close>

record utape =
  ut_fIndex :: nat
  ut_fAttachOpts :: string
  ut_fupVirt :: "tape option"
  ut_fType :: string
  ut_fEnabled :: bool
  ut_fWProt :: bool
  ut_fCapacity :: nat

definition utape_new :: "nat \<Rightarrow> utape" where
  "utape_new index =
     \<lparr>ut_fIndex = index, ut_fAttachOpts = [], ut_fupVirt = None, ut_fType = [], ut_fEnabled = False, ut_fWProt = False, ut_fCapacity = 0\<rparr>"

definition ut_SetType :: "string \<Rightarrow> 'a utape_scheme \<Rightarrow> 'a utape_scheme result" where
  "ut_SetType type u =
     Inl (Rexception ''Rw11UnitTape::SetType'' (''Bad args: only type '' @ [CHR 0x27] @ ut_fType u @ [CHR 0x27] @ '' supported''))"

definition ut_SetWProt :: "bool \<Rightarrow> 'a utape_scheme \<Rightarrow> 'a utape_scheme result" where
  "ut_SetWProt wprot u =
     (if ut_fupVirt u \<noteq> None then Inl (Rexception ''Rw11UnitTape::SetWProt'' ''not allowed when tape attached'')
      else Inr (u\<lparr>ut_fWProt := wprot\<rparr>))"

definition ut_SetCapacity :: "nat \<Rightarrow> 'a utape_scheme \<Rightarrow> 'a utape_scheme result" where
  "ut_SetCapacity nbyte u =
     (if ut_fupVirt u \<noteq> None then Inl (Rexception ''Rw11UnitTape::SetCapacity'' ''not allowed when tape attached'')
      else Inr (u\<lparr>ut_fCapacity := nbyte\<rparr>))"

definition ut_WProt :: "'a utape_scheme \<Rightarrow> bool" where
  "ut_WProt u = (case ut_fupVirt u of Some t \<Rightarrow> tt_fWProt t | None \<Rightarrow> ut_fWProt u)"

definition ut_Capacity :: "'a utape_scheme \<Rightarrow> nat" where
  "ut_Capacity u = (case ut_fupVirt u of Some t \<Rightarrow> tt_fCapacity t | None \<Rightarrow> ut_fCapacity u)"

text \<open>\<open>SetPosFile\<close> of the tape may not return; the value is then \<open>None\<close>.\<close>

definition ut_SetPosFile :: "int \<Rightarrow> 'a utape_scheme \<Rightarrow> 'a utape_scheme result option" where
  "ut_SetPosFile posfile u =
     (case ut_fupVirt u of
        None \<Rightarrow> Some (Inl (Rexception ''Rw11UnitTape::SetPosFile'' ''no tape attached''))
      | Some t \<Rightarrow> map_option (\<lambda>r. ebind r (\<lambda>t'. Inr (u\<lparr>ut_fupVirt := Some t'\<rparr>))) (SetPosFile posfile t))"

definition ut_SetPosRecord :: "int \<Rightarrow> 'a utape_scheme \<Rightarrow> 'a utape_scheme result" where
  "ut_SetPosRecord posrec u =
     (case ut_fupVirt u of
        None \<Rightarrow> Inl (Rexception ''Rw11UnitTape::SetPosRecord'' ''no tape attached'')
      | Some t \<Rightarrow> ebind (SetPosRecord posrec t) (\<lambda>t'. Inr (u\<lparr>ut_fupVirt := Some t'\<rparr>)))"

definition ut_Bot :: "'a utape_scheme \<Rightarrow> bool" where
  "ut_Bot u = (case ut_fupVirt u of None \<Rightarrow> False | Some t \<Rightarrow> tt_fBot t)"

definition ut_Eot :: "'a utape_scheme \<Rightarrow> bool" where
  "ut_Eot u = (case ut_fupVirt u of None \<Rightarrow> False | Some t \<Rightarrow> tt_fEot t)"

definition ut_Eom :: "'a utape_scheme \<Rightarrow> bool" where
  "ut_Eom u = (case ut_fupVirt u of None \<Rightarrow> False | Some t \<Rightarrow> tt_fEom t)"

definition ut_PosFile :: "'a utape_scheme \<Rightarrow> int" where
  "ut_PosFile u = (case ut_fupVirt u of None \<Rightarrow> - 1 | Some t \<Rightarrow> tt_fPosFile t)"

definition ut_PosRecord :: "'a utape_scheme \<Rightarrow> int" where
  "ut_PosRecord u = (case ut_fupVirt u of None \<Rightarrow> - 1 | Some t \<Rightarrow> tt_fPosRecord t)"

text \<open>The operations without a tape return false and leave the output arguments as they were, here \<open>ndone0\<close> and \<open>opc0\<close>.\<close>

definition VirtReadRecord :: "nat \<Rightarrow> u8 list \<Rightarrow> nat \<Rightarrow> opcode \<Rightarrow> 'a utape_scheme \<Rightarrow> bool \<times> u8 list \<times> nat \<times> opcode \<times> 'a utape_scheme" where
  "VirtReadRecord nbyt buf ndone0 opc0 u =
     (case ut_fupVirt u of
        None \<Rightarrow> (False, buf, ndone0, opc0, u)
      | Some t \<Rightarrow> (case ReadRecord nbyt buf t of (ok, ds, ndone, opc, t') \<Rightarrow> (ok, ds, ndone, opc, u\<lparr>ut_fupVirt := Some t'\<rparr>)))"

definition VirtWriteRecord :: "u8 list \<Rightarrow> opcode \<Rightarrow> 'a utape_scheme \<Rightarrow> bool \<times> opcode \<times> 'a utape_scheme" where
  "VirtWriteRecord ds opc0 u =
     (case ut_fupVirt u of
        None \<Rightarrow> (False, opc0, u)
      | Some t \<Rightarrow> (case WriteRecord ds t of (ok, opc, t') \<Rightarrow> (ok, opc, u\<lparr>ut_fupVirt := Some t'\<rparr>)))"

definition VirtWriteEof :: "'a utape_scheme \<Rightarrow> bool \<times> 'a utape_scheme" where
  "VirtWriteEof u =
     (case ut_fupVirt u of
        None \<Rightarrow> (False, u)
      | Some t \<Rightarrow> (case WriteEof t of (ok, t') \<Rightarrow> (ok, u\<lparr>ut_fupVirt := Some t'\<rparr>)))"

definition VirtSpaceForw :: "nat \<Rightarrow> nat \<Rightarrow> opcode \<Rightarrow> 'a utape_scheme \<Rightarrow> bool \<times> nat \<times> opcode \<times> 'a utape_scheme" where
  "VirtSpaceForw nrec ndone0 opc0 u =
     (case ut_fupVirt u of
        None \<Rightarrow> (False, ndone0, opc0, u)
      | Some t \<Rightarrow> (case SpaceForw nrec t of (ok, ndone, opc, t') \<Rightarrow> (ok, ndone, opc, u\<lparr>ut_fupVirt := Some t'\<rparr>)))"

definition VirtSpaceBack :: "nat \<Rightarrow> nat \<Rightarrow> opcode \<Rightarrow> 'a utape_scheme \<Rightarrow> bool \<times> nat \<times> opcode \<times> 'a utape_scheme" where
  "VirtSpaceBack nrec ndone0 opc0 u =
     (case ut_fupVirt u of
        None \<Rightarrow> (False, ndone0, opc0, u)
      | Some t \<Rightarrow> (case SpaceBack nrec t of (ok, ndone, opc, t') \<Rightarrow> (ok, ndone, opc, u\<lparr>ut_fupVirt := Some t'\<rparr>)))"

definition VirtRewind :: "opcode \<Rightarrow> 'a utape_scheme \<Rightarrow> bool \<times> opcode \<times> 'a utape_scheme" where
  "VirtRewind opc0 u =
     (case ut_fupVirt u of
        None \<Rightarrow> (False, opc0, u)
      | Some t \<Rightarrow> (case Rewind t of (ok, opc, t') \<Rightarrow> (ok, opc, u\<lparr>ut_fupVirt := Some t'\<rparr>)))"

section \<open>Attach and detach\<close>

text \<open>The capacity that the user set for the unit should go to the tape; both sides of the condition look at the tape, because
  \<open>Capacity\<close> of a unit with a tape is the one of the tape.\<close>

definition tape_AttachDone :: "('s, 'a utape_scheme) dunits \<Rightarrow> nat \<Rightarrow> 's \<Rightarrow> 's result" where
  "tape_AttachDone e i s =
     (let u = du_get e i s;
          u1 = (case ut_fupVirt u of
                  Some t \<Rightarrow> if ut_Capacity u \<noteq> 0 \<and> tt_fCapacity t = 0 then u\<lparr>ut_fupVirt := Some (SetCapacity (ut_Capacity u) t)\<rparr> else u
                | None \<Rightarrow> u)
      in du_UnitSetup e i (du_put e i u1 s))"

definition tape_DetachDone :: "('s, 'a utape_scheme) dunits \<Rightarrow> nat \<Rightarrow> 's \<Rightarrow> 's result" where
  "tape_DetachDone e i s = du_UnitSetup e i s"

definition tape_unit_ops :: "('s, 'a utape_scheme) dunits \<Rightarrow> nat \<Rightarrow> (tape, 's) unit_ops" where
  "tape_unit_ops e i =
     \<lparr>uo_Enabled = (\<lambda>s. ut_fEnabled (du_get e i s)), uo_fupVirt = (\<lambda>s. ut_fupVirt (du_get e i s)),
      uo_SetVirt = (\<lambda>v s. du_put e i ((du_get e i s)\<lparr>ut_fupVirt := v\<rparr>) s), uo_AttachDone = tape_AttachDone e i,
      uo_DetachCleanup = Inr, uo_DetachDone = tape_DetachDone e i\<rparr>"

text \<open>The capacity of the unit is never handed over.\<close>

lemma AttachDone_capacity_lost: "tape_AttachDone e i s = du_UnitSetup e i (du_put e i (du_get e i s) s)"
  by (auto simp: tape_AttachDone_def ut_Capacity_def Let_def split: option.splits)

end
