(* ===== verification/Rw11CntlTM11.thy ===== *)
theory Rw11CntlTM11
  imports Rw11CntlBase Rw11UnitTape
begin

text \<open>
  The TM11 controller, \<open>Rw11CntlTM11\<close> and \<open>Rw11UnitTM11\<close>: start, attention handler with all eight functions and the
  callbacks of the DMA. The buffer \<open>fBuf\<close> is the one of the DMA object, \<open>rd_buf\<close>. Log messages are left out.
\<close>

section \<open>Constants\<close>

definition kTMSR :: u16 where [dev_defs]: "kTMSR = 0"
definition kTMCR :: u16 where [dev_defs]: "kTMCR = 2"
definition kTMBC :: u16 where [dev_defs]: "kTMBC = 4"
definition kTMBA :: u16 where [dev_defs]: "kTMBA = 6"
definition kTMDB :: u16 where [dev_defs]: "kTMDB = 8"
definition kTMRL :: u16 where [dev_defs]: "kTMRL = 0xa"
definition tm_kProbeOff :: u16 where [dev_defs]: "tm_kProbeOff = 2"
definition tm_kProbeInt :: bool where [dev_defs]: "tm_kProbeInt = True"
definition tm_kProbeRem :: bool where [dev_defs]: "tm_kProbeRem = True"
definition kTMCR_V_UNIT :: nat where [dev_defs]: "kTMCR_V_UNIT = 8"
definition kTMCR_B_UNIT :: u16 where [dev_defs]: "kTMCR_B_UNIT = 7"
definition kTMCR_M_RDY :: u16 where [dev_defs]: "kTMCR_M_RDY = 0x80"
definition kTMCR_V_EA :: nat where [dev_defs]: "kTMCR_V_EA = 4"
definition kTMCR_B_EA :: u16 where [dev_defs]: "kTMCR_B_EA = 3"
definition kTMCR_V_FUNC :: nat where [dev_defs]: "kTMCR_V_FUNC = 1"
definition kTMCR_B_FUNC :: u16 where [dev_defs]: "kTMCR_B_FUNC = 7"
definition tm_kFUNC_UNLOAD :: u16 where [dev_defs]: "tm_kFUNC_UNLOAD = 0"
definition tm_kFUNC_READ :: u16 where [dev_defs]: "tm_kFUNC_READ = 1"
definition tm_kFUNC_WRITE :: u16 where [dev_defs]: "tm_kFUNC_WRITE = 2"
definition tm_kFUNC_WEOF :: u16 where [dev_defs]: "tm_kFUNC_WEOF = 3"
definition tm_kFUNC_SFORW :: u16 where [dev_defs]: "tm_kFUNC_SFORW = 4"
definition tm_kFUNC_SBACK :: u16 where [dev_defs]: "tm_kFUNC_SBACK = 5"
definition tm_kFUNC_WEIRG :: u16 where [dev_defs]: "tm_kFUNC_WEIRG = 6"
definition tm_kFUNC_REWIND :: u16 where [dev_defs]: "tm_kFUNC_REWIND = 7"
definition tm_kRFUNC_WUNIT :: u16 where [dev_defs]: "tm_kRFUNC_WUNIT = 1"
definition tm_kRFUNC_DONE :: u16 where [dev_defs]: "tm_kRFUNC_DONE = 2"
definition kTMCR_V_RUNIT :: nat where [dev_defs]: "kTMCR_V_RUNIT = 4"
definition kTMCR_M_RICMD :: u16 where [dev_defs]: "kTMCR_M_RICMD = 0x8000"
definition kTMCR_M_RPAE :: u16 where [dev_defs]: "kTMCR_M_RPAE = 0x1000"
definition kTMCR_M_RRLE :: u16 where [dev_defs]: "kTMCR_M_RRLE = 0x200"
definition kTMCR_M_RBTE :: u16 where [dev_defs]: "kTMCR_M_RBTE = 0x100"
definition kTMCR_M_RNXM :: u16 where [dev_defs]: "kTMCR_M_RNXM = 0x80"
definition kTMCR_M_REAENA :: u16 where [dev_defs]: "kTMCR_M_REAENA = 0x40"
definition kTMCR_V_REA :: nat where [dev_defs]: "kTMCR_V_REA = 4"
definition kTMRL_M_EOF :: u16 where [dev_defs]: "kTMRL_M_EOF = 0x400"
definition kTMRL_M_EOT :: u16 where [dev_defs]: "kTMRL_M_EOT = 0x200"
definition kTMRL_M_ONL :: u16 where [dev_defs]: "kTMRL_M_ONL = 0x100"
definition kTMRL_M_BOT :: u16 where [dev_defs]: "kTMRL_M_BOT = 0x80"
definition kTMRL_M_WRL :: u16 where [dev_defs]: "kTMRL_M_WRL = 0x40"

section \<open>State\<close>

datatype tm_stat = tmStatNAttnHdl | tmStatNFuncUnload | tmStatNFuncRead | tmStatNFuncWrite | tmStatNFuncWeof | tmStatNFuncSforw
  | tmStatNFuncSback | tmStatNFuncWrteg | tmStatNFuncRewind

record utm11 = utape +
  um_fTmds :: u16

record tm11 = cntl +
  tm_fspUnit :: "utm11 list"
  tm_fPrimClist :: clist
  tm_fPC_tmcr :: nat
  tm_fPC_tmsr :: nat
  tm_fPC_tmbc :: nat
  tm_fPC_tmba :: nat
  tm_fRd_tmcr :: u16
  tm_fRd_tmsr :: u16
  tm_fRd_tmbc :: u16
  tm_fRd_tmba :: u16
  tm_fRd_addr :: u32
  tm_fRd_nwrd :: u32
  tm_fRd_fu :: u16
  tm_fRd_rddone :: nat
  tm_fRd_opcode :: opcode
  tm_fStats :: "tm_stat \<Rightarrow> nat"

definition utm11_new :: "nat \<Rightarrow> utm11" where
  "utm11_new index = utape.extend ((utape_new index)\<lparr>ut_fType := ''tu10'', ut_fEnabled := True\<rparr>) \<lparr>um_fTmds = 0\<rparr>"

definition tm_NUnit :: nat where
  "tm_NUnit = 4"

definition tm11_new :: tm11 where
  "tm11_new = cntl.extend (cntl_new ''tm11'')
     \<lparr>tm_fspUnit = map utm11_new [0..<tm_NUnit], tm_fPrimClist = clist_new, tm_fPC_tmcr = 0, tm_fPC_tmsr = 0, tm_fPC_tmbc = 0,
      tm_fPC_tmba = 0, tm_fRd_tmcr = 0, tm_fRd_tmsr = 0, tm_fRd_tmbc = 0, tm_fRd_tmba = 0, tm_fRd_addr = 0, tm_fRd_nwrd = 0,
      tm_fRd_fu = 0, tm_fRd_rddone = 0, tm_fRd_opcode = kOpCodeOK, tm_fStats = (\<lambda>_. 0)\<rparr>"

definition tm_inc :: "tm_stat \<Rightarrow> tm11 \<Rightarrow> tm11" where
  "tm_inc x c = c\<lparr>tm_fStats := stat_inc x 1 (tm_fStats c)\<rparr>"

definition tm_unit :: "nat \<Rightarrow> tm11 \<Rightarrow> utm11" where
  "tm_unit i c = tm_fspUnit c ! i"

definition tm_put :: "nat \<Rightarrow> utm11 \<Rightarrow> tm11 \<Rightarrow> tm11" where
  "tm_put i u c = c\<lparr>tm_fspUnit := (tm_fspUnit c)[i := u]\<rparr>"

definition tm_Config :: "string \<Rightarrow> u16 \<Rightarrow> int \<Rightarrow> cntl \<Rightarrow> cntl" where
  "tm_Config name base lam c = ConfigCntl name base lam tm_kProbeOff tm_kProbeInt tm_kProbeRem c"

definition tm_SetChunkSize :: "'w link \<Rightarrow> nat \<Rightarrow> tm11 \<Rightarrow> rdma \<Rightarrow> 'w \<Rightarrow> rdma" where
  "tm_SetChunkSize k chunk c r w = SetChunkSize k (cc_fStarted c) chunk r w"

section \<open>Setup\<close>

definition tm_ds :: "utm11 \<Rightarrow> u16" where
  "tm_ds u =
     (case ut_fupVirt u of
        None \<Rightarrow> 0
      | Some t \<Rightarrow> kTMRL_M_ONL OR (if tt_fWProt t then kTMRL_M_WRL else 0) OR (if tt_fBot t then kTMRL_M_BOT else 0))"

text \<open>The status of a drive is written through \<open>tmrl\<close> after the drive was selected in \<open>tmcr\<close>.\<close>

definition tm_wunit :: "nat \<Rightarrow> u16" where
  "tm_wunit ind = push_bit kTMCR_V_RUNIT (of_nat ind) OR push_bit kTMCR_V_FUNC tm_kRFUNC_WUNIT"

definition tm_UnitSetup :: "'w link \<Rightarrow> cpu \<Rightarrow> nat \<Rightarrow> tm11 \<times> 'w \<Rightarrow> (tm11 \<times> 'w) result" where
  "tm_UnitSetup k p ind cw =
     (case cw of (c, w) \<Rightarrow>
        let u = tm_unit ind c; tmds = tm_ds u
        in ebind (ExecWibr k (cc_fBase c + kTMCR) (tm_wunit ind) (cc_fBase c + kTMRL) tmds 0 0 p w)
             (\<lambda>w'. Inr (tm_put ind (u\<lparr>um_fTmds := tmds\<rparr>) c, w')))"

definition tm_units :: "'w link \<Rightarrow> cpu \<Rightarrow> (tm11 \<times> 'w, utm11) dunits" where
  "tm_units k p =
     \<lparr>du_get = (\<lambda>i (c, w). tm_unit i c), du_put = (\<lambda>i u (c, w). (tm_put i u c, w)), du_UnitSetup = tm_UnitSetup k p\<rparr>"

definition tm_Start :: "'w link \<Rightarrow> hid \<Rightarrow> cpu \<Rightarrow> tm11 \<Rightarrow> 'w \<Rightarrow> (cpu \<times> tm11 \<times> 'w) result" where
  "tm_Start k h p c w =
     (if start_bad c then Inl (Rexception ''Rw11CntlTM11::Start'' ''Bad state: started, no lam, not enable, not found'')
      else
        let base = cc_fBase c;
            (p1, w1) = fold (\<lambda>(n, off) pw. AllIAddrMapInsert k (cc_fName c @ n) (base + off) pw)
              [(''.sr'', kTMSR), (''.cr'', kTMCR), (''.bc'', kTMBC), (''.ba'', kTMBA), (''.db'', kTMDB), (''.rl'', kTMRL)] (p, w)
        in ebind (UnitSetupAll (tm_UnitSetup k p1) [0..<tm_NUnit] (c, w1)) (\<lambda>(c1, w2).
           ebind (prim_clist p1 [base + kTMCR, base + kTMSR, base + kTMBC, base + kTMBA] (tm_fPrimClist c1)) (\<lambda>(is, l).
           ebind (lk_AddAttnHandler k h (lam_mask c1) h w2) (\<lambda>w3.
             Inr (p1, c1\<lparr>tm_fPrimClist := l, tm_fPC_tmcr := is ! 0, tm_fPC_tmsr := is ! 1, tm_fPC_tmbc := is ! 2, tm_fPC_tmba := is ! 3,
                         cc_fStarted := True\<rparr>, w3)))))"

definition tm_BootCode :: "nat \<Rightarrow> u16 list \<times> u16 \<times> u16" where
  "tm_BootCode unit =
     ([0x4d54, 0x15c6, 0x400, 0x15c0, of_nat unit, 0x15c1, 0xf556, 0xa09, 0x15e1, 0xffff, 0x1002, 0xc2, 0x65c2, 0x6009, 0x10a1, 0x8bc9,
       0x80fe, 0x1002, 0xc2, 0x65c2, 0x6003, 0x1089, 0x8bc9, 0x80fe, 0xa02, 0xa03, 0x15c4, 0x410, 0xa05, 0xa07], 0x400, 0x402)"

section \<open>Register updates\<close>

definition tm_AddErrorExit :: "tm11 \<Rightarrow> u16 \<Rightarrow> (u16 \<times> u16) list" where
  "tm_AddErrorExit c tmcr = [(cc_fBase c + kTMCR, tmcr OR push_bit kTMCR_V_FUNC tm_kRFUNC_DONE)]"

definition tm_unum :: "u16 \<Rightarrow> nat" where
  "tm_unum tmcr = unat (drop_bit kTMCR_V_UNIT tmcr AND kTMCR_B_UNIT)"

text \<open>The exit of the functions without data transfer. The unit may have been detached by an unload.\<close>

definition tm_AddFastExit :: "opcode \<Rightarrow> nat \<Rightarrow> tm11 \<Rightarrow> (u16 \<times> u16) list \<times> tm11" where
  "tm_AddFastExit opc ndone c =
     (let base = cc_fBase c; unum = tm_unum (tm_fRd_tmcr c); u = tm_unit unum c;
          tmds0 = tm_ds u OR (if ut_Eot u then kTMRL_M_EOT else 0);
          (tmcr, tmds) = (case opc of kOpCodeOK \<Rightarrow> (0, tmds0) | kOpCodeBot \<Rightarrow> (0, tmds0) | kOpCodeEof \<Rightarrow> (0, tmds0 OR kTMRL_M_EOF)
                          | _ \<Rightarrow> (kTMCR_M_RBTE, tmds0));
          tmbc = tm_fRd_tmbc c + of_nat ndone
      in ([(base + kTMCR, tm_wunit unum), (base + kTMRL, tmds)] @ (if ndone \<noteq> 0 then [(base + kTMBC, tmbc)] else []) @
          [(base + kTMCR, tmcr OR push_bit kTMCR_V_FUNC tm_kRFUNC_DONE)],
          tm_put unum (u\<lparr>um_fTmds := tmds\<rparr>) c))"

text \<open>The last byte of a record with odd length is written with a byte enable. The address of the memory register lacks the base of the cpu.\<close>

definition tm_trail :: "cpu \<Rightarrow> tm11 \<Rightarrow> nat \<Rightarrow> u16 list \<Rightarrow> clist \<Rightarrow> clist result" where
  "tm_trail p c ndone buf l =
     ebind (AddLalh (tm_fRd_addr c + of_nat (2 * ndone)) kCPAH_M_UBM22 p l) (\<lambda>(i0, l0).
     ebind (AddMembe kCPMEMBE_M_BE0 False p l0) (\<lambda>(i1, l1).
     if ndone \<ge> length buf then Inl (MemFault ''Rw11CntlTM11::AddNormalExit'')
     else ebind (cl_AddWreg kCPMEM (buf ! ndone) l1) (\<lambda>(i2, l2). Inr l2)))"

text \<open>After a read: the trailing byte and the error bits. The results are the command list, \<open>addr\<close>, \<open>tmbc\<close> and \<open>tmcr\<close>.\<close>

definition tm_read_exit :: "cpu \<Rightarrow> nat \<Rightarrow> u16 \<Rightarrow> u16 list \<Rightarrow> tm11 \<Rightarrow> clist \<Rightarrow> (clist \<times> u32 \<times> u16 \<times> u16) result" where
  "tm_read_exit p ndone tmcr buf c l =
     (let isodd = odd (tm_fRd_rddone c);
          addr = tm_fRd_addr c + of_nat (2 * ndone) + (if isodd then 1 else 0);
          tmbc = tm_fRd_tmbc c + 2 * of_nat ndone + (if isodd then 1 else 0)
      in case tm_fRd_opcode c of
           kOpCodeOK \<Rightarrow> if isodd then ebind (tm_trail p c ndone buf l) (\<lambda>l1. Inr (l1, addr, tmbc, tmcr)) else Inr (l, addr, tmbc, tmcr)
         | kOpCodeRecLenErr \<Rightarrow> Inr (l, addr, tmbc, tmcr OR kTMCR_M_RRLE)
         | kOpCodeBadParity \<Rightarrow> Inr (l, addr, tmbc, tmcr OR kTMCR_M_RPAE)
         | _ \<Rightarrow> Inr (l, addr, tmbc, tmcr OR kTMCR_M_RBTE))"

text \<open>After a write: the record goes to the tape. The results are \<open>addr\<close>, \<open>tmbc\<close> and the controller.\<close>

definition tm_write_exit :: "nat \<Rightarrow> u16 list \<Rightarrow> tm11 \<Rightarrow> (u32 \<times> u16 \<times> tm11) result" where
  "tm_write_exit ndone buf c =
     (let isodd = (tm_fRd_tmbc c AND 1 \<noteq> 0);
          nbyt = (if isodd then size_sub (2 * ndone) 1 else 2 * ndone);
          addr = tm_fRd_addr c + of_nat (2 * ndone) - (if isodd then 1 else 0);
          tmbc = tm_fRd_tmbc c + 2 * of_nat ndone - (if isodd then 1 else 0);
          unum = tm_unum (tm_fRd_tmcr c)
      in if nbyt > 2 * length buf then Inl (MemFault ''Rw11CntlTM11::AddNormalExit'')
         else case VirtWriteRecord (take nbyt (bytes16 buf)) kOpCodeOK (tm_unit unum c) of (ok, opc, u) \<Rightarrow> Inr (addr, tmbc, tm_put unum u c))"

text \<open>A unit whose tape was detached while the transfer was running has no tape to ask: a null pointer is followed.\<close>

definition tm_AddNormalExit :: "cpu \<Rightarrow> nat \<Rightarrow> u16 \<Rightarrow> u16 list \<Rightarrow> tm11 \<Rightarrow> clist \<Rightarrow> (clist \<times> tm11) result" where
  "tm_AddNormalExit p ndone tmcr0 buf c0 l0 =
     ebind (if tm_fRd_fu c0 = tm_kFUNC_READ
            then ebind (tm_read_exit p ndone tmcr0 buf c0 l0) (\<lambda>(l, addr, tmbc, tmcr). Inr (l, addr, tmbc, tmcr, c0))
            else ebind (tm_write_exit ndone buf c0) (\<lambda>(addr, tmbc, c1). Inr (l0, addr, tmbc, tmcr0, c1))) (\<lambda>(l, addr, tmbc, tmcr1, c).
       let base = cc_fBase c; unum = tm_unum (tm_fRd_tmcr c); u = tm_unit unum c;
           tmds = tm_ds u OR (if ut_Eot u then kTMRL_M_EOT else 0);
           tmba = ucast (addr AND 0xfffe);
           ea = ucast (drop_bit 16 addr AND 3);
           tmcr = tmcr1 OR kTMCR_M_REAENA OR push_bit kTMCR_V_REA ea OR push_bit kTMCR_V_FUNC tm_kRFUNC_DONE
       in if ut_fupVirt u = None then Inl (MemFault ''Rw11CntlTM11::AddNormalExit'')
          else ebind (add_wibrs p [(base + kTMCR, tm_wunit unum), (base + kTMRL, tmds), (base + kTMBC, tmbc), (base + kTMBA, tmba), (base + kTMCR, tmcr)] l)
            (\<lambda>l'. Inr (l', tm_put unum (u\<lparr>um_fTmds := tmds\<rparr>) c)))"

section \<open>Callbacks\<close>

definition tm_RdmaPreExecCB :: "rdma_status \<Rightarrow> nat \<Rightarrow> nat \<Rightarrow> clist \<Rightarrow> tm11 \<times> 'w \<Rightarrow> (clist \<times> tm11 \<times> 'w) result" where
  "tm_RdmaPreExecCB stat nwdone nwnext l cw = Inr (l, cw)"

definition tm_RdmaPostExecCB :: "'w link \<Rightarrow> cpu \<Rightarrow> rdma_status \<Rightarrow> nat \<Rightarrow> clist \<Rightarrow> nat \<Rightarrow> rdma \<Rightarrow> tm11 \<times> 'w \<Rightarrow> (rdma \<times> tm11 \<times> 'w) result" where
  "tm_RdmaPostExecCB k p stat ndone l ncmd r cw =
     (if stat = kStatusBusy then Inr (r, cw)
      else ebind (tm_AddNormalExit p ndone (if stat = kStatusFailRdma then kTMCR_M_RNXM else 0) (rd_buf r) (fst cw) clist_new) (\<lambda>(l1, c1).
           ebind (srv_Exec k l1 (snd cw)) (\<lambda>(l2, w'). Inr (r, (c1, w')))))"

definition tm_cbs :: "'w link \<Rightarrow> cpu \<Rightarrow> (unit, tm11 \<times> 'w) rdma_cbs" where
  "tm_cbs k p =
     \<lparr>rc_PreExecCB = tm_RdmaPreExecCB, rc_PostExecCB = tm_RdmaPostExecCB k p, rc_PreRdmaHook = (\<lambda>r s. Inr (r, s)),
      rc_PostRdmaHook = (\<lambda>n r s. Inr (r, s))\<rparr>"

definition tm_RdmaHandler :: "'w link \<Rightarrow> cpu \<Rightarrow> rdma \<Rightarrow> tm11 \<times> 'w \<Rightarrow> (int \<times> rdma \<times> tm11 \<times> 'w) result" where
  "tm_RdmaHandler k p = RdmaHandler (link_snd k) (tm_cbs k p) p"

section \<open>Attention handler\<close>

record tm_req =
  tq_tmcr :: u16
  tq_tmsr :: u16
  tq_tmbc :: u16
  tq_tmba :: u16
  tq_unum :: nat
  tq_fu :: u16
  tq_addr :: u32
  tq_nbyt :: nat

definition tm_decode :: "u16 \<Rightarrow> u16 \<Rightarrow> u16 \<Rightarrow> u16 \<Rightarrow> tm_req" where
  "tm_decode tmcr tmsr tmbc tmba =
     \<lparr>tq_tmcr = tmcr, tq_tmsr = tmsr, tq_tmbc = tmbc, tq_tmba = tmba, tq_unum = tm_unum tmcr, tq_fu = drop_bit kTMCR_V_FUNC tmcr AND kTMCR_B_FUNC,
      tq_addr = push_bit 16 (ucast (drop_bit kTMCR_V_EA tmcr AND kTMCR_B_EA)) OR ucast tmba,
      tq_nbyt = unat ((NOT (ucast tmbc) AND 0xffff) + 1 :: u32)\<rparr>"

text \<open>\<open>fBuf.resize\<close> when the buffer is too small.\<close>

definition tm_alloc :: "nat \<Rightarrow> rdma \<Rightarrow> rdma" where
  "tm_alloc nw r = (if length (rd_buf r) < nw then r\<lparr>rd_buf := rd_buf r @ replicate (nw - length (rd_buf r)) 0\<rparr> else r)"

definition tm_read :: "'w link \<Rightarrow> hid \<Rightarrow> cpu \<Rightarrow> tm_req \<Rightarrow> rdma \<Rightarrow> tm11 \<times> 'w \<Rightarrow> ((u16 \<times> u16) list \<times> rdma \<times> tm11 \<times> 'w) result" where
  "tm_read k h p q r cw =
     (case cw of (c, w) \<Rightarrow>
        let r1 = tm_alloc ((tq_nbyt q + 1) div 2) r
        in case VirtReadRecord (tq_nbyt q) (bytes16 (rd_buf r1)) (tm_fRd_rddone c) (tm_fRd_opcode c) (tm_unit (tq_unum q) c) of (rc, bs, ndone, opc, u) \<Rightarrow>
             let r2 = r1\<lparr>rd_buf := pairs bs\<rparr>;
                 c1 = (tm_put (tq_unum q) u c)\<lparr>tm_fRd_rddone := ndone, tm_fRd_opcode := opc\<rparr>
             in if \<not> rc \<or> ndone = 0 then (case tm_AddFastExit opc 0 c1 of (xs, c2) \<Rightarrow> Inr (xs, r2, (c2, w)))
                else ebind (QueueWMem (link_snd k) h (tq_addr q) 0 (ndone div 2) kCPAH_M_UBM22 r2 (c1, w)) (\<lambda>(r3, cw1). Inr ([], r3, cw1)))"

text \<open>The functions. \<open>ndone\<close> of the space functions has no value before the call; a tape is attached here, so that it is always set.\<close>

definition tm_func :: "'w link \<Rightarrow> hid \<Rightarrow> cpu \<Rightarrow> tm_req \<Rightarrow> rdma \<Rightarrow> tm11 \<times> 'w \<Rightarrow> ((u16 \<times> u16) list \<times> rdma \<times> tm11 \<times> 'w) result" where
  "tm_func k h p q r cw =
     (case cw of (c, w) \<Rightarrow>
        let unum = tq_unum q; fu = tq_fu q; u = tm_unit unum c;
            fast = (\<lambda>opc ndone c1 w1. case tm_AddFastExit opc ndone c1 of (xs, c2) \<Rightarrow> Inr (xs, r, (c2, w1)))
        in if fu = tm_kFUNC_UNLOAD then
             ebind (unit_Detach (tape_unit_ops (tm_units k p) unum) (tm_inc tmStatNFuncUnload c, w)) (\<lambda>(c1, w1). fast kOpCodeOK 0 c1 w1)
           else if fu = tm_kFUNC_READ then tm_read k h p q r (tm_inc tmStatNFuncRead c, w)
           else if fu = tm_kFUNC_WRITE \<or> fu = tm_kFUNC_WEIRG then
             (let nwdma = (tq_nbyt q + 1) div 2
              in ebind (QueueRMem (link_snd k) h (tq_addr q) 0 nwdma kCPAH_M_UBM22 (tm_alloc nwdma r)
                   (tm_inc (if fu = tm_kFUNC_WRITE then tmStatNFuncWrite else tmStatNFuncWrteg) c, w)) (\<lambda>(r1, cw1). Inr ([], r1, cw1)))
           else if fu = tm_kFUNC_WEOF then
             (case VirtWriteEof u of (ok, u') \<Rightarrow> fast kOpCodeOK 0 (tm_put unum u' (tm_inc tmStatNFuncWeof c)) w)
           else if fu = tm_kFUNC_SFORW then
             (case VirtSpaceForw (tq_nbyt q) 0 kOpCodeOK u of (ok, ndone, opc, u') \<Rightarrow> fast opc ndone (tm_put unum u' (tm_inc tmStatNFuncSforw c)) w)
           else if fu = tm_kFUNC_SBACK then
             (case VirtSpaceBack (tq_nbyt q) 0 kOpCodeOK u of (ok, ndone, opc, u') \<Rightarrow> fast opc ndone (tm_put unum u' (tm_inc tmStatNFuncSback c)) w)
           else if fu = tm_kFUNC_REWIND then
             (case VirtRewind kOpCodeOK u of (ok, opc, u') \<Rightarrow> fast opc 0 (tm_put unum u' (tm_inc tmStatNFuncRewind c)) w)
           else Inr ([], r, (c, w)))"

definition tm_wcmd :: "u16 \<Rightarrow> bool" where
  "tm_wcmd fu = (fu = tm_kFUNC_WRITE \<or> fu = tm_kFUNC_WEIRG \<or> fu = tm_kFUNC_WEOF)"

definition tm_handle :: "'w link \<Rightarrow> hid \<Rightarrow> cpu \<Rightarrow> tm_req \<Rightarrow> rdma \<Rightarrow> tm11 \<times> 'w \<Rightarrow> (rdma \<times> tm11 \<times> 'w) result" where
  "tm_handle k h p q r cw =
     (case cw of (c, w) \<Rightarrow>
        let unum = tq_unum q; u = tm_unit unum c;
            error = ebind (exec_wibrs k p (tm_AddErrorExit c kTMCR_M_RICMD) w) (\<lambda>w'. Inr (r, (c, w')))
        in if tq_tmcr q AND kTMCR_M_RDY \<noteq> 0 \<or> rd_IsActive r then Inr (r, (c, w))
           else if unum \<ge> tm_NUnit then error
           else if (case ut_fupVirt u of None \<Rightarrow> True | Some t \<Rightarrow> tm_wcmd (tq_fu q) \<and> tt_fWProt t) then error
           else
             let c1 = c\<lparr>tm_fRd_tmcr := tq_tmcr q, tm_fRd_tmsr := tq_tmsr q, tm_fRd_tmbc := tq_tmbc q, tm_fRd_tmba := tq_tmba q,
                        tm_fRd_addr := tq_addr q, tm_fRd_fu := tq_fu q\<rparr>
             in ebind (tm_func k h p q r (c1, w)) (\<lambda>(xs, r1, c2, w1).
                  if xs \<noteq> [] then ebind (exec_wibrs k p xs w1) (\<lambda>w2. Inr (r1, (c2, w2))) else Inr (r1, (c2, w1))))"

definition tm_AttnHandler :: "'w link \<Rightarrow> hid \<Rightarrow> cpu \<Rightarrow> attn_args \<Rightarrow> rdma \<Rightarrow> tm11 \<times> 'w \<Rightarrow> (attn_args \<times> rdma \<times> tm11 \<times> 'w) result" where
  "tm_AttnHandler k h p args r cw0 =
     (case cw0 of (c0, w0) \<Rightarrow>
        let c1 = tm_inc tmStatNAttnHdl c0
        in ebind (srv_GetAttnInfo k args (tm_fPrimClist c1) w0) (\<lambda>(args', l, w).
           let c = c1\<lparr>tm_fPrimClist := l\<rparr>
           in ebind (cmd_data (tm_fPC_tmcr c) l) (\<lambda>tmcr. ebind (cmd_data (tm_fPC_tmsr c) l) (\<lambda>tmsr.
              ebind (cmd_data (tm_fPC_tmbc c) l) (\<lambda>tmbc. ebind (cmd_data (tm_fPC_tmba c) l) (\<lambda>tmba.
                ebind (tm_handle k h p (tm_decode tmcr tmsr tmbc tmba) r (c, w)) (\<lambda>(r1, cw1). Inr (args', r1, cw1))))))))"

end
