(* ===== verification/Rw11TM11Rep.thy ===== *)
theory Rw11TM11Rep
  imports Rw11TapeRep Rw11LoadAbs Rw11CntlRep Rw11CntlTM11
begin

text \<open>
  The TM11 from end to end: \<open>tmd\<close> interprets the contract of a DMA client on its callbacks; \<open>tm11_write\<close> and \<open>tm11_read\<close> follow a
  record between memory and tape.
\<close>

section \<open>The TM11 as a client of the DMA\<close>

definition tm_regs :: "u16 list" where
  "tm_regs = [kTMSR, kTMCR, kTMBC, kTMBA, kTMDB, kTMRL]"

definition tm_inv :: "cpu \<Rightarrow> tm11 \<Rightarrow> bool" where
  "tm_inv p c = list_all (\<lambda>off. dev_reg p (cc_fBase c + off)) tm_regs"

interpretation tmd: dma_client p "tm_inv p" "\<lambda>n c. None" "tm_cbs (cp_link (cp_fBase p) bm b) p" for p bm b
proof (unfold_locales, goal_cases)
  case (5 st nd l n r s r' s')
  then show ?case
    by (auto simp: tm_cbs_def tm_RdmaPostExecCB_def ebind_eq_Inr split: if_splits)
qed (simp_all add: tm_cbs_def tm_RdmaPreExecCB_def tm_RdmaPostExecCB_def ext_cmds_def ext_ok_def ext_log_def)

lemma tm_chain_pos:
  assumes "mem_set w a n mode buf r" and "0 < n" and "n \<le> length buf" and "chunk_ok bm r" and "bit mode 6" and "in22 a n d" and "word_mode d"
    and "tm_inv p c"
  shows "\<exists>l' nc d' r6. rdma_chain (tm_RdmaHandler (cp_link (cp_fBase p) bm b) p) r (c, d) =
      Some (ebind (tm_RdmaPostExecCB (cp_link (cp_fBase p) bm b) p kStatusDone n l' nc r6 (c, d')) (\<lambda>(r7, s5). Inr (r7\<lparr>rd_fStatus := kStatusDone\<rparr>, s5))) \<and>
    rd_buf r6 = (if w then buf else rd_words (unat a) n (cb_mem d) @ drop n buf) \<and>
    mem_upd (if w then wr_words (unat a) (take n buf) (cb_mem d) else cb_mem d) d d'"
proof -
  let ?cb = "tm_cbs (cp_link (cp_fBase p) bm b) p"
  let ?H = "RdmaHandler (dma_link p bm b) ?cb p"
  note rs = assms(1) [unfolded mem_set_def]
  have rdy: "dma_ready bm r d" "n = rd_fNWordRest r"
    using rs assms(2-7) by (auto simp: dma_ready_def chunk_ok_def)
  have H: "?H r (c, d) = rdma_chunk (dma_link p bm b) ?cb p r (c, d)" and d0: "rd_fNWordDone r = 0"
    using rs by (simp_all add: RdmaHandler_def tm_cbs_def)
  from tmd.chain_run [OF rdy(1) assms(8) rdy(2), of b bm b] obtain l' d' z where
    2: "rdma_cont ?H (?H r (c, d)) =
        Some (ebind (rc_PostRdmaHook ?cb n (Rw11RdmaRep.moved n (cb_mem d) kStatusDone z r) (c, d')) (\<lambda>(r6, s4).
          ebind (rc_PostExecCB ?cb kStatusDone n l' 3 r6 s4) (\<lambda>(r7, s5). Inr (r7\<lparr>rd_fStatus := kStatusDone\<rparr>, s5))))"
      "mem_upd (xfer_mem r n (cb_mem d)) (d\<lparr>cb_log := cb_log d @ ext_log None\<rparr>) d'"
    unfolding H d0 add_0 by blast
  have "rdma_chain (tm_RdmaHandler (cp_link (cp_fBase p) bm b) p) r (c, d) =
      Some (ebind (tm_RdmaPostExecCB (cp_link (cp_fBase p) bm b) p kStatusDone n l' 3 (Rw11RdmaRep.moved n (cb_mem d) kStatusDone z r) (c, d'))
        (\<lambda>(r7, s5). Inr (r7\<lparr>rd_fStatus := kStatusDone\<rparr>, s5)))"
    unfolding tm_RdmaHandler_def rdma_chain_cont using 2(1) by (simp add: dma_link_def) (simp add: tm_cbs_def)
  moreover have "rd_buf (Rw11RdmaRep.moved n (cb_mem d) kStatusDone z r) = (if w then buf else rd_words (unat a) n (cb_mem d) @ drop n buf)"
    using rs by (simp add: Rw11RdmaRep.moved_def xfer_buf_def)
  moreover have "mem_upd (if w then wr_words (unat a) (take n buf) (cb_mem d) else cb_mem d) d d'"
    using 2(2) rs by (cases w) (simp_all add: xfer_mem_def ext_log_def)
  ultimately show ?thesis
    by blast
qed

text \<open>A transfer of no words only sets the address.\<close>

lemma tm_chain_zero:
  assumes "mem_set True a 0 mode buf r" and "word_mode d"
  shows "\<exists>l' nc d' r6. rdma_chain (tm_RdmaHandler (cp_link (cp_fBase p) bm b) p) r (c, d) =
      Some (ebind (tm_RdmaPostExecCB (cp_link (cp_fBase p) bm b) p kStatusDone 0 l' nc r6 (c, d')) (\<lambda>(r7, s5). Inr (r7\<lparr>rd_fStatus := kStatusDone\<rparr>, s5))) \<and>
    rd_buf r6 = buf \<and> mem_upd (cb_mem d) d d'"
proof -
  let ?k = "cp_link (cp_fBase p) bm b"
  let ?H = "tm_RdmaHandler ?k p"
  note rs = assms(1) [unfolded mem_set_def]
  have post: "rd_fStatus r' = rd_fStatus r0" if "tm_RdmaPostExecCB ?k p st nd l n r0 s = Inr (r', s')" for st nd l n r0 s r' s'
    using that by (auto simp: tm_RdmaPostExecCB_def ebind_eq_Inr split: if_splits)
  define l where "l = clist_new\<lparr>cl_fList := wregs [(cp_fBase p + kCPAL, addr_al a), (cp_fBase p + kCPAH, addr_ah a mode)]\<rparr>"
  obtain c1 c2 d' where e: "cb_exec (cp_fBase p) l d = Inr (True, l\<lparr>cl_fList := [c1, c2]\<rparr>, d')" "mem_upd (cb_mem d) d d'" "cmd_fBlockDone c2 = 0"
  proof -
    let ?b = "cp_fBase p"
    have bd: "cmd_fBlockDone (SetStatus x (wreg_cmd y w)) = 0" for x y w
      by (simp add: SetStatus_def wreg_cmd_def cmd_new_def)
    obtain d1 d2 where "cb_wreg ?b (?b + kCPAL) (addr_al a) d = (True, d1)" "cb_wreg ?b (?b + kCPAH) (addr_ah a mode) d1 = (True, d2)" "mem_upd (cb_mem d) d d2"
      using assms(2) by (simp add: cb_wreg_def cpu_defs mem_upd_def word_mode_def)
    then show ?thesis
      using that bd by (simp add: l_def cb_exec_def wregs_def cb_cmd_wreg)
  qed
  let ?l' = "l\<lparr>cl_fList := [c1, c2]\<rparr>"
  let ?r = "(rdma_fetch 0 c2 ((rd_inc kStatNRdmaWMem r)\<lparr>rd_fStatus := kStatusBusyLast\<rparr>))"
  obtain r6 where r6: "rdma_advance 0 0 ?r = (True, r6)" "rd_fStatus r6 = kStatusDone" "rd_buf r6 = buf" "rd_fNWordDone r6 = 0"
    using rs by (auto simp: rdma_advance_def Let_def rdma_fetch_def rd_inc_def)
  have cl: "rdma_clist (link_snd ?k) p 0 (rd_inc kStatNRdmaWMem r) (c, d) = Inr l"
    using rs by (simp add: rdma_clist_def rd_inc_def AddWMem_def AddLalh_def cl_AddWreg_eq add_wmem_loop.simps l_def clist_new_def wregs_def)
  have ex: "srv_Exec (link_snd ?k) l (c, d) = Inr (?l', (c, d'))"
    using e(1) by (simp add: srv_Exec_def throw_fail_def link_snd_def cp_link_def)
  have "?H r (c, d) = ebind (tm_RdmaPostExecCB ?k p kStatusDone 0 ?l' (Suc (Suc 0)) r6 (c, d')) (\<lambda>(r7, s5).
      if rd_fStatus r7 = kStatusBusy then Inr (1, r7, s5) else Inr (0, r7\<lparr>rd_fStatus := kStatusDone\<rparr>, s5))"
    using rs cl ex r6 e(3)
    by (simp add: tm_RdmaHandler_def RdmaHandler_def rdma_chunk_def tm_cbs_def tm_RdmaPreExecCB_def Let_def cl_Size_def cl_at_def rd_inc_def l_def wregs_def)
  also have "\<dots> = ebind (tm_RdmaPostExecCB ?k p kStatusDone 0 ?l' (Suc (Suc 0)) r6 (c, d')) (\<lambda>(r7, s5). Inr (0, r7\<lparr>rd_fStatus := kStatusDone\<rparr>, s5))"
    using post [of kStatusDone 0 ?l' "Suc (Suc 0)" r6 "(c, d')"] r6(2) by (cases "tm_RdmaPostExecCB ?k p kStatusDone 0 ?l' (Suc (Suc 0)) r6 (c, d')") auto
  finally have "rdma_chain ?H r (c, d) = Some (ebind (tm_RdmaPostExecCB ?k p kStatusDone 0 ?l' (Suc (Suc 0)) r6 (c, d')) (\<lambda>(r7, s5). Inr (r7\<lparr>rd_fStatus := kStatusDone\<rparr>, s5)))"
    by (subst rdma_chain.simps) (cases "tm_RdmaPostExecCB ?k p kStatusDone 0 ?l' (Suc (Suc 0)) r6 (c, d')"; auto)
  then show ?thesis
    using r6(3) e(2) by blast
qed

lemma tm_chain:
  assumes "mem_set w a n mode buf r" and "0 < n \<or> w" and "n \<le> length buf" and "chunk_ok bm r" and "bit mode 6" and "in22 a n d" and "word_mode d"
    and "tm_inv p c"
  shows "\<exists>l' nc d' r6. rdma_chain (tm_RdmaHandler (cp_link (cp_fBase p) bm b) p) r (c, d) =
      Some (ebind (tm_RdmaPostExecCB (cp_link (cp_fBase p) bm b) p kStatusDone n l' nc r6 (c, d')) (\<lambda>(r7, s5). Inr (r7\<lparr>rd_fStatus := kStatusDone\<rparr>, s5))) \<and>
    rd_buf r6 = (if w then buf else rd_words (unat a) n (cb_mem d) @ drop n buf) \<and>
    mem_upd (if w then wr_words (unat a) (take n buf) (cb_mem d) else cb_mem d) d d'"
proof (cases "n = 0")
  case True
  have "wr_words (unat a) [] (cb_mem d) = cb_mem d"
    by (auto simp: wr_words_def fun_eq_iff)
  then show ?thesis
    using tm_chain_zero [of a mode buf r d] assms(1,2,7) True by simp
next
  case False
  then show ?thesis
    using tm_chain_pos [OF assms(1) _ assms(3-8)] by simp
qed

section \<open>Registers\<close>

text \<open>The status of a drive after an operation.\<close>

definition tm_status :: "utm11 \<Rightarrow> u16" where
  "tm_status u = tm_ds u OR (if ut_Eot u then kTMRL_M_EOT else 0)"

text \<open>The registers after \<open>n\<close> bytes without an error: byte count and bus address behind the transfer, the status of the drive, and the function done.\<close>

definition tm_done :: "u16 \<Rightarrow> tm_req \<Rightarrow> nat \<Rightarrow> utm11 \<Rightarrow> (u16 \<times> u16) list \<Rightarrow> bool" where
  "tm_done base q n u xs =
     (\<exists>ba cr. xs = [(base + kTMCR, tm_wunit (tq_unum q)), (base + kTMRL, tm_status u), (base + kTMBC, tq_tmbc q + of_nat n), (base + kTMBA, ba), (base + kTMCR, cr)] \<and>
        cr AND (kTMCR_M_RICMD OR kTMCR_M_RPAE OR kTMCR_M_RRLE OR kTMCR_M_RBTE OR kTMCR_M_RNXM) = 0 \<and> cr AND kTMCR_M_REAENA \<noteq> 0 \<and>
        drop_bit kTMCR_V_FUNC cr AND kTMCR_B_FUNC = tm_kRFUNC_DONE \<and>
        push_bit 16 (ucast (drop_bit kTMCR_V_REA cr AND 3)) OR ucast ba = take_bit 18 (tq_addr q + of_nat n) AND NOT 1)"

lemma bit_tm: "bit (0x40 :: int) i \<longleftrightarrow> i = 6" "bit (4 :: int) i \<longleftrightarrow> i = 2" "bit (2 :: int) i \<longleftrightarrow> i = 1" "bit (0x20 :: int) i \<longleftrightarrow> i = 5"
proof -
  have "(0x40 :: int) = push_bit 6 (mask 1)" "(4 :: int) = push_bit 2 (mask 1)" "(2 :: int) = push_bit 1 (mask 1)" "(0x20 :: int) = push_bit 5 (mask 1)"
    by (simp_all add: mask_eq_exp_minus_1)
  note e = this
  show "bit (0x40 :: int) i \<longleftrightarrow> i = 6" "bit (4 :: int) i \<longleftrightarrow> i = 2" "bit (2 :: int) i \<longleftrightarrow> i = 1" "bit (0x20 :: int) i \<longleftrightarrow> i = 5"
    unfolding e by (simp_all only: bit_push_bit_iff bit_mask_iff) auto
qed

lemma tm_cr_fields:
  fixes a :: u32
  assumes "cr = kTMCR_M_REAENA OR push_bit kTMCR_V_REA (ucast (drop_bit 16 a AND 3)) OR push_bit kTMCR_V_FUNC tm_kRFUNC_DONE"
  shows "cr AND (kTMCR_M_RICMD OR kTMCR_M_RPAE OR kTMCR_M_RRLE OR kTMCR_M_RBTE OR kTMCR_M_RNXM) = 0" "cr AND kTMCR_M_REAENA \<noteq> 0"
    "drop_bit kTMCR_V_FUNC cr AND kTMCR_B_FUNC = tm_kRFUNC_DONE"
    "push_bit 16 (ucast (drop_bit kTMCR_V_REA cr AND 3)) OR ucast (ucast (a AND 0xfffe) :: u16) = take_bit 18 a AND NOT 1"
proof -
  note b = assms dev_defs bit_simps bit_masks bit_tm
  have m: "bit (0x9380 :: int) i \<longleftrightarrow> i \<in> {7, 8, 9, 12, 15}" for i
  proof -
    have "(0x9380 :: int) = push_bit 7 (mask 3) OR push_bit 12 (mask 1) OR push_bit 15 (mask 1)"
      by (simp add: mask_eq_exp_minus_1)
    then show ?thesis
      by (simp only: bit_or_iff bit_push_bit_iff bit_mask_iff) auto
  qed
  show "cr AND (kTMCR_M_RICMD OR kTMCR_M_RPAE OR kTMCR_M_RRLE OR kTMCR_M_RBTE OR kTMCR_M_RNXM) = 0"
    by (rule bit_word_eqI) (auto simp: b m)
  have "bit (cr AND kTMCR_M_REAENA) 6"
    by (simp add: b)
  then show "cr AND kTMCR_M_REAENA \<noteq> 0"
    by (metis bit_0_eq bot_apply bot_bool_def)
  show "drop_bit kTMCR_V_FUNC cr AND kTMCR_B_FUNC = tm_kRFUNC_DONE"
    by (rule bit_word_eqI) (auto simp: b)
  show "push_bit 16 (ucast (drop_bit kTMCR_V_REA cr AND 3)) OR ucast (ucast (a AND 0xfffe) :: u16) = take_bit 18 a AND NOT 1"
    by (rule bit_word_eqI) (auto simp: b bit_1_iff)
qed

section \<open>Requests\<close>

definition tm_prim :: "cpu \<Rightarrow> tm11 \<Rightarrow> bool" where
  "tm_prim p c =
     (prim_ok p (map (\<lambda>off. cc_fBase c + off) [kTMCR, kTMSR, kTMBC, kTMBA]) (tm_fPrimClist c) \<and>
      tm_fPC_tmcr c = 1 \<and> tm_fPC_tmsr c = 2 \<and> tm_fPC_tmbc c = 3 \<and> tm_fPC_tmba c = 4)"

definition tm_request :: "cpu \<Rightarrow> tm11 \<Rightarrow> cpport \<Rightarrow> tm_req" where
  "tm_request p c d =
     (let reg = (\<lambda>off. cb_ext d (IbusRemoteAddr (cc_fBase c + off) p)) in tm_decode (reg kTMCR) (reg kTMSR) (reg kTMBC) (reg kTMBA))"

lemma tm_attn:
  assumes "tm_prim p c" and q: "q = tm_request p c d"
  shows "\<exists>args' l. tm_AttnHandler (cp_link (cp_fBase p) bm b) h p args r (c, d) =
    ebind (tm_handle (cp_link (cp_fBase p) bm b) h p q r ((tm_inc tmStatNAttnHdl c)\<lparr>tm_fPrimClist := l\<rparr>, d\<lparr>cb_lam := 0\<rparr>)) (\<lambda>(r1, cw1). Inr (args', r1, cw1))"
proof -
  let ?k = "cp_link (cp_fBase p) bm b"
  let ?reg = "\<lambda>off. cb_ext d (IbusRemoteAddr (cc_fBase c + off) p)"
  obtain l where l: "srv_GetAttnInfo ?k args (tm_fPrimClist c) d =
      Inr (args\<lparr>aa_fAttnHarvest := cb_lam d, aa_fHarvestDone := True\<rparr>, l, d\<lparr>cb_lam := 0\<rparr>)"
    and dt: "\<forall>i < 4. cmd_data (i + 1) l = Inr (cb_ext d (IbusRemoteAddr (map (\<lambda>off. cc_fBase c + off) [kTMCR, kTMSR, kTMBC, kTMBA] ! i) p))"
    using GetAttnInfo_port [of p "map (\<lambda>off. cc_fBase c + off) [kTMCR, kTMSR, kTMBC, kTMBA]" "tm_fPrimClist c" bm b args d] assms(1)
    by (auto simp: tm_prim_def)
  have dat: "cmd_data 1 l = Inr (?reg kTMCR)" "cmd_data 2 l = Inr (?reg kTMSR)" "cmd_data 3 l = Inr (?reg kTMBC)" "cmd_data 4 l = Inr (?reg kTMBA)"
    using dt [rule_format, of 0] dt [rule_format, of 1] dt [rule_format, of 2] dt [rule_format, of 3] by (simp_all add: eval_nat_numeral)
  have p1: "tm_fPrimClist (tm_inc x c) = tm_fPrimClist c" "tm_fPC_tmcr (tm_inc x c) = 1" "tm_fPC_tmsr (tm_inc x c) = 2"
    "tm_fPC_tmbc (tm_inc x c) = 3" "tm_fPC_tmba (tm_inc x c) = 4" for x
    using assms(1) by (simp_all add: tm_inc_def tm_prim_def)
  show ?thesis
    unfolding tm_AttnHandler_def
    by (intro exI [of _ "args\<lparr>aa_fAttnHarvest := cb_lam d, aa_fHarvestDone := True\<rparr>"] exI [of _ l])
      (simp add: p1 l dat q tm_request_def Let_def del: One_nat_def)
qed

text \<open>A request that the controller accepts, for any byte count; a byte count register of 0 asks for 64 kByte.\<close>

definition tm_ready :: "u16 \<Rightarrow> cpu \<Rightarrow> nat \<Rightarrow> nat \<Rightarrow> rdma \<Rightarrow> tm11 \<Rightarrow> cpport \<Rightarrow> bool" where
  "tm_ready fu p bm b r c d =
     (let q = tm_request p c d
      in tm_prim p c \<and> tm_inv p c \<and> length (tm_fspUnit c) = tm_NUnit \<and> \<not> rd_IsActive r \<and> chunk_cfg bm b r \<and> tq_fu q = fu \<and> tq_tmcr q AND kTMCR_M_RDY = 0 \<and>
         tq_unum q < tm_NUnit \<and> word_mode d)"

text \<open>In addition, what a write needs: a record can have at most 65535 bytes, and the bytes come from memory.\<close>

definition tm_setup :: "u16 \<Rightarrow> cpu \<Rightarrow> nat \<Rightarrow> nat \<Rightarrow> rdma \<Rightarrow> tm11 \<Rightarrow> cpport \<Rightarrow> bool" where
  "tm_setup fu p bm b r c d =
     (let q = tm_request p c d in tm_ready fu p bm b r c d \<and> tq_tmbc q \<noteq> 0 \<and> in22 (tq_addr q) ((tq_nbyt q + 1) div 2) d)"

definition tm_accept :: "tm_req \<Rightarrow> clist \<Rightarrow> tm11 \<Rightarrow> tm11" where
  "tm_accept q l c =
     (tm_inc tmStatNAttnHdl c)\<lparr>tm_fPrimClist := l, tm_fRd_tmcr := tq_tmcr q, tm_fRd_tmsr := tq_tmsr q, tm_fRd_tmbc := tq_tmbc q, tm_fRd_tmba := tq_tmba q,
       tm_fRd_addr := tq_addr q, tm_fRd_fu := tq_fu q\<rparr>"

lemma tm_accept_simps:
  "tm_inv p (tm_accept q l c) = tm_inv p c" "tm_unit i (tm_accept q l c) = tm_unit i c" "tm_fRd_fu (tm_accept q l c) = tq_fu q"
  "tm_fRd_addr (tm_accept q l c) = tq_addr q" "tm_fRd_tmbc (tm_accept q l c) = tq_tmbc q" "tm_fRd_tmcr (tm_accept q l c) = tq_tmcr q"
  "tm_inv p (tm_inc x c) = tm_inv p c" "tm_unit i (tm_inc x c) = tm_unit i c" "tm_fRd_fu (tm_inc x c) = tm_fRd_fu c" "tm_fRd_addr (tm_inc x c) = tm_fRd_addr c"
  "tm_fRd_tmbc (tm_inc x c) = tm_fRd_tmbc c" "tm_fRd_tmcr (tm_inc x c) = tm_fRd_tmcr c" "cc_fBase (tm_accept q l c) = cc_fBase c" "cc_fBase (tm_inc x c) = cc_fBase c"
  "tm_fspUnit (tm_inc x c) = tm_fspUnit c" "tm_fspUnit (tm_accept q l c) = tm_fspUnit c"
  by (auto simp: tm_accept_def tm_inv_def tm_inc_def tm_unit_def)

lemma tm_handle_accept:
  assumes "tm_ready fu p bm b r c d" and q: "q = tm_request p c d" and "ut_fupVirt (tm_unit (tq_unum q) c) = Some t" and "tm_wcmd fu \<Longrightarrow> \<not> tt_fWProt t"
  shows "\<exists>args' l. tm_AttnHandler (cp_link (cp_fBase p) bm b) h p args r (c, d) =
    ebind (tm_func (cp_link (cp_fBase p) bm b) h p q r (tm_accept q l c, d\<lparr>cb_lam := 0\<rparr>)) (\<lambda>(xs, r1, c2, w1).
      if xs \<noteq> [] then ebind (exec_wibrs (cp_link (cp_fBase p) bm b) p xs w1) (\<lambda>w2. Inr (args', r1, (c2, w2))) else Inr (args', r1, (c2, w1)))"
proof -
  have g: "tm_prim p c" "\<not> rd_IsActive r" "tq_fu q = fu" "tq_tmcr q AND kTMCR_M_RDY = 0" "tq_unum q < tm_NUnit"
    using assms(1) by (auto simp: tm_ready_def Let_def q)
  have u: "tm_unit (tq_unum q) ((tm_inc tmStatNAttnHdl c)\<lparr>tm_fPrimClist := l\<rparr>) = tm_unit (tq_unum q) c" for l
    by (simp add: tm_unit_def tm_inc_def)
  from tm_attn [OF g(1) q, of bm b h args r] obtain args' l where
    "tm_AttnHandler (cp_link (cp_fBase p) bm b) h p args r (c, d) =
      ebind (tm_handle (cp_link (cp_fBase p) bm b) h p q r ((tm_inc tmStatNAttnHdl c)\<lparr>tm_fPrimClist := l\<rparr>, d\<lparr>cb_lam := 0\<rparr>)) (\<lambda>(r1, cw1). Inr (args', r1, cw1))"
    by blast
  then show ?thesis
    using g(2-5) assms(3,4)
    by (intro exI [of _ args'] exI [of _ l]) (auto simp: tm_handle_def Let_def u tm_accept_def ebind_def split: sum.splits)
qed

section \<open>Writing a record\<close>

lemma bytes16_rd_words: "bytes16 (rd_words a n m) = map m [a..<a + 2 * n]"
proof (induction n)
  case (Suc n)
  have "[a..<a + 2 * Suc n] = [a..<a + 2 * n] @ [a + 2 * n, a + 2 * n + 1]"
    by simp
  then show ?case
    using Suc by (simp add: rd_words_def)
qed (simp add: rd_words_def)

lemma take_mem:
  assumes "n \<le> 2 * k"
  shows "take n (bytes16 (rd_words a k m @ xs)) = map m [a..<a + n]"
  using assms by (simp add: bytes16_rd_words take_map)

lemma tm_nbyt:
  assumes "q = tm_request p c d"
  shows "tq_nbyt q = 2 ^ 16 - unat (tq_tmbc q)" "tq_tmbc q + of_nat (tq_nbyt q) = 0" "tq_unum q = tm_unum (tq_tmcr q)"
proof -
  show n: "tq_nbyt q = 2 ^ 16 - unat (tq_tmbc q)"
    by (simp add: assms tm_request_def tm_decode_def neg_count)
  have "of_nat (unat (tq_tmbc q) + tq_nbyt q) = (0 :: u16)"
    unfolding n using unsigned_less [of "tq_tmbc q", where 'a = nat] by (simp add: of_nat_diff)
  then show "tq_tmbc q + of_nat (tq_nbyt q) = 0"
    by simp
  show "tq_unum q = tm_unum (tq_tmcr q)"
    by (simp add: assms tm_request_def tm_decode_def)
qed

lemma odd_count:
  assumes "q = tm_request p c d" and "tq_tmbc q \<noteq> 0"
  shows "tq_tmbc q AND 1 \<noteq> 0 \<longleftrightarrow> odd (tq_nbyt q)" "0 < tq_nbyt q" "tq_nbyt q \<le> 65535"
proof -
  have l: "unat (tq_tmbc q) < 2 ^ 16" "0 < unat (tq_tmbc q)"
    using unsigned_less [of "tq_tmbc q", where 'a = nat] assms(2) by (simp_all add: unat_gt_0)
  have "tq_tmbc q AND 1 \<noteq> 0 \<longleftrightarrow> odd (unat (tq_tmbc q))"
    unfolding odd_unat by (simp add: and_one_eq odd_iff_mod_2_eq_one)
  then show "tq_tmbc q AND 1 \<noteq> 0 \<longleftrightarrow> odd (tq_nbyt q)"
    using l by (simp add: tm_nbyt(1) [OF assms(1)])
  show "0 < tq_nbyt q" "tq_nbyt q \<le> 65535"
    using l by (simp_all add: tm_nbyt(1) [OF assms(1)])
qed

lemma tm_unit_put: "tm_unit j (tm_put i u c) = (if j = i \<and> i < length (tm_fspUnit c) then u else tm_unit j c)"
  by (auto simp: tm_unit_def tm_put_def list_update_beyond not_less)

text \<open>What both exits end with.\<close>

lemma tm_exit_tail:
  assumes "tm_inv p c" and "ut_fupVirt u \<noteq> None" and "addr = tq_addr q + of_nat n"
    and "xs = [(cc_fBase c + kTMCR, tm_wunit (tq_unum q)), (cc_fBase c + kTMRL, tm_status u), (cc_fBase c + kTMBC, tq_tmbc q + of_nat n),
      (cc_fBase c + kTMBA, ucast (addr AND 0xfffe)),
      (cc_fBase c + kTMCR, 0 OR kTMCR_M_REAENA OR push_bit kTMCR_V_REA (ucast (drop_bit 16 addr AND 3)) OR push_bit kTMCR_V_FUNC tm_kRFUNC_DONE)]"
  shows "list_all (\<lambda>(a, w). dev_reg p a) xs" "tm_done (cc_fBase c) q n u xs"
proof -
  show "list_all (\<lambda>(a, w). dev_reg p a) xs"
    using assms(1) by (simp add: assms(4) tm_inv_def tm_regs_def)
  show "tm_done (cc_fBase c) q n u xs"
    unfolding tm_done_def assms(3) [symmetric]
    by (intro exI conjI, rule assms(4)) (simp_all only: or.left_neutral tm_cr_fields [OF refl] not_False_eq_True)
qed

lemma tm_post_write:
  assumes f: "tm_fRd_fu c \<noteq> tm_kFUNC_READ" "tm_fRd_tmcr c = tq_tmcr q" "tm_fRd_tmbc c = tq_tmbc q" "tm_fRd_addr c = tq_addr q"
    and q: "q = tm_request p0 c0 d0" "tq_tmbc q \<noteq> 0" and "tm_inv p c" and len: "tq_unum q < length (tm_fspUnit c)"
    and t: "ut_fupVirt (tm_unit (tq_unum q) c) = Some t" "tape_rep pad bs as t" and n: "n = tq_nbyt q" "pad \<Longrightarrow> n < 65535"
    and buf: "rd_buf r = rd_words a ((n + 1) div 2) m @ rest"
  shows "\<exists>c' t' xs. tm_RdmaPostExecCB (cp_link (cp_fBase p) bm b) p kStatusDone ((n + 1) div 2) l nc r (c, d) = Inr (r, (c', d\<lparr>cb_log := cb_log d @ remote p xs\<rparr>)) \<and>
    ut_fupVirt (tm_unit (tq_unum q) c') = Some t' \<and> tape_rep pad (bs @ [TRec (map m [a..<a + n])]) [] t' \<and>
    tm_done (cc_fBase c) q n (tm_unit (tq_unum q) c') xs \<and> (\<forall>j. j \<noteq> tq_unum q \<longrightarrow> tm_unit j c' = tm_unit j c)"
proof -
  note oc = odd_count [OF q]
  note nb = tm_nbyt [OF q(1)]
  let ?nw = "(n + 1) div 2"
  let ?i = "tq_unum q"
  let ?u = "tm_unit ?i c"
  let ?rec = "map m [a..<a + n]"
  have "item_ok pad (TRec ?rec)"
    using oc(2,3) n by (auto simp: item_ok_def)
  from WriteRecord_ok [OF t(2) this] obtain t' where t': "WriteRecord ?rec t = (True, kOpCodeOK, t')" "tape_rep pad (bs @ [TRec ?rec]) [] t'"
    by blast
  define u' where "u' = ?u\<lparr>ut_fupVirt := Some t'\<rparr>"
  have vw: "VirtWriteRecord ?rec kOpCodeOK ?u = (True, kOpCodeOK, u')"
    by (simp add: VirtWriteRecord_def t(1) t'(1) u'_def)
  have nby: "(if tq_tmbc q AND 1 \<noteq> 0 then size_sub (2 * ?nw) 1 else 2 * ?nw) = n"
    using oc(1,2) by (auto simp: n(1) size_sub_def elim: oddE evenE)
  have adr: "tq_addr q + of_nat (2 * ?nw) - (if tq_tmbc q AND 1 \<noteq> 0 then 1 else 0) = tq_addr q + of_nat n"
    "tq_tmbc q + 2 * of_nat ?nw - (if tq_tmbc q AND 1 \<noteq> 0 then 1 else 0) = tq_tmbc q + of_nat n"
    using oc(1) by (cases "odd n"; auto simp: n(1) elim!: oddE)+
  have bf: "take n (bytes16 (rd_buf r)) = ?rec" "\<not> 2 * length (rd_buf r) < n"
    unfolding buf by (subst take_mem) (auto simp: rd_words_def)
  have we: "tm_write_exit ?nw (rd_buf r) c = Inr (tq_addr q + of_nat n, tq_tmbc q + of_nat n, tm_put ?i u' c)"
    unfolding tm_write_exit_def Let_def f nby adr using vw bf by (simp add: nb(3) [symmetric])
  have c1: "tm_fRd_tmcr (tm_put ?i u' c) = tq_tmcr q" "cc_fBase (tm_put ?i u' c) = cc_fBase c" "tm_unit ?i (tm_put ?i u' c) = u'" "ut_fupVirt u' = Some t'"
    using len f(2) by (simp_all add: tm_put_def tm_unit_def u'_def)
  define xs where "xs = [(cc_fBase c + kTMCR, tm_wunit ?i), (cc_fBase c + kTMRL, tm_status u'), (cc_fBase c + kTMBC, tq_tmbc q + of_nat n),
      (cc_fBase c + kTMBA, ucast ((tq_addr q + of_nat n) AND 0xfffe)),
      (cc_fBase c + kTMCR, 0 OR kTMCR_M_REAENA OR push_bit kTMCR_V_REA (ucast (drop_bit 16 (tq_addr q + of_nat n) AND 3)) OR push_bit kTMCR_V_FUNC tm_kRFUNC_DONE)]"
  have ne: "ut_fupVirt u' \<noteq> None"
    by (simp add: c1)
  note tl = tm_exit_tail [OF assms(7) ne refl xs_def]
  let ?c' = "tm_put ?i (u'\<lparr>um_fTmds := tm_status u'\<rparr>) (tm_put ?i u' c)"
  have "tm_AddNormalExit p ?nw 0 (rd_buf r) c clist_new = ebind (add_wibrs p xs clist_new) (\<lambda>l'. Inr (l', ?c'))"
    using f(1) we ne by (simp add: tm_AddNormalExit_def Let_def c1 nb(3) [symmetric] xs_def tm_status_def)
  moreover have "exec_wibrs (cp_link (cp_fBase p) bm b) p xs d = Inr (d\<lparr>cb_log := cb_log d @ remote p xs\<rparr>)"
    by (rule exec_wibrs_ok [OF tl(1)])
  ultimately have "tm_RdmaPostExecCB (cp_link (cp_fBase p) bm b) p kStatusDone ?nw l nc r (c, d) = Inr (r, (?c', d\<lparr>cb_log := cb_log d @ remote p xs\<rparr>))"
    by (auto simp: tm_RdmaPostExecCB_def exec_wibrs_def add_wibrs_ok [OF tl(1)] ebind_eq_Inr)
  moreover have "tm_unit ?i ?c' = u'\<lparr>um_fTmds := tm_status u'\<rparr>"
    using len by (simp add: tm_unit_def tm_put_def)
  moreover have "tm_done (cc_fBase c) q n (u'\<lparr>um_fTmds := tm_status u'\<rparr>) xs"
    using tl(2) by (simp add: tm_done_def tm_status_def tm_ds_def ut_Eot_def)
  moreover have "tm_unit j ?c' = tm_unit j c" if "j \<noteq> ?i" for j
    using that by (simp add: tm_unit_put)
  ultimately show ?thesis
    using t'(2) c1(4) by (intro exI [of _ ?c'] exI [of _ t'] exI [of _ xs]) simp
qed

text \<open>C5: A write of the TM11 puts a record on the tape: the attention handler takes the request from the registers and queues it, the calls of the
  DMA handler end, and the tape has behind its old position one new last record with exactly the bytes of memory that bus address and byte count
  name, of any length from 1 to 65535, odd ones included; memory and the other drives are not changed; the registers are left with byte
  count zero, the bus address behind the transfer and no error; the controller is idle again.\<close>

theorem tm11_write:
  assumes st: "tm_setup fu p bm b r c d" and fu: "fu = tm_kFUNC_WRITE \<or> fu = tm_kFUNC_WEIRG" and q: "q = tm_request p c d" and n: "n = tq_nbyt q"
    and t: "ut_fupVirt (tm_unit (tq_unum q) c) = Some t" "tape_rep pad bs as t" "\<not> tt_fWProt t" and pad: "pad \<Longrightarrow> n < 65535"
  shows "\<exists>args' r1 c1 d1 r2 c2 d2 t' xs. tm_AttnHandler (cp_link (cp_fBase p) bm b) h p args r (c, d) = Inr (args', r1, c1, d1) \<and>
    rdma_chain (tm_RdmaHandler (cp_link (cp_fBase p) bm b) p) r1 (c1, d1) = Some (Inr (r2, c2, d2)) \<and> \<not> rd_IsActive r2 \<and>
    cb_mem d2 = cb_mem d \<and> ut_fupVirt (tm_unit (tq_unum q) c2) = Some t' \<and>
    tape_rep pad (bs @ [TRec (map (cb_mem d) [unat (tq_addr q)..<unat (tq_addr q) + n])]) [] t' \<and>
    cb_log d2 = cb_log d @ remote p xs \<and> tm_done (cc_fBase c) q n (tm_unit (tq_unum q) c2) xs \<and>
    (\<forall>j. j \<noteq> tq_unum q \<longrightarrow> tm_unit j c2 = tm_unit j c)"
proof -
  let ?k = "cp_link (cp_fBase p) bm b"
  let ?nw = "(n + 1) div 2"
  let ?d = "d\<lparr>cb_lam := 0\<rparr>"
  have g: "tq_fu q = fu" "tm_inv p c" "\<not> rd_IsActive r" "chunk_cfg bm b r" "in22 (tq_addr q) ?nw d" "word_mode d" "tq_tmbc q \<noteq> 0"
    "tq_unum q < length (tm_fspUnit c)"
    using st by (simp_all add: tm_setup_def tm_ready_def Let_def q n)
  have rd: "tm_ready fu p bm b r c d"
    using st by (simp add: tm_setup_def Let_def)
  note oc = odd_count [OF q g(7)]
  have ne: "fu \<noteq> tm_kFUNC_UNLOAD" "fu \<noteq> tm_kFUNC_READ"
    using fu by (auto simp: dev_defs)
  from tm_handle_accept [OF rd q t(1), of h args] t(3) obtain args' l where
    1: "tm_AttnHandler ?k h p args r (c, d) = ebind (tm_func ?k h p q r (tm_accept q l c, ?d)) (\<lambda>(xs, r1, c2, w1).
      if xs \<noteq> [] then ebind (exec_wibrs ?k p xs w1) (\<lambda>w2. Inr (args', r1, (c2, w2))) else Inr (args', r1, (c2, w1)))"
    by blast
  define st' where "st' = (if fu = tm_kFUNC_WRITE then tmStatNFuncWrite else tmStatNFuncWrteg)"
  let ?c = "tm_inc st' (tm_accept q l c)"
  let ?r = "tm_alloc ?nw r"
  have al: "\<not> rd_IsActive ?r" "chunk_cfg bm b ?r" "?nw \<le> length (rd_buf ?r)"
    using g(3,4) by (auto simp: tm_alloc_def rd_IsActive_def chunk_cfg_def)
  from Queue_mem_ok(2) [OF al(1,2), of p h "tq_addr q" ?nw kCPAH_M_UBM22 ?c ?d] obtain r1 where
    2: "QueueRMem (link_snd ?k) h (tq_addr q) 0 ?nw kCPAH_M_UBM22 ?r (?c, ?d) = Inr (r1, (?c, ?d))"
      "mem_set False (tq_addr q) ?nw kCPAH_M_UBM22 (rd_buf ?r) r1" "chunk_ok bm r1"
    by (auto simp: dma_link_def)
  have h: "tm_AttnHandler ?k h p args r (c, d) = Inr (args', r1, ?c, ?d)"
    unfolding 1 using fu ne 2(1) by (simp add: tm_func_def Let_def g(1) n [symmetric] st'_def)
  have i: "0 < ?nw" "in22 (tq_addr q) ?nw ?d" "word_mode ?d" "tm_inv p ?c"
    using oc(2) g(2,5,6) by (simp_all add: n in22_lam tm_accept_simps)
  from tm_chain [OF 2(2) disjI1 [OF i(1)] al(3) 2(3) mode_ubm22 i(2-4), of b] obtain l' nc d' r6 where
    3: "rdma_chain (tm_RdmaHandler ?k p) r1 (?c, ?d) =
        Some (ebind (tm_RdmaPostExecCB ?k p kStatusDone ?nw l' nc r6 (?c, d')) (\<lambda>(r7, s5). Inr (r7\<lparr>rd_fStatus := kStatusDone\<rparr>, s5)))"
      "rd_buf r6 = rd_words (unat (tq_addr q)) ?nw (cb_mem d) @ drop ?nw (rd_buf ?r)" "mem_upd (cb_mem d) ?d d'"
    by auto
  have f: "tm_fRd_fu ?c \<noteq> tm_kFUNC_READ" "tm_fRd_tmcr ?c = tq_tmcr q" "tm_fRd_tmbc ?c = tq_tmbc q" "tm_fRd_addr ?c = tq_addr q"
      "ut_fupVirt (tm_unit (tq_unum q) ?c) = Some t" "tq_unum q < length (tm_fspUnit ?c)"
    using ne(2) g(1,8) t(1) by (simp_all add: tm_accept_simps)
  from tm_post_write [OF f(1-4) q g(7) i(4) f(6,5) t(2) n pad 3(2), of bm b l' nc d'] obtain c' t' xs where
    4: "tm_RdmaPostExecCB ?k p kStatusDone ?nw l' nc r6 (?c, d') = Inr (r6, (c', d'\<lparr>cb_log := cb_log d' @ remote p xs\<rparr>))"
      "ut_fupVirt (tm_unit (tq_unum q) c') = Some t'" "tape_rep pad (bs @ [TRec (map (cb_mem d) [unat (tq_addr q)..<unat (tq_addr q) + n])]) [] t'"
      "tm_done (cc_fBase ?c) q n (tm_unit (tq_unum q) c') xs" "\<forall>j. j \<noteq> tq_unum q \<longrightarrow> tm_unit j c' = tm_unit j ?c"
    by blast
  show ?thesis
    using h 3(1,3) 4
    by (intro exI [of _ args'] exI [of _ r1] exI [of _ ?c] exI [of _ ?d] exI [of _ "r6\<lparr>rd_fStatus := kStatusDone\<rparr>"] exI [of _ c']
        exI [of _ "d'\<lparr>cb_log := cb_log d' @ remote p xs\<rparr>"] exI [of _ t'] exI [of _ xs]) (simp add: rd_IsActive_def mem_upd_def tm_accept_simps)
qed

section \<open>Reading a record\<close>

lemma pairs_prefix: "take (length ys div 2) (pairs (ys @ zs)) = pairs ys"
  by (induction ys rule: pairs.induct) auto

lemma pairs_odd_nth:
  assumes "odd (length ys)" and "zs \<noteq> []"
  shows "pairs (ys @ zs) ! (length ys div 2) = mk16 (last ys) (hd zs)"
  using assms by (induction ys rule: pairs.induct; cases zs) auto

text \<open>One byte at an even address, as \<open>tm_trail\<close> writes it.\<close>

lemma byte_cmds:
  assumes "even (unat a)" and "unat a < io22" and "unat a < cb_size d" and "\<not> cb_mmuub d" and "word_mode d"
  shows "\<exists>cs d'. cb_cmds base (wregs [(base + kCPAL, addr_al a), (base + kCPAH, addr_ah a kCPAH_M_UBM22), (base + kCPMEMBE, kCPMEMBE_M_BE0 AND kCPMEMBE_M_BE), (base + kCPMEM, w)]) d = (cs, d') \<and>
    mem_upd ((cb_mem d)(unat a := lo8 w)) d d'"
proof -
  let ?d1 = "d\<lparr>cb_addr := unat (addr_al a) div 2, cb_22bit := False, cb_ubmap := False\<rparr>"
  let ?d2 = "d\<lparr>cb_addr := unat a div 2, cb_22bit := True, cb_ubmap := True\<rparr>"
  let ?d3 = "?d2\<lparr>cb_be0 := True, cb_be1 := False, cb_stick := False\<rparr>"
  have m22: "bit kCPAH_M_UBM22 6" "bit kCPAH_M_UBM22 7"
    by (simp_all add: cpu_defs bit_simps bit_c0)
  have a22: "a AND 0x3ffffe = a"
    using even_mask [OF assms(1)] assms(2) by (simp add: io22_def)
  have s1: "cb_wreg base (base + kCPAL) (addr_al a) d = (True, ?d1)"
    by (rule wreg_al)
  have s2: "cb_wreg base (base + kCPAH) (addr_ah a kCPAH_M_UBM22) ?d1 = (True, ?d2)"
    using lalh_addr [of a kCPAH_M_UBM22] assms(2) ah_flags m22 by (simp add: cb_wreg_def kCPAH_def kCPAL_def io22_def a22)
  have s3: "cb_wreg base (base + kCPMEMBE) (kCPMEMBE_M_BE0 AND kCPMEMBE_M_BE) ?d2 = (True, ?d3)"
    by (simp add: cb_wreg_def cpu_defs)
  have ev: "2 * (unat a div 2) = unat a"
    using assms(1) by simp
  have m: "cb_is_mem ?d3"
    using assms(2-4) by (simp add: cb_is_mem_def cb_ea_def ev)
  have "cb_store w ?d3 = (cb_mem d)(unat a := lo8 w)"
    by (auto simp: cb_store_def cb_ea_def fun_eq_iff ev)
  then have s4: "cb_wreg base (base + kCPMEM) w ?d3 = (True, ?d3\<lparr>cb_mem := (cb_mem d)(unat a := lo8 w), cb_be0 := True, cb_be1 := True\<rparr>)"
    using m by (simp add: cb_wreg_def cpu_defs cb_write_def Let_def)
  show ?thesis
    using assms(5) s1 s2 s3 s4 by (auto simp: wregs_def cb_cmd_wreg mem_upd_def word_mode_def)
qed

lemma tm_post_read:
  assumes f: "tm_fRd_fu c = tm_kFUNC_READ" "tm_fRd_tmcr c = tq_tmcr q" "tm_fRd_tmbc c = tq_tmbc q" "tm_fRd_addr c = tq_addr q"
      "tm_fRd_rddone c = length rec" "tm_fRd_opcode c = kOpCodeOK"
    and un: "tq_unum q = tm_unum (tq_tmcr q)" and "tm_inv p c" and len: "tq_unum q < length (tm_fspUnit c)"
    and t: "ut_fupVirt (tm_unit (tq_unum q) c) = Some t" and base: "odd (length rec) \<Longrightarrow> cp_fBase p = 0"
    and buf: "rd_buf r = pairs (rec @ rest)" "odd (length rec) \<Longrightarrow> rest \<noteq> []"
    and d: "in22 (tq_addr q) ((length rec + 1) div 2) d" "word_mode d" "cb_mem d = wr_words (unat (tq_addr q)) (pairs rec) m"
  shows "\<exists>c' d' u' xs. tm_RdmaPostExecCB (cp_link (cp_fBase p) bm b) p kStatusDone (length rec div 2) l nc r (c, d) = Inr (r, (c', d')) \<and>
    mem_upd (put_bytes (unat (tq_addr q)) rec m) (d\<lparr>cb_log := cb_log d @ remote p xs\<rparr>) d' \<and>
    tm_unit (tq_unum q) c' = u' \<and> ut_fupVirt u' = Some t \<and> tm_done (cc_fBase c) q (length rec) u' xs \<and> (\<forall>j. j \<noteq> tq_unum q \<longrightarrow> tm_unit j c' = tm_unit j c)"
proof -
  let ?n = "length rec" and ?nw = "length rec div 2"
  let ?k = "cp_link (cp_fBase p) bm b"
  let ?i = "tq_unum q"
  let ?u = "tm_unit ?i c"
  let ?a = "tq_addr q + of_nat (2 * ?nw)"
  define xs where "xs = [(cc_fBase c + kTMCR, tm_wunit ?i), (cc_fBase c + kTMRL, tm_status ?u), (cc_fBase c + kTMBC, tq_tmbc q + of_nat ?n),
      (cc_fBase c + kTMBA, ucast ((tq_addr q + of_nat ?n) AND 0xfffe)),
      (cc_fBase c + kTMCR, 0 OR kTMCR_M_REAENA OR push_bit kTMCR_V_REA (ucast (drop_bit 16 (tq_addr q + of_nat ?n) AND 3)) OR push_bit kTMCR_V_FUNC tm_kRFUNC_DONE)]"
  have ne: "ut_fupVirt ?u \<noteq> None"
    by (simp add: t)
  note tl = tm_exit_tail [OF assms(8) ne refl xs_def]
  let ?c' = "tm_put ?i (?u\<lparr>um_fTmds := tm_status ?u\<rparr>) c"
  define ys where "ys = (if odd ?n then [(cp_fBase p + kCPAL, addr_al ?a), (cp_fBase p + kCPAH, addr_ah ?a kCPAH_M_UBM22),
      (cp_fBase p + kCPMEMBE, kCPMEMBE_M_BE0 AND kCPMEMBE_M_BE), (cp_fBase p + kCPMEM, rd_buf r ! ?nw)] else [])"
  have adr: "tq_addr q + of_nat (2 * ?nw) + (if odd ?n then 1 else 0) = tq_addr q + of_nat ?n"
    "tq_tmbc q + 2 * of_nat ?nw + (if odd ?n then 1 else 0) = tq_tmbc q + of_nat ?n"
    by (cases "odd ?n"; auto elim!: oddE evenE)+
  have il: "?nw < length (rd_buf r)" if "odd ?n"
    using that buf(2) [OF that] by (auto simp: buf(1) length_pairs elim!: oddE) (cases rest; simp)
  have re: "tm_read_exit p ?nw 0 (rd_buf r) c clist_new = Inr (clist_new\<lparr>cl_fList := wregs ys\<rparr>, tq_addr q + of_nat ?n, tq_tmbc q + of_nat ?n, 0)"
  proof (cases "odd ?n")
    case True
    then show ?thesis
      using il [OF True] base [OF True] unfolding tm_read_exit_def Let_def f adr
      by (simp add: tm_trail_def f AddLalh_def AddMembe_def cl_AddWreg_eq clist_new_def ys_def wregs_def)
  next
    case False
    then show ?thesis
      unfolding tm_read_exit_def Let_def f adr by (simp add: clist_new_def ys_def wregs_def)
  qed
  obtain cs d1 where c1: "cb_cmds (cp_fBase p) (wregs ys) d = (cs, d1)" "mem_upd (put_bytes (unat (tq_addr q)) rec m) d d1"
  proof (cases "odd ?n")
    case True
    have ua: "unat ?a = unat (tq_addr q) + 2 * ?nw"
      using d(1) by (auto simp: in22_def io22_def unat_word_ariths unat_of_nat take_bit_nat_eq_self)
    have "even (unat ?a)" "unat ?a < io22" "unat ?a < cb_size d" "\<not> cb_mmuub d"
      unfolding ua using d(1) True by (auto simp: in22_def elim!: oddE)
    from byte_cmds [OF this d(2), of "cp_fBase p" "rd_buf r ! ?nw"] obtain cs d1 where
      e: "cb_cmds (cp_fBase p) (wregs ys) d = (cs, d1)" "mem_upd ((cb_mem d)(unat ?a := lo8 (rd_buf r ! ?nw))) d d1"
      using True by (auto simp: ys_def)
    have "lo8 (rd_buf r ! ?nw) = last rec"
      using pairs_odd_nth [OF True buf(2) [OF True]] by (simp add: buf(1))
    moreover have "unat ?a = unat (tq_addr q) + ?n - 1"
      unfolding ua using True by (auto elim!: oddE)
    ultimately have "(cb_mem d)(unat ?a := lo8 (rd_buf r ! ?nw)) = put_bytes (unat (tq_addr q)) rec m"
      using put_pairs_odd [of rec "unat (tq_addr q)" m] True by (simp add: d(3))
    then show ?thesis
      using that e by simp
  next
    case False
    then show ?thesis
      using that [of "[]" d] put_pairs_even [of rec "unat (tq_addr q)" m] d(2,3) by (simp add: ys_def wregs_def mem_upd_def)
  qed
  have "tm_AddNormalExit p ?nw 0 (rd_buf r) c clist_new = Inr (clist_new\<lparr>cl_fList := wregs ys @ wregs (remote p xs)\<rparr>, ?c')"
    using f(1) re ne add_wibrs_ok [OF tl(1), of "clist_new\<lparr>cl_fList := wregs ys\<rparr>"]
    by (simp add: tm_AddNormalExit_def Let_def f(2) un [symmetric] xs_def tm_status_def)
  moreover have "list_all (\<lambda>c. Command c \<noteq> kCmdLabo) (wregs ys)"
    by (auto simp: wregs_def list_all_iff)
  moreover obtain ds where "cb_cmds (cp_fBase p) (wregs (remote p xs)) d1 = (ds, d1\<lparr>cb_log := cb_log d1 @ remote p xs\<rparr>)"
    using cb_cmds_wregs [of "cp_fBase p" "remote p xs" d1] remote_ext [OF tl(1)] by (auto simp: ext_ok_def ext_log_def)
  ultimately have "tm_RdmaPostExecCB ?k p kStatusDone ?nw l nc r (c, d) = Inr (r, (?c', d1\<lparr>cb_log := cb_log d1 @ remote p xs\<rparr>))"
    using cb_cmds_app [OF c1(1)] by (simp add: tm_RdmaPostExecCB_def srv_Exec_def throw_fail_def cp_link_def cb_exec_def)
  moreover have "tm_unit ?i ?c' = ?u\<lparr>um_fTmds := tm_status ?u\<rparr>"
    using len by (simp add: tm_unit_def tm_put_def)
  moreover have "tm_done (cc_fBase c) q ?n (?u\<lparr>um_fTmds := tm_status ?u\<rparr>) xs"
    using tl(2) by (simp add: tm_done_def tm_status_def tm_ds_def ut_Eot_def)
  moreover have "tm_unit j ?c' = tm_unit j c" if "j \<noteq> ?i" for j
    using that by (simp add: tm_unit_put)
  moreover have "mem_upd (put_bytes (unat (tq_addr q)) rec m) (d\<lparr>cb_log := cb_log d @ remote p xs\<rparr>) (d1\<lparr>cb_log := cb_log d1 @ remote p xs\<rparr>)"
    using c1(2) by (simp add: mem_upd_def word_mode_def)
  ultimately show ?thesis
    using t by (intro exI [of _ ?c'] exI [of _ "d1\<lparr>cb_log := cb_log d1 @ remote p xs\<rparr>"] exI [of _ "?u\<lparr>um_fTmds := tm_status ?u\<rparr>"] exI [of _ xs]) simp
qed

text \<open>What a read of the TM11 does before the transfer.\<close>

lemma tm_read_queued:
  assumes st: "tm_ready tm_kFUNC_READ p bm b r c d" and q: "q = tm_request p c d"
    and t: "ut_fupVirt (tm_unit (tq_unum q) c) = Some t" "tape_rep pad bs (TRec rec # as) t" and n: "length rec \<le> tq_nbyt q" and pad: "pad \<longrightarrow> even (length rec)"
  shows "\<exists>args' r1 c1 t' rest. tm_AttnHandler (cp_link (cp_fBase p) bm b) h p args r (c, d) = Inr (args', r1, c1, d\<lparr>cb_lam := 0\<rparr>) \<and>
    tape_rep pad (bs @ [TRec rec]) as t' \<and> ut_fupVirt (tm_unit (tq_unum q) c1) = Some t' \<and>
    mem_set True (tq_addr q) (length rec div 2) kCPAH_M_UBM22 (pairs (rec @ rest)) r1 \<and> chunk_ok bm r1 \<and> (odd (length rec) \<longrightarrow> rest \<noteq> []) \<and>
    tm_fRd_fu c1 = tm_kFUNC_READ \<and> tm_fRd_tmcr c1 = tq_tmcr q \<and> tm_fRd_tmbc c1 = tq_tmbc q \<and> tm_fRd_addr c1 = tq_addr q \<and>
    tm_fRd_rddone c1 = length rec \<and> tm_fRd_opcode c1 = kOpCodeOK \<and> tm_inv p c1 \<and> length (tm_fspUnit c1) = length (tm_fspUnit c) \<and> cc_fBase c1 = cc_fBase c \<and>
    (\<forall>j. j \<noteq> tq_unum q \<longrightarrow> tm_unit j c1 = tm_unit j c)"
proof -
  let ?k = "cp_link (cp_fBase p) bm b"
  let ?d = "d\<lparr>cb_lam := 0\<rparr>"
  let ?i = "tq_unum q"
  have g: "tq_fu q = tm_kFUNC_READ" "tm_inv p c" "\<not> rd_IsActive r" "chunk_cfg bm b r" "tq_unum q < length (tm_fspUnit c)"
    using st by (simp_all add: tm_ready_def Let_def q)
  have wc: "\<not> tm_wcmd tm_kFUNC_READ" "tm_kFUNC_READ \<noteq> tm_kFUNC_UNLOAD"
    by (simp_all add: tm_wcmd_def dev_defs)
  from tm_handle_accept [OF st q t(1), of h args] wc(1) obtain args' l where
    1: "tm_AttnHandler ?k h p args r (c, d) = ebind (tm_func ?k h p q r (tm_accept q l c, ?d)) (\<lambda>(xs, r1, c2, w1).
      if xs \<noteq> [] then ebind (exec_wibrs ?k p xs w1) (\<lambda>w2. Inr (args', r1, (c2, w2))) else Inr (args', r1, (c2, w1)))"
    by blast
  let ?r = "tm_alloc ((tq_nbyt q + 1) div 2) r"
  let ?buf = "bytes16 (rd_buf ?r)"
  let ?rest = "drop (length rec) ?buf"
  have lb: "(tq_nbyt q + 1) div 2 \<le> length (rd_buf ?r)"
    by (simp add: tm_alloc_def)
  from ReadRecord_rec [OF t(2) n pad, of ?buf] obtain t' where
    2: "ReadRecord (tq_nbyt q) ?buf t = (True, rec @ ?rest, length rec, kOpCodeOK, t')" "tape_rep pad (bs @ [TRec rec]) as t'"
    by blast
  let ?u = "(tm_unit ?i c)\<lparr>ut_fupVirt := Some t'\<rparr>"
  let ?c = "(tm_put ?i ?u (tm_inc tmStatNFuncRead (tm_accept q l c)))\<lparr>tm_fRd_rddone := length rec, tm_fRd_opcode := kOpCodeOK\<rparr>"
  let ?r2 = "?r\<lparr>rd_buf := pairs (rec @ ?rest)\<rparr>"
  have r2: "\<not> rd_IsActive ?r2" "chunk_cfg bm b ?r2"
    using g(3,4) by (auto simp: tm_alloc_def rd_IsActive_def chunk_cfg_def)
  from Queue_mem_ok(1) [OF r2, of p h "tq_addr q" "length rec div 2" kCPAH_M_UBM22 ?c ?d] obtain r1 where
    3: "QueueWMem (link_snd ?k) h (tq_addr q) 0 (length rec div 2) kCPAH_M_UBM22 ?r2 (?c, ?d) = Inr (r1, (?c, ?d))"
      "mem_set True (tq_addr q) (length rec div 2) kCPAH_M_UBM22 (pairs (rec @ ?rest)) r1" "chunk_ok bm r1"
    by (auto simp: dma_link_def)
  have rn: "length rec \<noteq> 0"
    using t(2) by (auto simp: tape_rep_def item_ok_def)
  have "tm_AttnHandler ?k h p args r (c, d) = Inr (args', r1, ?c, ?d)"
    unfolding 1 using 2(1) 3(1) wc(2) rn by (simp add: tm_func_def Let_def g(1) tm_read_def tm_accept_simps VirtReadRecord_def t(1))
  moreover have "?rest \<noteq> []" if "odd (length rec)"
  proof -
    have "tq_nbyt q \<le> length ?buf"
      using lb by simp
    then show ?thesis
      using that n by (auto simp: not_le elim!: oddE) presburger
  qed
  moreover have "tm_unit ?i ?c = ?u" "\<forall>j. j \<noteq> ?i \<longrightarrow> tm_unit j ?c = tm_unit j c"
    using g(5) by (simp_all add: tm_unit_def tm_put_def tm_inc_def tm_accept_def)
  moreover have "tm_inv p ?c" "cc_fBase ?c = cc_fBase c" "length (tm_fspUnit ?c) = length (tm_fspUnit c)" "tm_fRd_fu ?c = tm_kFUNC_READ"
    "tm_fRd_tmcr ?c = tq_tmcr q" "tm_fRd_tmbc ?c = tq_tmbc q" "tm_fRd_addr ?c = tq_addr q"
    using g(1,2) by (simp_all add: tm_inv_def tm_put_def tm_inc_def tm_accept_def)
  ultimately show ?thesis
    using 2(2) 3(2,3)
    by (intro exI [of _ args'] exI [of _ r1] exI [of _ ?c] exI [of _ t'] exI [of _ ?rest]) simp
qed

text \<open>C6: A read of the TM11 brings the next record of the tape to memory: the bytes at the bus address are those of the record, a last odd byte
  included, and no other byte of memory changes; the tape stands behind the record; byte count and bus address are moved by its length,
  without an error; the other drives are not changed. The byte count may be anything, and 0 asks for 64 kByte, as the boot loader does; there has to be memory for
  the record only. Three things are assumed of the record: it is not longer than the byte count asks for; on a
  tape with padding its length is even; and if its length is odd it is read by the first CPU, whose control port has the base address 0, because the
  code writes the last byte without the base.\<close>

theorem tm11_read:
  assumes st: "tm_ready tm_kFUNC_READ p bm b r c d" and q: "q = tm_request p c d"
    and t: "ut_fupVirt (tm_unit (tq_unum q) c) = Some t" "tape_rep pad bs (TRec rec # as) t" and n: "length rec \<le> tq_nbyt q"
    and mem: "in22 (tq_addr q) ((length rec + 1) div 2) d" and pad: "pad \<longrightarrow> even (length rec)" and base: "odd (length rec) \<longrightarrow> cp_fBase p = 0"
  shows "\<exists>args' r1 c1 d1 r2 c2 d2 t' xs. tm_AttnHandler (cp_link (cp_fBase p) bm b) h p args r (c, d) = Inr (args', r1, c1, d1) \<and>
    rdma_chain (tm_RdmaHandler (cp_link (cp_fBase p) bm b) p) r1 (c1, d1) = Some (Inr (r2, c2, d2)) \<and> \<not> rd_IsActive r2 \<and>
    cb_mem d2 = put_bytes (unat (tq_addr q)) rec (cb_mem d) \<and> ut_fupVirt (tm_unit (tq_unum q) c2) = Some t' \<and>
    tape_rep pad (bs @ [TRec rec]) as t' \<and>
    cb_log d2 = cb_log d @ remote p xs \<and> tm_done (cc_fBase c) q (length rec) (tm_unit (tq_unum q) c2) xs \<and>
    (\<forall>j. j \<noteq> tq_unum q \<longrightarrow> tm_unit j c2 = tm_unit j c)"
proof -
  let ?k = "cp_link (cp_fBase p) bm b"
  let ?n = "length rec" and ?nw = "length rec div 2"
  let ?d = "d\<lparr>cb_lam := 0\<rparr>"
  have g: "word_mode d" "tq_unum q < length (tm_fspUnit c)"
    using st by (simp_all add: tm_ready_def Let_def q)
  from tm_read_queued [OF st q t n pad, of h args] obtain args' r1 c1 t' rest where
    1: "tm_AttnHandler ?k h p args r (c, d) = Inr (args', r1, c1, ?d)" "tape_rep pad (bs @ [TRec rec]) as t'" "ut_fupVirt (tm_unit (tq_unum q) c1) = Some t'"
      "mem_set True (tq_addr q) ?nw kCPAH_M_UBM22 (pairs (rec @ rest)) r1" "chunk_ok bm r1" "odd ?n \<longrightarrow> rest \<noteq> []"
      "tm_fRd_fu c1 = tm_kFUNC_READ" "tm_fRd_tmcr c1 = tq_tmcr q" "tm_fRd_tmbc c1 = tq_tmbc q" "tm_fRd_addr c1 = tq_addr q"
      "tm_fRd_rddone c1 = ?n" "tm_fRd_opcode c1 = kOpCodeOK" "tm_inv p c1" "length (tm_fspUnit c1) = length (tm_fspUnit c)" "cc_fBase c1 = cc_fBase c"
      "\<forall>j. j \<noteq> tq_unum q \<longrightarrow> tm_unit j c1 = tm_unit j c"
    by blast
  have mono: "?nw \<le> (?n + 1) div 2"
    by simp
  have i: "?nw \<le> length (pairs (rec @ rest))" "in22 (tq_addr q) ?nw ?d" "word_mode ?d" "in22 (tq_addr q) ((?n + 1) div 2) ?d"
    using g(1) mem mono by (auto simp: length_pairs in22_lam in22_def intro: div_le_mono)
  from tm_chain [OF 1(4) _ i(1) 1(5) mode_ubm22 i(2,3) 1(13), of b] obtain l' nc d' r6 where
    2: "rdma_chain (tm_RdmaHandler ?k p) r1 (c1, ?d) =
        Some (ebind (tm_RdmaPostExecCB ?k p kStatusDone ?nw l' nc r6 (c1, d')) (\<lambda>(r7, s5). Inr (r7\<lparr>rd_fStatus := kStatusDone\<rparr>, s5)))"
      "rd_buf r6 = pairs (rec @ rest)" "mem_upd (wr_words (unat (tq_addr q)) (pairs rec) (cb_mem d)) ?d d'"
    by (auto simp: pairs_prefix)
  have un: "tq_unum q = tm_unum (tq_tmcr q)"
    by (rule tm_nbyt(3) [OF q])
  have e: "in22 (tq_addr q) ((?n + 1) div 2) d'" "word_mode d'" "cb_mem d' = wr_words (unat (tq_addr q)) (pairs rec) (cb_mem d)"
    using i(4) 2(3) by (auto simp: mem_upd_def in22_def)
  have ln: "tq_unum q < length (tm_fspUnit c1)"
    using g(2) 1(14) by simp
  from tm_post_read [OF 1(7-12) un 1(13) ln 1(3) base [rule_format] 2(2) 1(6) [rule_format] e, of bm b l' nc] obtain c' d2 u' xs where
    3: "tm_RdmaPostExecCB ?k p kStatusDone ?nw l' nc r6 (c1, d') = Inr (r6, (c', d2))"
      "mem_upd (put_bytes (unat (tq_addr q)) rec (cb_mem d)) (d'\<lparr>cb_log := cb_log d' @ remote p xs\<rparr>) d2" "tm_unit (tq_unum q) c' = u'" "ut_fupVirt u' = Some t'"
      "tm_done (cc_fBase c1) q ?n u' xs" "\<forall>j. j \<noteq> tq_unum q \<longrightarrow> tm_unit j c' = tm_unit j c1"
    by auto
  show ?thesis
    using 1(1,2,15,16) 2(1,3) 3
    by (intro exI [of _ args'] exI [of _ r1] exI [of _ c1] exI [of _ ?d] exI [of _ "r6\<lparr>rd_fStatus := kStatusDone\<rparr>"] exI [of _ c']
        exI [of _ d2] exI [of _ t'] exI [of _ xs]) (simp add: rd_IsActive_def mem_upd_def)
qed

section \<open>An example\<close>

text \<open>A tape with a record of three bytes in drive 1, and requests for 64 kByte (with byte count 0) and for 5 bytes.\<close>

definition demo_tm_tape :: tape where
  "demo_tm_tape = (demo_tape False)\<lparr>tt_fFd := (tt_fFd (demo_tape False))\<lparr>fl_data := enc False [TRec [1, 2, 3]]\<rparr>, tt_fSize := 11, tt_fTruncPend := True\<rparr>"

definition demo_tm :: tm11 where
  "demo_tm = tm11_new\<lparr>cc_fBase := 0xf550, tm_fspUnit := [utm11_new 0, (utm11_new 1)\<lparr>ut_fupVirt := Some demo_tm_tape\<rparr>, utm11_new 2, utm11_new 3],
     tm_fPrimClist := clist_new\<lparr>cl_fList := cmd_new\<lparr>cmd_fRequest := kCmdAttn, cmd_fFlags := kFlagInit\<rparr> #
       map (\<lambda>off. cmd_new\<lparr>cmd_fRequest := kCmdRreg, cmd_fAddress := IbusRemoteAddr (0xf550 + off) demo_cpu, cmd_fFlags := kFlagInit\<rparr>) [kTMCR, kTMSR, kTMBC, kTMBA]\<rparr>,
     tm_fPC_tmcr := 1, tm_fPC_tmsr := 2, tm_fPC_tmbc := 3, tm_fPC_tmba := 4\<rparr>"

definition demo_tm_port :: "u16 \<Rightarrow> u16 \<Rightarrow> cpport" where
  "demo_tm_port cr bc = (demo_port 0x10000)\<lparr>cb_ext := (\<lambda>a.
     if a = IbusRemoteAddr (0xf550 + kTMCR) demo_cpu then cr else if a = IbusRemoteAddr (0xf550 + kTMBC) demo_cpu then bc
     else if a = IbusRemoteAddr (0xf550 + kTMBA) demo_cpu then 0x1000 else 0)\<rparr>"

lemmas demo_tm_simps = demo_tm_def demo_tm_port_def demo_port_def demo_cpu_def cpu_new_def tm11_new_def cntl.defs cntl_new_def utm11_new_def
  utape.defs utape_new_def cmd_new_def IbusRemoteAddr_def dev_defs

lemma demo_tm_request: "tm_request demo_cpu demo_tm (demo_tm_port cr bc) = tm_decode cr 0 bc 0x1000"
  by (simp add: tm_request_def demo_tm_simps)

lemma demo_tm_decode: "tq_tmcr (tm_decode cr sr bc ba) = cr" "tq_tmbc (tm_decode cr sr bc ba) = bc" "tq_nbyt (tm_decode cr sr 0 ba) = 65536" "tq_nbyt (tm_decode cr sr 0xfffb ba) = 5"
    "tq_addr (tm_decode 0x103 sr bc 0x1000) = 0x1000" "tq_addr (tm_decode 0x105 sr bc 0x1000) = 0x1000" "tq_unum (tm_decode 0x103 sr bc ba) = 1"
    "tq_unum (tm_decode 0x105 sr bc ba) = 1" "tq_fu (tm_decode 0x103 sr bc ba) = tm_kFUNC_READ" "tq_fu (tm_decode 0x105 sr bc ba) = tm_kFUNC_WRITE"
  by (simp_all add: tm_decode_def tm_unum_def dev_defs)

lemma demo_tm_unit: "ut_fupVirt (tm_unit 1 demo_tm) = Some demo_tm_tape" "length (tm_fspUnit demo_tm) = tm_NUnit" "cc_fBase demo_tm = 0xf550"
    "\<not> tt_fWProt demo_tm_tape" "cp_fBase demo_cpu = 0"
  by (simp_all add: tm_unit_def demo_tm_def tm_NUnit_def demo_tm_tape_def demo_tape_def tape_new_def demo_cpu_def cpu_new_def)

lemma demo_tm_prim: "tm_prim demo_cpu demo_tm"
  by (simp add: tm_prim_def prim_ok_def demo_tm_simps Command_def dev_reg_def ibaddr_bad_def ext_reg_def cpu_defs rl_defs)

lemma demo_tm_inv: "tm_inv demo_cpu demo_tm"
  by (simp add: tm_inv_def tm_regs_def demo_tm_simps dev_reg_def ibaddr_bad_def ext_reg_def cpu_defs)

lemma demo_tm_rep: "tape_rep False [] [TRec [1, 2, 3]] demo_tm_tape"
  using demo_tape_rep [of False] by (auto simp: tape_rep_def demo_tm_tape_def synced_def tail_ok_def enc_def enc1_def item_ok_def marks_def recs_def)

lemma demo_tm_setup: "tm_ready tm_kFUNC_READ demo_cpu 1000 100 rdma_new demo_tm (demo_tm_port 0x103 0)"
    "tm_setup tm_kFUNC_WRITE demo_cpu 1000 100 rdma_new demo_tm (demo_tm_port 0x105 0xfffb)"
  unfolding tm_setup_def tm_ready_def Let_def demo_tm_request
  by (simp_all add: demo_tm_decode demo_tm_unit demo_tm_prim demo_tm_inv rd_IsActive_def rdma_new_def chunk_cfg_def in22_def io22_def word_mode_def
      demo_tm_port_def demo_port_def tm_NUnit_def dev_defs)

lemma demo_tm_mem: "cb_mem (demo_tm_port cr bc) = (\<lambda>_. 0)" "cb_log (demo_tm_port cr bc) = []"
  by (simp_all add: demo_tm_port_def demo_port_def)

theorem tm11_write_witness:
  "\<exists>args' r1 c1 d1 r2 c2 d2 t' xs. tm_AttnHandler (cp_link 0 1000 100) 7 demo_cpu (attn_args_new 128 128) rdma_new (demo_tm, demo_tm_port 0x105 0xfffb) = Inr (args', r1, c1, d1) \<and>
    rdma_chain (tm_RdmaHandler (cp_link 0 1000 100) demo_cpu) r1 (c1, d1) = Some (Inr (r2, c2, d2)) \<and> \<not> rd_IsActive r2 \<and>
    cb_mem d2 = (\<lambda>_. 0) \<and> ut_fupVirt (tm_unit 1 c2) = Some t' \<and>
    tape_rep False [TRec (map (\<lambda>_. 0) [0x1000..<0x1005])] [] t' \<and>
    cb_log d2 = remote demo_cpu xs \<and> tm_done 0xf550 (tm_decode 0x105 0 0xfffb 0x1000) 5 (tm_unit 1 c2) xs \<and>
    (\<forall>j. j \<noteq> 1 \<longrightarrow> tm_unit j c2 = tm_unit j demo_tm)"
  using tm11_write [OF demo_tm_setup(2) disjI1 [OF refl] refl refl, of demo_tm_tape False "[]" "[TRec [1, 2, 3]]" 7 "attn_args_new 128 128"] demo_tm_rep
  unfolding demo_tm_request demo_tm_decode demo_tm_mem by (simp add: demo_tm_unit del: One_nat_def)

lemma demo_tm_in22: "in22 0x1000 ((length [1, 2, 3 :: u8] + 1) div 2) (demo_tm_port cr bc) = True"
  by (simp add: in22_def io22_def demo_tm_port_def demo_port_def)

theorem tm11_read_witness:
  "\<exists>args' r1 c1 d1 r2 c2 d2 t' xs. tm_AttnHandler (cp_link 0 1000 100) 7 demo_cpu (attn_args_new 128 128) rdma_new (demo_tm, demo_tm_port 0x103 0) = Inr (args', r1, c1, d1) \<and>
    rdma_chain (tm_RdmaHandler (cp_link 0 1000 100) demo_cpu) r1 (c1, d1) = Some (Inr (r2, c2, d2)) \<and> \<not> rd_IsActive r2 \<and>
    cb_mem d2 = put_bytes 0x1000 [1, 2, 3] (\<lambda>_. 0) \<and> ut_fupVirt (tm_unit 1 c2) = Some t' \<and> tape_rep False [TRec [1, 2, 3]] [] t' \<and>
    cb_log d2 = remote demo_cpu xs \<and> tm_done 0xf550 (tm_decode 0x103 0 0 0x1000) (length [1, 2, 3 :: u8]) (tm_unit 1 c2) xs \<and>
    (\<forall>j. j \<noteq> 1 \<longrightarrow> tm_unit j c2 = tm_unit j demo_tm)"
  using tm11_read [OF demo_tm_setup(1) refl, of demo_tm_tape False "[]" "[1, 2, 3]" "[]" 7 "attn_args_new 128 128"] demo_tm_rep
  unfolding demo_tm_request demo_tm_decode demo_tm_mem demo_tm_in22 by (simp add: demo_tm_unit del: One_nat_def)

end
