(* ===== verification/Rw11VirtStream.thy ===== *)
theory Rw11VirtStream
  imports RfileFd Rtools
begin

text \<open>
  Classes \<open>Rw11VirtStream\<close> and \<open>Rw11UnitStream\<close> of \<open>librw11\<close>: an input or output stream on a file, for printer and paper tape.
  The file is used through \<open>stdio\<close>: \<open>cfile\<close> is an open \<open>FILE\<close> with its contents (what is still in the output buffer included), its position
  and its error and end of file indicators; a script can make each call fail or transfer only a part of the data, which sets the error
  indicator. Message texts are left out.
\<close>

section \<open>Files of stdio\<close>

record cfile =
  cf_data :: "u8 list"
  cf_off :: nat
  cf_append :: bool
  cf_err :: bool
  cf_eof :: bool
  cf_script :: "sysres list"

definition cf_next :: "cfile \<Rightarrow> sysres \<times> cfile" where
  "cf_next f = (case cf_script f of [] \<Rightarrow> (SysOk, f) | r # rs \<Rightarrow> (r, f\<lparr>cf_script := rs\<rparr>))"

text \<open>\<open>fopen\<close>: mode \<open>r\<close> needs a file, mode \<open>w\<close> empties it, mode \<open>a\<close> writes at its end. What happens to the file later is in the
  contents of the \<open>cfile\<close>.\<close>

datatype fmode = FRead | FWrite | FAppend

definition fopen :: "string \<Rightarrow> fmode \<Rightarrow> sysres list \<Rightarrow> fsys \<Rightarrow> cfile option \<times> fsys" where
  "fopen path m script fs =
     (let (fail, fs1) = fs_next fs;
          old = (case fs_files fs1 path of None \<Rightarrow> [] | Some (reg, bs) \<Rightarrow> bs);
          data = (if m = FWrite then [] else old)
      in if fail \<or> m = FRead \<and> fs_files fs1 path = None then (None, fs1)
         else (Some \<lparr>cf_data = data, cf_off = 0, cf_append = (m = FAppend), cf_err = False, cf_eof = False, cf_script = script\<rparr>, fs1))"

definition fread :: "nat \<Rightarrow> cfile \<Rightarrow> u8 list \<times> cfile" where
  "fread count f =
     (let (r, f1) = cf_next f;
          n = (case r of SysOk \<Rightarrow> count | SysErr \<Rightarrow> 0 | SysShort k \<Rightarrow> min k count);
          ds = take n (drop (cf_off f1) (cf_data f1))
      in (ds, f1\<lparr>cf_off := cf_off f1 + length ds, cf_err := cf_err f1 \<or> r \<noteq> SysOk, cf_eof := cf_eof f1 \<or> length ds < n\<rparr>))"

definition fwrite :: "u8 list \<Rightarrow> cfile \<Rightarrow> nat \<times> cfile" where
  "fwrite buf f =
     (let (r, f1) = cf_next f;
          ds = (case r of SysOk \<Rightarrow> buf | SysErr \<Rightarrow> [] | SysShort k \<Rightarrow> take k buf);
          off = (if cf_append f1 then length (cf_data f1) else cf_off f1)
      in (length ds, f1\<lparr>cf_data := put_at off ds (cf_data f1), cf_off := off + length ds, cf_err := cf_err f1 \<or> r \<noteq> SysOk\<rparr>))"

definition fflush :: "cfile \<Rightarrow> bool \<times> cfile" where
  "fflush f = (let (r, f1) = cf_next f in (r = SysOk, f1\<lparr>cf_err := cf_err f1 \<or> r \<noteq> SysOk\<rparr>))"

definition ftell :: "cfile \<Rightarrow> nat option \<times> cfile" where
  "ftell f = (let (r, f1) = cf_next f in (if r = SysOk then Some (cf_off f1) else None, f1))"

definition fseek :: "int \<Rightarrow> bool \<Rightarrow> cfile \<Rightarrow> bool \<times> cfile" where
  "fseek pos at_end f =
     (let (r, f1) = cf_next f;
          new = (if at_end then int (length (cf_data f1)) + pos else pos)
      in if r \<noteq> SysOk \<or> new < 0 then (False, f1) else (True, f1\<lparr>cf_off := nat new, cf_eof := False\<rparr>))"

section \<open>Virtual streams\<close>

datatype vs_stat = kStatNVSRead | kStatNVSReadByt | kStatNVSWrite | kStatNVSWriteByt | kStatNVSFlush | kStatNVSTell | kStatNVSSeek

record vstream =
  vs_fUrl :: purl
  vs_fWProt :: bool
  vs_fStats :: "vs_stat \<Rightarrow> nat"
  vs_fIStream :: bool
  vs_fOStream :: bool
  vs_fFile :: "cfile option"

definition vstream_new :: vstream where
  "vstream_new = \<lparr>vs_fUrl = purl_new, vs_fWProt = False, vs_fStats = (\<lambda>_. 0), vs_fIStream = False, vs_fOStream = False, vs_fFile = None\<rparr>"

definition vs_inc :: "vs_stat \<Rightarrow> nat \<Rightarrow> vstream \<Rightarrow> vstream" where
  "vs_inc k n v = v\<lparr>vs_fStats := stat_inc k n (vs_fStats v)\<rparr>"

text \<open>The attach options say whether it is an input or an output stream. An output stream may be appended to, or may keep backups of the old
  file.\<close>

definition vs_Open :: "string \<Rightarrow> string \<Rightarrow> sysres list \<Rightarrow> vstream \<Rightarrow> fsys \<Rightarrow> (bool \<times> vstream \<times> fsys) result" where
  "vs_Open attopts url script v fs =
     (let (ok, opts) = url_Set attopts ''|ronly|wonly|'' purl_new
      in if \<not> ok then Inr (False, v, fs)
         else
           let i = url_FindOpt ''ronly'' opts; o' = url_FindOpt ''wonly'' opts;
               v1 = v\<lparr>vs_fIStream := i, vs_fOStream := o'\<rparr>
           in if i = o' then Inl (Rexception ''Rw11VirtStream::Open'' ''Bad state: neither ronly nor wonly seen'')
              else if o' then
                (let (ok1, u) = url_Set url ''|app|bck=|'' (vs_fUrl v1); v2 = v1\<lparr>vs_fUrl := u\<rparr>
                 in if \<not> ok1 then Inr (False, v2, fs)
                    else ebind (CreateBackupFileUrl u fs) (\<lambda>(ok2, fs1).
                      if \<not> ok2 then Inr (False, v2, fs1)
                      else let (f, fs2) = fopen (pu_fPath u) (if url_FindOpt ''app'' u then FAppend else FWrite) script fs1
                           in Inr (f \<noteq> None, v2\<lparr>vs_fFile := f\<rparr>, fs2)))
              else
                (let v2 = v1\<lparr>vs_fWProt := True\<rparr>; (ok1, u) = url_Set url [] (vs_fUrl v2); v3 = v2\<lparr>vs_fUrl := u\<rparr>
                 in if \<not> ok1 then Inr (False, v3, fs)
                    else let (f, fs1) = fopen (pu_fPath u) FRead script fs in Inr (f \<noteq> None, v3\<lparr>vs_fFile := f\<rparr>, fs1)))"

definition vs_New :: "string \<Rightarrow> string \<Rightarrow> sysres list \<Rightarrow> fsys \<Rightarrow> (vstream option \<times> fsys) result" where
  "vs_New attopts url script fs =
     ebind (vs_Open attopts url script vstream_new fs) (\<lambda>(ok, v, fs1). Inr (if ok then Some v else None, fs1))"

definition vs_Read :: "nat \<Rightarrow> vstream \<Rightarrow> (int \<times> u8 list \<times> vstream) result" where
  "vs_Read count v =
     (if \<not> vs_fIStream v then Inl (Rexception ''Rw11VirtStream::Read'' ''Bad state: Read() called but fIStream=false'')
      else case vs_fFile v of
          None \<Rightarrow> Inl (Rexception ''Rw11VirtStream::Read'' ''Bad state: file not open'')
        | Some f \<Rightarrow>
            let (ds, f1) = fread count f; v1 = (vs_inc kStatNVSRead 1 v)\<lparr>vs_fFile := Some f1\<rparr>
            in Inr (if ds = [] \<and> cf_err f1 then (- 1, [], v1) else (int (length ds), ds, vs_inc kStatNVSReadByt (length ds) v1)))"

definition vs_Write :: "u8 list \<Rightarrow> vstream \<Rightarrow> (bool \<times> vstream) result" where
  "vs_Write data v =
     (if \<not> vs_fOStream v then Inl (Rexception ''Rw11VirtStream::Write'' ''Bad state: Write() called but fOStream=false'')
      else case vs_fFile v of
          None \<Rightarrow> Inl (Rexception ''Rw11VirtStream::Write'' ''Bad state: file not open'')
        | Some f \<Rightarrow>
            let (n, f1) = fwrite data f; v1 = (vs_inc kStatNVSWrite 1 v)\<lparr>vs_fFile := Some f1\<rparr>
            in Inr (if n \<noteq> length data then (False, v1) else (True, vs_inc kStatNVSWriteByt (length data) v1)))"

definition vs_Flush :: "vstream \<Rightarrow> (bool \<times> vstream) result" where
  "vs_Flush v =
     (if \<not> vs_fOStream v then Inr (True, v)
      else case vs_fFile v of
          None \<Rightarrow> Inl (Rexception ''Rw11VirtStream::Write'' ''Bad state: file not open'')
        | Some f \<Rightarrow> let (ok, f1) = fflush f in Inr (ok, (vs_inc kStatNVSFlush 1 v)\<lparr>vs_fFile := Some f1\<rparr>))"

text \<open>The position is narrowed from \<open>long\<close> to \<open>int\<close>, so it wraps for a file of 2 GByte or more.\<close>

definition vs_Tell :: "vstream \<Rightarrow> (int \<times> vstream) result" where
  "vs_Tell v =
     (case vs_fFile v of
        None \<Rightarrow> Inl (Rexception ''Rw11VirtStream::Tell'' ''Bad state: file not open'')
      | Some f \<Rightarrow>
          let (p, f1) = ftell f; v1 = (vs_inc kStatNVSTell 1 v)\<lparr>vs_fFile := Some f1\<rparr>
          in Inr (case p of None \<Rightarrow> - 1 | Some n \<Rightarrow> sint (of_nat n :: u32), v1))"

text \<open>A negative position stands for the end of the file.\<close>

definition vs_Seek :: "int \<Rightarrow> vstream \<Rightarrow> (bool \<times> vstream) result" where
  "vs_Seek pos v =
     (case vs_fFile v of
        None \<Rightarrow> Inl (Rexception ''Rw11VirtStream::Seek'' ''Bad state: file not open'')
      | Some f \<Rightarrow>
          let (ok, f1) = (if pos < 0 then fseek 0 True f else fseek pos False f)
          in Inr (ok, (vs_inc kStatNVSSeek 1 v)\<lparr>vs_fFile := Some f1\<rparr>))"

definition vs_Error :: "vstream \<Rightarrow> bool" where
  "vs_Error v = (case vs_fFile v of None \<Rightarrow> True | Some f \<Rightarrow> cf_err f)"

definition vs_Eof :: "vstream \<Rightarrow> bool" where
  "vs_Eof v = (case vs_fFile v of None \<Rightarrow> True | Some f \<Rightarrow> cf_eof f)"

section \<open>Units with a stream\<close>

datatype us_stat = kStatNPreAttDrop | kStatNPreAttMiss

record ustream =
  us_fIndex :: nat
  us_fAttachOpts :: string
  us_fupVirt :: "vstream option"
  us_fStats :: "us_stat \<Rightarrow> nat"

definition ustream_new :: "nat \<Rightarrow> ustream" where
  "ustream_new index = \<lparr>us_fIndex = index, us_fAttachOpts = [], us_fupVirt = None, us_fStats = (\<lambda>_. 0)\<rparr>"

definition us_inc :: "us_stat \<Rightarrow> nat \<Rightarrow> ustream \<Rightarrow> ustream" where
  "us_inc k n u = u\<lparr>us_fStats := stat_inc k n (us_fStats u)\<rparr>"

definition us_SetPos :: "int \<Rightarrow> ustream \<Rightarrow> ustream result" where
  "us_SetPos pos u =
     (case us_fupVirt u of
        None \<Rightarrow> Inl (Rexception ''Rw11UnitStream::SetPos'' ''no stream attached'')
      | Some v \<Rightarrow> ebind (vs_Seek pos v) (\<lambda>(ok, v1).
          if \<not> ok then Inl (Rexception ''Rw11VirtStream::Seek()'' ''fseek() failed: '') else Inr (u\<lparr>us_fupVirt := Some v1\<rparr>)))"

definition us_Pos :: "ustream \<Rightarrow> (int \<times> ustream) result" where
  "us_Pos u =
     (case us_fupVirt u of
        None \<Rightarrow> Inr (- 1, u)
      | Some v \<Rightarrow> ebind (vs_Tell v) (\<lambda>(irc, v1).
          if irc < 0 then Inl (Rexception ''Rw11VirtStream::Tell()'' ''ftell() failed: '') else Inr (irc, u\<lparr>us_fupVirt := Some v1\<rparr>)))"

definition us_VirtRead :: "nat \<Rightarrow> ustream \<Rightarrow> (int \<times> u8 list \<times> ustream) result" where
  "us_VirtRead count u =
     (case us_fupVirt u of
        None \<Rightarrow> Inr (- 1, [], us_inc kStatNPreAttMiss 1 u)
      | Some v \<Rightarrow> ebind (vs_Read count v) (\<lambda>(irc, ds, v1). Inr (irc, ds, u\<lparr>us_fupVirt := Some v1\<rparr>)))"

definition us_VirtWrite :: "u8 list \<Rightarrow> ustream \<Rightarrow> (bool \<times> ustream) result" where
  "us_VirtWrite data u =
     (case us_fupVirt u of
        None \<Rightarrow> Inr (False, us_inc kStatNPreAttDrop (length data) u)
      | Some v \<Rightarrow> ebind (vs_Write data v) (\<lambda>(ok, v1). Inr (ok, u\<lparr>us_fupVirt := Some v1\<rparr>)))"

definition us_VirtFlush :: "ustream \<Rightarrow> (bool \<times> ustream) result" where
  "us_VirtFlush u =
     (case us_fupVirt u of
        None \<Rightarrow> Inr (False, u)
      | Some v \<Rightarrow> ebind (vs_Flush v) (\<lambda>(ok, v1). Inr (ok, u\<lparr>us_fupVirt := Some v1\<rparr>)))"

section \<open>An output stream without failures\<close>

definition out_file :: "cfile \<Rightarrow> bool" where
  "out_file f = (cf_script f = [] \<and> \<not> cf_err f \<and> (cf_append f \<or> cf_off f = length (cf_data f)))"

definition out_unit :: "u8 list \<Rightarrow> ustream \<Rightarrow> bool" where
  "out_unit ds u = (\<exists>v f. us_fupVirt u = Some v \<and> vs_fOStream v \<and> vs_fFile v = Some f \<and> out_file f \<and> cf_data f = ds)"

lemma out_unit_write:
  assumes "out_unit ds u"
  shows "\<exists>u'. us_VirtWrite xs u = Inr (True, u') \<and> out_unit (ds @ xs) u'"
  using assms
  by (auto simp: out_unit_def out_file_def us_VirtWrite_def vs_Write_def fwrite_def cf_next_def vs_inc_def Let_def)

lemma out_unit_flush:
  assumes "out_unit ds u"
  shows "\<exists>u'. us_VirtFlush u = Inr (True, u') \<and> out_unit ds u'"
  using assms by (auto simp: out_unit_def out_file_def us_VirtFlush_def vs_Flush_def fflush_def cf_next_def vs_inc_def)

section \<open>An input stream without failures\<close>

text \<open>\<open>ds\<close> is what is still to be read.\<close>

definition in_unit :: "u8 list \<Rightarrow> ustream \<Rightarrow> bool" where
  "in_unit ds u =
     (\<exists>v f. us_fupVirt u = Some v \<and> vs_fIStream v \<and> vs_fFile v = Some f \<and> cf_script f = [] \<and> \<not> cf_err f \<and> drop (cf_off f) (cf_data f) = ds)"

definition unit_eof :: "ustream \<Rightarrow> bool" where
  "unit_eof u = (case us_fupVirt u of None \<Rightarrow> False | Some v \<Rightarrow> vs_Eof v)"

lemma in_unit_read1:
  assumes "in_unit ds u"
  shows "\<exists>u'. us_VirtRead 1 u = Inr (int (length (take 1 ds)), take 1 ds, u') \<and> in_unit (drop 1 ds) u' \<and> (ds = [] \<longrightarrow> unit_eof u')"
proof -
  obtain v f where v: "us_fupVirt u = Some v" "vs_fIStream v" "vs_fFile v = Some f" "cf_script f = []" "\<not> cf_err f" "drop (cf_off f) (cf_data f) = ds"
    using assms by (auto simp: in_unit_def)
  have d: "drop (cf_off f + length (take 1 ds)) (cf_data f) = drop 1 ds"
    using v(6) by (cases ds) (auto simp: drop_Suc simp flip: tl_drop)
  show ?thesis
    using v d by (auto simp: in_unit_def unit_eof_def vs_Eof_def us_VirtRead_def vs_Read_def fread_def cf_next_def vs_inc_def Let_def)
qed

end
