(* ===== verification/Rw11CntlStream.thy ===== *)
theory Rw11CntlStream
  imports Rw11CntlBase Rw11VirtStream
begin

text \<open>
  What the controllers with streams, LP11 and PC11, share: block reads of a device fifo in a command list, and the attach and detach functions
  of \<open>Rw11UnitStreamBase\<close>.
\<close>

text \<open>A block read that may end early: a negative acknowledge or a timeout of the last access is no error.\<close>

definition cl_upd :: "nat \<Rightarrow> (command \<Rightarrow> command result) \<Rightarrow> clist \<Rightarrow> clist result" where
  "cl_upd i f l = ebind (cl_at i l) (\<lambda>c. ebind (f c) (\<lambda>c'. Inr (l\<lparr>cl_fList := (cl_fList l)[i := c']\<rparr>)))"

definition add_rbuf :: "u16 \<Rightarrow> nat \<Rightarrow> cpu \<Rightarrow> clist \<Rightarrow> (nat \<times> clist) result" where
  "add_rbuf ibaddr siz p l =
     ebind (AddRbibr ibaddr siz p l) (\<lambda>(i, l1).
     ebind (cl_upd i (\<lambda>c. Inr (SetExpectStatus 0 (kStat_M_RbTout OR kStat_M_RbNak) c)) l1) (\<lambda>l2. Inr (i, l2)))"

text \<open>The words of a block read; the number of words comes from the device.\<close>

definition block_words :: "command \<Rightarrow> u16 list result" where
  "block_words c = (if cmd_fBlockDone c > length (BlockPointer c) then Inl (MemFault ''RlinkCommand::fBlock'') else Inr (take (cmd_fBlockDone c) (BlockPointer c)))"

definition stream_AttachDone :: "(nat \<Rightarrow> 's \<Rightarrow> 's result) \<Rightarrow> nat \<Rightarrow> 's \<Rightarrow> 's result" where
  "stream_AttachDone setup ind s = setup ind s"

definition stream_DetachDone :: "(nat \<Rightarrow> 's \<Rightarrow> 's result) \<Rightarrow> nat \<Rightarrow> 's \<Rightarrow> 's result" where
  "stream_DetachDone setup ind s = setup ind s"

end
