(* ===== verification/Rw11FifoRep.thy ===== *)
theory Rw11FifoRep
  imports Rw11CpPort Rw11CntlStream
begin

text \<open>
  The device side of printer and paper tape punch, and the contract of a controller that empties its fifo. \<open>pdev\<close> is the
  fifo of \<open>rtl/ibus/ibdr_lp11_buf.vhd\<close>: the CPU writes characters, the link reads them with the fill level before the read; the first
  character in an empty fifo asks for attention, and reading an empty fifo is not acknowledged. The CPU may write between any two
  accesses of the link. The locale \<open>fifo_client\<close> states what a controller does with a block that it has read; its lemmas show that no character gets
  lost, and that characters in the fifo are never left without an attention or a queued read.
\<close>

section \<open>The fifo\<close>

text \<open>\<open>pd_sent\<close> has all characters that were accepted, \<open>pd_arr\<close> the characters that the CPU writes before the next reads of the link, \<open>pd_acts\<close>
  the queued actions of the server, \<open>pd_log\<close> the register writes.\<close>

record pdev =
  pd_fifo :: "u8 list"
  pd_size :: nat
  pd_mask :: u8
  pd_lam :: bool
  pd_sent :: "u8 list"
  pd_arr :: "u8 list list"
  pd_acts :: "hid list"
  pd_log :: "(u16 \<times> u16) list"

definition pd_push :: "u8 \<Rightarrow> pdev \<Rightarrow> pdev" where
  "pd_push x d =
     (let y = x AND pd_mask d
      in if length (pd_fifo d) < pd_size d
         then d\<lparr>pd_fifo := pd_fifo d @ [y], pd_sent := pd_sent d @ [y], pd_lam := pd_lam d \<or> pd_fifo d = []\<rparr>
         else d)"

definition pd_arrive :: "pdev \<Rightarrow> pdev" where
  "pd_arrive d = (case pd_arr d of [] \<Rightarrow> d | xs # xss \<Rightarrow> fold pd_push xs (d\<lparr>pd_arr := xss\<rparr>))"

definition pd_word :: "nat \<Rightarrow> u8 \<Rightarrow> u16" where
  "pd_word n x = 0x8000 OR push_bit 8 (of_nat n) OR ucast x"

fun pd_read :: "nat \<Rightarrow> pdev \<Rightarrow> u16 list \<times> pdev" where
  "pd_read 0 d = ([], d)"
| "pd_read (Suc n) d =
     (let d1 = pd_arrive d
      in case pd_fifo d1 of
           [] \<Rightarrow> ([], d1)
         | x # xs \<Rightarrow> let (ws, d2) = pd_read n (d1\<lparr>pd_fifo := xs\<rparr>) in (pd_word (length (pd_fifo d1)) x # ws, d2))"

text \<open>The link to it: \<open>a\<close> is the address of the buffer register; other registers read as zero.\<close>

definition pd_cmd :: "u16 \<Rightarrow> command \<Rightarrow> pdev \<Rightarrow> command \<times> pdev" where
  "pd_cmd a c d =
     (if Command c = kCmdRblk \<and> cmd_fAddress c = a then
        (let (ws, d1) = pd_read (BlockSize c) d
         in (SetStatus (cb_stat (length ws = BlockSize c)) (SetBlockDone (of_nat (length ws)) (put_block ws c)), d1))
      else if Command c = kCmdAttn then (SetStatus (cb_stat True) (SetData (if pd_lam d then 1 else 0) c), d\<lparr>pd_lam := False\<rparr>)
      else if Command c = kCmdWreg then (SetStatus (cb_stat True) c, d\<lparr>pd_log := pd_log d @ [(cmd_fAddress c, cmd_fData c)]\<rparr>)
      else if Command c = kCmdWblk then
        (SetStatus (cb_stat True) (SetBlockDone (of_nat (BlockSize c)) c),
         d\<lparr>pd_log := pd_log d @ map (Pair (cmd_fAddress c)) (take (BlockSize c) (BlockPointer c))\<rparr>)
      else (SetStatus (cb_stat True) (SetData 0 c), d))"

fun pd_cmds :: "u16 \<Rightarrow> command list \<Rightarrow> pdev \<Rightarrow> command list \<times> pdev" where
  "pd_cmds a [] d = ([], d)"
| "pd_cmds a (c # cs) d = (let (c1, d1) = pd_cmd a c d; (cs1, d2) = pd_cmds a cs d1 in (c1 # cs1, d2))"

definition pd_exec :: "u16 \<Rightarrow> clist \<Rightarrow> pdev \<Rightarrow> (bool \<times> clist \<times> pdev) result" where
  "pd_exec a l d = (let (cs, d1) = pd_cmds a (cl_fList l) d in Inr (True, l\<lparr>cl_fList := cs\<rparr>, d1))"

definition pd_link :: "u16 \<Rightarrow> pdev link" where
  "pd_link a =
     \<lparr>lk_Exec = pd_exec a, lk_ConnExec = pd_exec a, lk_BlockSizeMax = (\<lambda>_. 1000), lk_BlockSizePrudent = (\<lambda>_. 100),
      lk_AddrMapInsert = (\<lambda>n w d. d), lk_QueueAction = (\<lambda>h d. Inr (d\<lparr>pd_acts := pd_acts d @ [h]\<rparr>)), lk_AddAttnHandler = (\<lambda>h m i d. Inr d)\<rparr>"

text \<open>A device of the size that the seven bits of the fill level can show.\<close>

definition pd_ok :: "u8 \<Rightarrow> pdev \<Rightarrow> bool" where
  "pd_ok m d = (pd_mask d = m \<and> 0 < pd_size d \<and> pd_size d \<le> 127 \<and> length (pd_fifo d) \<le> pd_size d \<and> (\<forall>x \<in> set (pd_fifo d). x AND m = x))"

definition pd_fuse :: "u16 \<Rightarrow> nat" where
  "pd_fuse w = unat (drop_bit 8 w AND 0x7f)"

definition pd_char :: "u16 \<Rightarrow> u8" where
  "pd_char w = ucast (w AND 0xff)"

lemma pd_word_fields:
  assumes "n \<le> 127"
  shows "pd_fuse (pd_word n x) = n" "pd_char (pd_word n x) = x"
proof -
  have "n = take_bit 7 n"
    using assms by (simp add: take_bit_nat_eq_self)
  then have b: "bit n i \<Longrightarrow> i < 7" for i
    by (metis bit_take_bit_iff)
  have m: "bit (0x7f :: int) i \<longleftrightarrow> i < 7" "bit (0xff :: int) i \<longleftrightarrow> i < 8" "bit (0x8000 :: int) i \<longleftrightarrow> i = 15" "bit (0x80 :: int) i \<longleftrightarrow> i = 7" for i
    using bit_mask_iff [of 7 i, where 'a = int] bit_mask_iff [of 8 i, where 'a = int] bit_push_bit_iff [of 15 "1 :: int" i]
      bit_push_bit_iff [of 7 "1 :: int" i]
    by (auto simp: mask_eq_exp_minus_1 bit_1_iff)
  have "drop_bit 8 (pd_word n x) AND 0x7f = (of_nat n :: u16)"
    by (rule bit_word_eqI) (auto simp: pd_word_def bit_simps m dest: b bit_imp_le_length)
  then show "pd_fuse (pd_word n x) = n"
    using assms by (simp add: pd_fuse_def unat_of_nat)
  show "pd_char (pd_word n x) = x"
    by (rule bit_word_eqI) (auto simp: pd_char_def pd_word_def bit_simps m dest: b bit_imp_le_length)
qed

section \<open>Reading a block\<close>

text \<open>What happens to the fifo while the CPU writes and the link reads: \<open>new\<close> is accepted, \<open>out\<close> is read.\<close>

definition pd_moves :: "u8 \<Rightarrow> pdev \<Rightarrow> u8 list \<Rightarrow> pdev \<Rightarrow> bool" where
  "pd_moves m d out d' =
     (pd_ok m d' \<and> (\<exists>new. pd_sent d' = pd_sent d @ new \<and> pd_fifo d @ new = out @ pd_fifo d') \<and> pd_acts d' = pd_acts d \<and>
      (pd_lam d \<longrightarrow> pd_lam d') \<and> ((pd_fifo d \<noteq> [] \<longrightarrow> pd_lam d) \<longrightarrow> pd_fifo d' \<noteq> [] \<longrightarrow> pd_lam d') \<and>
      length (pd_fifo d') + length out + length (concat (pd_arr d')) \<le> length (pd_fifo d) + length (concat (pd_arr d)))"

lemma pd_moves_trans:
  assumes "pd_moves m d xs d1" and "pd_moves m d1 ys d2"
  shows "pd_moves m d (xs @ ys) d2"
proof -
  obtain n1 n2 where "pd_sent d1 = pd_sent d @ n1" "pd_fifo d @ n1 = xs @ pd_fifo d1" "pd_sent d2 = pd_sent d1 @ n2" "pd_fifo d1 @ n2 = ys @ pd_fifo d2"
    using assms unfolding pd_moves_def by blast
  then have "pd_sent d2 = pd_sent d @ n1 @ n2" "pd_fifo d @ n1 @ n2 = (xs @ ys) @ pd_fifo d2"
    by (simp, metis append.assoc)
  then show ?thesis
    using assms unfolding pd_moves_def by fastforce
qed

lemma pd_push_ok:
  assumes "pd_ok m d"
  shows "pd_ok m (pd_push x d)"
  using assms by (auto simp: pd_ok_def pd_push_def Let_def and.assoc)

lemma pd_push_fields:
  "\<exists>new. pd_sent (pd_push x d) = pd_sent d @ new \<and> pd_fifo (pd_push x d) = pd_fifo d @ new \<and> length new \<le> 1"
  "pd_acts (pd_push x d) = pd_acts d" "pd_arr (pd_push x d) = pd_arr d" "pd_lam d \<Longrightarrow> pd_lam (pd_push x d)"
  "(pd_fifo d \<noteq> [] \<longrightarrow> pd_lam d) \<Longrightarrow> pd_fifo (pd_push x d) \<noteq> [] \<Longrightarrow> pd_lam (pd_push x d)"
  "pd_fifo d \<noteq> [] \<Longrightarrow> pd_fifo (pd_push x d) \<noteq> []"
  by (auto simp: pd_push_def Let_def)

lemma pd_pushes:
  assumes "pd_ok m d"
  shows "pd_ok m (fold pd_push xs d) \<and>
    (\<exists>new. pd_sent (fold pd_push xs d) = pd_sent d @ new \<and> pd_fifo (fold pd_push xs d) = pd_fifo d @ new \<and> length new \<le> length xs) \<and>
    pd_acts (fold pd_push xs d) = pd_acts d \<and> pd_arr (fold pd_push xs d) = pd_arr d \<and> (pd_lam d \<longrightarrow> pd_lam (fold pd_push xs d)) \<and>
    ((pd_fifo d \<noteq> [] \<longrightarrow> pd_lam d) \<longrightarrow> pd_fifo (fold pd_push xs d) \<noteq> [] \<longrightarrow> pd_lam (fold pd_push xs d))"
  using assms
proof (induction xs arbitrary: d)
  case (Cons x xs)
  note p = pd_push_fields [where x = x and d = d]
  obtain n1 where n1: "pd_sent (pd_push x d) = pd_sent d @ n1" "pd_fifo (pd_push x d) = pd_fifo d @ n1" "length n1 \<le> 1"
    using p(1) by blast
  note i = Cons.IH [OF pd_push_ok [OF Cons.prems, of x]]
  then obtain n2 where "pd_sent (fold pd_push xs (pd_push x d)) = pd_sent (pd_push x d) @ n2"
    "pd_fifo (fold pd_push xs (pd_push x d)) = pd_fifo (pd_push x d) @ n2" "length n2 \<le> length xs"
    by blast
  then have "\<exists>new. pd_sent (fold pd_push (x # xs) d) = pd_sent d @ new \<and> pd_fifo (fold pd_push (x # xs) d) = pd_fifo d @ new \<and> length new \<le> length (x # xs)"
    using n1 by (intro exI [of _ "n1 @ n2"]) simp
  then show ?case
    using i p(2-5) by auto
qed simp

lemma pd_arrive_moves:
  assumes "pd_ok m d"
  shows "pd_moves m d [] (pd_arrive d)"
proof (cases "pd_arr d")
  case Nil
  then show ?thesis
    using assms by (simp add: pd_arrive_def pd_moves_def)
next
  case (Cons xs xss)
  have "pd_ok m (d\<lparr>pd_arr := xss\<rparr>)"
    using assms by (simp add: pd_ok_def)
  from pd_pushes [OF this, of xs] show ?thesis
    using Cons by (fastforce simp: pd_arrive_def pd_moves_def)
qed

lemma pd_take_moves:
  assumes "pd_ok m d" and "pd_fifo d = x # xs"
  shows "pd_moves m d [x] (d\<lparr>pd_fifo := xs\<rparr>)"
  using assms by (auto simp: pd_ok_def pd_moves_def)

text \<open>The words of a block are the characters in order, with the fill levels; if none of them shows the level 1 there was none in the fifo, or the
  fifo did not get empty; otherwise the next character asked for attention.\<close>

lemma pd_read_moves:
  assumes "pd_ok m d" and "pd_read n d = (ws, d')"
  shows "pd_moves m d (map pd_char ws) d'" "length ws \<le> n" "\<forall>w \<in> set ws. pd_char w AND m = pd_char w \<and> 0 < pd_fuse w \<and> pd_fuse w \<le> 127"
    "pd_fifo d' \<noteq> [] \<Longrightarrow> pd_lam d' \<or> (ws \<noteq> [] \<or> n = 0) \<and> (\<forall>w \<in> set ws. 1 < pd_fuse w)" "pd_fifo d \<noteq> [] \<Longrightarrow> 0 < n \<Longrightarrow> ws \<noteq> []"
proof -
  have "pd_moves m d (map pd_char ws) d' \<and> length ws \<le> n \<and> (\<forall>w \<in> set ws. pd_char w AND m = pd_char w \<and> 0 < pd_fuse w \<and> pd_fuse w \<le> 127) \<and>
    (pd_fifo d' \<noteq> [] \<longrightarrow> pd_lam d' \<or> (ws \<noteq> [] \<or> n = 0) \<and> (\<forall>w \<in> set ws. 1 < pd_fuse w)) \<and> (pd_fifo d \<noteq> [] \<longrightarrow> 0 < n \<longrightarrow> ws \<noteq> [])"
    using assms
  proof (induction n arbitrary: d ws d')
    case 0
    then show ?case
      by (simp add: pd_moves_def)
  next
    case (Suc n)
    let ?d = "pd_arrive d"
    note a = pd_arrive_moves [OF Suc.prems(1)]
    then have ok: "pd_ok m ?d" and ne: "pd_fifo d \<noteq> [] \<Longrightarrow> pd_fifo ?d \<noteq> []"
      by (auto simp: pd_moves_def)
    show ?case
    proof (cases "pd_fifo ?d")
      case Nil
      then show ?thesis
        using Suc.prems(2) a ne by auto
    next
      case (Cons x xs)
      obtain vs d2 where r: "pd_read n (?d\<lparr>pd_fifo := xs\<rparr>) = (vs, d2)"
        by (cases "pd_read n (?d\<lparr>pd_fifo := xs\<rparr>)") auto
      note t = pd_take_moves [OF ok Cons]
      then have ok2: "pd_ok m (?d\<lparr>pd_fifo := xs\<rparr>)"
        by (simp add: pd_moves_def)
      note i = Suc.IH [OF ok2 r]
      have w: "ws = pd_word (Suc (length xs)) x # vs" "d' = d2"
        using Suc.prems(2) r Cons by (auto simp: Let_def)
      have l: "Suc (length xs) \<le> 127" "x AND m = x"
        using ok Cons by (auto simp: pd_ok_def)
      note f = pd_word_fields [OF l(1), of x]
      have mv: "pd_moves m d (map pd_char ws) d'"
        using pd_moves_trans [OF pd_moves_trans [OF a t] conjunct1 [OF i]] by (simp add: w f)
      have "pd_lam d' \<or> (\<forall>v \<in> set ws. 1 < pd_fuse v)" if "pd_fifo d' \<noteq> []"
      proof (cases "xs = []")
        case True
        then show ?thesis
          using i that by (simp add: w pd_moves_def)
      next
        case False
        then show ?thesis
          using i that by (auto simp: w f)
      qed
      then show ?thesis
        using mv i l f by (auto simp: w)
    qed
  qed
  then show "pd_moves m d (map pd_char ws) d'" "length ws \<le> n" "\<forall>w \<in> set ws. pd_char w AND m = pd_char w \<and> 0 < pd_fuse w \<and> pd_fuse w \<le> 127"
    "pd_fifo d' \<noteq> [] \<Longrightarrow> pd_lam d' \<or> (ws \<noteq> [] \<or> n = 0) \<and> (\<forall>w \<in> set ws. 1 < pd_fuse w)" "pd_fifo d \<noteq> [] \<Longrightarrow> 0 < n \<Longrightarrow> ws \<noteq> []"
    by auto
qed

section \<open>The system of device and controller\<close>

text \<open>The handlers run when the device asks for attention or when the server has a queued action; the CPU writes at any time.\<close>

inductive fifo_hdl :: "('c \<times> pdev \<Rightarrow> ('c \<times> pdev) result) \<Rightarrow> ('c \<times> pdev \<Rightarrow> ('c \<times> pdev) result) \<Rightarrow> 'c \<times> pdev \<Rightarrow> 'c \<times> pdev \<Rightarrow> bool" for attn rcv where
  attn: "pd_lam d \<Longrightarrow> attn (c, d) = Inr s \<Longrightarrow> fifo_hdl attn rcv (c, d) s"
| act: "pd_acts d = h # hs \<Longrightarrow> rcv (c, d\<lparr>pd_acts := hs\<rparr>) = Inr s \<Longrightarrow> fifo_hdl attn rcv (c, d) s"

inductive fifo_step :: "('c \<times> pdev \<Rightarrow> ('c \<times> pdev) result) \<Rightarrow> ('c \<times> pdev \<Rightarrow> ('c \<times> pdev) result) \<Rightarrow> 'c \<times> pdev \<Rightarrow> 'c \<times> pdev \<Rightarrow> bool" for attn rcv where
  cpu: "fifo_step attn rcv (c, d) (c, pd_push x d)"
| hdl: "fifo_hdl attn rcv s s' \<Longrightarrow> fifo_step attn rcv s s'"

inductive_cases fifo_hdlE: "fifo_hdl attn rcv (c, d) s"
inductive_cases fifo_stepE: "fifo_step attn rcv s s'"

definition fifo_more :: "u16 list \<Rightarrow> bool" where
  "fifo_more ws = (ws \<noteq> [] \<and> (\<forall>w \<in> set ws. 1 < pd_fuse w))"

definition pd_queue :: "hid \<Rightarrow> bool \<Rightarrow> pdev \<Rightarrow> pdev" where
  "pd_queue h b d = (if b then d\<lparr>pd_acts := pd_acts d @ [h]\<rparr> else d)"

lemma pd_queue_simps [simp]:
  "pd_fifo (pd_queue h b d) = pd_fifo d" "pd_sent (pd_queue h b d) = pd_sent d" "pd_lam (pd_queue h b d) = pd_lam d" "pd_arr (pd_queue h b d) = pd_arr d"
  "pd_ok m (pd_queue h b d) = pd_ok m d" "pd_acts (pd_queue h b d) = pd_acts d @ (if b then [h] else [])"
  by (simp_all add: pd_queue_def pd_ok_def)

text \<open>A controller that empties the fifo: both handlers read a block, output the characters \<open>keep\<close> accepts, and queue one more read if the block does not
  show that the fifo got empty. The attention handler clears the attention first.\<close>

locale fifo_client =
  fixes m :: u8 and h :: hid and inv :: "'c \<Rightarrow> bool" and out :: "u8 list \<Rightarrow> 'c \<Rightarrow> bool" and keep :: "u8 \<Rightarrow> bool" and busy :: "'c \<Rightarrow> bool"
    and attn :: "'c \<times> pdev \<Rightarrow> ('c \<times> pdev) result" and rcv :: "'c \<times> pdev \<Rightarrow> ('c \<times> pdev) result"
  assumes attn_ok: "inv c \<Longrightarrow> pd_ok m d \<Longrightarrow> out ds c \<Longrightarrow>
      \<exists>n ws d1 c'. 0 < n \<and> pd_read n (d\<lparr>pd_lam := False\<rparr>) = (ws, d1) \<and> attn (c, d) = Inr (c', pd_queue h (fifo_more ws \<and> \<not> busy c) d1) \<and>
        inv c' \<and> out (ds @ filter keep (map pd_char ws)) c' \<and> busy c' = (busy c \<or> fifo_more ws)"
    and rcv_ok: "inv c \<Longrightarrow> pd_ok m d \<Longrightarrow> out ds c \<Longrightarrow>
      \<exists>n ws d1 c'. 0 < n \<and> pd_read n d = (ws, d1) \<and> rcv (c, d) = Inr (c', pd_queue h (fifo_more ws) d1) \<and>
        inv c' \<and> out (ds @ filter keep (map pd_char ws)) c' \<and> busy c' = fifo_more ws"
begin

text \<open>What is in the output and what is in the fifo is what was sent, and the fifo is not left alone.\<close>

definition fifo_inv :: "u8 list \<Rightarrow> 'c \<times> pdev \<Rightarrow> bool" where
  "fifo_inv ds s =
     (case s of (c, d) \<Rightarrow> inv c \<and> pd_ok m d \<and> (\<exists>xs. pd_sent d = xs @ pd_fifo d \<and> out (ds @ filter keep xs) c) \<and>
        (pd_fifo d \<noteq> [] \<longrightarrow> pd_lam d \<or> busy c) \<and> pd_acts d = (if busy c then [h] else []))"

definition fifo_work :: "'c \<times> pdev \<Rightarrow> nat" where
  "fifo_work s = length (pd_fifo (snd s)) + length (concat (pd_arr (snd s)))"

lemma read_inv:
  assumes "pd_ok m d" and "pd_read n d = (ws, d1)" and "0 < n" and "pd_sent d = xs @ pd_fifo d"
  shows "pd_ok m d1" "pd_sent d1 = (xs @ map pd_char ws) @ pd_fifo d1" "pd_acts d1 = pd_acts d" "pd_fifo d1 \<noteq> [] \<Longrightarrow> pd_lam d1 \<or> fifo_more ws"
    "pd_fifo d \<noteq> [] \<Longrightarrow> fifo_work (c, d1) < fifo_work (c', d)"
proof -
  note r = pd_read_moves [OF assms(1,2)]
  then show "pd_ok m d1" "pd_acts d1 = pd_acts d"
    by (simp_all add: pd_moves_def)
  obtain new where "pd_sent d1 = pd_sent d @ new" "pd_fifo d @ new = map pd_char ws @ pd_fifo d1"
    using r(1) unfolding pd_moves_def by blast
  then show "pd_sent d1 = (xs @ map pd_char ws) @ pd_fifo d1"
    using assms(4) by simp
  show "pd_fifo d1 \<noteq> [] \<Longrightarrow> pd_lam d1 \<or> fifo_more ws"
    using r(4) assms(3) by (auto simp: fifo_more_def)
  show "fifo_work (c, d1) < fifo_work (c', d)" if "pd_fifo d \<noteq> []"
  proof -
    have "0 < length ws"
      using r(5) [OF that assms(3)] by simp
    moreover have "length (pd_fifo d1) + length ws + length (concat (pd_arr d1)) \<le> length (pd_fifo d) + length (concat (pd_arr d))"
      using r(1) by (simp add: pd_moves_def)
    ultimately show ?thesis
      unfolding fifo_work_def snd_conv by linarith
  qed
qed

lemma attn_step:
  assumes "fifo_inv ds (c, d)" and "pd_lam d"
  shows "\<exists>s. attn (c, d) = Inr s \<and> fifo_inv ds s \<and> (pd_fifo d \<noteq> [] \<longrightarrow> fifo_work s < fifo_work (c, d))"
proof -
  obtain xs where i: "inv c" "pd_ok m d" "pd_sent d = xs @ pd_fifo d" "out (ds @ filter keep xs) c" "pd_acts d = (if busy c then [h] else [])"
    using assms(1) by (auto simp: fifo_inv_def)
  from attn_ok [OF i(1,2,4)] obtain n ws d1 c' where
    a: "0 < n" "pd_read n (d\<lparr>pd_lam := False\<rparr>) = (ws, d1)" "attn (c, d) = Inr (c', pd_queue h (fifo_more ws \<and> \<not> busy c) d1)" "inv c'"
      "out ((ds @ filter keep xs) @ filter keep (map pd_char ws)) c'" "busy c' = (busy c \<or> fifo_more ws)"
    by auto
  have "pd_ok m (d\<lparr>pd_lam := False\<rparr>)" "pd_sent (d\<lparr>pd_lam := False\<rparr>) = xs @ pd_fifo (d\<lparr>pd_lam := False\<rparr>)"
    using i by (simp_all add: pd_ok_def)
  note r = read_inv [OF this(1) a(2,1) this(2)]
  have "fifo_inv ds (c', pd_queue h (fifo_more ws \<and> \<not> busy c) d1)"
    using a(4-6) r(1-4) i(5) by (auto simp: fifo_inv_def intro!: exI [of _ "xs @ map pd_char ws"])
  then show ?thesis
    using a(3) r(5) [of c' c] by (auto simp: fifo_work_def)
qed

lemma act_step:
  assumes "fifo_inv ds (c, d)" and "pd_acts d = h' # hs"
  shows "\<exists>s. rcv (c, d\<lparr>pd_acts := hs\<rparr>) = Inr s \<and> fifo_inv ds s \<and> (pd_fifo d \<noteq> [] \<longrightarrow> fifo_work s < fifo_work (c, d))"
proof -
  obtain xs where i: "inv c" "pd_ok m d" "pd_sent d = xs @ pd_fifo d" "out (ds @ filter keep xs) c" "hs = []"
    using assms by (auto simp: fifo_inv_def split: if_splits)
  let ?d = "d\<lparr>pd_acts := hs\<rparr>"
  have d: "pd_ok m ?d" "pd_sent ?d = xs @ pd_fifo ?d"
    using i by (simp_all add: pd_ok_def)
  from rcv_ok [OF i(1) d(1) i(4)] obtain n ws d1 c' where
    a: "0 < n" "pd_read n ?d = (ws, d1)" "rcv (c, ?d) = Inr (c', pd_queue h (fifo_more ws) d1)" "inv c'"
      "out ((ds @ filter keep xs) @ filter keep (map pd_char ws)) c'" "busy c' = fifo_more ws"
    by auto
  note r = read_inv [OF d(1) a(2,1) d(2)]
  have "fifo_inv ds (c', pd_queue h (fifo_more ws) d1)"
    using a(4-6) r(1-4) i(5) by (auto simp: fifo_inv_def intro!: exI [of _ "xs @ map pd_char ws"])
  then show ?thesis
    using a(3) r(5) [of c' c] by (auto simp: fifo_work_def)
qed

lemma hdl_inv:
  assumes "fifo_hdl attn rcv s s'" and "fifo_inv ds s"
  shows "fifo_inv ds s'"
  using assms by (cases rule: fifo_hdl.cases) (use attn_step act_step in fastforce)+

lemma step_inv:
  assumes "fifo_step attn rcv s s'" and "fifo_inv ds s"
  shows "fifo_inv ds s'"
  using assms(1)
proof cases
  case (cpu c d x)
  obtain new where n: "pd_sent (pd_push x d) = pd_sent d @ new" "pd_fifo (pd_push x d) = pd_fifo d @ new"
    using pd_push_fields(1) [of x d] by blast
  have l: "pd_lam (pd_push x d) \<or> busy c" if "pd_fifo (pd_push x d) \<noteq> []"
    using assms(2) that pd_push_fields(4) [of d x] pd_push_fields(5) [of d x] by (auto simp: fifo_inv_def cpu)
  show ?thesis
    using assms(2) n l pd_push_ok [of m d x] pd_push_fields(2) [of x d] by (auto simp: fifo_inv_def cpu)
next
  case hdl
  then show ?thesis
    using hdl_inv assms(2) by blast
qed

lemma steps_inv:
  assumes "(fifo_step attn rcv)\<^sup>*\<^sup>* s s'" and "fifo_inv ds s"
  shows "fifo_inv ds s'"
  using assms by (induction rule: rtranclp_induct) (auto intro: step_inv)

text \<open>As long as there is something in the fifo a handler can run, and does not fail; so the handlers empty it.\<close>

lemma drains:
  assumes "fifo_inv ds s"
  shows "\<exists>s'. (fifo_hdl attn rcv)\<^sup>*\<^sup>* s s' \<and> pd_fifo (snd s') = [] \<and> fifo_inv ds s'"
  using assms
proof (induction s rule: measure_induct_rule [of fifo_work])
  case (less s)
  obtain c d where s: "s = (c, d)"
    by (cases s)
  show ?case
  proof (cases "pd_fifo d = []")
    case True
    then show ?thesis
      using less.prems s by auto
  next
    case False
    have "\<exists>s1. fifo_hdl attn rcv s s1 \<and> fifo_inv ds s1 \<and> fifo_work s1 < fifo_work s"
    proof (cases "pd_lam d")
      case True
      then show ?thesis
        using attn_step [of ds c d] less.prems False fifo_hdl.attn [of d attn c _ rcv] by (auto simp: s)
    next
      case no: False
      then have "pd_acts d = [h]"
        using less.prems False by (auto simp: fifo_inv_def s)
      then show ?thesis
        using act_step [of ds c d h "[]"] less.prems False fifo_hdl.act [of d h "[]" rcv c _ attn] by (auto simp: s)
    qed
    then show ?thesis
      using less.IH by (meson converse_rtranclp_into_rtranclp)
  qed
qed

end

end
