(* ===== verification/Rw11CntlLP11.thy ===== *)
theory Rw11CntlLP11
  imports Rw11CntlStream
begin

text \<open>
  The line printer, \<open>Rw11CntlLP11\<close> and \<open>Rw11UnitLP11\<close>. The characters that the CPU prints are in a fifo of the device, or in a single buffer
  register of a device without fifo. The device asks for attention when the first character comes to an empty fifo; the
  attention handler reads a block, and if it did not see the last character of the fifo it queues \<open>RcvHandler\<close>, which reads the next block.
  Every word of a block has the fill level of the fifo before the read, so that the level 1 shows that the fifo got empty. Log messages are left out.
\<close>

section \<open>Constants\<close>

definition lp_kCSR :: u16 where [dev_defs]: "lp_kCSR = 0"
definition lp_kBUF :: u16 where [dev_defs]: "lp_kBUF = 2"
definition lp_kProbeOff :: u16 where [dev_defs]: "lp_kProbeOff = 0"
definition lp_kProbeInt :: bool where [dev_defs]: "lp_kProbeInt = True"
definition lp_kProbeRem :: bool where [dev_defs]: "lp_kProbeRem = True"
definition lp_kFifoMaxSize :: u16 where [dev_defs]: "lp_kFifoMaxSize = 0x7f"
definition lp_kCSR_M_ERROR :: u16 where [dev_defs]: "lp_kCSR_M_ERROR = 0x8000"
definition lp_kCSR_V_RLIM :: nat where [dev_defs]: "lp_kCSR_V_RLIM = 12"
definition lp_kCSR_B_RLIM :: u16 where [dev_defs]: "lp_kCSR_B_RLIM = 7"
definition lp_kCSR_V_TYPE :: nat where [dev_defs]: "lp_kCSR_V_TYPE = 8"
definition lp_kCSR_B_TYPE :: u16 where [dev_defs]: "lp_kCSR_B_TYPE = 7"
definition lp_kBUF_M_VAL :: u16 where [dev_defs]: "lp_kBUF_M_VAL = 0x8000"
definition lp_kBUF_V_FUSE :: nat where [dev_defs]: "lp_kBUF_V_FUSE = 8"
definition lp_kBUF_B_FUSE :: u16 where [dev_defs]: "lp_kBUF_B_FUSE = 0x7f"
definition lp_kBUF_M_DATA :: u16 where [dev_defs]: "lp_kBUF_M_DATA = 0x7f"
section \<open>State\<close>

datatype lp_stat = lpStatNAttnHdl | lpStatNQue | lpStatNNull | lpStatNChar | lpStatNLine | lpStatNPage

record lp11 = cntl +
  lp_fspUnit :: ustream
  lp_fPrimClist :: clist
  lp_fPC_buf :: nat
  lp_fRlim :: u16
  lp_fItype :: u16
  lp_fFsize :: u16
  lp_fRblkSize :: u16
  lp_fQueBusy :: bool
  lp_fStats :: "lp_stat \<Rightarrow> nat"

definition ulp11_new :: "nat \<Rightarrow> ustream" where
  "ulp11_new index = (ustream_new index)\<lparr>us_fAttachOpts := ''?wonly''\<rparr>"

definition lp11_new :: lp11 where
  "lp11_new = cntl.extend (cntl_new ''lp11'')
     \<lparr>lp_fspUnit = ulp11_new 0, lp_fPrimClist = clist_new, lp_fPC_buf = 0, lp_fRlim = 0, lp_fItype = 0, lp_fFsize = 0, lp_fRblkSize = 4,
      lp_fQueBusy = False, lp_fStats = (\<lambda>_. 0)\<rparr>"

definition lp_inc :: "lp_stat \<Rightarrow> lp11 \<Rightarrow> lp11" where
  "lp_inc x c = c\<lparr>lp_fStats := stat_inc x 1 (lp_fStats c)\<rparr>"

definition lp_Config :: "string \<Rightarrow> u16 \<Rightarrow> int \<Rightarrow> cntl \<Rightarrow> cntl" where
  "lp_Config name base lam c = ConfigCntl name base lam lp_kProbeOff lp_kProbeInt lp_kProbeRem c"

definition lp_Buffered :: "lp11 \<Rightarrow> bool" where
  "lp_Buffered c = (lp_fFsize c > 0)"

section \<open>Setup\<close>

definition lp_UnitSetup :: "'w link \<Rightarrow> cpu \<Rightarrow> nat \<Rightarrow> lp11 \<times> 'w \<Rightarrow> (lp11 \<times> 'w) result" where
  "lp_UnitSetup k p ind cw =
     (case cw of (c, w) \<Rightarrow>
        let online = (case us_fupVirt (lp_fspUnit c) of None \<Rightarrow> False | Some v \<Rightarrow> \<not> vs_Error v);
            csr = (if online then 0 else lp_kCSR_M_ERROR) OR push_bit lp_kCSR_V_RLIM (lp_fRlim c AND lp_kCSR_B_RLIM)
        in ebind (ExecWibr k (cc_fBase c + lp_kCSR) csr 0 0 0 0 p w) (\<lambda>w'. Inr (c, w')))"

definition lp_unit_ops :: "'w link \<Rightarrow> cpu \<Rightarrow> (vstream, lp11 \<times> 'w) unit_ops" where
  "lp_unit_ops k p =
     \<lparr>uo_Enabled = (\<lambda>_. True), uo_fupVirt = (\<lambda>(c, w). us_fupVirt (lp_fspUnit c)),
      uo_SetVirt = (\<lambda>v (c, w). (c\<lparr>lp_fspUnit := (lp_fspUnit c)\<lparr>us_fupVirt := v\<rparr>\<rparr>, w)),
      uo_AttachDone = stream_AttachDone (lp_UnitSetup k p) 0, uo_DetachCleanup = Inr, uo_DetachDone = stream_DetachDone (lp_UnitSetup k p) 0\<rparr>"

definition lp_SetRlim :: "'w link \<Rightarrow> cpu \<Rightarrow> u16 \<Rightarrow> lp11 \<times> 'w \<Rightarrow> (lp11 \<times> 'w) result" where
  "lp_SetRlim k p rlim cw =
     (case cw of (c, w) \<Rightarrow>
        if rlim > lp_kCSR_B_RLIM then Inl (Rexception ''Rw11CntlLP11::SetRlim'' ''Bad args: rlim too large'')
        else lp_UnitSetup k p 0 (c\<lparr>lp_fRlim := rlim\<rparr>, w))"

definition lp_prim_clist :: "cpu \<Rightarrow> lp11 \<Rightarrow> clist \<Rightarrow> (nat \<times> clist) result" where
  "lp_prim_clist p c l =
     ebind (cl_AddAttn (cl_Clear l)) (\<lambda>(i, l1).
       if lp_Buffered c then add_rbuf (cc_fBase c + lp_kBUF) (unat (lp_fRblkSize c)) p l1 else AddRibr (cc_fBase c + lp_kBUF) p l1)"

definition lp_Start :: "'w link \<Rightarrow> hid \<Rightarrow> cpu \<Rightarrow> lp11 \<Rightarrow> 'w \<Rightarrow> (cpu \<times> lp11 \<times> 'w) result" where
  "lp_Start k h p c w =
     (if start_bad c then Inl (Rexception ''Rw11CntlLP11::Start'' ''Bad state: started, no lam, not enable, not found'')
      else
        let (p1, w1) = fold (\<lambda>(n, off) pw. AllIAddrMapInsert k (cc_fName c @ n) (cc_fBase c + off) pw) [(''.csr'', lp_kCSR), (''.buf'', lp_kBUF)] (p, w);
            itype = drop_bit lp_kCSR_V_TYPE (pb_fDataRem (cc_fProbe c)) AND lp_kCSR_B_TYPE;
            c1 = c\<lparr>lp_fItype := itype, lp_fFsize := push_bit (unat itype) 1 - 1\<rparr>
        in ebind (UnitSetupAll (lp_UnitSetup k p1) [0] (c1, w1)) (\<lambda>(c2, w2).
           ebind (lp_prim_clist p1 c2 (lp_fPrimClist c2)) (\<lambda>(i, l).
           ebind (lk_AddAttnHandler k h (lam_mask c2) h w2) (\<lambda>w3.
             Inr (p1, c2\<lparr>lp_fPrimClist := l, lp_fPC_buf := i, cc_fStarted := True\<rparr>, w3)))))"

section \<open>Printing\<close>

definition lp_WriteChar :: "'w link \<Rightarrow> cpu \<Rightarrow> u8 \<Rightarrow> lp11 \<times> 'w \<Rightarrow> (lp11 \<times> 'w) result" where
  "lp_WriteChar k p ochr cw =
     (case cw of (c, w) \<Rightarrow>
        if ochr = 0 then Inr (lp_inc lpStatNNull c, w)
        else
          let c1 = lp_inc lpStatNChar c
          in ebind (us_VirtWrite [ochr] (lp_fspUnit c1)) (\<lambda>(rc, u).
             ebind (let cw1 = (c1\<lparr>lp_fspUnit := u\<rparr>, w) in if \<not> rc then lp_UnitSetup k p 0 cw1 else Inr cw1) (\<lambda>(c2, w2).
               if ochr = 0x0c then
                 (let c3 = lp_inc lpStatNPage c2 in ebind (us_VirtFlush (lp_fspUnit c3)) (\<lambda>(rc', u'). Inr (c3\<lparr>lp_fspUnit := u'\<rparr>, w2)))
               else if ochr = 0x0a then Inr (lp_inc lpStatNLine c2, w2)
               else Inr (c2, w2))))"

definition lp_ProcessUnbuf :: "'w link \<Rightarrow> cpu \<Rightarrow> u16 \<Rightarrow> lp11 \<times> 'w \<Rightarrow> (lp11 \<times> 'w) result" where
  "lp_ProcessUnbuf k p buf cw = (if buf AND lp_kBUF_M_VAL \<noteq> 0 then lp_WriteChar k p (ucast (buf AND lp_kBUF_M_DATA)) cw else Inr cw)"

definition lp_fuse :: "u16 \<Rightarrow> u16" where
  "lp_fuse w = drop_bit lp_kBUF_V_FUSE w AND lp_kBUF_B_FUSE"

fun lp_buf_loop :: "'w link \<Rightarrow> cpu \<Rightarrow> u16 list \<Rightarrow> u16 \<Rightarrow> u16 \<Rightarrow> lp11 \<times> 'w \<Rightarrow> (u16 \<times> u16 \<times> lp11 \<times> 'w) result" where
  "lp_buf_loop k p [] fumin fumax cw = Inr (fumin, fumax, cw)"
| "lp_buf_loop k p (b # bs) fumin fumax cw =
     ebind (lp_WriteChar k p (ucast (b AND lp_kBUF_M_DATA)) cw) (\<lambda>cw1. lp_buf_loop k p bs (min fumin (lp_fuse b)) (max fumax (lp_fuse b)) cw1)"

definition lp_ProcessBuf :: "'w link \<Rightarrow> hid \<Rightarrow> cpu \<Rightarrow> command \<Rightarrow> bool \<Rightarrow> lp11 \<times> 'w \<Rightarrow> (lp11 \<times> 'w) result" where
  "lp_ProcessBuf k h p cmd prim cw0 =
     ebind (block_words cmd) (\<lambda>pbuf.
     ebind (lp_buf_loop k p pbuf (if pbuf \<noteq> [] then lp_kFifoMaxSize else 0) 0 cw0) (\<lambda>(fumin, fumax, c, w).
       let c1 = c\<lparr>lp_fRblkSize := max 4 (max (of_nat (length pbuf)) fumax)\<rparr>
       in ebind (if fumin > 1 \<and> \<not> lp_fQueBusy c1
                 then ebind (lk_QueueAction k h w) (\<lambda>w'. Inr ((lp_inc lpStatNQue c1)\<lparr>lp_fQueBusy := True\<rparr>, w'))
                 else Inr (c1, w)) (\<lambda>(c2, w2).
            if prim
            then ebind (cl_upd (lp_fPC_buf c2) (SetBlockRead (unat (lp_fRblkSize c2))) (lp_fPrimClist c2)) (\<lambda>l. Inr (c2\<lparr>lp_fPrimClist := l\<rparr>, w2))
            else Inr (c2, w2))))"

definition lp_AttnHandler :: "'w link \<Rightarrow> hid \<Rightarrow> cpu \<Rightarrow> attn_args \<Rightarrow> lp11 \<times> 'w \<Rightarrow> (attn_args \<times> lp11 \<times> 'w) result" where
  "lp_AttnHandler k h p args cw0 =
     (case cw0 of (c0, w0) \<Rightarrow>
        let c1 = lp_inc lpStatNAttnHdl c0
        in ebind (srv_GetAttnInfo k args (lp_fPrimClist c1) w0) (\<lambda>(args', l, w).
           let c = c1\<lparr>lp_fPrimClist := l\<rparr>
           in ebind (cl_at (lp_fPC_buf c) l) (\<lambda>cmd.
              ebind (if lp_Buffered c then lp_ProcessBuf k h p cmd True (c, w) else lp_ProcessUnbuf k p (cmd_fData cmd) (c, w)) (\<lambda>cw.
                Inr (args', cw)))))"

definition lp_RcvHandler :: "'w link \<Rightarrow> hid \<Rightarrow> cpu \<Rightarrow> lp11 \<times> 'w \<Rightarrow> (int \<times> lp11 \<times> 'w) result" where
  "lp_RcvHandler k h p cw =
     (case cw of (c0, w) \<Rightarrow>
        let c = c0\<lparr>lp_fQueBusy := False\<rparr>
        in ebind (add_rbuf (cc_fBase c + lp_kBUF) (unat (lp_fRblkSize c)) p clist_new) (\<lambda>(i, l).
           ebind (srv_Exec k l w) (\<lambda>(l', w').
           ebind (cl_at 0 l') (\<lambda>cmd.
           ebind (lp_ProcessBuf k h p cmd False (c, w')) (\<lambda>cw'. Inr (0, cw'))))))"

end
