(* ===== verification/Rw11CntlPC11.thy ===== *)
theory Rw11CntlPC11
  imports Rw11CntlStream
begin

text \<open>
  The paper tape reader and punch, \<open>Rw11CntlPC11\<close> and \<open>Rw11UnitPC11\<close>. The punch works as the printer of the LP11: the fifo of the device
  is read in blocks until its end was seen. For the reader the server fills a fifo of the device with bytes of
  the file; at the end of the file the reader goes off line only after the device has read the fifo empty (\<open>fPrDrain\<close>). Log messages are left out.
\<close>

section \<open>Constants\<close>

definition pc_kRCSR :: u16 where [dev_defs]: "pc_kRCSR = 0"
definition pc_kRBUF :: u16 where [dev_defs]: "pc_kRBUF = 2"
definition pc_kPCSR :: u16 where [dev_defs]: "pc_kPCSR = 4"
definition pc_kPBUF :: u16 where [dev_defs]: "pc_kPBUF = 6"
definition pc_kUnit_PR :: nat where [dev_defs]: "pc_kUnit_PR = 0"
definition pc_kUnit_PP :: nat where [dev_defs]: "pc_kUnit_PP = 1"
definition pc_kProbeOff :: u16 where [dev_defs]: "pc_kProbeOff = 0"
definition pc_kProbeInt :: bool where [dev_defs]: "pc_kProbeInt = True"
definition pc_kProbeRem :: bool where [dev_defs]: "pc_kProbeRem = True"
definition pc_kFifoMaxSize :: u16 where [dev_defs]: "pc_kFifoMaxSize = 0x7f"
definition pc_kRCSR_M_ERROR :: u16 where [dev_defs]: "pc_kRCSR_M_ERROR = 0x8000"
definition pc_kRCSR_V_RLIM :: nat where [dev_defs]: "pc_kRCSR_V_RLIM = 12"
definition pc_kRCSR_B_RLIM :: u16 where [dev_defs]: "pc_kRCSR_B_RLIM = 7"
definition pc_kRCSR_V_TYPE :: nat where [dev_defs]: "pc_kRCSR_V_TYPE = 8"
definition pc_kRCSR_B_TYPE :: u16 where [dev_defs]: "pc_kRCSR_B_TYPE = 7"
definition pc_kRBUF_M_RBUSY :: u16 where [dev_defs]: "pc_kRBUF_M_RBUSY = 0x8000"
definition pc_kRBUF_V_FUSE :: nat where [dev_defs]: "pc_kRBUF_V_FUSE = 8"
definition pc_kRBUF_B_FUSE :: u16 where [dev_defs]: "pc_kRBUF_B_FUSE = 0x7f"
definition pc_kPCSR_M_ERROR :: u16 where [dev_defs]: "pc_kPCSR_M_ERROR = 0x8000"
definition pc_kPCSR_V_RLIM :: nat where [dev_defs]: "pc_kPCSR_V_RLIM = 12"
definition pc_kPCSR_B_RLIM :: u16 where [dev_defs]: "pc_kPCSR_B_RLIM = 7"
definition pc_kPBUF_M_VAL :: u16 where [dev_defs]: "pc_kPBUF_M_VAL = 0x8000"
definition pc_kPBUF_V_FUSE :: nat where [dev_defs]: "pc_kPBUF_V_FUSE = 8"
definition pc_kPBUF_B_FUSE :: u16 where [dev_defs]: "pc_kPBUF_B_FUSE = 0x7f"
definition pc_kPBUF_M_DATA :: u16 where [dev_defs]: "pc_kPBUF_M_DATA = 0xff"
section \<open>State\<close>

datatype pc_stat = pcStatNAttnHdl | pcStatNPrBlk | pcStatNPpQue

datatype prdrain = kPrDrain_Idle | kPrDrain_Pend | kPrDrain_Done

record pc11 = cntl +
  pc_fspUnit :: "ustream list"
  pc_fPrimClist :: clist
  pc_fPC_pbuf :: nat
  pc_fPC_rbuf :: nat
  pc_fPrQlim :: u16
  pc_fPrRlim :: u16
  pc_fPpRlim :: u16
  pc_fItype :: u16
  pc_fFsize :: u16
  pc_fPpRblkSize :: u16
  pc_fPpQueBusy :: bool
  pc_fPrDrain :: prdrain
  pc_fStats :: "pc_stat \<Rightarrow> nat"

definition upc11_new :: "nat \<Rightarrow> ustream" where
  "upc11_new index = (ustream_new index)\<lparr>us_fAttachOpts := (if index = 0 then ''?ronly'' else ''?wonly'')\<rparr>"

definition pc11_new :: pc11 where
  "pc11_new = cntl.extend (cntl_new ''pc11'')
     \<lparr>pc_fspUnit = map upc11_new [0, 1], pc_fPrimClist = clist_new, pc_fPC_pbuf = 0, pc_fPC_rbuf = 0, pc_fPrQlim = 1, pc_fPrRlim = 0, pc_fPpRlim = 0,
      pc_fItype = 0, pc_fFsize = 0, pc_fPpRblkSize = 4, pc_fPpQueBusy = False, pc_fPrDrain = kPrDrain_Idle, pc_fStats = (\<lambda>_. 0)\<rparr>"

definition pc_inc :: "pc_stat \<Rightarrow> pc11 \<Rightarrow> pc11" where
  "pc_inc x c = c\<lparr>pc_fStats := stat_inc x 1 (pc_fStats c)\<rparr>"

definition pc_unit :: "nat \<Rightarrow> pc11 \<Rightarrow> ustream" where
  "pc_unit i c = pc_fspUnit c ! i"

definition pc_put :: "nat \<Rightarrow> ustream \<Rightarrow> pc11 \<Rightarrow> pc11" where
  "pc_put i u c = c\<lparr>pc_fspUnit := (pc_fspUnit c)[i := u]\<rparr>"

definition pc_Config :: "string \<Rightarrow> u16 \<Rightarrow> int \<Rightarrow> cntl \<Rightarrow> cntl" where
  "pc_Config name base lam c = ConfigCntl name base lam pc_kProbeOff pc_kProbeInt pc_kProbeRem c"

definition pc_Buffered :: "pc11 \<Rightarrow> bool" where
  "pc_Buffered c = (pc_fFsize c > 0)"

section \<open>Setup\<close>

text \<open>The reader stays on line at the end of the file as long as the fifo of the device is not read empty.\<close>

definition pc_online :: "nat \<Rightarrow> pc11 \<Rightarrow> bool" where
  "pc_online ind c =
     (case us_fupVirt (pc_unit ind c) of
        None \<Rightarrow> False
      | Some v \<Rightarrow> if ind = pc_kUnit_PR then \<not> ((vs_Eof v \<or> vs_Error v) \<and> pc_fPrDrain c \<noteq> kPrDrain_Pend) else \<not> vs_Error v)"

definition pc_UnitSetup :: "'w link \<Rightarrow> cpu \<Rightarrow> nat \<Rightarrow> pc11 \<times> 'w \<Rightarrow> (pc11 \<times> 'w) result" where
  "pc_UnitSetup k p ind cw =
     (case cw of (c, w) \<Rightarrow>
        if ind = pc_kUnit_PR then
          (let rcsr = (if pc_online ind c then 0 else pc_kRCSR_M_ERROR) OR push_bit pc_kRCSR_V_RLIM (pc_fPrRlim c AND pc_kRCSR_B_RLIM)
           in ebind (ExecWibr k (cc_fBase c + pc_kRCSR) rcsr 0 0 0 0 p w) (\<lambda>w'. Inr (c, w')))
        else
          (let pcsr = (if pc_online ind c then 0 else pc_kPCSR_M_ERROR) OR push_bit pc_kPCSR_V_RLIM (pc_fPpRlim c AND pc_kPCSR_B_RLIM)
           in ebind (ExecWibr k (cc_fBase c + pc_kPCSR) pcsr 0 0 0 0 p w) (\<lambda>w'. Inr (c, w'))))"

definition pc_SetPrQlim :: "u16 \<Rightarrow> pc11 \<Rightarrow> pc11 result" where
  "pc_SetPrQlim qlim0 c =
     (let qlim = (if qlim0 = 0 then pc_fFsize c else qlim0)
      in if qlim > pc_fFsize c then Inl (Rexception ''Rw11CntlPC11::SetPrQlim'' ''Bad args: qlim larger than fifosize'')
         else Inr (c\<lparr>pc_fPrQlim := qlim\<rparr>))"

definition pc_SetPrRlim :: "'w link \<Rightarrow> cpu \<Rightarrow> u16 \<Rightarrow> pc11 \<times> 'w \<Rightarrow> (pc11 \<times> 'w) result" where
  "pc_SetPrRlim k p rlim cw =
     (case cw of (c, w) \<Rightarrow>
        if rlim > pc_kRCSR_B_RLIM then Inl (Rexception ''Rw11CntlPC11::SetPrRlim'' ''Bad args: rlim too large'')
        else pc_UnitSetup k p pc_kUnit_PR (c\<lparr>pc_fPrRlim := rlim\<rparr>, w))"

definition pc_SetPpRlim :: "'w link \<Rightarrow> cpu \<Rightarrow> u16 \<Rightarrow> pc11 \<times> 'w \<Rightarrow> (pc11 \<times> 'w) result" where
  "pc_SetPpRlim k p rlim cw =
     (case cw of (c, w) \<Rightarrow>
        if rlim > pc_kPCSR_B_RLIM then Inl (Rexception ''Rw11CntlPC11::SetPpRlim'' ''Bad args: rlim too large'')
        else pc_UnitSetup k p pc_kUnit_PP (c\<lparr>pc_fPpRlim := rlim\<rparr>, w))"

definition pc_prim_clist :: "cpu \<Rightarrow> pc11 \<Rightarrow> clist \<Rightarrow> (nat \<times> nat \<times> clist) result" where
  "pc_prim_clist p c l =
     ebind (cl_AddAttn (cl_Clear l)) (\<lambda>(i, l1).
     ebind (if pc_Buffered c then add_rbuf (cc_fBase c + pc_kPBUF) (unat (pc_fPpRblkSize c)) p l1 else AddRibr (cc_fBase c + pc_kPBUF) p l1) (\<lambda>(ip, l2).
     ebind (AddRibr (cc_fBase c + pc_kRBUF) p l2) (\<lambda>(ir, l3). Inr (ip, ir, l3))))"

definition pc_Start :: "'w link \<Rightarrow> hid \<Rightarrow> cpu \<Rightarrow> pc11 \<Rightarrow> 'w \<Rightarrow> (cpu \<times> pc11 \<times> 'w) result" where
  "pc_Start k h p c w =
     (if start_bad c then Inl (Rexception ''Rw11CntlPC11::Start'' ''Bad state: started, no lam, not enable, not found'')
      else
        let (p1, w1) = fold (\<lambda>(n, off) pw. AllIAddrMapInsert k (cc_fName c @ n) (cc_fBase c + off) pw)
              [(''.rcsr'', pc_kRCSR), (''.rbuf'', pc_kRBUF), (''.pcsr'', pc_kPCSR), (''.pbuf'', pc_kPBUF)] (p, w);
            itype = drop_bit pc_kRCSR_V_TYPE (pb_fDataRem (cc_fProbe c)) AND pc_kRCSR_B_TYPE;
            fsize = push_bit (unat itype) 1 - 1;
            c1 = c\<lparr>pc_fItype := itype, pc_fFsize := fsize, pc_fPrQlim := fsize\<rparr>
        in ebind (UnitSetupAll (pc_UnitSetup k p1) [pc_kUnit_PR, pc_kUnit_PP] (c1, w1)) (\<lambda>(c2, w2).
           ebind (pc_prim_clist p1 c2 (pc_fPrimClist c2)) (\<lambda>(ip, ir, l).
           ebind (lk_AddAttnHandler k h (lam_mask c2) h w2) (\<lambda>w3.
             Inr (p1, c2\<lparr>pc_fPrimClist := l, pc_fPC_pbuf := ip, pc_fPC_rbuf := ir, cc_fStarted := True\<rparr>, w3)))))"

definition pc_bootcode :: "u16 list" where
  "pc_bootcode =
     [0, 0x11c6, 0x29a6, 0x15c5, 0xff68, 0xbcd, 0x81fe, 0xa02, 0x9f7, 0x62, 0x8bc0, 0x3fc, 0xac0, 0x218, 0x9f7, 0x56, 0x8bc0, 0x214, 0x9f7, 0x3e, 0x1044, 0x9f7, 0x38, 0x1043, 0xe5c4, 6, 0x50c, 0x60e, 0x9f7, 0x3a, 0x8bc2, 0x208, 0x35c3, 1, 0x302, 0x15c3, 0x80, 0x4b, 0, 0, 0, 0, 0x9f7, 0x1e, 0x9013, 0x7f04, 0x9f7, 0x16, 0x8bc2, 0x2f6, 0x1d4, 0x9f7, 0xc, 0x1001, 0x9f7, 6, 0xc0, 0x5001, 0x87, 0xa8d, 0xbcd, 0x81eb, 0x8bcd, 0x80fc, 0x1d40, 2, 0x6002, 0x87]"

text \<open>The loader is placed at the end of the memory, or of the lower 56 kByte.\<close>

definition pc_BootCode :: "cpu \<Rightarrow> u16 list \<times> u16 \<times> u16" where
  "pc_BootCode p =
     (let boottop = (if cp_fMemSize p > 56 * 1024 then 56 * 1024 else ucast (cp_fMemSize p));
          aload = boottop - of_nat (2 * length pc_bootcode)
      in (pc_bootcode, aload, aload + 2))"

section \<open>Punch\<close>

definition pc_PpWriteChar :: "'w link \<Rightarrow> cpu \<Rightarrow> u8 \<Rightarrow> pc11 \<times> 'w \<Rightarrow> (pc11 \<times> 'w) result" where
  "pc_PpWriteChar k p ochr cw =
     (case cw of (c, w) \<Rightarrow>
        ebind (us_VirtWrite [ochr] (pc_unit pc_kUnit_PP c)) (\<lambda>(rc, u).
          let cw1 = (pc_put pc_kUnit_PP u c, w) in if \<not> rc then pc_UnitSetup k p pc_kUnit_PP cw1 else Inr cw1))"

definition pc_pfuse :: "u16 \<Rightarrow> u16" where
  "pc_pfuse w = drop_bit pc_kPBUF_V_FUSE w AND pc_kPBUF_B_FUSE"

fun pc_buf_loop :: "'w link \<Rightarrow> cpu \<Rightarrow> u16 list \<Rightarrow> u16 \<Rightarrow> u16 \<Rightarrow> pc11 \<times> 'w \<Rightarrow> (u16 \<times> u16 \<times> pc11 \<times> 'w) result" where
  "pc_buf_loop k p [] fumin fumax cw = Inr (fumin, fumax, cw)"
| "pc_buf_loop k p (b # bs) fumin fumax cw =
     ebind (pc_PpWriteChar k p (ucast (b AND pc_kPBUF_M_DATA)) cw) (\<lambda>cw1. pc_buf_loop k p bs (min fumin (pc_pfuse b)) (max fumax (pc_pfuse b)) cw1)"

text \<open>The value of \<open>rbuf\<close> that the code passes as well is only used for a trace.\<close>

definition pc_PpProcessBuf :: "'w link \<Rightarrow> hid \<Rightarrow> cpu \<Rightarrow> command \<Rightarrow> bool \<Rightarrow> pc11 \<times> 'w \<Rightarrow> (pc11 \<times> 'w) result" where
  "pc_PpProcessBuf k h p cmd prim cw0 =
     (if cmd_fBlockDone cmd = 0 then Inr cw0
      else
        ebind (block_words cmd) (\<lambda>pbuf.
        ebind (pc_buf_loop k p pbuf pc_kFifoMaxSize 0 cw0) (\<lambda>(fumin, fumax, c, w).
          let c1 = c\<lparr>pc_fPpRblkSize := max 4 (max (of_nat (length pbuf)) fumax)\<rparr>
          in ebind (if \<not> pc_fPpQueBusy c1 \<and> fumin > 1
                    then ebind (lk_QueueAction k h w) (\<lambda>w'. Inr ((pc_inc pcStatNPpQue c1)\<lparr>pc_fPpQueBusy := True\<rparr>, w'))
                    else Inr (c1, w)) (\<lambda>(c2, w2).
               if prim
               then ebind (cl_upd (pc_fPC_pbuf c2) (SetBlockRead (unat (pc_fPpRblkSize c2))) (pc_fPrimClist c2)) (\<lambda>l. Inr (c2\<lparr>pc_fPrimClist := l\<rparr>, w2))
               else Inr (c2, w2)))))"

definition pc_PpRcvHandler :: "'w link \<Rightarrow> hid \<Rightarrow> cpu \<Rightarrow> pc11 \<times> 'w \<Rightarrow> (int \<times> pc11 \<times> 'w) result" where
  "pc_PpRcvHandler k h p cw =
     (case cw of (c0, w) \<Rightarrow>
        let c = c0\<lparr>pc_fPpQueBusy := False\<rparr>
        in ebind (add_rbuf (cc_fBase c + pc_kPBUF) (unat (pc_fPpRblkSize c)) p clist_new) (\<lambda>(i, l).
           ebind (srv_Exec k l w) (\<lambda>(l', w').
           ebind (cl_at 0 l') (\<lambda>cmd.
           ebind (pc_PpProcessBuf k h p cmd False (c, w')) (\<lambda>cw'. Inr (0, cw'))))))"

section \<open>Reader\<close>

text \<open>Bytes of the file until \<open>n\<close> are read or the end of the file or an error is seen, which is the first part of the result.\<close>

fun pc_read_loop :: "nat \<Rightarrow> ustream \<Rightarrow> (bool \<times> u16 list \<times> ustream) result" where
  "pc_read_loop 0 u = Inr (False, [], u)"
| "pc_read_loop (Suc n) u =
     ebind (us_VirtRead 1 u) (\<lambda>(irc, ds, u1).
       if irc \<le> 0 then Inr (True, [], u1)
       else ebind (pc_read_loop n u1) (\<lambda>(fin, ws, u2). Inr (fin, map ucast (take 1 ds) @ ws, u2)))"

definition pc_PrProcessBuf :: "'w link \<Rightarrow> cpu \<Rightarrow> u16 \<Rightarrow> pc11 \<times> 'w \<Rightarrow> (pc11 \<times> 'w) result" where
  "pc_PrProcessBuf k p rbuf cw =
     (case cw of (c, w) \<Rightarrow>
        let rfuse = drop_bit pc_kRBUF_V_FUSE rbuf AND pc_kRBUF_B_FUSE
        in if rbuf AND pc_kRBUF_M_RBUSY = 0 then Inr (c, w)
           else if pc_fPrDrain c = kPrDrain_Pend then
             (if rfuse = 0 then pc_UnitSetup k p pc_kUnit_PR (c\<lparr>pc_fPrDrain := kPrDrain_Done\<rparr>, w) else Inr (c, w))
           else if pc_fPrDrain c = kPrDrain_Done then Inr (c, w)
           else if rfuse \<ge> pc_fPrQlim c then Inr (c, w)
           else
             ebind (pc_read_loop (unat (pc_fPrQlim c - rfuse)) (pc_unit pc_kUnit_PR c)) (\<lambda>(fin, iblock, u).
               let c1 = pc_put pc_kUnit_PR u c; c2 = (if fin then c1\<lparr>pc_fPrDrain := kPrDrain_Pend\<rparr> else c1)
               in if iblock \<noteq> [] then
                    (let c3 = pc_inc pcStatNPrBlk c2
                     in ebind (AddWbibr (cc_fBase c3 + pc_kRBUF) iblock p clist_new) (\<lambda>(i, l). ebind (srv_Exec k l w) (\<lambda>(l', w'). Inr (c3, w'))))
                  else if rfuse = 0 \<and> pc_fPrDrain c2 = kPrDrain_Pend then pc_UnitSetup k p pc_kUnit_PR (c2\<lparr>pc_fPrDrain := kPrDrain_Done\<rparr>, w)
                  else Inr (c2, w)))"

definition pc_AttachDone :: "'w link \<Rightarrow> cpu \<Rightarrow> nat \<Rightarrow> pc11 \<times> 'w \<Rightarrow> (pc11 \<times> 'w) result" where
  "pc_AttachDone k p ind cw =
     (case cw of (c, w) \<Rightarrow>
        if ind = pc_kUnit_PR \<and> pc_Buffered c then pc_PrProcessBuf k p pc_kRBUF_M_RBUSY (c\<lparr>pc_fPrDrain := kPrDrain_Idle\<rparr>, w) else Inr (c, w))"

definition upc_AttachDone :: "'w link \<Rightarrow> cpu \<Rightarrow> nat \<Rightarrow> pc11 \<times> 'w \<Rightarrow> (pc11 \<times> 'w) result" where
  "upc_AttachDone k p ind cw = ebind (stream_AttachDone (pc_UnitSetup k p) ind cw) (pc_AttachDone k p ind)"

definition pc_unit_ops :: "'w link \<Rightarrow> cpu \<Rightarrow> nat \<Rightarrow> (vstream, pc11 \<times> 'w) unit_ops" where
  "pc_unit_ops k p ind =
     \<lparr>uo_Enabled = (\<lambda>_. True), uo_fupVirt = (\<lambda>(c, w). us_fupVirt (pc_unit ind c)),
      uo_SetVirt = (\<lambda>v (c, w). (pc_put ind ((pc_unit ind c)\<lparr>us_fupVirt := v\<rparr>) c, w)),
      uo_AttachDone = upc_AttachDone k p ind, uo_DetachCleanup = Inr, uo_DetachDone = stream_DetachDone (pc_UnitSetup k p) ind\<rparr>"

section \<open>Attention handler\<close>

definition pc_ProcessUnbuf :: "'w link \<Rightarrow> cpu \<Rightarrow> u16 \<Rightarrow> u16 \<Rightarrow> pc11 \<times> 'w \<Rightarrow> (pc11 \<times> 'w) result" where
  "pc_ProcessUnbuf k p rbuf pbuf cw0 =
     ebind (if pbuf AND pc_kPBUF_M_VAL \<noteq> 0 then pc_PpWriteChar k p (ucast (pbuf AND pc_kPBUF_M_DATA)) cw0 else Inr cw0) (\<lambda>(c, w).
       if rbuf AND pc_kRBUF_M_RBUSY \<noteq> 0 then
         ebind (us_VirtRead 1 (pc_unit pc_kUnit_PR c)) (\<lambda>(irc, ds, u).
           let c1 = pc_put pc_kUnit_PR u c
           in if irc \<le> 0 then pc_UnitSetup k p pc_kUnit_PR (c1, w)
              else ebind (ExecWibr k (cc_fBase c1 + pc_kRBUF) (ucast (hd ds)) 0 0 0 0 p w) (\<lambda>w'. Inr (c1, w')))
       else Inr (c, w))"

definition pc_AttnHandler :: "'w link \<Rightarrow> hid \<Rightarrow> cpu \<Rightarrow> attn_args \<Rightarrow> pc11 \<times> 'w \<Rightarrow> (attn_args \<times> pc11 \<times> 'w) result" where
  "pc_AttnHandler k h p args cw0 =
     (case cw0 of (c0, w0) \<Rightarrow>
        let c1 = pc_inc pcStatNAttnHdl c0
        in ebind (srv_GetAttnInfo k args (pc_fPrimClist c1) w0) (\<lambda>(args', l, w).
           let c = c1\<lparr>pc_fPrimClist := l\<rparr>
           in ebind (cl_at (pc_fPC_pbuf c) l) (\<lambda>pcmd.
              ebind (cmd_data (pc_fPC_rbuf c) l) (\<lambda>rbuf.
              ebind (if pc_Buffered c then ebind (pc_PpProcessBuf k h p pcmd True (c, w)) (pc_PrProcessBuf k p rbuf)
                     else pc_ProcessUnbuf k p rbuf (cmd_fData pcmd) (c, w)) (\<lambda>cw.
                Inr (args', cw))))))"

end
