(* ===== verification/Rw11StreamRep.thy ===== *)
theory Rw11StreamRep
  imports Rw11FifoRep Rw11CntlLP11 Rw11CntlPC11
begin

text \<open>
  Printer, punch and reader: \<open>lpf\<close> and \<open>ppf\<close> interpret the contract of a fifo client on the handlers of the LP11 and of the punch of
  the PC11, for a device with a fifo. \<open>lp11_prints\<close> and \<open>pc11_punches\<close> state what follows for the output file.
\<close>

section \<open>Command lists that read the fifo\<close>

definition rbuf_cmd :: "u16 \<Rightarrow> command \<Rightarrow> bool" where
  "rbuf_cmd a r = (Command r = kCmdRblk \<and> cmd_fAddress r = a \<and> cmd_fpBlockExt r = None \<and> 0 < length (cmd_fBlock r) \<and> length (cmd_fBlock r) \<le> 65535)"

text \<open>A primary list: attention, block read of the fifo, and reads of other registers.\<close>

definition fifo_prim :: "u16 \<Rightarrow> nat \<Rightarrow> clist \<Rightarrow> bool" where
  "fifo_prim a k l =
     (\<exists>c0 r cs. cl_fList l = c0 # r # cs \<and> Command c0 = kCmdAttn \<and> rbuf_cmd a r \<and> length cs = k \<and> list_all (\<lambda>c. Command c = kCmdRreg) cs)"

lemma Command_sets [simp]:
  "Command (SetStatus st c) = Command c" "Command (SetData w c) = Command c" "Command (SetBlockDone n c) = Command c" "Command (put_block ws c) = Command c"
  by (simp_all add: Command_def SetStatus_def SetData_def SetBlockDone_def put_block_def split: option.splits)

lemma pd_cmd_rbuf:
  assumes "rbuf_cmd a r" and "pd_read (length (cmd_fBlock r)) d = (ws, d1)" and "length ws \<le> length (cmd_fBlock r)"
  shows "\<exists>r'. pd_cmd a r d = (r', d1) \<and> rbuf_cmd a r' \<and> block_words r' = Inr ws"
proof -
  have "BlockSize r = length (cmd_fBlock r)"
    using assms(1) by (simp add: rbuf_cmd_def BlockSize_def HasBlockExt_def)
  moreover have "unat (of_nat (length ws) :: u16) = length ws"
    using assms(1,3) by (simp add: unat_of_nat rbuf_cmd_def take_bit_nat_eq_self)
  ultimately show ?thesis
    using assms
    by (auto simp: pd_cmd_def rbuf_cmd_def block_words_def BlockPointer_def SetStatus_def SetBlockDone_def put_block_def Command_def)
qed

lemma pd_cmds_reads:
  assumes "list_all (\<lambda>c. Command c = kCmdRreg) cs"
  shows "pd_cmds a cs d = (map (\<lambda>c. SetStatus (cb_stat True) (SetData 0 c)) cs, d)"
  using assms by (induction cs) (auto simp: pd_cmd_def rl_defs)

lemma prim_exec:
  assumes "fifo_prim a k l" and "pd_ok m d"
  shows "\<exists>n ws d1 args' l' r'. 0 < n \<and> pd_read n (d\<lparr>pd_lam := False\<rparr>) = (ws, d1) \<and> srv_GetAttnInfo (pd_link a) args l d = Inr (args', l', d1) \<and>
    fifo_prim a k l' \<and> cl_at 1 l' = Inr r' \<and> block_words r' = Inr ws \<and> (\<forall>i < k. cmd_data (i + 2) l' = Inr 0)"
proof -
  obtain c0 r cs where l: "cl_fList l = c0 # r # cs" "Command c0 = kCmdAttn" "rbuf_cmd a r" "length cs = k" "list_all (\<lambda>c. Command c = kCmdRreg) cs"
    using assms(1) by (auto simp: fifo_prim_def)
  obtain ws d1 where r: "pd_read (length (cmd_fBlock r)) (d\<lparr>pd_lam := False\<rparr>) = (ws, d1)"
    by (cases "pd_read (length (cmd_fBlock r)) (d\<lparr>pd_lam := False\<rparr>)") auto
  have "pd_ok m (d\<lparr>pd_lam := False\<rparr>)"
    using assms(2) by (simp add: pd_ok_def)
  from pd_cmd_rbuf [OF l(3) r pd_read_moves(2) [OF this r]] obtain r' where r': "pd_cmd a r (d\<lparr>pd_lam := False\<rparr>) = (r', d1)" "rbuf_cmd a r'" "block_words r' = Inr ws"
    by blast
  let ?c0 = "SetStatus (cb_stat True) (SetData (if pd_lam d then 1 else 0) c0)"
  let ?cs = "map (\<lambda>c. SetStatus (cb_stat True) (SetData 0 c)) cs"
  have c0: "pd_cmd a c0 d = (?c0, d\<lparr>pd_lam := False\<rparr>)"
    using l(2) by (simp add: pd_cmd_def rl_defs)
  let ?l = "l\<lparr>cl_fList := ?c0 # r' # ?cs\<rparr>"
  have e: "pd_exec a l d = Inr (True, ?l, d1)"
    using c0 r'(1) pd_cmds_reads [OF l(5)] by (simp add: pd_exec_def l(1))
  have p: "fifo_prim a k ?l"
    using l r'(2) by (auto simp: fifo_prim_def list_all_iff)
  have z: "cmd_data (i + 2) ?l = Inr 0" if "i < k" for i
    using that l(4) by (simp add: cmd_data_def cl_at_def SetStatus_def SetData_def)
  have "srv_GetAttnInfo (pd_link a) args l d = Inr (args\<lparr>aa_fAttnHarvest := cmd_fData ?c0, aa_fHarvestDone := True\<rparr>, ?l, d1)"
    using e l(1,2) by (simp add: srv_GetAttnInfo_def cl_at_def srv_Exec_def throw_fail_def pd_link_def)
  then show ?thesis
    using l(3) r r'(3) p z
    by (intro exI [of _ "length (cmd_fBlock r)"] exI [of _ ws] exI [of _ d1] exI [of _ "args\<lparr>aa_fAttnHarvest := cmd_fData ?c0, aa_fHarvestDone := True\<rparr>"]
        exI [of _ ?l] exI [of _ r']) (simp add: rbuf_cmd_def cl_at_def)
qed

lemma add_rbuf_ok:
  assumes "\<not> ibaddr_bad b" and "0 < n" and "n \<le> 65535"
  shows "\<exists>l r. add_rbuf b n p clist_new = Inr (0, l) \<and> cl_fList l = [r] \<and> rbuf_cmd (IbusRemoteAddr b p) r \<and> length (cmd_fBlock r) = n"
  using assms
  by (auto simp: add_rbuf_def AddRbibr_def cl_AddRblk_def CmdRblk_def SetCommand_def SetBlockRead_def cl_AddCommand_def clist_new_def cl_upd_def cl_at_def
      rbuf_cmd_def SetExpectStatus_def Command_def cmd_new_def rl_defs)

lemma rcv_exec:
  assumes "\<not> ibaddr_bad b" and "0 < n" and "n \<le> 65535" and "pd_ok m d" and "pd_read n d = (ws, d1)"
  shows "\<exists>l l' r'. add_rbuf b n p clist_new = Inr (0, l) \<and> srv_Exec (pd_link (IbusRemoteAddr b p)) l d = Inr (l', d1) \<and> cl_at 0 l' = Inr r' \<and> block_words r' = Inr ws"
proof -
  obtain l r where l: "add_rbuf b n p clist_new = Inr (0, l)" "cl_fList l = [r]" "rbuf_cmd (IbusRemoteAddr b p) r" "length (cmd_fBlock r) = n"
    using add_rbuf_ok [OF assms(1-3)] by blast
  from pd_cmd_rbuf [OF l(3), of d ws d1] pd_read_moves(2) [OF assms(4,5)] assms(5) l(4)
  obtain r' where "pd_cmd (IbusRemoteAddr b p) r d = (r', d1)" "block_words r' = Inr ws"
    by auto
  then show ?thesis
    using l(1,2) by (auto simp: srv_Exec_def throw_fail_def pd_link_def pd_exec_def cl_at_def)
qed

lemma prim_resize:
  assumes "fifo_prim a k l" and "0 < n" and "n \<le> 65535"
  shows "\<exists>l'. cl_upd 1 (SetBlockRead n) l = Inr l' \<and> fifo_prim a k l'"
  using assms by (auto simp: fifo_prim_def cl_upd_def cl_at_def SetBlockRead_def rbuf_cmd_def Command_def)

lemma rblk_size: "0 < max 4 (x :: u16)" "0 < unat (max 4 (x :: u16))" "unat (max 4 (x :: u16)) \<le> 65535"
proof -
  have "4 \<le> max 4 x"
    by simp
  then show "0 < max 4 x" "0 < unat (max 4 x)"
    by (auto simp: word_le_nat_alt word_less_nat_alt)
  show "unat (max 4 x) \<le> 65535"
    using unsigned_less [of "max 4 x", where 'a = nat] by simp
qed

section \<open>The printer\<close>

definition lp_inv :: "cpu \<Rightarrow> lp11 \<Rightarrow> bool" where
  "lp_inv p c =
     (lp_Buffered c \<and> lp_fPC_buf c = 1 \<and> 0 < lp_fRblkSize c \<and> \<not> ibaddr_bad (cc_fBase c + lp_kBUF) \<and>
      fifo_prim (IbusRemoteAddr (cc_fBase c + lp_kBUF) p) 0 (lp_fPrimClist c))"

definition lp_keep :: "u8 \<Rightarrow> bool" where
  "lp_keep x = (x \<noteq> 0)"

lemma lp_WriteChar_ok:
  assumes "out_unit ds (lp_fspUnit c)"
  shows "\<exists>u st. lp_WriteChar k p x (c, w) = Inr (c\<lparr>lp_fspUnit := u, lp_fStats := st\<rparr>, w) \<and> out_unit (ds @ filter lp_keep [x]) u"
proof (cases "x = 0")
  case True
  then show ?thesis
    using assms by (auto simp: lp_WriteChar_def lp_inc_def lp_keep_def intro!: exI [of _ "lp_fspUnit c"])
next
  case False
  obtain u where u: "us_VirtWrite [x] (lp_fspUnit c) = Inr (True, u)" "out_unit (ds @ [x]) u"
    using out_unit_write [OF assms] by blast
  obtain v where v: "us_VirtFlush u = Inr (True, v)" "out_unit (ds @ [x]) v"
    using out_unit_flush [OF u(2)] by blast
  let ?st = "stat_inc lpStatNChar 1 (lp_fStats c)"
  consider "x = 0x0c" | "x = 0x0a" | "x \<noteq> 0x0c \<and> x \<noteq> 0x0a"
    by blast
  then show ?thesis
  proof cases
    case 1
    then show ?thesis
      using u v by (intro exI [of _ v] exI [of _ "stat_inc lpStatNPage 1 ?st"]) (simp add: lp_WriteChar_def lp_inc_def lp_keep_def Let_def)
  next
    case 2
    then show ?thesis
      using u by (intro exI [of _ u] exI [of _ "stat_inc lpStatNLine 1 ?st"]) (simp add: lp_WriteChar_def lp_inc_def lp_keep_def Let_def)
  next
    case 3
    then show ?thesis
      using False u by (intro exI [of _ u] exI [of _ ?st]) (simp add: lp_WriteChar_def lp_inc_def lp_keep_def Let_def)
  qed
qed

text \<open>A block in which the fill levels and the characters are those of the device.\<close>

definition fifo_words :: "u8 \<Rightarrow> u16 list \<Rightarrow> bool" where
  "fifo_words m ws = (\<forall>w \<in> set ws. pd_char w AND m = pd_char w \<and> 0 < pd_fuse w \<and> pd_fuse w \<le> 127)"

lemma lp_fuse_eq: "unat (lp_fuse w) = pd_fuse w"
  by (simp add: lp_fuse_def pd_fuse_def dev_defs)

lemma bit_7f: "bit (0x7f :: int) i \<longleftrightarrow> i < 7" "bit (0xff :: int) i \<longleftrightarrow> i < 8"
  using bit_mask_iff [of 7 i, where 'a = int] bit_mask_iff [of 8 i, where 'a = int] by (simp_all add: mask_eq_exp_minus_1)

lemma lp_char_eq:
  assumes "pd_char w AND 0x7f = pd_char w"
  shows "ucast (w AND lp_kBUF_M_DATA) = pd_char w"
proof -
  have "ucast (w AND 0x7f) = pd_char w AND (0x7f :: u8)"
    by (rule bit_word_eqI) (auto simp: pd_char_def bit_simps bit_7f)
  then show ?thesis
    using assms by (simp add: dev_defs)
qed

lemma lp_buf_loop_ok:
  assumes "fifo_words 0x7f ws" and "out_unit ds (lp_fspUnit c)" and "fmin \<noteq> 0"
  shows "\<exists>u st fumin fumax. lp_buf_loop k p ws fmin fmax (c, w) = Inr (fumin, fumax, c\<lparr>lp_fspUnit := u, lp_fStats := st\<rparr>, w) \<and>
    out_unit (ds @ filter lp_keep (map pd_char ws)) u \<and> (fumin > 1 \<longleftrightarrow> fmin > 1 \<and> (\<forall>v \<in> set ws. 1 < pd_fuse v))"
  using assms
proof (induction ws arbitrary: ds c fmin fmax)
  case Nil
  then show ?case
    by (auto intro!: exI [of _ "lp_fspUnit c"] exI [of _ "lp_fStats c"])
next
  case (Cons b bs)
  have b: "ucast (b AND lp_kBUF_M_DATA) = pd_char b" "0 < pd_fuse b"
    using Cons.prems(1) lp_char_eq [of b] by (auto simp: fifo_words_def)
  obtain u1 st1 where 1: "lp_WriteChar k p (pd_char b) (c, w) = Inr (c\<lparr>lp_fspUnit := u1, lp_fStats := st1\<rparr>, w)" "out_unit (ds @ filter lp_keep [pd_char b]) u1"
    using lp_WriteChar_ok [OF Cons.prems(2), of k p "pd_char b" w] by blast
  let ?c = "c\<lparr>lp_fspUnit := u1, lp_fStats := st1\<rparr>"
  have n0: "lp_fuse b \<noteq> 0"
    using b(2) lp_fuse_eq [of b] by auto
  then have m0: "min fmin (lp_fuse b) \<noteq> 0"
    using Cons.prems(3) by (simp add: min_def)
  have f: "lp_fuse b > 1 \<longleftrightarrow> 1 < pd_fuse b"
    by (simp add: word_less_nat_alt lp_fuse_eq)
  have p: "fifo_words 0x7f bs" "out_unit (ds @ filter lp_keep [pd_char b]) (lp_fspUnit ?c)"
    using Cons.prems(1) 1(2) by (simp_all add: fifo_words_def)
  from Cons.IH [OF p m0, of "max fmax (lp_fuse b)"] obtain u st fumin fumax where
    2: "lp_buf_loop k p bs (min fmin (lp_fuse b)) (max fmax (lp_fuse b)) (?c, w) = Inr (fumin, fumax, ?c\<lparr>lp_fspUnit := u, lp_fStats := st\<rparr>, w)"
    "out_unit ((ds @ filter lp_keep [pd_char b]) @ filter lp_keep (map pd_char bs)) u"
    "fumin > 1 \<longleftrightarrow> min fmin (lp_fuse b) > 1 \<and> (\<forall>v \<in> set bs. 1 < pd_fuse v)"
    by blast
  have "lp_buf_loop k p (b # bs) fmin fmax (c, w) = Inr (fumin, fumax, c\<lparr>lp_fspUnit := u, lp_fStats := st\<rparr>, w)"
    using 1(1) 2(1) b(1) by simp
  moreover have "out_unit (ds @ filter lp_keep (map pd_char (b # bs))) u"
    using 2(2) by (cases "lp_keep (pd_char b)") simp_all
  moreover have "fumin > 1 \<longleftrightarrow> fmin > 1 \<and> (\<forall>v \<in> set (b # bs). 1 < pd_fuse v)"
    using 2(3) f by auto
  ultimately show ?case
    by blast
qed

lemma lp_ProcessBuf_ok:
  assumes "block_words cmd = Inr ws" and "fifo_words 0x7f ws" and "lp_inv p c" and "out_unit ds (lp_fspUnit c)"
  shows "\<exists>c'. lp_ProcessBuf (pd_link a) h p cmd prim (c, d) = Inr (c', pd_queue h (fifo_more ws \<and> \<not> lp_fQueBusy c) d) \<and> lp_inv p c' \<and>
    out_unit (ds @ filter lp_keep (map pd_char ws)) (lp_fspUnit c') \<and> lp_fQueBusy c' = (lp_fQueBusy c \<or> fifo_more ws)"
proof -
  have "\<exists>u st fumin fumax. lp_buf_loop (pd_link a) p ws (if ws \<noteq> [] then lp_kFifoMaxSize else 0) 0 (c, d) =
      Inr (fumin, fumax, c\<lparr>lp_fspUnit := u, lp_fStats := st\<rparr>, d) \<and> out_unit (ds @ filter lp_keep (map pd_char ws)) u \<and> (fumin > 1 \<longleftrightarrow> fifo_more ws)"
  proof (cases "ws = []")
    case True
    then show ?thesis
      using assms(4) by (auto simp: fifo_more_def intro!: exI [of _ "lp_fspUnit c"] exI [of _ "lp_fStats c"])
  next
    case False
    have "lp_kFifoMaxSize \<noteq> 0" "lp_kFifoMaxSize > 1"
      by (simp_all add: dev_defs)
    then show ?thesis
      using lp_buf_loop_ok [OF assms(2,4) \<open>lp_kFifoMaxSize \<noteq> 0\<close>, of "pd_link a" p 0 d] False by (auto simp: fifo_more_def)
  qed
  then obtain u st fumin fumax where
    l: "lp_buf_loop (pd_link a) p ws (if ws \<noteq> [] then lp_kFifoMaxSize else 0) 0 (c, d) = Inr (fumin, fumax, c\<lparr>lp_fspUnit := u, lp_fStats := st\<rparr>, d)"
      "out_unit (ds @ filter lp_keep (map pd_char ws)) u" "fumin > 1 \<longleftrightarrow> fifo_more ws"
    by blast
  define sz where "sz = max 4 (max (of_nat (length ws)) fumax :: u16)"
  have s: "0 < sz" "0 < unat sz" "unat sz \<le> 65535"
    using rblk_size [of "max (of_nat (length ws)) fumax"] by (simp_all add: sz_def)
  obtain l' where r: "cl_upd 1 (SetBlockRead (unat sz)) (lp_fPrimClist c) = Inr l'" "fifo_prim (IbusRemoteAddr (cc_fBase c + lp_kBUF) p) 0 l'"
    using prim_resize [of "IbusRemoteAddr (cc_fBase c + lp_kBUF) p" 0 "lp_fPrimClist c", OF _ s(2,3)] assms(3) unfolding lp_inv_def by blast
  show ?thesis
    using assms(1,3) l r s(1)
    by (cases "fifo_more ws"; cases "lp_fQueBusy c"; cases prim)
      (simp_all add: lp_ProcessBuf_def Let_def sz_def [symmetric] pd_queue_def pd_link_def lp_inv_def lp_inc_def lp_Buffered_def)
qed

text \<open>The handlers as the server calls them.\<close>

definition lp_attn :: "hid \<Rightarrow> cpu \<Rightarrow> attn_args \<Rightarrow> lp11 \<times> pdev \<Rightarrow> (lp11 \<times> pdev) result" where
  "lp_attn h p args s = ebind (lp_AttnHandler (pd_link (IbusRemoteAddr (cc_fBase (fst s) + lp_kBUF) p)) h p args s) (\<lambda>(args', s'). Inr s')"

definition lp_rcv :: "hid \<Rightarrow> cpu \<Rightarrow> lp11 \<times> pdev \<Rightarrow> (lp11 \<times> pdev) result" where
  "lp_rcv h p s = ebind (lp_RcvHandler (pd_link (IbusRemoteAddr (cc_fBase (fst s) + lp_kBUF) p)) h p s) (\<lambda>(rc, s'). Inr s')"

interpretation lpf: fifo_client "0x7f" h "lp_inv p" "\<lambda>ds c. out_unit ds (lp_fspUnit c)" lp_keep lp_fQueBusy "lp_attn h p args" "lp_rcv h p" for h p args
proof (unfold_locales, goal_cases)
  case (1 c d ds)
  let ?a = "IbusRemoteAddr (cc_fBase c + lp_kBUF) p"
  have f: "fifo_prim ?a 0 (lp_fPrimClist (lp_inc lpStatNAttnHdl c))" "lp_fPC_buf c = 1"
    using 1(1) by (simp_all add: lp_inv_def lp_inc_def)
  from prim_exec [OF f(1) 1(2), of args] obtain n ws d1 args' l' r' where
    e: "0 < n" "pd_read n (d\<lparr>pd_lam := False\<rparr>) = (ws, d1)" "srv_GetAttnInfo (pd_link ?a) args (lp_fPrimClist (lp_inc lpStatNAttnHdl c)) d = Inr (args', l', d1)"
      "fifo_prim ?a 0 l'" "cl_at 1 l' = Inr r'" "block_words r' = Inr ws"
    by blast
  let ?c = "(lp_inc lpStatNAttnHdl c)\<lparr>lp_fPrimClist := l'\<rparr>"
  have ok: "pd_ok 0x7f (d\<lparr>pd_lam := False\<rparr>)"
    using 1(2) by (simp add: pd_ok_def)
  have w: "fifo_words 0x7f ws"
    using pd_read_moves(3) [OF ok e(2)] by (simp add: fifo_words_def)
  have i: "lp_inv p ?c" "out_unit ds (lp_fspUnit ?c)" "lp_fQueBusy ?c = lp_fQueBusy c" "lp_Buffered ?c"
    using 1(1,3) e(4) by (simp_all add: lp_inv_def lp_inc_def lp_Buffered_def)
  from lp_ProcessBuf_ok [OF e(6) w i(1,2), of ?a h True d1] obtain c' where
    "lp_ProcessBuf (pd_link ?a) h p r' True (?c, d1) = Inr (c', pd_queue h (fifo_more ws \<and> \<not> lp_fQueBusy c) d1)" "lp_inv p c'"
    "out_unit (ds @ filter lp_keep (map pd_char ws)) (lp_fspUnit c')" "lp_fQueBusy c' = (lp_fQueBusy c \<or> fifo_more ws)"
    by (auto simp: i(3))
  moreover from this(1) have "lp_attn h p args (c, d) = Inr (c', pd_queue h (fifo_more ws \<and> \<not> lp_fQueBusy c) d1)"
    using e(3,5) i(4) f(2) by (simp add: lp_attn_def lp_AttnHandler_def Let_def) (simp add: lp_inc_def)
  ultimately show ?case
    using e(1,2) by blast
next
  case (2 c d ds)
  let ?a = "IbusRemoteAddr (cc_fBase c + lp_kBUF) p"
  let ?c = "c\<lparr>lp_fQueBusy := False\<rparr>"
  have g: "\<not> ibaddr_bad (cc_fBase c + lp_kBUF)" "0 < unat (lp_fRblkSize c)" "unat (lp_fRblkSize c) \<le> 65535"
    using 2(1) unsigned_less [of "lp_fRblkSize c", where 'a = nat] by (simp_all add: lp_inv_def word_less_nat_alt)
  obtain ws d1 where r: "pd_read (unat (lp_fRblkSize c)) d = (ws, d1)"
    by (cases "pd_read (unat (lp_fRblkSize c)) d") auto
  from rcv_exec [OF g 2(2) r, of p] obtain l l' r' where
    e: "add_rbuf (cc_fBase c + lp_kBUF) (unat (lp_fRblkSize c)) p clist_new = Inr (0, l)" "srv_Exec (pd_link ?a) l d = Inr (l', d1)" "cl_at 0 l' = Inr r'" "block_words r' = Inr ws"
    by blast
  have w: "fifo_words 0x7f ws"
    using pd_read_moves(3) [OF 2(2) r] by (simp add: fifo_words_def)
  have i: "lp_inv p ?c" "out_unit ds (lp_fspUnit ?c)"
    using 2(1,3) by (simp_all add: lp_inv_def lp_Buffered_def)
  from lp_ProcessBuf_ok [OF e(4) w i, of ?a h False d1] obtain c' where
    "lp_ProcessBuf (pd_link ?a) h p r' False (?c, d1) = Inr (c', pd_queue h (fifo_more ws) d1)" "lp_inv p c'"
    "out_unit (ds @ filter lp_keep (map pd_char ws)) (lp_fspUnit c')" "lp_fQueBusy c' = fifo_more ws"
    by auto
  moreover from this(1) have "lp_rcv h p (c, d) = Inr (c', pd_queue h (fifo_more ws) d1)"
    using e(1-3) by (simp add: lp_rcv_def lp_RcvHandler_def Let_def)
  ultimately show ?case
    using g(2) r by blast
qed

text \<open>C20: The printer loses nothing and never stalls. The CPU may print at any time, also between two reads of the fifo within one block read, and the server
  runs the attention handler and the queued reads in any order that the device and the action queue allow. Then in every state the output file has exactly the
  characters that the CPU has printed and that are not in the fifo any more, in order and without null characters; and from every state the
  handlers, which never fail, empty the fifo, so that the file has all that was printed.\<close>

theorem lp11_prints:
  assumes "lp_inv p c" and "\<not> lp_fQueBusy c" and "out_unit ds (lp_fspUnit c)"
    and "pd_ok 0x7f d" and "pd_fifo d = []" and "pd_sent d = []" and "pd_acts d = []"
    and "(fifo_step (lp_attn h p args) (lp_rcv h p))\<^sup>*\<^sup>* (c, d) (c1, d1)"
  shows "(\<exists>xs. pd_sent d1 = xs @ pd_fifo d1 \<and> out_unit (ds @ filter lp_keep xs) (lp_fspUnit c1)) \<and>
    (\<exists>c2 d2. (fifo_hdl (lp_attn h p args) (lp_rcv h p))\<^sup>*\<^sup>* (c1, d1) (c2, d2) \<and> pd_fifo d2 = [] \<and>
       out_unit (ds @ filter lp_keep (pd_sent d2)) (lp_fspUnit c2))"
proof -
  have "lpf.fifo_inv h p ds (c, d)"
    using assms(1-7) by (simp add: lpf.fifo_inv_def)
  note i = lpf.steps_inv [OF assms(8) this]
  from lpf.drains [OF i, of args] obtain s2 where
    s2: "(fifo_hdl (lp_attn h p args) (lp_rcv h p))\<^sup>*\<^sup>* (c1, d1) s2" "pd_fifo (snd s2) = []" "lpf.fifo_inv h p ds s2"
    by blast
  show ?thesis
    using i s2 by (cases s2) (auto simp: lpf.fifo_inv_def)
qed

section \<open>The punch\<close>

definition pp_inv :: "cpu \<Rightarrow> pc11 \<Rightarrow> bool" where
  "pp_inv p c =
     (pc_Buffered c \<and> pc_fPC_pbuf c = 1 \<and> pc_fPC_rbuf c = 2 \<and> 0 < pc_fPpRblkSize c \<and> length (pc_fspUnit c) = 2 \<and> \<not> ibaddr_bad (cc_fBase c + pc_kPBUF) \<and>
      fifo_prim (IbusRemoteAddr (cc_fBase c + pc_kPBUF) p) 1 (pc_fPrimClist c))"

lemma pc_fuse_eq: "unat (pc_pfuse w) = pd_fuse w" "ucast (w AND pc_kPBUF_M_DATA) = pd_char w"
  by (simp_all add: pc_pfuse_def pd_fuse_def pd_char_def dev_defs)

lemma pc_buf_loop_ok:
  assumes "fifo_words 0xff ws" and "out_unit ds (pc_unit pc_kUnit_PP c)" and "length (pc_fspUnit c) = 2" and "fmin \<noteq> 0"
  shows "\<exists>us fumin fumax. pc_buf_loop k p ws fmin fmax (c, w) = Inr (fumin, fumax, c\<lparr>pc_fspUnit := us\<rparr>, w) \<and> length us = 2 \<and> hd us = hd (pc_fspUnit c) \<and>
    out_unit (ds @ map pd_char ws) (us ! pc_kUnit_PP) \<and> (fumin > 1 \<longleftrightarrow> fmin > 1 \<and> (\<forall>v \<in> set ws. 1 < pd_fuse v))"
  using assms
proof (induction ws arbitrary: ds c fmin fmax)
  case Nil
  then show ?case
    by (auto simp: pc_unit_def intro!: exI [of _ "pc_fspUnit c"])
next
  case (Cons b bs)
  obtain u where u: "us_VirtWrite [pd_char b] (pc_unit pc_kUnit_PP c) = Inr (True, u)" "out_unit (ds @ [pd_char b]) u"
    using out_unit_write [OF Cons.prems(2)] by blast
  let ?c = "pc_put pc_kUnit_PP u c"
  have w: "pc_PpWriteChar k p (pd_char b) (c, w) = Inr (?c, w)"
    using u by (simp add: pc_PpWriteChar_def)
  have b: "0 < pd_fuse b"
    using Cons.prems(1) by (simp add: fifo_words_def)
  then have "pc_pfuse b \<noteq> 0"
    using pc_fuse_eq(1) [of b] by auto
  then have m0: "min fmin (pc_pfuse b) \<noteq> 0"
    using Cons.prems(4) by (simp add: min_def)
  have f: "pc_pfuse b > 1 \<longleftrightarrow> 1 < pd_fuse b"
    by (simp add: word_less_nat_alt pc_fuse_eq)
  have p: "fifo_words 0xff bs" "out_unit (ds @ [pd_char b]) (pc_unit pc_kUnit_PP ?c)" "length (pc_fspUnit ?c) = 2"
    using Cons.prems(1,3) u(2) by (simp_all add: fifo_words_def pc_unit_def pc_put_def pc_kUnit_PP_def)
  from Cons.IH [OF p m0, of "max fmax (pc_pfuse b)"] obtain us fumin fumax where
    2: "pc_buf_loop k p bs (min fmin (pc_pfuse b)) (max fmax (pc_pfuse b)) (?c, w) = Inr (fumin, fumax, ?c\<lparr>pc_fspUnit := us\<rparr>, w)" "length us = 2"
      "hd us = hd (pc_fspUnit ?c)" "out_unit ((ds @ [pd_char b]) @ map pd_char bs) (us ! pc_kUnit_PP)"
      "fumin > 1 \<longleftrightarrow> min fmin (pc_pfuse b) > 1 \<and> (\<forall>v \<in> set bs. 1 < pd_fuse v)"
    by blast
  have hd: "hd (pc_fspUnit ?c) = hd (pc_fspUnit c)"
    using Cons.prems(3) by (cases "pc_fspUnit c") (simp_all add: pc_put_def pc_kUnit_PP_def)
  show ?case
    using w 2 f hd by (intro exI [of _ us] exI [of _ fumin] exI [of _ fumax]) (simp add: pc_fuse_eq(2) pc_put_def)
qed

lemma pc_PpProcessBuf_ok:
  assumes "block_words cmd = Inr ws" and "fifo_words 0xff ws" and "pp_inv p c" and "out_unit ds (pc_unit pc_kUnit_PP c)"
  shows "\<exists>c'. pc_PpProcessBuf (pd_link a) h p cmd prim (c, d) = Inr (c', pd_queue h (fifo_more ws \<and> \<not> pc_fPpQueBusy c) d) \<and> pp_inv p c' \<and>
    out_unit (ds @ map pd_char ws) (pc_unit pc_kUnit_PP c') \<and> pc_fPpQueBusy c' = (pc_fPpQueBusy c \<or> fifo_more ws)"
proof (cases "cmd_fBlockDone cmd = 0")
  case True
  then have "ws = []"
    using assms(1) by (simp add: block_words_def split: if_splits)
  then show ?thesis
    using True assms(3,4) by (simp add: pc_PpProcessBuf_def fifo_more_def pd_queue_def)
next
  case False
  then have ne: "ws \<noteq> []"
    using assms(1) by (auto simp: block_words_def split: if_splits)
  have k: "pc_kFifoMaxSize \<noteq> 0" "pc_kFifoMaxSize > 1"
    by (simp_all add: dev_defs)
  have len: "length (pc_fspUnit c) = 2"
    using assms(3) by (simp add: pp_inv_def)
  from pc_buf_loop_ok [OF assms(2,4) len k(1), of "pd_link a" p 0 d] obtain us fumin fumax where
    l: "pc_buf_loop (pd_link a) p ws pc_kFifoMaxSize 0 (c, d) = Inr (fumin, fumax, c\<lparr>pc_fspUnit := us\<rparr>, d)" "length us = 2"
      "out_unit (ds @ map pd_char ws) (us ! pc_kUnit_PP)" "fumin > 1 \<longleftrightarrow> fifo_more ws"
    using k(2) ne by (auto simp: fifo_more_def)
  define sz where "sz = max 4 (max (of_nat (length ws)) fumax :: u16)"
  have s: "0 < sz" "0 < unat sz" "unat sz \<le> 65535"
    using rblk_size [of "max (of_nat (length ws)) fumax"] by (simp_all add: sz_def)
  obtain l' where r: "cl_upd 1 (SetBlockRead (unat sz)) (pc_fPrimClist c) = Inr l'" "fifo_prim (IbusRemoteAddr (cc_fBase c + pc_kPBUF) p) 1 l'"
    using prim_resize [of "IbusRemoteAddr (cc_fBase c + pc_kPBUF) p" 1 "pc_fPrimClist c", OF _ s(2,3)] assms(3) unfolding pp_inv_def by blast
  show ?thesis
    using assms(1,3) l r s(1) False
    by (cases "fifo_more ws"; cases "pc_fPpQueBusy c"; cases prim)
      (simp_all add: pc_PpProcessBuf_def Let_def sz_def [symmetric] pd_queue_def pd_link_def pp_inv_def pc_inc_def pc_Buffered_def pc_unit_def)
qed

definition pp_attn :: "hid \<Rightarrow> cpu \<Rightarrow> attn_args \<Rightarrow> pc11 \<times> pdev \<Rightarrow> (pc11 \<times> pdev) result" where
  "pp_attn h p args s = ebind (pc_AttnHandler (pd_link (IbusRemoteAddr (cc_fBase (fst s) + pc_kPBUF) p)) h p args s) (\<lambda>(args', s'). Inr s')"

definition pp_rcv :: "hid \<Rightarrow> cpu \<Rightarrow> pc11 \<times> pdev \<Rightarrow> (pc11 \<times> pdev) result" where
  "pp_rcv h p s = ebind (pc_PpRcvHandler (pd_link (IbusRemoteAddr (cc_fBase (fst s) + pc_kPBUF) p)) h p s) (\<lambda>(rc, s'). Inr s')"

interpretation ppf: fifo_client "0xff" h "pp_inv p" "\<lambda>ds c. out_unit ds (pc_unit pc_kUnit_PP c)" "\<lambda>_. True" pc_fPpQueBusy "pp_attn h p args" "pp_rcv h p"
  for h p args
proof (unfold_locales, goal_cases)
  case (1 c d ds)
  let ?a = "IbusRemoteAddr (cc_fBase c + pc_kPBUF) p"
  have f: "fifo_prim ?a 1 (pc_fPrimClist (pc_inc pcStatNAttnHdl c))" "pc_fPC_pbuf c = 1" "pc_fPC_rbuf c = 2"
    using 1(1) by (simp_all add: pp_inv_def pc_inc_def)
  from prim_exec [OF f(1) 1(2), of args] obtain n ws d1 args' l' r' where
    e: "0 < n" "pd_read n (d\<lparr>pd_lam := False\<rparr>) = (ws, d1)" "srv_GetAttnInfo (pd_link ?a) args (pc_fPrimClist (pc_inc pcStatNAttnHdl c)) d = Inr (args', l', d1)"
      "fifo_prim ?a 1 l'" "cl_at 1 l' = Inr r'" "block_words r' = Inr ws" "cmd_data 2 l' = Inr 0"
    by (metis add_0 zero_less_one)
  let ?c = "(pc_inc pcStatNAttnHdl c)\<lparr>pc_fPrimClist := l'\<rparr>"
  have ok: "pd_ok 0xff (d\<lparr>pd_lam := False\<rparr>)"
    using 1(2) by (simp add: pd_ok_def)
  have w: "fifo_words 0xff ws"
    using pd_read_moves(3) [OF ok e(2)] by (simp add: fifo_words_def)
  have i: "pp_inv p ?c" "out_unit ds (pc_unit pc_kUnit_PP ?c)" "pc_fPpQueBusy ?c = pc_fPpQueBusy c" "pc_Buffered ?c"
    using 1(1,3) e(4) by (simp_all add: pp_inv_def pc_inc_def pc_Buffered_def pc_unit_def)
  from pc_PpProcessBuf_ok [OF e(6) w i(1,2), of ?a h True d1] obtain c' where
    2: "pc_PpProcessBuf (pd_link ?a) h p r' True (?c, d1) = Inr (c', pd_queue h (fifo_more ws \<and> \<not> pc_fPpQueBusy c) d1)" "pp_inv p c'"
    "out_unit (ds @ map pd_char ws) (pc_unit pc_kUnit_PP c')" "pc_fPpQueBusy c' = (pc_fPpQueBusy c \<or> fifo_more ws)"
    by (auto simp: i(3))
  have "pp_attn h p args (c, d) = Inr (c', pd_queue h (fifo_more ws \<and> \<not> pc_fPpQueBusy c) d1)"
    using e(3,5,7) i(4) f(2,3) 2(1) by (simp add: pp_attn_def pc_AttnHandler_def Let_def) (simp add: pc_inc_def pc_PrProcessBuf_def)
  then show ?case
    using e(1,2) 2(2-4) by (intro exI [of _ n] exI [of _ ws] exI [of _ d1] exI [of _ c']) simp
next
  case (2 c d ds)
  let ?a = "IbusRemoteAddr (cc_fBase c + pc_kPBUF) p"
  let ?c = "c\<lparr>pc_fPpQueBusy := False\<rparr>"
  have g: "\<not> ibaddr_bad (cc_fBase c + pc_kPBUF)" "0 < unat (pc_fPpRblkSize c)" "unat (pc_fPpRblkSize c) \<le> 65535"
    using 2(1) unsigned_less [of "pc_fPpRblkSize c", where 'a = nat] by (simp_all add: pp_inv_def word_less_nat_alt)
  obtain ws d1 where r: "pd_read (unat (pc_fPpRblkSize c)) d = (ws, d1)"
    by (cases "pd_read (unat (pc_fPpRblkSize c)) d") auto
  from rcv_exec [OF g 2(2) r, of p] obtain l l' r' where
    e: "add_rbuf (cc_fBase c + pc_kPBUF) (unat (pc_fPpRblkSize c)) p clist_new = Inr (0, l)" "srv_Exec (pd_link ?a) l d = Inr (l', d1)" "cl_at 0 l' = Inr r'" "block_words r' = Inr ws"
    by blast
  have w: "fifo_words 0xff ws"
    using pd_read_moves(3) [OF 2(2) r] by (simp add: fifo_words_def)
  have i: "pp_inv p ?c" "out_unit ds (pc_unit pc_kUnit_PP ?c)"
    using 2(1,3) by (simp_all add: pp_inv_def pc_Buffered_def pc_unit_def)
  from pc_PpProcessBuf_ok [OF e(4) w i, of ?a h False d1] obtain c' where
    3: "pc_PpProcessBuf (pd_link ?a) h p r' False (?c, d1) = Inr (c', pd_queue h (fifo_more ws) d1)" "pp_inv p c'"
    "out_unit (ds @ map pd_char ws) (pc_unit pc_kUnit_PP c')" "pc_fPpQueBusy c' = fifo_more ws"
    by auto
  have "pp_rcv h p (c, d) = Inr (c', pd_queue h (fifo_more ws) d1)"
    using e(1-3) 3(1) by (simp add: pp_rcv_def pc_PpRcvHandler_def Let_def)
  then show ?case
    using g(2) r 3(2-4) by (intro exI [of _ "unat (pc_fPpRblkSize c)"] exI [of _ ws] exI [of _ d1] exI [of _ c']) simp
qed

text \<open>The punch of the PC11 loses nothing and never stalls, in the same way; all bytes go to the file. The reader is idle.\<close>

theorem pc11_punches:
  assumes "pp_inv p c" and "\<not> pc_fPpQueBusy c" and "out_unit ds (pc_unit pc_kUnit_PP c)"
    and "pd_ok 0xff d" and "pd_fifo d = []" and "pd_sent d = []" and "pd_acts d = []"
    and "(fifo_step (pp_attn h p args) (pp_rcv h p))\<^sup>*\<^sup>* (c, d) (c1, d1)"
  shows "(\<exists>xs. pd_sent d1 = xs @ pd_fifo d1 \<and> out_unit (ds @ xs) (pc_unit pc_kUnit_PP c1)) \<and>
    (\<exists>c2 d2. (fifo_hdl (pp_attn h p args) (pp_rcv h p))\<^sup>*\<^sup>* (c1, d1) (c2, d2) \<and> pd_fifo d2 = [] \<and>
       out_unit (ds @ pd_sent d2) (pc_unit pc_kUnit_PP c2))"
proof -
  have "ppf.fifo_inv h p ds (c, d)"
    using assms(1-7) by (simp add: ppf.fifo_inv_def)
  note i = ppf.steps_inv [OF assms(8) this]
  from ppf.drains [OF i, of args] obtain s2 where
    s2: "(fifo_hdl (pp_attn h p args) (pp_rcv h p))\<^sup>*\<^sup>* (c1, d1) s2" "pd_fifo (snd s2) = []" "ppf.fifo_inv h p ds s2"
    by blast
  show ?thesis
    using i s2 by (cases s2) (auto simp: ppf.fifo_inv_def)
qed

section \<open>The reader\<close>

lemma pc_read_loop_ok:
  assumes "in_unit ds u"
  shows "\<exists>u'. pc_read_loop n u = Inr (length ds < n, map ucast (take n ds), u') \<and> in_unit (drop n ds) u' \<and> (length ds < n \<longrightarrow> unit_eof u')"
  using assms
proof (induction n arbitrary: ds u)
  case (Suc n)
  from in_unit_read1 [OF Suc.prems] obtain u1 where
    1: "us_VirtRead 1 u = Inr (int (length (take 1 ds)), take 1 ds, u1)" "in_unit (drop 1 ds) u1" "ds = [] \<longrightarrow> unit_eof u1"
    by blast
  show ?case
  proof (cases ds)
    case Nil
    then show ?thesis
      using 1 by simp
  next
    case (Cons x xs)
    obtain u2 where "pc_read_loop n u1 = Inr (length xs < n, map ucast (take n xs), u2)" "in_unit (drop n xs) u2" "length xs < n \<longrightarrow> unit_eof u2"
      using Suc.IH [of xs u1] 1(2) by (auto simp: Cons)
    then show ?thesis
      using 1(1) by (simp add: Cons)
  qed
qed auto

lemma pd_wibr:
  assumes "\<not> ibaddr_bad b"
  shows "ExecWibr (pd_link a) b v 0 0 0 0 p d = Inr (d\<lparr>pd_log := pd_log d @ [(IbusRemoteAddr b p, v)]\<rparr>)"
proof -
  have "kCmdWreg \<noteq> kCmdAttn" "kCmdWreg \<noteq> kCmdRblk"
    by (simp_all add: rl_defs)
  then have "pd_cmd a (wreg_cmd (IbusRemoteAddr b p) v) d =
      (SetStatus (cb_stat True) (wreg_cmd (IbusRemoteAddr b p) v), d\<lparr>pd_log := pd_log d @ [(IbusRemoteAddr b p, v)]\<rparr>)"
    by (simp add: pd_cmd_def) (simp add: wreg_cmd_def)
  then show ?thesis
    using assms by (simp add: ExecWibr_def AddWibr_def cl_AddWreg_eq clist_new_def srv_Exec_def throw_fail_def pd_link_def pd_exec_def)
qed

lemma pd_wbibr:
  assumes "\<not> ibaddr_bad b" and "ws \<noteq> []" and "length ws \<le> 65535"
  shows "\<exists>l l'. AddWbibr b ws p clist_new = Inr (0, l) \<and>
    srv_Exec (pd_link a) l d = Inr (l', d\<lparr>pd_log := pd_log d @ map (Pair (IbusRemoteAddr b p)) ws\<rparr>)"
proof -
  obtain c where c: "CmdWblk (IbusRemoteAddr b p) ws cmd_new = Inr c" "Command c = kCmdWblk" "cmd_fAddress c = IbusRemoteAddr b p" "cmd_fBlock c = ws" "cmd_fpBlockExt c = None"
    using assms(2,3) by (simp add: CmdWblk_def SetCommand_def SetBlockWrite_def cmd_new_def Command_def rl_defs)
  have "kCmdWblk \<noteq> kCmdRblk" "kCmdWblk \<noteq> kCmdAttn" "kCmdWblk \<noteq> kCmdWreg"
    by (simp_all add: rl_defs)
  then have "snd (pd_cmd a c d) = d\<lparr>pd_log := pd_log d @ map (Pair (IbusRemoteAddr b p)) ws\<rparr>"
    using c by (simp add: pd_cmd_def BlockSize_def BlockPointer_def HasBlockExt_def)
  then show ?thesis
    using assms(1) c(1)
    by (cases "pd_cmd a c d") (auto simp: AddWbibr_def cl_AddWblk_def cl_AddCommand_def clist_new_def srv_Exec_def throw_fail_def pd_link_def pd_exec_def)
qed

definition pr_regs :: "cpu \<Rightarrow> u16 \<Rightarrow> bool" where
  "pr_regs p base = (\<not> ibaddr_bad (base + pc_kRBUF) \<and> \<not> ibaddr_bad (base + pc_kRCSR))"

text \<open>\<open>ds\<close> are the bytes of the file that were not sent yet. Once the controller waits for the fifo to drain, or has seen that, none are left.\<close>

definition pr_inv :: "u8 list \<Rightarrow> pc11 \<Rightarrow> bool" where
  "pr_inv ds c =
     (length (pc_fspUnit c) = 2 \<and> in_unit ds (pc_unit pc_kUnit_PR c) \<and>
      (pc_fPrDrain c \<noteq> kPrDrain_Idle \<longrightarrow> ds = [] \<and> unit_eof (pc_unit pc_kUnit_PR c)))"

lemma diff16_range:
  assumes "(x :: u16) < y"
  shows "0 < unat (y - x)" "unat (y - x) \<le> 65535"
proof -
  have "unat (y - x) = unat y - unat x"
    using assms by (simp add: unat_sub word_less_nat_alt word_le_nat_alt)
  then show "0 < unat (y - x)" "unat (y - x) \<le> 65535"
    using assms unsigned_less [of y, where 'a = nat] by (simp_all add: word_less_nat_alt)
qed

lemma pr_step:
  assumes "pc_fPrDrain c = kPrDrain_Idle" and "rbuf AND pc_kRBUF_M_RBUSY \<noteq> 0" and "fuse = drop_bit pc_kRBUF_V_FUSE rbuf AND pc_kRBUF_B_FUSE"
    and "fuse < pc_fPrQlim c" and "n = unat (pc_fPrQlim c - fuse)" and "pc_read_loop n (pc_unit pc_kUnit_PR c) = Inr (fin, ws, u)"
    and "c1 = (if fin then (pc_put pc_kUnit_PR u c)\<lparr>pc_fPrDrain := kPrDrain_Pend\<rparr> else pc_put pc_kUnit_PR u c)" and "c2 = pc_inc pcStatNPrBlk c1"
  shows "pc_PrProcessBuf k p rbuf (c, w) =
      (if ws \<noteq> [] then ebind (AddWbibr (cc_fBase c2 + pc_kRBUF) ws p clist_new) (\<lambda>(i, l). ebind (srv_Exec k l w) (\<lambda>(l', w'). Inr (c2, w')))
       else if fuse = 0 \<and> pc_fPrDrain c1 = kPrDrain_Pend then pc_UnitSetup k p pc_kUnit_PR (c1\<lparr>pc_fPrDrain := kPrDrain_Done\<rparr>, w) else Inr (c1, w))"
proof -
  have "\<not> pc_fPrQlim c \<le> fuse"
    using assms(4) by simp
  then show ?thesis
    unfolding pc_PrProcessBuf_def prod.case Let_def assms(3) [symmetric] assms(5) [symmetric] using assms(1,2,6-8) by simp
qed

text \<open>The write that takes the reader off line.\<close>

definition pr_offline :: "cpu \<Rightarrow> pc11 \<Rightarrow> u16 \<times> u16" where
  "pr_offline p c = (IbusRemoteAddr (cc_fBase c + pc_kRCSR) p, pc_kRCSR_M_ERROR OR push_bit pc_kRCSR_V_RLIM (pc_fPrRlim c AND pc_kRCSR_B_RLIM))"

lemma pr_UnitSetup:
  assumes "pr_regs p (cc_fBase c)" and "unit_eof (pc_unit pc_kUnit_PR c)"
  shows "pc_UnitSetup (pd_link a) p pc_kUnit_PR (c\<lparr>pc_fPrDrain := kPrDrain_Done\<rparr>, d) =
    Inr (c\<lparr>pc_fPrDrain := kPrDrain_Done\<rparr>, d\<lparr>pd_log := pd_log d @ [pr_offline p c]\<rparr>)"
proof -
  have "\<not> pc_online pc_kUnit_PR (c\<lparr>pc_fPrDrain := kPrDrain_Done\<rparr>)"
    using assms(2) by (auto simp: pc_online_def unit_eof_def pc_unit_def split: option.splits)
  then show ?thesis
    using assms(1) by (simp add: pc_UnitSetup_def pd_wibr pr_regs_def pr_offline_def)
qed

lemma pr_put_unit: "length (pc_fspUnit c) = 2 \<Longrightarrow> pc_unit pc_kUnit_PR (pc_put pc_kUnit_PR u c) = u"
  by (simp add: pc_unit_def pc_put_def pc_kUnit_PR_def)

text \<open>A request with room in the fifo, while bytes of the file may still be left.\<close>

lemma pr_idle:
  assumes "pr_inv ds c" and "pr_regs p (cc_fBase c)" and "pc_fPrDrain c = kPrDrain_Idle" and busy: "rbuf AND pc_kRBUF_M_RBUSY \<noteq> 0"
    and fuse: "fuse = drop_bit pc_kRBUF_V_FUSE rbuf AND pc_kRBUF_B_FUSE" "fuse < pc_fPrQlim c" and n: "n = unat (pc_fPrQlim c - fuse)"
    and off: "off \<longleftrightarrow> fuse = 0 \<and> ds = []"
  shows "\<exists>c' d'. pc_PrProcessBuf (pd_link a) p rbuf (c, d) = Inr (c', d') \<and> pr_inv (drop n ds) c' \<and>
    pc_fPrDrain c' = (if off then kPrDrain_Done else if length ds < n then kPrDrain_Pend else kPrDrain_Idle) \<and>
    pd_log d' = pd_log d @ map (\<lambda>b. (IbusRemoteAddr (cc_fBase c + pc_kRBUF) p, ucast b)) (take n ds) @ (if off then [pr_offline p c] else [])"
proof -
  have i: "length (pc_fspUnit c) = 2" "in_unit ds (pc_unit pc_kUnit_PR c)"
    using assms(1) by (simp_all add: pr_inv_def)
  obtain u where u: "pc_read_loop n (pc_unit pc_kUnit_PR c) = Inr (length ds < n, map ucast (take n ds), u)" "in_unit (drop n ds) u" "length ds < n \<longrightarrow> unit_eof u"
    using pc_read_loop_ok [OF i(2)] by blast
  let ?c = "pc_put pc_kUnit_PR u c"
  let ?ws = "map ucast (take n ds) :: u16 list"
  let ?c1 = "if length ds < n then ?c\<lparr>pc_fPrDrain := kPrDrain_Pend\<rparr> else ?c"
  note n0 = diff16_range [OF fuse(2), folded n]
  note st = pr_step [OF assms(3) busy fuse n u(1) refl refl, of "pd_link a" p d]
  have up: "pc_unit pc_kUnit_PR ?c = u" "cc_fBase ?c = cc_fBase c" "pr_offline p ?c = pr_offline p c" "length (pc_fspUnit ?c) = 2" "pc_fPrDrain ?c = kPrDrain_Idle"
    using i(1) assms(3) by (simp_all add: pr_put_unit) (simp_all add: pc_put_def pr_offline_def)
  have inv: "pr_inv (drop n ds) (?c\<lparr>pc_fPrDrain := x\<rparr>)" if "x \<noteq> kPrDrain_Idle \<longrightarrow> length ds < n" for x
    using that u(2,3) up by (auto simp: pr_inv_def pc_unit_def)
  show ?thesis
  proof (cases "ds = []")
    case True
    then show ?thesis
      using st inv n0(1) off pr_UnitSetup [of p ?c a d] assms(2) u(3) up by (cases "fuse = 0") auto
  next
    case False
    then have ws: "?ws \<noteq> []" "length ?ws \<le> 65535"
      using n0 by simp_all
    have up2: "pr_inv (drop n ds) (pc_inc pcStatNPrBlk ?c1)" "cc_fBase (pc_inc pcStatNPrBlk ?c1) = cc_fBase c"
      "pc_fPrDrain (pc_inc pcStatNPrBlk ?c1) = (if length ds < n then kPrDrain_Pend else kPrDrain_Idle)"
      using inv [of kPrDrain_Pend] inv [of kPrDrain_Idle] up by (simp_all add: pr_inv_def pc_inc_def pc_unit_def)
    obtain l l' where l: "AddWbibr (cc_fBase c + pc_kRBUF) ?ws p clist_new = Inr (0, l)"
      "srv_Exec (pd_link a) l d = Inr (l', d\<lparr>pd_log := pd_log d @ map (Pair (IbusRemoteAddr (cc_fBase c + pc_kRBUF) p)) ?ws\<rparr>)"
      using pd_wbibr [OF _ ws, of "cc_fBase c + pc_kRBUF" p a d] assms(2) unfolding pr_regs_def by blast
    then show ?thesis
      using False st up2 ws(1) off by (simp add: comp_def)
  qed
qed

text \<open>C21: One request of the reader, in any state, with what it writes to the device. A request that asks for data while the file is not used up fills the
  fifo up to the limit with the next bytes of the file, in order, and nothing else is written to the data register. If the file has not enough bytes the
  controller waits until the fifo is read empty (\<open>kPrDrain_Pend\<close>). The reader is taken off line, by a write of the status register with the error bit and the
  rate limit, exactly at a request with an empty fifo and no byte left to send (and a limit that is not 0), and this happens once (\<open>kPrDrain_Done\<close>). The file is read without I/O errors.\<close>

theorem pc11_reads:
  assumes "pr_inv ds c" and "pr_regs p (cc_fBase c)" and fuse: "fuse = drop_bit pc_kRBUF_V_FUSE rbuf AND pc_kRBUF_B_FUSE"
    and n: "n = (if rbuf AND pc_kRBUF_M_RBUSY \<noteq> 0 \<and> pc_fPrDrain c = kPrDrain_Idle \<and> fuse < pc_fPrQlim c then unat (pc_fPrQlim c - fuse) else 0)"
    and off: "off \<longleftrightarrow> rbuf AND pc_kRBUF_M_RBUSY \<noteq> 0 \<and> fuse = 0 \<and> (pc_fPrDrain c = kPrDrain_Pend \<or> pc_fPrDrain c = kPrDrain_Idle \<and> 0 < pc_fPrQlim c \<and> ds = [])"
  shows "\<exists>c' d'. pc_PrProcessBuf (pd_link a) p rbuf (c, d) = Inr (c', d') \<and> pr_inv (drop n ds) c' \<and>
    pc_fPrDrain c' = (if off then kPrDrain_Done else if length ds < n then kPrDrain_Pend else pc_fPrDrain c) \<and>
    pd_log d' = pd_log d @ map (\<lambda>b. (IbusRemoteAddr (cc_fBase c + pc_kRBUF) p, ucast b)) (take n ds) @ (if off then [pr_offline p c] else [])"
proof (cases "rbuf AND pc_kRBUF_M_RBUSY \<noteq> 0 \<and> pc_fPrDrain c = kPrDrain_Idle \<and> fuse < pc_fPrQlim c")
  case True
  then show ?thesis
    using pr_idle [OF assms(1,2) _ _ fuse _ refl refl, of a d] by (auto simp: n off cong: if_cong)
next
  case False
  have "pr_inv ds (c\<lparr>pc_fPrDrain := kPrDrain_Done\<rparr>) \<and> pc_UnitSetup (pd_link a) p pc_kUnit_PR (c\<lparr>pc_fPrDrain := kPrDrain_Done\<rparr>, d) =
      Inr (c\<lparr>pc_fPrDrain := kPrDrain_Done\<rparr>, d\<lparr>pd_log := pd_log d @ [pr_offline p c]\<rparr>)" if "pc_fPrDrain c = kPrDrain_Pend"
    using that assms(1,2) pr_UnitSetup [of p c a d] by (auto simp: pr_inv_def pc_unit_def)
  then show ?thesis
    using False assms(1) by (cases "pc_fPrDrain c") (auto simp: pc_PrProcessBuf_def fuse [symmetric] n off)
qed

section \<open>Examples\<close>

definition demo_out :: vstream where
  "demo_out = vstream_new\<lparr>vs_fOStream := True, vs_fFile := Some \<lparr>cf_data = [], cf_off = 0, cf_append = False, cf_err = False, cf_eof = False, cf_script = []\<rparr>\<rparr>"

definition demo_in :: vstream where
  "demo_in = vstream_new\<lparr>vs_fIStream := True, vs_fFile := Some \<lparr>cf_data = [1, 2, 3], cf_off = 0, cf_append = False, cf_err = False, cf_eof = False, cf_script = []\<rparr>\<rparr>"

definition demo_pd :: "u8 \<Rightarrow> pdev" where
  "demo_pd m = \<lparr>pd_fifo = [], pd_size = 127, pd_mask = m, pd_lam = False, pd_sent = [], pd_arr = [], pd_acts = [], pd_log = []\<rparr>"

definition demo_prim :: "u16 \<Rightarrow> command list \<Rightarrow> clist" where
  "demo_prim a cs = clist_new\<lparr>cl_fList := [cmd_new\<lparr>cmd_fRequest := kCmdAttn\<rparr>, cmd_new\<lparr>cmd_fRequest := kCmdRblk, cmd_fAddress := a, cmd_fBlock := [0, 0, 0, 0]\<rparr>] @ cs\<rparr>"

definition demo_lp :: lp11 where
  "demo_lp = lp11_new\<lparr>cc_fBase := 0xff4c, lp_fFsize := 127, lp_fPC_buf := 1, lp_fspUnit := (ulp11_new 0)\<lparr>us_fupVirt := Some demo_out\<rparr>,
     lp_fPrimClist := demo_prim (IbusRemoteAddr 0xff4e (cpu_new ''w11a'')) []\<rparr>"

definition demo_pc :: pc11 where
  "demo_pc = pc11_new\<lparr>cc_fBase := 0xff68, pc_fFsize := 127, pc_fPrQlim := 2, pc_fspUnit := [(upc11_new 0)\<lparr>us_fupVirt := Some demo_in\<rparr>, upc11_new 1]\<rparr>"

lemma demo_lp_inv: "lp_inv (cpu_new ''w11a'') demo_lp" "\<not> lp_fQueBusy demo_lp" "out_unit [] (lp_fspUnit demo_lp)"
  by (simp_all add: lp_inv_def demo_lp_def demo_prim_def fifo_prim_def rbuf_cmd_def lp_Buffered_def lp11_new_def cntl.defs cntl_new_def ibaddr_bad_def cmd_new_def Command_def
      dev_defs rl_defs out_unit_def out_file_def demo_out_def)

theorem lp11_prints_witness:
  "\<exists>c2 d2. (fifo_hdl (lp_attn 7 (cpu_new ''w11a'') (attn_args_new 1 1)) (lp_rcv 7 (cpu_new ''w11a'')))\<^sup>*\<^sup>* (demo_lp, pd_push 65 (demo_pd 0x7f)) (c2, d2) \<and> pd_fifo d2 = [] \<and>
     out_unit (filter lp_keep (pd_sent d2)) (lp_fspUnit c2)"
proof -
  have "(fifo_step (lp_attn 7 (cpu_new ''w11a'') (attn_args_new 1 1)) (lp_rcv 7 (cpu_new ''w11a'')))\<^sup>*\<^sup>* (demo_lp, demo_pd 0x7f) (demo_lp, pd_push 65 (demo_pd 0x7f))"
    by (rule r_into_rtranclp) (rule fifo_step.cpu)
  from lp11_prints [OF demo_lp_inv _ _ _ _ this] show ?thesis
    by (simp add: demo_pd_def pd_ok_def)
qed

definition demo_pc_end :: pc11 where
  "demo_pc_end = demo_pc\<lparr>pc_fspUnit := [(upc11_new 0)\<lparr>us_fupVirt := Some (demo_in\<lparr>vs_fFile := map_option (cf_off_update (\<lambda>_. 3)) (vs_fFile demo_in)\<rparr>)\<rparr>, upc11_new 1]\<rparr>"

lemma demo_pc_reader: "pr_inv [1, 2, 3] demo_pc" "pr_inv [] demo_pc_end" "pr_regs (cpu_new ''w11a'') (cc_fBase demo_pc)" "pr_regs (cpu_new ''w11a'') (cc_fBase demo_pc_end)"
    "pc_fPrDrain demo_pc = kPrDrain_Idle" "pc_fPrQlim demo_pc = 2" "cc_fBase demo_pc = 0xff68" "pc_fPrDrain demo_pc_end = kPrDrain_Idle" "pc_fPrQlim demo_pc_end = 2"
    "pr_offline (cpu_new ''w11a'') demo_pc_end = (IbusRemoteAddr 0xff68 (cpu_new ''w11a''), 0x8000)"
  by (simp_all add: pr_inv_def in_unit_def pc_unit_def demo_pc_end_def demo_pc_def demo_in_def pr_regs_def ibaddr_bad_def pc11_new_def cntl.defs pr_offline_def dev_defs)

text \<open>The first request on a file of three bytes, and a request after the last byte was read.\<close>

theorem pc11_reads_witness:
  "(\<exists>c' d'. pc_PrProcessBuf (pd_link 0) (cpu_new ''w11a'') 0x8000 (demo_pc, demo_pd 0xff) = Inr (c', d') \<and> pr_inv [3] c' \<and> pc_fPrDrain c' = kPrDrain_Idle \<and>
      pd_log d' = [(IbusRemoteAddr 0xff6a (cpu_new ''w11a''), 1), (IbusRemoteAddr 0xff6a (cpu_new ''w11a''), 2)]) \<and>
   (\<exists>c' d'. pc_PrProcessBuf (pd_link 0) (cpu_new ''w11a'') 0x8000 (demo_pc_end, demo_pd 0xff) = Inr (c', d') \<and> pr_inv [] c' \<and> pc_fPrDrain c' = kPrDrain_Done \<and>
      pd_log d' = [(IbusRemoteAddr 0xff68 (cpu_new ''w11a''), 0x8000)])"
proof -
  have r: "(0x8000 :: u16) AND pc_kRBUF_M_RBUSY \<noteq> 0" "0 = drop_bit pc_kRBUF_V_FUSE (0x8000 :: u16) AND pc_kRBUF_B_FUSE" "pd_log (demo_pd 0xff) = []" "pc_kRBUF = 2"
    by (simp_all add: demo_pd_def dev_defs)
  show ?thesis
    using pc11_reads [OF demo_pc_reader(1,3) r(2) refl refl, of 0 "demo_pd 0xff"] pc11_reads [OF demo_pc_reader(2,4) r(2) refl refl, of 0 "demo_pd 0xff"] r(1)
    by (simp add: demo_pc_reader r(3,4))
qed

end
