(* ===== verification/Spec2Isabelle.thy ===== *)
theory Spec2Isabelle
  imports RlinkServer Rw11RK11Rep Rw11RL11Rep Rw11RHRPRep Rw11TM11Rep Rw11StreamRep
begin

text \<open>
  \<^bold>\<open>The w11 backend server.\<close> The w11 is a PDP-11 in an FPGA. Its disks, tapes and other devices are emulated by a C++ server on a host
  (\<open>tools/src\<close>): the FPGA raises an attention, the server reads the device registers over a serial link, works on files of the host,
  moves data to or from the memory of the PDP-11 and writes the device registers back. This development models the server from the
  bytes on the link up to the disk and tape transfers of a controller.

  \<^bold>\<open>Parts and theories\<close>, from the bottom up.

  \<^item> \<open>W11_Prelude\<close>: machine integers as words, exceptions as values (\<open>Inl (Rexception ..)\<close>, and \<open>Inl MemFault\<close> for an access
    outside of an array), \<open>size_t\<close> subtraction, bytes and words.
  \<^item> Link protocol, \<open>librlink\<close>. \<open>RlinkCrc16\<close>, \<open>RlinkPacketBuf\<close>, \<open>RlinkPort\<close>, \<open>RlinkPacketBufSnd\<close>, \<open>RlinkPacketBufRcv\<close>,
    \<open>RlinkCommand\<close> (with \<open>RlinkCommandExpect\<close> and \<open>RlinkContext\<close>), \<open>RlinkCommandList\<close>, \<open>RlinkAddrMap\<close> and \<open>RlinkConnect\<close> are the
    classes of these names: a record per class, a definition per method. \<open>RlinkReceiver\<close> has the byte machine that the receive loops
    refine; \<open>RlinkDecode\<close>, \<open>RlinkEncode\<close>, \<open>RlinkExec\<close> and \<open>RlinkAttn\<close> have what the packets mean and the proofs about
    \<open>RlinkConnect\<close>: a command list becomes one request frame, the response may arrive in any pieces, every reply reaches its command,
    a bad response is refused at the command that fails, attention notifies are not lost.
  \<^item> Server, \<open>ReventLoop\<close> and \<open>RlinkServer\<close> (with \<open>RlinkServerEventLoop\<close>): poll handlers, attention handlers, the action queue,
    start and stop of the event loop. Handlers are numbers; what a handler does is a parameter of the loop.
  \<^item> Tools, \<open>librtools\<close>: \<open>RparseUrl\<close>, \<open>Rtools\<close>, \<open>RfileFd\<close> (\<open>Rfd\<close>, \<open>RfileFd\<close> over the bytes of a file).
  \<^item> Virtual devices, \<open>librw11\<close>: \<open>Rw11VirtTape\<close> (tap files) with \<open>Rw11TapeRep\<close>, the file as a sequence of records and marks;
    \<open>Rw11VirtDisk\<close> (file, overlay, memory) with \<open>Rw11DiskRep\<close>, every disk as an array of blocks (locale \<open>block_disk\<close>, interpreted on the
    file, overlay and memory disks).
  \<^item> CPU, \<open>Rw11Cpu\<close>: \<open>Rw11Cpu\<close>, \<open>Rw11Cntl\<close>, \<open>Rw11Probe\<close>. What a CPU uses of server and connection is the record \<open>link\<close>;
    \<open>server_link\<close> is the one of \<open>RlinkServer\<close>. \<open>Rw11CpPort\<close> is the other end of the link: the memory registers of the control port,
    from \<open>rtl/w11a/pdp11_core_rbus.vhd\<close> and \<open>pdp11_vmbox.vhd\<close>. \<open>Rw11CpuMem\<close> and \<open>Rw11LoadAbs\<close> show what the memory functions and
    the absolute loader do to the memory behind it.
  \<^item> DMA, \<open>Rw11Rdma\<close>: units (\<open>Rw11UnitVirt\<close>, \<open>Rw11UnitDisk\<close>, \<open>Rw11UnitDiskBase\<close>), \<open>Rw11Rdma\<close>, \<open>Rw11RdmaDisk\<close>. \<open>Rw11RdmaRep\<close>
    has the contract of a DMA client (locales \<open>dma_client\<close> and \<open>disk_dma\<close>): a chain of chunks is one transfer.
  \<^item> Controllers: \<open>Rw11CntlBase\<close> has what they share and \<open>Rw11CntlRep\<close> what a sequence of register writes means behind the link.
    \<open>Rw11CntlRK11\<close>, \<open>Rw11CntlRL11\<close>, \<open>Rw11CntlRHRP\<close> and \<open>Rw11CntlTM11\<close> are the controllers of these names with their units (\<open>Rw11UnitTape\<close> has the
    tape units). \<open>Rw11RK11Rep\<close> interprets the disk DMA contract on the RK11 and follows a read and a write from the attention to the
    last register write. \<open>Rw11RL11Rep\<close> does it for the RL11, from the register values on (\<open>rl_handle\<close>), with the end of the track as the
    bound of a transfer, \<open>Rw11RHRPRep\<close> for every drive type of the RHRP, with the end of the disk as the bound. \<open>Rw11TM11Rep\<close> interprets \<open>dma_client\<close> on the TM11 and follows the read and the write of one tape record.
  \<^item> Streams, \<open>Rw11VirtStream\<close> (with \<open>Rw11UnitStream\<close>, over a model of \<open>stdio\<close>), and the controllers that use them: \<open>Rw11CntlStream\<close> has what they
    share, \<open>Rw11CntlLP11\<close> is the printer, \<open>Rw11CntlPC11\<close> paper tape reader and punch. \<open>Rw11FifoRep\<close> has the fifo of the devices, from
    \<open>rtl/ibus/ibdr_lp11_buf.vhd\<close>, the step relation of CPU, device and server, and the locale \<open>fifo_client\<close>: handlers that read the fifo in blocks lose no character and
    leave no character behind. \<open>Rw11StreamRep\<close> interprets it on the LP11 and on the punch.

  \<^bold>\<open>State and effects.\<close> Every class is a record, a method a function from the state to \<open>error + (result and new state)\<close>. After an
  exception there is no state. System calls are scripts in the state: the results that \<open>read\<close>, \<open>write\<close> and \<open>poll\<close> deliver, one after
  the other; an empty script is an idle system. Virtual functions and callbacks are arguments.

  \<^bold>\<open>Loops.\<close> Loops over data have measures. The loop that calls attention handlers, the loop of \<open>SetPosFile\<close> and the chain of DMA
  chunks are \<open>partial_function (option)\<close>; that they return is part of \<open>CallAttnHandler_no_loss\<close>, \<open>SetPosFile_ends\<close>, \<open>rk11_read\<close>,
  \<open>rk11_write\<close> and their siblings for RL11, RHRP and TM11. Loops on the port end with the script.

  \<^bold>\<open>Bounds.\<close> Disk block numbers stay below \<open>2 ^ 32\<close> as the 32 bit keys of the code have it; memory functions with 16 bit addresses work
  below the I/O page, DMA below the end of a 22 bit memory with the Unibus map off; link blocks have 1 to 65535 words, DMA chunks
  any positive size up to the largest link block.

  \<^bold>\<open>Where the code is not right.\<close> Some theorems state what the code does where it is not what it means to do: \<open>ReadRecord_seek_too_far\<close> (long and
  padded odd tape records), \<open>BlockCheck_overrun\<close> (a done count larger than the buffer; \<open>DecodeResponse_sound\<close> has the condition under which there is no fault),
  \<open>rhrp_bad_address\<close> and \<open>rl11_in_track\<close> (disk addresses behind the end of the disk), \<open>LoadAbs_bad_chksum\<close>. The value that the erase functions of
  \<open>RlinkAddrMap\<close> read from an erased entry is a parameter; \<open>addrmap_bijection\<close> says what follows if it is the old value and if it is not.

  \<^bold>\<open>Not modelled.\<close> Message and log texts, tracing, dumps and the list output. Mutexes and threads: every method runs alone. The ports
  for terminals, fifos and USB, virtual terminals and Ethernet: thin layers over system calls. The FPGA but for the memory
  registers. The Tcl bindings, the USB firmware, scripts and test benches. The controllers for
  terminals and Ethernet (DL11, DZ11, DEUNA).
\<close>

end
